(* ===== verification/Prelude.thy ===== *)
theory Prelude
  imports Main "HOL-Library.Sublist"
begin

text \<open>
  Shared vocabulary of the development: the JavaScript strings, numbers and JSON values the
  front end of basement computes with, and the theorem collections the components extend.

  A JavaScript string is a \<open>string\<close> holding its UTF-8 bytes. Strings that are not well-formed
  Unicode (lone surrogates) are outside the model. Every operation below works on bytes in a way
  that agrees with the code-unit operation of the language on well-formed strings: splitting and
  searching for an ASCII character, prefixes, \<open>trim\<close> (the white space of ECMAScript, the
  multi-byte code points included) and \<open>toLowerCase\<close> as far as ASCII can tell (the two
  non-ASCII code points whose lower-case form contains ASCII letters are translated, the other
  non-ASCII letters are left alone, which no comparison with an ASCII literal can notice).
\<close>

named_theorems idiom_defs \<open>the recurring statement patterns of the API hooks\<close>
named_theorems hook_defs \<open>the definitions of the API hooks\<close>

section \<open>Strings\<close>

abbreviation startsWith :: "string \<Rightarrow> string \<Rightarrow> bool" where
  "startsWith s p \<equiv> prefix p s"

abbreviation LF :: char where "LF \<equiv> CHR 0x0A"
abbreviation CR :: char where "CR \<equiv> CHR 0x0D"
abbreviation TAB :: char where "TAB \<equiv> CHR 0x09"

text \<open>\<open>s.split(d)\<close> for a one-character delimiter: never the empty list.\<close>

fun splitOn :: "char \<Rightarrow> string \<Rightarrow> string list" where
  "splitOn d [] = [[]]"
| "splitOn d (c # cs) =
     (if c = d then [] # splitOn d cs
      else (case splitOn d cs of [] \<Rightarrow> [[c]] | w # ws \<Rightarrow> (c # w) # ws))"

text \<open>\<open>s.split(/\r?\n/)\<close>.\<close>

fun splitLines :: "string \<Rightarrow> string list" where
  "splitLines [] = [[]]"
| "splitLines [c] = (if c = LF then [[], []] else [[c]])"
| "splitLines (c # d # cs) =
     (if c = LF then [] # splitLines (d # cs)
      else if c = CR \<and> d = LF then [] # splitLines cs
      else (case splitLines (d # cs) of [] \<Rightarrow> [[c]] | w # ws \<Rightarrow> (c # w) # ws))"

text \<open>Joining with a separator, the inverse of splitting.\<close>

fun joinWith :: "string \<Rightarrow> string list \<Rightarrow> string" where
  "joinWith d [] = []"
| "joinWith d [w] = w"
| "joinWith d (w # v # ws) = w @ d @ joinWith d (v # ws)"

text \<open>The UTF-8 encodings of ECMAScript white space and line terminators.\<close>

definition wsTokens :: "string list" where
  "wsTokens =
     [[CHR 0x09], [CHR 0x0A], [CHR 0x0B], [CHR 0x0C], [CHR 0x0D], [CHR 0x20],
      [CHR 0xC2, CHR 0xA0], [CHR 0xE1, CHR 0x9A, CHR 0x80],
      [CHR 0xE2, CHR 0x80, CHR 0x80], [CHR 0xE2, CHR 0x80, CHR 0x81],
      [CHR 0xE2, CHR 0x80, CHR 0x82], [CHR 0xE2, CHR 0x80, CHR 0x83],
      [CHR 0xE2, CHR 0x80, CHR 0x84], [CHR 0xE2, CHR 0x80, CHR 0x85],
      [CHR 0xE2, CHR 0x80, CHR 0x86], [CHR 0xE2, CHR 0x80, CHR 0x87],
      [CHR 0xE2, CHR 0x80, CHR 0x88], [CHR 0xE2, CHR 0x80, CHR 0x89],
      [CHR 0xE2, CHR 0x80, CHR 0x8A], [CHR 0xE2, CHR 0x80, CHR 0xA8],
      [CHR 0xE2, CHR 0x80, CHR 0xA9], [CHR 0xE2, CHR 0x80, CHR 0xAF],
      [CHR 0xE2, CHR 0x81, CHR 0x9F], [CHR 0xE3, CHR 0x80, CHR 0x80],
      [CHR 0xEF, CHR 0xBB, CHR 0xBF]]"

text \<open>Drop leading tokens for as long as one stands at the front.\<close>

function strip :: "string list \<Rightarrow> string \<Rightarrow> string" where
  "strip toks s =
     (case find (\<lambda>t. t \<noteq> [] \<and> prefix t s) toks of
        None \<Rightarrow> s
      | Some t \<Rightarrow> strip toks (drop (length t) s))"
  by pat_completeness auto
termination
proof (relation "measure (\<lambda>(toks, s). length s)")
  show "wf (measure (\<lambda>(toks :: string list, s :: string). length s))" by simp
next
  fix toks :: "string list" and s t :: string
  assume "find (\<lambda>t. t \<noteq> [] \<and> prefix t s) toks = Some t"
  then have "t \<noteq> []" and "prefix t s" by (auto simp: find_Some_iff)
  then have "0 < length t" and "0 < length s" by (auto simp: prefix_def)
  then show "((toks, drop (length t) s), (toks, s))
      \<in> measure (\<lambda>(toks :: string list, s :: string). length s)" by simp
qed

declare strip.simps [simp del]

definition trimStart :: "string \<Rightarrow> string" where
  "trimStart s = strip wsTokens s"

definition trimEnd :: "string \<Rightarrow> string" where
  "trimEnd s = rev (strip (map rev wsTokens) (rev s))"

definition trim :: "string \<Rightarrow> string" where
  "trim s = trimEnd (trimStart s)"

definition lowerChar :: "char \<Rightarrow> char" where
  "lowerChar c =
     (if of_char c \<ge> (65 :: nat) \<and> of_char c \<le> (90 :: nat) then char_of (of_char c + (32 :: nat))
      else c)"

text \<open>
  \<open>toLowerCase\<close>: KELVIN SIGN becomes \<open>k\<close>, LATIN CAPITAL I WITH DOT becomes \<open>i\<close> with a combining
  dot; the other code points above ASCII have no ASCII letter in their lower-case form.
\<close>

fun toLowerCase :: "string \<Rightarrow> string" where
  "toLowerCase [] = []"
| "toLowerCase (c # cs) =
     (case cs of
        d # ds \<Rightarrow>
          (if c = CHR 0xC4 \<and> d = CHR 0xB0 then CHR ''i'' # CHR 0xCC # CHR 0x87 # toLowerCase ds
           else if c = CHR 0xE2 \<and> d = CHR 0x84 \<and> ds \<noteq> [] \<and> hd ds = CHR 0xAA
             then CHR ''k'' # toLowerCase (tl ds)
           else lowerChar c # toLowerCase cs)
      | [] \<Rightarrow> [lowerChar c])"

text \<open>\<open>s.indexOf(c)\<close>, with \<open>None\<close> for \<open>-1\<close>.\<close>

fun indexOf :: "string \<Rightarrow> char \<Rightarrow> nat option" where
  "indexOf [] d = None"
| "indexOf (c # cs) d = (if c = d then Some 0 else map_option Suc (indexOf cs d))"

text \<open>Decimal notation, as in a template string.\<close>

fun dec :: "nat \<Rightarrow> string" where
  "dec n = (if n < 10 then [char_of (48 + n)] else dec (n div 10) @ [char_of (48 + n mod 10)])"

declare dec.simps [simp del]

definition decInt :: "int \<Rightarrow> string" where
  "decInt i = (if i < 0 then ''-'' @ dec (nat (- i)) else dec (nat i))"

text \<open>The em dash, in UTF-8.\<close>

definition emDash :: string where
  "emDash = [CHR 0xE2, CHR 0x80, CHR 0x94]"

section \<open>Splitting and joining\<close>

lemma splitOn_nonempty [simp]: "splitOn d s \<noteq> []"
  by (cases s) (auto split: list.splits)

lemma splitOn_no_delim: "d \<notin> set s \<Longrightarrow> splitOn d s = [s]"
  by (induction s) auto

lemma splitOn_append: "d \<notin> set w \<Longrightarrow> splitOn d (w @ d # s) = w # splitOn d s"
  by (induction w) auto

lemma splitOn_join:
  "ws \<noteq> [] \<Longrightarrow> (\<forall>w \<in> set ws. d \<notin> set w) \<Longrightarrow> splitOn d (joinWith [d] ws) = ws"
proof (induction "[d]" ws rule: joinWith.induct)
  case 1
  then show ?case by simp
next
  case (2 w)
  then show ?case by (simp add: splitOn_no_delim)
next
  case (3 w v ws)
  then show ?case by (simp add: splitOn_append)
qed

lemma splitLines_nonempty [simp]: "splitLines s \<noteq> []"
  by (induction s rule: splitLines.induct) (auto split: list.splits)

lemma splitLines_plain: "LF \<notin> set s \<Longrightarrow> splitLines s = [s]"
  by (induction s rule: splitLines.induct) auto

lemma splitLines_append:
  "LF \<notin> set w \<Longrightarrow> CR \<notin> set w \<Longrightarrow> splitLines (w @ LF # s) = w # splitLines s"
proof (induction w)
  case Nil
  then show ?case by (cases s) auto
next
  case (Cons c w)
  then show ?case by (cases w) auto
qed

lemma splitLines_join:
  "ws \<noteq> [] \<Longrightarrow> (\<forall>w \<in> set ws. LF \<notin> set w \<and> CR \<notin> set w) \<Longrightarrow>
   splitLines (joinWith [LF] ws) = ws"
proof (induction "[LF]" ws rule: joinWith.induct)
  case 1
  then show ?case by simp
next
  case (2 w)
  then show ?case by (simp add: splitLines_plain)
next
  case (3 w v ws)
  then show ?case by (simp add: splitLines_append)
qed

section \<open>Trimming\<close>

lemma strip_id: "(\<forall>t \<in> set toks. t = [] \<or> \<not> prefix t s) \<Longrightarrow> strip toks s = s"
  by (subst strip.simps) (auto simp: find_None_iff[THEN iffD2] split: option.splits)

lemma strip_stripped: "t \<in> set toks \<Longrightarrow> t \<noteq> [] \<Longrightarrow> \<not> prefix t (strip toks s)"
proof (induction toks s rule: strip.induct)
  case (1 toks s)
  show ?case
  proof (cases "find (\<lambda>t. t \<noteq> [] \<and> prefix t s) toks")
    case None
    then have "strip toks s = s" by (subst strip.simps) simp
    then show ?thesis using None 1(2,3) by (auto simp: find_None_iff)
  next
    case (Some u)
    then have "strip toks s = strip toks (drop (length u) s)" by (subst strip.simps) simp
    then show ?thesis using 1(1)[OF Some 1(2,3)] by simp
  qed
qed

lemma strip_suffix: "suffix (strip toks s) s"
proof (induction toks s rule: strip.induct)
  case (1 toks s)
  show ?case
  proof (cases "find (\<lambda>t. t \<noteq> [] \<and> prefix t s) toks")
    case None
    then show ?thesis by (subst strip.simps) simp
  next
    case (Some u)
    then have "suffix (strip toks (drop (length u) s)) (drop (length u) s)"
      using 1 by simp
    then show ?thesis using Some
      by (subst strip.simps) (simp add: suffix_drop suffix_order.trans)
  qed
qed

text \<open>A string that neither starts nor ends with a white-space byte sequence is its own trim.\<close>

definition trimmed :: "string \<Rightarrow> bool" where
  "trimmed s \<longleftrightarrow> list_all (\<lambda>t. \<not> prefix t s \<and> \<not> suffix t s) wsTokens"

lemma trim_id: "trimmed s \<Longrightarrow> trim s = s"
proof -
  assume "trimmed s"
  then have a: "\<forall>t \<in> set wsTokens. \<not> prefix t s \<and> \<not> suffix t s"
    by (simp add: trimmed_def list_all_iff)
  then have "trimStart s = s" by (simp add: trimStart_def strip_id)
  moreover have "strip (map rev wsTokens) (rev s) = rev s"
    using a by (intro strip_id) (auto simp: suffix_to_prefix)
  ultimately show ?thesis by (simp add: trim_def trimEnd_def)
qed

section \<open>JSON values\<close>

text \<open>
  The values a hook can see: what \<open>JSON.parse\<close> returns, and \<open>undefined\<close>. Numbers are integers;
  objects are association lists in key order.
\<close>

datatype json =
    JUndef
  | JNull
  | JBool bool
  | JNum int
  | JStr string
  | JArr "json list"
  | JObj "(string \<times> json) list"

text \<open>Property read with optional chaining (\<open>j?.k\<close>).\<close>

fun getProp :: "json \<Rightarrow> string \<Rightarrow> json" where
  "getProp (JObj fs) k = (case map_of fs k of None \<Rightarrow> JUndef | Some v \<Rightarrow> v)"
| "getProp _ k = JUndef"

fun hasProp :: "json \<Rightarrow> string \<Rightarrow> bool" where
  "hasProp (JObj fs) k = (k \<in> fst ` set fs)"
| "hasProp _ k = False"

fun truthy :: "json \<Rightarrow> bool" where
  "truthy JUndef = False"
| "truthy JNull = False"
| "truthy (JBool b) = b"
| "truthy (JNum n) = (n \<noteq> 0)"
| "truthy (JStr s) = (s \<noteq> [])"
| "truthy (JArr _) = True"
| "truthy (JObj _) = True"

text \<open>\<open>a ?? b\<close>.\<close>

fun orElse :: "json \<Rightarrow> json \<Rightarrow> json" where
  "orElse JUndef b = b"
| "orElse JNull b = b"
| "orElse a b = a"

text \<open>String conversion in a template.\<close>

fun toStr :: "json \<Rightarrow> string" where
  "toStr JUndef = ''undefined''"
| "toStr JNull = ''null''"
| "toStr (JBool b) = (if b then ''true'' else ''false'')"
| "toStr (JNum n) = decInt n"
| "toStr (JStr s) = s"
| "toStr (JArr xs) =
     joinWith '','' (map (\<lambda>x. if x = JUndef \<or> x = JNull then [] else toStr x) xs)"
| "toStr (JObj _) = ''[object Object]''"

text \<open>An object literal as \<open>JSON.stringify\<close> writes it: undefined members are left out.\<close>

definition jobj :: "(string \<times> json) list \<Rightarrow> json" where
  "jobj fs = JObj (filter (\<lambda>(k, v). v \<noteq> JUndef) fs)"

definition optStr :: "string option \<Rightarrow> json" where
  "optStr = case_option JUndef JStr"

definition optNum :: "int option \<Rightarrow> json" where
  "optNum = case_option JUndef JNum"

definition optBool :: "bool option \<Rightarrow> json" where
  "optBool = case_option JUndef JBool"

text \<open>\<open>!!s\<close> for a string that may be null or undefined.\<close>

fun present :: "string option \<Rightarrow> bool" where
  "present None = False"
| "present (Some s) = (s \<noteq> [])"

lemma present_iff: "present x \<longleftrightarrow> (\<exists>s. x = Some s \<and> s \<noteq> [])"
  by (cases x) auto

lemma orElse_truthy [simp]: "truthy a \<Longrightarrow> orElse a b = a"
  by (cases a) auto

lemma getProp_jobj:
  assumes "distinct (map fst fs)"
  shows "getProp (jobj fs) k = (case map_of fs k of None \<Rightarrow> JUndef | Some v \<Rightarrow> v)"
proof -
  have "map_of (filter (\<lambda>(k, v). v \<noteq> JUndef) fs) k = (case map_of fs k of None \<Rightarrow> None | Some v \<Rightarrow> if v = JUndef then None else Some v)"
    using assms
  proof (induction fs)
    case Nil
    then show ?case by simp
  next
    case (Cons x fs)
    obtain j v where x: "x = (j, v)" by fastforce
    have "map_of fs j = None" using Cons.prems x by (simp add: map_of_eq_None_iff)
    with Cons x show ?case by auto
  qed
  then show ?thesis by (simp add: jobj_def split: option.split)
qed

section \<open>Runs of a state machine\<close>

text \<open>What holds at the end of a run and not at its start was brought about by some event and has held ever since.\<close>

lemma held_since:
  assumes "P (foldl f s es)" and "\<not> P s"
  shows "\<exists>es1 e es2. es = es1 @ e # es2 \<and> \<not> P (foldl f s es1) \<and> (\<forall>n \<le> length es2. P (foldl f s (es1 @ e # take n es2)))"
  using assms(1)
proof (induction es rule: rev_induct)
  case Nil
  then show ?case using assms(2) by simp
next
  case (snoc x es)
  show ?case
  proof (cases "P (foldl f s es)")
    case True
    from snoc.IH [OF True] obtain es1 e es2 where i: "es = es1 @ e # es2" "\<not> P (foldl f s es1)"
      "\<forall>n \<le> length es2. P (foldl f s (es1 @ e # take n es2))" by blast
    have "P (foldl f s (es1 @ e # take n (es2 @ [x])))" if "n \<le> length (es2 @ [x])" for n
      using that i(1,3) snoc.prems by (cases "n = Suc (length es2)") auto
    with i(1,2) show ?thesis by (intro exI [of _ es1] exI [of _ e] exI [of _ "es2 @ [x]"]) simp
  next
    case False
    with snoc.prems show ?thesis by (intro exI [of _ es] exI [of _ x] exI [of _ "[]"]) simp
  qed
qed

end
