(* ===== verification/Http.thy ===== *)
theory Http
  imports Prelude
begin

text \<open>
  The transport layer of \<open>frontend/src/shared/api\<close>: percent encoding, query strings, the two ways
  a hook talks to the server (the bare \<open>fetch\<close> and the typed \<open>openapi-fetch\<close> client), errors
  (\<open>apiError.ts\<close>), and the asynchronous programs the hooks are.

  An async function is a value of \<open>'a js\<close>: a tree that returns, throws, or issues a request and
  goes on with whatever the server answers. The server, the browser's \<open>fetch\<close> and the third-party
  client and the object storage are a parameter, a \<open>backend\<close> that may answer each request in any way, depending on all the
  requests before it; \<open>None\<close> is a rejected promise (no response at all). \<open>run\<close> plays a program
  against a backend and returns the requests it sent and its outcome.
\<close>

section \<open>Percent encoding\<close>

definition hexDigit :: "nat \<Rightarrow> char" where
  "hexDigit n = (if n < 10 then char_of (48 + n) else char_of (55 + n))"

definition hexVal :: "char \<Rightarrow> nat" where
  "hexVal c = (if of_char c < (58 :: nat) then of_char c - 48 else of_char c - 55)"

definition pctByte :: "char \<Rightarrow> string" where
  "pctByte c = [CHR ''%'', hexDigit (of_char c div 16), hexDigit (of_char c mod 16)]"

definition alnum :: "char \<Rightarrow> bool" where
  "alnum c \<longleftrightarrow> (let n = (of_char c :: nat) in
     48 \<le> n \<and> n \<le> 57 \<or> 65 \<le> n \<and> n \<le> 90 \<or> 97 \<le> n \<and> n \<le> 122)"

definition uriUnreserved :: "char \<Rightarrow> bool" where
  "uriUnreserved c \<longleftrightarrow> alnum c \<or> c \<in> set (''-_.!~*()'' @ [CHR 0x27])"

definition encodeURIComponent :: "string \<Rightarrow> string" where
  "encodeURIComponent s = concat (map (\<lambda>c. if uriUnreserved c then [c] else pctByte c) s)"

abbreviation enc :: "string \<Rightarrow> string" where
  "enc \<equiv> encodeURIComponent"

text \<open>
  \<open>String(URLSearchParams)\<close>: the form encoding of each name and value, in insertion order.
\<close>

definition formEncode :: "string \<Rightarrow> string" where
  "formEncode s = concat (map (\<lambda>c.
     if alnum c \<or> c \<in> set ''*-._'' then [c] else if c = CHR '' '' then ''+'' else pctByte c) s)"

definition searchParams :: "(string \<times> string) list \<Rightarrow> string" where
  "searchParams ps = joinWith ''&'' (map (\<lambda>(k, v). formEncode k @ ''='' @ formEncode v) ps)"

text \<open>The inverse of percent encoding, as the server applies it to a path segment.\<close>

fun pctDecode :: "string \<Rightarrow> string" where
  "pctDecode [] = []"
| "pctDecode [c] = [c]"
| "pctDecode [c, d] = [c, d]"
| "pctDecode (c # d # e # cs) =
     (if c = CHR ''%'' then char_of (hexVal d * 16 + hexVal e) # pctDecode cs
      else c # pctDecode (d # e # cs))"

lemma hexVal_hexDigit: "n < 16 \<Longrightarrow> hexVal (hexDigit n) = n"
  by (simp add: hexVal_def hexDigit_def)

lemma uriUnreserved_not_pct: "uriUnreserved c \<Longrightarrow> c \<noteq> CHR ''%''"
  by (auto simp: uriUnreserved_def alnum_def Let_def)

lemma pctDecode_Cons: "c \<noteq> CHR ''%'' \<Longrightarrow> pctDecode (c # cs) = c # pctDecode cs"
  by (cases cs; cases "tl cs") auto

lemma high_nibble: "(of_char c :: nat) div 16 < 16"
proof -
  have "of_char c < (256 :: nat)"
    using range_nat_of_char by (metis atLeastLessThan_iff rangeI)
  then show ?thesis by (simp add: less_mult_imp_div_less)
qed

lemma pctDecode_pctByte: "pctDecode (pctByte c @ cs) = c # pctDecode cs"
proof -
  note high_nibble [of c]
  then show ?thesis by (simp add: pctByte_def hexVal_hexDigit)
qed

lemma pctDecode_enc: "pctDecode (encodeURIComponent s) = s"
proof (induction s)
  case Nil
  then show ?case by (simp add: encodeURIComponent_def)
next
  case (Cons c s)
  then show ?case
    by (simp add: encodeURIComponent_def pctDecode_pctByte pctDecode_Cons uriUnreserved_not_pct)
qed

lemma inj_enc: "encodeURIComponent s = encodeURIComponent t \<longleftrightarrow> s = t"
  using pctDecode_enc by metis

lemma enc_Nil [simp]: "encodeURIComponent s = [] \<longleftrightarrow> s = []"
  by (cases s) (auto simp: encodeURIComponent_def pctByte_def)

text \<open>No reserved character survives: a component can neither add a segment nor start a query.\<close>

lemma hexDigit_alnum: "n < 16 \<Longrightarrow> alnum (hexDigit n)"
  by (simp add: alnum_def hexDigit_def Let_def)

lemma pctByte_chars: "x \<in> set (pctByte c) \<Longrightarrow> x = CHR ''%'' \<or> alnum x"
proof -
  assume "x \<in> set (pctByte c)"
  moreover note high_nibble [of c]
  ultimately show ?thesis by (auto simp: pctByte_def hexDigit_alnum)
qed

lemma alnum_unreserved: "alnum c \<Longrightarrow> uriUnreserved c"
  by (simp only: uriUnreserved_def simp_thms)

lemma enc_chars: "c \<in> set (encodeURIComponent s) \<Longrightarrow> uriUnreserved c \<or> c = CHR ''%''"
  by (induction s)
     (auto simp: encodeURIComponent_def split: if_splits dest!: pctByte_chars intro: alnum_unreserved)

lemma enc_no_reserved: "c \<in> set ''/?#&= '' \<Longrightarrow> c \<notin> set (encodeURIComponent s)"
proof -
  have "list_all (\<lambda>c. \<not> uriUnreserved c \<and> c \<noteq> CHR ''%'') ''/?#&= ''" by code_simp
  then show "c \<in> set ''/?#&= '' \<Longrightarrow> ?thesis" using enc_chars [of c s] unfolding list_all_iff by blast
qed

section \<open>The path a server sees\<close>

text \<open>
  Before a request leaves, the URL standard resolves dot segments: \<open>.\<close> disappears, \<open>..\<close> removes the
  segment before it, and at the end of the path either leaves an empty segment. The server then
  decodes each segment.
\<close>

fun resolveDots :: "string list \<Rightarrow> string list \<Rightarrow> string list" where
  "resolveDots acc [] = acc"
| "resolveDots acc (s # ss) =
     (if s = ''.'' then resolveDots (if ss = [] then acc @ [[]] else acc) ss
      else if s = ''..'' then resolveDots (if ss = [] then butlast acc @ [[]] else butlast acc) ss
      else resolveDots (acc @ [s]) ss)"

definition serverPath :: "string \<Rightarrow> string list" where
  "serverPath p =
     map pctDecode (resolveDots [] (splitOn CHR ''/'' (takeWhile (\<lambda>c. c \<noteq> CHR ''?'') p)))"

text \<open>A path built from encoded segments.\<close>

definition pathOf :: "string list \<Rightarrow> string" where
  "pathOf ss = joinWith ''/'' (map encodeURIComponent ss)"

definition noDots :: "string list \<Rightarrow> bool" where
  "noDots ss \<longleftrightarrow> ''.'' \<notin> set ss \<and> ''..'' \<notin> set ss"

lemma enc_plain: "\<forall>c \<in> set t. uriUnreserved c \<Longrightarrow> encodeURIComponent t = t"
  by (induction t) (simp_all add: encodeURIComponent_def)

lemma enc_dots: "''.'' = encodeURIComponent s \<longleftrightarrow> s = ''.''" "''..'' = encodeURIComponent s \<longleftrightarrow> s = ''..''"
proof -
  have "encodeURIComponent ''.'' = ''.''" "encodeURIComponent ''..'' = ''..''"
    by (rule enc_plain, simp add: uriUnreserved_def)+
  then show "''.'' = encodeURIComponent s \<longleftrightarrow> s = ''.''" "''..'' = encodeURIComponent s \<longleftrightarrow> s = ''..''"
    using inj_enc [of "''.''" s] inj_enc [of "''..''" s] by auto
qed

lemma resolveDots_id: "noDots ss \<Longrightarrow> resolveDots acc ss = acc @ ss"
  by (induction ss arbitrary: acc) (auto simp: noDots_def)

lemma noDots_enc: "noDots ss \<Longrightarrow> noDots (map encodeURIComponent ss)"
  by (simp only: noDots_def set_map image_iff enc_dots) blast

lemma joinWith_chars: "x \<in> set (joinWith d ws) \<Longrightarrow> x \<in> set d \<or> (\<exists>w \<in> set ws. x \<in> set w)"
  by (induction d ws rule: joinWith.induct) auto

lemma takeWhile_path: "takeWhile (\<lambda>c. c \<noteq> CHR ''?'') (pathOf ss @ r) = pathOf ss @ takeWhile (\<lambda>c. c \<noteq> CHR ''?'') r"
proof -
  have "x \<noteq> CHR ''?''" if "x \<in> set (pathOf ss)" for x
    using joinWith_chars [OF that [unfolded pathOf_def]] enc_no_reserved [of "CHR ''?''"] by auto
  then show ?thesis by (rule takeWhile_append2)
qed

lemma serverPath_pathOf:
  assumes "noDots ss" and "ss \<noteq> []" and "r = [] \<or> hd r = CHR ''?''"
  shows "serverPath (pathOf ss @ r) = ss"
proof -
  have "takeWhile (\<lambda>c. c \<noteq> CHR ''?'') r = []" using assms(3) by (cases r) auto
  moreover have "splitOn CHR ''/'' (pathOf ss) = map encodeURIComponent ss"
    unfolding pathOf_def using assms(2) enc_no_reserved [of "CHR ''/''"] by (intro splitOn_join) auto
  ultimately show ?thesis
    using resolveDots_id [OF noDots_enc [OF assms(1)], of "[]"]
    by (simp add: serverPath_def takeWhile_path pctDecode_enc o_def)
qed

section \<open>Requests and responses\<close>

text \<open>
  \<open>Api p\<close> is \<open>`${API_BASE}p`\<close>, so it follows the \<open>VITE_API_BASE\<close> override; \<open>Abs p\<close> is a literal URL.
\<close>

datatype url = Api string | Abs string

fun renderUrl :: "string \<Rightarrow> url \<Rightarrow> string" where
  "renderUrl base (Api p) = base @ p"
| "renderUrl base (Abs p) = p"

text \<open>\<open>import.meta.env.VITE_API_BASE ?? "/api/v1"\<close>.\<close>

definition API_BASE :: "string option \<Rightarrow> string" where
  "API_BASE env = (case env of None \<Rightarrow> ''/api/v1'' | Some b \<Rightarrow> b)"

record fetch_req =
  rqMethod :: string
  rqUrl :: url
  rqCredentials :: bool
  rqJsonType :: bool
  rqBody :: "json option"

text \<open>A response; \<open>rsBody = None\<close> when \<open>res.json()\<close> rejects.\<close>

record fetch_res =
  rsStatus :: nat
  rsBody :: "json option"

text \<open>A typed client call: path template, path parameters, extra headers, body.\<close>

record call_req =
  clMethod :: string
  clPath :: string
  clParams :: "(string \<times> string) list"
  clHeaders :: "(string \<times> json) list"
  clBody :: json

text \<open>The client's \<open>{data, error, response}\<close>.\<close>

record call_res =
  crStatus :: nat
  crData :: json
  crError :: json

definition httpOk :: "nat \<Rightarrow> bool" where
  "httpOk s \<longleftrightarrow> 200 \<le> s \<and> s < 300"

section \<open>Errors\<close>

text \<open>
  A rejected \<open>fetch\<close>, a plain \<open>new Error(msg)\<close>, or the error \<open>apiError\<close> builds with its \<open>code\<close>,
  \<open>status\<close> and \<open>details\<close> (\<open>JUndef\<close> when the property is not set).
\<close>

datatype js_error =
    NetworkError
  | PlainError string
  | ApiError (errMessage: string) (errCode: json) (errStatus: nat) (errDetails: json)

text \<open>\<open>err.code\<close>, \<open>err.status\<close> and \<open>err.details\<close> of any Error.\<close>

fun codeOf :: "js_error \<Rightarrow> json" where
  "codeOf (ApiError m c s d) = c"
| "codeOf _ = JUndef"

fun statusOf :: "js_error \<Rightarrow> nat option" where
  "statusOf (ApiError m c s d) = Some s"
| "statusOf _ = None"

fun detailsOf :: "js_error \<Rightarrow> json" where
  "detailsOf (ApiError m c s d) = d"
| "detailsOf _ = JUndef"

fun messageOf :: "js_error \<Rightarrow> string" where
  "messageOf NetworkError = ''Failed to fetch''"
| "messageOf (PlainError m) = m"
| "messageOf (ApiError m c s d) = m"

definition apiError :: "string \<Rightarrow> nat \<Rightarrow> json \<Rightarrow> js_error" where
  "apiError resource status body =
     (let e = (if hasProp body ''error'' then getProp body ''error'' else JUndef);
          code = (if truthy (getProp e ''code'') then getProp e ''code''
                  else JStr (''HTTP_'' @ dec status));
          message = (if truthy (getProp e ''message'') then toStr (getProp e ''message'')
                     else resource @ '' failed (HTTP '' @ dec status @ '')'');
          details = (if truthy (getProp e ''details'') then getProp e ''details'' else JUndef)
      in ApiError (toStr code @ '': '' @ message) code status details)"

lemma apiError_status [simp]: "statusOf (apiError r s b) = Some s"
  by (simp add: apiError_def Let_def)

lemma getProp_absent: "\<not> hasProp j k \<Longrightarrow> getProp j k = JUndef"
  by (cases j) (auto simp: map_of_eq_None_iff[THEN iffD2] split: option.splits dest: map_of_SomeD)

lemma apiError_field: "(if hasProp j k then getProp j k else JUndef) = getProp j k"
  by (simp add: getProp_absent)

lemma apiError_code:
  "codeOf (apiError r s b) =
     (let c = getProp (getProp b ''error'') ''code'' in
      if truthy c then c else JStr (''HTTP_'' @ dec s))"
  by (simp add: apiError_def apiError_field Let_def)

lemma apiError_details:
  "detailsOf (apiError r s b) =
     (let d = getProp (getProp b ''error'') ''details'' in if truthy d then d else JUndef)"
  by (simp add: apiError_def apiError_field Let_def)

section \<open>Asynchronous programs\<close>

text \<open>
  Besides the API the upload code sends file contents straight to a presigned storage URL (\<open>Put\<close>:
  the raw bytes as body, answered with a status, the \<open>etag\<close> header and a text), and it reports its
  progress to its caller through a callback (\<open>Tell\<close>).
\<close>

record put_req =
  puUrl :: json
  puType :: string
  puBytes :: string

record put_res =
  psStatus :: nat
  psEtag :: "string option"
  psText :: "string option"

datatype progress_event = Progress nat | Finished | Failed string

datatype 'a js =
    Ret 'a
  | Throw js_error
  | Fetch fetch_req "fetch_res option \<Rightarrow> 'a js"
  | Call call_req "call_res option \<Rightarrow> 'a js"
  | Put put_req "put_res option \<Rightarrow> 'a js"
  | Tell progress_event "'a js"

text \<open>What can be observed of a program: its requests and its callbacks, in order.\<close>

datatype request = RFetch fetch_req | RCall call_req | RPut put_req | RTell progress_event

record backend =
  onFetch :: "request list \<Rightarrow> fetch_req \<Rightarrow> fetch_res option"
  onCall :: "request list \<Rightarrow> call_req \<Rightarrow> call_res option"
  onPut :: "request list \<Rightarrow> put_req \<Rightarrow> put_res option"

primrec run :: "'a js \<Rightarrow> backend \<Rightarrow> request list \<Rightarrow> request list \<times> (js_error + 'a)" where
  "run (Ret x) b h = (h, Inr x)"
| "run (Throw e) b h = (h, Inl e)"
| "run (Fetch q k) b h = run (k (onFetch b h q)) b (h @ [RFetch q])"
| "run (Call q k) b h = run (k (onCall b h q)) b (h @ [RCall q])"
| "run (Put q k) b h = run (k (onPut b h q)) b (h @ [RPut q])"
| "run (Tell e m) b h = run m b (h @ [RTell e])"

text \<open>\<open>await m\<close> followed by the rest; an exception skips the rest.\<close>

primrec bindJs :: "'a js \<Rightarrow> ('a \<Rightarrow> 'b js) \<Rightarrow> 'b js" where
  "bindJs (Ret x) f = f x"
| "bindJs (Throw e) f = Throw e"
| "bindJs (Fetch q k) f = Fetch q (\<lambda>r. bindJs (k r) f)"
| "bindJs (Call q k) f = Call q (\<lambda>r. bindJs (k r) f)"
| "bindJs (Put q k) f = Put q (\<lambda>r. bindJs (k r) f)"
| "bindJs (Tell e m) f = Tell e (bindJs m f)"

text \<open>\<open>try { return await m } catch (e) { h e }\<close>.\<close>

primrec catchJs :: "'a js \<Rightarrow> (js_error \<Rightarrow> 'a js) \<Rightarrow> 'a js" where
  "catchJs (Ret x) h = Ret x"
| "catchJs (Throw e) h = h e"
| "catchJs (Fetch q k) h = Fetch q (\<lambda>r. catchJs (k r) h)"
| "catchJs (Call q k) h = Call q (\<lambda>r. catchJs (k r) h)"
| "catchJs (Put q k) h = Put q (\<lambda>r. catchJs (k r) h)"
| "catchJs (Tell e m) h = Tell e (catchJs m h)"

lemma run_bindJs:
  "run (bindJs m f) b h =
     (case run m b h of (h', Inl e) \<Rightarrow> (h', Inl e) | (h', Inr x) \<Rightarrow> run (f x) b h')"
  by (induction m arbitrary: h) auto

lemma run_catchJs:
  "run (catchJs m f) b h =
     (case run m b h of (h', Inl e) \<Rightarrow> run (f e) b h' | (h', Inr x) \<Rightarrow> (h', Inr x))"
  by (induction m arbitrary: h) auto

lemma bindJs_assoc: "bindJs (bindJs m f) g = bindJs m (\<lambda>x. bindJs (f x) g)"
  by (induction m) auto

lemma run_extends: "prefix h (fst (run m b h))"
proof (induction m arbitrary: h)
  case (Fetch q k)
  then have "prefix (h @ [RFetch q]) (fst (run (k (onFetch b h q)) b (h @ [RFetch q])))"
    by blast
  then show ?case by (auto intro: append_prefixD)
next
  case (Call q k)
  then have "prefix (h @ [RCall q]) (fst (run (k (onCall b h q)) b (h @ [RCall q])))"
    by blast
  then show ?case by (auto intro: append_prefixD)
next
  case (Put q k)
  then have "prefix (h @ [RPut q]) (fst (run (k (onPut b h q)) b (h @ [RPut q])))"
    by blast
  then show ?case by (auto intro: append_prefixD)
next
  case (Tell e m)
  then have "prefix (h @ [RTell e]) (fst (run m b (h @ [RTell e])))" by blast
  then show ?case by (auto intro: append_prefixD)
qed auto

section \<open>The statement patterns of the hooks\<close>

text \<open>\<open>const res = await fetch(url, opts)\<close>: a rejection propagates.\<close>

definition awaitFetch :: "fetch_req \<Rightarrow> (fetch_res \<Rightarrow> 'a js) \<Rightarrow> 'a js" where [idiom_defs]:
  "awaitFetch q k = Fetch q (\<lambda>r. case r of None \<Rightarrow> Throw NetworkError | Some res \<Rightarrow> k res)"

definition awaitCall :: "call_req \<Rightarrow> (call_res \<Rightarrow> 'a js) \<Rightarrow> 'a js" where [idiom_defs]:
  "awaitCall q k = Call q (\<lambda>r. case r of None \<Rightarrow> Throw NetworkError | Some res \<Rightarrow> k res)"

definition awaitPut :: "put_req \<Rightarrow> (put_res \<Rightarrow> 'a js) \<Rightarrow> 'a js" where [idiom_defs]:
  "awaitPut q k = Put q (\<lambda>r. case r of None \<Rightarrow> Throw NetworkError | Some res \<Rightarrow> k res)"

text \<open>\<open>await res.json().catch(() => null)\<close> and \<open>await res.json().catch(() => ({}))\<close>.\<close>

definition jsonOrNull :: "fetch_res \<Rightarrow> json" where [idiom_defs]:
  "jsonOrNull res = (case rsBody res of None \<Rightarrow> JNull | Some j \<Rightarrow> j)"

definition jsonOrEmpty :: "fetch_res \<Rightarrow> json" where [idiom_defs]:
  "jsonOrEmpty res = (case rsBody res of None \<Rightarrow> JObj [] | Some j \<Rightarrow> j)"

text \<open>\<open>await res.json()\<close> with nothing to catch its rejection.\<close>

definition awaitJson :: "fetch_res \<Rightarrow> json js" where [idiom_defs]:
  "awaitJson res =
     (case rsBody res of None \<Rightarrow> Throw (PlainError ''invalid JSON'') | Some j \<Rightarrow> Ret j)"

text \<open>
  The request shapes: a read or delete with the session cookie, a write with a JSON body, a write
  with the JSON content type and no body, and a public read that leaves the
  credentials option at its default.
\<close>

definition getReq :: "string \<Rightarrow> fetch_req" where [idiom_defs]:
  "getReq p = \<lparr>rqMethod = ''GET'', rqUrl = Api p, rqCredentials = True, rqJsonType = False,
     rqBody = None\<rparr>"

definition publicReq :: "string \<Rightarrow> fetch_req" where [idiom_defs]:
  "publicReq p = (getReq p)\<lparr>rqCredentials := False\<rparr>"

definition bareReq :: "string \<Rightarrow> string \<Rightarrow> fetch_req" where [idiom_defs]:
  "bareReq m p = (getReq p)\<lparr>rqMethod := m\<rparr>"

definition jsonReq :: "string \<Rightarrow> string \<Rightarrow> json \<Rightarrow> fetch_req" where [idiom_defs]:
  "jsonReq m p j = (bareReq m p)\<lparr>rqJsonType := True, rqBody := Some j\<rparr>"

definition emptyReq :: "string \<Rightarrow> string \<Rightarrow> fetch_req" where [idiom_defs]:
  "emptyReq m p = (bareReq m p)\<lparr>rqJsonType := True\<rparr>"

text \<open>
  \<open>const body = await res.json().catch(() => null);
   if (!res.ok) throw apiError(name, res.status, body); return body;\<close>
\<close>

definition fetchJson :: "string \<Rightarrow> fetch_req \<Rightarrow> json js" where [idiom_defs]:
  "fetchJson name q = awaitFetch q (\<lambda>res.
     let body = jsonOrNull res in
     if \<not> httpOk (rsStatus res) then Throw (apiError name (rsStatus res) body) else Ret body)"

text \<open>
  \<open>if (!res.ok) { const body = await res.json().catch(() => null); throw apiError(...) }\<close> and a
  fixed result.
\<close>

definition fetchVoid :: "json \<Rightarrow> string \<Rightarrow> fetch_req \<Rightarrow> json js" where [idiom_defs]:
  "fetchVoid result name q = awaitFetch q (\<lambda>res.
     if \<not> httpOk (rsStatus res) then Throw (apiError name (rsStatus res) (jsonOrNull res))
     else Ret result)"

text \<open>\<open>if (!res.ok) throw new Error(`label ${res.status}`); return res.json();\<close>\<close>

definition fetchPlain :: "string \<Rightarrow> fetch_req \<Rightarrow> json js" where [idiom_defs]:
  "fetchPlain label q = awaitFetch q (\<lambda>res.
     if \<not> httpOk (rsStatus res) then Throw (PlainError (label @ '' '' @ dec (rsStatus res)))
     else awaitJson res)"

text \<open>
  \<open>const { data, error, response } = await client.X(path, ...);
   if (!response.ok || !data) throw apiError(name, response.status, error); return data;\<close>
\<close>

definition callReq ::
  "string \<Rightarrow> string \<Rightarrow> (string \<times> string) list \<Rightarrow> json \<Rightarrow> call_req" where [idiom_defs]:
  "callReq m p ps body =
     \<lparr>clMethod = m, clPath = p, clParams = ps, clHeaders = [], clBody = body\<rparr>"

definition callData :: "string \<Rightarrow> call_req \<Rightarrow> json js" where [idiom_defs]:
  "callData name q = awaitCall q (\<lambda>res.
     if \<not> httpOk (crStatus res) \<or> \<not> truthy (crData res)
     then Throw (apiError name (crStatus res) (crError res)) else Ret (crData res))"

text \<open>The variant that does not insist on a body: \<open>if (!response.ok) throw ...; return r\<close>.\<close>

definition callOk :: "(call_res \<Rightarrow> json) \<Rightarrow> string \<Rightarrow> call_req \<Rightarrow> json js" where [idiom_defs]:
  "callOk result name q = awaitCall q (\<lambda>res.
     if \<not> httpOk (crStatus res) then Throw (apiError name (crStatus res) (crError res))
     else Ret (result res))"

text \<open>\<open>if (!cond) throw new Error(msg);\<close>\<close>

definition requireOr :: "bool \<Rightarrow> string \<Rightarrow> 'a js \<Rightarrow> 'a js" where [idiom_defs]:
  "requireOr cond msg m = (if cond then m else Throw (PlainError msg))"

section \<open>What the patterns do\<close>

lemma run_fetchJson:
  "run (fetchJson name q) b h =
     (h @ [RFetch q],
      case onFetch b h q of None \<Rightarrow> Inl NetworkError
      | Some res \<Rightarrow> if httpOk (rsStatus res) then Inr (jsonOrNull res)
                   else Inl (apiError name (rsStatus res) (jsonOrNull res)))"
  by (simp add: fetchJson_def awaitFetch_def Let_def split: option.splits)

lemma run_fetchVoid:
  "run (fetchVoid v name q) b h =
     (h @ [RFetch q],
      case onFetch b h q of None \<Rightarrow> Inl NetworkError
      | Some res \<Rightarrow> if httpOk (rsStatus res) then Inr v
                   else Inl (apiError name (rsStatus res) (jsonOrNull res)))"
  by (simp add: fetchVoid_def awaitFetch_def split: option.splits)

lemma run_callData:
  "run (callData name q) b h =
     (h @ [RCall q],
      case onCall b h q of None \<Rightarrow> Inl NetworkError
      | Some res \<Rightarrow> if httpOk (crStatus res) \<and> truthy (crData res) then Inr (crData res)
                   else Inl (apiError name (crStatus res) (crError res)))"
  by (simp add: callData_def awaitCall_def split: option.splits)

lemma run_callOk:
  "run (callOk f name q) b h =
     (h @ [RCall q],
      case onCall b h q of None \<Rightarrow> Inl NetworkError
      | Some res \<Rightarrow> if httpOk (crStatus res) then Inr (f res)
                   else Inl (apiError name (crStatus res) (crError res)))"
  by (simp add: callOk_def awaitCall_def split: option.splits)

lemma run_requireOr:
  "run (requireOr c msg m) b h = (if c then run m b h else (h, Inl (PlainError msg)))"
  by (simp add: requireOr_def)

lemmas run_idioms = run_fetchJson run_fetchVoid run_callData run_callOk run_requireOr run_bindJs

end
