(* ===== verification/Query_Model.thy ===== *)
theory Query_Model
  imports Http
begin

text \<open>
  What a hook of \<open>shared/api\<close> hands to the query library: the options object of \<open>useQuery\<close> and the
  pair of callbacks of \<open>useMutation\<close>. The library itself (\<open>@tanstack/react-query\<close>) is not modelled;
  a hook is the data it passes. An option the code leaves out is \<open>None\<close> (the library's default).
  The effects of an \<open>onSuccess\<close> callback are recorded as the list of calls it makes, in order.

  \<open>covers\<close> is the documented matching rule of \<open>invalidateQueries\<close> and \<open>removeQueries\<close>: a filter key
  matches every query key it is a prefix of.
\<close>

section \<open>Query keys\<close>

datatype kseg = KS string | KNull | KUndef | KNum int | KObj json

type_synonym qkey = "kseg list"

text \<open>A nullable or optional id in a key.\<close>

definition knull :: "string option \<Rightarrow> kseg" where
  "knull x = (case x of None \<Rightarrow> KNull | Some s \<Rightarrow> KS s)"

definition kundef :: "string option \<Rightarrow> kseg" where
  "kundef x = (case x of None \<Rightarrow> KUndef | Some s \<Rightarrow> KS s)"

lemma knull_simps [simp]: "knull None = KNull" "knull (Some s) = KS s"
  by (simp_all add: knull_def)

lemma kundef_simps [simp]: "kundef None = KUndef" "kundef (Some s) = KS s"
  by (simp_all add: kundef_def)

lemma knull_inj [simp]: "knull x = knull y \<longleftrightarrow> x = y"
  by (cases x; cases y) auto

section \<open>Queries\<close>

datatype duration = Ms nat | Infinite

datatype poll = Every nat | NoPoll

record query =
  queryKey :: qkey
  queryFn :: "json js"
  qEnabled :: bool
  qStale :: "duration option"
  qGc :: "duration option"
  qPoll :: "json \<Rightarrow> poll"
  qRetry :: "(nat \<Rightarrow> js_error \<Rightarrow> bool) option"
  qOnFocus :: "bool option"
  qOnMount :: "bool option"
  qOnReconnect :: "bool option"

definition mkQuery :: "qkey \<Rightarrow> json js \<Rightarrow> query" where
  "mkQuery k f = \<lparr>queryKey = k, queryFn = f, qEnabled = True, qStale = None, qGc = None,
     qPoll = (\<lambda>_. NoPoll), qRetry = None, qOnFocus = None, qOnMount = None, qOnReconnect = None\<rparr>"

text \<open>\<open>retry: n\<close> allows another attempt while fewer than \<open>n\<close> have failed; \<open>retry: false\<close> is \<open>0\<close>.\<close>

definition retryN :: "nat \<Rightarrow> (nat \<Rightarrow> js_error \<Rightarrow> bool) option" where
  "retryN n = Some (\<lambda>failures e. failures < n)"

definition stale :: "nat \<Rightarrow> query \<Rightarrow> query" where
  "stale n q = q\<lparr>qStale := Some (Ms n)\<rparr>"

definition every :: "nat \<Rightarrow> query \<Rightarrow> query" where
  "every n q = q\<lparr>qPoll := (\<lambda>_. Every n)\<rparr>"

definition pollWhen :: "(json \<Rightarrow> poll) \<Rightarrow> query \<Rightarrow> query" where
  "pollWhen f q = q\<lparr>qPoll := f\<rparr>"

definition tries :: "nat \<Rightarrow> query \<Rightarrow> query" where
  "tries n q = q\<lparr>qRetry := retryN n\<rparr>"

definition enabledIf :: "bool \<Rightarrow> query \<Rightarrow> query" where
  "enabledIf b q = q\<lparr>qEnabled := b\<rparr>"

lemma query_setters [simp]:
  "queryKey (mkQuery k f) = k" "queryFn (mkQuery k f) = f" "qEnabled (mkQuery k f)"
  "queryKey (stale n q) = queryKey q" "queryKey (every n q) = queryKey q"
  "queryKey (pollWhen g q) = queryKey q" "queryKey (tries n q) = queryKey q"
  "queryKey (enabledIf b q) = queryKey q"
  "queryFn (stale n q) = queryFn q" "queryFn (every n q) = queryFn q"
  "queryFn (pollWhen g q) = queryFn q" "queryFn (tries n q) = queryFn q"
  "queryFn (enabledIf b q) = queryFn q"
  "qEnabled (stale n q) = qEnabled q" "qEnabled (every n q) = qEnabled q"
  "qEnabled (pollWhen g q) = qEnabled q" "qEnabled (tries n q) = qEnabled q"
  "qEnabled (enabledIf b q) = b"
  "qPoll (stale n q) = qPoll q" "qPoll (tries n q) = qPoll q" "qPoll (enabledIf b q) = qPoll q"
  "qPoll (every n q) = (\<lambda>_. Every n)" "qPoll (pollWhen g q) = g"
  "qStale (stale n q) = Some (Ms n)" "qStale (every m q) = qStale q"
  "qStale (pollWhen g q) = qStale q" "qStale (tries m q) = qStale q"
  "qStale (enabledIf b q) = qStale q"
  by (simp_all add: mkQuery_def stale_def every_def pollWhen_def tries_def enabledIf_def)

text \<open>
  The options of \<open>useInfiniteQuery\<close>: the first page parameter, the query function of a parameter,
  and \<open>getNextPageParam\<close> of the last page, \<open>JUndef\<close> when there is none.
\<close>

record infinite_query =
  iqKey :: qkey
  iqFirst :: json
  iqFn :: "json \<Rightarrow> json js"
  iqNext :: "json \<Rightarrow> json"
  iqEnabled :: bool
  iqStale :: "duration option"
  iqRetry :: "(nat \<Rightarrow> js_error \<Rightarrow> bool) option"

text \<open>
  Fetching the first page and then the next one for as long as there is a next parameter, at most
  \<open>n\<close> pages: the pages so far, and whether the walk reached the end.
\<close>

fun walkPages :: "infinite_query \<Rightarrow> nat \<Rightarrow> json \<Rightarrow> (json list \<times> bool) js" where
  "walkPages q 0 param = Ret ([], False)"
| "walkPages q (Suc n) param =
     bindJs (iqFn q param) (\<lambda>page.
       if iqNext q page = JUndef then Ret ([page], True)
       else bindJs (walkPages q n (iqNext q page)) (\<lambda>(pages, ended). Ret (page # pages, ended)))"

section \<open>Mutations\<close>

text \<open>
  The calls an \<open>onSuccess\<close> callback can make. \<open>MarkStale\<close> is \<open>invalidateQueries\<close> with
  \<open>refetchType: "none"\<close>.
\<close>

datatype effect =
    Invalidate qkey
  | MarkStale qkey
  | RemoveQueries qkey
  | SetQueryData qkey json
  | Navigate string "(string \<times> json) list"

record 'v mutation =
  mutationFn :: "'v \<Rightarrow> json js"
  onSuccess :: "json \<Rightarrow> 'v \<Rightarrow> effect list"

text \<open>Does a list of effects make a cached query out of date (refetch, mark or drop it)?\<close>

fun outdates :: "effect \<Rightarrow> qkey \<Rightarrow> bool" where
  "outdates (Invalidate p) k = prefix p k"
| "outdates (MarkStale p) k = prefix p k"
| "outdates (RemoveQueries p) k = prefix p k"
| "outdates (SetQueryData p v) k = False"
| "outdates (Navigate r ps) k = False"

definition covers :: "effect list \<Rightarrow> qkey \<Rightarrow> bool" where
  "covers es k \<longleftrightarrow> list_ex (\<lambda>e. outdates e k) es"

lemma covers_simps [simp]:
  "covers [] k \<longleftrightarrow> False" "covers (e # es) k \<longleftrightarrow> outdates e k \<or> covers es k"
  by (simp_all add: covers_def)

lemma covers_longer: "covers es k \<Longrightarrow> covers es (k @ l)"
proof -
  have "outdates e k \<Longrightarrow> outdates e (k @ l)" for e by (cases e) auto
  then show "covers es k \<Longrightarrow> covers es (k @ l)" by (auto simp: covers_def list_ex_iff)
qed

text \<open>A template string writes \<open>null\<close> for a null id.\<close>

definition tpl :: "string option \<Rightarrow> string" where
  "tpl x = (case x of None \<Rightarrow> ''null'' | Some s \<Rightarrow> s)"

lemma tpl_Some [simp]: "tpl (Some s) = s"
  by (simp add: tpl_def)

text \<open>\<open>qs ? `?${qs}` : ""\<close>.\<close>

definition queryString :: "(string \<times> string) list \<Rightarrow> string" where
  "queryString ps = (if ps = [] then [] else ''?'' @ searchParams ps)"

section \<open>The contract of a collection\<close>

text \<open>
  Most server collections (shares, syncs, backups, regions, federations, webhooks, service
  accounts) are cached as one list query and, below its key, one query per item with sub-queries
  further down. \<open>collection\<close> states what the hooks of such a collection promise: item keys extend
  the list key, every write outdates the list, and a delete drops the item. The lemma inside is what
  the pages rely on: after a write nothing under the list key can be served as fresh.
\<close>

locale collection =
  fixes listKey :: qkey
    and itemKey :: "string \<Rightarrow> qkey"
    and createEffects :: "json \<Rightarrow> effect list"
    and deleteEffects :: "string \<Rightarrow> effect list"
  assumes item_below: "itemKey i = listKey @ [KS i]"
    and create_lists: "Invalidate listKey \<in> set (createEffects d)"
    and delete_lists: "Invalidate listKey \<in> set (deleteEffects i)"
    and delete_drops: "RemoveQueries (itemKey i) \<in> set (deleteEffects i)"
begin

lemma created_outdates: "prefix listKey k \<Longrightarrow> covers (createEffects d) k"
  using create_lists by (force simp: covers_def list_ex_iff)

lemma deleted_outdates: "prefix listKey k \<Longrightarrow> covers (deleteEffects i) k"
  using delete_lists by (force simp: covers_def list_ex_iff)

lemma item_keys_distinct: "itemKey i = itemKey j \<longleftrightarrow> i = j"
  by (simp add: item_below)

lemma item_not_list: "itemKey i \<noteq> listKey"
  by (simp add: item_below)

end

text \<open>A collection whose items can also be written in place.\<close>

locale editable_collection = collection +
  fixes updateEffects :: "string \<Rightarrow> effect list"
  assumes update_lists: "Invalidate listKey \<in> set (updateEffects i)"
    and update_item: "Invalidate (itemKey i) \<in> set (updateEffects i)"
begin

lemma updated_outdates: "prefix listKey k \<Longrightarrow> covers (updateEffects i) k"
  using update_lists by (force simp: covers_def list_ex_iff)

end

end
