(* ===== verification/Capabilities.thy ===== *)
theory Capabilities
  imports Prelude
begin

text \<open>
  \<open>frontend/src/shared/auth/capabilities.ts\<close>: the capability identifiers, mirrored from the
  server, in their four groups, and the flat map \<open>CAP\<close> the rest of the front end imports.
  An object of string constants is an association list from member name to value; \<open>pick\<close> is the
  member access, \<open>cap\<close> a member of \<open>CAP\<close>. The lemmas at the end evaluate the table once, so that
  the components that gate on capabilities rewrite with literals.
\<close>

text \<open>Member access; a member that does not exist is \<open>undefined\<close>.\<close>

definition pick :: "(string \<times> string) list \<Rightarrow> string \<Rightarrow> string option" where
  "pick tbl k = map_of tbl k"

definition CAP_PLATFORM :: "(string \<times> string) list" where
  "CAP_PLATFORM =
   [(''USERS_LIST'', ''platform.users.list''),
    (''USERS_CREATE'', ''platform.users.create''),
    (''USERS_UPDATE'', ''platform.users.update''),
    (''USERS_DELETE'', ''platform.users.delete''),
    (''POLICIES_LIST'', ''platform.policies.list''),
    (''POLICIES_WRITE'', ''platform.policies.write''),
    (''SERVICE_ACCOUNTS_LIST'', ''platform.service-accounts.list''),
    (''SERVICE_ACCOUNTS_WRITE'', ''platform.service-accounts.write''),
    (''AUDIT_READ'', ''platform.audit.read''),
    (''SKINS_WRITE'', ''platform.skins.write''),
    (''OIDC_WRITE'', ''platform.oidc.write''),
    (''SYSTEM_WRITE'', ''platform.system.write''),
    (''ONBOARDING_WRITE'', ''platform.onboarding.write''),
    (''SYSTEM_READ'', ''platform.system.read''),
    (''OIDC_READ'', ''platform.oidc.read''),
    (''SKINS_READ'', ''platform.skins.read''),
    (''ONBOARDING_READ'', ''platform.onboarding.read'')]"

definition CAP_CLUSTER_WIRING :: "(string \<times> string) list" where
  "CAP_CLUSTER_WIRING =
   [(''LIST'', ''cluster.wiring.list''),
    (''CREATE'', ''cluster.wiring.create''),
    (''UPDATE'', ''cluster.wiring.update''),
    (''DELETE'', ''cluster.wiring.delete''),
    (''TEST'', ''cluster.wiring.test''),
    (''READ'', ''cluster.wiring.read''),
    (''BUCKETS_AGGREGATE'', ''cluster.buckets.aggregate''),
    (''USAGE_AGGREGATE'', ''cluster.usage.aggregate'')]"

definition CAP_CLUSTER_CONTENTS :: "(string \<times> string) list" where
  "CAP_CLUSTER_CONTENTS =
   [(''READ'', ''cluster.contents.read''),
    (''BUCKETS_CREATE'', ''cluster.buckets.create''),
    (''BUCKETS_UPDATE'', ''cluster.buckets.update''),
    (''BUCKETS_DELETE'', ''cluster.buckets.delete''),
    (''BUCKETS_LIFECYCLE_WRITE'', ''cluster.buckets.lifecycle.write''),
    (''LAYOUT_WRITE'', ''cluster.layout.write''),
    (''SCRUB_WRITE'', ''cluster.scrub.write''),
    (''KEYS_CREATE'', ''cluster.keys.create''),
    (''KEYS_UPDATE'', ''cluster.keys.update''),
    (''KEYS_ROTATE'', ''cluster.keys.rotate''),
    (''KEYS_DELETE'', ''cluster.keys.delete''),
    (''ENCRYPTION_ADMINS_LIST'', ''cluster.encryption-admins.list''),
    (''ENCRYPTION_ADMINS_ADD'', ''cluster.encryption-admins.add''),
    (''ENCRYPTION_ADMINS_REMOVE'', ''cluster.encryption-admins.remove''),
    (''ENCRYPTION_UNLOCK'', ''cluster.encryption.unlock''),
    (''ENCRYPTION_LOCK'', ''cluster.encryption.lock''),
    (''GRANTS_LIST'', ''cluster.grants.list''),
    (''GRANTS_WRITE'', ''cluster.grants.write'')]"

definition CAP_SELF :: "(string \<times> string) list" where
  "CAP_SELF =
   [(''FILES_READ'', ''self.files.read''),
    (''FILES_WRITE'', ''self.files.write''),
    (''KEYS_LIST'', ''self.keys.list''),
    (''KEYS_CREATE'', ''self.keys.create''),
    (''KEYS_ROTATE'', ''self.keys.rotate''),
    (''KEYS_DELETE'', ''self.keys.delete''),
    (''SHARES_WRITE'', ''self.shares.write''),
    (''BACKUPS_WRITE'', ''self.backups.write''),
    (''FEDERATIONS_WRITE'', ''self.federations.write''),
    (''WEBHOOKS_WRITE'', ''self.webhooks.write'')]"

definition CAP :: "(string \<times> string option) list" where
  "CAP =
   [(''PLATFORM_USERS_LIST'', pick CAP_PLATFORM ''USERS_LIST''),
    (''PLATFORM_USERS_CREATE'', pick CAP_PLATFORM ''USERS_CREATE''),
    (''PLATFORM_USERS_UPDATE'', pick CAP_PLATFORM ''USERS_UPDATE''),
    (''PLATFORM_USERS_DELETE'', pick CAP_PLATFORM ''USERS_DELETE''),
    (''PLATFORM_POLICIES_LIST'', pick CAP_PLATFORM ''POLICIES_LIST''),
    (''PLATFORM_POLICIES_WRITE'', pick CAP_PLATFORM ''POLICIES_WRITE''),
    (''PLATFORM_SERVICE_ACCOUNTS_LIST'', pick CAP_PLATFORM ''SERVICE_ACCOUNTS_LIST''),
    (''PLATFORM_SERVICE_ACCOUNTS_WRITE'', pick CAP_PLATFORM ''SERVICE_ACCOUNTS_WRITE''),
    (''PLATFORM_AUDIT_READ'', pick CAP_PLATFORM ''AUDIT_READ''),
    (''PLATFORM_SKINS_WRITE'', pick CAP_PLATFORM ''SKINS_WRITE''),
    (''PLATFORM_OIDC_WRITE'', pick CAP_PLATFORM ''OIDC_WRITE''),
    (''PLATFORM_SYSTEM_WRITE'', pick CAP_PLATFORM ''SYSTEM_WRITE''),
    (''PLATFORM_ONBOARDING_WRITE'', pick CAP_PLATFORM ''ONBOARDING_WRITE''),
    (''PLATFORM_SYSTEM_READ'', pick CAP_PLATFORM ''SYSTEM_READ''),
    (''PLATFORM_OIDC_READ'', pick CAP_PLATFORM ''OIDC_READ''),
    (''PLATFORM_SKINS_READ'', pick CAP_PLATFORM ''SKINS_READ''),
    (''PLATFORM_ONBOARDING_READ'', pick CAP_PLATFORM ''ONBOARDING_READ''),
    (''CLUSTER_WIRING_LIST'', pick CAP_CLUSTER_WIRING ''LIST''),
    (''CLUSTER_WIRING_CREATE'', pick CAP_CLUSTER_WIRING ''CREATE''),
    (''CLUSTER_WIRING_UPDATE'', pick CAP_CLUSTER_WIRING ''UPDATE''),
    (''CLUSTER_WIRING_DELETE'', pick CAP_CLUSTER_WIRING ''DELETE''),
    (''CLUSTER_WIRING_TEST'', pick CAP_CLUSTER_WIRING ''TEST''),
    (''CLUSTER_WIRING_READ'', pick CAP_CLUSTER_WIRING ''READ''),
    (''CLUSTER_BUCKETS_AGGREGATE'', pick CAP_CLUSTER_WIRING ''BUCKETS_AGGREGATE''),
    (''CLUSTER_USAGE_AGGREGATE'', pick CAP_CLUSTER_WIRING ''USAGE_AGGREGATE''),
    (''CLUSTER_CONTENTS_READ'', pick CAP_CLUSTER_CONTENTS ''READ''),
    (''CLUSTER_BUCKETS_CREATE'', pick CAP_CLUSTER_CONTENTS ''BUCKETS_CREATE''),
    (''CLUSTER_BUCKETS_UPDATE'', pick CAP_CLUSTER_CONTENTS ''BUCKETS_UPDATE''),
    (''CLUSTER_BUCKETS_DELETE'', pick CAP_CLUSTER_CONTENTS ''BUCKETS_DELETE''),
    (''CLUSTER_BUCKETS_LIFECYCLE_WRITE'', pick CAP_CLUSTER_CONTENTS ''BUCKETS_LIFECYCLE_WRITE''),
    (''CLUSTER_LAYOUT_WRITE'', pick CAP_CLUSTER_CONTENTS ''LAYOUT_WRITE''),
    (''CLUSTER_SCRUB_WRITE'', pick CAP_CLUSTER_CONTENTS ''SCRUB_WRITE''),
    (''CLUSTER_KEYS_CREATE'', pick CAP_CLUSTER_CONTENTS ''KEYS_CREATE''),
    (''CLUSTER_KEYS_UPDATE'', pick CAP_CLUSTER_CONTENTS ''KEYS_UPDATE''),
    (''CLUSTER_KEYS_ROTATE'', pick CAP_CLUSTER_CONTENTS ''KEYS_ROTATE''),
    (''CLUSTER_KEYS_DELETE'', pick CAP_CLUSTER_CONTENTS ''KEYS_DELETE''),
    (''CLUSTER_ENCRYPTION_ADMINS_LIST'', pick CAP_CLUSTER_CONTENTS ''ENCRYPTION_ADMINS_LIST''),
    (''CLUSTER_ENCRYPTION_ADMINS_ADD'', pick CAP_CLUSTER_CONTENTS ''ENCRYPTION_ADMINS_ADD''),
    (''CLUSTER_ENCRYPTION_ADMINS_REMOVE'', pick CAP_CLUSTER_CONTENTS ''ENCRYPTION_ADMINS_REMOVE''),
    (''CLUSTER_ENCRYPTION_UNLOCK'', pick CAP_CLUSTER_CONTENTS ''ENCRYPTION_UNLOCK''),
    (''CLUSTER_ENCRYPTION_LOCK'', pick CAP_CLUSTER_CONTENTS ''ENCRYPTION_LOCK''),
    (''CLUSTER_GRANTS_LIST'', pick CAP_CLUSTER_CONTENTS ''GRANTS_LIST''),
    (''CLUSTER_GRANTS_WRITE'', pick CAP_CLUSTER_CONTENTS ''GRANTS_WRITE''),
    (''SELF_FILES_READ'', pick CAP_SELF ''FILES_READ''),
    (''SELF_FILES_WRITE'', pick CAP_SELF ''FILES_WRITE''),
    (''SELF_KEYS_LIST'', pick CAP_SELF ''KEYS_LIST''),
    (''SELF_KEYS_CREATE'', pick CAP_SELF ''KEYS_CREATE''),
    (''SELF_KEYS_ROTATE'', pick CAP_SELF ''KEYS_ROTATE''),
    (''SELF_KEYS_DELETE'', pick CAP_SELF ''KEYS_DELETE''),
    (''SELF_SHARES_WRITE'', pick CAP_SELF ''SHARES_WRITE''),
    (''SELF_BACKUPS_WRITE'', pick CAP_SELF ''BACKUPS_WRITE''),
    (''SELF_FEDERATIONS_WRITE'', pick CAP_SELF ''FEDERATIONS_WRITE''),
    (''SELF_WEBHOOKS_WRITE'', pick CAP_SELF ''WEBHOOKS_WRITE'')]"

text \<open>A member of \<open>CAP\<close>, as a string (the type checker rules out a missing member).\<close>

definition cap :: "string \<Rightarrow> string" where
  "cap k = (case map_of CAP k of Some (Some v) \<Rightarrow> v | _ \<Rightarrow> ''undefined'')"

section \<open>The table evaluated\<close>

lemmas cap_tables = CAP_def CAP_PLATFORM_def CAP_CLUSTER_WIRING_def CAP_CLUSTER_CONTENTS_def
  CAP_SELF_def pick_def

lemma CAP_eval:
  "CAP =
   [(''PLATFORM_USERS_LIST'', Some ''platform.users.list''),
    (''PLATFORM_USERS_CREATE'', Some ''platform.users.create''),
    (''PLATFORM_USERS_UPDATE'', Some ''platform.users.update''),
    (''PLATFORM_USERS_DELETE'', Some ''platform.users.delete''),
    (''PLATFORM_POLICIES_LIST'', Some ''platform.policies.list''),
    (''PLATFORM_POLICIES_WRITE'', Some ''platform.policies.write''),
    (''PLATFORM_SERVICE_ACCOUNTS_LIST'', Some ''platform.service-accounts.list''),
    (''PLATFORM_SERVICE_ACCOUNTS_WRITE'', Some ''platform.service-accounts.write''),
    (''PLATFORM_AUDIT_READ'', Some ''platform.audit.read''),
    (''PLATFORM_SKINS_WRITE'', Some ''platform.skins.write''),
    (''PLATFORM_OIDC_WRITE'', Some ''platform.oidc.write''),
    (''PLATFORM_SYSTEM_WRITE'', Some ''platform.system.write''),
    (''PLATFORM_ONBOARDING_WRITE'', Some ''platform.onboarding.write''),
    (''PLATFORM_SYSTEM_READ'', Some ''platform.system.read''),
    (''PLATFORM_OIDC_READ'', Some ''platform.oidc.read''),
    (''PLATFORM_SKINS_READ'', Some ''platform.skins.read''),
    (''PLATFORM_ONBOARDING_READ'', Some ''platform.onboarding.read''),
    (''CLUSTER_WIRING_LIST'', Some ''cluster.wiring.list''),
    (''CLUSTER_WIRING_CREATE'', Some ''cluster.wiring.create''),
    (''CLUSTER_WIRING_UPDATE'', Some ''cluster.wiring.update''),
    (''CLUSTER_WIRING_DELETE'', Some ''cluster.wiring.delete''),
    (''CLUSTER_WIRING_TEST'', Some ''cluster.wiring.test''),
    (''CLUSTER_WIRING_READ'', Some ''cluster.wiring.read''),
    (''CLUSTER_BUCKETS_AGGREGATE'', Some ''cluster.buckets.aggregate''),
    (''CLUSTER_USAGE_AGGREGATE'', Some ''cluster.usage.aggregate''),
    (''CLUSTER_CONTENTS_READ'', Some ''cluster.contents.read''),
    (''CLUSTER_BUCKETS_CREATE'', Some ''cluster.buckets.create''),
    (''CLUSTER_BUCKETS_UPDATE'', Some ''cluster.buckets.update''),
    (''CLUSTER_BUCKETS_DELETE'', Some ''cluster.buckets.delete''),
    (''CLUSTER_BUCKETS_LIFECYCLE_WRITE'', Some ''cluster.buckets.lifecycle.write''),
    (''CLUSTER_LAYOUT_WRITE'', Some ''cluster.layout.write''),
    (''CLUSTER_SCRUB_WRITE'', Some ''cluster.scrub.write''),
    (''CLUSTER_KEYS_CREATE'', Some ''cluster.keys.create''),
    (''CLUSTER_KEYS_UPDATE'', Some ''cluster.keys.update''),
    (''CLUSTER_KEYS_ROTATE'', Some ''cluster.keys.rotate''),
    (''CLUSTER_KEYS_DELETE'', Some ''cluster.keys.delete''),
    (''CLUSTER_ENCRYPTION_ADMINS_LIST'', Some ''cluster.encryption-admins.list''),
    (''CLUSTER_ENCRYPTION_ADMINS_ADD'', Some ''cluster.encryption-admins.add''),
    (''CLUSTER_ENCRYPTION_ADMINS_REMOVE'', Some ''cluster.encryption-admins.remove''),
    (''CLUSTER_ENCRYPTION_UNLOCK'', Some ''cluster.encryption.unlock''),
    (''CLUSTER_ENCRYPTION_LOCK'', Some ''cluster.encryption.lock''),
    (''CLUSTER_GRANTS_LIST'', Some ''cluster.grants.list''),
    (''CLUSTER_GRANTS_WRITE'', Some ''cluster.grants.write''),
    (''SELF_FILES_READ'', Some ''self.files.read''),
    (''SELF_FILES_WRITE'', Some ''self.files.write''),
    (''SELF_KEYS_LIST'', Some ''self.keys.list''),
    (''SELF_KEYS_CREATE'', Some ''self.keys.create''),
    (''SELF_KEYS_ROTATE'', Some ''self.keys.rotate''),
    (''SELF_KEYS_DELETE'', Some ''self.keys.delete''),
    (''SELF_SHARES_WRITE'', Some ''self.shares.write''),
    (''SELF_BACKUPS_WRITE'', Some ''self.backups.write''),
    (''SELF_FEDERATIONS_WRITE'', Some ''self.federations.write''),
    (''SELF_WEBHOOKS_WRITE'', Some ''self.webhooks.write'')]"
  by code_simp

lemma cap_values [simp]:
  "cap ''CLUSTER_BUCKETS_AGGREGATE'' = ''cluster.buckets.aggregate''"
  "cap ''CLUSTER_BUCKETS_LIFECYCLE_WRITE'' = ''cluster.buckets.lifecycle.write''"
  "cap ''CLUSTER_CONTENTS_READ'' = ''cluster.contents.read''"
  "cap ''CLUSTER_LAYOUT_WRITE'' = ''cluster.layout.write''"
  "cap ''CLUSTER_SCRUB_WRITE'' = ''cluster.scrub.write''"
  "cap ''CLUSTER_USAGE_AGGREGATE'' = ''cluster.usage.aggregate''"
  "cap ''CLUSTER_WIRING_CREATE'' = ''cluster.wiring.create''"
  "cap ''CLUSTER_WIRING_LIST'' = ''cluster.wiring.list''"
  "cap ''CLUSTER_WIRING_READ'' = ''cluster.wiring.read''"
  "cap ''CLUSTER_WIRING_UPDATE'' = ''cluster.wiring.update''"
  "cap ''PLATFORM_AUDIT_READ'' = ''platform.audit.read''"
  "cap ''PLATFORM_OIDC_READ'' = ''platform.oidc.read''"
  "cap ''PLATFORM_ONBOARDING_READ'' = ''platform.onboarding.read''"
  "cap ''PLATFORM_POLICIES_LIST'' = ''platform.policies.list''"
  "cap ''PLATFORM_SERVICE_ACCOUNTS_LIST'' = ''platform.service-accounts.list''"
  "cap ''PLATFORM_SERVICE_ACCOUNTS_WRITE'' = ''platform.service-accounts.write''"
  "cap ''PLATFORM_SKINS_READ'' = ''platform.skins.read''"
  "cap ''PLATFORM_SYSTEM_READ'' = ''platform.system.read''"
  "cap ''PLATFORM_USERS_CREATE'' = ''platform.users.create''"
  "cap ''PLATFORM_USERS_LIST'' = ''platform.users.list''"
  by code_simp+

text \<open>
  The flat map lists the members of the four groups, in their order: every reference resolves and
  nothing declared in a group is left out.
\<close>

lemma CAP_values:
  "map snd CAP =
     map (\<lambda>(k, v). Some v) (CAP_PLATFORM @ CAP_CLUSTER_WIRING @ CAP_CLUSTER_CONTENTS @ CAP_SELF)"
  by (simp add: CAP_eval cap_tables)

lemma CAP_distinct: "distinct (map snd CAP)"
  by (simp add: CAP_eval)

end
