(* ===== verification/Session.thy ===== *)
theory Session
  imports Query_Model Capabilities
begin

text \<open>
  The signed-in operator as the front end sees it: \<open>GET /auth/me\<close> (\<open>shared/auth/useUser.ts\<close>, typed
  by \<open>UserResponse\<close> of \<open>shared/api/mutations.ts\<close>), the OIDC probe (\<open>useOIDCAvailable.ts\<close>), the
  capability checks (\<open>useCan.ts\<close>, \<open>Can.tsx\<close>) and the switch of the active role.
\<close>

section \<open>The user record\<close>

text \<open>\<open>AuthMode\<close> of \<open>shared/auth/mode.tsx\<close>.\<close>

datatype auth_mode = UserMode | AdminMode | ElevatedMode

fun modeName :: "auth_mode \<Rightarrow> string" where
  "modeName UserMode = ''user''"
| "modeName AdminMode = ''admin''"
| "modeName ElevatedMode = ''elevated''"

record active_role =
  arKind :: string
  arCluster :: "string option"

record available_role =
  avKind :: string
  avLabel :: string
  avCluster :: "string option"

record UserResponse =
  urId :: "string option"
  urUsername :: string
  urRole :: string
  urUiAdmin :: bool
  urMode :: "auth_mode option"
  urModeExpiresAt :: "int option"
  urActiveRole :: "active_role option"
  urAvailableRoles :: "available_role list option"
  urCapabilities :: "string list option"
  urOidcUser :: "bool option"

text \<open>What \<open>useUser()\<close> returns.\<close>

record user_state =
  usData :: "UserResponse option"
  usLoading :: bool
  usError :: bool

section \<open>The queries\<close>

text \<open>
  The error of a failed read is \<open>Failed to fetch user (status n)\<close>; a 401 is no error but "no user".
  The body is copied field by field, with \<open>false\<close> for an absent \<open>uiAdmin\<close> or \<open>oidcUser\<close>.
\<close>

definition userOfBody :: "json \<Rightarrow> json" where
  "userOfBody d = JObj
     [(''id'', getProp d ''id''), (''username'', getProp d ''username''),
      (''role'', getProp d ''role''), (''uiAdmin'', orElse (getProp d ''uiAdmin'') (JBool False)),
      (''mode'', getProp d ''mode''), (''modeExpiresAt'', getProp d ''modeExpiresAt''),
      (''activeRole'', getProp d ''activeRole''),
      (''availableRoles'', getProp d ''availableRoles''),
      (''capabilities'', getProp d ''capabilities''),
      (''oidcUser'', orElse (getProp d ''oidcUser'') (JBool False))]"

definition containsSub :: "string \<Rightarrow> string \<Rightarrow> bool" where
  "containsSub s t \<longleftrightarrow> sublist t s"

definition useUser :: query where [hook_defs]:
  "useUser =
     (stale 30000 (mkQuery [KS ''auth'', KS ''me'']
        (awaitCall (callReq ''GET'' ''/auth/me'' [] JUndef) (\<lambda>res.
           if crStatus res = 401 then Ret JUndef
           else if \<not> httpOk (crStatus res) \<or> \<not> truthy (crData res)
             then Throw (PlainError
               (''Failed to fetch user (status '' @ dec (crStatus res) @ '')''))
           else Ret (userOfBody (crData res))))))
     \<lparr>qRetry := Some (\<lambda>failures e.
        if containsSub (messageOf e) ''status 401'' then False else failures < 2)\<rparr>"

definition useOIDCAvailable :: query where [hook_defs]:
  "useOIDCAvailable =
     (mkQuery [KS ''auth'', KS ''oidc-available'']
        (awaitFetch ((getReq [])\<lparr>rqUrl := Abs ''/api/v1/auth/methods''\<rparr>) (\<lambda>res.
           if \<not> httpOk (rsStatus res) then Ret (JBool False)
           else bindJs (awaitJson res) (\<lambda>body.
             Ret (JBool (getProp (getProp body ''oidc'') ''configured'' = JBool True))))))
     \<lparr>qStale := Some Infinite, qRetry := retryN 0, qOnFocus := Some False,
      qOnMount := Some False\<rparr>"

section \<open>Capability checks\<close>

text \<open>
  The set is empty while the user is loading, absent, or the server sends no list (an older
  back end): every check then denies.
\<close>

definition capabilitySet :: "user_state \<Rightarrow> string list" where
  "capabilitySet u =
     (let capabilities = (if usLoading u then None
        else (case usData u of None \<Rightarrow> None | Some d \<Rightarrow> urCapabilities d))
      in (case capabilities of None \<Rightarrow> [] | Some cs \<Rightarrow> cs))"

definition can :: "user_state \<Rightarrow> string \<Rightarrow> bool" where
  "can u c \<longleftrightarrow> c \<in> set (capabilitySet u)"

definition canAny :: "user_state \<Rightarrow> string list \<Rightarrow> bool" where
  "canAny u cs \<longleftrightarrow> list_ex (\<lambda>c. c \<in> set (capabilitySet u)) cs"

definition canAll :: "user_state \<Rightarrow> string list \<Rightarrow> bool" where
  "canAll u cs \<longleftrightarrow> 0 < length cs \<and> list_all (\<lambda>c. c \<in> set (capabilitySet u)) cs"

text \<open>\<open><Can>\<close>: are the children rendered?\<close>

definition Can :: "user_state \<Rightarrow> string option \<Rightarrow> string list option \<Rightarrow> string list option \<Rightarrow> bool" where
  "Can u single anyOf allOf =
     (let checks =
        (case single of None \<Rightarrow> [] | Some c \<Rightarrow> [can u c]) @
        (case anyOf of None \<Rightarrow> [] | Some cs \<Rightarrow> [canAny u cs]) @
        (case allOf of None \<Rightarrow> [] | Some cs \<Rightarrow> [canAll u cs])
      in 0 < length checks \<and> list_all (\<lambda>b. b) checks)"

section \<open>The interface the gates rely on\<close>

text \<open>
  The route gate and the landing helper take \<open>can\<close> and \<open>canAny\<close> as functions. What they rely on is
  that \<open>canAny\<close> is the disjunction and \<open>canAll\<close> the non-empty conjunction of \<open>can\<close>.
\<close>

locale capability_view =
  fixes has :: "string \<Rightarrow> bool"
    and hasAny :: "string list \<Rightarrow> bool"
    and hasAll :: "string list \<Rightarrow> bool"
  assumes hasAny_iff: "hasAny cs \<longleftrightarrow> (\<exists>c \<in> set cs. has c)"
    and hasAll_iff: "hasAll cs \<longleftrightarrow> cs \<noteq> [] \<and> (\<forall>c \<in> set cs. has c)"
begin

lemma hasAny_Nil: "\<not> hasAny []"
  by (simp add: hasAny_iff)

lemma hasAll_Nil: "\<not> hasAll []"
  by (simp add: hasAll_iff)

lemma hasAll_hasAny: "hasAll cs \<Longrightarrow> hasAny cs"
  by (auto simp: hasAll_iff hasAny_iff intro: hd_in_set)

lemma hasAny_mono: "hasAny cs \<Longrightarrow> set cs \<subseteq> set ds \<Longrightarrow> hasAny ds"
  by (auto simp: hasAny_iff)

lemma none_held: "(\<And>c. \<not> has c) \<Longrightarrow> \<not> hasAny cs \<and> \<not> hasAll cs"
  by (auto simp: hasAny_iff hasAll_iff)

end

interpretation caps: capability_view "can u" "canAny u" "canAll u" for u
  by unfold_locales (auto simp: can_def canAny_def canAll_def list_ex_iff list_all_iff)

lemma capabilitySet_loading: "usLoading u \<Longrightarrow> capabilitySet u = []"
  by (simp add: capabilitySet_def Let_def)

lemma can_denied_while_loading: "usLoading u \<Longrightarrow> \<not> can u c"
  by (simp add: can_def capabilitySet_loading)

lemma Can_iff:
  "Can u single anyOf allOf \<longleftrightarrow>
     (single \<noteq> None \<or> anyOf \<noteq> None \<or> allOf \<noteq> None) \<and>
     (\<forall>c. single = Some c \<longrightarrow> can u c) \<and>
     (\<forall>cs. anyOf = Some cs \<longrightarrow> (\<exists>c \<in> set cs. can u c)) \<and>
     (\<forall>cs. allOf = Some cs \<longrightarrow> cs \<noteq> [] \<and> (\<forall>c \<in> set cs. can u c))"
  by (auto simp: Can_def Let_def caps.hasAny_iff caps.hasAll_iff split: option.splits)

section \<open>Switching the active role\<close>

record SwitchActiveRoleRequest =
  srKind :: string
  srCluster :: "string option"

definition useSwitchActiveRole :: "SwitchActiveRoleRequest mutation" where [hook_defs]:
  "useSwitchActiveRole = \<lparr>
     mutationFn = (\<lambda>req.
       awaitFetch (jsonReq ''PUT'' ''/auth/active-role''
           (jobj [(''kind'', JStr (srKind req)), (''cluster'', optStr (srCluster req))])) (\<lambda>res.
         if \<not> httpOk (rsStatus res)
         then Throw (apiError ''active-role/switch'' (rsStatus res) (jsonOrNull res))
         else awaitJson res)),
     onSuccess = (\<lambda>user _.
       [SetQueryData [KS ''auth'', KS ''me''] user, MarkStale [KS ''auth'', KS ''me'']])\<rparr>"

text \<open>The request a switch sends, with the cluster only when there is one.\<close>

definition switchRoleReq :: "SwitchActiveRoleRequest \<Rightarrow> fetch_req" where
  "switchRoleReq req = jsonReq ''PUT'' ''/auth/active-role''
     (JObj ((''kind'', JStr (srKind req)) #
        (case srCluster req of None \<Rightarrow> [] | Some c \<Rightarrow> [(''cluster'', JStr c)])))"

lemma switchRoleReq_eq:
  "jsonReq ''PUT'' ''/auth/active-role''
     (jobj [(''kind'', JStr (srKind req)), (''cluster'', optStr (srCluster req))]) = switchRoleReq req"
  by (cases "srCluster req") (simp_all add: switchRoleReq_def jobj_def optStr_def)

lemma run_useSwitchActiveRole:
  "run (mutationFn useSwitchActiveRole req) b h =
     (case onFetch b h (switchRoleReq req) of
        None \<Rightarrow> (h @ [RFetch (switchRoleReq req)], Inl NetworkError)
      | Some res \<Rightarrow> if httpOk (rsStatus res)
          then run (awaitJson res) b (h @ [RFetch (switchRoleReq req)])
          else (h @ [RFetch (switchRoleReq req)],
                Inl (apiError ''active-role/switch'' (rsStatus res) (jsonOrNull res))))"
  by (simp add: useSwitchActiveRole_def awaitFetch_def switchRoleReq_eq split: option.splits)

lemma useSwitchActiveRole_effects:
  "onSuccess useSwitchActiveRole user req =
     [SetQueryData (queryKey useUser) user, MarkStale (queryKey useUser)]"
  by (simp add: useSwitchActiveRole_def useUser_def)

section \<open>The claims\<close>

text \<open>
  Fail-closed: while \<open>/auth/me\<close> is loading, whatever a stale cache still holds, no single,
  any-of or all-of check passes and \<open><Can>\<close> renders its children in no case.
\<close>

theorem loading_denies_everything:
  assumes "usLoading u"
  shows "\<not> can u c \<and> \<not> canAny u cs \<and> \<not> canAll u cs \<and> \<not> Can u single anyOf allOf"
  using caps.none_held [of u] can_denied_while_loading [OF assms]
  by (auto simp: Can_iff)

theorem loading_denies_everything_witness:
  "\<not> can \<lparr>usData = None, usLoading = True, usError = False\<rparr> ''platform.users.list'' \<and>
   \<not> canAny \<lparr>usData = None, usLoading = True, usError = False\<rparr> [''platform.users.list''] \<and>
   \<not> canAll \<lparr>usData = None, usLoading = True, usError = False\<rparr> [''platform.users.list''] \<and>
   \<not> Can \<lparr>usData = None, usLoading = True, usError = False\<rparr> None (Some [''platform.users.list'']) None"
  by (rule loading_denies_everything) simp

text \<open>
  Switching the active role sends one PUT with the requested kind, and the cluster only when there
  is one; a refusal surfaces with its status, and only a success writes the answer into the session
  cache and then marks it stale, in that order.
\<close>

theorem switch_role_request:
  "run (mutationFn useSwitchActiveRole req) b [] = (trace, result) \<Longrightarrow>
   trace = [RFetch (switchRoleReq req)] \<and>
   (case onFetch b [] (switchRoleReq req) of
      None \<Rightarrow> result = Inl NetworkError
    | Some res \<Rightarrow>
        (if httpOk (rsStatus res)
         then (\<forall>user. rsBody res = Some user \<longrightarrow> result = Inr user \<and>
           onSuccess useSwitchActiveRole user req =
             [SetQueryData (queryKey useUser) user, MarkStale (queryKey useUser)])
         else (\<exists>e. result = Inl e \<and> statusOf e = Some (rsStatus res))))"
  by (cases "onFetch b [] (switchRoleReq req)")
     (auto simp: run_useSwitchActiveRole useSwitchActiveRole_effects awaitJson_def split: option.splits)

theorem switch_role_request_witness:
  "snd (run (mutationFn useSwitchActiveRole \<lparr>srKind = ''user'', srCluster = None\<rparr>)
      \<lparr>onFetch = (\<lambda>_ _. Some \<lparr>rsStatus = 200, rsBody = Some (JStr ''u'')\<rparr>), onCall = (\<lambda>_ _. None),
      onPut = (\<lambda>_ _. None)\<rparr> [])
   = Inr (JStr ''u'')"
proof -
  let ?b = "\<lparr>onFetch = (\<lambda>_ _. Some \<lparr>rsStatus = 200, rsBody = Some (JStr ''u'')\<rparr>),
    onCall = (\<lambda>_ _. None),
      onPut = (\<lambda>_ _. None)\<rparr>"
  obtain t r where run: "run (mutationFn useSwitchActiveRole \<lparr>srKind = ''user'', srCluster = None\<rparr>) ?b []
      = (t, r)" by fastforce
  then show ?thesis using switch_role_request [OF run] by (simp add: httpOk_def)
qed

end
