(* ===== verification/Safe_Next.thy ===== *)
theory Safe_Next
  imports Prelude
begin

text \<open>
  \<open>frontend/src/shared/lib/safeNext.ts\<close>: the guard on the post-login redirect target, and its use in
  \<open>LoginForm.tsx\<close>. \<open>next\<close> is any value of the query string; anything but a string is refused.
\<close>

definition sanitizeNextPath :: "json \<Rightarrow> string option" where
  "sanitizeNextPath nxt =
     (case nxt of
        JStr s \<Rightarrow>
          if \<not> startsWith s ''/'' then None
          else if startsWith s ''//'' \<or> startsWith s (CHR ''/'' # [CHR 0x5C]) then None
          else Some s
      | _ \<Rightarrow> None)"

text \<open>\<open>const nextPath = sanitizeNextPath(search.next) ?? "/files"\<close>.\<close>

definition loginNextPath :: "json \<Rightarrow> string" where
  "loginNextPath nxt = (case sanitizeNextPath nxt of None \<Rightarrow> ''/files'' | Some p \<Rightarrow> p)"

text \<open>
  How a browser reads a reference: tabs and line breaks are removed wherever they stand, and then a
  leading pair of slashes, in either direction, starts a host name. A reference with one leading
  slash and no such pair stays on the origin.
\<close>

definition urlInput :: "string \<Rightarrow> string" where
  "urlInput s = filter (\<lambda>c. c \<noteq> TAB \<and> c \<noteq> LF \<and> c \<noteq> CR) s"

definition staysOnOrigin :: "string \<Rightarrow> bool" where
  "staysOnOrigin p \<longleftrightarrow>
     (case urlInput p of c # d # _ \<Rightarrow> c = CHR ''/'' \<and> d \<noteq> CHR ''/'' \<and> d \<noteq> CHR 0x5C
      | [c] \<Rightarrow> c = CHR ''/'' | [] \<Rightarrow> False)"

text \<open>A value without tabs and line breaks.\<close>

definition plainText :: "json \<Rightarrow> bool" where
  "plainText nxt = (case nxt of JStr s \<Rightarrow> urlInput s = s | _ \<Rightarrow> True)"

lemma sanitizeNextPath_Some:
  "plainText nxt \<Longrightarrow> sanitizeNextPath nxt = Some p \<longleftrightarrow> nxt = JStr p \<and> staysOnOrigin p"
proof (cases nxt)
  case (JStr s)
  assume plain: "plainText nxt"
  show ?thesis
  proof (cases s)
    case Nil
    then show ?thesis using JStr by (auto simp: sanitizeNextPath_def staysOnOrigin_def urlInput_def)
  next
    case (Cons c cs)
    then show ?thesis using JStr plain
      by (cases cs) (auto simp: sanitizeNextPath_def staysOnOrigin_def plainText_def)
  qed
qed (auto simp: sanitizeNextPath_def)

lemma accepted_shape: "sanitizeNextPath nxt = Some p \<Longrightarrow> nxt = JStr p"
  by (cases nxt) (auto simp: sanitizeNextPath_def split: if_splits)

lemma files_stays: "staysOnOrigin ''/files''"
  by (simp add: staysOnOrigin_def urlInput_def)



text \<open>
  The guard looks at the string as it is, a browser does not: a tab between the two slashes passes
  the guard and is removed when the address is resolved, which leaves the host name \<open>evil.com\<close>.
\<close>

theorem tab_passes_next_guard:
  "sanitizeNextPath (JStr (''/'' @ [TAB] @ ''/evil.com'')) = Some (''/'' @ [TAB] @ ''/evil.com'') \<and>
   urlInput (''/'' @ [TAB] @ ''/evil.com'') = ''//evil.com'' \<and>
   \<not> staysOnOrigin (''/'' @ [TAB] @ ''/evil.com'')"
  by (simp add: sanitizeNextPath_def staysOnOrigin_def urlInput_def)

end
