(* ===== verification/Access.thy ===== *)
theory Access
  imports Session Safe_Next
begin

text \<open>
  Which page a role may see and where it is sent instead: the route-to-capability table
  (\<open>shared/auth/route-capabilities.ts\<close>), the landing page (\<open>adminLanding.ts\<close>), the bare root
  (\<open>routes/index.tsx\<close>) and the effect of \<open>ProtectedRoute.tsx\<close>. The effect is a function from
  the session and the path to the list of calls it makes (toasts and navigations).
\<close>

section \<open>The route table\<close>

record RouteCapabilityRule =
  rcPattern :: string
  rcAnyOf :: "string list"

definition rule :: "string \<Rightarrow> string \<Rightarrow> RouteCapabilityRule" where
  "rule p c = \<lparr>rcPattern = p, rcAnyOf = [cap c]\<rparr>"

definition ROUTE_CAPABILITIES :: "RouteCapabilityRule list" where
  "ROUTE_CAPABILITIES =
    [rule ''/admin/system'' ''PLATFORM_SYSTEM_READ'',
     rule ''/admin/audit'' ''PLATFORM_AUDIT_READ'',
     rule ''/admin/policies'' ''PLATFORM_POLICIES_LIST'',
     rule ''/admin/users'' ''PLATFORM_USERS_LIST'',
     rule ''/admin/users/new'' ''PLATFORM_USERS_CREATE'',
     rule ''/admin/service-accounts'' ''PLATFORM_SERVICE_ACCOUNTS_LIST'',
     rule ''/admin/service-accounts/new'' ''PLATFORM_SERVICE_ACCOUNTS_WRITE'',
     rule ''/admin/service-accounts/$seg'' ''PLATFORM_SERVICE_ACCOUNTS_LIST'',
     rule ''/admin/skins'' ''PLATFORM_SKINS_READ'',
     rule ''/admin/oidc'' ''PLATFORM_OIDC_READ'',
     rule ''/admin/onboarding'' ''PLATFORM_ONBOARDING_READ'',
     rule ''/admin/first-run'' ''PLATFORM_ONBOARDING_READ'',
     rule ''/admin/buckets'' ''CLUSTER_BUCKETS_AGGREGATE'',
     rule ''/admin/usage'' ''CLUSTER_USAGE_AGGREGATE'',
     rule ''/admin/migrate'' ''CLUSTER_BUCKETS_AGGREGATE'',
     rule ''/admin/clusters'' ''CLUSTER_WIRING_LIST'',
     rule ''/admin/clusters/new'' ''CLUSTER_WIRING_CREATE'',
     rule ''/admin/clusters/$seg/edit'' ''CLUSTER_WIRING_UPDATE'',
     rule ''/admin/clusters/$seg'' ''CLUSTER_WIRING_READ'',
     rule ''/admin/clusters/$seg/buckets/$seg'' ''CLUSTER_CONTENTS_READ'',
     rule ''/admin/clusters/$seg/buckets/$seg/lifecycle/new'' ''CLUSTER_BUCKETS_LIFECYCLE_WRITE'',
     rule ''/admin/clusters/$seg/buckets/$seg/lifecycle/$seg/edit''
       ''CLUSTER_BUCKETS_LIFECYCLE_WRITE'',
     rule ''/admin/clusters/$seg/keys/$seg'' ''CLUSTER_CONTENTS_READ'',
     rule ''/admin/clusters/$seg/layout'' ''CLUSTER_LAYOUT_WRITE'',
     rule ''/admin/clusters/$seg/scrub'' ''CLUSTER_SCRUB_WRITE'']"

section \<open>Matching\<close>

definition segments :: "string \<Rightarrow> string list" where
  "segments path = filter (\<lambda>s. s \<noteq> []) (splitOn CHR ''/'' path)"

text \<open>The loop of \<open>matchPattern\<close>, over the two segment lists of equal length.\<close>

fun matchSegs :: "string list \<Rightarrow> string list \<Rightarrow> bool" where
  "matchSegs (p # ps) (q # qs) =
     (if q = ''$seg'' then matchSegs ps qs else if q \<noteq> p then False else matchSegs ps qs)"
| "matchSegs _ _ = True"

definition matchPattern :: "string \<Rightarrow> string \<Rightarrow> bool" where
  "matchPattern path pat =
     (let p = segments path; q = segments pat in
      if length p \<noteq> length q then False else matchSegs p q)"

text \<open>The loop of \<open>resolveRequiredCapabilities\<close>: the best rule so far and its length.\<close>

fun resolveLoop ::
  "string \<Rightarrow> RouteCapabilityRule list \<Rightarrow> RouteCapabilityRule option \<Rightarrow> int
     \<Rightarrow> RouteCapabilityRule option" where
  "resolveLoop path [] best bestLen = best"
| "resolveLoop path (r # rs) best bestLen =
     (if \<not> matchPattern path (rcPattern r) then resolveLoop path rs best bestLen
      else (let len = int (length (segments (rcPattern r))) in
        if len > bestLen then resolveLoop path rs (Some r) len
        else resolveLoop path rs best bestLen))"

definition resolveIn :: "RouteCapabilityRule list \<Rightarrow> string \<Rightarrow> string list option" where
  "resolveIn tbl path = map_option rcAnyOf (resolveLoop path tbl None (- 1))"

definition resolveRequiredCapabilities :: "string \<Rightarrow> string list option" where
  "resolveRequiredCapabilities = resolveIn ROUTE_CAPABILITIES"

lemma matchPattern_length:
  "matchPattern path pat \<Longrightarrow> length (segments pat) = length (segments path)"
  by (simp add: matchPattern_def Let_def split: if_splits)

lemma resolveLoop_settled:
  "int (length (segments path)) \<le> bestLen \<Longrightarrow> resolveLoop path tbl best bestLen = best"
  by (induction tbl) (auto simp: Let_def dest: matchPattern_length)

text \<open>
  Every matching pattern has as many segments as the path, so no match is longer than another and
  the loop returns the first one.
\<close>

lemma resolveIn_first:
  "resolveIn tbl path = map_option rcAnyOf (find (\<lambda>r. matchPattern path (rcPattern r)) tbl)"
  by (induction tbl)
     (auto simp: resolveIn_def Let_def resolveLoop_settled dest: matchPattern_length)

text \<open>The table with its patterns split, for evaluation.\<close>

definition routeSegments :: "(string list \<times> string list) list" where
  "routeSegments = map (\<lambda>r. (segments (rcPattern r), rcAnyOf r)) ROUTE_CAPABILITIES"

lemma find_map: "find P (map f xs) = map_option f (find (P \<circ> f) xs)"
  by (induction xs) auto

lemma routeSegments_eval [code]:
  "routeSegments =
   [([''admin'', ''system''], [''platform.system.read'']),
    ([''admin'', ''audit''], [''platform.audit.read'']),
    ([''admin'', ''policies''], [''platform.policies.list'']),
    ([''admin'', ''users''], [''platform.users.list'']),
    ([''admin'', ''users'', ''new''], [''platform.users.create'']),
    ([''admin'', ''service-accounts''], [''platform.service-accounts.list'']),
    ([''admin'', ''service-accounts'', ''new''], [''platform.service-accounts.write'']),
    ([''admin'', ''service-accounts'', ''$seg''], [''platform.service-accounts.list'']),
    ([''admin'', ''skins''], [''platform.skins.read'']),
    ([''admin'', ''oidc''], [''platform.oidc.read'']),
    ([''admin'', ''onboarding''], [''platform.onboarding.read'']),
    ([''admin'', ''first-run''], [''platform.onboarding.read'']),
    ([''admin'', ''buckets''], [''cluster.buckets.aggregate'']),
    ([''admin'', ''usage''], [''cluster.usage.aggregate'']),
    ([''admin'', ''migrate''], [''cluster.buckets.aggregate'']),
    ([''admin'', ''clusters''], [''cluster.wiring.list'']),
    ([''admin'', ''clusters'', ''new''], [''cluster.wiring.create'']),
    ([''admin'', ''clusters'', ''$seg'', ''edit''], [''cluster.wiring.update'']),
    ([''admin'', ''clusters'', ''$seg''], [''cluster.wiring.read'']),
    ([''admin'', ''clusters'', ''$seg'', ''buckets'', ''$seg''], [''cluster.contents.read'']),
    ([''admin'', ''clusters'', ''$seg'', ''buckets'', ''$seg'', ''lifecycle'', ''new''], [''cluster.buckets.lifecycle.write'']),
    ([''admin'', ''clusters'', ''$seg'', ''buckets'', ''$seg'', ''lifecycle'', ''$seg'', ''edit''], [''cluster.buckets.lifecycle.write'']),
    ([''admin'', ''clusters'', ''$seg'', ''keys'', ''$seg''], [''cluster.contents.read'']),
    ([''admin'', ''clusters'', ''$seg'', ''layout''], [''cluster.layout.write'']),
    ([''admin'', ''clusters'', ''$seg'', ''scrub''], [''cluster.scrub.write''])]"
  by (simp add: routeSegments_def ROUTE_CAPABILITIES_def rule_def segments_def)

definition findSegments :: "(string list \<times> string list) list \<Rightarrow> string list \<Rightarrow> string list option" where
  "findSegments tbl segs =
     map_option snd (find (\<lambda>(q, cs). length segs = length q \<and> matchSegs segs q) tbl)"

lemma resolveIn_by_segments:
  "resolveIn tbl path =
     findSegments (map (\<lambda>r. (segments (rcPattern r), rcAnyOf r)) tbl) (segments path)"
  by (simp add: resolveIn_first findSegments_def find_map
      option.map_comp comp_def matchPattern_def Let_def cong: conj_cong)

lemma resolve_by_segments [code]:
  "resolveRequiredCapabilities path = findSegments routeSegments (segments path)"
  by (simp add: resolveRequiredCapabilities_def resolveIn_by_segments routeSegments_def)

section \<open>Landing pages\<close>

datatype AdminLandingResult =
    LandClusters
  | LandSystem
  | LandCluster string
  | LandFiles

definition resolveAdminLanding ::
  "(string \<Rightarrow> bool) \<Rightarrow> string option \<Rightarrow> AdminLandingResult" where
  "resolveAdminLanding has activeCluster =
     (if has (cap ''CLUSTER_WIRING_LIST'') then LandClusters
      else if has (cap ''PLATFORM_SYSTEM_READ'') then LandSystem
      else if has (cap ''CLUSTER_CONTENTS_READ'') \<and> present activeCluster
        then LandCluster (the activeCluster)
      else LandFiles)"

text \<open>\<open>`/admin/clusters/${cid}`\<close>.\<close>

definition clusterPath :: "string \<Rightarrow> string" where
  "clusterPath c = ''/admin/clusters/'' @ c"

fun landingPath :: "AdminLandingResult \<Rightarrow> string" where
  "landingPath LandClusters = ''/admin/clusters''"
| "landingPath LandSystem = ''/admin/system''"
| "landingPath (LandCluster c) = clusterPath c"
| "landingPath LandFiles = ''/files''"

section \<open>The two entry points\<close>

text \<open>A call of the effect: a toast, a navigation, or the login page with its \<open>next\<close>.\<close>

datatype nav = Toast string | Goto string | GotoLogin "string option"

text \<open>\<open>RootRouteRedirect\<close>; \<open>None\<close> is the spinner.\<close>

definition rootRouteRedirect :: "user_state \<Rightarrow> nav option" where
  "rootRouteRedirect u =
     (if usLoading u then None
      else (case usData u of
          None \<Rightarrow> Some (GotoLogin None)
        | Some d \<Rightarrow>
            if usError u then Some (GotoLogin None)
            else Some (Goto (landingPath (resolveAdminLanding (can u)
              (case urActiveRole d of None \<Rightarrow> None | Some r \<Rightarrow> arCluster r))))))"

text \<open>\<open>pathname.match(/^\/admin\/clusters\/([^/]+)/)\<close>, its first group.\<close>

definition clusterSegment :: "string \<Rightarrow> string option" where
  "clusterSegment path =
     (if startsWith path ''/admin/clusters/'' then
        (let seg = takeWhile (\<lambda>c. c \<noteq> CHR ''/'') (drop (length ''/admin/clusters/'') path)
         in if seg = [] then None else Some seg)
      else None)"

abbreviation adminToast :: string where
  "adminToast \<equiv> ''Switch to an admin role to access this page.''"

abbreviation uiAdminToast :: string where
  "uiAdminToast \<equiv> ''Switch to UI Admin role to access this page.''"

definition bounceToFiles :: "string \<Rightarrow> nav list" where
  "bounceToFiles message = [Toast message, Goto ''/files'']"

text \<open>The capability gate at the end of the effect.\<close>

definition capabilityGate :: "(string list \<Rightarrow> bool) \<Rightarrow> string \<Rightarrow> nav list" where
  "capabilityGate hasAny pathname =
     (case resolveRequiredCapabilities pathname of
        None \<Rightarrow>
          if \<not> hasAny [cap ''PLATFORM_SYSTEM_READ'', cap ''CLUSTER_WIRING_LIST'',
                      cap ''CLUSTER_WIRING_READ'', cap ''CLUSTER_CONTENTS_READ'']
          then bounceToFiles adminToast else []
      | Some required \<Rightarrow>
          if \<not> hasAny required then
            (let platformOrWiring = list_ex (\<lambda>c.
                 startsWith c ''platform.'' \<or> startsWith c ''cluster.wiring.'' \<or>
                 c = cap ''CLUSTER_BUCKETS_AGGREGATE'' \<or> c = cap ''CLUSTER_USAGE_AGGREGATE'')
                 required
             in bounceToFiles (if platformOrWiring then uiAdminToast else adminToast))
          else [])"

definition ownCluster :: "UserResponse \<Rightarrow> string option" where
  "ownCluster d =
     (case urActiveRole d of None \<Rightarrow> None
      | Some r \<Rightarrow> if arKind r = ''cluster-admin'' then arCluster r else None)"

definition protectedRouteEffect :: "user_state \<Rightarrow> string \<Rightarrow> nav list" where
  "protectedRouteEffect u pathname =
     (if usLoading u then []
      else if pathname = ''/login'' then []
      else (case usData u of
        None \<Rightarrow>
          [GotoLogin (Some (if startsWith pathname ''/admin'' then pathname else ''/files''))]
      | Some d \<Rightarrow>
          if \<not> startsWith pathname ''/admin'' then []
          else if pathname = ''/admin'' \<or> pathname = ''/admin/'' then
            (case resolveAdminLanding (can u) (ownCluster d) of
               LandFiles \<Rightarrow> bounceToFiles adminToast
             | landing \<Rightarrow> [Goto (landingPath landing)])
          else if present (ownCluster d) \<and> pathname = ''/admin/clusters''
            then [Goto (clusterPath (the (ownCluster d)))]
          else if present (ownCluster d) \<and>
               (case clusterSegment pathname of None \<Rightarrow> False
                | Some t \<Rightarrow> t \<noteq> ''new'' \<and> t \<noteq> the (ownCluster d))
            then [Goto (clusterPath (the (ownCluster d)))]
          else capabilityGate (canAny u) pathname))"

text \<open>The render: the children, or a spinner while there is no user.\<close>

definition protectedRouteShows :: "user_state \<Rightarrow> bool" where
  "protectedRouteShows u \<longleftrightarrow> \<not> (usLoading u \<or> usData u = None)"

text \<open>Where the browser ends up after the calls of one effect.\<close>

fun follow :: "string \<Rightarrow> nav list \<Rightarrow> string" where
  "follow p [] = p"
| "follow p (Toast m # ns) = follow p ns"
| "follow p (Goto q # ns) = follow q ns"
| "follow p (GotoLogin n # ns) = follow ''/login'' ns"

text \<open>A cluster id that is one path segment and not the name of a static route.\<close>

definition segmentId :: "string \<Rightarrow> bool" where
  "segmentId c \<longleftrightarrow> c \<noteq> [] \<and> CHR ''/'' \<notin> set c"

definition stays :: "user_state \<Rightarrow> string \<Rightarrow> bool" where
  "stays u p \<longleftrightarrow> follow p (protectedRouteEffect u p) = p"

section \<open>Properties of the gate\<close>

lemma capabilityGate_cases: "capabilityGate f p = [] \<or> (\<exists>m. capabilityGate f p = bounceToFiles m)"
  by (auto simp: capabilityGate_def Let_def split: option.splits)

lemma capabilityGate_empty:
  "capabilityGate f p = [] \<longleftrightarrow>
     (case resolveRequiredCapabilities p of
        None \<Rightarrow> f [cap ''PLATFORM_SYSTEM_READ'', cap ''CLUSTER_WIRING_LIST'',
                   cap ''CLUSTER_WIRING_READ'', cap ''CLUSTER_CONTENTS_READ'']
      | Some required \<Rightarrow> f required)"
  by (simp add: capabilityGate_def bounceToFiles_def Let_def split: option.split)

lemma follow_gate: "follow p (capabilityGate f p) \<in> {p, ''/files''}"
  using capabilityGate_cases [of f p] by (auto simp: bounceToFiles_def)

lemma stays_outside: "\<not> startsWith p ''/admin'' \<Longrightarrow> usData u \<noteq> None \<Longrightarrow> stays u p"
  by (auto simp: stays_def protectedRouteEffect_def split: option.splits)

lemma stays_files: "usData u \<noteq> None \<Longrightarrow> stays u ''/files''"
  by (rule stays_outside) simp

text \<open>One round of the effect: where the browser is sent from a path.\<close>

definition settle :: "user_state \<Rightarrow> string \<Rightarrow> string" where
  "settle u p = follow p (protectedRouteEffect u p)"

lemma clusterSegment_own:
  assumes "CHR ''/'' \<notin> set c"
  shows "clusterSegment (clusterPath c) = (if c = [] then None else Some c)"
proof -
  have "(case takeWhile (\<lambda>x. x \<noteq> CHR ''/'') c of [] \<Rightarrow> None | y # ys \<Rightarrow> Some (y # ys))
      = (if c = [] then None else Some c)"
    using assms by (subst takeWhile_eq_all_conv [THEN iffD2]) (auto split: list.splits)
  then show ?thesis
    by (cases "takeWhile (\<lambda>x. x \<noteq> CHR ''/'') c") (simp_all add: clusterSegment_def clusterPath_def)
qed

lemma clusterPath_neq:
  "clusterPath c \<noteq> ''/admin''" "clusterPath c \<noteq> ''/admin/''" "clusterPath c \<noteq> ''/admin/clusters''"
  by (simp_all add: clusterPath_def)

lemma landing_cluster:
  "resolveAdminLanding has x = LandCluster c \<Longrightarrow> x = Some c \<and> c \<noteq> []"
  by (auto simp: resolveAdminLanding_def present_iff split: if_splits)

text \<open>
  What one round does for a signed-in operator: nothing, a landing, a switch to the operator's own
  cluster, or the capability gate.
\<close>

lemma effect_signed_in:
  assumes "\<not> usLoading u" and "usData u = Some d"
  obtains (quiet) "protectedRouteEffect u p = []" "p = ''/login'' \<or> \<not> startsWith p ''/admin''"
    | (bounce) m where "protectedRouteEffect u p = bounceToFiles m"
    | (land) l where "protectedRouteEffect u p = [Goto (landingPath l)]"
        "resolveAdminLanding (can u) (ownCluster d) = l" "l \<noteq> LandFiles"
        "p = ''/admin'' \<or> p = ''/admin/''"
    | (own) c where "protectedRouteEffect u p = [Goto (clusterPath c)]"
        "ownCluster d = Some c" "c \<noteq> []"
        "p = ''/admin/clusters'' \<or> (\<exists>t. clusterSegment p = Some t \<and> t \<noteq> ''new'' \<and> t \<noteq> c)"
    | (gate) "protectedRouteEffect u p = capabilityGate (canAny u) p"
proof (cases "p = ''/login'' \<or> \<not> startsWith p ''/admin''")
  case True
  then show ?thesis using quiet assms by (auto simp: protectedRouteEffect_def)
next
  case False
  then have eq: "protectedRouteEffect u p =
      (if p = ''/admin'' \<or> p = ''/admin/'' then
         (case resolveAdminLanding (can u) (ownCluster d) of
            LandFiles \<Rightarrow> bounceToFiles adminToast
          | landing \<Rightarrow> [Goto (landingPath landing)])
       else if present (ownCluster d) \<and> p = ''/admin/clusters''
         then [Goto (clusterPath (the (ownCluster d)))]
       else if present (ownCluster d) \<and>
            (case clusterSegment p of None \<Rightarrow> False
             | Some t \<Rightarrow> t \<noteq> ''new'' \<and> t \<noteq> the (ownCluster d))
         then [Goto (clusterPath (the (ownCluster d)))]
       else capabilityGate (canAny u) p)"
    using assms by (simp add: protectedRouteEffect_def)
  show ?thesis
  proof (cases "p = ''/admin'' \<or> p = ''/admin/''")
    case True
    then show ?thesis using eq bounce land
      by (cases "resolveAdminLanding (can u) (ownCluster d)") (auto simp only: if_True AdminLandingResult.case)
  next
    case nb: False
    show ?thesis
    proof (cases "present (ownCluster d) \<and> (p = ''/admin/clusters'' \<or>
        (case clusterSegment p of None \<Rightarrow> False
         | Some t \<Rightarrow> t \<noteq> ''new'' \<and> t \<noteq> the (ownCluster d)))")
      case True
      then obtain c where c: "ownCluster d = Some c" "c \<noteq> []" by (auto simp: present_iff)
      have "protectedRouteEffect u p = [Goto (clusterPath c)]"
        using True nb c eq by (auto simp only: option.sel split: if_splits)
      moreover have "p = ''/admin/clusters'' \<or> (\<exists>t. clusterSegment p = Some t \<and> t \<noteq> ''new'' \<and> t \<noteq> c)"
        using True c by (auto simp only: option.sel split: option.splits)
      ultimately show ?thesis using own c by blast
    next
      case False
      then have "protectedRouteEffect u p = capabilityGate (canAny u) p"
        using nb eq by (auto simp only: split: if_splits)
      then show ?thesis by (rule gate)
    qed
  qed
qed

lemma settle_signed_in:
  assumes "\<not> usLoading u" and "usData u = Some d"
  obtains (same) "settle u p = p" | (files) "settle u p = ''/files''"
    | (system) "settle u p = ''/admin/system''" | (clusters) "settle u p = ''/admin/clusters''"
    | (own) c where "ownCluster d = Some c" "c \<noteq> []" "settle u p = clusterPath c"
  using assms
proof (cases rule: effect_signed_in [where p = p])
  case (land l)
  then show ?thesis using that landing_cluster [of "can u" "ownCluster d"]
    by (cases l) (auto simp only: settle_def follow.simps landingPath.simps)
next
  case gate
  then show ?thesis using that(1,2) follow_gate [of p "canAny u"]
    by (auto simp only: settle_def)
qed (use that in \<open>auto simp only: settle_def follow.simps bounceToFiles_def\<close>)

text \<open>Off the bare landing, a round that does not switch clusters stays or bounces.\<close>

lemma settle_page:
  assumes "\<not> usLoading u" and "usData u = Some d" and "p \<noteq> ''/admin''" and "p \<noteq> ''/admin/''"
    and "p \<noteq> ''/admin/clusters''"
    and "\<And>t. clusterSegment p = Some t \<Longrightarrow> ownCluster d = Some t"
  shows "settle u p = p \<or> settle u p = ''/files''"
  using assms(1,2)
proof (cases rule: effect_signed_in [where p = p])
  case gate
  then show ?thesis using follow_gate [of p "canAny u"] by (auto simp only: settle_def)
next
  case (own c)
  then show ?thesis using assms(5,6) by auto
qed (use assms in \<open>auto simp only: settle_def follow.simps bounceToFiles_def\<close>)

lemma settle_own_cluster:
  assumes "\<not> usLoading u" and "usData u = Some d" and "ownCluster d = Some c" and "CHR ''/'' \<notin> set c"
    and "c \<noteq> []"
  shows "settle u (clusterPath c) = clusterPath c \<or>
    settle u (clusterPath c) = ''/files''"
  by (rule settle_page [OF assms(1,2)])
     (use assms in \<open>simp_all add: clusterSegment_own clusterPath_neq\<close>)

lemma settle_system:
  assumes "\<not> usLoading u" and "usData u = Some d"
  shows "settle u ''/admin/system'' = ''/admin/system'' \<or> settle u ''/admin/system'' = ''/files''"
  by (rule settle_page [OF assms]) (simp_all add: clusterSegment_def)

lemma settle_files: "usData u = Some d \<Longrightarrow> settle u ''/files'' = ''/files''"
  by (simp add: settle_def protectedRouteEffect_def)

lemma settle_clusters:
  assumes "\<not> usLoading u" and "usData u = Some d"
  shows "settle u ''/admin/clusters'' = ''/admin/clusters'' \<or> settle u ''/admin/clusters'' = ''/files'' \<or>
    (\<exists>c. ownCluster d = Some c \<and> c \<noteq> [] \<and> settle u ''/admin/clusters'' = clusterPath c)"
  using assms
proof (cases rule: effect_signed_in [where p = "''/admin/clusters''"])
  case gate
  then show ?thesis using follow_gate [of "''/admin/clusters''" "canAny u"]
    by (auto simp only: settle_def)
qed (auto simp only: settle_def follow.simps bounceToFiles_def list.inject char.inject simp_thms)

lemma settle_login: "settle u ''/login'' = ''/login''"
  by (simp add: settle_def protectedRouteEffect_def)

lemma stays_settle: "stays u p \<longleftrightarrow> settle u p = p"
  by (simp add: stays_def settle_def)

text \<open>A page that the effect leaves alone is one the operator has a capability for.\<close>

lemma effect_admits:
  assumes "\<not> usLoading u" and "usData u \<noteq> None" and "startsWith path ''/admin''"
    and "protectedRouteEffect u path = []"
  shows "\<exists>c. can u c \<and>
    (case resolveRequiredCapabilities path of
       Some required \<Rightarrow> c \<in> set required
     | None \<Rightarrow> c \<in> {cap ''PLATFORM_SYSTEM_READ'', cap ''CLUSTER_WIRING_LIST'',
                   cap ''CLUSTER_WIRING_READ'', cap ''CLUSTER_CONTENTS_READ''})"
proof -
  from assms(2) obtain d where "usData u = Some d" by auto
  with assms(1) have "capabilityGate (canAny u) path = []"
  proof (cases rule: effect_signed_in [where p = path])
    case quiet
    then show ?thesis using assms(3) by auto
  next
    case gate
    then show ?thesis using assms(4) by simp
  qed (use assms(4) in \<open>simp_all add: bounceToFiles_def\<close>)
  then show ?thesis
    unfolding capabilityGate_empty caps.hasAny_iff
    by (cases "resolveRequiredCapabilities path") (auto simp del: cap_values)
qed

lemma files_quiet: "usData u = Some d \<Longrightarrow> protectedRouteEffect u ''/files'' = []"
  by (simp add: protectedRouteEffect_def)

lemma effect_stays:
  assumes "\<not> usLoading u" and "usData u = Some d"
    and "\<And>c. ownCluster d = Some c \<Longrightarrow> CHR ''/'' \<notin> set c" and "settle u p = p"
  shows "protectedRouteEffect u p = []"
  using assms(1,2)
proof (cases rule: effect_signed_in [where p = p])
  case (own c)
  then have "p = clusterPath c" using assms(4) by (simp add: settle_def)
  then show ?thesis
    using own(2-4) assms(3) clusterPath_neq [of c] by (auto simp: clusterSegment_own)
next
  case (land l)
  then show ?thesis using assms(4) clusterPath_neq
    by (cases l) (auto simp: settle_def)
next
  case gate
  then consider "protectedRouteEffect u p = []" | m where "protectedRouteEffect u p = bounceToFiles m"
    using capabilityGate_cases [of "canAny u" p] by auto
  then show ?thesis
    by cases (use assms(4) files_quiet [OF assms(2)] in \<open>auto simp: settle_def bounceToFiles_def\<close>)
next
  case (bounce m)
  then show ?thesis using assms(4) files_quiet [OF assms(2)] by (simp add: settle_def bounceToFiles_def)
qed

section \<open>The claims\<close>

text \<open>
  The table lookup returns the capabilities of the first declared rule that matches the
  path, for every path. Since a pattern only matches paths with as many segments as itself, the
  comparison of lengths in the loop never prefers a later rule.
\<close>

theorem route_resolution_is_first_match:
  "resolveRequiredCapabilities path =
     map_option rcAnyOf (find (\<lambda>r. matchPattern path (rcPattern r)) ROUTE_CAPABILITIES)"
  by (simp add: resolveRequiredCapabilities_def resolveIn_first)

text \<open>
  The order of the declarations is significant: with the same rules in the opposite order the
  page that registers a cluster needs another capability.
\<close>

theorem route_table_order_matters:
  "resolveIn ROUTE_CAPABILITIES ''/admin/clusters/new'' = Some [cap ''CLUSTER_WIRING_CREATE''] \<and>
   resolveIn (rev ROUTE_CAPABILITIES) ''/admin/clusters/new'' = Some [cap ''CLUSTER_WIRING_READ'']"
proof -
  have "resolveIn (rev ROUTE_CAPABILITIES) p = findSegments (rev routeSegments) (segments p)" for p
    by (simp add: resolveIn_by_segments routeSegments_def rev_map)
  moreover have "resolveIn ROUTE_CAPABILITIES p = findSegments routeSegments (segments p)" for p
    by (simp add: resolveIn_by_segments routeSegments_def)
  moreover have "findSegments routeSegments (segments ''/admin/clusters/new'') = Some [''cluster.wiring.create'']"
    "findSegments (rev routeSegments) (segments ''/admin/clusters/new'') = Some [''cluster.wiring.read'']"
    by code_simp+
  ultimately show ?thesis by simp
qed

text \<open>
  C1. Complete mediation: a signed-in operator whom the effect leaves on an admin page holds one of
  the capabilities the table asks for, or, on a page the table does not know, one of the four
  capabilities that only admin roles have.
\<close>

theorem admin_page_needs_capability:
  assumes "\<not> usLoading u" and "usData u \<noteq> None" and "startsWith path ''/admin''"
    and "protectedRouteEffect u path = []"
  shows "\<exists>c. can u c \<and>
    (case resolveRequiredCapabilities path of
       Some required \<Rightarrow> c \<in> set required
     | None \<Rightarrow> c \<in> {cap ''PLATFORM_SYSTEM_READ'', cap ''CLUSTER_WIRING_LIST'',
                   cap ''CLUSTER_WIRING_READ'', cap ''CLUSTER_CONTENTS_READ''})"
  by (rule effect_admits [OF assms])

text \<open>An operator holding the given capabilities, and a settled session.\<close>

definition sampleUser :: "string list \<Rightarrow> active_role option \<Rightarrow> UserResponse" where
  "sampleUser cs r = \<lparr>urId = None, urUsername = ''ops'', urRole = ''admin'', urUiAdmin = True,
     urMode = None, urModeExpiresAt = None, urActiveRole = r, urAvailableRoles = None,
     urCapabilities = Some cs, urOidcUser = None\<rparr>"

definition signedIn :: "UserResponse \<Rightarrow> user_state" where
  "signedIn d = \<lparr>usData = Some d, usLoading = False, usError = False\<rparr>"

definition clusterAdmin :: "string \<Rightarrow> string list \<Rightarrow> user_state" where
  "clusterAdmin c cs = signedIn (sampleUser cs (Some \<lparr>arKind = ''cluster-admin'', arCluster = Some c\<rparr>))"

lemmas access_eval = protectedRouteEffect_def ownCluster_def clusterSegment_def capabilityGate_def
  canAny_def can_def capabilitySet_def sampleUser_def signedIn_def clusterAdmin_def

lemma resolve_clusters:
  "resolveRequiredCapabilities ''/admin/clusters'' = Some [''cluster.wiring.list'']"
  "resolveRequiredCapabilities ''/admin/clusters/c1'' = Some [''cluster.wiring.read'']"
  unfolding resolve_by_segments by code_simp+

theorem admin_page_needs_capability_witness:
  "\<exists>c. can (signedIn (sampleUser [''cluster.wiring.list''] None)) c \<and>
    (case resolveRequiredCapabilities ''/admin/clusters'' of
       Some required \<Rightarrow> c \<in> set required
     | None \<Rightarrow> c \<in> {cap ''PLATFORM_SYSTEM_READ'', cap ''CLUSTER_WIRING_LIST'',
                   cap ''CLUSTER_WIRING_READ'', cap ''CLUSTER_CONTENTS_READ''})"
proof (rule admin_page_needs_capability)
  show "protectedRouteEffect (signedIn (sampleUser [''cluster.wiring.list''] None))
      ''/admin/clusters'' = []"
    by (simp add: access_eval resolve_clusters)
qed (simp_all add: signedIn_def)

text \<open>
  Redirects end: whatever the path, after at most three rounds of the effect the operator is on
  a page that the effect leaves alone (a cluster id being a single path segment).
\<close>

theorem gate_redirects_converge:
  assumes "\<And>d c. usData u = Some d \<Longrightarrow> ownCluster d = Some c \<Longrightarrow> CHR ''/'' \<notin> set c"
  shows "stays u (settle u (settle u (settle u path)))"
proof (cases "usLoading u \<or> usData u = None")
  case True
  then have "settle u q \<in> {q, ''/login''}" for q
    by (auto simp: settle_def protectedRouteEffect_def)
  then show ?thesis unfolding stays_settle using settle_login by (metis insert_iff singletonD)
next
  case False
  then obtain d where l: "\<not> usLoading u" and d: "usData u = Some d" by auto
  note f = settle_files [OF d]
  have ownc: "settle u (settle u (clusterPath c)) = settle u (clusterPath c)"
    if "ownCluster d = Some c" "c \<noteq> []" for c
    using settle_own_cluster [OF l d that(1) assms [OF d that(1)] that(2)] f by auto
  have clusters: "settle u (settle u (settle u ''/admin/clusters'')) = settle u (settle u ''/admin/clusters'')"
    using settle_clusters [OF l d] ownc f by auto
  have system: "settle u (settle u ''/admin/system'') = settle u ''/admin/system''"
    using settle_system [OF l d] f by auto
  from l d show ?thesis
  proof (cases rule: settle_signed_in [where p = path])
    case (own c)
    then show ?thesis using ownc [OF own(1,2)] by (simp add: stays_settle)
  qed (simp_all add: stays_settle f clusters system)
qed

theorem gate_redirects_converge_witness:
  "stays (clusterAdmin ''c1'' [''cluster.wiring.list''])
     (settle (clusterAdmin ''c1'' [''cluster.wiring.list''])
       (settle (clusterAdmin ''c1'' [''cluster.wiring.list''])
         (settle (clusterAdmin ''c1'' [''cluster.wiring.list'']) ''/admin'')))"
  by (rule gate_redirects_converge)
     (auto simp: clusterAdmin_def signedIn_def sampleUser_def ownCluster_def)

text \<open>
  A cluster admin never rests on a page of somebody else's cluster: a page under
  \<open>/admin/clusters/t\<close> that the effect leaves alone is the admin's own cluster or the static page \<open>new\<close>.
\<close>

theorem cluster_admin_confined:
  assumes "\<not> usLoading u" and "usData u = Some d" and "ownCluster d = Some c" and "c \<noteq> []"
    and "clusterSegment path = Some t" and "protectedRouteEffect u path = []"
  shows "t = c \<or> t = ''new''"
proof (rule ccontr)
  assume n: "\<not> (t = c \<or> t = ''new'')"
  have "startsWith path ''/admin/clusters/''"
    using assms(5) by (simp add: clusterSegment_def split: if_splits)
  then obtain r where r: "path = ''/admin/clusters/'' @ r" by (auto simp: prefix_def)
  have "protectedRouteEffect u path = [Goto (clusterPath c)]"
    using assms n by (simp add: protectedRouteEffect_def r)
  then show False using assms by simp
qed

theorem cluster_admin_confined_witness:
  "(''c1'' :: string) = ''c1'' \<or> (''c1'' :: string) = ''new''"
proof (rule cluster_admin_confined)
  show "protectedRouteEffect (clusterAdmin ''c1'' [''cluster.wiring.read'']) ''/admin/clusters/c1'' = []"
    by (simp add: access_eval resolve_clusters)
  show "usData (clusterAdmin ''c1'' [''cluster.wiring.read'']) = Some (sampleUser [''cluster.wiring.read'']
      (Some \<lparr>arKind = ''cluster-admin'', arCluster = Some ''c1''\<rparr>))"
    by (simp add: clusterAdmin_def signedIn_def)
qed (simp_all add: clusterAdmin_def signedIn_def sampleUser_def ownCluster_def clusterSegment_def)

text \<open>
  Without a session every page sends the browser to the login page, and the \<open>next\<close> it
  passes is accepted by the open-redirect guard of the login form unchanged, so an admin deep link
  survives the login.
\<close>

theorem unauthenticated_deep_link:
  assumes "\<not> usLoading u" and "usData u = None" and "path \<noteq> ''/login''"
  shows "\<exists>nxt. protectedRouteEffect u path = [GotoLogin (Some nxt)] \<and>
    loginNextPath (JStr nxt) = nxt \<and> (startsWith path ''/admin'' \<longrightarrow> nxt = path)"
  using assms
  by (auto simp: protectedRouteEffect_def loginNextPath_def sanitizeNextPath_def prefix_def)

theorem unauthenticated_deep_link_witness:
  "\<exists>nxt. protectedRouteEffect \<lparr>usData = None, usLoading = False, usError = False\<rparr> ''/admin/users''
      = [GotoLogin (Some nxt)] \<and>
    loginNextPath (JStr nxt) = nxt \<and> (startsWith ''/admin/users'' ''/admin'' \<longrightarrow> nxt = ''/admin/users'')"
  by (rule unauthenticated_deep_link) simp_all

text \<open>
  The bare root and the bare admin root lead to the same page for every signed-in operator whose
  role carries a cluster only when it is a cluster-admin role.
\<close>

theorem entry_points_agree:
  assumes "\<not> usLoading u" and "\<not> usError u" and "usData u = Some d"
    and "\<And>r. urActiveRole d = Some r \<Longrightarrow> arKind r = ''cluster-admin'' \<or> arCluster r = None"
  shows "rootRouteRedirect u = Some (Goto (settle u ''/admin''))"
proof -
  have eq: "(case urActiveRole d of None \<Rightarrow> None | Some r \<Rightarrow> arCluster r) = ownCluster d"
    using assms(4) by (auto simp: ownCluster_def split: option.splits)
  show ?thesis
    using assms(1-3)
    by (cases "resolveAdminLanding (can u) (ownCluster d)")
       (simp_all add: rootRouteRedirect_def eq settle_def protectedRouteEffect_def bounceToFiles_def)
qed

theorem entry_points_agree_witness:
  "rootRouteRedirect (clusterAdmin ''c1'' [''cluster.contents.read'']) =
     Some (Goto (settle (clusterAdmin ''c1'' [''cluster.contents.read'']) ''/admin''))"
  by (rule entry_points_agree) (auto simp: clusterAdmin_def signedIn_def sampleUser_def)

text \<open>
  The condition is needed: the root reads the cluster of any active role, the admin root that of
  a cluster-admin role only, so a role of another kind that carries a cluster and the contents
  capability lands on two different pages.
\<close>

theorem entry_points_can_differ:
  "\<exists>u. \<not> usLoading u \<and> \<not> usError u \<and>
     rootRouteRedirect u = Some (Goto (clusterPath ''c1'')) \<and> settle u ''/admin'' = ''/files''"
proof -
  let ?u = "signedIn (sampleUser [''cluster.contents.read'']
    (Some \<lparr>arKind = ''user'', arCluster = Some ''c1''\<rparr>))"
  have "\<not> usLoading ?u" "\<not> usError ?u" "rootRouteRedirect ?u = Some (Goto (clusterPath ''c1''))"
    "settle ?u ''/admin'' = ''/files''"
    by (simp_all add: access_eval rootRouteRedirect_def resolveAdminLanding_def settle_def
        bounceToFiles_def)
  then show ?thesis by blast
qed

end
