(* ===== verification/Auth_Mode.thy ===== *)
theory Auth_Mode
  imports Session
begin

text \<open>
  The sudo-style mode of the session: the provider with its one-second ticker
  (\<open>shared/auth/mode.tsx\<close>), the hydrator that copies the server's mode into it
  (\<open>AuthModeHydrator.tsx\<close>), and the banner shown when an admin session has run out
  (\<open>components/auth/ElevationExpiredBanner.tsx\<close>). Times are Unix milliseconds; the server sends
  seconds. An expiry of \<open>0\<close> means the mode does not expire.
\<close>

record ModeState =
  msMode :: auth_mode
  msExpiresAt :: int

definition DEFAULT_STATE :: ModeState where
  "DEFAULT_STATE = \<lparr>msMode = UserMode, msExpiresAt = 0\<rparr>"

section \<open>The downgrade rule\<close>

definition computeNextStateOnDowngrade :: "ModeState \<Rightarrow> int \<Rightarrow> ModeState" where
  "computeNextStateOnDowngrade cur now =
     (if msExpiresAt cur = 0 then cur
      else if now < msExpiresAt cur then cur
      else if msMode cur = ElevatedMode then \<lparr>msMode = AdminMode, msExpiresAt = 0\<rparr>
      else if msMode cur = AdminMode then \<lparr>msMode = UserMode, msExpiresAt = 0\<rparr>
      else cur)"

text \<open>
  One tick of the interval: the next state and the keys it invalidates.
\<close>

definition tick :: "ModeState \<Rightarrow> int \<Rightarrow> ModeState \<times> effect list" where
  "tick cur now =
     (if msExpiresAt cur = 0 then (cur, [])
      else if now < msExpiresAt cur then (cur, [])
      else if msMode cur = ElevatedMode
        then (\<lparr>msMode = AdminMode, msExpiresAt = 0\<rparr>, [Invalidate [KS ''auth'', KS ''me'']])
      else if msMode cur = AdminMode
        then (\<lparr>msMode = UserMode, msExpiresAt = 0\<rparr>, [Invalidate [KS ''auth'', KS ''me'']])
      else (cur, []))"

section \<open>The hydrator\<close>

text \<open>The server's mode and expiry, in milliseconds.\<close>

definition serverState :: "UserResponse \<Rightarrow> ModeState" where
  "serverState user =
     \<lparr>msMode = (case urMode user of None \<Rightarrow> UserMode | Some m \<Rightarrow> m),
      msExpiresAt = (case urModeExpiresAt user of
          Some t \<Rightarrow> if t > 0 then t * 1000 else 0
        | None \<Rightarrow> 0)\<rparr>"

text \<open>The seed effect: the state to set, or \<open>None\<close> when it sets nothing.\<close>

definition hydrate :: "UserResponse option \<Rightarrow> ModeState \<Rightarrow> int \<Rightarrow> ModeState option" where
  "hydrate user cur now =
     (case user of None \<Rightarrow> None
      | Some u \<Rightarrow>
          (let nxt = computeNextStateOnDowngrade (serverState u) now in
           if msMode cur = msMode nxt \<and> msExpiresAt cur = msExpiresAt nxt then None
           else Some nxt))"

definition hydrated :: "UserResponse option \<Rightarrow> ModeState \<Rightarrow> int \<Rightarrow> ModeState" where
  "hydrated user cur now = (case hydrate user cur now of None \<Rightarrow> cur | Some s \<Rightarrow> s)"

text \<open>
  The return from an OIDC elevation: \<open>?elevated=\<close> and \<open>?elevation_error=\<close> of the current URL. The
  result is the toast, the effects, and whether the two parameters are stripped from the URL.
\<close>

datatype toast = ToastSuccess string | ToastError string

definition oidcReturn ::
  "string option \<Rightarrow> string option \<Rightarrow> toast list \<times> effect list \<times> bool" where
  "oidcReturn elevated elevationError =
     (if \<not> present elevated \<and> \<not> present elevationError then ([], [], False)
      else if elevated = Some ''admin'' \<or> elevated = Some ''elevated''
        then ([ToastSuccess (if elevated = Some ''elevated''
                then ''Elevated mode active '' @ emDash @
                     '' destructive actions are unlocked for 5 minutes.''
                else ''Admin mode active '' @ emDash @ '' re-authentication confirmed.'')],
              [Invalidate [KS ''auth'', KS ''me'']], True)
      else if present elevationError
        then ([ToastError (''Elevation failed: '' @ the elevationError)], [], True)
      else ([], [], True))"

section \<open>The expiry banner\<close>

text \<open>
  The latch that an admin session was seen, and the flag. Two effects react to a change of the mode
  and of the path; the banner renders when flag, path and mode agree.
\<close>

record banner =
  bnSaw :: bool
  bnVisible :: bool

definition bannerMode :: "auth_mode \<Rightarrow> banner \<Rightarrow> banner" where
  "bannerMode m b =
     (if m = AdminMode \<or> m = ElevatedMode then \<lparr>bnSaw = True, bnVisible = False\<rparr>
      else if bnSaw b then b\<lparr>bnVisible := True\<rparr>
      else b)"

definition bannerPath :: "string \<Rightarrow> banner \<Rightarrow> banner" where
  "bannerPath path b =
     (if \<not> startsWith path ''/admin'' \<and> bnVisible b then b\<lparr>bnVisible := False\<rparr> else b)"

definition bannerShown :: "auth_mode \<Rightarrow> string \<Rightarrow> banner \<Rightarrow> bool" where
  "bannerShown m path b \<longleftrightarrow> \<not> (\<not> bnVisible b \<or> \<not> startsWith path ''/admin'' \<or> m \<noteq> UserMode)"

datatype banner_event = ModeChange auth_mode | PathChange string

fun bannerStep :: "banner \<Rightarrow> banner_event \<Rightarrow> banner" where
  "bannerStep b (ModeChange m) = bannerMode m b"
| "bannerStep b (PathChange p) = bannerPath p b"

definition bannerRun :: "banner_event list \<Rightarrow> banner" where
  "bannerRun = foldl bannerStep \<lparr>bnSaw = False, bnVisible = False\<rparr>"

section \<open>Facts\<close>

fun rank :: "auth_mode \<Rightarrow> nat" where
  "rank UserMode = 0"
| "rank AdminMode = 1"
| "rank ElevatedMode = 2"

lemma tick_state: "fst (tick cur now) = computeNextStateOnDowngrade cur now"
  by (simp add: tick_def computeNextStateOnDowngrade_def)

lemma downgrade_twice:
  "now \<le> t \<Longrightarrow>
   computeNextStateOnDowngrade (computeNextStateOnDowngrade s now) t = computeNextStateOnDowngrade s t"
  by (auto simp: computeNextStateOnDowngrade_def)

lemma hydrated_eq:
  "hydrated (Some u) cur now = computeNextStateOnDowngrade (serverState u) now"
  by (auto simp: hydrated_def hydrate_def Let_def split: option.splits if_splits
      intro: ModeState.equality)

lemma bannerRun_snoc: "bannerRun (es @ [e]) = bannerStep (bannerRun es) e"
  by (simp add: bannerRun_def)

lemma banner_visible_saw: "bnVisible (bannerRun es) \<Longrightarrow> bnSaw (bannerRun es)"
proof (induction es rule: rev_induct)
  case Nil
  then show ?case by (simp add: bannerRun_def)
next
  case (snoc e es)
  then show ?case
    by (cases e) (auto simp: bannerRun_snoc bannerMode_def bannerPath_def split: if_splits)
qed

lemma banner_saw_iff:
  "bnSaw (bannerRun es) \<longleftrightarrow> ModeChange AdminMode \<in> set es \<or> ModeChange ElevatedMode \<in> set es"
proof (induction es rule: rev_induct)
  case Nil
  then show ?case by (simp add: bannerRun_def)
next
  case (snoc e es)
  then show ?case
    by (cases e) (auto simp: bannerRun_snoc bannerMode_def bannerPath_def split: if_splits)
qed

section \<open>The claims\<close>

text \<open>
  The ticker of the provider and the exported pure rule are the same transition, and the ticker
  refetches \<open>/auth/me\<close> exactly when it changes the mode.
\<close>

theorem ticker_implements_downgrade:
  "fst (tick cur now) = computeNextStateOnDowngrade cur now \<and>
   (snd (tick cur now) = (if msMode (fst (tick cur now)) = msMode cur then []
      else [Invalidate (queryKey useUser)]))"
  by (auto simp: tick_def computeNextStateOnDowngrade_def useUser_def)

text \<open>
  A mode never rises by itself: the rule keeps it or lowers it by exactly one step, it lowers every
  expired privileged mode, and it touches nothing before the expiry.
\<close>

theorem expired_mode_is_lowered:
  "let nxt = computeNextStateOnDowngrade cur now in
   if msExpiresAt cur \<noteq> 0 \<and> msExpiresAt cur \<le> now \<and> msMode cur \<noteq> UserMode
   then Suc (rank (msMode nxt)) = rank (msMode cur) \<and> msExpiresAt nxt = 0
   else nxt = cur"
  by (cases "msMode cur") (auto simp: computeNextStateOnDowngrade_def Let_def)

text \<open>
  C10. No flapping: after the hydrator has seeded a payload, every later tick gives exactly what seeding
  the same payload at that later time would give, so the hydrator never re-promotes an expired mode
  the ticker has lowered.
\<close>

theorem hydrator_and_ticker_agree:
  assumes "now \<le> t"
  shows "fst (tick (hydrated (Some u) cur now) t) = hydrated (Some u) cur' t \<and>
    hydrate (Some u) (fst (tick (hydrated (Some u) cur now) t)) t = None"
proof -
  have "fst (tick (hydrated (Some u) cur now) t) = computeNextStateOnDowngrade (serverState u) t"
    by (simp add: hydrated_eq tick_state downgrade_twice assms)
  then show ?thesis by (simp add: hydrated_eq) (simp add: hydrate_def Let_def)
qed

definition elevatedUser :: "int \<Rightarrow> UserResponse" where
  "elevatedUser t = \<lparr>urId = None, urUsername = ''ops'', urRole = ''admin'', urUiAdmin = True,
     urMode = Some ElevatedMode, urModeExpiresAt = Some t, urActiveRole = None,
     urAvailableRoles = None, urCapabilities = None, urOidcUser = None\<rparr>"

theorem hydrator_and_ticker_agree_witness:
  "fst (tick (hydrated (Some (elevatedUser 100)) DEFAULT_STATE 5000) 200000) =
     hydrated (Some (elevatedUser 100)) DEFAULT_STATE 200000 \<and>
   hydrate (Some (elevatedUser 100))
     (fst (tick (hydrated (Some (elevatedUser 100)) DEFAULT_STATE 5000) 200000)) 200000 = None"
  by (rule hydrator_and_ticker_agree) simp

text \<open>
  The hydrator always ends in the state of the cached payload, whatever was set before: a mode that
  the elevation dialog has just written locally is overwritten until \<open>/auth/me\<close> has been refetched.
\<close>

theorem cached_payload_wins:
  "hydrated (Some u) cur now = computeNextStateOnDowngrade (serverState u) now \<and>
   (urMode u = None \<longrightarrow> hydrated (Some u) \<lparr>msMode = ElevatedMode, msExpiresAt = x\<rparr> now
      = \<lparr>msMode = UserMode, msExpiresAt = msExpiresAt (serverState u)\<rparr>)"
  by (auto simp: hydrated_eq computeNextStateOnDowngrade_def serverState_def)

theorem cached_payload_wins_witness:
  "hydrated (Some ((elevatedUser 0)\<lparr>urMode := None\<rparr>)) \<lparr>msMode = ElevatedMode, msExpiresAt = 9\<rparr> 5
     = \<lparr>msMode = UserMode, msExpiresAt = 0\<rparr>"
  using cached_payload_wins [of "(elevatedUser 0)\<lparr>urMode := None\<rparr>" DEFAULT_STATE 5 9]
  by (simp add: elevatedUser_def serverState_def)

text \<open>
  The expiry banner shows only on an admin page, in user mode, and only to an operator who has been
  in a privileged mode before; a fresh session that never was elevated does not see it.
\<close>

theorem banner_needs_lost_session:
  "bannerShown m path (bannerRun es) \<Longrightarrow>
   m = UserMode \<and> startsWith path ''/admin'' \<and>
   (ModeChange AdminMode \<in> set es \<or> ModeChange ElevatedMode \<in> set es)"
  using banner_visible_saw [of es] banner_saw_iff [of es] by (auto simp: bannerShown_def)

theorem banner_needs_lost_session_witness:
  "ModeChange AdminMode \<in> set [ModeChange AdminMode, ModeChange UserMode] \<or>
   ModeChange ElevatedMode \<in> set [ModeChange AdminMode, ModeChange UserMode]"
proof -
  have "bannerShown UserMode ''/admin/users'' (bannerRun [ModeChange AdminMode, ModeChange UserMode])"
    by (simp add: bannerShown_def bannerRun_def bannerMode_def)
  from banner_needs_lost_session [OF this] show ?thesis by blast
qed

end
