(* ===== verification/Prompts.thy ===== *)
theory Prompts
  imports Session
begin

text \<open>
  The two global prompts: re-authentication (\<open>shared/auth/elevation.tsx\<close> with
  \<open>components/auth/ElevationModal.tsx\<close>) and cluster unlock (\<open>shared/auth/clusterUnlock.tsx\<close>), and
  the response middleware of \<open>shared/api/client.ts\<close> that opens them.

  A promise is a number, given out in order; the settled list records every \<open>resolve\<close> and
  \<open>reject\<close> call. The provider's ref and its React state are two fields, written together as the
  code does. \<open>prompt_slot\<close> is the contract both providers keep; \<open>exclusive_slot\<close> adds the one the
  unlock provider alone keeps.
\<close>

datatype settlement = Resolved | Rejected js_error

section \<open>The contract of a one-slot prompt provider\<close>

datatype 'p prompt_event = Ask 'p | Confirm | Dismiss

text \<open>What happens to a provider, as one sequence of events.\<close>

fun promptStep ::
  "('p \<Rightarrow> 's \<Rightarrow> 's \<times> nat) \<Rightarrow> ('s \<Rightarrow> 's) \<Rightarrow> ('s \<Rightarrow> 's) \<Rightarrow> 's \<Rightarrow> 'p prompt_event \<Rightarrow> 's" where
  "promptStep ask confirm dismiss s (Ask p) = fst (ask p s)"
| "promptStep ask confirm dismiss s Confirm = confirm s"
| "promptStep ask confirm dismiss s Dismiss = dismiss s"

locale prompt_slot =
  fixes ask :: "'p \<Rightarrow> 's \<Rightarrow> 's \<times> nat"
    and confirm :: "'s \<Rightarrow> 's"
    and dismiss :: "'s \<Rightarrow> 's"
    and slot :: "'s \<Rightarrow> nat option"
    and issued :: "'s \<Rightarrow> nat"
    and settled :: "'s \<Rightarrow> (nat \<times> settlement) list"
    and cancelled :: js_error
  assumes ask_id: "snd (ask p s) = issued s"
    and ask_issued: "issued (fst (ask p s)) = Suc (issued s)"
    and ask_slot: "slot (fst (ask p s)) = Some (issued s) \<and> settled (fst (ask p s)) = settled s \<or>
      slot (fst (ask p s)) = slot s \<and>
      (\<exists>e. settled (fst (ask p s)) = settled s @ [(issued s, Rejected e)])"
    and confirm_slot: "slot (confirm s) = None"
    and confirm_issued: "issued (confirm s) = issued s"
    and confirm_settled: "settled (confirm s) =
      settled s @ (case slot s of None \<Rightarrow> [] | Some i \<Rightarrow> [(i, Resolved)])"
    and dismiss_slot: "slot (dismiss s) = None"
    and dismiss_issued: "issued (dismiss s) = issued s"
    and dismiss_settled: "settled (dismiss s) =
      settled s @ (case slot s of None \<Rightarrow> [] | Some i \<Rightarrow> [(i, Rejected cancelled)])"
begin

definition sound :: "'s \<Rightarrow> bool" where
  "sound s \<longleftrightarrow> distinct (map fst (settled s)) \<and> (\<forall>i \<in> fst ` set (settled s). i < issued s) \<and>
     (\<forall>i. slot s = Some i \<longrightarrow> i < issued s \<and> i \<notin> fst ` set (settled s))"

lemma sound_fresh: "sound s \<Longrightarrow> issued s \<notin> fst ` set (settled s)"
  by (auto simp: sound_def dest: bspec)

lemma ask_sound:
  assumes "sound s"
  shows "sound (fst (ask p s))"
  using ask_slot [of p s]
proof
  assume "slot (fst (ask p s)) = Some (issued s) \<and> settled (fst (ask p s)) = settled s"
  then show ?thesis using assms sound_fresh [OF assms]
    by (simp add: sound_def ask_issued less_SucI)
next
  assume "slot (fst (ask p s)) = slot s \<and>
    (\<exists>e. settled (fst (ask p s)) = settled s @ [(issued s, Rejected e)])"
  then obtain e where "slot (fst (ask p s)) = slot s"
    and "settled (fst (ask p s)) = settled s @ [(issued s, Rejected e)]" by blast
  moreover have "slot s \<noteq> Some (issued s)" using assms by (auto simp: sound_def)
  ultimately show ?thesis using assms sound_fresh [OF assms]
    by (auto simp: sound_def ask_issued less_SucI)
qed

lemma ask_settled_grows: "set (settled s) \<subseteq> set (settled (fst (ask p s)))"
  using ask_slot [of p s] by auto

lemma confirm_sound: "sound s \<Longrightarrow> sound (confirm s)"
  by (cases "slot s")
     (auto simp: sound_def confirm_slot confirm_issued confirm_settled image_Un)

lemma dismiss_sound: "sound s \<Longrightarrow> sound (dismiss s)"
  by (cases "slot s")
     (auto simp: sound_def dismiss_slot dismiss_issued dismiss_settled image_Un)

lemma play_sound: "sound s \<Longrightarrow> sound (foldl (promptStep ask confirm dismiss) s es)"
proof (induction es arbitrary: s)
  case (Cons e es)
  then show ?case by (cases e) (simp_all add: ask_sound confirm_sound dismiss_sound)
qed simp

text \<open>A settled promise stays settled, and the same way.\<close>

lemma play_settled_grows:
  "set (settled s) \<subseteq> set (settled (foldl (promptStep ask confirm dismiss) s es))"
proof (induction es arbitrary: s)
  case (Cons e es)
  have "set (settled s) \<subseteq> set (settled (promptStep ask confirm dismiss s e))"
    using ask_settled_grows by (cases e) (simp_all add: confirm_settled dismiss_settled)
  also note Cons.IH [of "promptStep ask confirm dismiss s e"]
  finally show ?case by simp
qed simp

text \<open>A promise that has left the slot unsettled is lost: nothing that happens later settles it.\<close>

lemma lost_forever:
  "i < issued s \<Longrightarrow> slot s \<noteq> Some i \<Longrightarrow> i \<notin> fst ` set (settled s) \<Longrightarrow>
   i \<notin> fst ` set (settled (foldl (promptStep ask confirm dismiss) s es))"
proof (induction es arbitrary: s)
  case (Cons e es)
  let ?t = "promptStep ask confirm dismiss s e"
  have "i < issued ?t \<and> slot ?t \<noteq> Some i \<and> i \<notin> fst ` set (settled ?t)"
  proof (cases e)
    case (Ask p)
    then show ?thesis using ask_slot [of p s] Cons.prems by (auto simp: ask_issued image_Un)
  next
    case Confirm
    then show ?thesis using Cons.prems
      by (auto simp: confirm_issued confirm_slot confirm_settled image_Un split: option.splits)
  next
    case Dismiss
    then show ?thesis using Cons.prems
      by (auto simp: dismiss_issued dismiss_slot dismiss_settled image_Un split: option.splits)
  qed
  then show ?case using Cons.IH [of ?t] by simp
qed simp

end

text \<open>A provider that turns a second request away loses no promise.\<close>

locale exclusive_slot = prompt_slot +
  assumes busy_refuses: "slot s \<noteq> None \<Longrightarrow> slot (fst (ask p s)) = slot s"
begin

definition accounted where
  "accounted s \<longleftrightarrow> (\<forall>i < issued s. i \<in> fst ` set (settled s) \<or> slot s = Some i)"

lemma ask_accounted:
  assumes "sound s" and "accounted s"
  shows "accounted (fst (ask p s))"
proof (cases "slot (fst (ask p s)) = Some (issued s) \<and> settled (fst (ask p s)) = settled s")
  case True
  have "slot s = None"
  proof (rule ccontr)
    assume "slot s \<noteq> None"
    then have "slot s = Some (issued s)" using True busy_refuses [of s p] by simp
    then show False using assms(1) by (simp add: sound_def)
  qed
  then show ?thesis using True assms(2) by (auto simp: accounted_def ask_issued less_Suc_eq)
next
  case False
  then show ?thesis using ask_slot [of p s] assms(2)
    by (auto simp: accounted_def ask_issued less_Suc_eq image_Un)
qed

lemma settle_accounted: "accounted s \<Longrightarrow> accounted (confirm s) \<and> accounted (dismiss s)"
  by (cases "slot s") (auto simp: accounted_def confirm_issued confirm_slot confirm_settled
      dismiss_issued dismiss_slot dismiss_settled image_Un)

lemma play_accounted:
  "sound s \<Longrightarrow> accounted s \<Longrightarrow> accounted (foldl (promptStep ask confirm dismiss) s es)"
proof (induction es arbitrary: s)
  case (Cons e es)
  then show ?case
    by (cases e)
       (simp_all add: ask_sound ask_accounted confirm_sound dismiss_sound settle_accounted)
qed simp

end

section \<open>The elevation provider\<close>

record PendingPrompt =
  ppId :: nat
  ppTarget :: auth_mode
  ppReason :: "string option"

record ElevationProvider =
  epQueue :: "PendingPrompt option"
  epPending :: "PendingPrompt option"
  epIssued :: nat
  epSettled :: "(nat \<times> settlement) list"

definition ELEVATION_CANCELLED :: js_error where
  "ELEVATION_CANCELLED = PlainError ''ELEVATION_CANCELLED''"

definition elevationMounted :: ElevationProvider where
  "elevationMounted = \<lparr>epQueue = None, epPending = None, epIssued = 0, epSettled = []\<rparr>"

text \<open>\<open>promptForElevation\<close>: the promise's number is the second component.\<close>

definition promptForElevation ::
  "auth_mode \<times> string option \<Rightarrow> ElevationProvider \<Rightarrow> ElevationProvider \<times> nat" where
  "promptForElevation req s =
     (let entry = \<lparr>ppId = epIssued s, ppTarget = fst req, ppReason = snd req\<rparr> in
      (s\<lparr>epQueue := Some entry, epPending := Some entry, epIssued := Suc (epIssued s)\<rparr>, epIssued s))"

definition elevationSuccess :: "ElevationProvider \<Rightarrow> ElevationProvider \<times> effect list" where
  "elevationSuccess s =
     (let entry = epQueue s in
      (s\<lparr>epQueue := None, epPending := None,
         epSettled := epSettled s @ (case entry of None \<Rightarrow> [] | Some p \<Rightarrow> [(ppId p, Resolved)])\<rparr>,
       [Invalidate [KS ''auth'', KS ''me''], Invalidate [KS ''user'']]))"

definition elevationCancel :: "ElevationProvider \<Rightarrow> ElevationProvider" where
  "elevationCancel s =
     (let entry = epQueue s in
      s\<lparr>epQueue := None, epPending := None,
        epSettled := epSettled s @
          (case entry of None \<Rightarrow> [] | Some p \<Rightarrow> [(ppId p, Rejected ELEVATION_CANCELLED)])\<rparr>)"

text \<open>The slot of the provider, by promise number.\<close>

definition epSlot :: "ElevationProvider \<Rightarrow> nat option" where
  "epSlot s = map_option ppId (epQueue s)"

definition elevationRun ::
  "(auth_mode \<times> string option) prompt_event list \<Rightarrow> ElevationProvider" where
  "elevationRun = foldl (promptStep promptForElevation (\<lambda>s. fst (elevationSuccess s)) elevationCancel)
     elevationMounted"

interpretation elev: prompt_slot promptForElevation "\<lambda>s. fst (elevationSuccess s)" elevationCancel
    epSlot epIssued epSettled ELEVATION_CANCELLED
  by unfold_locales
     (auto simp: promptForElevation_def elevationSuccess_def elevationCancel_def epSlot_def Let_def
       split: option.splits)

section \<open>The unlock provider\<close>

record Pending =
  unId :: nat
  unCid :: string
  unLabel :: "string option"

record UnlockProvider =
  upQueue :: "Pending option"
  upPending :: "Pending option"
  upIssued :: nat
  upSettled :: "(nat \<times> settlement) list"

definition UNLOCK_CANCELLED :: js_error where
  "UNLOCK_CANCELLED = PlainError ''UNLOCK_CANCELLED''"

definition UNLOCK_PROMPT_BUSY :: js_error where
  "UNLOCK_PROMPT_BUSY = PlainError ''UNLOCK_PROMPT_BUSY''"

definition unlockMounted :: UnlockProvider where
  "unlockMounted = \<lparr>upQueue = None, upPending = None, upIssued = 0, upSettled = []\<rparr>"

definition promptForUnlock ::
  "string \<times> string option \<Rightarrow> UnlockProvider \<Rightarrow> UnlockProvider \<times> nat" where
  "promptForUnlock req s =
     (let nxt = \<lparr>unId = upIssued s, unCid = fst req, unLabel = snd req\<rparr>;
          s' = s\<lparr>upIssued := Suc (upIssued s)\<rparr>
      in if upQueue s \<noteq> None
         then (s'\<lparr>upSettled := upSettled s @ [(upIssued s, Rejected UNLOCK_PROMPT_BUSY)]\<rparr>, upIssued s)
         else (s'\<lparr>upQueue := Some nxt, upPending := Some nxt\<rparr>, upIssued s))"

definition handleUnlocked :: "UnlockProvider \<Rightarrow> UnlockProvider" where
  "handleUnlocked s =
     (let cur = upQueue s in
      s\<lparr>upQueue := None, upPending := None,
        upSettled := upSettled s @ (case cur of None \<Rightarrow> [] | Some p \<Rightarrow> [(unId p, Resolved)])\<rparr>)"

definition unlockCancel :: "UnlockProvider \<Rightarrow> UnlockProvider" where
  "unlockCancel s =
     (let cur = upQueue s in
      s\<lparr>upQueue := None, upPending := None,
        upSettled := upSettled s @
          (case cur of None \<Rightarrow> [] | Some p \<Rightarrow> [(unId p, Rejected UNLOCK_CANCELLED)])\<rparr>)"

definition upSlot :: "UnlockProvider \<Rightarrow> nat option" where
  "upSlot s = map_option unId (upQueue s)"

definition unlockRun :: "(string \<times> string option) prompt_event list \<Rightarrow> UnlockProvider" where
  "unlockRun = foldl (promptStep promptForUnlock handleUnlocked unlockCancel) unlockMounted"

interpretation unlock: exclusive_slot promptForUnlock handleUnlocked unlockCancel
    upSlot upIssued upSettled UNLOCK_CANCELLED
  by unfold_locales
     (auto simp: promptForUnlock_def handleUnlocked_def unlockCancel_def upSlot_def Let_def
       split: option.splits)

section \<open>The handles for callers outside React\<close>

text \<open>
  The module variable \<open>activePrompt\<close>: the provider instance registered last. Unmounting clears it
  only if it still is that instance.
\<close>

definition mountPrompt :: "nat \<Rightarrow> nat option \<Rightarrow> nat option" where
  "mountPrompt i active = Some i"

definition unmountPrompt :: "nat \<Rightarrow> nat option \<Rightarrow> nat option" where
  "unmountPrompt i active = (if active = Some i then None else active)"

text \<open>
  \<open>promptElevationFromAnywhere\<close> and \<open>promptUnlockFromAnywhere\<close>: without a provider the promise is
  rejected at once, and no provider sees it.
\<close>

definition promptElevationFromAnywhere ::
  "bool \<Rightarrow> auth_mode \<times> string option \<Rightarrow> ElevationProvider \<Rightarrow> ElevationProvider \<times> (js_error + nat)" where
  "promptElevationFromAnywhere mounted req s =
     (if \<not> mounted then (s, Inl (PlainError ''ELEVATION_PROVIDER_NOT_MOUNTED''))
      else (case promptForElevation req s of (s', i) \<Rightarrow> (s', Inr i)))"

definition promptUnlockFromAnywhere ::
  "bool \<Rightarrow> string \<times> string option \<Rightarrow> UnlockProvider \<Rightarrow> UnlockProvider \<times> (js_error + nat)" where
  "promptUnlockFromAnywhere mounted req s =
     (if \<not> mounted then (s, Inl (PlainError ''UNLOCK_PROVIDER_NOT_MOUNTED''))
      else (case promptForUnlock req s of (s', i) \<Rightarrow> (s', Inr i)))"

section \<open>The typed client's response middleware\<close>

text \<open>\<open>isElevationRequired\<close> and \<open>isClusterLocked\<close>: every \<open>js_error\<close> is a real \<open>Error\<close>.\<close>

definition isElevationRequired :: "js_error \<Rightarrow> bool" where
  "isElevationRequired e \<longleftrightarrow> codeOf e = JStr ''ELEVATION_REQUIRED''"

definition isClusterLocked :: "js_error \<Rightarrow> bool" where
  "isClusterLocked e \<longleftrightarrow> codeOf e = JStr ''LOCKED''"

text \<open>\<open>details?.mode_required === "elevated" ? "elevated" : "admin"\<close>.\<close>

definition requiredMode :: "json \<Rightarrow> auth_mode" where
  "requiredMode details =
     (if getProp details ''mode_required'' = JStr ''elevated'' then ElevatedMode else AdminMode)"

text \<open>The target to prompt for; the body is \<open>None\<close> when it does not parse.\<close>

definition elevationMiddleware :: "nat \<Rightarrow> json option \<Rightarrow> auth_mode option" where
  "elevationMiddleware status body =
     (if status \<noteq> 403 then None
      else let b = (case body of None \<Rightarrow> JNull | Some j \<Rightarrow> j); e = getProp b ''error'' in
        if getProp e ''code'' \<noteq> JStr ''ELEVATION_REQUIRED'' then None
        else Some (requiredMode (getProp e ''details'')))"

definition unlockMiddleware :: "nat \<Rightarrow> json option \<Rightarrow> string option" where
  "unlockMiddleware status body =
     (if status \<noteq> 423 then None
      else let b = (case body of None \<Rightarrow> JNull | Some j \<Rightarrow> j); e = getProp b ''error'' in
        if getProp e ''code'' \<noteq> JStr ''LOCKED'' then None
        else let cid = getProp (getProp e ''details'') ''cluster_id'' in
          if \<not> truthy cid then None else Some (toStr cid))"

text \<open>
  Both providers, and what one response of the typed client does to them. The promises the
  middleware gets back are dropped (\<open>.catch(() => {})\<close>).
\<close>

record shell =
  shElevation :: ElevationProvider
  shElevationMounted :: bool
  shUnlock :: UnlockProvider
  shUnlockMounted :: bool

definition clientOnResponse :: "nat \<Rightarrow> json option \<Rightarrow> shell \<Rightarrow> shell" where
  "clientOnResponse status body sh =
     (let sh' = (case elevationMiddleware status body of
          None \<Rightarrow> sh
        | Some target \<Rightarrow> sh\<lparr>shElevation := fst (promptElevationFromAnywhere
            (shElevationMounted sh) (target, None) (shElevation sh))\<rparr>)
      in (case unlockMiddleware status body of
          None \<Rightarrow> sh'
        | Some cid \<Rightarrow> sh'\<lparr>shUnlock := fst (promptUnlockFromAnywhere
            (shUnlockMounted sh') (cid, None) (shUnlock sh'))\<rparr>))"

section \<open>The guards\<close>

text \<open>
  The outcome of a prompt is a program: \<open>None\<close> is a promise that never settles, and so is the
  outcome of a guarded operation that waits for it.
\<close>

definition settleJs :: "settlement option \<Rightarrow> unit option js" where
  "settleJs r = (case r of None \<Rightarrow> Ret None | Some Resolved \<Rightarrow> Ret (Some ())
     | Some (Rejected e) \<Rightarrow> Throw e)"

definition retryAfter :: "unit option js \<Rightarrow> 'a js \<Rightarrow> 'a option js" where
  "retryAfter prompt op = bindJs prompt (\<lambda>ans. case ans of
     None \<Rightarrow> Ret None | Some _ \<Rightarrow> bindJs op (\<lambda>x. Ret (Some x)))"

definition runWithElevation ::
  "(auth_mode \<times> string option \<Rightarrow> unit option js) \<Rightarrow> 'a js \<Rightarrow> 'a option js" where
  "runWithElevation prompt op =
     catchJs (bindJs op (\<lambda>x. Ret (Some x))) (\<lambda>err.
       if \<not> isElevationRequired err then Throw err
       else retryAfter (prompt (requiredMode (detailsOf err),
              Some ''This action requires re-authentication.'')) op)"

definition runWithUnlock ::
  "(string \<times> string option \<Rightarrow> unit option js) \<Rightarrow> string \<Rightarrow> 'a js \<Rightarrow> 'a option js" where
  "runWithUnlock prompt cid op =
     catchJs (bindJs op (\<lambda>x. Ret (Some x))) (\<lambda>err.
       if \<not> isClusterLocked err then Throw err else retryAfter (prompt (cid, None)) op)"

lemma run_retryAfter:
  "run (retryAfter prompt op) b h =
     (case run prompt b h of
        (h', Inl e) \<Rightarrow> (h', Inl e)
      | (h', Inr None) \<Rightarrow> (h', Inr None)
      | (h', Inr (Some _)) \<Rightarrow> (fst (run op b h'), map_sum id Some (snd (run op b h'))))"
  by (auto simp: retryAfter_def run_bindJs split: prod.splits sum.splits option.splits)

section \<open>The re-authentication dialog\<close>

text \<open>What a submit ends in: inline error, accepted mode, or a navigation to the identity provider.\<close>

datatype submit_result = ShowError json | Elevated json int | RedirectTo json

definition NETWORK_ERROR_TEXT :: string where
  "NETWORK_ERROR_TEXT = ''Network error '' @ emDash @ '' please try again''"

text \<open>\<open>body && key in body\<close>: the operator throws on a truthy primitive.\<close>

definition inBody :: "json \<Rightarrow> string \<Rightarrow> (bool \<Rightarrow> 'a js) \<Rightarrow> 'a js" where
  "inBody body k cont =
     (case body of
        JObj fs \<Rightarrow> cont (hasProp body k)
      | JArr xs \<Rightarrow> cont False
      | _ \<Rightarrow> if truthy body then Throw (PlainError ''TypeError'') else cont False)"

text \<open>\<open>body && "error" in body && body.error?.message ? body.error.message : fallback\<close>.\<close>

definition bodyMessage :: "json \<Rightarrow> string \<Rightarrow> submit_result js" where
  "bodyMessage body fallback = inBody body ''error'' (\<lambda>has.
     let m = getProp (getProp body ''error'') ''message'' in
     Ret (ShowError (if has \<and> truthy m then m else JStr fallback)))"

definition targetBody :: "auth_mode \<Rightarrow> (string \<times> json) list" where
  "targetBody target = [(''target_mode'', JStr (modeName target))]"

definition oidcStartReq :: "string \<Rightarrow> auth_mode \<Rightarrow> fetch_req" where
  "oidcStartReq startURL target =
     (jsonReq ''POST'' [] (JObj (targetBody target)))\<lparr>rqUrl := Abs startURL\<rparr>"

definition pivotToOIDC :: "string \<Rightarrow> auth_mode \<Rightarrow> submit_result js" where
  "pivotToOIDC startURL target =
     awaitFetch (oidcStartReq startURL target) (\<lambda>res.
       let body = jsonOrNull res;
           failed = (if rsStatus res = 503
             then Ret (ShowError (JStr ''OIDC is not configured on this server. Contact your administrator to enable elevation.''))
             else bodyMessage body (''OIDC elevation failed (HTTP '' @ dec (rsStatus res) @ '')''))
       in if \<not> httpOk (rsStatus res) then failed
          else inBody body ''redirect_url'' (\<lambda>has.
            if \<not> has \<or> \<not> truthy (getProp body ''redirect_url'') then failed
            else Ret (RedirectTo (getProp body ''redirect_url''))))"

definition handleOIDCSubmit :: "auth_mode \<Rightarrow> submit_result js" where
  "handleOIDCSubmit target =
     catchJs (pivotToOIDC ''/api/v1/auth/elevate/oidc/start'' target)
       (\<lambda>_. Ret (ShowError (JStr NETWORK_ERROR_TEXT)))"

definition elevateReq :: "string \<Rightarrow> auth_mode \<Rightarrow> fetch_req" where
  "elevateReq password target =
     (jsonReq ''POST'' [] (JObj ((''password'', JStr password) # targetBody target)))
       \<lparr>rqUrl := Abs ''/api/v1/auth/elevate''\<rparr>"

text \<open>\<open>typeof t === "number" && t > 0 ? t * 1000 : 0\<close>.\<close>

definition expiryMs :: "json \<Rightarrow> int" where
  "expiryMs t = (case t of JNum n \<Rightarrow> if n > 0 then n * 1000 else 0 | _ \<Rightarrow> 0)"

definition nonEmptyStr :: "json \<Rightarrow> bool" where
  "nonEmptyStr j = (case j of JStr s \<Rightarrow> 0 < length s | _ \<Rightarrow> False)"

definition elevateAnswer :: "auth_mode \<Rightarrow> fetch_res \<Rightarrow> submit_result js" where
  "elevateAnswer target res =
     (let body = jsonOrNull res;
          failed = bodyMessage body (''Elevation failed (HTTP '' @ dec (rsStatus res) @ '')'');
          finish = (if \<not> httpOk (rsStatus res) then failed
            else inBody body ''mode'' (\<lambda>has.
              if \<not> has \<or> \<not> truthy (getProp body ''mode'') then failed
              else Ret (Elevated (getProp body ''mode'')
                          (expiryMs (getProp body ''mode_expires_at'')))))
      in if rsStatus res = 401 then Ret (ShowError (JStr ''Invalid password''))
         else if httpOk (rsStatus res) then inBody body ''requires_oidc'' (\<lambda>has.
           if has \<and> truthy (getProp body ''requires_oidc'') \<and> nonEmptyStr (getProp body ''start_url'')
           then pivotToOIDC (toStr (getProp body ''start_url'')) target
           else finish)
         else finish)"

definition handleSubmit :: "string \<Rightarrow> auth_mode \<Rightarrow> submit_result js" where
  "handleSubmit password target =
     (if password = [] then Ret (ShowError (JStr ''Password is required''))
      else catchJs (awaitFetch (elevateReq password target) (elevateAnswer target))
        (\<lambda>_. Ret (ShowError (JStr NETWORK_ERROR_TEXT))))"

section \<open>What a submit and the guards do\<close>

lemma run_inBody:
  "run (inBody body k cont) b h = (h', Inr v) \<Longrightarrow> run (cont (hasProp body k)) b h = (h', Inr v)"
  by (cases body) (auto simp: inBody_def split: if_splits)

lemma bodyMessage_not_elevated: "run (bodyMessage body f) b h \<noteq> (h', Inr (Elevated m x))"
  by (auto simp: bodyMessage_def Let_def dest!: run_inBody)

lemma pivot_not_elevated: "run (pivotToOIDC u t) b h \<noteq> (h', Inr (Elevated m x))"
  using bodyMessage_not_elevated
  by (cases "onFetch b h (oidcStartReq u t)")
     (auto simp: pivotToOIDC_def awaitFetch_def Let_def split: if_splits dest!: run_inBody)

lemma elevateAnswer_elevated:
  assumes "run (elevateAnswer t res) b h = (h', Inr (Elevated m x))"
  shows "h' = h \<and> httpOk (rsStatus res) \<and> m = getProp (jsonOrNull res) ''mode'' \<and> truthy m"
  using assms bodyMessage_not_elevated pivot_not_elevated
  by (auto simp: elevateAnswer_def Let_def split: if_splits dest!: run_inBody)

lemma handleSubmit_elevated:
  assumes "run (handleSubmit pw t) b h = (h', Inr (Elevated m x))"
  shows "pw \<noteq> [] \<and> h' = h @ [RFetch (elevateReq pw t)] \<and>
    (\<exists>res. onFetch b h (elevateReq pw t) = Some res \<and> httpOk (rsStatus res) \<and>
       truthy (getProp (jsonOrNull res) ''mode''))"
proof (cases "onFetch b h (elevateReq pw t)")
  case None
  then show ?thesis using assms by (auto simp: handleSubmit_def awaitFetch_def split: if_splits)
next
  case (Some res)
  let ?h = "h @ [RFetch (elevateReq pw t)]"
  have pw: "pw \<noteq> []" using assms by (auto simp: handleSubmit_def)
  then have "run (elevateAnswer t res) b ?h = (h', Inr (Elevated m x))"
    using assms Some
    by (auto simp: handleSubmit_def awaitFetch_def run_catchJs split: prod.splits sum.splits)
  from elevateAnswer_elevated [OF this] show ?thesis using pw Some by auto
qed

lemma handleOIDCSubmit_not_elevated: "run (handleOIDCSubmit t) b h \<noteq> (h', Inr (Elevated m x))"
  using pivot_not_elevated
  by (auto simp: handleOIDCSubmit_def run_catchJs split: prod.splits sum.splits)

text \<open>A submit never throws: every failure is shown in the dialog.\<close>

lemma handleSubmit_total: "\<exists>r. snd (run (handleSubmit pw t) b h) = Inr r"
  by (auto simp: handleSubmit_def run_catchJs split: prod.splits sum.splits)

lemma handleOIDCSubmit_total: "\<exists>r. snd (run (handleOIDCSubmit t) b h) = Inr r"
  by (auto simp: handleOIDCSubmit_def run_catchJs split: prod.splits sum.splits)

lemma run_runWithElevation:
  "run (runWithElevation prompt op) b h =
     (case run op b h of
        (h', Inr x) \<Rightarrow> (h', Inr (Some x))
      | (h', Inl e) \<Rightarrow> if \<not> isElevationRequired e then (h', Inl e)
          else run (retryAfter (prompt (requiredMode (detailsOf e),
                 Some ''This action requires re-authentication.'')) op) b h')"
  by (auto simp: runWithElevation_def run_catchJs run_bindJs split: prod.splits sum.splits)

lemma run_runWithUnlock:
  "run (runWithUnlock prompt cid op) b h =
     (case run op b h of
        (h', Inr x) \<Rightarrow> (h', Inr (Some x))
      | (h', Inl e) \<Rightarrow> if \<not> isClusterLocked e then (h', Inl e)
          else run (retryAfter (prompt (cid, None)) op) b h')"
  by (auto simp: runWithUnlock_def run_catchJs run_bindJs split: prod.splits sum.splits)

lemma map_of_settled: "distinct (map fst l) \<Longrightarrow> (i, x) \<in> set l \<Longrightarrow> map_of l i = Some x"
  by (rule map_of_is_SomeI)

lemma elevationRun_sound: "elev.sound (elevationRun es)"
  unfolding elevationRun_def
  by (rule elev.play_sound) (simp add: elev.sound_def elevationMounted_def epSlot_def)

lemma unlockRun_sound: "unlock.sound (unlockRun es)"
  unfolding unlockRun_def
  by (rule unlock.play_sound) (simp add: unlock.sound_def unlockMounted_def upSlot_def)

lemma unlockRun_accounted: "unlock.accounted (unlockRun es)"
  unfolding unlockRun_def
  by (rule unlock.play_accounted)
     (simp_all add: unlock.sound_def unlock.accounted_def unlockMounted_def upSlot_def)

text \<open>The React state and the ref are written together, so the dialog shows what the ref holds.\<close>

lemma elevationRun_snoc:
  "elevationRun (es @ [e]) =
     promptStep promptForElevation (\<lambda>s. fst (elevationSuccess s)) elevationCancel (elevationRun es) e"
  by (simp add: elevationRun_def)

lemma elevation_step_shows:
  "epPending s = epQueue s \<Longrightarrow>
   epPending (promptStep promptForElevation (\<lambda>s. fst (elevationSuccess s)) elevationCancel s e) =
   epQueue (promptStep promptForElevation (\<lambda>s. fst (elevationSuccess s)) elevationCancel s e)"
  by (cases e) (simp_all add: promptForElevation_def elevationSuccess_def elevationCancel_def Let_def)

lemma elevationRun_shows: "epPending (elevationRun es) = epQueue (elevationRun es)"
proof (induction es rule: rev_induct)
  case Nil
  then show ?case by (simp add: elevationRun_def elevationMounted_def)
next
  case (snoc e es)
  then show ?case by (simp only: elevationRun_snoc elevation_step_shows)
qed

lemma elevationRun_Ask:
  "epPending (elevationRun (es @ [Ask req])) =
     Some \<lparr>ppId = epIssued (elevationRun es), ppTarget = fst req, ppReason = snd req\<rparr>"
  by (simp add: elevationRun_snoc promptForElevation_def Let_def)

lemma elevationRun_close:
  "epPending (elevationRun (es @ [Confirm])) = None"
  "epPending (elevationRun (es @ [Dismiss])) = None"
  by (simp_all add: elevationRun_snoc elevationSuccess_def elevationCancel_def Let_def)

lemma unlock_step_shows:
  "upPending s = upQueue s \<Longrightarrow>
   upPending (promptStep promptForUnlock handleUnlocked unlockCancel s e) =
   upQueue (promptStep promptForUnlock handleUnlocked unlockCancel s e)"
  by (cases e) (simp_all add: promptForUnlock_def handleUnlocked_def unlockCancel_def Let_def)

lemma unlockRun_shows: "upPending (unlockRun es) = upQueue (unlockRun es)"
proof (induction es rule: rev_induct)
  case Nil
  then show ?case by (simp add: unlockRun_def unlockMounted_def)
next
  case (snoc e es)
  have "unlockRun (es @ [e]) = promptStep promptForUnlock handleUnlocked unlockCancel (unlockRun es) e"
    by (simp add: unlockRun_def)
  then show ?case using unlock_step_shows [OF snoc] by simp
qed

text \<open>
  The promise of one request to the elevation provider, after everything that happens later. It is
  decided by the first later event alone: only the prompt that still holds the slot is settled.
\<close>

definition elevationOutcome ::
  "ElevationProvider \<Rightarrow> (auth_mode \<times> string option) prompt_event list \<Rightarrow> auth_mode \<times> string option \<Rightarrow>
   unit option js" where
  "elevationOutcome s later req =
     (case promptForElevation req s of (s', i) \<Rightarrow>
        settleJs (map_of (epSettled
          (foldl (promptStep promptForElevation (\<lambda>s. fst (elevationSuccess s)) elevationCancel) s' later)) i))"

lemma elevationOutcome_run:
  "elevationOutcome (elevationRun es) later req =
     settleJs (map_of (epSettled (elevationRun (es @ Ask req # later))) (epIssued (elevationRun es)))"
  by (simp add: elevationOutcome_def elevationRun_def case_prod_beta elev.ask_id)

lemma elevation_settled_now:
  assumes "(i, r) \<in> set (epSettled (elevationRun es))"
  shows "map_of (epSettled (elevationRun (es @ later))) i = Some r"
proof (rule map_of_settled)
  show "distinct (map fst (epSettled (elevationRun (es @ later))))"
    using elevationRun_sound [of "es @ later"] by (simp add: elev.sound_def)
  show "(i, r) \<in> set (epSettled (elevationRun (es @ later)))"
    using assms elev.play_settled_grows [of "elevationRun es" later]
    by (auto simp: elevationRun_def)
qed

lemma elevation_replaced:
  "epIssued (elevationRun es) \<notin> fst ` set (epSettled (elevationRun (es @ Ask req # Ask req' # later)))"
proof -
  let ?s = "elevationRun (es @ [Ask req, Ask req'])"
  let ?i = "epIssued (elevationRun es)"
  have run: "elevationRun (es @ Ask req # Ask req' # later) =
      foldl (promptStep promptForElevation (\<lambda>s. fst (elevationSuccess s)) elevationCancel) ?s later"
    by (simp add: elevationRun_def)
  have "?i < epIssued ?s \<and> epSlot ?s \<noteq> Some ?i \<and> ?i \<notin> fst ` set (epSettled ?s)"
    using elev.sound_fresh [OF elevationRun_sound [of es]]
    by (simp add: elevationRun_def promptForElevation_def epSlot_def Let_def)
  then show ?thesis
    unfolding run by (intro elev.lost_forever) simp_all
qed

lemma elevation_outcome:
  "elevationOutcome (elevationRun es) later req =
     (case later of
        Confirm # _ \<Rightarrow> Ret (Some ())
      | Dismiss # _ \<Rightarrow> Throw ELEVATION_CANCELLED
      | _ \<Rightarrow> Ret None)"
proof (cases later)
  case Nil
  have "epIssued (elevationRun es) \<notin> fst ` set (epSettled (elevationRun (es @ [Ask req])))"
    using elev.sound_fresh [OF elevationRun_sound [of es]]
    by (simp add: elevationRun_snoc promptForElevation_def Let_def)
  then show ?thesis
    using Nil by (simp add: elevationOutcome_run settleJs_def map_of_eq_None_iff [THEN iffD2])
next
  case (Cons e rest)
  show ?thesis
  proof (cases e)
    case (Ask req')
    then show ?thesis using Cons elevation_replaced [of es req req' rest]
      by (simp add: elevationOutcome_run settleJs_def map_of_eq_None_iff [THEN iffD2])
  next
    case Confirm
    have "(epIssued (elevationRun es), Resolved) \<in> set (epSettled (elevationRun (es @ [Ask req, Confirm])))"
      by (simp add: elevationRun_def promptForElevation_def elevationSuccess_def Let_def)
    from elevation_settled_now [OF this, of rest] show ?thesis
      using Cons Confirm by (simp add: elevationOutcome_run settleJs_def)
  next
    case Dismiss
    have "(epIssued (elevationRun es), Rejected ELEVATION_CANCELLED)
        \<in> set (epSettled (elevationRun (es @ [Ask req, Dismiss])))"
      by (simp add: elevationRun_def promptForElevation_def elevationCancel_def Let_def)
    from elevation_settled_now [OF this, of rest] show ?thesis
      using Cons Dismiss by (simp add: elevationOutcome_run settleJs_def)
  qed
qed

text \<open>The promise of one request to the unlock provider, after everything that happens later.\<close>

definition unlockOutcome ::
  "UnlockProvider \<Rightarrow> (string \<times> string option) prompt_event list \<Rightarrow> string \<times> string option \<Rightarrow>
   unit option js" where
  "unlockOutcome s later req =
     (case promptForUnlock req s of (s', i) \<Rightarrow>
        settleJs (map_of (upSettled
          (foldl (promptStep promptForUnlock handleUnlocked unlockCancel) s' later)) i))"

lemma busy_outcome:
  assumes "unlock.sound s" and "upQueue s \<noteq> None"
  shows "unlockOutcome s later req = Throw UNLOCK_PROMPT_BUSY"
proof -
  let ?s = "fst (promptForUnlock req s)"
  let ?t = "foldl (promptStep promptForUnlock handleUnlocked unlockCancel) ?s later"
  have "unlock.sound ?t" using assms(1) by (intro unlock.play_sound unlock.ask_sound)
  moreover have "(upIssued s, Rejected UNLOCK_PROMPT_BUSY) \<in> set (upSettled ?s)"
    using assms(2) by (simp add: promptForUnlock_def Let_def)
  then have "(upIssued s, Rejected UNLOCK_PROMPT_BUSY) \<in> set (upSettled ?t)"
    using unlock.play_settled_grows by blast
  ultimately have "map_of (upSettled ?t) (upIssued s) = Some (Rejected UNLOCK_PROMPT_BUSY)"
    by (intro map_of_settled) (simp add: unlock.sound_def)
  then show ?thesis
    by (simp add: unlockOutcome_def settleJs_def case_prod_beta unlock.ask_id)
qed

lemma wire_unlock_opens:
  assumes "unlockMiddleware status body = Some wire" and "shUnlockMounted sh"
  shows "shUnlock (clientOnResponse status body sh) = fst (promptForUnlock (wire, None) (shUnlock sh))"
proof -
  have "status = 423" using assms(1) by (simp add: unlockMiddleware_def split: if_splits)
  then have "elevationMiddleware status body = None" by (simp add: elevationMiddleware_def)
  then show ?thesis using assms
    by (simp add: clientOnResponse_def promptUnlockFromAnywhere_def split: prod.splits)
qed

section \<open>The claims\<close>

text \<open>
  A 403 opens the dialog from the wire exactly when the guard would open it for the error thrown
  from the same body, and both ask for the same mode.
\<close>

theorem guard_and_middleware_agree:
  "elevationMiddleware 403 (Some body) =
     (if isElevationRequired (apiError resource 403 body)
      then Some (requiredMode (detailsOf (apiError resource 403 body))) else None)"
proof -
  have "requiredMode (if truthy d then d else JUndef) = requiredMode d" for d
    by (cases d) (auto simp: requiredMode_def)
  moreover have "(if truthy c then c else JStr (''HTTP_'' @ s)) = JStr ''ELEVATION_REQUIRED'' \<longleftrightarrow>
      c = JStr ''ELEVATION_REQUIRED''" for c s
    by auto
  ultimately show ?thesis
    by (simp add: elevationMiddleware_def isElevationRequired_def apiError_code apiError_details Let_def)
qed



text \<open>
  A second prompt while the dialog is open (a background request answered 403 is enough) takes the
  slot of the first, and the first promise is then never settled: neither a later success nor a
  dismissal reaches it, so the guarded action waits for ever.
\<close>

theorem elevation_second_prompt_loses_first:
  "snd (promptForElevation req (elevationRun es)) \<notin> fst ` set (epSettled
     (elevationRun (es @ Ask req # Ask req' # later)))"
  unfolding elev.ask_id by (rule elevation_replaced)

text \<open>
  C17. The unlock provider loses no promise: after any sequence of requests, unlocks and dismissals every
  promise it has handed out is settled exactly once or is the one the dialog on screen belongs to, and never both.
\<close>

theorem unlock_promises_accounted:
  "distinct (map fst (upSettled (unlockRun es))) \<and>
   {0..<upIssued (unlockRun es)} =
     fst ` set (upSettled (unlockRun es)) \<union> set_option (map_option unId (upPending (unlockRun es))) \<and>
   fst ` set (upSettled (unlockRun es)) \<inter> set_option (map_option unId (upPending (unlockRun es))) = {}"
proof -
  have "upSlot (unlockRun es) = map_option unId (upPending (unlockRun es))"
    by (simp add: upSlot_def unlockRun_shows)
  then show ?thesis
    using unlockRun_sound [of es] unlockRun_accounted [of es]
    by (auto simp: unlock.sound_def unlock.accounted_def)
qed

text \<open>
  A guarded operation that goes through the typed client can never be retried after a 423: the
  client's own middleware has opened the prompt before the guard asks, so the guard is turned away
  with \<open>UNLOCK_PROMPT_BUSY\<close>, whatever the operator does next.
\<close>

theorem unlock_guard_busy_after_wire:
  assumes "unlockMiddleware status body = Some wire" and "shUnlockMounted sh"
    and "shUnlock sh = unlockRun es"
    and "run op b h = (h1, Inl e)" and "isClusterLocked e"
  shows "run (runWithUnlock (unlockOutcome (shUnlock (clientOnResponse status body sh)) later) cid op) b h
    = (h1, Inl UNLOCK_PROMPT_BUSY)"
proof -
  let ?s = "shUnlock (clientOnResponse status body sh)"
  have s: "?s = fst (promptForUnlock (wire, None) (unlockRun es))"
    using wire_unlock_opens [OF assms(1,2)] assms(3) by simp
  have "unlock.sound ?s" unfolding s by (intro unlock.ask_sound unlockRun_sound)
  moreover have "upQueue ?s \<noteq> None" unfolding s by (auto simp: promptForUnlock_def Let_def)
  ultimately have "unlockOutcome ?s later (cid, None) = Throw UNLOCK_PROMPT_BUSY"
    by (rule busy_outcome)
  then show ?thesis using assms(4,5) by (simp add: run_runWithUnlock run_retryAfter)
qed

definition lockedBody :: json where
  "lockedBody = JObj [(''error'', JObj [(''code'', JStr ''LOCKED''),
     (''details'', JObj [(''cluster_id'', JStr ''c1'')])])]"

theorem unlock_guard_busy_after_wire_witness:
  "snd (run (runWithUnlock (unlockOutcome (shUnlock (clientOnResponse 423 (Some lockedBody)
      \<lparr>shElevation = elevationMounted, shElevationMounted = True, shUnlock = unlockRun [],
       shUnlockMounted = True\<rparr>)) [Confirm]) ''c1''
      (Throw (apiError ''keys/create'' 423 lockedBody) :: json js))
      \<lparr>onFetch = (\<lambda>_ _. None), onCall = (\<lambda>_ _. None),
      onPut = (\<lambda>_ _. None)\<rparr> []) = Inl UNLOCK_PROMPT_BUSY"
  by (subst unlock_guard_busy_after_wire [where wire = "''c1''" and es = "[]" and
        e = "apiError ''keys/create'' 423 lockedBody"])
     (simp_all add: unlockMiddleware_def lockedBody_def Let_def isClusterLocked_def apiError_code)

end
