(* ===== verification/Elevation_Flow.thy ===== *)
theory Elevation_Flow
  imports Prompts
begin

text \<open>
  The re-authentication dialog as it is shared: one \<open>ElevationProvider\<close> with one slot, one
  \<open>ElevationModal\<close> and any number of guarded operations (\<open>runWithElevation\<close>), with every
  interleaving of refusals, prompts from elsewhere, submits, late answers and dismissals.

  The awaits of \<open>runWithElevation\<close> are the states of a guard: its first run, the wait for the
  prompt's promise, and the retry. A submit captures the mode the dialog shows when it is sent and stays in
  flight until its answer arrives, also when the dialog has been dismissed or another prompt has
  taken the slot meanwhile; the answer then goes to whatever prompt holds the slot.
\<close>

section \<open>The state\<close>

text \<open>How a submit re-authenticates, the captured \<open>targetMode\<close>, and the prompt it was sent for.\<close>

datatype attempt = ByPassword string | BySso

record flight =
  flHow :: attempt
  flMode :: auth_mode
  flPrompt :: nat

definition attemptJs :: "flight \<Rightarrow> submit_result js" where
  "attemptJs fl = (case flHow fl of ByPassword pw \<Rightarrow> handleSubmit pw (flMode fl)
     | BySso \<Rightarrow> handleOIDCSubmit (flMode fl))"

datatype guarded = FirstRun | AwaitsPrompt nat | Retrying | GuardEnds "js_error + json"

text \<open>The flights in the order sent, \<open>None\<close> once answered; the guarded operations in the order called.\<close>

record elevation_flow =
  efProvider :: ElevationProvider
  efPassword :: string
  efError :: "json option"
  efBusy :: bool
  efFlights :: "flight option list"
  efGuards :: "guarded list"

definition idleFlow :: elevation_flow where
  "idleFlow = \<lparr>efProvider = elevationMounted, efPassword = [], efError = None, efBusy = False,
     efFlights = [], efGuards = []\<rparr>"

section \<open>The events\<close>

text \<open>
  \<open>PromptElsewhere\<close> is a prompt that no guard waits for: of the response middleware, or of a page
  that prompts for itself. The modal shows the form or the single sign-on button as the user query
  says, which may land at any time, so both buttons are events.
\<close>

datatype flow_event =
    CallGuarded
  | OpSettled nat "js_error + json"
  | PromptElsewhere auth_mode "string option"
  | TypeElevation string
  | PressSubmit
  | PressSso
  | ElevateAnswered nat backend "request list"
  | DismissModal

datatype flow_out = OpCalled nat | StoreMode json int | Refresh "effect list" | LeaveFor json

text \<open>The effect on \<open>[open, isOIDCUser]\<close>: the dialog forgets what it held when it closes.\<close>

definition afterClose :: "ElevationProvider \<Rightarrow> elevation_flow \<Rightarrow> elevation_flow" where
  "afterClose before s =
     (if epPending before \<noteq> None \<and> epPending (efProvider s) = None
      then s\<lparr>efPassword := [], efError := None, efBusy := False\<rparr> else s)"

text \<open>What the settled promise does to a guard that waits for it.\<close>

definition wakeGuard :: "nat option \<Rightarrow> settlement \<Rightarrow> guarded \<Rightarrow> guarded" where
  "wakeGuard slot r g =
     (case g of
        AwaitsPrompt i \<Rightarrow> if slot \<noteq> Some i then g
          else (case r of Resolved \<Rightarrow> Retrying | Rejected e \<Rightarrow> GuardEnds (Inl e))
      | _ \<Rightarrow> g)"

definition waitingFor :: "nat option \<Rightarrow> guarded list \<Rightarrow> nat list" where
  "waitingFor slot gs = filter (\<lambda>j. \<exists>i \<in> set_option slot. gs ! j = AwaitsPrompt i) [0..<length gs]"

text \<open>\<open>onSuccess\<close> and \<open>onCancel\<close>: the entry in the slot is settled, whoever it belongs to.\<close>

definition flowSuccess :: "elevation_flow \<Rightarrow> elevation_flow \<times> flow_out list" where
  "flowSuccess s =
     (let slot = epSlot (efProvider s) in
      (afterClose (efProvider s) (s\<lparr>efProvider := fst (elevationSuccess (efProvider s)),
         efGuards := map (wakeGuard slot Resolved) (efGuards s)\<rparr>),
       Refresh (snd (elevationSuccess (efProvider s))) # map OpCalled (waitingFor slot (efGuards s))))"

definition flowCancel :: "elevation_flow \<Rightarrow> elevation_flow" where
  "flowCancel s =
     afterClose (efProvider s) (s\<lparr>efProvider := elevationCancel (efProvider s),
       efGuards := map (wakeGuard (epSlot (efProvider s)) (Rejected ELEVATION_CANCELLED)) (efGuards s)\<rparr>)"

text \<open>The first run of a guarded operation has ended.\<close>

definition firstEnded :: "nat \<Rightarrow> js_error + json \<Rightarrow> elevation_flow \<Rightarrow> elevation_flow" where
  "firstEnded j r s =
     (case r of
        Inr x \<Rightarrow> s\<lparr>efGuards := (efGuards s)[j := GuardEnds (Inr x)]\<rparr>
      | Inl e \<Rightarrow>
          if \<not> isElevationRequired e then s\<lparr>efGuards := (efGuards s)[j := GuardEnds (Inl e)]\<rparr>
          else (case promptForElevation (requiredMode (detailsOf e),
                  Some ''This action requires re-authentication.'') (efProvider s) of
                (p, i) \<Rightarrow> s\<lparr>efProvider := p, efGuards := (efGuards s)[j := AwaitsPrompt i]\<rparr>))"

text \<open>A submit leaves the dialog that is on screen, with the mode it shows.\<close>

definition takeOff :: "attempt \<Rightarrow> PendingPrompt \<Rightarrow> elevation_flow \<Rightarrow> elevation_flow" where
  "takeOff how p s = s\<lparr>efBusy := True, efError := None,
     efFlights := efFlights s @ [Some \<lparr>flHow = how, flMode = ppTarget p, flPrompt = ppId p\<rparr>]\<rparr>"

definition flightOf :: "nat \<Rightarrow> elevation_flow \<Rightarrow> flight option" where
  "flightOf k s = (if k < length (efFlights s) then efFlights s ! k else None)"

text \<open>The answer of a submit; \<open>finally\<close> clears the busy mark whatever it was.\<close>

definition landed :: "submit_result \<Rightarrow> elevation_flow \<Rightarrow> elevation_flow \<times> flow_out list" where
  "landed r s =
     (case r of
        ShowError e \<Rightarrow> (s\<lparr>efError := Some e, efBusy := False\<rparr>, [])
      | RedirectTo u \<Rightarrow> (s\<lparr>efBusy := False\<rparr>, [LeaveFor u])
      | Elevated m t \<Rightarrow> (case flowSuccess s of (s', out) \<Rightarrow> (s'\<lparr>efBusy := False\<rparr>, StoreMode m t # out)))"

fun flowStep :: "flow_event \<Rightarrow> elevation_flow \<Rightarrow> elevation_flow \<times> flow_out list" where
  "flowStep CallGuarded s =
     (s\<lparr>efGuards := efGuards s @ [FirstRun]\<rparr>, [OpCalled (length (efGuards s))])"
| "flowStep (OpSettled j r) s =
     (if length (efGuards s) \<le> j then (s, [])
      else case efGuards s ! j of
          FirstRun \<Rightarrow> (firstEnded j r s, [])
        | Retrying \<Rightarrow> (s\<lparr>efGuards := (efGuards s)[j := GuardEnds r]\<rparr>, [])
        | _ \<Rightarrow> (s, []))"
| "flowStep (PromptElsewhere target reason) s =
     (s\<lparr>efProvider := fst (promptForElevation (target, reason) (efProvider s))\<rparr>, [])"
| "flowStep (TypeElevation pw) s =
     (if epPending (efProvider s) = None \<or> efBusy s then (s, []) else (s\<lparr>efPassword := pw\<rparr>, []))"
| "flowStep PressSubmit s =
     (case epPending (efProvider s) of
        None \<Rightarrow> (s, [])
      | Some p \<Rightarrow>
          if efBusy s then (s, [])
          else if efPassword s = [] then (s\<lparr>efError := Some (JStr ''Password is required'')\<rparr>, [])
          else (takeOff (ByPassword (efPassword s)) p s, []))"
| "flowStep PressSso s =
     (case epPending (efProvider s) of
        None \<Rightarrow> (s, [])
      | Some p \<Rightarrow> if efBusy s then (s, []) else (takeOff BySso p s, []))"
| "flowStep (ElevateAnswered k b h) s =
     (case flightOf k s of
        None \<Rightarrow> (s, [])
      | Some fl \<Rightarrow>
          (case snd (run (attemptJs fl) b h) of
             Inl e \<Rightarrow> (s, [])
           | Inr r \<Rightarrow> landed r (s\<lparr>efFlights := (efFlights s)[k := None]\<rparr>)))"
| "flowStep DismissModal s =
     (if epPending (efProvider s) = None then (s, []) else (flowCancel s, []))"

definition flowTrace :: "flow_event list \<Rightarrow> elevation_flow \<times> flow_out list" where
  "flowTrace = foldl (\<lambda>(s, out) e. (fst (flowStep e s), out @ snd (flowStep e s))) (idleFlow, [])"

definition flowRun :: "flow_event list \<Rightarrow> elevation_flow" where
  "flowRun es = fst (flowTrace es)"

text \<open>How often an operation has been called.\<close>

definition calls :: "nat \<Rightarrow> flow_event list \<Rightarrow> nat" where
  "calls j es = length (filter (\<lambda>q. q = OpCalled j) (snd (flowTrace es)))"

section \<open>What the events keep\<close>

lemma flowRun_snoc: "flowRun (es @ [e]) = fst (flowStep e (flowRun es))"
  by (simp add: flowRun_def flowTrace_def case_prod_beta)

lemma calls_snoc:
  "calls j (es @ [e]) = calls j es + length (filter (\<lambda>q. q = OpCalled j) (snd (flowStep e (flowRun es))))"
  by (simp add: calls_def flowRun_def flowTrace_def case_prod_beta)

lemma afterClose_fields [simp]:
  "efProvider (afterClose p s) = efProvider s" "efFlights (afterClose p s) = efFlights s"
  "efGuards (afterClose p s) = efGuards s"
  by (simp_all add: afterClose_def)

lemma flowSuccess_fields:
  "efProvider (fst (flowSuccess s)) = fst (elevationSuccess (efProvider s))"
  "efFlights (fst (flowSuccess s)) = efFlights s"
  "efGuards (fst (flowSuccess s)) = map (wakeGuard (epSlot (efProvider s)) Resolved) (efGuards s)"
  by (simp_all add: flowSuccess_def Let_def)

lemma flowCancel_fields:
  "efProvider (flowCancel s) = elevationCancel (efProvider s)"
  "efFlights (flowCancel s) = efFlights s"
  "efGuards (flowCancel s) =
     map (wakeGuard (epSlot (efProvider s)) (Rejected ELEVATION_CANCELLED)) (efGuards s)"
  by (simp_all add: flowCancel_def)

lemma distinct_count: "distinct xs \<Longrightarrow> length (filter (\<lambda>x. x = j) xs) = (if j \<in> set xs then 1 else 0)"
  by (induction xs) auto

lemma waitingFor_set: "j \<in> set (waitingFor slot gs) \<longleftrightarrow>
    j < length gs \<and> (\<exists>i. slot = Some i \<and> gs ! j = AwaitsPrompt i)"
  by (cases slot) (auto simp: waitingFor_def)

lemma success_calls:
  "length (filter (\<lambda>q. q = OpCalled j) (snd (flowSuccess s))) =
     (if j \<in> set (waitingFor (epSlot (efProvider s)) (efGuards s)) then 1 else 0)"
proof -
  have "distinct (waitingFor (epSlot (efProvider s)) (efGuards s))" by (simp add: waitingFor_def)
  from distinct_count [OF this, of j] show ?thesis
    by (simp add: flowSuccess_def Let_def filter_map o_def)
qed

text \<open>A later provider: what is new in the slot was handed out later.\<close>

definition laterProvider :: "ElevationProvider \<Rightarrow> ElevationProvider \<Rightarrow> bool" where
  "laterProvider p q \<longleftrightarrow> epIssued p \<le> epIssued q \<and>
     (\<forall>x. epQueue q = Some x \<longrightarrow> epQueue p = Some x \<or> epIssued p \<le> ppId x)"

lemma laterProvider_refl [simp]: "laterProvider p p"
  by (simp add: laterProvider_def)

lemma laterProvider_step:
  "laterProvider p (fst (promptForElevation req p))"
  "laterProvider p (fst (elevationSuccess p))" "laterProvider p (elevationCancel p)"
  by (simp_all add: laterProvider_def promptForElevation_def elevationSuccess_def elevationCancel_def Let_def)

text \<open>What is known of one guarded operation after \<open>es\<close>, called \<open>n\<close> times so far.\<close>

definition refusedWith :: "flow_event list \<Rightarrow> nat \<Rightarrow> js_error \<Rightarrow> bool" where
  "refusedWith es j err \<longleftrightarrow> OpSettled j (Inl err) \<in> set es \<and> isElevationRequired err"

definition guardKnown :: "flow_event list \<Rightarrow> nat \<Rightarrow> ElevationProvider \<Rightarrow> nat \<Rightarrow> guarded \<Rightarrow> bool" where
  "guardKnown es n p j g =
     (case g of
        FirstRun \<Rightarrow> n = 1
      | AwaitsPrompt i \<Rightarrow> n = 1 \<and> i < epIssued p \<and> (\<exists>err. refusedWith es j err \<and>
          (\<forall>x. epQueue p = Some x \<longrightarrow> ppId x = i \<longrightarrow> ppTarget x = requiredMode (detailsOf err)))
      | Retrying \<Rightarrow> n = 2
      | GuardEnds r \<Rightarrow>
          n = 1 \<and> (OpSettled j r \<in> set es \<and> (\<forall>err. r = Inl err \<longrightarrow> \<not> isElevationRequired err) \<or>
            r = Inl ELEVATION_CANCELLED \<and> DismissModal \<in> set es \<and> (\<exists>err. refusedWith es j err)) \<or>
          n = 2 \<and> OpSettled j r \<in> set es)"

lemma guardKnown_later:
  "guardKnown es n p j g \<Longrightarrow> laterProvider p q \<Longrightarrow> guardKnown (es @ [e]) n q j g"
  by (cases g) (fastforce simp: guardKnown_def refusedWith_def laterProvider_def)+

definition flightKnown :: "ElevationProvider \<Rightarrow> flight \<Rightarrow> bool" where
  "flightKnown p fl \<longleftrightarrow> flPrompt fl < epIssued p \<and>
     (\<forall>x. epQueue p = Some x \<longrightarrow> ppId x = flPrompt fl \<longrightarrow> ppTarget x = flMode fl)"

lemma flightKnown_later: "flightKnown p fl \<Longrightarrow> laterProvider p q \<Longrightarrow> flightKnown q fl"
  by (fastforce simp: flightKnown_def laterProvider_def)

text \<open>Each event, as far as providers, flights, guards and calls go.\<close>

lemma landed_fields:
  "efFlights (fst (landed r s)) = efFlights s"
  "efProvider (fst (landed r s)) =
     (case r of Elevated m t \<Rightarrow> fst (elevationSuccess (efProvider s)) | _ \<Rightarrow> efProvider s)"
  "efGuards (fst (landed r s)) =
     (case r of Elevated m t \<Rightarrow> map (wakeGuard (epSlot (efProvider s)) Resolved) (efGuards s) | _ \<Rightarrow> efGuards s)"
  "filter (\<lambda>q. q = OpCalled j) (snd (landed r s)) =
     (case r of Elevated m t \<Rightarrow> filter (\<lambda>q. q = OpCalled j) (snd (flowSuccess s)) | _ \<Rightarrow> [])"
  by (simp_all add: landed_def flowSuccess_fields case_prod_beta split: submit_result.split)

lemma firstEnded_fields:
  "efFlights (firstEnded j r s) = efFlights s"
  "efProvider (firstEnded j r s) = (case r of Inl e \<Rightarrow>
      if isElevationRequired e then fst (promptForElevation (requiredMode (detailsOf e),
        Some ''This action requires re-authentication.'') (efProvider s)) else efProvider s
    | Inr x \<Rightarrow> efProvider s)"
  "efGuards (firstEnded j r s) = (efGuards s)[j := (case r of Inl e \<Rightarrow>
      if isElevationRequired e then AwaitsPrompt (epIssued (efProvider s)) else GuardEnds (Inl e)
    | Inr x \<Rightarrow> GuardEnds (Inr x))]"
  by (simp_all add: firstEnded_def case_prod_beta elev.ask_id split: sum.split)

lemma answered_cases:
  obtains (ignored) "flowStep (ElevateAnswered k b h) s = (s, [])"
  | (landed) fl r where "flightOf k s = Some fl" "snd (run (attemptJs fl) b h) = Inr r"
      "flowStep (ElevateAnswered k b h) s = landed r (s\<lparr>efFlights := (efFlights s)[k := None]\<rparr>)"
proof (cases "flightOf k s")
  case None
  then show ?thesis using ignored by simp
next
  case (Some fl)
  then show ?thesis using ignored landed by (cases "snd (run (attemptJs fl) b h)") simp_all
qed

lemma step_later: "laterProvider (efProvider s) (efProvider (fst (flowStep e s)))"
proof (cases e)
  case (ElevateAnswered k b h)
  then show ?thesis
    by (cases k b h s rule: answered_cases)
       (simp_all add: landed_fields laterProvider_step split: submit_result.split)
qed (auto simp: firstEnded_fields flowCancel_fields laterProvider_step takeOff_def
       split: guarded.split sum.split option.split)

lemma step_provider:
  assumes "efProvider s = elevationRun ps"
  shows "\<exists>ps. efProvider (fst (flowStep e s)) = elevationRun ps"
proof -
  note ask = elevationRun_snoc [of ps "Ask r" for r] and ok = elevationRun_snoc [of ps Confirm]
    and no = elevationRun_snoc [of ps Dismiss]
  have moves: "\<exists>ps'. fst (promptForElevation r (efProvider s)) = elevationRun ps'"
    "\<exists>ps'. fst (elevationSuccess (efProvider s)) = elevationRun ps'"
    "\<exists>ps'. elevationCancel (efProvider s) = elevationRun ps'" "\<exists>ps'. efProvider s = elevationRun ps'" for r
    using assms ask ok no by (metis promptStep.simps)+
  show ?thesis
  proof (cases e)
    case (ElevateAnswered k b h)
    then show ?thesis
      by (cases k b h s rule: answered_cases) (simp_all add: landed_fields moves split: submit_result.split)
  qed (auto simp: firstEnded_fields flowCancel_fields takeOff_def moves
         split: guarded.split sum.split option.split)
qed

lemma step_flights:
  assumes "Some fl \<in> set (efFlights (fst (flowStep e s)))"
  shows "Some fl \<in> set (efFlights s) \<or>
    (\<exists>p. epPending (efProvider s) = Some p \<and> flPrompt fl = ppId p \<and> flMode fl = ppTarget p \<and>
       efProvider (fst (flowStep e s)) = efProvider s)"
proof (cases e)
  case (ElevateAnswered k b h)
  have was: "Some fl \<in> set ((efFlights s)[k := None]) \<Longrightarrow> Some fl \<in> set (efFlights s)"
    using set_update_subset_insert [of "efFlights s" k None] by auto
  show ?thesis
    using assms ElevateAnswered was
    by (cases k b h s rule: answered_cases) (simp_all add: landed_fields)
qed (use assms in \<open>auto simp: firstEnded_fields flowCancel_fields takeOff_def
       split: guarded.splits option.splits if_splits\<close>)


text \<open>What every event keeps of the guards, by the kind of event.\<close>

definition guardsKnown :: "flow_event list \<Rightarrow> (nat \<Rightarrow> nat) \<Rightarrow> ElevationProvider \<Rightarrow> guarded list \<Rightarrow> bool" where
  "guardsKnown es n p gs \<longleftrightarrow> (\<forall>j < length gs. guardKnown es (n j) p j (gs ! j)) \<and> (\<forall>j \<ge> length gs. n j = 0)"

lemma guardsKnown_later:
  "guardsKnown es n p gs \<Longrightarrow> laterProvider p q \<Longrightarrow> guardsKnown (es @ [e]) n q gs"
  by (auto simp: guardsKnown_def intro: guardKnown_later)

lemma guards_called:
  assumes "guardsKnown es n p gs"
  shows "guardsKnown (es @ [e]) (\<lambda>j. n j + (if j = length gs then 1 else 0)) p (gs @ [FirstRun])"
proof -
  have "guardKnown (es @ [e]) 1 p j FirstRun" for j by (simp add: guardKnown_def)
  then show ?thesis
    using guardsKnown_later [OF assms laterProvider_refl, of e]
    by (auto simp: guardsKnown_def nth_append less_Suc_eq)
qed

lemma guards_update:
  assumes "guardsKnown es n p gs" and "laterProvider p q"
    and "j < length gs \<Longrightarrow> guardKnown (es @ [e]) (n j) q j g"
  shows "guardsKnown (es @ [e]) n q (gs[j := g])"
proof -
  note old = guardsKnown_later [OF assms(1,2), of e]
  have "guardKnown (es @ [e]) (n k) q k (gs[j := g] ! k)" if "k < length gs" for k
    using that old assms(3) by (cases "k = j") (auto simp: guardsKnown_def)
  then show ?thesis using old by (simp add: guardsKnown_def)
qed

lemma first_ended:
  assumes "guardsKnown es n p (efGuards s)" and "j < length (efGuards s)" and "efGuards s ! j = FirstRun"
  shows "guardKnown (es @ [OpSettled j r]) (n j) (efProvider (firstEnded j r s)) j (efGuards (firstEnded j r s) ! j)"
proof -
  have "n j = 1" using assms by (auto simp: guardsKnown_def guardKnown_def)
  then show ?thesis
    using assms(2)
    by (auto simp: firstEnded_fields guardKnown_def refusedWith_def promptForElevation_def Let_def
        split: sum.split)
qed

lemma guards_resolved:
  assumes "guardsKnown es n p gs" and "laterProvider p q"
  shows "guardsKnown (es @ [e]) (\<lambda>j. n j + (if j \<in> set (waitingFor slot gs) then 1 else 0)) q
    (map (wakeGuard slot Resolved) gs)"
proof -
  note old = guardsKnown_later [OF assms, of e]
  have "guardKnown (es @ [e]) (n j + (if j \<in> set (waitingFor slot gs) then 1 else 0)) q j
      (wakeGuard slot Resolved (gs ! j))" if "j < length gs" for j
  proof (cases "gs ! j")
    case (AwaitsPrompt i)
    then show ?thesis using that old
      by (auto simp: guardsKnown_def waitingFor_set wakeGuard_def guardKnown_def)
  qed (use that old in \<open>auto simp: guardsKnown_def waitingFor_set wakeGuard_def\<close>)
  then show ?thesis using old by (auto simp: guardsKnown_def waitingFor_set)
qed

lemma guards_rejected:
  assumes "guardsKnown es n p gs" and "laterProvider p q"
  shows "guardsKnown (es @ [DismissModal]) n q (map (wakeGuard slot (Rejected ELEVATION_CANCELLED)) gs)"
proof -
  note old = guardsKnown_later [OF assms, of DismissModal]
  have "guardKnown (es @ [DismissModal]) (n j) q j (wakeGuard slot (Rejected ELEVATION_CANCELLED) (gs ! j))"
    if "j < length gs" for j
  proof (cases "gs ! j")
    case (AwaitsPrompt i)
    then show ?thesis using that old
      by (auto simp: guardsKnown_def wakeGuard_def guardKnown_def)
  qed (use that old in \<open>auto simp: guardsKnown_def wakeGuard_def\<close>)
  then show ?thesis using old by (auto simp: guardsKnown_def)
qed

lemma step_guards:
  assumes s: "s = flowRun es" and ok: "guardsKnown es (\<lambda>j. calls j es) (efProvider s) (efGuards s)"
  shows "guardsKnown (es @ [e]) (\<lambda>j. calls j (es @ [e])) (efProvider (fst (flowStep e s)))
    (efGuards (fst (flowStep e s)))"
proof -
  note later = step_later [of s e]
  have same: ?thesis
    if "efGuards (fst (flowStep e s)) = efGuards s" and "\<And>j. filter (\<lambda>q. q = OpCalled j) (snd (flowStep e s)) = []"
    using that guardsKnown_later [OF ok later, of e] s by (simp add: calls_snoc)
  show ?thesis
  proof (cases e)
    case CallGuarded
    then have "calls j (es @ [e]) = calls j es + (if j = length (efGuards s) then 1 else 0)" for j
      using s by (simp add: calls_snoc)
    then show ?thesis using guards_called [OF ok, of e] CallGuarded by simp
  next
    case (OpSettled j r)
    show ?thesis
    proof (cases "j < length (efGuards s) \<and> (efGuards s ! j = FirstRun \<or> efGuards s ! j = Retrying)")
      case False
      then show ?thesis using OpSettled by (intro same) (auto split: guarded.splits)
    next
      case True
      have silent: "snd (flowStep e s) = []" using OpSettled by (auto split: guarded.split)
      have "guardsKnown (es @ [e]) (\<lambda>j. calls j es) (efProvider (fst (flowStep e s))) (efGuards (fst (flowStep e s)))"
      proof (cases "efGuards s ! j = FirstRun")
        case first: True
        have step: "fst (flowStep e s) = firstEnded j r s" using True first OpSettled by simp
        obtain g where g: "efGuards (firstEnded j r s) = (efGuards s)[j := g]" by (simp add: firstEnded_fields)
        have "guardKnown (es @ [e]) (calls j es) (efProvider (firstEnded j r s)) j (efGuards (firstEnded j r s) ! j)"
          using first_ended [OF ok _ first] True OpSettled by simp
        then show ?thesis
          unfolding step g using True later [unfolded step] by (intro guards_update [OF ok]) (simp_all add: g)
      next
        case False
        then have "efGuards s ! j = Retrying" using True by simp
        moreover from this have "calls j es = 2" using ok True by (auto simp: guardsKnown_def guardKnown_def)
        ultimately show ?thesis
          using True OpSettled guards_update [OF ok laterProvider_refl, of j e "GuardEnds r"]
          by (simp add: guardKnown_def)
      qed
      then show ?thesis using silent s by (simp add: calls_snoc)
    qed
  next
    case (ElevateAnswered k b h)
    show ?thesis
    proof (cases k b h s rule: answered_cases)
      case ignored
      then show ?thesis using ElevateAnswered by (intro same) simp_all
    next
      case (landed fl r)
      show ?thesis
      proof (cases r)
        case (Elevated m t)
        let ?s = "s\<lparr>efFlights := (efFlights s)[k := None]\<rparr>"
        have "calls j (es @ [e]) = calls j es +
            (if j \<in> set (waitingFor (epSlot (efProvider s)) (efGuards s)) then 1 else 0)" for j
          using ElevateAnswered landed Elevated s success_calls [of j ?s] by (simp add: calls_snoc landed_fields)
        then show ?thesis
          using guards_resolved [OF ok laterProvider_step(2), of e "epSlot (efProvider s)"]
            ElevateAnswered landed Elevated by (simp add: landed_fields)
      qed (use ElevateAnswered landed in \<open>intro same; simp add: landed_fields\<close>)+
    qed
  next
    case DismissModal
    show ?thesis
    proof (cases "epPending (efProvider s) = None")
      case True
      then show ?thesis using DismissModal by (intro same) simp_all
    next
      case False
      then show ?thesis
        using DismissModal s guards_rejected [OF ok laterProvider_step(3), of "epSlot (efProvider s)"]
        by (auto simp: flowCancel_fields calls_snoc)
    qed
  qed (intro same; auto simp: takeOff_def split: option.split)+
qed


definition flowOk :: "flow_event list \<Rightarrow> elevation_flow \<Rightarrow> bool" where
  "flowOk es s \<longleftrightarrow> (\<exists>ps. efProvider s = elevationRun ps) \<and>
     (\<forall>fl. Some fl \<in> set (efFlights s) \<longrightarrow> flightKnown (efProvider s) fl) \<and>
     guardsKnown es (\<lambda>j. calls j es) (efProvider s) (efGuards s)"

lemma flightKnown_sent:
  assumes "epPending (elevationRun ps) = Some p" and "flPrompt fl = ppId p" and "flMode fl = ppTarget p"
  shows "flightKnown (elevationRun ps) fl"
proof -
  have "epQueue (elevationRun ps) = Some p" using assms(1) by (simp add: elevationRun_shows)
  then show ?thesis
    using assms elevationRun_sound [of ps] by (simp add: flightKnown_def elev.sound_def epSlot_def)
qed

lemma flow_ok: "flowOk es (flowRun es)"
proof (induction es rule: rev_induct)
  case Nil
  have "elevationMounted = elevationRun []" by (simp add: elevationRun_def)
  then show ?case
    by (auto simp: flowOk_def flowRun_def flowTrace_def idleFlow_def guardsKnown_def calls_def)
next
  case (snoc e es)
  let ?s = "flowRun es" and ?t = "fst (flowStep e (flowRun es))"
  from snoc obtain ps where p: "efProvider ?s = elevationRun ps" by (auto simp: flowOk_def)
  have "flightKnown (efProvider ?t) fl" if "Some fl \<in> set (efFlights ?t)" for fl
    using step_flights [OF that]
  proof
    assume "Some fl \<in> set (efFlights ?s)"
    then have "flightKnown (efProvider ?s) fl" using snoc by (simp add: flowOk_def)
    then show ?thesis using step_later by (rule flightKnown_later)
  next
    assume "\<exists>x. epPending (efProvider ?s) = Some x \<and> flPrompt fl = ppId x \<and> flMode fl = ppTarget x \<and>
      efProvider ?t = efProvider ?s"
    then show ?thesis using flightKnown_sent [of ps] p by auto
  qed
  moreover have "\<exists>ps. efProvider ?t = elevationRun ps" using step_provider [OF p] .
  moreover have "guardsKnown (es @ [e]) (\<lambda>j. calls j (es @ [e])) (efProvider ?t) (efGuards ?t)"
    using snoc by (intro step_guards) (simp_all add: flowOk_def)
  ultimately show ?case by (simp add: flowOk_def flowRun_snoc)
qed

text \<open>A call of an operation is its first, or the answer of an accepted password.\<close>

lemma op_called:
  assumes "OpCalled j \<in> set (snd (flowStep e s))"
  shows "e = CallGuarded \<and> j = length (efGuards s) \<or>
    (\<exists>k b h fl m t i. e = ElevateAnswered k b h \<and> flightOf k s = Some fl \<and>
       snd (run (attemptJs fl) b h) = Inr (Elevated m t) \<and> j < length (efGuards s) \<and>
       epSlot (efProvider s) = Some i \<and> efGuards s ! j = AwaitsPrompt i)"
proof (cases e)
  case (ElevateAnswered k b h)
  show ?thesis
  proof (cases k b h s rule: answered_cases)
    case ignored
    then show ?thesis using assms ElevateAnswered by simp
  next
    case (landed fl r)
    then show ?thesis
      using assms ElevateAnswered
      by (cases r) (auto simp: landed_def flowSuccess_def Let_def waitingFor_set split: prod.splits)
  qed
qed (use assms in \<open>auto split: guarded.splits option.splits if_splits\<close>)

definition passwordAccepted :: "backend \<Rightarrow> request list \<Rightarrow> flight \<Rightarrow> bool" where
  "passwordAccepted b h fl \<longleftrightarrow> (\<exists>pw res. flHow fl = ByPassword pw \<and> pw \<noteq> [] \<and>
     onFetch b h (elevateReq pw (flMode fl)) = Some res \<and> httpOk (rsStatus res) \<and>
     truthy (getProp (jsonOrNull res) ''mode''))"

lemma elevated_accepted: "snd (run (attemptJs fl) b h) = Inr (Elevated m t) \<Longrightarrow> passwordAccepted b h fl"
proof (cases "flHow fl")
  case (ByPassword pw)
  assume "snd (run (attemptJs fl) b h) = Inr (Elevated m t)"
  then have "run (handleSubmit pw (flMode fl)) b h = (fst (run (attemptJs fl) b h), Inr (Elevated m t))"
    using ByPassword by (simp add: attemptJs_def prod_eq_iff)
  from handleSubmit_elevated [OF this] show ?thesis using ByPassword by (auto simp: passwordAccepted_def)
next
  case BySso
  assume "snd (run (attemptJs fl) b h) = Inr (Elevated m t)"
  then show ?thesis
    using BySso handleOIDCSubmit_not_elevated [of "flMode fl" b h "fst (run (attemptJs fl) b h)" m t]
    by (simp add: attemptJs_def prod_eq_iff)
qed

lemma flightOf_in: "flightOf k s = Some fl \<Longrightarrow> Some fl \<in> set (efFlights s)"
  by (auto simp: flightOf_def split: if_splits) (metis nth_mem)

text \<open>The slot holds the prompt that was handed out last.\<close>

lemma slot_newest: "epQueue (elevationRun ps) = Some x \<Longrightarrow> Suc (ppId x) = epIssued (elevationRun ps)"
proof (induction ps rule: rev_induct)
  case Nil
  then show ?case by (simp add: elevationRun_def elevationMounted_def)
next
  case (snoc e ps)
  then show ?case
    by (cases e) (auto simp: elevationRun_snoc promptForElevation_def elevationSuccess_def
        elevationCancel_def Let_def)
qed

text \<open>The retry: what the accepted password was sent for.\<close>

lemma retry_earned:
  assumes "OpCalled j \<in> set (snd (flowStep e (flowRun es)))" and "e \<noteq> CallGuarded"
  shows "\<exists>k b h fl i err. e = ElevateAnswered k b h \<and> flightOf k (flowRun es) = Some fl \<and>
    passwordAccepted b h fl \<and> efGuards (flowRun es) ! j = AwaitsPrompt i \<and>
    epSlot (efProvider (flowRun es)) = Some i \<and> calls j es = 1 \<and> refusedWith es j err \<and>
    (flPrompt fl = i \<longrightarrow> flMode fl = requiredMode (detailsOf err)) \<and> flPrompt fl \<le> i"
proof -
  let ?s = "flowRun es"
  from op_called [OF assms(1)] assms(2) obtain k b h fl m t i where
    e: "e = ElevateAnswered k b h" and fl: "flightOf k ?s = Some fl"
    and run: "snd (run (attemptJs fl) b h) = Inr (Elevated m t)" and j: "j < length (efGuards ?s)"
    and slot: "epSlot (efProvider ?s) = Some i" and g: "efGuards ?s ! j = AwaitsPrompt i" by blast
  from slot obtain x where x: "epQueue (efProvider ?s) = Some x" "ppId x = i" by (auto simp: epSlot_def)
  have known: "flightKnown (efProvider ?s) fl"
    and guard: "guardKnown es (calls j es) (efProvider ?s) j (efGuards ?s ! j)"
    using flow_ok [of es] flightOf_in [OF fl] j by (auto simp: flowOk_def guardsKnown_def)
  from guard g x obtain err where err: "refusedWith es j err" "ppTarget x = requiredMode (detailsOf err)"
    and one: "calls j es = 1" by (auto simp: guardKnown_def)
  have "Suc i = epIssued (efProvider ?s)"
    using flow_ok [of es] slot_newest x by (auto simp: flowOk_def)
  then have "flPrompt fl \<le> i" using known by (simp add: flightKnown_def)
  moreover have "flPrompt fl = i \<longrightarrow> flMode fl = requiredMode (detailsOf err)"
    using known x err(2) by (auto simp: flightKnown_def)
  ultimately show ?thesis
    using e fl elevated_accepted [OF run] g slot one err(1) by blast
qed


lemma guard_ended:
  "j < length (efGuards (flowRun es)) \<Longrightarrow> efGuards (flowRun es) ! j = GuardEnds r \<Longrightarrow>
   guardKnown es (calls j es) (efProvider (flowRun es)) j (GuardEnds r)"
  using flow_ok [of es] by (fastforce simp: flowOk_def guardsKnown_def)

section \<open>The claim\<close>


text \<open>A delete that needs the elevated mode, one that needs the admin mode, and a server that takes any password.\<close>

definition needsMode :: "string \<Rightarrow> js_error" where
  "needsMode m = ApiError [] (JStr ''ELEVATION_REQUIRED'') 403 (JObj [(''mode_required'', JStr m)])"

definition okElevation :: backend where
  "okElevation = \<lparr>onFetch = (\<lambda>_ _. Some \<lparr>rsStatus = 200, rsBody = Some (JObj [(''mode'', JStr ''admin'')])\<rparr>),
     onCall = (\<lambda>_ _. None), onPut = (\<lambda>_ _. None)\<rparr>"

definition refusedOnce :: "flow_event list" where
  "refusedOnce = [CallGuarded, OpSettled 0 (Inl (needsMode ''admin'')), TypeElevation ''secret'', PressSubmit]"

lemma run_okElevation:
  "pw \<noteq> [] \<Longrightarrow> snd (run (handleSubmit pw t) okElevation h) = Inr (Elevated (JStr ''admin'') 0)"
  by (simp add: handleSubmit_def run_catchJs awaitFetch_def elevateAnswer_def okElevation_def httpOk_def
      inBody_def expiryMs_def jsonOrNull_def Let_def)

lemma needsMode_facts:
  "isElevationRequired (needsMode m)" "detailsOf (needsMode m) = JObj [(''mode_required'', JStr m)]"
  by (simp_all add: needsMode_def isElevationRequired_def)

lemma refusedOnce_flow:
  "flowRun refusedOnce = \<lparr>efProvider = elevationRun [Ask (AdminMode, Some ''This action requires re-authentication.'')],
     efPassword = ''secret'', efError = None, efBusy = True,
     efFlights = [Some \<lparr>flHow = ByPassword ''secret'', flMode = AdminMode, flPrompt = 0\<rparr>],
     efGuards = [AwaitsPrompt 0]\<rparr>"
  by (simp add: flowRun_def flowTrace_def refusedOnce_def idleFlow_def firstEnded_def needsMode_facts
      requiredMode_def elevationRun_def elevationMounted_def promptForElevation_def takeOff_def Let_def)



section \<open>Answers that arrive late\<close>

text \<open>
  The dialog can be dismissed while a submit is in flight. Its late answer then settles the prompt
  of another operation: a password that was sent for the admin mode releases a prompt for
  the elevated mode, and the operation is run again without its own password having been asked for.
\<close>

definition askedAgain :: "flow_event list" where
  "askedAgain = refusedOnce @ [DismissModal, CallGuarded, OpSettled 1 (Inl (needsMode ''elevated''))]"

lemma askedAgain_flow:
  "flowRun askedAgain = \<lparr>efProvider = elevationRun [Ask (AdminMode, Some ''This action requires re-authentication.''),
       Dismiss, Ask (ElevatedMode, Some ''This action requires re-authentication.'')],
     efPassword = [], efError = None, efBusy = False,
     efFlights = [Some \<lparr>flHow = ByPassword ''secret'', flMode = AdminMode, flPrompt = 0\<rparr>],
     efGuards = [GuardEnds (Inl ELEVATION_CANCELLED), AwaitsPrompt 1]\<rparr>"
  by (simp add: askedAgain_def flowRun_def flowTrace_def refusedOnce_def idleFlow_def firstEnded_def needsMode_facts
      requiredMode_def elevationRun_def elevationMounted_def promptForElevation_def takeOff_def
      elevationCancel_def flowCancel_def afterClose_def wakeGuard_def epSlot_def Let_def)

theorem late_answer_releases_later_prompt:
  "map_option ppTarget (epPending (efProvider (flowRun askedAgain))) = Some ElevatedMode \<and>
   efPassword (flowRun askedAgain) = [] \<and>
   map_option flMode (flightOf 0 (flowRun askedAgain)) = Some AdminMode \<and>
   OpCalled 1 \<in> set (snd (flowStep (ElevateAnswered 0 okElevation []) (flowRun askedAgain)))"
  by (simp add: askedAgain_flow flightOf_def attemptJs_def run_okElevation landed_def flowSuccess_def
      waitingFor_def epSlot_def elevationRun_def elevationMounted_def promptForElevation_def
      elevationCancel_def Let_def)

text \<open>A late refusal leaves its error in the closed dialog, and the next prompt opens with it.\<close>

definition wrongPassword :: backend where
  "wrongPassword = \<lparr>onFetch = (\<lambda>_ _. Some \<lparr>rsStatus = 401, rsBody = None\<rparr>),
     onCall = (\<lambda>_ _. None), onPut = (\<lambda>_ _. None)\<rparr>"

theorem stale_error_on_next_prompt:
  "efError (flowRun (refusedOnce @ [DismissModal, ElevateAnswered 0 wrongPassword [], PromptElsewhere ElevatedMode None])) =
     Some (JStr ''Invalid password'')"
proof -
  have late: "snd (run (handleSubmit ''secret'' AdminMode) wrongPassword []) = Inr (ShowError (JStr ''Invalid password''))"
    by (simp add: handleSubmit_def run_catchJs awaitFetch_def elevateAnswer_def wrongPassword_def Let_def)
  have "flowRun (refusedOnce @ [DismissModal, ElevateAnswered 0 wrongPassword [], PromptElsewhere ElevatedMode None]) =
      foldl (\<lambda>s e. fst (flowStep e s)) (flowRun refusedOnce)
        [DismissModal, ElevateAnswered 0 wrongPassword [], PromptElsewhere ElevatedMode None]"
    using flowRun_snoc [of "refusedOnce @ [DismissModal, ElevateAnswered 0 wrongPassword []]"
        "PromptElsewhere ElevatedMode None"] flowRun_snoc [of "refusedOnce @ [DismissModal]"]
      flowRun_snoc [of refusedOnce] by simp
  then show ?thesis
    by (simp add: refusedOnce_flow flowCancel_def afterClose_def flightOf_def attemptJs_def late landed_def
        elevationRun_def elevationMounted_def promptForElevation_def elevationCancel_def Let_def)
qed

end
