(* ===== verification/Cluster_Hooks.thy ===== *)
theory Cluster_Hooks
  imports Query_Model
begin

text \<open>
  The cluster side of \<open>shared/api\<close>: the system queries, the cluster, bucket, key, node and layout
  hooks (\<open>queries.ts\<close>, \<open>mutations.ts\<close>), scrubbing, and the per-cluster secrets lock. Bodies whose
  type is generated from the server's API description (\<open>ConnectionSpec\<close>, \<open>LayoutChange\<close>, ...) are
  JSON values.
\<close>

section \<open>System queries\<close>

definition useDriverDefaults :: query where [hook_defs]:
  "useDriverDefaults =
     (mkQuery [KS ''system'', KS ''driver-defaults'']
       (fetchPlain ''driver-defaults fetch'' (publicReq ''/system/driver-defaults'')))
     \<lparr>qStale := Some Infinite, qGc := Some Infinite\<rparr>"

definition useVersion :: query where [hook_defs]:
  "useVersion =
     (mkQuery [KS ''version''] (fetchPlain ''version fetch'' (publicReq ''/version'')))
     \<lparr>qStale := Some Infinite\<rparr>"

definition useCapabilities :: query where [hook_defs]:
  "useCapabilities = mkQuery [KS ''capabilities'']
     (callData ''capabilities'' (callReq ''GET'' ''/capabilities'' [] JUndef))"

section \<open>Cluster queries\<close>

text \<open>The key of a cluster's subtree, and a path parameter.\<close>

definition clusterKey :: "string \<Rightarrow> kseg list \<Rightarrow> qkey" where [hook_defs]:
  "clusterKey cid rest = [KS ''admin'', KS ''clusters'', KS cid] @ rest"

definition clusterCall :: "string \<Rightarrow> string \<Rightarrow> string \<Rightarrow> json \<Rightarrow> call_req" where [hook_defs]:
  "clusterCall m sfx cid body =
     callReq m (''/admin/clusters/{cid}'' @ sfx) [(''cid'', cid)] body"

definition useNodes :: "string \<Rightarrow> bool \<Rightarrow> query" where [hook_defs]:
  "useNodes cid enabled =
     tries 1 (every 30000 (stale 30000 (enabledIf (cid \<noteq> [] \<and> enabled)
       (mkQuery (clusterKey cid [KS ''nodes''])
         (callData (''admin/clusters/'' @ cid @ ''/nodes'') (clusterCall ''GET'' ''/nodes'' cid JUndef))))))"

definition useLayout :: "string \<Rightarrow> query" where [hook_defs]:
  "useLayout cid =
     tries 1 (every 30000 (stale 30000 (enabledIf (cid \<noteq> [])
       (mkQuery (clusterKey cid [KS ''layout''])
         (callData (''admin/clusters/'' @ cid @ ''/layout'') (clusterCall ''GET'' ''/layout'' cid JUndef))))))"

definition useBuckets :: query where [hook_defs]:
  "useBuckets =
     tries 1 (every 60000 (stale 30000 (mkQuery [KS ''admin'', KS ''buckets'']
       (callData ''admin/buckets'' (callReq ''GET'' ''/admin/buckets'' [] JUndef)))))"

definition useClusterBuckets :: "string \<Rightarrow> bool \<Rightarrow> query" where [hook_defs]:
  "useClusterBuckets cid enabled =
     tries 1 (stale 30000 (enabledIf (cid \<noteq> [] \<and> enabled)
       (mkQuery (clusterKey cid [KS ''buckets''])
         (callData (''admin/clusters/'' @ cid @ ''/buckets'')
           (clusterCall ''GET'' ''/buckets'' cid JUndef)))))"

definition useClusterKeys :: "string \<Rightarrow> bool \<Rightarrow> query" where [hook_defs]:
  "useClusterKeys cid enabled =
     tries 1 (stale 30000 (enabledIf (cid \<noteq> [] \<and> enabled)
       (mkQuery (clusterKey cid [KS ''keys''])
         (callData (''admin/clusters/'' @ cid @ ''/keys'') (clusterCall ''GET'' ''/keys'' cid JUndef)))))"

definition itemCall :: "string \<Rightarrow> string \<Rightarrow> string \<Rightarrow> string \<Rightarrow> json \<Rightarrow> call_req" where [hook_defs]:
  "itemCall m path cid i body = callReq m path [(''cid'', cid), (''id'', i)] body"

definition useBucket :: "string \<Rightarrow> string \<Rightarrow> query" where [hook_defs]:
  "useBucket cid i =
     stale 30000 (enabledIf (cid \<noteq> [] \<and> i \<noteq> [])
       (mkQuery (clusterKey cid [KS ''buckets'', KS i])
         (callData (''admin/buckets/'' @ i)
           (itemCall ''GET'' ''/admin/clusters/{cid}/buckets/{id}'' cid i JUndef))))"

definition useKey :: "string \<Rightarrow> string \<Rightarrow> query" where [hook_defs]:
  "useKey cid i =
     stale 30000 (enabledIf (cid \<noteq> [] \<and> i \<noteq> [])
       (mkQuery (clusterKey cid [KS ''keys'', KS i])
         (callData (''admin/keys/'' @ i)
           (itemCall ''GET'' ''/admin/clusters/{cid}/keys/{id}'' cid i JUndef))))"

definition useListClusters :: query where [hook_defs]:
  "useListClusters =
     tries 1 (every 60000 (stale 60000 (mkQuery [KS ''admin'', KS ''clusters'']
       (callData ''admin/clusters'' (callReq ''GET'' ''/admin/clusters'' [] JUndef)))))"

definition useGetCluster :: "string \<Rightarrow> query" where [hook_defs]:
  "useGetCluster cid =
     stale 30000 (enabledIf (cid \<noteq> []) (mkQuery (clusterKey cid [])
       (callData (''admin/clusters/'' @ cid) (clusterCall ''GET'' [] cid JUndef))))"

text \<open>The connection test; \<open>auto\<close> is \<open>opts.auto\<close>.\<close>

definition useTestClusterQuery :: "string \<Rightarrow> bool option \<Rightarrow> query" where [hook_defs]:
  "useTestClusterQuery cid auto =
     (stale 60000 (enabledIf (cid \<noteq> [] \<and> (case auto of None \<Rightarrow> False | Some b \<Rightarrow> b))
       (mkQuery (clusterKey cid [KS ''_test''])
         (callData (''testCluster/'' @ cid) (clusterCall ''POST'' ''/_test'' cid JUndef)))))
     \<lparr>qOnFocus := Some False, qOnMount := Some False, qOnReconnect := Some False\<rparr>"

section \<open>Bucket and key mutations\<close>

definition useCreateBucket :: "(string \<times> string) mutation" where [hook_defs]:
  "useCreateBucket = \<lparr>
     mutationFn = (\<lambda>(cid, bucketAlias). callData ''createBucket''
       (clusterCall ''POST'' ''/buckets'' cid (JObj [(''alias'', JStr bucketAlias)]))),
     onSuccess = (\<lambda>bucket (cid, _).
       [Invalidate [KS ''admin'', KS ''buckets''],
        Invalidate (clusterKey cid [KS ''buckets'']),
        Navigate ''/admin/clusters/$cid/buckets/$id''
          [(''cid'', JStr cid), (''id'', getProp bucket ''id'')]])\<rparr>"

definition useUpdateBucket :: "(string \<times> string \<times> json) mutation" where [hook_defs]:
  "useUpdateBucket = \<lparr>
     mutationFn = (\<lambda>(cid, i, update). callData (''updateBucket/'' @ i)
       (itemCall ''PATCH'' ''/admin/clusters/{cid}/buckets/{id}'' cid i update)),
     onSuccess = (\<lambda>_ (cid, i, _).
       [Invalidate [KS ''admin'', KS ''buckets''],
        Invalidate (clusterKey cid [KS ''buckets'', KS i])])\<rparr>"

text \<open>
  The two-phase delete the three delete hooks write out: mint a token with \<open>_arm-delete\<close>, then
  \<open>DELETE\<close> with the token in \<open>X-Confirm-Delete\<close>.
\<close>

definition armCall :: "string \<Rightarrow> (string \<times> string) list \<Rightarrow> call_req" where
  "armCall path ps = callReq ''POST'' (path @ ''/_arm-delete'') ps JUndef"

definition confirmCall :: "string \<Rightarrow> (string \<times> string) list \<Rightarrow> json \<Rightarrow> call_req" where
  "confirmCall path ps token =
     (callReq ''DELETE'' path ps JUndef)\<lparr>clHeaders := [(''X-Confirm-Delete'', token)]\<rparr>"

definition twoPhaseDelete ::
  "string \<Rightarrow> string \<Rightarrow> string \<Rightarrow> (string \<times> string) list \<Rightarrow> json js" where
  "twoPhaseDelete armName delName path ps =
     awaitCall (armCall path ps) (\<lambda>arm.
       if \<not> httpOk (crStatus arm) \<or> \<not> truthy (getProp (crData arm) ''token'')
       then Throw (apiError armName (crStatus arm) (crError arm))
       else awaitCall (confirmCall path ps (getProp (crData arm) ''token'')) (\<lambda>del.
         if \<not> httpOk (crStatus del) then Throw (apiError delName (crStatus del) (crError del))
         else Ret JUndef))"

definition useDeleteBucket :: "(string \<times> string) mutation" where [hook_defs]:
  "useDeleteBucket = \<lparr>
     mutationFn = (\<lambda>(cid, i). twoPhaseDelete (''armDeleteBucket/'' @ i) (''deleteBucket/'' @ i)
       ''/admin/clusters/{cid}/buckets/{id}'' [(''cid'', cid), (''id'', i)]),
     onSuccess = (\<lambda>_ (cid, i).
       [Invalidate [KS ''admin'', KS ''buckets''],
        Invalidate (clusterKey cid [KS ''buckets'', KS i]),
        Navigate ''/'' []])\<rparr>"

definition useCreateKey :: "(string \<times> string) mutation" where [hook_defs]:
  "useCreateKey = \<lparr>
     mutationFn = (\<lambda>(cid, keyName). callData ''createKey''
       (clusterCall ''POST'' ''/keys'' cid (JObj [(''name'', JStr keyName)]))),
     onSuccess = (\<lambda>_ (cid, _). [Invalidate (clusterKey cid [KS ''keys''])])\<rparr>"

definition useUpdateKeyPermissions :: "(string \<times> string \<times> json) mutation" where [hook_defs]:
  "useUpdateKeyPermissions = \<lparr>
     mutationFn = (\<lambda>(cid, i, permissions). callData (''updateKeyPermissions/'' @ i)
       (itemCall ''PATCH'' ''/admin/clusters/{cid}/keys/{id}'' cid i
         (jobj [(''bucketsPermissions'', permissions)]))),
     onSuccess = (\<lambda>_ (cid, i, _).
       [Invalidate (clusterKey cid [KS ''keys'', KS i]),
        Invalidate (clusterKey cid [KS ''keys'']),
        Invalidate (clusterKey cid [KS ''buckets'']),
        Invalidate [KS ''admin'', KS ''buckets'']])\<rparr>"

definition useDeleteKey :: "(string \<times> string) mutation" where [hook_defs]:
  "useDeleteKey = \<lparr>
     mutationFn = (\<lambda>(cid, i). twoPhaseDelete (''armDeleteKey/'' @ i) (''deleteKey/'' @ i)
       ''/admin/clusters/{cid}/keys/{id}'' [(''cid'', cid), (''id'', i)]),
     onSuccess = (\<lambda>_ (cid, i).
       [Invalidate (clusterKey cid [KS ''keys'']),
        Navigate ''/admin/clusters/$cid'' [(''cid'', JStr cid)]])\<rparr>"

section \<open>Cluster mutations\<close>

definition useCreateCluster :: "json mutation" where [hook_defs]:
  "useCreateCluster = \<lparr>
     mutationFn = (\<lambda>spec. callData ''createCluster'' (callReq ''POST'' ''/admin/clusters'' [] spec)),
     onSuccess = (\<lambda>_ _. [Invalidate [KS ''admin'', KS ''clusters'']])\<rparr>"

definition useUpdateCluster :: "string \<Rightarrow> json mutation" where [hook_defs]:
  "useUpdateCluster cid = \<lparr>
     mutationFn = (\<lambda>update. callData (''updateCluster/'' @ cid) (clusterCall ''PATCH'' [] cid update)),
     onSuccess = (\<lambda>_ _. [Invalidate [KS ''admin'', KS ''clusters''], Invalidate (clusterKey cid [])])\<rparr>"

definition useDeleteCluster :: "string mutation" where [hook_defs]:
  "useDeleteCluster = \<lparr>
     mutationFn = (\<lambda>cid. twoPhaseDelete (''armDeleteCluster/'' @ cid) (''deleteCluster/'' @ cid)
       ''/admin/clusters/{cid}'' [(''cid'', cid)]),
     onSuccess = (\<lambda>_ _. [Invalidate [KS ''admin'', KS ''clusters''], Navigate ''/admin/clusters'' []])\<rparr>"

definition useTestCluster :: "string \<Rightarrow> unit mutation" where [hook_defs]:
  "useTestCluster cid = \<lparr>
     mutationFn = (\<lambda>_. callData (''testCluster/'' @ cid) (clusterCall ''POST'' ''/_test'' cid JUndef)),
     onSuccess = (\<lambda>_ _. [Invalidate [KS ''admin'', KS ''clusters''], Invalidate (clusterKey cid [])])\<rparr>"

definition useStageLayoutChange :: "string \<Rightarrow> json mutation" where [hook_defs]:
  "useStageLayoutChange cid = \<lparr>
     mutationFn = (\<lambda>change. callData (''stageLayout/'' @ cid)
       (clusterCall ''POST'' ''/layout/stage'' cid change)),
     onSuccess = (\<lambda>_ _. [Invalidate (clusterKey cid [KS ''layout''])])\<rparr>"

definition useApplyLayout :: "string \<Rightarrow> unit mutation" where [hook_defs]:
  "useApplyLayout cid = \<lparr>
     mutationFn = (\<lambda>_. callOk (\<lambda>_. JUndef) (''applyLayout/'' @ cid)
       (clusterCall ''POST'' ''/layout/apply'' cid JUndef)),
     onSuccess = (\<lambda>_ _. [Invalidate (clusterKey cid [KS ''layout'']),
       Invalidate (clusterKey cid [KS ''nodes''])])\<rparr>"

definition useRevertLayout :: "string \<Rightarrow> unit mutation" where [hook_defs]:
  "useRevertLayout cid = \<lparr>
     mutationFn = (\<lambda>_. callData (''revertLayout/'' @ cid)
       (clusterCall ''POST'' ''/layout/revert'' cid JUndef)),
     onSuccess = (\<lambda>_ _. [Invalidate (clusterKey cid [KS ''layout''])])\<rparr>"

section \<open>Scrubbing\<close>

definition clusterUrl :: "string \<Rightarrow> string \<Rightarrow> string" where [hook_defs]:
  "clusterUrl cid sfx = ''/admin/clusters/'' @ enc cid @ sfx"

definition useClusterScrub :: "string \<Rightarrow> query" where [hook_defs]:
  "useClusterScrub cid =
     tries 1 (stale 0 (pollWhen (\<lambda>d. if truthy (getProp (getProp d ''state'') ''running'')
         then Every 5000 else Every 30000)
       (enabledIf (cid \<noteq> []) (mkQuery (clusterKey cid [KS ''scrub''])
         (fetchJson (''admin/clusters/'' @ cid @ ''/scrub'') (getReq (clusterUrl cid ''/scrub'')))))))"

definition useStartClusterScrub :: "string \<Rightarrow> unit mutation" where [hook_defs]:
  "useStartClusterScrub cid = \<lparr>
     mutationFn = (\<lambda>_. fetchJson (''admin/clusters/'' @ cid @ ''/scrub'')
       (emptyReq ''POST'' (clusterUrl cid ''/scrub''))),
     onSuccess = (\<lambda>_ _. [Invalidate (clusterKey cid [KS ''scrub''])])\<rparr>"

section \<open>The secrets lock of a cluster\<close>

definition notWired :: json where
  "notWired = JObj [(''unlocked'', JBool True), (''hasCsk'', JBool False),
     (''requiresMigration'', JBool False), (''admins'', JArr [])]"

definition lockStatusFn :: "string \<Rightarrow> json js" where [hook_defs]:
  "lockStatusFn cid =
     awaitFetch (getReq (clusterUrl cid ''/lock-status'')) (\<lambda>res.
       let body = jsonOrNull res in
       if \<not> httpOk (rsStatus res) then
         (let code = orElse (if truthy body \<and> hasProp body ''error''
                then getProp (getProp body ''error'') ''code'' else JUndef) (JStr [])
          in if rsStatus res = 503 \<and> code = JStr ''CLUSTER_SECRETS_NOT_WIRED'' then Ret notWired
             else Throw (apiError (''admin/clusters/'' @ cid @ ''/lock-status'') (rsStatus res) body))
       else Ret body)"

definition useClusterLockStatus :: "string \<Rightarrow> bool \<Rightarrow> query" where [hook_defs]:
  "useClusterLockStatus cid enabled =
     tries 1 (every 60000 (stale 30000 (enabledIf (cid \<noteq> [] \<and> enabled)
       (mkQuery (clusterKey cid [KS ''lock-status'']) (lockStatusFn cid)))))"

definition useUnlockCluster :: "string \<Rightarrow> string mutation" where [hook_defs]:
  "useUnlockCluster cid = \<lparr>
     mutationFn = (\<lambda>password. fetchJson (''admin/clusters/'' @ cid @ ''/unlock'')
       (jsonReq ''POST'' (clusterUrl cid ''/unlock'') (JObj [(''password'', JStr password)]))),
     onSuccess = (\<lambda>_ _. [Invalidate (clusterKey cid [KS ''lock-status''])])\<rparr>"

definition useLockCluster :: "string \<Rightarrow> unit mutation" where [hook_defs]:
  "useLockCluster cid = \<lparr>
     mutationFn = (\<lambda>_. fetchVoid JUndef (''admin/clusters/'' @ cid @ ''/lock'')
       (bareReq ''POST'' (clusterUrl cid ''/lock''))),
     onSuccess = (\<lambda>_ _. [Invalidate (clusterKey cid [KS ''lock-status''])])\<rparr>"

definition useClusterAdmins :: "string \<Rightarrow> bool \<Rightarrow> query" where [hook_defs]:
  "useClusterAdmins cid enabled =
     stale 30000 (enabledIf (cid \<noteq> [] \<and> enabled) (mkQuery (clusterKey cid [KS ''admins''])
       (fetchJson (''admin/clusters/'' @ cid @ ''/admins'') (getReq (clusterUrl cid ''/admins'')))))"

definition useAddClusterAdmin :: "string \<Rightarrow> (string \<times> string) mutation" where [hook_defs]:
  "useAddClusterAdmin cid = \<lparr>
     mutationFn = (\<lambda>(adminUserId, password). fetchJson (''admin/clusters/'' @ cid @ ''/admins'')
       (jsonReq ''POST'' (clusterUrl cid ''/admins'')
         (JObj [(''adminUserId'', JStr adminUserId), (''password'', JStr password)]))),
     onSuccess = (\<lambda>_ _. [Invalidate (clusterKey cid [KS ''lock-status'']),
       Invalidate (clusterKey cid [KS ''admins''])])\<rparr>"

definition useRemoveClusterAdmin :: "string \<Rightarrow> string mutation" where [hook_defs]:
  "useRemoveClusterAdmin cid = \<lparr>
     mutationFn = (\<lambda>adminUserId.
       fetchVoid JUndef (''admin/clusters/'' @ cid @ ''/admins/'' @ adminUserId)
         (bareReq ''DELETE'' (clusterUrl cid (''/admins/'' @ enc adminUserId)))),
     onSuccess = (\<lambda>_ _. [Invalidate (clusterKey cid [KS ''lock-status'']),
       Invalidate (clusterKey cid [KS ''admins''])])\<rparr>"

section \<open>The unlock dialog\<close>

text \<open>
  One submit of \<open>UnlockClusterModal.tsx\<close>: nothing without a password; otherwise the unlock mutation,
  whose refusal is shown inline and keeps the dialog open.
\<close>

datatype unlock_result = NotSubmitted | InlineError string | ClusterUnlocked

definition unlockSubmit :: "string \<Rightarrow> string \<Rightarrow> unlock_result js" where
  "unlockSubmit cid password =
     (if password = [] then Ret NotSubmitted
      else catchJs (bindJs (mutationFn (useUnlockCluster cid) password) (\<lambda>_. Ret ClusterUnlocked)) (\<lambda>err.
        if orElse (codeOf err) (JStr []) = JStr ''INVALID_PASSWORD''
        then Ret (InlineError ''Wrong password. Try again.'')
        else Ret (InlineError (if messageOf err \<noteq> [] then messageOf err else ''Unlock failed''))))"

section \<open>The claims\<close>

text \<open>
  What a two-phase delete may do: send the arming call alone and fail, or, after an accepted arming
  call with a token, send the delete with exactly that token; it succeeds only when the delete was
  accepted.
\<close>

definition onlyAfterArming ::
  "backend \<Rightarrow> string \<Rightarrow> (string \<times> string) list \<Rightarrow> request list \<times> (js_error + json) \<Rightarrow> bool" where
  "onlyAfterArming b path ps out \<longleftrightarrow>
     (case out of (trace, result) \<Rightarrow>
        trace = [RCall (armCall path ps)] \<and> (\<exists>e. result = Inl e) \<or>
        (\<exists>arm. onCall b [] (armCall path ps) = Some arm \<and> httpOk (crStatus arm) \<and>
           truthy (getProp (crData arm) ''token'') \<and>
           trace = [RCall (armCall path ps),
             RCall (confirmCall path ps (getProp (crData arm) ''token''))] \<and>
           ((\<exists>v. result = Inr v) \<longleftrightarrow>
             (\<exists>del. onCall b [RCall (armCall path ps)]
                (confirmCall path ps (getProp (crData arm) ''token'')) = Some del \<and>
                httpOk (crStatus del)))))"

lemma twoPhaseDelete_safe: "onlyAfterArming b path ps (run (twoPhaseDelete a d path ps) b [])"
proof (cases "onCall b [] (armCall path ps)")
  case None
  then show ?thesis by (simp add: onlyAfterArming_def twoPhaseDelete_def awaitCall_def)
next
  case (Some arm)
  then show ?thesis
    by (cases "httpOk (crStatus arm) \<and> truthy (getProp (crData arm) ''token'')")
       (auto simp: onlyAfterArming_def twoPhaseDelete_def awaitCall_def split: option.splits)
qed

text \<open>
  C2. Buckets, keys and clusters are deleted only after the server armed the deletion: the delete
  request goes out only behind an accepted arming call, carries the token that call returned, and the
  mutation succeeds exactly when the delete was accepted.
\<close>

theorem delete_only_after_arming:
  "onlyAfterArming b ''/admin/clusters/{cid}/buckets/{id}'' [(''cid'', cid), (''id'', i)]
     (run (mutationFn useDeleteBucket (cid, i)) b []) \<and>
   onlyAfterArming b ''/admin/clusters/{cid}/keys/{id}'' [(''cid'', cid), (''id'', i)]
     (run (mutationFn useDeleteKey (cid, i)) b []) \<and>
   onlyAfterArming b ''/admin/clusters/{cid}'' [(''cid'', cid)]
     (run (mutationFn useDeleteCluster cid) b [])"
  by (simp add: useDeleteBucket_def useDeleteKey_def useDeleteCluster_def twoPhaseDelete_safe)

text \<open>
  The lock badge: a deployment without the secrets service reads as an unlocked cluster without a
  key, an accepted answer is taken as it is, and every other failure is an error with the server's
  status; there is exactly one request.
\<close>

theorem lock_status_total:
  "run (queryFn (useClusterLockStatus cid enabled)) b [] =
     ([RFetch (getReq (''/admin/clusters/'' @ enc cid @ ''/lock-status''))],
      case onFetch b [] (getReq (''/admin/clusters/'' @ enc cid @ ''/lock-status'')) of
        None \<Rightarrow> Inl NetworkError
      | Some res \<Rightarrow>
          if httpOk (rsStatus res) then Inr (jsonOrNull res)
          else if rsStatus res = 503 \<and> codeOf (apiError [] 503 (jsonOrNull res))
              = JStr ''CLUSTER_SECRETS_NOT_WIRED''
            then Inr (JObj [(''unlocked'', JBool True), (''hasCsk'', JBool False),
              (''requiresMigration'', JBool False), (''admins'', JArr [])])
          else Inl (apiError (''admin/clusters/'' @ cid @ ''/lock-status'') (rsStatus res)
            (jsonOrNull res)))"
proof -
  have code: "orElse (if truthy body \<and> hasProp body ''error''
        then getProp (getProp body ''error'') ''code'' else JUndef) (JStr []) = JStr ''CLUSTER_SECRETS_NOT_WIRED''
      \<longleftrightarrow> codeOf (apiError [] 503 body) = JStr ''CLUSTER_SECRETS_NOT_WIRED''" for body
  proof -
    have "truthy body \<and> hasProp body ''error'' \<longleftrightarrow> hasProp body ''error''" by (cases body) auto
    then have "(if truthy body \<and> hasProp body ''error'' then getProp (getProp body ''error'') ''code''
        else JUndef) = getProp (getProp body ''error'') ''code''"
      using getProp_absent [of body "''error''"] by simp
    moreover have "orElse c (JStr []) = JStr ''CLUSTER_SECRETS_NOT_WIRED'' \<longleftrightarrow>
        (if truthy c then c else JStr (''HTTP_'' @ s)) = JStr ''CLUSTER_SECRETS_NOT_WIRED''" for c s
      by (cases c) auto
    ultimately show ?thesis by (simp add: apiError_code Let_def)
  qed
  show ?thesis
    by (cases "onFetch b [] (getReq (''/admin/clusters/'' @ enc cid @ ''/lock-status''))")
       (simp_all add: useClusterLockStatus_def lockStatusFn_def clusterUrl_def awaitFetch_def Let_def
          code notWired_def)
qed

text \<open>
  Creating a bucket or changing a key's permissions outdates the cluster's own bucket list, but
  renaming, re-quotaing or deleting a bucket does not: the list on the cluster page keeps the old row
  until its own stale time.
\<close>

theorem cluster_bucket_list_stale_after_write:
  "covers (onSuccess useCreateBucket d (cid, a)) (queryKey (useClusterBuckets cid enabled)) \<and>
   covers (onSuccess useUpdateKeyPermissions d (cid, k, p)) (queryKey (useClusterBuckets cid enabled)) \<and>
   \<not> covers (onSuccess useUpdateBucket d (cid, i, u)) (queryKey (useClusterBuckets cid enabled)) \<and>
   \<not> covers (onSuccess useDeleteBucket d (cid, i)) (queryKey (useClusterBuckets cid enabled)) \<and>
   covers (onSuccess useDeleteBucket d (cid, i)) (queryKey useBuckets)"
  by (simp add: hook_defs)

text \<open>
  The unlock dialog reports success exactly when the server accepted the password; every refusal,
  a wrong password or a structural one, stays inline, and an empty password sends nothing.
\<close>

theorem unlock_dialog_closes_only_on_success:
  "run (unlockSubmit cid pw) b [] =
     (if pw = [] then ([], Inr NotSubmitted)
      else (let q = jsonReq ''POST'' (''/admin/clusters/'' @ enc cid @ ''/unlock'')
                  (JObj [(''password'', JStr pw)]) in
        ([RFetch q],
         case onFetch b [] q of
           None \<Rightarrow> Inr (InlineError ''Failed to fetch'')
         | Some res \<Rightarrow>
             if httpOk (rsStatus res) then Inr ClusterUnlocked
             else (let e = apiError (''admin/clusters/'' @ cid @ ''/unlock'') (rsStatus res) (jsonOrNull res)
               in if codeOf e = JStr ''INVALID_PASSWORD''
                  then Inr (InlineError ''Wrong password. Try again.'')
                  else Inr (InlineError (messageOf e))))))"
proof -
  have msg: "messageOf (apiError r s j) \<noteq> []" for r s j by (simp add: apiError_def Let_def)
  have "orElse c (JStr []) = JStr ''INVALID_PASSWORD'' \<longleftrightarrow> c = JStr ''INVALID_PASSWORD''" for c
    by (cases c) auto
  then show ?thesis using msg
    by (simp add: unlockSubmit_def useUnlockCluster_def clusterUrl_def run_catchJs run_bindJs
        run_fetchJson Let_def split: option.splits)
qed

end
