(* ===== verification/Guarded_Actions.thy ===== *)
theory Guarded_Actions
  imports Prompts Cluster_Hooks
begin

text \<open>
  How the pages compose the pieces: a destructive mutation runs under the elevation guard
  (\<open>runWithElevation(() => deleteMutation.mutateAsync(...))\<close> in \<open>routes/admin/buckets\<close>,
  \<open>routes/admin/clusters\<close>). The trace of such an action holds the arming call, possibly the
  re-authentication dialog, and a second attempt; the claim is about every delete request in it.
\<close>

section \<open>Programs that only use the bare fetch\<close>

primrec fetchOnly :: "'a js \<Rightarrow> bool" where
  "fetchOnly (Ret x) \<longleftrightarrow> True"
| "fetchOnly (Throw e) \<longleftrightarrow> True"
| "fetchOnly (Fetch q k) \<longleftrightarrow> (\<forall>r. fetchOnly (k r))"
| "fetchOnly (Call q k) \<longleftrightarrow> False"
| "fetchOnly (Put q k) \<longleftrightarrow> False"
| "fetchOnly (Tell e m) \<longleftrightarrow> False"

lemma fetchOnly_bind: "fetchOnly m \<Longrightarrow> (\<And>x. fetchOnly (f x)) \<Longrightarrow> fetchOnly (bindJs m f)"
  by (induction m) auto

lemma fetchOnly_catch: "fetchOnly m \<Longrightarrow> (\<And>e. fetchOnly (f e)) \<Longrightarrow> fetchOnly (catchJs m f)"
  by (induction m) auto

lemma fetchOnly_awaitFetch: "(\<And>res. fetchOnly (k res)) \<Longrightarrow> fetchOnly (awaitFetch q k)"
  by (simp add: awaitFetch_def split: option.split)

lemma fetchOnly_inBody: "(\<And>x. fetchOnly (k x)) \<Longrightarrow> fetchOnly (inBody body key k)"
  by (simp add: inBody_def split: json.split)

lemma fetchOnly_message: "fetchOnly (bodyMessage body f)"
  by (simp add: bodyMessage_def fetchOnly_inBody Let_def)

lemma fetchOnly_pivot: "fetchOnly (pivotToOIDC u t)"
  by (auto simp: pivotToOIDC_def Let_def fetchOnly_message intro!: fetchOnly_awaitFetch fetchOnly_inBody)

lemma fetchOnly_answer: "fetchOnly (elevateAnswer t res)"
  by (auto simp: elevateAnswer_def Let_def fetchOnly_message fetchOnly_pivot intro!: fetchOnly_inBody)

lemma fetchOnly_submits: "fetchOnly (handleSubmit pw t)" "fetchOnly (handleOIDCSubmit t)"
  by (auto simp: handleSubmit_def handleOIDCSubmit_def fetchOnly_pivot fetchOnly_answer
      intro!: fetchOnly_catch fetchOnly_awaitFetch)

text \<open>
  What a guard waits for needs the bare fetch only: the settled promise itself, and also a dialog
  that submits a password and reports whether it was accepted.
\<close>

lemma fetchOnly_outcome: "fetchOnly (elevationOutcome s later req)"
  by (simp add: elevationOutcome_def settleJs_def case_prod_beta split: option.split settlement.split)

definition askOnce :: "string \<Rightarrow> auth_mode \<times> string option \<Rightarrow> unit option js" where
  "askOnce pw req = bindJs (handleSubmit pw (fst req)) (\<lambda>r. case r of
     Elevated m t \<Rightarrow> Ret (Some ()) | _ \<Rightarrow> Ret None)"

lemma fetchOnly_askOnce: "fetchOnly (askOnce pw req)"
  by (auto simp: askOnce_def intro!: fetchOnly_bind fetchOnly_submits split: submit_result.split)

section \<open>Armed deletes in a trace\<close>

text \<open>
  Every delete request of a trace stands right behind an arming call that the server accepted, and
  carries the token of that acceptance.
\<close>

definition armed :: "backend \<Rightarrow> string \<Rightarrow> (string \<times> string) list \<Rightarrow> request list \<Rightarrow> bool" where
  "armed b path ps trace \<longleftrightarrow>
     (\<forall>pre post tok. trace = pre @ RCall (confirmCall path ps tok) # post \<longrightarrow>
        (\<exists>pre' arm. pre = pre' @ [RCall (armCall path ps)] \<and>
           onCall b pre' (armCall path ps) = Some arm \<and> httpOk (crStatus arm) \<and>
           truthy tok \<and> getProp (crData arm) ''token'' = tok))"

lemma armed_Nil [simp]: "armed b path ps []"
  by (simp add: armed_def)

lemma armed_snoc_other:
  "armed b path ps h \<Longrightarrow> (\<And>tok. x \<noteq> RCall (confirmCall path ps tok)) \<Longrightarrow> armed b path ps (h @ [x])"
  unfolding armed_def
proof (intro allI impI)
  fix pre post tok
  assume h: "\<forall>pre post tok. h = pre @ RCall (confirmCall path ps tok) # post \<longrightarrow>
      (\<exists>pre' arm. pre = pre' @ [RCall (armCall path ps)] \<and>
         onCall b pre' (armCall path ps) = Some arm \<and> httpOk (crStatus arm) \<and>
         truthy tok \<and> getProp (crData arm) ''token'' = tok)"
    and x: "\<And>tok. x \<noteq> RCall (confirmCall path ps tok)"
    and eq: "h @ [x] = pre @ RCall (confirmCall path ps tok) # post"
  then show "\<exists>pre' arm. pre = pre' @ [RCall (armCall path ps)] \<and>
      onCall b pre' (armCall path ps) = Some arm \<and> httpOk (crStatus arm) \<and>
      truthy tok \<and> getProp (crData arm) ''token'' = tok"
    by (cases post rule: rev_cases) auto
qed

lemma confirm_not_arm [simp]: "armCall path ps \<noteq> confirmCall path ps tok"
  by (simp add: confirmCall_def armCall_def callReq_def)

lemma confirm_inj: "confirmCall path ps t = confirmCall path ps u \<longleftrightarrow> t = u"
  by (auto simp: confirmCall_def callReq_def)

lemma armed_confirm:
  assumes "armed b path ps h" and "onCall b h (armCall path ps) = Some arm"
    and "httpOk (crStatus arm)" and "truthy (getProp (crData arm) ''token'')"
  shows "armed b path ps (h @ [RCall (armCall path ps),
    RCall (confirmCall path ps (getProp (crData arm) ''token''))])"
proof -
  let ?h = "h @ [RCall (armCall path ps)]"
  have one: "armed b path ps ?h"
    using assms(1) by (intro armed_snoc_other) auto
  show ?thesis
    unfolding armed_def
  proof (intro allI impI)
    fix pre post tok
    assume eq: "h @ [RCall (armCall path ps), RCall (confirmCall path ps (getProp (crData arm) ''token''))]
        = pre @ RCall (confirmCall path ps tok) # post"
    show "\<exists>pre' arm. pre = pre' @ [RCall (armCall path ps)] \<and>
        onCall b pre' (armCall path ps) = Some arm \<and> httpOk (crStatus arm) \<and>
        truthy tok \<and> getProp (crData arm) ''token'' = tok"
    proof (cases post rule: rev_cases)
      case Nil
      then have "pre = ?h" and "tok = getProp (crData arm) ''token''"
        using eq by (auto simp: confirm_inj)
      then show ?thesis using assms by auto
    next
      case (snoc ys y)
      then have "?h = pre @ RCall (confirmCall path ps tok) # ys" using eq by auto
      then show ?thesis using one unfolding armed_def by blast
    qed
  qed
qed

lemma armed_delete: "armed b path ps h \<Longrightarrow> armed b path ps (fst (run (twoPhaseDelete a d path ps) b h))"
proof (cases "onCall b h (armCall path ps)")
  case None
  assume "armed b path ps h"
  then show ?thesis using None
    by (auto simp: twoPhaseDelete_def awaitCall_def intro!: armed_snoc_other)
next
  case (Some arm)
  assume h: "armed b path ps h"
  show ?thesis
  proof (cases "httpOk (crStatus arm) \<and> truthy (getProp (crData arm) ''token'')")
    case True
    then show ?thesis using Some h armed_confirm [OF h Some]
      by (auto simp: twoPhaseDelete_def awaitCall_def split: option.splits)
  next
    case False
    then show ?thesis using Some h
      by (auto simp: twoPhaseDelete_def awaitCall_def intro!: armed_snoc_other)
  qed
qed

lemma armed_fetchOnly: "fetchOnly m \<Longrightarrow> armed b path ps h \<Longrightarrow> armed b path ps (fst (run m b h))"
  by (induction m arbitrary: h) (auto intro!: armed_snoc_other)

lemma armed_guarded:
  assumes "\<And>req. fetchOnly (prompt req)"
  shows "armed b path ps (fst (run (runWithElevation prompt (twoPhaseDelete a d path ps)) b []))"
proof -
  let ?op = "twoPhaseDelete a d path ps"
  obtain h1 r1 where op: "run ?op b [] = (h1, r1)" by fastforce
  then have h1: "armed b path ps h1" using armed_delete [of b path ps "[]" a d] by simp
  show ?thesis
  proof (cases r1)
    case (Inr x)
    then show ?thesis using op h1 by (simp add: run_runWithElevation)
  next
    case (Inl e)
    let ?dlg = "prompt (requiredMode (detailsOf e),
      Some ''This action requires re-authentication.'')"
    obtain h2 r2 where dlg: "run ?dlg b h1 = (h2, r2)" by fastforce
    then have "armed b path ps h2" using armed_fetchOnly [OF assms h1] by (metis fst_conv)
    then show ?thesis using op Inl h1 dlg armed_delete
      by (auto simp: run_runWithElevation run_retryAfter split: sum.splits option.splits)
  qed
qed

section \<open>The claim\<close>

text \<open>
  C11. A guarded delete never reuses a token across the re-authentication: in the whole trace of the
  guarded deletion of a bucket, a key or a cluster, retry included, every delete request stands right
  behind an arming call the server accepted and carries the token of that very acceptance. This holds
  whatever the guard waits for, as long as that uses the bare fetch only, as the shared dialog does.
\<close>

theorem guarded_delete_rearms:
  assumes "\<And>req. fetchOnly (prompt req)"
  shows "armed b ''/admin/clusters/{cid}/buckets/{id}'' [(''cid'', cid), (''id'', i)]
     (fst (run (runWithElevation prompt (mutationFn useDeleteBucket (cid, i))) b [])) \<and>
   armed b ''/admin/clusters/{cid}/keys/{id}'' [(''cid'', cid), (''id'', i)]
     (fst (run (runWithElevation prompt (mutationFn useDeleteKey (cid, i))) b [])) \<and>
   armed b ''/admin/clusters/{cid}'' [(''cid'', cid)]
     (fst (run (runWithElevation prompt (mutationFn useDeleteCluster cid)) b []))"
  by (simp add: useDeleteBucket_def useDeleteKey_def useDeleteCluster_def armed_guarded [OF assms])

theorem guarded_delete_rearms_witness:
  "\<forall>b. armed b ''/admin/clusters/{cid}'' [(''cid'', ''c1'')]
     (fst (run (runWithElevation (elevationOutcome (elevationRun []) [Confirm])
       (mutationFn useDeleteCluster ''c1'')) b [])) \<and>
   armed b ''/admin/clusters/{cid}'' [(''cid'', ''c1'')]
     (fst (run (runWithElevation (askOnce ''secret'') (mutationFn useDeleteCluster ''c1'')) b []))"
  using guarded_delete_rearms [of "elevationOutcome (elevationRun []) [Confirm]", OF fetchOnly_outcome]
    guarded_delete_rearms [of "askOnce ''secret''", OF fetchOnly_askOnce] by blast

end
