(* ===== verification/Build_Watcher.thy ===== *)
theory Build_Watcher
  imports Http
begin

text \<open>
  \<open>frontend/src/shared/api/buildWatcher.ts\<close>: notices from the response headers that the server runs
  another build than the loaded bundle. The module's variables are one record; a listener is a
  number, and every call of a listener is logged with the state it was given. The build stamp of
  the bundle is the parameter \<open>client\<close> (\<open>None\<close> when nothing was stamped).
\<close>

record headers =
  hdBuild :: "string option"
  hdVersion :: "string option"

record notice =
  ntListener :: nat
  ntMismatched :: bool
  ntVersion :: "string option"

record watcher =
  bwMismatched :: bool
  bwVersion :: "string option"
  bwListeners :: "nat list"
  bwHeartbeat :: bool
  bwNotices :: "notice list"

definition HEARTBEAT_MS :: nat where
  "HEARTBEAT_MS = 60000"

definition SKIP_VALUES :: "string list" where
  "SKIP_VALUES = ['''', ''dev'', ''unknown'']"

definition freshWatcher :: watcher where
  "freshWatcher = \<lparr>bwMismatched = False, bwVersion = None, bwListeners = [], bwHeartbeat = False,
     bwNotices = []\<rparr>"

text \<open>\<open>for (const l of listeners) l({ mismatched, serverVersion })\<close>.\<close>

definition notifyAll :: "watcher \<Rightarrow> watcher" where
  "notifyAll w = w\<lparr>bwNotices := bwNotices w @
     map (\<lambda>l. \<lparr>ntListener = l, ntMismatched = bwMismatched w, ntVersion = bwVersion w\<rparr>)
       (bwListeners w)\<rparr>"

definition checkBuild :: "string option \<Rightarrow> headers \<Rightarrow> watcher \<Rightarrow> watcher" where
  "checkBuild client res w =
     (if bwMismatched w then w
      else if \<not> present (hdBuild res) \<or> the (hdBuild res) \<in> set SKIP_VALUES then w
      else if client \<noteq> None \<and> the client \<in> set SKIP_VALUES then w
      else if hdBuild res = client then w
      else notifyAll (w\<lparr>bwMismatched := True\<rparr>))"

definition observeResponse :: "string option \<Rightarrow> headers \<Rightarrow> watcher \<Rightarrow> watcher" where
  "observeResponse client res w =
     checkBuild client res
       (if present (hdVersion res) \<and> the (hdVersion res) \<notin> set SKIP_VALUES
        then notifyAll (w\<lparr>bwVersion := hdVersion res\<rparr>) else w)"

definition startHeartbeat :: "watcher \<Rightarrow> watcher" where
  "startHeartbeat w = (if bwHeartbeat w then w else w\<lparr>bwHeartbeat := True\<rparr>)"

definition stopHeartbeat :: "watcher \<Rightarrow> watcher" where
  "stopHeartbeat w = (if bwHeartbeat w then w\<lparr>bwHeartbeat := False\<rparr> else w)"

text \<open>One tick of the interval: the answer of \<open>GET /api/v1/version\<close>, \<open>None\<close> when it failed.\<close>

definition fetchVersion :: "string option \<Rightarrow> headers option \<Rightarrow> watcher \<Rightarrow> watcher" where
  "fetchVersion client res w = (case res of None \<Rightarrow> w | Some r \<Rightarrow> observeResponse client r w)"

definition subscribe :: "nat \<Rightarrow> watcher \<Rightarrow> watcher" where
  "subscribe l w =
     (let w1 = w\<lparr>bwListeners := (if l \<in> set (bwListeners w) then bwListeners w else bwListeners w @ [l])\<rparr>;
          w2 = w1\<lparr>bwNotices := bwNotices w1 @
            [\<lparr>ntListener = l, ntMismatched = bwMismatched w1, ntVersion = bwVersion w1\<rparr>]\<rparr>
      in if \<not> bwMismatched w2 \<and> length (bwListeners w2) = 1 then startHeartbeat w2 else w2)"

definition unsubscribe :: "nat \<Rightarrow> watcher \<Rightarrow> watcher" where
  "unsubscribe l w =
     (let w1 = w\<lparr>bwListeners := filter (\<lambda>x. x \<noteq> l) (bwListeners w)\<rparr>
      in if length (bwListeners w1) = 0 then stopHeartbeat w1 else w1)"

section \<open>The reachable states\<close>

text \<open>A heartbeat answer arrives only while the interval runs.\<close>

inductive watched :: "string option \<Rightarrow> headers list \<Rightarrow> watcher \<Rightarrow> bool" for client where
  fresh: "watched client [] freshWatcher"
| response: "watched client rs w \<Longrightarrow> watched client (rs @ [r]) (observeResponse client r w)"
| heartbeat: "watched client rs w \<Longrightarrow> bwHeartbeat w \<Longrightarrow>
    watched client (case res of None \<Rightarrow> rs | Some r \<Rightarrow> rs @ [r]) (fetchVersion client res w)"
| joined: "watched client rs w \<Longrightarrow> watched client rs (subscribe l w)"
| left: "watched client rs w \<Longrightarrow> watched client rs (unsubscribe l w)"

text \<open>Does a response show another build?\<close>

definition otherBuild :: "string option \<Rightarrow> headers \<Rightarrow> bool" where
  "otherBuild client r \<longleftrightarrow>
     (case hdBuild r of None \<Rightarrow> False | Some b \<Rightarrow> b \<notin> set SKIP_VALUES \<and> client \<noteq> Some b) \<and>
     (case client of None \<Rightarrow> True | Some c \<Rightarrow> c \<notin> set SKIP_VALUES)"

lemma skip_empty: "[] \<in> set SKIP_VALUES"
  by (simp add: SKIP_VALUES_def)

lemma observe_fields [simp]:
  "bwListeners (observeResponse client r w) = bwListeners w"
  "bwHeartbeat (observeResponse client r w) = bwHeartbeat w"
  "bwMismatched (observeResponse client r w) \<longleftrightarrow> bwMismatched w \<or> otherBuild client r"
  using skip_empty
  by (auto simp: observeResponse_def checkBuild_def notifyAll_def otherBuild_def split: option.splits)

lemma subscribe_fields [simp]:
  "bwMismatched (subscribe l w) = bwMismatched w"
  "bwListeners (subscribe l w) = (if l \<in> set (bwListeners w) then bwListeners w else bwListeners w @ [l])"
  by (simp_all add: subscribe_def startHeartbeat_def Let_def)

lemma unsubscribe_fields [simp]:
  "bwMismatched (unsubscribe l w) = bwMismatched w"
  "bwListeners (unsubscribe l w) = filter (\<lambda>x. x \<noteq> l) (bwListeners w)"
  by (simp_all add: unsubscribe_def stopHeartbeat_def Let_def)

lemma watched_mismatched:
  "watched client rs w \<Longrightarrow> bwMismatched w \<longleftrightarrow> list_ex (otherBuild client) rs"
  by (induction rule: watched.induct)
     (auto simp: freshWatcher_def fetchVersion_def split: option.splits)

lemma watched_heartbeat:
  "watched client rs w \<Longrightarrow>
   (bwHeartbeat w \<longrightarrow> bwListeners w \<noteq> []) \<and>
   (bwListeners w \<noteq> [] \<longrightarrow> \<not> bwMismatched w \<longrightarrow> bwHeartbeat w)"
proof (induction rule: watched.induct)
  case (joined rs w l)
  then show ?case
    by (cases "bwListeners w") (auto simp: subscribe_def startHeartbeat_def Let_def)
next
  case (left rs w l)
  then show ?case
    by (auto simp: unsubscribe_def stopHeartbeat_def Let_def)
qed (auto simp: freshWatcher_def fetchVersion_def split: option.splits)

section \<open>The claims\<close>

text \<open>
  The mismatch flag is sticky and exact: it is up if and only if some response seen so far carried a
  comparable build different from the bundle's, and a bundle without a build stamp differs from
  every comparable one, while a development bundle never reports a mismatch.
\<close>

theorem mismatch_iff_other_build:
  assumes "watched client rs w"
  shows "(bwMismatched w \<longleftrightarrow> (\<exists>r \<in> set rs. \<exists>b. hdBuild r = Some b \<and> b \<notin> set SKIP_VALUES \<and>
      client \<noteq> Some b \<and> (\<forall>c. client = Some c \<longrightarrow> c \<notin> set SKIP_VALUES)))"
  unfolding watched_mismatched [OF assms] list_ex_iff
  by (rule bex_cong [OF refl]) (auto simp: otherBuild_def split: option.splits)

theorem mismatch_iff_other_build_witness:
  "bwMismatched (observeResponse (Some ''aaa'') \<lparr>hdBuild = Some ''bbb'', hdVersion = None\<rparr> freshWatcher)"
  using mismatch_iff_other_build [OF watched.response [OF watched.fresh],
      of "Some ''aaa''" "\<lparr>hdBuild = Some ''bbb'', hdVersion = None\<rparr>"]
  by (simp add: SKIP_VALUES_def)

text \<open>
  The heartbeat never runs without a listener, and as long as no mismatch has been seen it runs
  whenever there is one; a mismatch does not stop it.
\<close>

theorem heartbeat_follows_listeners:
  assumes "watched client rs w"
  shows "(bwHeartbeat w \<longrightarrow> bwListeners w \<noteq> []) \<and>
    (bwListeners w \<noteq> [] \<and> \<not> bwMismatched w \<longrightarrow> bwHeartbeat w) \<and>
    bwHeartbeat (observeResponse client r w) = bwHeartbeat w"
  using watched_heartbeat [OF assms] by simp

theorem heartbeat_follows_listeners_witness:
  "bwHeartbeat (observeResponse (Some ''aaa'') \<lparr>hdBuild = Some ''bbb'', hdVersion = None\<rparr>
     (subscribe 7 freshWatcher))"
proof -
  have "watched (Some ''aaa'') [] (subscribe 7 freshWatcher)" by (intro watched.intros)
  from heartbeat_follows_listeners [OF this, of "\<lparr>hdBuild = Some ''bbb'', hdVersion = None\<rparr>"]
  show ?thesis by (simp add: freshWatcher_def)
qed

end
