(* ===== verification/Format.thy ===== *)
theory Format
  imports Prelude
begin

text \<open>
  \<open>frontend/src/shared/lib/format.ts\<close>: sizes and relative times for display. A size is an integer
  number of bytes (\<open>None\<close> for null, undefined, NaN and the infinities), below the \<open>10 ^ 21\<close> terabytes
  at which \<open>toFixed\<close> switches notation; repeated division by 1024 is exact in binary floating
  point, so the value is kept as a fraction. The parser of time stamps and the locale's date
  format (\<open>Date\<close>, \<open>Intl.DateTimeFormat\<close>) are parameters; times are milliseconds.
\<close>

section \<open>Sizes\<close>

definition units :: "string list" where
  "units = [''B'', ''KB'', ''MB'', ''GB'', ''TB'']"

text \<open>The loop: numerator, denominator, unit index.\<close>

function scaleLoop :: "nat \<Rightarrow> nat \<Rightarrow> nat \<Rightarrow> nat \<times> nat" where
  "scaleLoop n den unitIndex =
     (if n \<ge> 1024 * den \<and> unitIndex < length units - 1
      then scaleLoop n (1024 * den) (unitIndex + 1) else (den, unitIndex))"
  by pat_completeness auto
termination by (relation "measure (\<lambda>(n, den, u). length units - u)") (auto simp: units_def)

declare scaleLoop.simps [simp del]

text \<open>\<open>(n / den).toFixed(1)\<close>: the closest number of tenths, the larger one on a tie.\<close>

definition tenths :: "nat \<Rightarrow> nat \<Rightarrow> nat" where
  "tenths n den = (20 * n + den) div (2 * den)"

definition toFixed1 :: "nat \<Rightarrow> nat \<Rightarrow> string" where
  "toFixed1 n den = dec (tenths n den div 10) @ ''.'' @ dec (tenths n den mod 10)"

definition humanizeBytes :: "int option \<Rightarrow> string" where
  "humanizeBytes bytes =
     (case bytes of
        None \<Rightarrow> emDash
      | Some b \<Rightarrow>
          if b < 0 then ''-'' @ toFixed1 (nat (- b)) 1 @ '' '' @ (units ! 0)
          else (case scaleLoop (nat b) 1 0 of (den, u) \<Rightarrow>
                  toFixed1 (nat b) den @ '' '' @ (units ! u)))"

lemma scaleLoop_result:
  "scaleLoop n den u = (d, v) \<Longrightarrow> u \<le> 4 \<Longrightarrow> 0 < den \<Longrightarrow> (u = 0 \<or> den \<le> n) \<Longrightarrow>
   u \<le> v \<and> v \<le> 4 \<and> d = den * 1024 ^ (v - u) \<and> (v = 0 \<or> d \<le> n) \<and> (v = 4 \<or> n < 1024 * d)"
proof (induction n den u rule: scaleLoop.induct)
  case (1 n den u)
  show ?case
  proof (cases "n \<ge> 1024 * den \<and> u < length units - 1")
    case True
    then have "scaleLoop n (1024 * den) (u + 1) = (d, v)"
      using 1(2) by (subst (asm) scaleLoop.simps) simp
    then have IH: "u + 1 \<le> v \<and> v \<le> 4 \<and> d = 1024 * den * 1024 ^ (v - (u + 1)) \<and>
        (v = 0 \<or> d \<le> n) \<and> (v = 4 \<or> n < 1024 * d)"
      by (rule 1(1) [OF True]) (use True 1(4) in \<open>simp_all add: units_def\<close>)
    then have "v - u = Suc (v - (u + 1))" and "u \<le> v" by linarith+
    moreover from this IH have "d = den * 1024 ^ (v - u)" by simp
    ultimately show ?thesis using IH by blast
  next
    case False
    then show ?thesis using 1 by (subst (asm) scaleLoop.simps) (auto simp: units_def split: if_splits)
  qed
qed

lemma tenths_close: "0 < den \<Longrightarrow> 2 * den * tenths n den \<le> 20 * n + den \<and>
    20 * n + den < 2 * den * tenths n den + 2 * den"
  unfolding tenths_def using mult_div_mod_eq [of "2 * den" "20 * n + den"]
    mod_less_divisor [of "2 * den" "20 * n + den"] by linarith

section \<open>Times\<close>

text \<open>1971 starts one year of 365 days after the epoch.\<close>

definition YEAR_1971 :: int where
  "YEAR_1971 = 31536000000"

definition humanizeTime ::
  "(string \<Rightarrow> int option) \<Rightarrow> (bool \<Rightarrow> int \<Rightarrow> string) \<Rightarrow> int \<Rightarrow> string option \<Rightarrow> string" where
  "humanizeTime parse formatDate now timestamp =
     (if \<not> present timestamp then emDash
      else (case parse (the timestamp) of
          None \<Rightarrow> emDash
        | Some date \<Rightarrow>
            if date < YEAR_1971 then emDash
            else
              (let diffMs = now - date;
                   diffSeconds = diffMs div 1000;
                   diffMinutes = diffSeconds div 60;
                   diffHours = diffMinutes div 60;
                   diffDays = diffHours div 24
               in if diffSeconds < 60 then ''just now''
                  else if diffMinutes < 60 then decInt diffMinutes @ ''m ago''
                  else if diffHours < 24 then decInt diffHours @ ''h ago''
                  else if diffDays < 7 then decInt diffDays @ ''d ago''
                  else formatDate (diffDays > 365) date)))"

lemma nested_floors:
  "(d :: int) div 1000 div 60 = d div 60000"
  "(d :: int) div 60000 div 60 = d div 3600000"
  "(d :: int) div 3600000 div 24 = d div 86400000"
  by (simp_all add: zdiv_zmult2_eq [symmetric])

section \<open>The claims\<close>

text \<open>
  A non-negative size is shown in the largest unit it fills (never beyond TB), and the tenths
  printed are within half a tenth of the true quotient.
\<close>

theorem humanize_bytes_accurate:
  "\<exists>u n. humanizeBytes (Some (int b)) = dec (n div 10) @ ''.'' @ dec (n mod 10) @ '' '' @ (units ! u) \<and>
     u \<le> 4 \<and> (u = 0 \<or> 1024 ^ u \<le> b) \<and> (u = 4 \<or> b < 1024 ^ Suc u) \<and>
     2 * 1024 ^ u * n \<le> 20 * b + 1024 ^ u \<and> 20 * b < 2 * 1024 ^ u * n + 1024 ^ u"
proof -
  obtain d v where loop: "scaleLoop b 1 0 = (d, v)" by fastforce
  from scaleLoop_result [OF this] have v: "v \<le> 4" "d = 1024 ^ v" "v = 0 \<or> d \<le> b" "v = 4 \<or> b < 1024 * d"
    by auto
  have "0 < d" using v(2) by simp
  note close = tenths_close [OF this, of b]
  have "humanizeBytes (Some (int b)) =
      dec (tenths b d div 10) @ ''.'' @ dec (tenths b d mod 10) @ '' '' @ (units ! v)"
    using loop by (simp add: humanizeBytes_def toFixed1_def)
  then show ?thesis using v close by (intro exI [of _ v] exI [of _ "tenths b d"]) auto
qed

text \<open>
  For every time stamp that parses to 1971 or later, the chain of floors gives the age in whole
  minutes, hours or days; a time in the future is "just now", and an age of a week or more is a date,
  with its year only after 365 days.
\<close>

theorem humanize_time_bands:
  assumes "parse s = Some t" and "s \<noteq> []" and "YEAR_1971 \<le> t"
  shows "humanizeTime parse formatDate now (Some s) =
    (let d = now - t in
     if d < 60000 then ''just now''
     else if d < 3600000 then decInt (d div 60000) @ ''m ago''
     else if d < 86400000 then decInt (d div 3600000) @ ''h ago''
     else if d < 604800000 then decInt (d div 86400000) @ ''d ago''
     else formatDate (366 * 86400000 \<le> d) t)"
proof -
  let ?d = "now - t"
  have "?d div 1000 < 60 \<longleftrightarrow> ?d < 60000" "?d div 60000 < 60 \<longleftrightarrow> ?d < 3600000"
    "?d div 3600000 < 24 \<longleftrightarrow> ?d < 86400000" "?d div 86400000 < 7 \<longleftrightarrow> ?d < 604800000"
    "365 < ?d div 86400000 \<longleftrightarrow> 366 * 86400000 \<le> ?d"
    by linarith+
  then show ?thesis using assms by (simp add: humanizeTime_def nested_floors Let_def)
qed

theorem humanize_time_bands_witness:
  "humanizeTime (\<lambda>_. Some 1700000000000) (\<lambda>_ _. ''date'') 1700000125000 (Some ''x'') = ''2m ago''"
  by (subst humanize_time_bands [where t = 1700000000000])
     (simp_all add: YEAR_1971_def decInt_def dec.simps, code_simp?)

end
