(* ===== verification/Bulk_Keys.thy ===== *)
theory Bulk_Keys
  imports Prelude
begin

text \<open>
  \<open>frontend/src/shared/lib/bulkKeyParse.ts\<close>: the parser behind the bulk import of storage keys. The
  URL parser of the browser is the parameter \<open>parseUrl\<close>: the protocol and host of a valid URL,
  \<open>None\<close> when the constructor throws. A field of the object under construction that has not been
  assigned is \<open>None\<close>.
\<close>

section \<open>Rows and formats\<close>

datatype addressing = PathStyle | VirtualHost

record key_fields =
  kfAlias :: string
  kfEndpoint :: string
  kfAccessKeyId :: string
  kfSecretKey :: string
  kfRegion :: string
  kfStyle :: "addressing option"

record ParsedKeyRow = key_fields +
  pkErrors :: "string list"

record PartialRow =
  prAlias :: "string option"
  prEndpoint :: "string option"
  prAccessKeyId :: "string option"
  prSecretKey :: "string option"
  prRegion :: "string option"
  prStyle :: "addressing option"

datatype BulkKeyFormat = AwsCredentials | Csv | Tsv | UnknownFormat

definition emptyRow :: PartialRow where
  "emptyRow = \<lparr>prAlias = None, prEndpoint = None, prAccessKeyId = None, prSecretKey = None,
     prRegion = None, prStyle = None\<rparr>"

text \<open>\<open>/^\[([^\]]+)\]$/.exec(line)\<close>: the captured name.\<close>

definition sectionName :: "string \<Rightarrow> string option" where
  "sectionName line =
     (if 3 \<le> length line \<and> hd line = CHR ''['' \<and> last line = CHR '']'' \<and>
         CHR '']'' \<notin> set (butlast line)
      then Some (tl (butlast line)) else None)"

definition commentOrBlank :: "string \<Rightarrow> bool" where
  "commentOrBlank l \<longleftrightarrow> l = [] \<or> startsWith l ''#'' \<or> startsWith l '';''"

definition detectFormat :: "string \<Rightarrow> BulkKeyFormat" where
  "detectFormat inp =
     (case filter (\<lambda>l. \<not> commentOrBlank l) (map trim (splitLines inp)) of
        [] \<Rightarrow> UnknownFormat
      | l # _ \<Rightarrow>
          if sectionName l \<noteq> None then AwsCredentials
          else if TAB \<in> set l then Tsv
          else if CHR '','' \<in> set l then Csv
          else UnknownFormat)"

section \<open>Finishing a row\<close>

definition URL_ERROR :: string where
  "URL_ERROR = ''endpoint must be a full URL with scheme and host''"

definition urlErrors :: "(string \<Rightarrow> (string \<times> string) option) \<Rightarrow> string \<Rightarrow> string list" where
  "urlErrors parseUrl endpoint =
     (if endpoint = [] then []
      else (case parseUrl endpoint of
          None \<Rightarrow> [URL_ERROR]
        | Some (protocol, host) \<Rightarrow> if protocol = [] \<or> host = [] then [URL_ERROR] else []))"

definition required :: "string \<Rightarrow> string \<Rightarrow> string list" where
  "required v msg = (if v = [] then [msg] else [])"

definition finalizeRow :: "(string \<Rightarrow> (string \<times> string) option) \<Rightarrow> key_fields \<Rightarrow> ParsedKeyRow" where
  "finalizeRow parseUrl inp =
     \<lparr>kfAlias = kfAlias inp, kfEndpoint = kfEndpoint inp, kfAccessKeyId = kfAccessKeyId inp,
      kfSecretKey = kfSecretKey inp,
      kfRegion = (if kfRegion inp = [] then ''us-east-1'' else kfRegion inp),
      kfStyle = kfStyle inp,
      pkErrors = required (kfAlias inp) ''alias is required'' @
        required (kfEndpoint inp) ''endpoint is required'' @
        required (kfAccessKeyId inp) ''accessKeyId is required'' @
        required (kfSecretKey inp) ''secretKey is required'' @
        urlErrors parseUrl (kfEndpoint inp)\<rparr>"

text \<open>The defaults \<open>?? ""\<close> of both parsers.\<close>

definition orEmpty :: "string option \<Rightarrow> string" where
  "orEmpty x = (case x of None \<Rightarrow> [] | Some s \<Rightarrow> s)"

definition closeRow :: "(string \<Rightarrow> (string \<times> string) option) \<Rightarrow> PartialRow \<Rightarrow> ParsedKeyRow" where
  "closeRow parseUrl p = finalizeRow parseUrl
     \<lparr>kfAlias = orEmpty (prAlias p), kfEndpoint = orEmpty (prEndpoint p),
      kfAccessKeyId = orEmpty (prAccessKeyId p), kfSecretKey = orEmpty (prSecretKey p),
      kfRegion = orEmpty (prRegion p), kfStyle = prStyle p\<rparr>"

section \<open>The credentials-file parser\<close>

text \<open>An addressing style that is not one of the two values is ignored.\<close>

definition setStyle :: "string \<Rightarrow> PartialRow \<Rightarrow> PartialRow" where
  "setStyle v p =
     (if v = ''path'' then p\<lparr>prStyle := Some PathStyle\<rparr>
      else if v = ''virtual_host'' then p\<lparr>prStyle := Some VirtualHost\<rparr> else p)"

definition assignAws :: "string \<Rightarrow> string \<Rightarrow> PartialRow \<Rightarrow> PartialRow" where
  "assignAws key v p =
     (if key = ''aws_access_key_id'' then p\<lparr>prAccessKeyId := Some v\<rparr>
      else if key = ''aws_secret_access_key'' then p\<lparr>prSecretKey := Some v\<rparr>
      else if key = ''region'' then p\<lparr>prRegion := Some v\<rparr>
      else if key = ''endpoint_url'' \<or> key = ''endpoint'' then p\<lparr>prEndpoint := Some v\<rparr>
      else if key = ''addressing_style'' \<or> key = ''addressingstyle'' then setStyle v p
      else p)"

text \<open>\<open>flush\<close>: the rows so far, with the section in progress appended.\<close>

definition flush ::
  "(string \<Rightarrow> (string \<times> string) option) \<Rightarrow> PartialRow option \<Rightarrow> ParsedKeyRow list \<Rightarrow> ParsedKeyRow list"
where
  "flush parseUrl current out =
     (case current of None \<Rightarrow> out | Some p \<Rightarrow> out @ [closeRow parseUrl p])"

definition awsLine ::
  "(string \<Rightarrow> (string \<times> string) option) \<Rightarrow> PartialRow option \<times> ParsedKeyRow list \<Rightarrow> string \<Rightarrow>
   PartialRow option \<times> ParsedKeyRow list" where
  "awsLine parseUrl st raw =
     (case st of (current, out) \<Rightarrow>
      let line = trim raw in
      if commentOrBlank line then (current, out)
      else (case sectionName line of
          Some name \<Rightarrow> (Some (emptyRow\<lparr>prAlias := Some (trim name)\<rparr>), flush parseUrl current out)
        | None \<Rightarrow>
            (case current of
               None \<Rightarrow> (current, out)
             | Some p \<Rightarrow>
                 (case indexOf line CHR ''='' of
                    None \<Rightarrow> (current, out)
                  | Some eq \<Rightarrow>
                      (Some (assignAws (toLowerCase (trim (take eq line)))
                        (trim (drop (eq + 1) line)) p), out)))))"

definition parseAwsCredentials ::
  "(string \<Rightarrow> (string \<times> string) option) \<Rightarrow> string \<Rightarrow> ParsedKeyRow list" where
  "parseAwsCredentials parseUrl inp =
     (case foldl (awsLine parseUrl) (None, []) (splitLines inp) of
        (current, out) \<Rightarrow> flush parseUrl current out)"

section \<open>The delimited parser\<close>

datatype column = ColAlias | ColEndpoint | ColAccessKeyId | ColSecretKey | ColRegion | ColStyle

definition normalizeHeader :: "string \<Rightarrow> column option" where
  "normalizeHeader h =
     (let lower = filter (\<lambda>c. c \<noteq> CHR ''_'' \<and> c \<noteq> CHR ''-'') (toLowerCase h) in
      if lower \<in> set [''alias'', ''name'', ''profile''] then Some ColAlias
      else if lower \<in> set [''endpoint'', ''endpointurl'', ''url''] then Some ColEndpoint
      else if lower \<in> set [''accesskeyid'', ''awsaccesskeyid'', ''accesskey''] then Some ColAccessKeyId
      else if lower \<in> set [''secretkey'', ''secretaccesskey'', ''awssecretaccesskey'']
        then Some ColSecretKey
      else if lower = ''region'' then Some ColRegion
      else if lower = ''addressingstyle'' then Some ColStyle
      else None)"

fun assignColumn :: "column option \<Rightarrow> string \<Rightarrow> PartialRow \<Rightarrow> PartialRow" where
  "assignColumn None v p = p"
| "assignColumn (Some ColAlias) v p = p\<lparr>prAlias := Some v\<rparr>"
| "assignColumn (Some ColEndpoint) v p = p\<lparr>prEndpoint := Some v\<rparr>"
| "assignColumn (Some ColAccessKeyId) v p = p\<lparr>prAccessKeyId := Some v\<rparr>"
| "assignColumn (Some ColSecretKey) v p = p\<lparr>prSecretKey := Some v\<rparr>"
| "assignColumn (Some ColRegion) v p = p\<lparr>prRegion := Some v\<rparr>"
| "assignColumn (Some ColStyle) v p = setStyle v p"

text \<open>One row: a missing cell is the empty string, a surplus cell is ignored.\<close>

fun assignCells :: "column option list \<Rightarrow> string list \<Rightarrow> PartialRow \<Rightarrow> PartialRow" where
  "assignCells [] cells p = p"
| "assignCells (k # ks) [] p = assignCells ks [] (assignColumn k [] p)"
| "assignCells (k # ks) (v # vs) p = assignCells ks vs (assignColumn k v p)"

definition parseDelimited ::
  "(string \<Rightarrow> (string \<times> string) option) \<Rightarrow> string \<Rightarrow> char \<Rightarrow> ParsedKeyRow list" where
  "parseDelimited parseUrl inp delimiter =
     (let ls = filter (\<lambda>l. l \<noteq> [] \<and> \<not> startsWith l ''#'') (map trim (splitLines inp)) in
      if length ls < 2 then []
      else
        (let header = map (\<lambda>c. normalizeHeader (trim c)) (splitOn delimiter (hd ls)) in
         map (\<lambda>l. closeRow parseUrl (assignCells header (map trim (splitOn delimiter l)) emptyRow))
           (tl ls)))"

definition parseBulkKeys ::
  "(string \<Rightarrow> (string \<times> string) option) \<Rightarrow> string \<Rightarrow> BulkKeyFormat option \<Rightarrow>
   BulkKeyFormat \<times> ParsedKeyRow list" where
  "parseBulkKeys parseUrl inp forceFormat =
     (let format = (case forceFormat of Some f \<Rightarrow> f | None \<Rightarrow> detectFormat inp) in
      (format, case format of
         AwsCredentials \<Rightarrow> parseAwsCredentials parseUrl inp
       | Csv \<Rightarrow> parseDelimited parseUrl inp CHR '',''
       | Tsv \<Rightarrow> parseDelimited parseUrl inp TAB
       | UnknownFormat \<Rightarrow> []))"

section \<open>Every row is a finished row\<close>

definition validUrl :: "(string \<Rightarrow> (string \<times> string) option) \<Rightarrow> string \<Rightarrow> bool" where
  "validUrl parseUrl u \<longleftrightarrow>
     (case parseUrl u of None \<Rightarrow> False | Some (protocol, host) \<Rightarrow> protocol \<noteq> [] \<and> host \<noteq> [])"

lemma finalizeRow_errors:
  "pkErrors (finalizeRow parseUrl p) = [] \<longleftrightarrow>
     kfAlias p \<noteq> [] \<and> kfEndpoint p \<noteq> [] \<and> kfAccessKeyId p \<noteq> [] \<and> kfSecretKey p \<noteq> [] \<and>
     validUrl parseUrl (kfEndpoint p)"
  by (auto simp: finalizeRow_def required_def urlErrors_def validUrl_def split: option.splits)

lemma finalizeRow_fields [simp]:
  "kfAlias (finalizeRow parseUrl p) = kfAlias p" "kfEndpoint (finalizeRow parseUrl p) = kfEndpoint p"
  "kfAccessKeyId (finalizeRow parseUrl p) = kfAccessKeyId p"
  "kfSecretKey (finalizeRow parseUrl p) = kfSecretKey p"
  "kfRegion (finalizeRow parseUrl p) \<noteq> []"
  by (simp_all add: finalizeRow_def)

definition finished :: "(string \<Rightarrow> (string \<times> string) option) \<Rightarrow> ParsedKeyRow list \<Rightarrow> bool" where
  "finished parseUrl rows \<longleftrightarrow> (\<forall>r \<in> set rows. \<exists>p. r = finalizeRow parseUrl p)"

lemma finished_flush: "finished parseUrl out \<Longrightarrow> finished parseUrl (flush parseUrl current out)"
  by (auto simp: finished_def flush_def closeRow_def split: option.splits)

lemma finished_awsLine:
  "finished parseUrl (snd st) \<Longrightarrow> finished parseUrl (snd (awsLine parseUrl st raw))"
  by (auto simp: awsLine_def Let_def finished_flush split: prod.splits option.splits)

lemma finished_awsFold:
  "finished parseUrl (snd st) \<Longrightarrow> finished parseUrl (snd (foldl (awsLine parseUrl) st ls))"
  by (induction ls arbitrary: st) (simp_all add: finished_awsLine)

lemma finished_aws: "finished parseUrl (parseAwsCredentials parseUrl inp)"
proof -
  have "finished parseUrl (snd (foldl (awsLine parseUrl) (None, []) (splitLines inp)))"
    by (rule finished_awsFold) (simp add: finished_def)
  then show ?thesis
    by (cases "foldl (awsLine parseUrl) (None, []) (splitLines inp)")
       (simp add: parseAwsCredentials_def finished_flush)
qed

lemma finished_delimited: "finished parseUrl (parseDelimited parseUrl inp d)"
  by (auto simp: parseDelimited_def finished_def closeRow_def Let_def)

lemma finished_bulk: "finished parseUrl (snd (parseBulkKeys parseUrl inp force))"
  by (auto simp: parseBulkKeys_def Let_def finished_aws finished_delimited
      split: BulkKeyFormat.splits) (simp_all add: finished_def)

section \<open>Printing a table and reading it back\<close>

text \<open>A cell that survives: trimmed, and free of the comma and of line breaks.\<close>

definition cleanCell :: "string \<Rightarrow> bool" where
  "cleanCell s \<longleftrightarrow> trimmed s \<and> CHR '','' \<notin> set s \<and> LF \<notin> set s \<and> CR \<notin> set s"

definition styleText :: "addressing option \<Rightarrow> string" where
  "styleText x = (case x of None \<Rightarrow> [] | Some PathStyle \<Rightarrow> ''path'' | Some VirtualHost \<Rightarrow> ''virtual_host'')"

definition csvLine :: "ParsedKeyRow \<Rightarrow> string" where
  "csvLine r = joinWith '','' [kfAlias r, kfEndpoint r, kfAccessKeyId r, kfSecretKey r, kfRegion r,
     styleText (kfStyle r)]"

definition csvHeader :: string where
  "csvHeader = ''alias,endpoint,accessKeyId,secretKey,region,addressingStyle''"

definition csvOf :: "ParsedKeyRow list \<Rightarrow> string" where
  "csvOf rows = joinWith [LF] (csvHeader # map csvLine rows)"

text \<open>A row the server will accept and the table can hold.\<close>

definition importable :: "(string \<Rightarrow> (string \<times> string) option) \<Rightarrow> ParsedKeyRow \<Rightarrow> bool" where
  "importable parseUrl r \<longleftrightarrow>
     cleanCell (kfAlias r) \<and> cleanCell (kfEndpoint r) \<and> cleanCell (kfAccessKeyId r) \<and>
     cleanCell (kfSecretKey r) \<and> cleanCell (kfRegion r) \<and>
     kfAlias r \<noteq> [] \<and> kfEndpoint r \<noteq> [] \<and> kfAccessKeyId r \<noteq> [] \<and> kfSecretKey r \<noteq> [] \<and>
     kfRegion r \<noteq> [] \<and> validUrl parseUrl (kfEndpoint r) \<and> pkErrors r = []"

lemma wsTokens_facts:
  "t \<in> set wsTokens \<Longrightarrow> t \<noteq> [] \<and> CHR '','' \<notin> set t \<and> (CHR '' '' \<in> set t \<longrightarrow> length t = 1)"
proof -
  have "list_all (\<lambda>t. t \<noteq> [] \<and> CHR '','' \<notin> set t \<and> (CHR '' '' \<in> set t \<longrightarrow> length t = 1)) wsTokens"
    by code_simp
  then show "t \<in> set wsTokens \<Longrightarrow> ?thesis" by (auto simp: list_all_iff)
qed

lemma prefix_before: "prefix t (a @ x # r) \<Longrightarrow> x \<notin> set t \<Longrightarrow> prefix t a"
  by (auto simp: prefix_append prefix_Cons)

lemma suffix_after: "suffix t (r @ x # z) \<Longrightarrow> x \<notin> set t \<Longrightarrow> suffix t z"
  using prefix_before [of "rev t" "rev z" x "rev r"] by (simp add: suffix_to_prefix)

text \<open>A line is its own trim when its first and its last cell are.\<close>

lemma trimmed_line:
  assumes "trimmed a" and "trimmed z" and "a @ CHR '','' # r = r' @ CHR '','' # z"
  shows "trimmed (a @ CHR '','' # r)"
proof -
  have "\<not> prefix t (a @ CHR '','' # r) \<and> \<not> suffix t (a @ CHR '','' # r)" if "t \<in> set wsTokens" for t
    using that wsTokens_facts [OF that] assms prefix_before [of t a "CHR '',''" r]
      suffix_after [of t r' "CHR '',''" z] by (auto simp: trimmed_def list_all_iff)
  then show ?thesis by (simp add: trimmed_def list_all_iff)
qed

lemma styleText_clean: "cleanCell (styleText x)"
proof -
  have "cleanCell [] \<and> cleanCell ''path'' \<and> cleanCell ''virtual_host''" by code_simp
  then show ?thesis by (auto simp: styleText_def split: option.splits addressing.splits)
qed

lemma csvLine_eq:
  "csvLine r = kfAlias r @ CHR '','' # kfEndpoint r @ CHR '','' # kfAccessKeyId r @ CHR '','' #
     kfSecretKey r @ CHR '','' # kfRegion r @ CHR '','' # styleText (kfStyle r)"
  by (simp add: csvLine_def)

lemma csvLine_trim: "importable parseUrl r \<Longrightarrow> trim (csvLine r) = csvLine r"
  unfolding csvLine_eq
  by (rule trim_id, rule trimmed_line [where z = "styleText (kfStyle r)" and
        r' = "kfAlias r @ CHR '','' # kfEndpoint r @ CHR '','' # kfAccessKeyId r @ CHR '','' #
          kfSecretKey r @ CHR '','' # kfRegion r"])
     (use styleText_clean [of "kfStyle r"] in \<open>simp_all add: importable_def cleanCell_def\<close>)

lemma csvLine_cells:
  "importable parseUrl r \<Longrightarrow> map trim (splitOn CHR '','' (csvLine r)) =
     [kfAlias r, kfEndpoint r, kfAccessKeyId r, kfSecretKey r, kfRegion r, styleText (kfStyle r)]"
  unfolding csvLine_def
  by (subst splitOn_join)
     (use styleText_clean [of "kfStyle r"] in \<open>auto simp: importable_def cleanCell_def trim_id\<close>)

lemma csvHeader_columns:
  "map (\<lambda>c. normalizeHeader (trim c)) (splitOn CHR '','' csvHeader) =
     [Some ColAlias, Some ColEndpoint, Some ColAccessKeyId, Some ColSecretKey, Some ColRegion,
      Some ColStyle]"
  by code_simp

lemma csvHeader_line:
  "trim csvHeader = csvHeader" "\<not> commentOrBlank csvHeader" "sectionName csvHeader = None"
  "TAB \<notin> set csvHeader" "CHR '','' \<in> set csvHeader" "LF \<notin> set csvHeader" "CR \<notin> set csvHeader"
  "csvHeader \<noteq> []" "\<not> startsWith csvHeader ''#''"
  by code_simp+

lemma setStyle_text: "setStyle (styleText x) p = (case x of None \<Rightarrow> p | Some y \<Rightarrow> p\<lparr>prStyle := Some y\<rparr>)"
  by (simp add: setStyle_def styleText_def split: option.splits addressing.splits)

lemma urlErrors_valid: "validUrl parseUrl u \<Longrightarrow> urlErrors parseUrl u = []"
  by (auto simp: urlErrors_def validUrl_def split: option.splits)

lemma csvRow_closed:
  assumes "importable parseUrl r"
  shows "closeRow parseUrl (assignCells
      [Some ColAlias, Some ColEndpoint, Some ColAccessKeyId, Some ColSecretKey, Some ColRegion, Some ColStyle]
      (map trim (splitOn CHR '','' (csvLine r))) emptyRow) = r"
proof -
  have valid: "urlErrors parseUrl (kfEndpoint r) = []" "pkErrors r = []" "kfAlias r \<noteq> []"
    "kfEndpoint r \<noteq> []" "kfAccessKeyId r \<noteq> []" "kfSecretKey r \<noteq> []" "kfRegion r \<noteq> []"
    using assms by (simp_all add: importable_def urlErrors_valid)
  show ?thesis
    unfolding csvLine_cells [OF assms] using valid
    by (cases "kfStyle r")
       (simp_all add: closeRow_def finalizeRow_def setStyle_text emptyRow_def orEmpty_def required_def)
qed

lemma csvLine_kept:
  assumes "importable parseUrl r" and "\<not> startsWith (kfAlias r) ''#''"
  shows "csvLine r \<noteq> [] \<and> \<not> startsWith (csvLine r) ''#'' \<and> LF \<notin> set (csvLine r) \<and> CR \<notin> set (csvLine r)"
  using assms styleText_clean [of "kfStyle r"]
  by (cases "kfAlias r") (auto simp: csvLine_eq importable_def cleanCell_def)

text \<open>
  A parsed row, whatever the input and the format, carries no error exactly when its alias,
  endpoint, access key and secret are there and the endpoint is a URL with scheme and host; its
  region is never empty.
\<close>

theorem bulk_row_valid_iff:
  "\<forall>r \<in> set (snd (parseBulkKeys parseUrl inp force)).
     kfRegion r \<noteq> [] \<and>
     (pkErrors r = [] \<longleftrightarrow> kfAlias r \<noteq> [] \<and> kfEndpoint r \<noteq> [] \<and> kfAccessKeyId r \<noteq> [] \<and>
        kfSecretKey r \<noteq> [] \<and> validUrl parseUrl (kfEndpoint r))"
proof
  fix r assume "r \<in> set (snd (parseBulkKeys parseUrl inp force))"
  then obtain p where "r = finalizeRow parseUrl p"
    using finished_bulk [of parseUrl inp force] by (auto simp: finished_def)
  then show "kfRegion r \<noteq> [] \<and>
     (pkErrors r = [] \<longleftrightarrow> kfAlias r \<noteq> [] \<and> kfEndpoint r \<noteq> [] \<and> kfAccessKeyId r \<noteq> [] \<and>
        kfSecretKey r \<noteq> [] \<and> validUrl parseUrl (kfEndpoint r))"
    by (simp add: finalizeRow_errors)
qed

theorem bulk_row_valid_iff_witness:
  "pkErrors (hd (snd (parseBulkKeys (\<lambda>_. None) ''[a]'' (Some AwsCredentials)))) \<noteq> []"
proof -
  have "snd (parseBulkKeys (\<lambda>_. None) ''[a]'' (Some AwsCredentials)) \<noteq> []"
    by code_simp
  then have "hd (snd (parseBulkKeys (\<lambda>_. None) ''[a]'' (Some AwsCredentials)))
      \<in> set (snd (parseBulkKeys (\<lambda>_. None) ''[a]'' (Some AwsCredentials)))"
    by (rule hd_in_set)
  then show ?thesis
    using bulk_row_valid_iff [of "\<lambda>_. None" "''[a]''" "Some AwsCredentials"]
    by (auto simp: validUrl_def)
qed


definition sampleRow :: ParsedKeyRow where
  "sampleRow = \<lparr>kfAlias = ''home'', kfEndpoint = ''https://s3.example.com'', kfAccessKeyId = ''GK1'',
     kfSecretKey = ''ab=='', kfRegion = ''us-east-1'', kfStyle = Some PathStyle, pkErrors = []\<rparr>"


section \<open>Two inputs the format detection accepts and the table parser does not\<close>

text \<open>
  A \<open>;\<close> comment above the header is skipped by the detection but taken for the header by the parser:
  every row then lacks every field, and the real header becomes a row.
\<close>

theorem semicolon_comment_hides_header:
  "case parseBulkKeys (\<lambda>_. Some (''https:'', ''h'')) ('';keys'' @ LF # csvOf [sampleRow]) None of
     (f, rows) \<Rightarrow> f = Csv \<and> map kfAlias rows = [[], []] \<and> list_all (\<lambda>r. length (pkErrors r) = 4) rows"
  by code_simp

text \<open>
  Lines are trimmed before they are split at tabs, so an empty first cell is lost and every other
  cell of the row moves one column to the left.
\<close>

definition tab :: "string list \<Rightarrow> string" where
  "tab = joinWith [TAB]"

theorem tsv_empty_first_cell_shifts_row:
  "case parseBulkKeys (\<lambda>_. Some (''https:'', ''h''))
      (tab [''region'', ''alias'', ''endpoint'', ''accessKeyId'', ''secretKey''] @ LF #
       tab [[], ''home'', ''https://h'', ''GK1'', ''s3cret'']) None of
     (f, rows) \<Rightarrow> f = Tsv \<and> map kfRegion rows = [''home''] \<and> map kfAlias rows = [''https://h''] \<and>
       map kfAccessKeyId rows = [''s3cret''] \<and> map kfSecretKey rows = [[]]"
  by code_simp

end
