(* ===== verification/Region_Hooks.thy ===== *)
theory Region_Hooks
  imports Query_Model
begin

text \<open>
  The keychain and the object browser: the \<open>/user/regions\<close> hooks of \<open>shared/api/queries.ts\<close>. A
  \<open>region\<close> is a stored access key; the hooks list, create, import, rotate and delete keys, browse a
  bucket page by page, and sign the URLs of downloads and multipart uploads.
\<close>

section \<open>Keys\<close>

definition useUserRegions :: query where [hook_defs]:
  "useUserRegions =
     tries 1 (every 60000 (stale 30000 (mkQuery [KS ''user'', KS ''regions'']
       (bindJs (fetchJson ''user/regions'' (getReq ''/user/regions'')) (\<lambda>body.
          Ret (orElse body (JArr [])))))))"

definition useUserRegion :: "string option \<Rightarrow> query" where [hook_defs]:
  "useUserRegion i =
     tries 1 (stale 30000 (enabledIf (present i) (mkQuery [KS ''user'', KS ''regions'', knull i]
       (requireOr (present i) ''Region id required''
         (fetchJson (''user/regions/'' @ tpl i) (getReq (''/user/regions/'' @ enc (tpl i))))))))"

definition useUserRegionBuckets :: "string option \<Rightarrow> query" where [hook_defs]:
  "useUserRegionBuckets regionId =
     tries 1 (stale 30000 (enabledIf (present regionId)
       (mkQuery [KS ''user'', KS ''regions'', knull regionId, KS ''buckets'']
         (requireOr (present regionId) ''Region id required''
           (bindJs (fetchJson (''user/regions/'' @ tpl regionId @ ''/buckets'')
               (getReq (''/user/regions/'' @ enc (tpl regionId) @ ''/buckets''))) (\<lambda>body.
             Ret (JObj [(''buckets'', orElse (getProp body ''buckets'') (JArr [])),
               (''perBucketStatsAvailable'',
                  JBool (truthy (getProp body ''perBucketStatsAvailable'')))])))))))"

record CreateUserKeyRequest =
  ckAlias :: string
  ckEndpoint :: string
  ckAccessKeyId :: string
  ckSecretKey :: string
  ckRegion :: "string option"
  ckAddressingStyle :: "string option"

definition keyJson :: "CreateUserKeyRequest \<Rightarrow> json" where
  "keyJson r = jobj
     [(''alias'', JStr (ckAlias r)), (''endpoint'', JStr (ckEndpoint r)),
      (''accessKeyId'', JStr (ckAccessKeyId r)), (''secretKey'', JStr (ckSecretKey r)),
      (''region'', optStr (ckRegion r)), (''addressingStyle'', optStr (ckAddressingStyle r))]"

definition useCreateUserKey :: "CreateUserKeyRequest mutation" where [hook_defs]:
  "useCreateUserKey = \<lparr>
     mutationFn = (\<lambda>inp. fetchJson ''user/regions/create''
       (jsonReq ''POST'' ''/user/regions'' (keyJson inp))),
     onSuccess = (\<lambda>_ _. [Invalidate [KS ''user'', KS ''regions'']])\<rparr>"

type_synonym BulkCreateUserKeyRow = CreateUserKeyRequest

definition useBulkCreateUserKeys :: "BulkCreateUserKeyRow list mutation" where [hook_defs]:
  "useBulkCreateUserKeys = \<lparr>
     mutationFn = (\<lambda>rows. fetchJson ''user/regions/bulk''
       (jsonReq ''POST'' ''/user/regions/bulk'' (JObj [(''regions'', JArr (map keyJson rows))]))),
     onSuccess = (\<lambda>_ _. [Invalidate [KS ''user'', KS ''regions'']])\<rparr>"

record RotateUserRegionRequest =
  rrRegionId :: string
  rrAccessKeyId :: string
  rrSecretKey :: string

definition useRotateUserRegion :: "RotateUserRegionRequest mutation" where [hook_defs]:
  "useRotateUserRegion = \<lparr>
     mutationFn = (\<lambda>r. fetchJson (''user/regions/rotate/'' @ rrRegionId r)
       (jsonReq ''POST'' (''/user/regions/'' @ enc (rrRegionId r) @ ''/rotate'')
         (JObj [(''accessKeyId'', JStr (rrAccessKeyId r)), (''secretKey'', JStr (rrSecretKey r))]))),
     onSuccess = (\<lambda>_ vars. [Invalidate [KS ''user'', KS ''regions''],
       Invalidate [KS ''user'', KS ''regions'', KS (rrRegionId vars)]])\<rparr>"

definition useDeleteUserRegion :: "string mutation" where [hook_defs]:
  "useDeleteUserRegion = \<lparr>
     mutationFn = (\<lambda>i. fetchVoid JUndef (''user/regions/delete/'' @ i)
       (bareReq ''DELETE'' (''/user/regions/'' @ enc i))),
     onSuccess = (\<lambda>_ i. [Invalidate [KS ''user'', KS ''regions''],
       RemoveQueries [KS ''user'', KS ''regions'', KS i]])\<rparr>"

section \<open>Objects\<close>

text \<open>The path of one bucket; every id is encoded.\<close>

definition regionBucket :: "string option \<Rightarrow> string option \<Rightarrow> string" where
  "regionBucket regionId bid =
     ''/user/regions/'' @ enc (tpl regionId) @ ''/buckets/'' @ enc (tpl bid)"

definition useUserRegionObjectsInfinite ::
  "string option \<Rightarrow> string option \<Rightarrow> string \<Rightarrow> infinite_query" where [hook_defs]:
  "useUserRegionObjectsInfinite regionId bid pre = \<lparr>
     iqKey = [KS ''user'', KS ''regions'', knull regionId, KS ''buckets'', knull bid,
       KS ''objects-inf'', KS pre],
     iqFirst = JStr [],
     iqFn = (\<lambda>pageParam.
       let params = (if pre \<noteq> [] then [(''prefix'', pre)] else []) @
             (if truthy pageParam then [(''token'', toStr pageParam)] else [])
       in fetchJson (''user/regions/'' @ tpl regionId @ ''/buckets/'' @ tpl bid @ ''/objects'')
            (getReq (regionBucket regionId bid @ ''/objects'' @ queryString params))),
     iqNext = (\<lambda>lastPage.
       if truthy (getProp lastPage ''isTruncated'') \<and> truthy (getProp lastPage ''nextContinuation'')
       then getProp lastPage ''nextContinuation'' else JUndef),
     iqEnabled = (present regionId \<and> present bid),
     iqStale = Some (Ms 30000),
     iqRetry = retryN 1\<rparr>"

definition MISSING :: string where
  "MISSING = ''Missing required parameters''"

definition ttlParams :: "int option \<Rightarrow> string" where
  "ttlParams ttl = searchParams [(''ttl'', decInt (case ttl of None \<Rightarrow> 3600 | Some t \<Rightarrow> t))]"

definition useUserRegionPresignGet ::
  "string option \<Rightarrow> string option \<Rightarrow> (string \<times> int option) mutation" where [hook_defs]:
  "useUserRegionPresignGet regionId bid = \<lparr>
     mutationFn = (\<lambda>(key, ttl). requireOr (present regionId \<and> present bid \<and> key \<noteq> []) MISSING
       (fetchJson (''user/regions/'' @ tpl regionId @ ''/presign-get/'' @ key)
         (getReq (regionBucket regionId bid @ ''/objects/'' @ enc key @ ''/presign-get?'' @
            ttlParams ttl)))),
     onSuccess = (\<lambda>_ _. [])\<rparr>"

definition useUserRegionPresignPut ::
  "string option \<Rightarrow> string option \<Rightarrow> (string \<times> string option \<times> int option) mutation" where [hook_defs]:
  "useUserRegionPresignPut regionId bid = \<lparr>
     mutationFn = (\<lambda>(key, contentType, ttl).
       requireOr (present regionId \<and> present bid \<and> key \<noteq> []) MISSING
         (fetchJson (''user/regions/'' @ tpl regionId @ ''/presign-put/'' @ key)
           (jsonReq ''POST'' (regionBucket regionId bid @ ''/objects/'' @ enc key @ ''/presign-put?'' @
              ttlParams ttl) (jobj [(''contentType'', optStr contentType)])))),
     onSuccess = (\<lambda>_ _. [])\<rparr>"

definition useUserRegionMultipartInit ::
  "string option \<Rightarrow> string option \<Rightarrow> (string \<times> string option) mutation" where [hook_defs]:
  "useUserRegionMultipartInit regionId bid = \<lparr>
     mutationFn = (\<lambda>(key, contentType).
       requireOr (present regionId \<and> present bid \<and> key \<noteq> []) MISSING
         (fetchJson (''user/regions/'' @ tpl regionId @ ''/multipart/init/'' @ key)
           (jsonReq ''POST'' (regionBucket regionId bid @ ''/multipart/init'')
             (jobj [(''key'', JStr key), (''contentType'', optStr contentType)])))),
     onSuccess = (\<lambda>_ _. [])\<rparr>"

definition useUserRegionMultipartPartPresign ::
  "string option \<Rightarrow> string option \<Rightarrow> string option \<Rightarrow> (int \<times> int option) mutation" where [hook_defs]:
  "useUserRegionMultipartPartPresign regionId bid uploadId = \<lparr>
     mutationFn = (\<lambda>(partNumber, ttl).
       requireOr (present regionId \<and> present bid \<and> present uploadId) MISSING
         (fetchJson (''user/regions/'' @ tpl regionId @ ''/multipart/'' @ tpl uploadId @ ''/part/'' @
             decInt partNumber)
           (bareReq ''POST'' (regionBucket regionId bid @ ''/multipart/'' @ enc (tpl uploadId) @
              ''/part/'' @ decInt partNumber @ ''/presign?'' @ ttlParams ttl)))),
     onSuccess = (\<lambda>_ _. [])\<rparr>"

record uploaded_part =
  upPartNumber :: int
  upEtag :: string

definition partJson :: "uploaded_part \<Rightarrow> json" where
  "partJson p = JObj [(''partNumber'', JNum (upPartNumber p)), (''etag'', JStr (upEtag p))]"

definition useUserRegionMultipartComplete ::
  "string option \<Rightarrow> string option \<Rightarrow> (string \<times> uploaded_part list) mutation" where [hook_defs]:
  "useUserRegionMultipartComplete regionId bid = \<lparr>
     mutationFn = (\<lambda>(uploadId, parts).
       requireOr (present regionId \<and> present bid \<and> uploadId \<noteq> []) MISSING
         (fetchVoid JUndef (''user/regions/'' @ tpl regionId @ ''/multipart/complete/'' @ uploadId)
           (jsonReq ''POST'' (regionBucket regionId bid @ ''/multipart/'' @ enc uploadId @ ''/complete'')
             (JObj [(''parts'', JArr (map partJson parts))])))),
     onSuccess = (\<lambda>_ _. [Invalidate [KS ''user'', KS ''regions'', knull regionId, KS ''buckets'',
       knull bid]])\<rparr>"

definition useUserRegionMultipartAbort ::
  "string option \<Rightarrow> string option \<Rightarrow> (string \<times> string) mutation" where [hook_defs]:
  "useUserRegionMultipartAbort regionId bid = \<lparr>
     mutationFn = (\<lambda>(uploadId, key).
       requireOr (present regionId \<and> present bid \<and> uploadId \<noteq> [] \<and> key \<noteq> []) MISSING
         (fetchVoid JUndef (''user/regions/'' @ tpl regionId @ ''/multipart/abort/'' @ uploadId)
           (bareReq ''DELETE'' (regionBucket regionId bid @ ''/multipart/'' @ enc uploadId @
              ''?key='' @ enc key)))),
     onSuccess = (\<lambda>_ _. [])\<rparr>"

definition useDeleteUserRegionObject ::
  "string option \<Rightarrow> string option \<Rightarrow> string mutation" where [hook_defs]:
  "useDeleteUserRegionObject regionId bid = \<lparr>
     mutationFn = (\<lambda>key. requireOr (present regionId \<and> present bid \<and> key \<noteq> []) MISSING
       (fetchVoid JUndef (''user/regions/'' @ tpl regionId @ ''/objects/delete/'' @ key)
         (bareReq ''DELETE'' (regionBucket regionId bid @ ''/objects/'' @ enc key)))),
     onSuccess = (\<lambda>_ _. [Invalidate [KS ''user'', KS ''regions'', knull regionId, KS ''buckets'',
       knull bid]])\<rparr>"

section \<open>The keychain as a collection\<close>

interpretation regions: collection "queryKey useUserRegions" "\<lambda>i. queryKey (useUserRegion (Some i))"
    "\<lambda>d. onSuccess useCreateUserKey d r" "\<lambda>i. onSuccess useDeleteUserRegion d i" for r d
  by unfold_locales (simp_all add: hook_defs)

section \<open>Where a request goes\<close>

definition objectPath :: "string \<Rightarrow> string \<Rightarrow> string \<Rightarrow> string list" where
  "objectPath r k key = [[], ''user'', ''regions'', r, ''buckets'', k, ''objects'', key]"

lemma object_url:
  "regionBucket (Some r) (Some k) @ ''/objects/'' @ enc key = pathOf (objectPath r k key)"
proof -
  have "enc ''user'' = ''user''" "enc ''regions'' = ''regions''" "enc ''buckets'' = ''buckets''"
    "enc ''objects'' = ''objects''"
    by (rule enc_plain, simp add: uriUnreserved_def alnum_def Let_def)+
  then show ?thesis by (simp add: regionBucket_def objectPath_def pathOf_def)
qed

lemma objectPath_noDots: "noDots [r, k, key] \<Longrightarrow> noDots (objectPath r k key)"
  by (simp add: noDots_def objectPath_def)

section \<open>Walking the pages of a listing\<close>

text \<open>The request for the page behind a parameter.\<close>

definition pageReq :: "string \<Rightarrow> string \<Rightarrow> string \<Rightarrow> json \<Rightarrow> fetch_req" where
  "pageReq r k pre param = getReq (regionBucket (Some r) (Some k) @ ''/objects'' @
     queryString ((if pre \<noteq> [] then [(''prefix'', pre)] else []) @
       (if truthy param then [(''token'', toStr param)] else [])))"

text \<open>
  The server's pages, in order: each answers the parameter the page before handed out, every page but
  the last is truncated and hands out a continuation, and the last one does not.
\<close>

fun servesPages :: "backend \<Rightarrow> string \<Rightarrow> string \<Rightarrow> string \<Rightarrow> json \<Rightarrow> json list \<Rightarrow> bool" where
  "servesPages b r k pre param [] = False"
| "servesPages b r k pre param [p] =
     ((\<forall>h. onFetch b h (pageReq r k pre param) = Some \<lparr>rsStatus = 200, rsBody = Some p\<rparr>) \<and>
      (\<not> truthy (getProp p ''isTruncated'') \<or> \<not> truthy (getProp p ''nextContinuation'')))"
| "servesPages b r k pre param (p # q # ps) =
     ((\<forall>h. onFetch b h (pageReq r k pre param) = Some \<lparr>rsStatus = 200, rsBody = Some p\<rparr>) \<and>
      truthy (getProp p ''isTruncated'') \<and> truthy (getProp p ''nextContinuation'') \<and>
      servesPages b r k pre (getProp p ''nextContinuation'') (q # ps))"

fun pageParams :: "json \<Rightarrow> json list \<Rightarrow> json list" where
  "pageParams param [] = []"
| "pageParams param (p # ps) = param # pageParams (getProp p ''nextContinuation'') ps"

lemma iqFn_page:
  "iqFn (useUserRegionObjectsInfinite (Some r) (Some k) pre) param =
     fetchJson (''user/regions/'' @ r @ ''/buckets/'' @ k @ ''/objects'') (pageReq r k pre param)"
  by (simp add: useUserRegionObjectsInfinite_def pageReq_def)

lemma iqNext_page:
  "iqNext (useUserRegionObjectsInfinite x y pre) p =
     (if truthy (getProp p ''isTruncated'') \<and> truthy (getProp p ''nextContinuation'')
      then getProp p ''nextContinuation'' else JUndef)"
  by (simp add: useUserRegionObjectsInfinite_def)

lemma iqFn_run:
  "onFetch b h (pageReq r k pre param) = Some \<lparr>rsStatus = 200, rsBody = Some p\<rparr> \<Longrightarrow>
   run (iqFn (useUserRegionObjectsInfinite (Some r) (Some k) pre) param) b h =
     (h @ [RFetch (pageReq r k pre param)], Inr p)"
  by (simp add: iqFn_page run_fetchJson httpOk_def jsonOrNull_def)

lemma walk_served:
  "servesPages b r k pre param ps \<Longrightarrow> length ps \<le> n \<Longrightarrow>
   run (walkPages (useUserRegionObjectsInfinite (Some r) (Some k) pre) n param) b h =
     (h @ map (\<lambda>q. RFetch (pageReq r k pre q)) (pageParams param ps), Inr (ps, True))"
proof (induction b r k pre param ps arbitrary: n h rule: servesPages.induct)
  case (2 b r k pre param p)
  obtain m where "n = Suc m" using 2(2) by (cases n) auto
  then show ?case using 2(1) by (auto simp: run_bindJs iqFn_run iqNext_page)
next
  case (3 b r k pre param p q ps)
  obtain m where n: "n = Suc m" using 3(3) by (cases n) auto
  have "getProp p ''nextContinuation'' \<noteq> JUndef" using 3(2) by auto
  then show ?case using 3 n by (simp add: run_bindJs iqFn_run iqNext_page)
qed simp

text \<open>
  C7. Walking an object listing delivers every page the server has, in order, each exactly once: the
  request after a page carries exactly the continuation that page handed out, and the walk ends at
  the first page that is not truncated.
\<close>

theorem listing_walk_complete:
  assumes "servesPages b r k pre (JStr []) ps" and "length ps \<le> n"
  shows "run (walkPages (useUserRegionObjectsInfinite (Some r) (Some k) pre) n
      (iqFirst (useUserRegionObjectsInfinite (Some r) (Some k) pre))) b [] =
    (map (\<lambda>q. RFetch (pageReq r k pre q)) (pageParams (JStr []) ps), Inr (ps, True))"
  using walk_served [OF assms, of "[]"] by (simp add: useUserRegionObjectsInfinite_def)

definition lastPage :: json where
  "lastPage = JObj [(''isTruncated'', JBool False)]"

definition firstPage :: json where
  "firstPage = JObj [(''isTruncated'', JBool True), (''nextContinuation'', JStr ''t1'')]"

definition twoPages :: backend where
  "twoPages = \<lparr>onFetch = (\<lambda>h q. Some \<lparr>rsStatus = 200,
     rsBody = Some (if q = pageReq ''r'' ''b'' [] (JStr ''t1'') then lastPage else firstPage)\<rparr>),
     onCall = (\<lambda>_ _. None),
      onPut = (\<lambda>_ _. None)\<rparr>"

theorem listing_walk_complete_witness:
  "snd (run (walkPages (useUserRegionObjectsInfinite (Some ''r'') (Some ''b'') []) 5 (JStr [])) twoPages [])
     = Inr ([firstPage, lastPage], True)"
proof -
  have "pageReq ''r'' ''b'' [] (JStr []) \<noteq> pageReq ''r'' ''b'' [] (JStr ''t1'')"
    by (simp add: pageReq_def getReq_def queryString_def)
  then have "servesPages twoPages ''r'' ''b'' [] (JStr []) [firstPage, lastPage]"
    by (simp add: twoPages_def firstPage_def lastPage_def)
  from listing_walk_complete [OF this, of 5] show ?thesis
    by (simp add: useUserRegionObjectsInfinite_def)
qed

text \<open>
  Whatever characters an object key, a bucket name or a key id holds (slashes, question marks,
  percent signs), the delete of an object is one request whose path the server decodes to exactly
  that object; only the two dot segments are resolved away before the request leaves.
\<close>

theorem object_delete_hits_its_object:
  assumes "r \<noteq> []" and "k \<noteq> []" and "key \<noteq> []" and "noDots [r, k, key]"
  shows "\<exists>p. fst (run (mutationFn (useDeleteUserRegionObject (Some r) (Some k)) key) b [])
      = [RFetch (bareReq ''DELETE'' p)] \<and>
    serverPath p = [[], ''user'', ''regions'', r, ''buckets'', k, ''objects'', key]"
proof (intro exI conjI)
  show "fst (run (mutationFn (useDeleteUserRegionObject (Some r) (Some k)) key) b [])
      = [RFetch (bareReq ''DELETE'' (pathOf (objectPath r k key)))]"
    using assms by (simp add: useDeleteUserRegionObject_def run_requireOr run_fetchVoid
        object_url [symmetric])
  show "serverPath (pathOf (objectPath r k key)) =
      [[], ''user'', ''regions'', r, ''buckets'', k, ''objects'', key]"
    using serverPath_pathOf [OF objectPath_noDots [OF assms(4)], of "[]"] by (simp add: objectPath_def)
qed

theorem object_delete_hits_its_object_witness:
  "\<exists>p. fst (run (mutationFn (useDeleteUserRegionObject (Some ''r1'') (Some ''b'')) ''a/../b?x'')
      \<lparr>onFetch = (\<lambda>_ _. None), onCall = (\<lambda>_ _. None),
      onPut = (\<lambda>_ _. None)\<rparr> []) = [RFetch (bareReq ''DELETE'' p)] \<and>
    serverPath p = [[], ''user'', ''regions'', ''r1'', ''buckets'', ''b'', ''objects'', ''a/../b?x'']"
  by (rule object_delete_hits_its_object) (simp_all add: noDots_def)

text \<open>
  An object whose key is \<open>..\<close> cannot be addressed: the delete goes to the bucket's own path instead.
\<close>

theorem dot_dot_object_misses:
  "serverPath (regionBucket (Some ''r1'') (Some ''b'') @ ''/objects/'' @ enc ''..'') =
     [[], ''user'', ''regions'', ''r1'', ''buckets'', ''b'', []]"
  by code_simp

definition refusesUnsent :: "json js \<Rightarrow> bool" where
  "refusesUnsent m \<longleftrightarrow> m = Throw (PlainError ''Missing required parameters'')"

text \<open>
  The object and multipart calls send no request at all when the key, the bucket, the object key or
  the upload id is missing; they reject with the same message.
\<close>

theorem missing_ids_send_nothing:
  assumes "\<not> present r \<or> \<not> present k"
  shows "refusesUnsent (mutationFn (useUserRegionPresignGet r k) (key, ttl)) \<and>
    refusesUnsent (mutationFn (useUserRegionPresignPut r k) (key, ct, ttl)) \<and>
    refusesUnsent (mutationFn (useUserRegionMultipartInit r k) (key, ct)) \<and>
    refusesUnsent (mutationFn (useUserRegionMultipartPartPresign r k u) (part, ttl)) \<and>
    refusesUnsent (mutationFn (useUserRegionMultipartComplete r k) (uid, parts)) \<and>
    refusesUnsent (mutationFn (useUserRegionMultipartAbort r k) (uid, key)) \<and>
    refusesUnsent (mutationFn (useDeleteUserRegionObject r k) key)"
  using assms by (auto simp: hook_defs refusesUnsent_def requireOr_def MISSING_def)

theorem missing_ids_send_nothing_witness:
  "refusesUnsent (mutationFn (useDeleteUserRegionObject None (Some ''b'')) ''x'')"
  using missing_ids_send_nothing [of None "Some ''b''" "''x''"] by simp

end
