(* ===== verification/Bucket_Hooks.thy ===== *)
theory Bucket_Hooks
  imports Region_Hooks
begin

text \<open>
  The settings of one bucket and of its object versions (\<open>shared/api/queries.ts\<close>): lifecycle rules on
  the cluster side; versioning, object versions, object lock, retention, legal hold and server-side
  encryption on the key-holder's side. Each setting is a query below the bucket's key and a mutation
  that outdates it.
\<close>

section \<open>Lifecycle rules\<close>

record LifecycleRule =
  lrId :: string
  lrStatus :: string
  lrPrefix :: "string option"
  lrExpirationDays :: "int option"
  lrTransitionDays :: "int option"
  lrTransitionTier :: "string option"
  lrNoncurrentDays :: "int option"
  lrAbortMultipartDays :: "int option"

definition ruleJson :: "LifecycleRule \<Rightarrow> json" where
  "ruleJson r = jobj
     [(''id'', JStr (lrId r)), (''status'', JStr (lrStatus r)), (''prefix'', optStr (lrPrefix r)),
      (''expirationDays'', optNum (lrExpirationDays r)),
      (''transitionDays'', optNum (lrTransitionDays r)),
      (''transitionTier'', optStr (lrTransitionTier r)),
      (''noncurrentDays'', optNum (lrNoncurrentDays r)),
      (''abortMultipartDays'', optNum (lrAbortMultipartDays r))]"

definition lifecyclePath :: "string \<Rightarrow> string \<Rightarrow> string" where [hook_defs]:
  "lifecyclePath cid bid = ''/admin/clusters/'' @ enc cid @ ''/buckets/'' @ enc bid @ ''/lifecycle''"

definition useBucketLifecycle :: "string \<Rightarrow> string \<Rightarrow> query" where [hook_defs]:
  "useBucketLifecycle cid bid =
     tries 1 (stale 30000 (enabledIf (cid \<noteq> [] \<and> bid \<noteq> [])
       (mkQuery [KS ''admin'', KS ''clusters'', KS cid, KS ''buckets'', KS bid, KS ''lifecycle'']
         (fetchJson (''bucket-lifecycle/'' @ cid @ ''/'' @ bid) (getReq (lifecyclePath cid bid))))))"

definition usePutBucketLifecycle :: "string \<Rightarrow> string \<Rightarrow> LifecycleRule list mutation" where [hook_defs]:
  "usePutBucketLifecycle cid bid = \<lparr>
     mutationFn = (\<lambda>rules. fetchJson (''bucket-lifecycle-put/'' @ cid @ ''/'' @ bid)
       (jsonReq ''PUT'' (lifecyclePath cid bid) (JObj [(''rules'', JArr (map ruleJson rules))]))),
     onSuccess = (\<lambda>_ _.
       [Invalidate [KS ''admin'', KS ''clusters'', KS cid, KS ''buckets'', KS bid, KS ''lifecycle''],
        Invalidate [KS ''admin'', KS ''clusters'', KS cid, KS ''buckets'', KS bid]])\<rparr>"

section \<open>Settings of a bucket the key holder owns\<close>

text \<open>The cache key of a bucket's subtree, and the error label of its routes.\<close>

definition bucketKey :: "string option \<Rightarrow> string option \<Rightarrow> kseg list \<Rightarrow> qkey" where [hook_defs]:
  "bucketKey regionId bucket rest =
     [KS ''user'', KS ''regions'', knull regionId, KS ''buckets'', knull bucket] @ rest"

definition bucketLabel :: "string option \<Rightarrow> string option \<Rightarrow> string" where [hook_defs]:
  "bucketLabel regionId bucket = ''user/regions/'' @ tpl regionId @ ''/buckets/'' @ tpl bucket"

definition NEED_BUCKET :: string where
  "NEED_BUCKET = ''Region id and bucket required''"

definition useBucketVersioning :: "string option \<Rightarrow> string option \<Rightarrow> query" where [hook_defs]:
  "useBucketVersioning regionId bucket =
     tries 1 (stale 30000 (enabledIf (present regionId \<and> present bucket)
       (mkQuery (bucketKey regionId bucket [KS ''versioning''])
         (requireOr (present regionId \<and> present bucket) NEED_BUCKET
           (fetchJson (bucketLabel regionId bucket @ ''/versioning'')
             (getReq (regionBucket regionId bucket @ ''/versioning'')))))))"

definition usePutBucketVersioning :: "string option \<Rightarrow> string option \<Rightarrow> string mutation" where [hook_defs]:
  "usePutBucketVersioning regionId bucket = \<lparr>
     mutationFn = (\<lambda>status. requireOr (present regionId \<and> present bucket) NEED_BUCKET
       (fetchJson (bucketLabel regionId bucket @ ''/versioning/put'')
         (jsonReq ''PUT'' (regionBucket regionId bucket @ ''/versioning'')
           (JObj [(''status'', JStr status)])))),
     onSuccess = (\<lambda>_ _. [Invalidate (bucketKey regionId bucket [KS ''versioning'']),
       Invalidate (bucketKey regionId bucket [KS ''object-lock''])])\<rparr>"

text \<open>The path of one object, on the versions side of the API.\<close>

definition versionedObject :: "string option \<Rightarrow> string option \<Rightarrow> string \<Rightarrow> string" where [hook_defs]:
  "versionedObject regionId bucket key = regionBucket regionId bucket @ ''/o/'' @ enc key"

definition useObjectVersions ::
  "string option \<Rightarrow> string option \<Rightarrow> string option \<Rightarrow> bool \<Rightarrow> query" where [hook_defs]:
  "useObjectVersions regionId bucket key enabled =
     tries 1 (stale 10000 (enabledIf (enabled \<and> present regionId \<and> present bucket \<and> present key)
       (mkQuery (bucketKey regionId bucket [KS ''object-versions'', knull key])
         (requireOr (present regionId \<and> present bucket \<and> present key)
            ''Region id, bucket, and key required''
           (fetchJson (bucketLabel regionId bucket @ ''/o/'' @ tpl key @ ''/versions'')
             (getReq (versionedObject regionId bucket (tpl key) @ ''/versions'')))))))"

definition objectVersionDownloadURL :: "string \<Rightarrow> string \<Rightarrow> string \<Rightarrow> string \<Rightarrow> url" where
  "objectVersionDownloadURL regionId bucket key versionId =
     Api (versionedObject (Some regionId) (Some bucket) key @ ''/versions/'' @ enc versionId)"

definition useDeleteObjectVersion ::
  "string option \<Rightarrow> string option \<Rightarrow> (string \<times> string) mutation" where [hook_defs]:
  "useDeleteObjectVersion regionId bucket = \<lparr>
     mutationFn = (\<lambda>(key, versionId). requireOr (present regionId \<and> present bucket) NEED_BUCKET
       (fetchVoid JUndef (bucketLabel regionId bucket @ ''/o/'' @ key @ ''/versions/'' @ versionId)
         (bareReq ''DELETE''
           (versionedObject regionId bucket key @ ''/versions/'' @ enc versionId)))),
     onSuccess = (\<lambda>_ (key, _).
       [Invalidate (bucketKey regionId bucket [KS ''object-versions'', KS key]),
        Invalidate (bucketKey regionId bucket [])])\<rparr>"

section \<open>Object lock, retention, legal hold\<close>

record ObjectLockRetention =
  olMode :: string
  olRetainUntil :: string

definition retentionJson :: "ObjectLockRetention \<Rightarrow> json" where
  "retentionJson r =
     JObj [(''mode'', JStr (olMode r)), (''retainUntilDate'', JStr (olRetainUntil r))]"

text \<open>\<open>defaultRetention\<close> may be left out (\<open>None\<close>), null (\<open>Some None\<close>) or given.\<close>

record ObjectLockConfigRequest =
  ocEnabled :: bool
  ocDefault :: "ObjectLockRetention option option"

definition lockConfigJson :: "ObjectLockConfigRequest \<Rightarrow> json" where
  "lockConfigJson r = jobj [(''enabled'', JBool (ocEnabled r)),
     (''defaultRetention'', case ocDefault r of None \<Rightarrow> JUndef
        | Some None \<Rightarrow> JNull | Some (Some x) \<Rightarrow> retentionJson x)]"

definition useObjectLockConfig :: "string option \<Rightarrow> string option \<Rightarrow> query" where [hook_defs]:
  "useObjectLockConfig regionId bucket =
     tries 1 (stale 30000 (enabledIf (present regionId \<and> present bucket)
       (mkQuery (bucketKey regionId bucket [KS ''object-lock''])
         (requireOr (present regionId \<and> present bucket) NEED_BUCKET
           (fetchJson (bucketLabel regionId bucket @ ''/object-lock'')
             (getReq (regionBucket regionId bucket @ ''/object-lock'')))))))"

definition usePutObjectLockConfig ::
  "string option \<Rightarrow> string option \<Rightarrow> ObjectLockConfigRequest mutation" where [hook_defs]:
  "usePutObjectLockConfig regionId bucket = \<lparr>
     mutationFn = (\<lambda>req. requireOr (present regionId \<and> present bucket) NEED_BUCKET
       (fetchJson (bucketLabel regionId bucket @ ''/object-lock/put'')
         (jsonReq ''PUT'' (regionBucket regionId bucket @ ''/object-lock'') (lockConfigJson req)))),
     onSuccess = (\<lambda>_ _. [Invalidate (bucketKey regionId bucket [KS ''object-lock''])])\<rparr>"

definition NEED_VERSION :: string where
  "NEED_VERSION = ''Region id, bucket, key, versionId required''"

definition useObjectRetention ::
  "string option \<Rightarrow> string option \<Rightarrow> string option \<Rightarrow> string option \<Rightarrow> bool \<Rightarrow> query" where [hook_defs]:
  "useObjectRetention regionId bucket key versionId enabled =
     tries 1 (stale 10000
       (enabledIf (enabled \<and> present regionId \<and> present bucket \<and> present key \<and> present versionId)
       (mkQuery (bucketKey regionId bucket [KS ''object-retention'', knull key, knull versionId])
         (requireOr (present regionId \<and> present bucket \<and> present key \<and> present versionId) NEED_VERSION
           (fetchJson (bucketLabel regionId bucket @ ''/o/'' @ tpl key @ ''/retention'')
             (getReq (versionedObject regionId bucket (tpl key) @ ''/retention?versionId='' @
                enc (tpl versionId))))))))"

record RetentionUpdate =
  ruKey :: string
  ruVersionId :: string
  ruRetention :: ObjectLockRetention
  ruBypassGovernance :: "bool option"

definition usePutObjectRetention ::
  "string option \<Rightarrow> string option \<Rightarrow> RetentionUpdate mutation" where [hook_defs]:
  "usePutObjectRetention regionId bucket = \<lparr>
     mutationFn = (\<lambda>u. requireOr (present regionId \<and> present bucket) NEED_BUCKET
       (let params = [(''versionId'', ruVersionId u)] @
              (if ruBypassGovernance u = Some True then [(''bypassGovernance'', ''true'')] else [])
        in fetchJson (bucketLabel regionId bucket @ ''/o/'' @ ruKey u @ ''/retention/put'')
             (jsonReq ''PUT'' (versionedObject regionId bucket (ruKey u) @ ''/retention?'' @
                searchParams params) (retentionJson (ruRetention u))))),
     onSuccess = (\<lambda>_ u. [Invalidate (bucketKey regionId bucket
       [KS ''object-retention'', KS (ruKey u), KS (ruVersionId u)])])\<rparr>"

definition useObjectLegalHold ::
  "string option \<Rightarrow> string option \<Rightarrow> string option \<Rightarrow> string option \<Rightarrow> bool \<Rightarrow> query" where [hook_defs]:
  "useObjectLegalHold regionId bucket key versionId enabled =
     tries 1 (stale 10000
       (enabledIf (enabled \<and> present regionId \<and> present bucket \<and> present key \<and> present versionId)
       (mkQuery (bucketKey regionId bucket [KS ''object-legal-hold'', knull key, knull versionId])
         (requireOr (present regionId \<and> present bucket \<and> present key \<and> present versionId) NEED_VERSION
           (fetchJson (bucketLabel regionId bucket @ ''/o/'' @ tpl key @ ''/legal-hold'')
             (getReq (versionedObject regionId bucket (tpl key) @ ''/legal-hold?versionId='' @
                enc (tpl versionId))))))))"

definition usePutObjectLegalHold ::
  "string option \<Rightarrow> string option \<Rightarrow> (string \<times> string \<times> bool) mutation" where [hook_defs]:
  "usePutObjectLegalHold regionId bucket = \<lparr>
     mutationFn = (\<lambda>(key, versionId, on). requireOr (present regionId \<and> present bucket) NEED_BUCKET
       (fetchJson (bucketLabel regionId bucket @ ''/o/'' @ key @ ''/legal-hold/put'')
         (jsonReq ''PUT'' (versionedObject regionId bucket key @ ''/legal-hold?versionId='' @
            enc versionId) (JObj [(''on'', JBool on)])))),
     onSuccess = (\<lambda>_ (key, versionId, _). [Invalidate (bucketKey regionId bucket
       [KS ''object-legal-hold'', KS key, KS versionId])])\<rparr>"

section \<open>Server-side encryption\<close>

record BucketEncryptionRequest =
  beAlgorithm :: string
  beKmsKeyId :: "string option"
  beBucketKey :: "bool option"

definition encryptionJson :: "BucketEncryptionRequest \<Rightarrow> json" where
  "encryptionJson r = jobj [(''algorithm'', JStr (beAlgorithm r)),
     (''kmsKeyId'', optStr (beKmsKeyId r)), (''bucketKey'', optBool (beBucketKey r))]"

definition useBucketEncryption :: "string option \<Rightarrow> string option \<Rightarrow> query" where [hook_defs]:
  "useBucketEncryption regionId bucket =
     tries 1 (stale 30000 (enabledIf (present regionId \<and> present bucket)
       (mkQuery (bucketKey regionId bucket [KS ''encryption''])
         (requireOr (present regionId \<and> present bucket) NEED_BUCKET
           (fetchJson (bucketLabel regionId bucket @ ''/encryption'')
             (getReq (regionBucket regionId bucket @ ''/encryption'')))))))"

definition usePutBucketEncryption ::
  "string option \<Rightarrow> string option \<Rightarrow> BucketEncryptionRequest mutation" where [hook_defs]:
  "usePutBucketEncryption regionId bucket = \<lparr>
     mutationFn = (\<lambda>req. requireOr (present regionId \<and> present bucket) NEED_BUCKET
       (fetchJson (bucketLabel regionId bucket @ ''/encryption/put'')
         (jsonReq ''PUT'' (regionBucket regionId bucket @ ''/encryption'') (encryptionJson req)))),
     onSuccess = (\<lambda>_ _. [Invalidate (bucketKey regionId bucket [KS ''encryption''])])\<rparr>"

definition useDeleteBucketEncryption :: "string option \<Rightarrow> string option \<Rightarrow> unit mutation" where [hook_defs]:
  "useDeleteBucketEncryption regionId bucket = \<lparr>
     mutationFn = (\<lambda>_. requireOr (present regionId \<and> present bucket) NEED_BUCKET
       (fetchJson (bucketLabel regionId bucket @ ''/encryption/delete'')
         (bareReq ''DELETE'' (regionBucket regionId bucket @ ''/encryption'')))),
     onSuccess = (\<lambda>_ _. [Invalidate (bucketKey regionId bucket [KS ''encryption''])])\<rparr>"

section \<open>The claims\<close>

text \<open>
  A retention change asks the server to bypass governance only when the operator ticked the
  bypass; the version and the bypass travel as query parameters, the retention as the body.
\<close>

theorem governance_bypass_explicit:
  "fst (run (mutationFn (usePutObjectRetention (Some r) (Some k)) u) b []) =
     (if r = [] \<or> k = [] then []
      else [RFetch (jsonReq ''PUT'' (versionedObject (Some r) (Some k) (ruKey u) @ ''/retention?'' @
        ''versionId='' @ formEncode (ruVersionId u) @
        (if ruBypassGovernance u = Some True then ''&bypassGovernance=true'' else []))
        (JObj [(''mode'', JStr (olMode (ruRetention u))),
          (''retainUntilDate'', JStr (olRetainUntil (ruRetention u)))]))])"
proof -
  have "formEncode ''versionId'' = ''versionId''" "formEncode ''bypassGovernance'' = ''bypassGovernance''"
    "formEncode ''true'' = ''true''" by code_simp+
  then show ?thesis
    by (simp add: usePutObjectRetention_def run_requireOr run_fetchJson searchParams_def Let_def
        retentionJson_def)
qed

text \<open>
  Every write to a bucket setting outdates the query that shows it, and only inside that bucket;
  switching versioning also outdates the object lock shown beside it, and deleting a version outdates
  everything below the bucket, the paged object listing included.
\<close>

theorem setting_writes_refresh_setting:
  "covers (onSuccess (usePutBucketVersioning r k) d st) (queryKey (useBucketVersioning r k)) \<and>
   covers (onSuccess (usePutBucketVersioning r k) d st) (queryKey (useObjectLockConfig r k)) \<and>
   covers (onSuccess (usePutObjectLockConfig r k) d oc) (queryKey (useObjectLockConfig r k)) \<and>
   covers (onSuccess (usePutBucketEncryption r k) d en) (queryKey (useBucketEncryption r k)) \<and>
   covers (onSuccess (useDeleteBucketEncryption r k) d ()) (queryKey (useBucketEncryption r k)) \<and>
   covers (onSuccess (usePutObjectLegalHold r k) d (key, v, on))
     (queryKey (useObjectLegalHold r k (Some key) (Some v) e)) \<and>
   covers (onSuccess (usePutObjectRetention r k) d u)
     (queryKey (useObjectRetention r k (Some (ruKey u)) (Some (ruVersionId u)) e)) \<and>
   covers (onSuccess (useDeleteObjectVersion r k) d (key, v)) (queryKey (useObjectVersions r k (Some key) e)) \<and>
   covers (onSuccess (useDeleteObjectVersion r k) d (key, v)) (iqKey (useUserRegionObjectsInfinite r k pre)) \<and>
   covers (onSuccess (usePutBucketLifecycle c k') d rs) (queryKey (useBucketLifecycle c k')) \<and>
   (covers (onSuccess (usePutBucketVersioning r k) d st) (queryKey (useBucketVersioning r2 k2)) \<longrightarrow>
      r2 = r \<and> k2 = k)"
  by (simp add: hook_defs)

theorem setting_writes_refresh_setting_witness:
  "covers (onSuccess (usePutBucketVersioning (Some ''r'') (Some ''b'')) JNull ''enabled'')
     (queryKey (useBucketVersioning (Some ''r'') (Some ''b''))) \<and> Some ''r'' = Some ''r''"
  using setting_writes_refresh_setting [of "Some ''r''" "Some ''b''" JNull "''enabled''"] by blast

end
