(* ===== verification/Share_Hooks.thy ===== *)
theory Share_Hooks
  imports Query_Model
begin

text \<open>
  Organisation capabilities, skins, onboarding, gateways, share links (the owner's side and the
  public, unauthenticated side) and sync jobs: the remaining small surfaces of
  \<open>shared/api/queries.ts\<close>.
\<close>

section \<open>Organisation, skins, onboarding, gateways\<close>

definition useOrgCapabilities :: query where [hook_defs]:
  "useOrgCapabilities = mkQuery [KS ''org-capabilities'']
     (fetchPlain ''org-capabilities'' (publicReq ''/auth/org-capabilities''))"

definition isSignupEnabled :: "string option \<Rightarrow> bool" where
  "isSignupEnabled signupMode \<longleftrightarrow> signupMode = Some ''open'' \<or> signupMode = Some ''invite''"

definition useSetActiveSkin :: "string mutation" where [hook_defs]:
  "useSetActiveSkin = \<lparr>
     mutationFn = (\<lambda>skinName.
       awaitFetch (jsonReq ''PUT'' ''/user/skin'' (JObj [(''skinName'', JStr skinName)])) (\<lambda>res.
         if \<not> httpOk (rsStatus res)
         then (let m = getProp (getProp (jsonOrNull res) ''error'') ''message'' in
           Throw (PlainError (''set active skin '' @ dec (rsStatus res) @ '': '' @
             (if truthy m then toStr m else ''Failed''))))
         else Ret JUndef)),
     onSuccess = (\<lambda>_ _. [Invalidate [KS ''skin'', KS ''active''], Invalidate [KS ''org-capabilities'']])\<rparr>"

definition useActiveSkin :: query where [hook_defs]:
  "useActiveSkin =
     tries 1 (stale 60000 (mkQuery [KS ''skin'', KS ''active'']
       (fetchPlain ''active skin'' (publicReq ''/skins/active''))))"

definition useSkinRegistry :: query where [hook_defs]:
  "useSkinRegistry =
     tries 1 (stale 30000 (mkQuery [KS ''skin'', KS ''registry'']
       (fetchPlain ''skin registry'' (publicReq ''/skins''))))"

text \<open>\<open>enabled\<close> is \<open>opts.enabled\<close>.\<close>

definition useOnboardingState :: "bool option \<Rightarrow> query" where [hook_defs]:
  "useOnboardingState enabled =
     (tries 1 (stale 60000 (enabledIf (case enabled of None \<Rightarrow> True | Some b \<Rightarrow> b)
       (mkQuery [KS ''admin'', KS ''onboarding'', KS ''state'']
         (fetchPlain ''onboarding/state'' (getReq ''/admin/onboarding/state''))))))
     \<lparr>qOnFocus := Some False\<rparr>"

definition useGatewaysRegistry :: query where [hook_defs]:
  "useGatewaysRegistry =
     tries 1 (every 30000 (stale 30000 (mkQuery [KS ''admin'', KS ''gateways'']
       (bindJs (fetchJson ''admin/gateways'' (getReq ''/admin/gateways'')) (\<lambda>body.
          Ret (orElse body (JArr [])))))))"

section \<open>Share links, the owner's side\<close>

definition useUserShares :: query where [hook_defs]:
  "useUserShares =
     tries 1 (every 60000 (stale 30000 (mkQuery [KS ''user'', KS ''shares'']
       (callData ''user/shares'' (callReq ''GET'' ''/user/shares'' [] JUndef)))))"

record ShareRequest =
  shConnectionId :: string
  shBucketId :: string
  shPrefix :: "string option"
  shKey :: "string option"
  shExpiresAt :: "string option"
  shDownloadLimit :: "int option"
  shPassword :: "string option"

definition shareJson :: "ShareRequest \<Rightarrow> json" where
  "shareJson r = jobj
     [(''connectionId'', JStr (shConnectionId r)), (''bucketId'', JStr (shBucketId r)),
      (''prefix'', optStr (shPrefix r)), (''key'', optStr (shKey r)),
      (''expiresAt'', optStr (shExpiresAt r)), (''downloadLimit'', optNum (shDownloadLimit r)),
      (''password'', optStr (shPassword r))]"

definition useCreateUserShare :: "ShareRequest mutation" where [hook_defs]:
  "useCreateUserShare = \<lparr>
     mutationFn = (\<lambda>d. callData ''user/shares/create''
       (callReq ''POST'' ''/user/shares'' [] (shareJson d))),
     onSuccess = (\<lambda>_ _. [Invalidate [KS ''user'', KS ''shares'']])\<rparr>"

definition useRevokeUserShare :: "string mutation" where [hook_defs]:
  "useRevokeUserShare = \<lparr>
     mutationFn = (\<lambda>token. callData (''user/shares/revoke/'' @ token)
       (callReq ''DELETE'' ''/user/shares/{token}'' [(''token'', token)] JUndef)),
     onSuccess = (\<lambda>_ _. [Invalidate [KS ''user'', KS ''shares'']])\<rparr>"

section \<open>Share links, the public side\<close>

text \<open>\<open>token ?? "null"\<close>.\<close>

definition tokenSeg :: "string option \<Rightarrow> kseg" where [hook_defs]:
  "tokenSeg token = KS (case token of None \<Rightarrow> ''null'' | Some t \<Rightarrow> t)"

definition useShareInfo :: "string option \<Rightarrow> query" where [hook_defs]:
  "useShareInfo token =
     tries 1 (stale 30000 (enabledIf (present token)
       (mkQuery [KS ''share'', tokenSeg token, KS ''info'']
         (requireOr (present token) ''Token required''
           (awaitFetch (publicReq (''/share/'' @ enc (tpl token) @ ''/info'')) (\<lambda>res.
              if \<not> httpOk (rsStatus res) \<and> rsStatus res \<noteq> 404
              then Throw (apiError (''share/info/'' @ tpl token) (rsStatus res) (jsonOrEmpty res))
              else if \<not> httpOk (rsStatus res) \<and> rsStatus res = 404 then Ret JNull
              else awaitJson res))))))"

definition useShareAuth :: "(string \<times> string) mutation" where [hook_defs]:
  "useShareAuth = \<lparr>
     mutationFn = (\<lambda>(token, password).
       awaitFetch ((jsonReq ''POST'' (''/share/'' @ enc token @ ''/auth'')
           (JObj [(''password'', JStr password)]))\<lparr>rqCredentials := False\<rparr>) (\<lambda>res.
         if \<not> httpOk (rsStatus res) \<and> rsStatus res \<noteq> 200
         then Throw (apiError (''share/auth/'' @ token) (rsStatus res) (jsonOrEmpty res))
         else awaitJson res)),
     onSuccess = (\<lambda>_ _. [])\<rparr>"

definition useShareList :: "string option \<Rightarrow> string \<Rightarrow> query" where [hook_defs]:
  "useShareList token pre =
     tries 1 (stale 30000 (enabledIf (present token \<and> pre \<noteq> [])
       (mkQuery [KS ''share'', tokenSeg token, KS ''list'', KS pre]
         (requireOr (present token) ''Token required''
           (awaitFetch (publicReq (''/share/'' @ enc (tpl token) @ ''/list'' @
               queryString (if pre \<noteq> [] then [(''prefix'', pre)] else []))) (\<lambda>res.
              if \<not> httpOk (rsStatus res)
              then Throw (apiError (''share/list/'' @ tpl token) (rsStatus res) (jsonOrEmpty res))
              else awaitJson res))))))"

section \<open>Sync jobs\<close>

definition activeState :: "json \<Rightarrow> bool" where
  "activeState st \<longleftrightarrow> st = JStr ''running'' \<or> st = JStr ''queued''"

definition jobsActive :: "json \<Rightarrow> bool" where
  "jobsActive jobs = (case jobs of
     JArr js \<Rightarrow> list_ex (\<lambda>j. activeState (getProp j ''state'')) js | _ \<Rightarrow> False)"

definition useUserSyncs :: query where [hook_defs]:
  "useUserSyncs =
     tries 1 (pollWhen (\<lambda>jobs. if jobsActive jobs then Every 2000 else NoPoll)
       (stale 5000 (mkQuery [KS ''user'', KS ''syncs'']
         (callData ''user/syncs'' (callReq ''GET'' ''/user/syncs'' [] JUndef)))))"

definition useUserSync :: "string option \<Rightarrow> query" where [hook_defs]:
  "useUserSync i =
     tries 1 (pollWhen (\<lambda>job. if activeState (getProp job ''state'') then Every 2000 else NoPoll)
       (stale 5000 (enabledIf (present i) (mkQuery [KS ''user'', KS ''syncs'', knull i]
         (requireOr (present i) ''Sync ID required''
           (callData (''user/syncs/'' @ tpl i)
             (callReq ''GET'' ''/user/syncs/{id}'' [(''id'', tpl i)] JUndef)))))))"

definition useCreateUserSync :: "json mutation" where [hook_defs]:
  "useCreateUserSync = \<lparr>
     mutationFn = (\<lambda>d. callData ''user/syncs/create'' (callReq ''POST'' ''/user/syncs'' [] d)),
     onSuccess = (\<lambda>_ _. [Invalidate [KS ''user'', KS ''syncs'']])\<rparr>"

definition useDeleteUserSync :: "string mutation" where [hook_defs]:
  "useDeleteUserSync = \<lparr>
     mutationFn = (\<lambda>i. callOk crData (''user/syncs/delete/'' @ i)
       (callReq ''DELETE'' ''/user/syncs/{id}'' [(''id'', i)] JUndef)),
     onSuccess = (\<lambda>_ i. [Invalidate [KS ''user'', KS ''syncs''],
       RemoveQueries [KS ''user'', KS ''syncs'', KS i]])\<rparr>"

definition usePauseUserSync :: "string mutation" where [hook_defs]:
  "usePauseUserSync = \<lparr>
     mutationFn = (\<lambda>i. callData (''user/syncs/pause/'' @ i)
       (callReq ''POST'' ''/user/syncs/{id}/pause'' [(''id'', i)] JUndef)),
     onSuccess = (\<lambda>_ i. [Invalidate [KS ''user'', KS ''syncs''],
       Invalidate [KS ''user'', KS ''syncs'', KS i]])\<rparr>"

definition useResumeUserSync :: "string mutation" where [hook_defs]:
  "useResumeUserSync = \<lparr>
     mutationFn = (\<lambda>i. callData (''user/syncs/resume/'' @ i)
       (callReq ''POST'' ''/user/syncs/{id}/resume'' [(''id'', i)] JUndef)),
     onSuccess = (\<lambda>_ i. [Invalidate [KS ''user'', KS ''syncs''],
       Invalidate [KS ''user'', KS ''syncs'', KS i]])\<rparr>"

interpretation syncs: editable_collection "queryKey useUserSyncs" "\<lambda>i. queryKey (useUserSync (Some i))"
    "\<lambda>d. onSuccess useCreateUserSync d c" "\<lambda>i. onSuccess useDeleteUserSync d i"
    "\<lambda>i. onSuccess usePauseUserSync d i" for c d
  by unfold_locales (simp_all add: hook_defs)

section \<open>The claims\<close>

text \<open>
  Sync jobs are polled every two seconds exactly while one of them is running or queued; a list
  of settled jobs, an empty list, or no data yet is not polled, and the list polls whenever a single
  job it contains would.
\<close>

theorem sync_polling_follows_activity:
  "(qPoll useUserSyncs jobs = Every 2000 \<longleftrightarrow>
      (\<exists>js j. jobs = JArr js \<and> j \<in> set js \<and> qPoll (useUserSync i) j = Every 2000)) \<and>
   (qPoll useUserSyncs jobs = Every 2000 \<or> qPoll useUserSyncs jobs = NoPoll) \<and>
   (qPoll (useUserSync i) job = Every 2000 \<longleftrightarrow>
      getProp job ''state'' = JStr ''running'' \<or> getProp job ''state'' = JStr ''queued'')"
  by (cases jobs) (auto simp: useUserSyncs_def useUserSync_def jobsActive_def activeState_def list_ex_iff)

text \<open>
  The public share page asks once, with no credentials option, and tells an unknown link from a
  failure: 404 is "no such share", every other refusal is an error with its status, and a share
  without a token is never requested.
\<close>

theorem share_info_outcomes:
  "run (queryFn (useShareInfo token)) b [] =
     (if \<not> present token then ([], Inl (PlainError ''Token required''))
      else (let q = publicReq (''/share/'' @ enc (the token) @ ''/info'') in
        ([RFetch q],
         case onFetch b [] q of
           None \<Rightarrow> Inl NetworkError
         | Some res \<Rightarrow>
             if rsStatus res = 404 then Inr JNull
             else if httpOk (rsStatus res) then
               (case rsBody res of None \<Rightarrow> Inl (PlainError ''invalid JSON'') | Some j \<Rightarrow> Inr j)
             else Inl (apiError (''share/info/'' @ the token) (rsStatus res)
               (case rsBody res of None \<Rightarrow> JObj [] | Some j \<Rightarrow> j)))))"
proof (cases token)
  case None
  then show ?thesis by (simp add: useShareInfo_def run_requireOr)
next
  case (Some t)
  have "\<not> httpOk 404" by (simp add: httpOk_def)
  then show ?thesis
    using Some
    by (cases "onFetch b [] (publicReq (''/share/'' @ enc t @ ''/info''))")
       (auto simp: useShareInfo_def run_requireOr awaitFetch_def awaitJson_def jsonOrEmpty_def Let_def
          split: option.splits)
qed

end
