(* ===== verification/Replication_Hooks.thy ===== *)
theory Replication_Hooks
  imports Query_Model
begin

text \<open>
  Scheduled backups, federated (replicated) buckets and webhooks (\<open>shared/api/queries.ts\<close>). Each is an
  editable collection: a list query, an item query below it, and writes that outdate both.
\<close>

section \<open>Backups\<close>

definition useUserBackups :: query where [hook_defs]:
  "useUserBackups =
     tries 1 (every 10000 (stale 10000 (mkQuery [KS ''user'', KS ''backups'']
       (callData ''user/backups'' (callReq ''GET'' ''/user/backups'' [] JUndef)))))"

definition useUserBackup :: "string option \<Rightarrow> query" where [hook_defs]:
  "useUserBackup i =
     tries 1 (every 5000 (stale 5000 (enabledIf (present i)
       (mkQuery [KS ''user'', KS ''backups'', knull i]
         (requireOr (present i) ''Backup ID required''
           (callData (''user/backups/'' @ tpl i)
             (callReq ''GET'' ''/user/backups/{id}'' [(''id'', tpl i)] JUndef)))))))"

definition useCreateUserBackup :: "json mutation" where [hook_defs]:
  "useCreateUserBackup = \<lparr>
     mutationFn = (\<lambda>body. callData ''user/backups/create'' (callReq ''POST'' ''/user/backups'' [] body)),
     onSuccess = (\<lambda>_ _. [Invalidate [KS ''user'', KS ''backups'']])\<rparr>"

definition useUpdateUserBackup :: "(string \<times> json) mutation" where [hook_defs]:
  "useUpdateUserBackup = \<lparr>
     mutationFn = (\<lambda>(i, body). callData (''user/backups/update/'' @ i)
       (callReq ''PUT'' ''/user/backups/{id}'' [(''id'', i)] body)),
     onSuccess = (\<lambda>_ (i, _). [Invalidate [KS ''user'', KS ''backups''],
       Invalidate [KS ''user'', KS ''backups'', KS i]])\<rparr>"

definition useDeleteUserBackup :: "string mutation" where [hook_defs]:
  "useDeleteUserBackup = \<lparr>
     mutationFn = (\<lambda>i. callOk (\<lambda>_. JNull) (''user/backups/delete/'' @ i)
       (callReq ''DELETE'' ''/user/backups/{id}'' [(''id'', i)] JUndef)),
     onSuccess = (\<lambda>_ i. [Invalidate [KS ''user'', KS ''backups''],
       RemoveQueries [KS ''user'', KS ''backups'', KS i]])\<rparr>"

definition useRunUserBackup :: "string mutation" where [hook_defs]:
  "useRunUserBackup = \<lparr>
     mutationFn = (\<lambda>i. callData (''user/backups/run/'' @ i)
       (callReq ''POST'' ''/user/backups/{id}/run'' [(''id'', i)] JUndef)),
     onSuccess = (\<lambda>_ i. [Invalidate [KS ''user'', KS ''backups''],
       Invalidate [KS ''user'', KS ''backups'', KS i]])\<rparr>"

definition useRestoreUserBackup :: "(string \<times> json) mutation" where [hook_defs]:
  "useRestoreUserBackup = \<lparr>
     mutationFn = (\<lambda>(i, body). callData (''user/backups/restore/'' @ i)
       (callReq ''POST'' ''/user/backups/{id}/restore'' [(''id'', i)] body)),
     onSuccess = (\<lambda>_ (i, _). [Invalidate [KS ''user'', KS ''backups'', KS i, KS ''snapshots'']])\<rparr>"

definition useUserBackupSnapshots :: "string option \<Rightarrow> bool \<Rightarrow> query" where [hook_defs]:
  "useUserBackupSnapshots i enabled =
     tries 1 (every 10000 (stale 5000 (enabledIf (present i \<and> enabled)
       (mkQuery [KS ''user'', KS ''backups'', knull i, KS ''snapshots'']
         (requireOr (present i) ''Backup ID required''
           (callData (''user/backups/'' @ tpl i @ ''/snapshots'')
             (callReq ''GET'' ''/user/backups/{id}/snapshots'' [(''id'', tpl i)] JUndef)))))))"

interpretation backups: editable_collection "queryKey useUserBackups"
    "\<lambda>i. queryKey (useUserBackup (Some i))" "\<lambda>d. onSuccess useCreateUserBackup d c"
    "\<lambda>i. onSuccess useDeleteUserBackup d i" "\<lambda>i. onSuccess useUpdateUserBackup d (i, c)" for c d
  by unfold_locales (simp_all add: hook_defs)

section \<open>Federated buckets\<close>

record FederationTarget =
  ftRegionId :: string
  ftBucket :: string

record FederationPolicy =
  fpSyncMode :: string
  fpSchedule :: "string option"
  fpLagAlertSec :: int
  fpWriteQuorum :: int
  fpAutoFailover :: "bool option"
  fpAutoFailoverSec :: "int option"

record FederatedBucketCreateRequest =
  fcName :: string
  fcPrimary :: FederationTarget
  fcReplicas :: "FederationTarget list"
  fcPolicy :: "FederationPolicy option"

definition targetJson :: "FederationTarget \<Rightarrow> json" where
  "targetJson t = JObj [(''regionId'', JStr (ftRegionId t)), (''bucket'', JStr (ftBucket t))]"

definition policyJson :: "FederationPolicy \<Rightarrow> json" where
  "policyJson p = jobj
     [(''syncMode'', JStr (fpSyncMode p)), (''schedule'', optStr (fpSchedule p)),
      (''lagAlertSec'', JNum (fpLagAlertSec p)), (''writeQuorum'', JNum (fpWriteQuorum p)),
      (''autoFailover'', optBool (fpAutoFailover p)),
      (''autoFailoverSec'', optNum (fpAutoFailoverSec p))]"

definition federationJson :: "FederatedBucketCreateRequest \<Rightarrow> json" where
  "federationJson r = jobj
     [(''name'', JStr (fcName r)), (''primary'', targetJson (fcPrimary r)),
      (''replicas'', JArr (map targetJson (fcReplicas r))),
      (''policy'', case fcPolicy r of None \<Rightarrow> JUndef | Some p \<Rightarrow> policyJson p)]"

definition federationPath :: "string \<Rightarrow> string" where [hook_defs]:
  "federationPath i = ''/user/federated-buckets/'' @ enc i"

definition useFederations :: query where [hook_defs]:
  "useFederations =
     tries 1 (every 10000 (stale 5000 (mkQuery [KS ''user'', KS ''federations'']
       (bindJs (fetchJson ''user/federated-buckets'' (getReq ''/user/federated-buckets'')) (\<lambda>body.
          Ret (orElse body (JArr [])))))))"

definition useFederation :: "string option \<Rightarrow> query" where [hook_defs]:
  "useFederation i =
     tries 1 (every 5000 (stale 2000 (enabledIf (present i)
       (mkQuery [KS ''user'', KS ''federations'', knull i]
         (requireOr (present i) ''Federation ID required''
           (fetchJson (''user/federated-buckets/'' @ tpl i) (getReq (federationPath (tpl i)))))))))"

definition useCreateFederation :: "FederatedBucketCreateRequest mutation" where [hook_defs]:
  "useCreateFederation = \<lparr>
     mutationFn = (\<lambda>body. fetchJson ''user/federated-buckets/create''
       (jsonReq ''POST'' ''/user/federated-buckets'' (federationJson body))),
     onSuccess = (\<lambda>_ _. [Invalidate [KS ''user'', KS ''federations''],
       Invalidate [KS ''federation-by-target'']])\<rparr>"

definition useUpdateFederation :: "(string \<times> FederatedBucketCreateRequest) mutation" where [hook_defs]:
  "useUpdateFederation = \<lparr>
     mutationFn = (\<lambda>(i, body). fetchJson (''user/federated-buckets/update/'' @ i)
       (jsonReq ''PUT'' (federationPath i) (federationJson body))),
     onSuccess = (\<lambda>_ (i, _). [Invalidate [KS ''user'', KS ''federations''],
       Invalidate [KS ''user'', KS ''federations'', KS i], Invalidate [KS ''federation-by-target'']])\<rparr>"

definition useDeleteFederation :: "string mutation" where [hook_defs]:
  "useDeleteFederation = \<lparr>
     mutationFn = (\<lambda>i. fetchVoid JUndef (''user/federated-buckets/delete/'' @ i)
       (bareReq ''DELETE'' (federationPath i))),
     onSuccess = (\<lambda>_ i. [Invalidate [KS ''user'', KS ''federations''],
       RemoveQueries [KS ''user'', KS ''federations'', KS i],
       Invalidate [KS ''federation-by-target'']])\<rparr>"

record FederationFailoverRequest =
  ffRegionId :: string
  ffBucket :: string

definition useFailoverFederation :: "(string \<times> FederationFailoverRequest) mutation" where [hook_defs]:
  "useFailoverFederation = \<lparr>
     mutationFn = (\<lambda>(i, body). fetchJson (''user/federated-buckets/failover/'' @ i)
       (jsonReq ''POST'' (federationPath i @ ''/failover'')
         (JObj [(''newPrimaryRegionId'', JStr (ffRegionId body)),
           (''newPrimaryBucket'', JStr (ffBucket body))]))),
     onSuccess = (\<lambda>_ (i, _). [Invalidate [KS ''user'', KS ''federations''],
       Invalidate [KS ''user'', KS ''federations'', KS i], Invalidate [KS ''federation-by-target'']])\<rparr>"

definition useFederationByTarget :: "string \<Rightarrow> string option \<Rightarrow> query" where [hook_defs]:
  "useFederationByTarget regionId bucket =
     tries 0 (stale 30000 (enabledIf (present bucket)
       (mkQuery [KS ''federation-by-target'', KS regionId, kundef bucket]
         (if \<not> present bucket then Ret JNull
          else awaitFetch (getReq (''/user/federated-buckets/by-target?regionId='' @ enc regionId @
              ''&bucket='' @ enc (tpl bucket))) (\<lambda>res.
            if rsStatus res = 204 then Ret JNull
            else if \<not> httpOk (rsStatus res)
              then Throw (apiError ''federation-by-target'' (rsStatus res) (jsonOrNull res))
            else awaitJson res)))))"

definition useResyncFederation :: "string mutation" where [hook_defs]:
  "useResyncFederation = \<lparr>
     mutationFn = (\<lambda>i. fetchJson (''user/federated-buckets/resync/'' @ i)
       (emptyReq ''POST'' (federationPath i @ ''/resync''))),
     onSuccess = (\<lambda>_ i. [Invalidate [KS ''user'', KS ''federations'', KS i]])\<rparr>"

interpretation federations: editable_collection "queryKey useFederations"
    "\<lambda>i. queryKey (useFederation (Some i))" "\<lambda>d. onSuccess useCreateFederation d c"
    "\<lambda>i. onSuccess useDeleteFederation d i" "\<lambda>i. onSuccess useUpdateFederation d (i, c)" for c d
  by unfold_locales (simp_all add: hook_defs)

section \<open>Webhooks\<close>

definition WEBHOOK_EVENT_TYPES :: "string list" where
  "WEBHOOK_EVENT_TYPES = [''object.created'', ''object.deleted'', ''object.modified'']"

record WebhookBucketFilter =
  wfRegionId :: string
  wfBucket :: string

record WebhookCreateRequest =
  wcName :: string
  wcTargetUrl :: string
  wcEvents :: "string list"
  wcBucketFilter :: "WebhookBucketFilter option"
  wcPrefixFilter :: "string option"
  wcSecret :: "string option"
  wcEnabled :: "bool option"

definition webhookJson :: "WebhookCreateRequest \<Rightarrow> json" where
  "webhookJson r = jobj
     [(''name'', JStr (wcName r)), (''targetUrl'', JStr (wcTargetUrl r)),
      (''events'', JArr (map JStr (wcEvents r))),
      (''bucketFilter'', case wcBucketFilter r of None \<Rightarrow> JUndef
         | Some f \<Rightarrow> JObj [(''regionId'', JStr (wfRegionId f)), (''bucket'', JStr (wfBucket f))]),
      (''prefixFilter'', optStr (wcPrefixFilter r)), (''secret'', optStr (wcSecret r)),
      (''enabled'', optBool (wcEnabled r))]"

definition webhookPath :: "string \<Rightarrow> string" where [hook_defs]:
  "webhookPath i = ''/user/webhooks/'' @ enc i"

definition useWebhooks :: query where [hook_defs]:
  "useWebhooks =
     tries 1 (every 10000 (stale 5000 (mkQuery [KS ''user'', KS ''webhooks'']
       (bindJs (fetchJson ''user/webhooks'' (getReq ''/user/webhooks'')) (\<lambda>body.
          Ret (orElse body (JArr [])))))))"

definition useWebhook :: "string option \<Rightarrow> query" where [hook_defs]:
  "useWebhook i =
     tries 1 (every 5000 (stale 2000 (enabledIf (present i)
       (mkQuery [KS ''user'', KS ''webhooks'', knull i]
         (requireOr (present i) ''Webhook ID required''
           (fetchJson (''user/webhooks/'' @ tpl i) (getReq (webhookPath (tpl i)))))))))"

definition useCreateWebhook :: "WebhookCreateRequest mutation" where [hook_defs]:
  "useCreateWebhook = \<lparr>
     mutationFn = (\<lambda>body. fetchJson ''user/webhooks/create''
       (jsonReq ''POST'' ''/user/webhooks'' (webhookJson body))),
     onSuccess = (\<lambda>_ _. [Invalidate [KS ''user'', KS ''webhooks'']])\<rparr>"

definition useUpdateWebhook :: "(string \<times> WebhookCreateRequest) mutation" where [hook_defs]:
  "useUpdateWebhook = \<lparr>
     mutationFn = (\<lambda>(i, body). fetchJson (''user/webhooks/update/'' @ i)
       (jsonReq ''PUT'' (webhookPath i) (webhookJson body))),
     onSuccess = (\<lambda>_ (i, _). [Invalidate [KS ''user'', KS ''webhooks''],
       Invalidate [KS ''user'', KS ''webhooks'', KS i]])\<rparr>"

definition useDeleteWebhook :: "string mutation" where [hook_defs]:
  "useDeleteWebhook = \<lparr>
     mutationFn = (\<lambda>i. fetchVoid JUndef (''user/webhooks/delete/'' @ i)
       (bareReq ''DELETE'' (webhookPath i))),
     onSuccess = (\<lambda>_ i. [Invalidate [KS ''user'', KS ''webhooks''],
       RemoveQueries [KS ''user'', KS ''webhooks'', KS i]])\<rparr>"

definition useTestWebhook :: "string mutation" where [hook_defs]:
  "useTestWebhook = \<lparr>
     mutationFn = (\<lambda>i. fetchJson (''user/webhooks/test/'' @ i) (emptyReq ''POST'' (webhookPath i @ ''/test''))),
     onSuccess = (\<lambda>_ i. [Invalidate [KS ''user'', KS ''webhooks'', KS i]])\<rparr>"

definition useEnableWebhook :: "string mutation" where [hook_defs]:
  "useEnableWebhook = \<lparr>
     mutationFn = (\<lambda>i. fetchJson (''user/webhooks/enable/'' @ i)
       (emptyReq ''POST'' (webhookPath i @ ''/enable''))),
     onSuccess = (\<lambda>_ i. [Invalidate [KS ''user'', KS ''webhooks''],
       Invalidate [KS ''user'', KS ''webhooks'', KS i]])\<rparr>"

definition useDisableWebhook :: "string mutation" where [hook_defs]:
  "useDisableWebhook = \<lparr>
     mutationFn = (\<lambda>i. fetchJson (''user/webhooks/disable/'' @ i)
       (emptyReq ''POST'' (webhookPath i @ ''/disable''))),
     onSuccess = (\<lambda>_ i. [Invalidate [KS ''user'', KS ''webhooks''],
       Invalidate [KS ''user'', KS ''webhooks'', KS i]])\<rparr>"

interpretation webhooks: editable_collection "queryKey useWebhooks"
    "\<lambda>i. queryKey (useWebhook (Some i))" "\<lambda>d. onSuccess useCreateWebhook d c"
    "\<lambda>i. onSuccess useDeleteWebhook d i" "\<lambda>i. onSuccess useUpdateWebhook d (i, c)" for c d
  by unfold_locales (simp_all add: hook_defs)

section \<open>The claims\<close>

text \<open>
  Every change of a federation (create, update, delete, failover) outdates the federation list and
  the badge a bucket page looks up by its target, for every region and bucket; a resync outdates only
  the federation itself.
\<close>

theorem federation_changes_reach_the_badge:
  "list_all (\<lambda>es. covers es (queryKey useFederations) \<and> covers es (queryKey (useFederation (Some j))) \<and>
       covers es (queryKey (useFederationByTarget r k)))
     [onSuccess useCreateFederation d c, onSuccess useUpdateFederation d (i, c),
      onSuccess useDeleteFederation d i, onSuccess useFailoverFederation d (i, f)] \<and>
   covers (onSuccess useResyncFederation d i) (queryKey (useFederation (Some i))) \<and>
   \<not> covers (onSuccess useResyncFederation d i) (queryKey useFederations) \<and>
   \<not> covers (onSuccess useResyncFederation d i) (queryKey (useFederationByTarget r k))"
  by (simp add: hook_defs)

end
