(* ===== verification/Admin_Hooks.thy ===== *)
theory Admin_Hooks
  imports Query_Model
begin

text \<open>
  The platform side of \<open>shared/api/queries.ts\<close>: roles and assignments, the policy simulator, OIDC
  group mappings, usage statistics, the audit log, invites and service accounts. The clock and the
  ISO formatting of a date (\<open>Date\<close>) are parameters of the one hook that reads them.
\<close>

section \<open>Policies\<close>

record PolicyRole =
  plId :: string
  plLabel :: string
  plDescription :: string
  plCapabilities :: "string list"
  plSeed :: "bool option"
  plDeprecated :: "bool option"

definition roleJson :: "PolicyRole \<Rightarrow> json" where
  "roleJson r = jobj
     [(''id'', JStr (plId r)), (''label'', JStr (plLabel r)),
      (''description'', JStr (plDescription r)),
      (''capabilities'', JArr (map JStr (plCapabilities r))),
      (''seed'', optBool (plSeed r)), (''deprecated'', optBool (plDeprecated r))]"

record PolicyAssignment =
  paUserId :: string
  paRoleId :: string
  paScope :: string

definition assignmentJson :: "PolicyAssignment \<Rightarrow> json" where
  "assignmentJson a = JObj [(''userId'', JStr (paUserId a)), (''roleId'', JStr (paRoleId a)),
     (''scope'', JStr (paScope a))]"

definition usePolicies :: query where [hook_defs]:
  "usePolicies = stale 30000 (mkQuery [KS ''admin'', KS ''policies'']
     (fetchJson ''admin/policies'' (getReq ''/admin/policies'')))"

definition useUpsertRole :: "PolicyRole mutation" where [hook_defs]:
  "useUpsertRole = \<lparr>
     mutationFn = (\<lambda>role. fetchJson (''admin/policies/roles/upsert/'' @ plId role)
       (jsonReq ''POST'' ''/admin/policies/roles'' (roleJson role))),
     onSuccess = (\<lambda>_ _. [Invalidate [KS ''admin'', KS ''policies'']])\<rparr>"

definition useDeleteRole :: "string mutation" where [hook_defs]:
  "useDeleteRole = \<lparr>
     mutationFn = (\<lambda>i. fetchVoid JNull (''admin/policies/roles/delete/'' @ i)
       (bareReq ''DELETE'' (''/admin/policies/roles/'' @ enc i))),
     onSuccess = (\<lambda>_ _. [Invalidate [KS ''admin'', KS ''policies'']])\<rparr>"

definition useAssignRole :: "PolicyAssignment mutation" where [hook_defs]:
  "useAssignRole = \<lparr>
     mutationFn = (\<lambda>a. fetchJson ''admin/policies/assignments/assign''
       (jsonReq ''POST'' ''/admin/policies/assignments'' (assignmentJson a))),
     onSuccess = (\<lambda>_ _. [Invalidate [KS ''admin'', KS ''policies''],
       Invalidate [KS ''admin'', KS ''clusters'']])\<rparr>"

definition assignmentParams :: "PolicyAssignment \<Rightarrow> (string \<times> string) list" where
  "assignmentParams a =
     [(''userId'', paUserId a), (''roleId'', paRoleId a), (''scope'', paScope a)]"

definition useUnassignRole :: "PolicyAssignment mutation" where [hook_defs]:
  "useUnassignRole = \<lparr>
     mutationFn = (\<lambda>a. fetchVoid JNull ''admin/policies/assignments/unassign''
       (bareReq ''DELETE'' (''/admin/policies/assignments?'' @ searchParams (assignmentParams a)))),
     onSuccess = (\<lambda>_ _. [Invalidate [KS ''admin'', KS ''policies''],
       Invalidate [KS ''admin'', KS ''clusters'']])\<rparr>"

record SimulateRequest =
  smUserId :: string
  smCapability :: string
  smScope :: string

definition useSimulatePolicy :: "SimulateRequest mutation" where [hook_defs]:
  "useSimulatePolicy = \<lparr>
     mutationFn = (\<lambda>r. fetchJson ''admin/policies/simulate''
       (jsonReq ''POST'' ''/admin/policies/simulate''
         (JObj [(''userId'', JStr (smUserId r)), (''capability'', JStr (smCapability r)),
           (''scope'', JStr (smScope r))]))),
     onSuccess = (\<lambda>_ _. [])\<rparr>"

record OIDCGroupMapping =
  ogClaim :: string
  ogClaimValue :: string
  ogRoleId :: string
  ogScope :: string

definition mappingJson :: "OIDCGroupMapping \<Rightarrow> json" where
  "mappingJson m = JObj [(''claim'', JStr (ogClaim m)), (''claimValue'', JStr (ogClaimValue m)),
     (''roleId'', JStr (ogRoleId m)), (''scope'', JStr (ogScope m))]"

definition useOIDCGroupMappings :: query where [hook_defs]:
  "useOIDCGroupMappings = stale 30000 (mkQuery [KS ''admin'', KS ''oidc-group-mappings'']
     (fetchJson ''admin/oidc-group-mappings'' (getReq ''/admin/oidc-group-mappings'')))"

definition useUpdateOIDCGroupMappings :: "OIDCGroupMapping list mutation" where [hook_defs]:
  "useUpdateOIDCGroupMappings = \<lparr>
     mutationFn = (\<lambda>ms. fetchJson ''admin/oidc-group-mappings/put''
       (jsonReq ''PUT'' ''/admin/oidc-group-mappings''
         (JObj [(''mappings'', JArr (map mappingJson ms))]))),
     onSuccess = (\<lambda>_ _. [Invalidate [KS ''admin'', KS ''oidc-group-mappings'']])\<rparr>"

section \<open>Usage\<close>

definition useUsageOverview :: query where [hook_defs]:
  "useUsageOverview =
     tries 1 (every 60000 (stale 30000 (mkQuery [KS ''admin'', KS ''usage'', KS ''overview'']
       (fetchJson ''admin/usage/overview'' (getReq ''/admin/usage/overview'')))))"

text \<open>
  The third argument is a flag or an options object \<open>{enabled?, rangeDays?}\<close>. The window is sent only
  for a positive range: \<open>now\<close> is the clock when the query runs, in milliseconds.
\<close>

definition seriesParams ::
  "(int \<Rightarrow> string) \<Rightarrow> int \<Rightarrow> string \<Rightarrow> string \<Rightarrow> int option \<Rightarrow> (string \<times> string) list" where
  "seriesParams toISOString now cid bid rangeDays =
     [(''cid'', cid), (''bid'', bid)] @
     (case rangeDays of
        None \<Rightarrow> []
      | Some d \<Rightarrow> if d \<noteq> 0 \<and> d > 0
          then [(''from'', toISOString (now - d * 24 * 60 * 60 * 1000)), (''to'', toISOString now)]
          else [])"

definition useUsageSeries ::
  "(int \<Rightarrow> string) \<Rightarrow> int \<Rightarrow> string \<Rightarrow> string \<Rightarrow> bool + (bool option \<times> int option) \<Rightarrow> query" where [hook_defs]:
  "useUsageSeries toISOString now cid bid enabledOrOpts =
     (let opts = (case enabledOrOpts of Inl b \<Rightarrow> (Some b, None) | Inr os \<Rightarrow> os);
          enabled = (case fst opts of None \<Rightarrow> True | Some b \<Rightarrow> b);
          rangeDays = snd opts
      in tries 1 (stale 60000 (enabledIf (enabled \<and> cid \<noteq> [] \<and> bid \<noteq> [])
           (mkQuery [KS ''admin'', KS ''usage'', KS ''series'', KS cid, KS bid,
               (case rangeDays of None \<Rightarrow> KS ''default'' | Some d \<Rightarrow> KNum d)]
             (fetchJson ''admin/usage/series'' (getReq (''/admin/usage/series?'' @
                searchParams (seriesParams toISOString now cid bid rangeDays))))))))"

section \<open>Audit\<close>

text \<open>The filter object: its entries in order. An entry that is undefined, null or empty is left out.\<close>

type_synonym AuditFilter = "(string \<times> json) list"

definition auditParams :: "AuditFilter \<Rightarrow> (string \<times> string) list" where
  "auditParams f = map (\<lambda>(k, v). (k, toStr v))
     (filter (\<lambda>(k, v). v \<noteq> JUndef \<and> v \<noteq> JStr [] \<and> v \<noteq> JNull) f)"

definition useAudit :: "AuditFilter \<Rightarrow> query" where [hook_defs]:
  "useAudit f = stale 10000 (mkQuery [KS ''admin'', KS ''audit'', KObj (JObj f)]
     (fetchJson ''admin/audit'' (getReq (''/admin/audit'' @ queryString (auditParams f)))))"

section \<open>Invites\<close>

definition useInvites :: query where [hook_defs]:
  "useInvites = stale 5000 (mkQuery [KS ''admin'', KS ''invites'']
     (fetchJson ''admin/invites'' (getReq ''/admin/invites'')))"

definition useCreateInvite :: "(string option \<times> int option) mutation" where [hook_defs]:
  "useCreateInvite = \<lparr>
     mutationFn = (\<lambda>(label, ttlHours). fetchJson ''admin/invites/create''
       (jsonReq ''POST'' ''/admin/invites''
         (jobj [(''label'', optStr label), (''ttlHours'', optNum ttlHours)]))),
     onSuccess = (\<lambda>_ _. [Invalidate [KS ''admin'', KS ''invites'']])\<rparr>"

definition useRevokeInvite :: "string mutation" where [hook_defs]:
  "useRevokeInvite = \<lparr>
     mutationFn = (\<lambda>i. fetchVoid JUndef (''admin/invites/revoke/'' @ i)
       (bareReq ''DELETE'' (''/admin/invites/'' @ enc i))),
     onSuccess = (\<lambda>_ _. [Invalidate [KS ''admin'', KS ''invites'']])\<rparr>"

definition useRotateInvite :: "(string \<times> int option) mutation" where [hook_defs]:
  "useRotateInvite = \<lparr>
     mutationFn = (\<lambda>(i, ttlHours). fetchJson (''admin/invites/rotate/'' @ i)
       (jsonReq ''POST'' (''/admin/invites/'' @ enc i @ ''/rotate'')
         (jobj [(''ttlHours'', optNum ttlHours)]))),
     onSuccess = (\<lambda>_ _. [Invalidate [KS ''admin'', KS ''invites'']])\<rparr>"

section \<open>Service accounts\<close>

type_synonym ServiceAccountCapability = "string \<times> string"

definition saCapabilityJson :: "ServiceAccountCapability \<Rightarrow> json" where
  "saCapabilityJson c = JObj [(''id'', JStr (fst c)), (''scope'', JStr (snd c))]"

text \<open>\<open>expiresAt\<close> may be left out (\<open>None\<close>), null (\<open>Some None\<close>) or a time stamp.\<close>

definition optNullStr :: "string option option \<Rightarrow> json" where
  "optNullStr x = (case x of None \<Rightarrow> JUndef | Some None \<Rightarrow> JNull | Some (Some s) \<Rightarrow> JStr s)"

record CreateServiceAccountRequest =
  csName :: string
  csCapabilities :: "ServiceAccountCapability list"
  csScopes :: "string list"
  csExpiresAt :: "string option option"

definition createAccountJson :: "CreateServiceAccountRequest \<Rightarrow> json" where
  "createAccountJson r = jobj [(''name'', JStr (csName r)),
     (''capabilities'', JArr (map saCapabilityJson (csCapabilities r))),
     (''scopes'', JArr (map JStr (csScopes r))), (''expiresAt'', optNullStr (csExpiresAt r))]"

record UpdateServiceAccountRequest =
  usName :: "string option"
  usCapabilities :: "ServiceAccountCapability list option"
  usScopes :: "string list option"
  usExpiresAt :: "string option option"

definition updateAccountJson :: "UpdateServiceAccountRequest \<Rightarrow> json" where
  "updateAccountJson r = jobj [(''name'', optStr (usName r)),
     (''capabilities'', case usCapabilities r of None \<Rightarrow> JUndef
        | Some cs \<Rightarrow> JArr (map saCapabilityJson cs)),
     (''scopes'', case usScopes r of None \<Rightarrow> JUndef | Some ss \<Rightarrow> JArr (map JStr ss)),
     (''expiresAt'', optNullStr (usExpiresAt r))]"

definition accountPath :: "string \<Rightarrow> string" where [hook_defs]:
  "accountPath i = ''/admin/service-accounts/'' @ enc i"

definition useServiceAccounts :: query where [hook_defs]:
  "useServiceAccounts = stale 30000 (mkQuery [KS ''admin'', KS ''service-accounts'']
     (bindJs (fetchJson ''admin/service-accounts'' (getReq ''/admin/service-accounts'')) (\<lambda>body.
        Ret (orElse body (JArr [])))))"

definition useServiceAccount :: "string option \<Rightarrow> query" where [hook_defs]:
  "useServiceAccount i =
     stale 30000 (enabledIf (present i) (mkQuery [KS ''admin'', KS ''service-accounts'', knull i]
       (fetchJson (''admin/service-accounts/'' @ tpl i) (getReq (accountPath (tpl i))))))"

definition useCreateServiceAccount :: "CreateServiceAccountRequest mutation" where [hook_defs]:
  "useCreateServiceAccount = \<lparr>
     mutationFn = (\<lambda>r. fetchJson ''admin/service-accounts/create''
       (jsonReq ''POST'' ''/admin/service-accounts'' (createAccountJson r))),
     onSuccess = (\<lambda>_ _. [Invalidate [KS ''admin'', KS ''service-accounts'']])\<rparr>"

definition useUpdateServiceAccount :: "(string \<times> UpdateServiceAccountRequest) mutation" where [hook_defs]:
  "useUpdateServiceAccount = \<lparr>
     mutationFn = (\<lambda>(i, patch). fetchJson (''admin/service-accounts/update/'' @ i)
       (jsonReq ''PUT'' (accountPath i) (updateAccountJson patch))),
     onSuccess = (\<lambda>_ (i, _). [Invalidate [KS ''admin'', KS ''service-accounts''],
       Invalidate [KS ''admin'', KS ''service-accounts'', KS i]])\<rparr>"

definition useDeleteServiceAccount :: "string mutation" where [hook_defs]:
  "useDeleteServiceAccount = \<lparr>
     mutationFn = (\<lambda>i. fetchVoid JNull (''admin/service-accounts/delete/'' @ i)
       (bareReq ''DELETE'' (accountPath i))),
     onSuccess = (\<lambda>_ i. [Invalidate [KS ''admin'', KS ''service-accounts''],
       RemoveQueries [KS ''admin'', KS ''service-accounts'', KS i]])\<rparr>"

definition useRotateServiceAccount :: "string mutation" where [hook_defs]:
  "useRotateServiceAccount = \<lparr>
     mutationFn = (\<lambda>i. fetchJson (''admin/service-accounts/rotate/'' @ i)
       (emptyReq ''POST'' (accountPath i @ ''/rotate''))),
     onSuccess = (\<lambda>_ i. [Invalidate [KS ''admin'', KS ''service-accounts''],
       Invalidate [KS ''admin'', KS ''service-accounts'', KS i]])\<rparr>"

interpretation accounts: editable_collection "queryKey useServiceAccounts"
    "\<lambda>i. queryKey (useServiceAccount (Some i))" "\<lambda>d. onSuccess useCreateServiceAccount d c"
    "\<lambda>i. onSuccess useDeleteServiceAccount d i" "\<lambda>i. onSuccess useUpdateServiceAccount d (i, u)"
  for c d u
  by unfold_locales (simp_all add: hook_defs)

section \<open>The claims\<close>

text \<open>
  An update of a service account sends exactly the fields the form changed: a field left out is
  absent from the body, a cleared expiry is an explicit null, and an untouched form sends an empty
  object.
\<close>

theorem account_update_sends_only_changes:
  "(getProp (updateAccountJson u) ''expiresAt'' = JNull \<longleftrightarrow> usExpiresAt u = Some None) \<and>
   (hasProp (updateAccountJson u) ''expiresAt'' \<longleftrightarrow> usExpiresAt u \<noteq> None) \<and>
   (hasProp (updateAccountJson u) ''name'' \<longleftrightarrow> usName u \<noteq> None) \<and>
   (hasProp (updateAccountJson u) ''scopes'' \<longleftrightarrow> usScopes u \<noteq> None) \<and>
   (hasProp (updateAccountJson u) ''capabilities'' \<longleftrightarrow> usCapabilities u \<noteq> None)"
  by (cases "usName u"; cases "usCapabilities u"; cases "usScopes u"; cases "usExpiresAt u";
      cases "the (usExpiresAt u)")
     (simp_all add: updateAccountJson_def jobj_def optStr_def optNullStr_def)

text \<open>
  Removing a role assignment names the user, the role and the scope in the query string, each form
  encoded, in one DELETE without a body, and on success outdates the policies and every cluster view.
\<close>

theorem unassign_names_its_assignment:
  "fst (run (mutationFn useUnassignRole a) b []) = [RFetch (bareReq ''DELETE''
     (''/admin/policies/assignments?userId='' @ formEncode (paUserId a) @ ''&roleId='' @
        formEncode (paRoleId a) @ ''&scope='' @ formEncode (paScope a)))] \<and>
   covers (onSuccess useUnassignRole d a) (queryKey usePolicies) \<and>
   covers (onSuccess useUnassignRole d a) (KS ''admin'' # KS ''clusters'' # KS cid # rest)"
proof -
  have "formEncode ''userId'' = ''userId''" "formEncode ''roleId'' = ''roleId''"
    "formEncode ''scope'' = ''scope''" by code_simp+
  then show ?thesis
    by (simp add: hook_defs run_fetchVoid searchParams_def assignmentParams_def)
qed

end
