(* ===== verification/Cache_Keys.thy ===== *)
theory Cache_Keys
  imports Session Cluster_Hooks Bucket_Hooks Share_Hooks Replication_Hooks Admin_Hooks
begin

text \<open>
  The query cache is one table shared by every hook, indexed by query key. Here the queries of all
  hooks are collected, in five families by the first two segments of their keys, to show that two
  queries that are switched on and share a key send the same request: no page can be served another
  page's answer. \<open>fmt\<close> and \<open>now\<close> are the date formatting and the clock of the usage series.
\<close>

section \<open>The queries of the front end\<close>

inductive clusterQuery :: "query \<Rightarrow> bool" where
  "clusterQuery useListClusters"
| "clusterQuery (useGetCluster cid)"
| "clusterQuery (useNodes cid e)"
| "clusterQuery (useLayout cid)"
| "clusterQuery (useClusterBuckets cid e)"
| "clusterQuery (useClusterKeys cid e)"
| "clusterQuery (useBucket cid i)"
| "clusterQuery (useKey cid i)"
| "clusterQuery (useTestClusterQuery cid a)"
| "clusterQuery (useClusterScrub cid)"
| "clusterQuery (useClusterLockStatus cid e)"
| "clusterQuery (useClusterAdmins cid e)"
| "clusterQuery (useBucketLifecycle cid i)"

inductive regionQuery :: "query \<Rightarrow> bool" where
  "regionQuery useUserRegions"
| "regionQuery (useUserRegion x)"
| "regionQuery (useUserRegionBuckets x)"
| "regionQuery (useBucketVersioning x y)"
| "regionQuery (useObjectVersions x y z e)"
| "regionQuery (useObjectLockConfig x y)"
| "regionQuery (useObjectRetention x y z v e)"
| "regionQuery (useObjectLegalHold x y z v e)"
| "regionQuery (useBucketEncryption x y)"

inductive userQuery :: "query \<Rightarrow> bool" where
  "userQuery useUserShares"
| "userQuery useUserSyncs"
| "userQuery (useUserSync x)"
| "userQuery useUserBackups"
| "userQuery (useUserBackup x)"
| "userQuery (useUserBackupSnapshots x e)"
| "userQuery useFederations"
| "userQuery (useFederation x)"
| "userQuery useWebhooks"
| "userQuery (useWebhook x)"

inductive adminQuery :: "(int \<Rightarrow> string) \<Rightarrow> int \<Rightarrow> query \<Rightarrow> bool" for fmt now where
  "adminQuery fmt now useBuckets"
| "adminQuery fmt now (useOnboardingState a)"
| "adminQuery fmt now useGatewaysRegistry"
| "adminQuery fmt now usePolicies"
| "adminQuery fmt now useOIDCGroupMappings"
| "adminQuery fmt now useUsageOverview"
| "adminQuery fmt now (useUsageSeries fmt now cid i opts)"
| "adminQuery fmt now (useAudit f)"
| "adminQuery fmt now useInvites"
| "adminQuery fmt now useServiceAccounts"
| "adminQuery fmt now (useServiceAccount x)"

inductive siteQuery :: "query \<Rightarrow> bool" where
  "siteQuery useDriverDefaults"
| "siteQuery useVersion"
| "siteQuery useCapabilities"
| "siteQuery useOrgCapabilities"
| "siteQuery useActiveSkin"
| "siteQuery useSkinRegistry"
| "siteQuery (useShareInfo x)"
| "siteQuery (useShareList x p)"
| "siteQuery (useFederationByTarget cid x)"
| "siteQuery useUser"
| "siteQuery useOIDCAvailable"

inductive frontQuery :: "(int \<Rightarrow> string) \<Rightarrow> int \<Rightarrow> query \<Rightarrow> bool" for fmt now where
  "clusterQuery q \<Longrightarrow> frontQuery fmt now q"
| "regionQuery q \<Longrightarrow> frontQuery fmt now q"
| "userQuery q \<Longrightarrow> frontQuery fmt now q"
| "adminQuery fmt now q \<Longrightarrow> frontQuery fmt now q"
| "siteQuery q \<Longrightarrow> frontQuery fmt now q"

section \<open>Families\<close>

datatype family = ClusterFamily | RegionFamily | UserFamily | AdminFamily | SiteFamily

definition familyOf :: "qkey \<Rightarrow> family" where
  "familyOf k =
     (if prefix [KS ''admin'', KS ''clusters''] k then ClusterFamily
      else if prefix [KS ''admin''] k then AdminFamily
      else if prefix [KS ''user'', KS ''regions''] k then RegionFamily
      else if prefix [KS ''user''] k then UserFamily else SiteFamily)"

lemma cluster_family: "clusterQuery q \<Longrightarrow> familyOf (queryKey q) = ClusterFamily"
  by (elim clusterQuery.cases) (simp_all add: hook_defs familyOf_def)

lemma region_family: "regionQuery q \<Longrightarrow> familyOf (queryKey q) = RegionFamily"
  by (elim regionQuery.cases) (simp_all add: hook_defs familyOf_def)

lemma user_family: "userQuery q \<Longrightarrow> familyOf (queryKey q) = UserFamily"
  by (elim userQuery.cases) (simp_all add: hook_defs familyOf_def)

lemma admin_family: "adminQuery fmt now q \<Longrightarrow> familyOf (queryKey q) = AdminFamily"
  by (elim adminQuery.cases) (simp_all add: hook_defs familyOf_def Let_def)

lemma site_family: "siteQuery q \<Longrightarrow> familyOf (queryKey q) = SiteFamily"
  by (elim siteQuery.cases) (simp_all add: hook_defs familyOf_def)

section \<open>One key, one request\<close>

definition sameRequest :: "query \<Rightarrow> query \<Rightarrow> bool" where
  "sameRequest p q \<longleftrightarrow>
     (qEnabled p \<and> qEnabled q \<and> queryKey p = queryKey q \<longrightarrow> queryFn p = queryFn q)"

lemma cluster_sound: "clusterQuery p \<Longrightarrow> clusterQuery q \<Longrightarrow> sameRequest p q"
  by (elim clusterQuery.cases) (auto simp: hook_defs sameRequest_def)

lemma region_sound: "regionQuery p \<Longrightarrow> regionQuery q \<Longrightarrow> sameRequest p q"
  by (elim regionQuery.cases) (auto simp: hook_defs sameRequest_def)

lemma user_sound: "userQuery p \<Longrightarrow> userQuery q \<Longrightarrow> sameRequest p q"
  by (elim userQuery.cases) (auto simp: hook_defs sameRequest_def)

lemma admin_sound: "adminQuery fmt now p \<Longrightarrow> adminQuery fmt now q \<Longrightarrow> sameRequest p q"
  by (elim adminQuery.cases)
     (auto simp: hook_defs sameRequest_def Let_def split: option.splits sum.splits)

lemma site_sound: "siteQuery p \<Longrightarrow> siteQuery q \<Longrightarrow> sameRequest p q"
  by (elim siteQuery.cases)
     (auto simp: hook_defs sameRequest_def present_iff kundef_def split: option.splits)

lemma front_family:
  "frontQuery fmt now q \<Longrightarrow>
   (familyOf (queryKey q) = ClusterFamily \<and> clusterQuery q) \<or>
   (familyOf (queryKey q) = RegionFamily \<and> regionQuery q) \<or>
   (familyOf (queryKey q) = UserFamily \<and> userQuery q) \<or>
   (familyOf (queryKey q) = AdminFamily \<and> adminQuery fmt now q) \<or>
   (familyOf (queryKey q) = SiteFamily \<and> siteQuery q)"
  by (elim frontQuery.cases)
     (simp_all add: cluster_family region_family user_family admin_family site_family)

lemma front_sound:
  assumes "frontQuery fmt now p" and "frontQuery fmt now q" and "queryKey p = queryKey q"
  shows "sameRequest p q"
  using front_family [OF assms(1)] front_family [OF assms(2)] assms(3)
    cluster_sound [of p q] region_sound [of p q] user_sound [of p q] admin_sound [of fmt now p q]
    site_sound [of p q]
  by (elim disjE conjE) simp_all

lemma listing_key_apart:
  assumes "frontQuery fmt now q"
  shows "queryKey q \<noteq> iqKey (useUserRegionObjectsInfinite r k pre)"
proof
  assume eq: "queryKey q = iqKey (useUserRegionObjectsInfinite r k pre)"
  then have "familyOf (queryKey q) = RegionFamily"
    by (simp add: useUserRegionObjectsInfinite_def familyOf_def)
  then have "regionQuery q" using front_family [OF assms] by auto
  then show False using eq by (elim regionQuery.cases) (simp_all add: hook_defs)
qed

text \<open>
  C5. The shared cache is sound: any two queries of the front end that are switched on and have the
  same key run the same request program, so a cached answer is never another query's answer; and no
  plain query shares its key with the paged object listing, whose entries have another shape.
\<close>

theorem one_key_one_request:
  assumes "frontQuery fmt now p" and "frontQuery fmt now q"
    and "qEnabled p" and "qEnabled q" and "queryKey p = queryKey q"
  shows "queryFn p = queryFn q \<and> queryKey p \<noteq> iqKey (useUserRegionObjectsInfinite r k pre)"
  using front_sound [OF assms(1,2,5)] listing_key_apart [OF assms(1)] assms(3,4,5)
  by (simp add: sameRequest_def)

theorem one_key_one_request_witness:
  "queryKey (useNodes ''c1'' True) \<noteq> iqKey (useUserRegionObjectsInfinite (Some ''r'') (Some ''b'') [])"
proof -
  have "frontQuery (\<lambda>_. []) 0 (useNodes ''c1'' True)"
    by (intro frontQuery.intros(1) clusterQuery.intros)
  from one_key_one_request [OF this this, of "Some ''r''" "Some ''b''" "[]"]
  show ?thesis by (simp add: useNodes_def)
qed

end
