(* ===== verification/Upload.thy ===== *)
theory Upload
  imports Http
begin

text \<open>
  \<open>doUpload\<close> of \<open>frontend/src/components/upload/UploadDialog.tsx\<close>: the single-shot upload of a small
  file and the multipart upload of a large one, both through presigned storage URLs. A \<open>File\<close> is its
  name, its content type and its bytes, so that what arrives at the storage can be compared with what
  the operator picked. The browser's File, the API and the storage are not modelled; the last two are
  the \<open>backend\<close>. The progress callback is part of the trace.

  The percentages are exact rationals rounded half up; the code computes them in floating point.
\<close>

section \<open>The code\<close>

record upload_file =
  fiName :: string
  fiType :: string
  fiBytes :: string

abbreviation fileSize :: "upload_file \<Rightarrow> nat" where
  "fileSize f \<equiv> length (fiBytes f)"

definition uploadBaseFor :: "string \<Rightarrow> string \<Rightarrow> string" where
  "uploadBaseFor regionId bid = ''/user/regions/'' @ enc regionId @ ''/buckets/'' @ enc bid"

definition PART_MAX_RETRIES :: nat where
  "PART_MAX_RETRIES = 1"

definition CHUNK_SIZE :: nat where
  "CHUNK_SIZE = 5 * 1024 * 1024"

definition RETRYABLE_STATUSES :: "nat list" where
  "RETRYABLE_STATUSES = [500, 502, 503, 504, 429]"

text \<open>
  \<open>x.p\<close> on a parsed JSON value: only \<open>null\<close> makes the read itself fail.
\<close>

definition readProp :: "json \<Rightarrow> string \<Rightarrow> (json \<Rightarrow> 'a js) \<Rightarrow> 'a js" where
  "readProp j p k =
     (if j = JNull \<or> j = JUndef
      then Throw (PlainError (''Cannot read properties of '' @ toStr j))
      else k (getProp j p))"

text \<open>
  \<open>const err = await res.json().catch(() => ({})); throw new Error(err.error?.message || text);\<close>
\<close>

definition failWith :: "string \<Rightarrow> fetch_res \<Rightarrow> 'a js" where
  "failWith text res = readProp (jsonOrEmpty res) ''error'' (\<lambda>e.
     let message = getProp e ''message'' in
     Throw (PlainError (if truthy message then toStr message else text)))"

definition presignPutReq :: "string \<Rightarrow> string \<Rightarrow> string \<Rightarrow> fetch_req" where
  "presignPutReq base key contentType =
     jsonReq ''POST'' (base @ ''/objects/'' @ enc key @ ''/presign-put?ttl=3600'')
       (JObj [(''contentType'', JStr contentType)])"

definition singleShot :: "upload_file \<Rightarrow> string \<Rightarrow> string \<Rightarrow> string \<Rightarrow> unit js" where
  "singleShot src base key contentType =
     awaitFetch (presignPutReq base key contentType) (\<lambda>presignRes.
       if \<not> httpOk (rsStatus presignRes)
       then failWith (''Presign failed: '' @ dec (rsStatus presignRes)) presignRes
       else bindJs (awaitJson presignRes) (\<lambda>presign.
         Tell (Progress 0) (readProp presign ''url'' (\<lambda>url.
           awaitPut \<lparr>puUrl = url, puType = contentType, puBytes = fiBytes src\<rparr> (\<lambda>putRes.
             if \<not> httpOk (psStatus putRes)
             then Throw (PlainError (''Upload failed: '' @ dec (psStatus putRes)))
             else Tell (Progress 100) (Tell Finished (Ret ())))))))"

definition initReq :: "string \<Rightarrow> string \<Rightarrow> string \<Rightarrow> fetch_req" where
  "initReq base key contentType =
     jsonReq ''POST'' (base @ ''/multipart/init'')
       (JObj [(''key'', JStr key), (''contentType'', JStr contentType)])"

definition initMultipart :: "string \<Rightarrow> string \<Rightarrow> string \<Rightarrow> json js" where
  "initMultipart base key contentType =
     awaitFetch (initReq base key contentType) (\<lambda>initRes.
       if \<not> httpOk (rsStatus initRes)
       then failWith (''Init failed: '' @ dec (rsStatus initRes)) initRes
       else bindJs (awaitJson initRes) (\<lambda>initData. readProp initData ''uploadId'' Ret))"

text \<open>
  The entity tag without its quotes: \<open>etag?.replace(/^"|"$/g, "") || ""\<close>.
\<close>

definition stripQuotes :: "string \<Rightarrow> string" where
  "stripQuotes s =
     (let t = (if startsWith s [CHR 0x22] then tl s else s)
      in if t \<noteq> [] \<and> last t = CHR 0x22 then butlast t else t)"

definition etagOf :: "put_res \<Rightarrow> string" where
  "etagOf res = (case psEtag res of None \<Rightarrow> [] | Some t \<Rightarrow> stripQuotes t)"

definition partReq :: "string \<Rightarrow> json \<Rightarrow> nat \<Rightarrow> fetch_req" where
  "partReq base uploadId partNumber =
     bareReq ''POST'' (base @ ''/multipart/'' @ enc (toStr uploadId) @ ''/part/'' @ dec partNumber @
       ''/presign?ttl=3600'')"

text \<open>
  The attempts on one part, each with a freshly presigned URL: the entity tag of the accepted
  attempt, or \<open>None\<close> when the attempts are used up.
\<close>

function partAttempts ::
  "string \<Rightarrow> json \<Rightarrow> nat \<Rightarrow> string \<Rightarrow> string \<Rightarrow> nat \<Rightarrow> string option js" where
  "partAttempts base uploadId partNumber chunk contentType retries =
     (if retries \<le> PART_MAX_RETRIES
      then awaitFetch (partReq base uploadId partNumber) (\<lambda>presignRes.
        if \<not> httpOk (rsStatus presignRes)
        then failWith (''Part '' @ dec partNumber @ '' presign failed: '' @ dec (rsStatus presignRes))
               presignRes
        else bindJs (awaitJson presignRes) (\<lambda>presign. readProp presign ''url'' (\<lambda>url.
          awaitPut \<lparr>puUrl = url, puType = contentType, puBytes = chunk\<rparr> (\<lambda>putRes.
            if psStatus putRes \<in> set RETRYABLE_STATUSES
            then partAttempts base uploadId partNumber chunk contentType (retries + 1)
            else if \<not> httpOk (psStatus putRes)
            then Throw (PlainError (''Part '' @ dec partNumber @ '' failed: '' @
              dec (psStatus putRes) @ '' '' @ (case psText putRes of None \<Rightarrow> [] | Some t \<Rightarrow> t)))
            else if etagOf putRes = []
            then Throw (PlainError (''Part '' @ dec partNumber @ '' succeeded but no ETag''))
            else Ret (Some (etagOf putRes))))))
      else Ret None)"
  by pat_completeness auto
termination
  by (relation "measure (\<lambda>(base, uid, n, chunk, ct, retries). Suc PART_MAX_RETRIES - retries)") auto

declare partAttempts.simps [simp del]

definition abortReq :: "string \<Rightarrow> json \<Rightarrow> string \<Rightarrow> fetch_req" where
  "abortReq base uploadId key =
     bareReq ''DELETE'' (base @ ''/multipart/'' @ enc (toStr uploadId) @ ''?key='' @ enc key)"

text \<open>\<open>Math.min(99, Math.round((offset / size) * 100))\<close>.\<close>

definition percent :: "nat \<Rightarrow> nat \<Rightarrow> nat" where
  "percent offset whole = min 99 ((200 * offset + whole) div (2 * whole))"

text \<open>The loop over the parts; the result is the list for the completion request.\<close>

function uploadParts ::
  "upload_file \<Rightarrow> string \<Rightarrow> string \<Rightarrow> string \<Rightarrow> json \<Rightarrow> nat \<Rightarrow> nat \<Rightarrow> (nat \<times> string) list
     \<Rightarrow> (nat \<times> string) list js" where
  "uploadParts src base key contentType uploadId currentOffset partNumber uploadedParts =
     (if currentOffset < fileSize src
      then
        (let chunkSize = min CHUNK_SIZE (fileSize src - currentOffset);
             chunk = take chunkSize (drop currentOffset (fiBytes src))
         in bindJs (partAttempts base uploadId partNumber chunk contentType 0) (\<lambda>part.
              case part of
                None \<Rightarrow> Fetch (abortReq base uploadId key) (\<lambda>_.
                  Throw (PlainError (''Part '' @ dec partNumber @ '' failed after retries'')))
              | Some etag \<Rightarrow>
                  Tell (Progress (percent (currentOffset + chunkSize) (fileSize src)))
                    (uploadParts src base key contentType uploadId (currentOffset + chunkSize)
                      (partNumber + 1) (uploadedParts @ [(partNumber, etag)]))))
      else Ret uploadedParts)"
  by pat_completeness auto
termination
  by (relation "measure (\<lambda>(src, base, key, ct, uid, off, n, ps). fileSize src - off)")
     (auto simp: CHUNK_SIZE_def)

declare uploadParts.simps [simp del]

definition uploadedJson :: "nat \<times> string \<Rightarrow> json" where
  "uploadedJson p = JObj [(''partNumber'', JNum (int (fst p))), (''etag'', JStr (snd p))]"

definition completeReq :: "string \<Rightarrow> json \<Rightarrow> (nat \<times> string) list \<Rightarrow> fetch_req" where
  "completeReq base uploadId parts =
     jsonReq ''POST'' (base @ ''/multipart/'' @ enc (toStr uploadId) @ ''/complete'')
       (JObj [(''parts'', JArr (map uploadedJson parts))])"

definition completeMultipart :: "string \<Rightarrow> json \<Rightarrow> (nat \<times> string) list \<Rightarrow> unit js" where
  "completeMultipart base uploadId parts =
     awaitFetch (completeReq base uploadId parts) (\<lambda>completeRes.
       if \<not> httpOk (rsStatus completeRes)
       then failWith (''Complete failed: '' @ dec (rsStatus completeRes)) completeRes
       else Tell (Progress 100) (Tell Finished (Ret ())))"

text \<open>The body of the \<open>try\<close>, and the whole function with its reporting \<open>catch\<close>.\<close>

definition uploadBody :: "upload_file \<Rightarrow> string \<Rightarrow> string \<Rightarrow> string \<Rightarrow> string option \<Rightarrow> unit js" where
  "uploadBody src base key contentType uploadId =
     (if fileSize src \<le> CHUNK_SIZE \<and> \<not> present uploadId
      then singleShot src base key contentType
      else bindJs (if \<not> present uploadId then initMultipart base key contentType
                   else Ret (JStr (the uploadId))) (\<lambda>uid.
        bindJs (uploadParts src base key contentType uid 0 1 []) (completeMultipart base uid)))"

definition doUpload :: "upload_file \<Rightarrow> string \<Rightarrow> string \<Rightarrow> string \<Rightarrow> string option \<Rightarrow> unit js" where
  "doUpload src base key contentType uploadId =
     catchJs (uploadBody src base key contentType uploadId) (\<lambda>err.
       Tell (Failed (messageOf err)) (Throw err))"

section \<open>Steps of a run\<close>

lemma run_awaitFetch:
  "run (awaitFetch q k) b h =
     (case onFetch b h q of None \<Rightarrow> (h @ [RFetch q], Inl NetworkError)
      | Some res \<Rightarrow> run (k res) b (h @ [RFetch q]))"
  by (simp add: awaitFetch_def split: option.split)

lemma run_awaitPut:
  "run (awaitPut q k) b h =
     (case onPut b h q of None \<Rightarrow> (h @ [RPut q], Inl NetworkError)
      | Some res \<Rightarrow> run (k res) b (h @ [RPut q]))"
  by (simp add: awaitPut_def split: option.split)

lemma run_awaitJson:
  "run (awaitJson res) b h =
     (h, case rsBody res of None \<Rightarrow> Inl (PlainError ''invalid JSON'') | Some j \<Rightarrow> Inr j)"
  by (simp add: awaitJson_def split: option.split)

lemma run_readProp:
  "run (readProp j p k) b h =
     (if j = JNull \<or> j = JUndef
      then (h, Inl (PlainError (''Cannot read properties of '' @ toStr j)))
      else run (k (getProp j p)) b h)"
  by (simp add: readProp_def)

text \<open>The error \<open>failWith\<close> throws.\<close>

definition failError :: "string \<Rightarrow> fetch_res \<Rightarrow> js_error" where
  "failError msg res = PlainError
     (let body = jsonOrEmpty res; m = getProp (getProp body ''error'') ''message'' in
      if body = JNull \<or> body = JUndef then ''Cannot read properties of '' @ toStr body
      else if truthy m then toStr m else msg)"

lemma run_failWith: "run (failWith msg res) b h = (h, Inl (failError msg res))"
  by (simp add: failWith_def failError_def run_readProp Let_def)

lemmas run_steps = run_failWith run_awaitFetch run_awaitPut run_awaitJson run_readProp run_bindJs

section \<open>What arrives at the storage\<close>

text \<open>The storage requests of a trace that the storage accepted, with its answers.\<close>

definition acceptedAt :: "backend \<Rightarrow> request list \<Rightarrow> request \<Rightarrow> (put_req \<times> put_res) list" where
  "acceptedAt b h x = (case x of
     RPut q \<Rightarrow> (case onPut b h q of
       Some res \<Rightarrow> if httpOk (psStatus res) then [(q, res)] else []
     | None \<Rightarrow> [])
   | _ \<Rightarrow> [])"

definition accepted :: "backend \<Rightarrow> request list \<Rightarrow> (put_req \<times> put_res) list" where
  "accepted b tr = concat (map (\<lambda>i. acceptedAt b (take i tr) (tr ! i)) [0..<length tr])"

lemma accepted_Nil [simp]: "accepted b [] = []"
  by (simp add: accepted_def)

lemma accepted_snoc: "accepted b (tr @ [x]) = accepted b tr @ acceptedAt b tr x"
proof -
  have "map (\<lambda>i. acceptedAt b (take i (tr @ [x])) ((tr @ [x]) ! i)) [0..<length tr]
      = map (\<lambda>i. acceptedAt b (take i tr) (tr ! i)) [0..<length tr]"
    by (rule map_cong) (simp_all add: nth_append)
  moreover have "accepted b (tr @ [x]) =
      concat (map (\<lambda>i. acceptedAt b (take i (tr @ [x])) ((tr @ [x]) ! i)) [0..<length tr]) @
      acceptedAt b tr x"
    by (simp add: accepted_def)
  ultimately show ?thesis by (simp only: accepted_def)
qed

text \<open>The same of a piece of a trace, after the requests \<open>h\<close>.\<close>

primrec acceptedAfter ::
  "backend \<Rightarrow> request list \<Rightarrow> request list \<Rightarrow> (put_req \<times> put_res) list" where
  "acceptedAfter b h [] = []"
| "acceptedAfter b h (x # xs) = acceptedAt b h x @ acceptedAfter b (h @ [x]) xs"

lemma accepted_append: "accepted b (h @ xs) = accepted b h @ acceptedAfter b h xs"
proof (induction xs arbitrary: h)
  case (Cons x xs)
  from Cons[of "h @ [x]"] show ?case by (simp add: accepted_snoc)
qed simp

lemma acceptedAt_simps [simp]:
  "acceptedAt b h (RFetch q) = []" "acceptedAt b h (RTell e) = []"
  "acceptedAt b h (RPut p) = (case onPut b h p of
     Some res \<Rightarrow> if httpOk (psStatus res) then [(p, res)] else [] | None \<Rightarrow> [])"
  by (simp_all add: acceptedAt_def)

lemma retryable_not_ok: "s \<in> set RETRYABLE_STATUSES \<Longrightarrow> \<not> httpOk s"
  by (auto simp: RETRYABLE_STATUSES_def httpOk_def)

lemma run_partAttempts:
  "run (partAttempts base uid n chunk ct retries) b h =
     (if PART_MAX_RETRIES < retries then (h, Inr None)
      else let h1 = h @ [RFetch (partReq base uid n)] in
        case onFetch b h (partReq base uid n) of
          None \<Rightarrow> (h1, Inl NetworkError)
        | Some res \<Rightarrow>
            if \<not> httpOk (rsStatus res)
            then (h1, Inl (failError
              (''Part '' @ dec n @ '' presign failed: '' @ dec (rsStatus res)) res))
            else (case rsBody res of
                None \<Rightarrow> (h1, Inl (PlainError ''invalid JSON''))
              | Some j \<Rightarrow>
                  if j = JNull \<or> j = JUndef
                  then (h1, Inl (PlainError (''Cannot read properties of '' @ toStr j)))
                  else let p = \<lparr>puUrl = getProp j ''url'', puType = ct, puBytes = chunk\<rparr>;
                           h2 = h1 @ [RPut p] in
                    case onPut b h1 p of
                      None \<Rightarrow> (h2, Inl NetworkError)
                    | Some put \<Rightarrow>
                        if psStatus put \<in> set RETRYABLE_STATUSES
                        then run (partAttempts base uid n chunk ct (retries + 1)) b h2
                        else if \<not> httpOk (psStatus put)
                        then (h2, Inl (PlainError (''Part '' @ dec n @ '' failed: '' @
                          dec (psStatus put) @ '' '' @
                          (case psText put of None \<Rightarrow> [] | Some t \<Rightarrow> t))))
                        else if etagOf put = []
                        then (h2, Inl (PlainError (''Part '' @ dec n @ '' succeeded but no ETag'')))
                        else (h2, Inr (Some (etagOf put)))))"
  by (subst partAttempts.simps) (simp add: run_steps Let_def split: option.split)

text \<open>One part: exactly one accepted request, with the bytes of the chunk, or none at all.\<close>

lemma partAttempts_accepted:
  "run (partAttempts base uid n chunk ct retries) b h = (h', Inr r) \<Longrightarrow>
   (case r of
      None \<Rightarrow> accepted b h' = accepted b h
    | Some etag \<Rightarrow> \<exists>q res. accepted b h' = accepted b h @ [(q, res)] \<and> puBytes q = chunk \<and>
        etagOf res = etag)"
proof (induction "Suc PART_MAX_RETRIES - retries" arbitrary: retries h rule: less_induct)
  case less
  have IH: "run (partAttempts base uid n chunk ct (Suc retries)) b k = (h', Inr r) \<Longrightarrow>
      (case r of
         None \<Rightarrow> accepted b h' = accepted b k
       | Some etag \<Rightarrow> \<exists>q res. accepted b h' = accepted b k @ [(q, res)] \<and> puBytes q = chunk \<and>
           etagOf res = etag)" if "\<not> PART_MAX_RETRIES < retries" for k
    using less(1)[of "Suc retries" k] that by simp
  from less(2) show ?case
    by (subst (asm) run_partAttempts)
       (auto simp: Let_def accepted_append retryable_not_ok dest!: IH[rotated]
         split: option.splits if_splits)
qed

text \<open>
  The loop: the accepted chunks are the rest of the file, and the list handed to the completion
  request numbers them consecutively and pairs each with the storage's entity tag.
\<close>

definition numberedFrom :: "nat \<Rightarrow> (put_req \<times> put_res) list \<Rightarrow> (nat \<times> string) list" where
  "numberedFrom n puts = zip [n..<n + length puts] (map (etagOf \<circ> snd) puts)"

lemma numberedFrom_Nil [simp]: "numberedFrom n [] = []"
  by (simp add: numberedFrom_def)

lemma numberedFrom_Cons: "numberedFrom n (x # xs) = (n, etagOf (snd x)) # numberedFrom (Suc n) xs"
  by (simp add: numberedFrom_def upt_rec)

definition contents :: "(put_req \<times> put_res) list \<Rightarrow> string" where
  "contents puts = concat (map (puBytes \<circ> fst) puts)"

lemma contents_simps [simp]:
  "contents [] = []" "contents (x # xs) = puBytes (fst x) @ contents xs"
  by (simp_all add: contents_def)

lemma run_uploadParts:
  "run (uploadParts f base key ct uid off n ps) b h =
     (if off < fileSize f
      then let size = min CHUNK_SIZE (fileSize f - off);
               chunk = take size (drop off (fiBytes f)) in
        case run (partAttempts base uid n chunk ct 0) b h of
          (h1, Inl e) \<Rightarrow> (h1, Inl e)
        | (h1, Inr None) \<Rightarrow> (h1 @ [RFetch (abortReq base uid key)],
            Inl (PlainError (''Part '' @ dec n @ '' failed after retries'')))
        | (h1, Inr (Some etag)) \<Rightarrow>
            run (uploadParts f base key ct uid (off + size) (Suc n) (ps @ [(n, etag)])) b
              (h1 @ [RTell (Progress (percent (off + size) (fileSize f)))])
      else (h, Inr ps))"
  by (subst uploadParts.simps)
     (auto simp: run_bindJs Let_def split: prod.split sum.split option.split)

lemma uploadParts_delivers:
  "run (uploadParts f base key ct uid off n ps) b h = (h', Inr parts) \<Longrightarrow>
   \<exists>new. accepted b h' = accepted b h @ new \<and> contents new = drop off (fiBytes f) \<and>
     parts = ps @ numberedFrom n new"
proof (induction "fileSize f - off" arbitrary: off n ps h rule: less_induct)
  case less
  show ?case
  proof (cases "off < fileSize f")
    case False
    with less(2) show ?thesis by (subst (asm) run_uploadParts) (auto intro: exI[of _ "[]"])
  next
    case True
    let ?size = "min CHUNK_SIZE (fileSize f - off)"
    let ?chunk = "take ?size (drop off (fiBytes f))"
    from True less(2) obtain h1 etag where
      part: "run (partAttempts base uid n ?chunk ct 0) b h = (h1, Inr (Some etag))" and
      rest: "run (uploadParts f base key ct uid (off + ?size) (Suc n) (ps @ [(n, etag)])) b
        (h1 @ [RTell (Progress (percent (off + ?size) (fileSize f)))]) = (h', Inr parts)"
      by (subst (asm) run_uploadParts) (auto simp: Let_def split: prod.splits sum.splits option.splits)
    from partAttempts_accepted[OF part] obtain q res where
      acc: "accepted b h1 = accepted b h @ [(q, res)]" and q: "puBytes q = ?chunk" "etagOf res = etag"
      by auto
    have "fileSize f - (off + ?size) < fileSize f - off" using True by (simp add: CHUNK_SIZE_def)
    from less(1)[OF this rest] obtain new where
      new: "accepted b h' = accepted b h1 @ new" "contents new = drop (off + ?size) (fiBytes f)"
        "parts = (ps @ [(n, etag)]) @ numberedFrom (Suc n) new" by (auto simp: accepted_append)
    have "?chunk @ drop (off + ?size) (fiBytes f) = drop off (fiBytes f)"
      by (metis add.commute append_take_drop_id drop_drop)
    then show ?thesis using acc q new
      by (intro exI[of _ "(q, res) # new"]) (simp add: numberedFrom_Cons accepted_append)
  qed
qed

section \<open>The whole upload\<close>

lemma run_singleShot_ok:
  "run (singleShot f base key ct) b h = (h', Inr u) \<Longrightarrow>
   \<exists>q res. accepted b h' = accepted b h @ [(q, res)] \<and> puBytes q = fiBytes f"
  by (auto simp: singleShot_def run_steps accepted_append split: option.splits if_splits)

lemma initMultipart_accepted:
  "accepted b (fst (run (initMultipart base key ct) b h)) = accepted b h"
  by (simp add: initMultipart_def run_steps accepted_append split: option.split)

lemma completeMultipart_ok:
  "run (completeMultipart base uid parts) b h = (h', Inr u) \<Longrightarrow>
   h' = h @ [RFetch (completeReq base uid parts), RTell (Progress 100), RTell Finished]"
  by (auto simp: completeMultipart_def run_steps split: option.splits if_splits)

lemma run_doUpload:
  "run (doUpload f base key ct uid) b h =
     (case run (uploadBody f base key ct uid) b h of
        (h', Inl e) \<Rightarrow> (h' @ [RTell (Failed (messageOf e))], Inl e)
      | (h', Inr u) \<Rightarrow> (h', Inr u))"
  by (simp add: doUpload_def run_catchJs split: prod.split sum.split)

lemma run_multipart:
  assumes "CHUNK_SIZE < fileSize f"
  shows "run (uploadBody f base key ct None) b h =
     (case run (initMultipart base key ct) b h of
        (h1, Inl e) \<Rightarrow> (h1, Inl e)
      | (h1, Inr uid) \<Rightarrow>
          (case run (uploadParts f base key ct uid 0 1 []) b h1 of
             (h2, Inl e) \<Rightarrow> (h2, Inl e)
           | (h2, Inr parts) \<Rightarrow> run (completeMultipart base uid parts) b h2))"
  using assms by (simp add: uploadBody_def run_bindJs split: prod.split sum.split)

text \<open>
  C3. What the storage accepts is the file: whenever an upload reports success, the
  contents of the accepted storage requests, put together in order, are exactly the bytes of the
  file, retried parts counted once; and a multipart upload was completed with the list of those very
  parts, numbered from 1, each with the entity tag the storage gave it.
\<close>

theorem upload_delivers_file:
  assumes "run (doUpload f base key ct None) b [] = (tr, Inr u)"
  shows "contents (accepted b tr) = fiBytes f \<and>
    (fileSize f \<le> CHUNK_SIZE \<or>
     (\<exists>uid. RFetch (completeReq base uid (numberedFrom 1 (accepted b tr))) \<in> set tr))"
proof (cases "fileSize f \<le> CHUNK_SIZE")
  case True
  with assms obtain q res where "accepted b tr = [(q, res)]" "puBytes q = fiBytes f"
    by (auto simp: run_doUpload uploadBody_def dest!: run_singleShot_ok split: prod.splits sum.splits)
  then show ?thesis using True by simp
next
  case False
  then have run: "run (doUpload f base key ct None) b [] = (tr, Inr u)" "CHUNK_SIZE < fileSize f"
    using assms by simp_all
  then obtain h1 uid h2 parts where
    i: "run (initMultipart base key ct) b [] = (h1, Inr uid)" and
    p: "run (uploadParts f base key ct uid 0 1 []) b h1 = (h2, Inr parts)" and
    c: "run (completeMultipart base uid parts) b h2 = (tr, Inr u)"
    by (auto simp: run_doUpload run_multipart split: prod.splits sum.splits)
  have "accepted b h1 = []" using initMultipart_accepted[of b base key ct "[]"] i by simp
  with uploadParts_delivers[OF p] have parts: "contents (accepted b h2) = fiBytes f"
    "parts = numberedFrom 1 (accepted b h2)" by auto
  then show ?thesis using completeMultipart_ok[OF c] by (auto simp: accepted_append)
qed

definition sampleFile :: upload_file where
  "sampleFile = \<lparr>fiName = ''a.txt'', fiType = ''text/plain'', fiBytes = ''hello''\<rparr>"

definition openStorage :: backend where
  "openStorage = \<lparr>
     onFetch = (\<lambda>_ _. Some \<lparr>rsStatus = 200, rsBody = Some (JObj
       [(''url'', JStr ''https://storage/x''), (''uploadId'', JStr ''u1'')])\<rparr>),
     onCall = (\<lambda>_ _. None),
     onPut = (\<lambda>_ _. Some \<lparr>psStatus = 200, psEtag = Some [CHR 0x22, CHR ''e'', CHR 0x22],
       psText = None\<rparr>)\<rparr>"

theorem upload_delivers_file_witness:
  "contents (accepted openStorage
     (fst (run (doUpload sampleFile ''/b'' ''k'' ''text/plain'' None) openStorage []))) = ''hello''"
proof -
  have "snd (run (doUpload sampleFile ''/b'' ''k'' ''text/plain'' None) openStorage []) = Inr ()"
    by (simp add: run_doUpload uploadBody_def singleShot_def run_steps sampleFile_def openStorage_def
        CHUNK_SIZE_def httpOk_def)
  then have "run (doUpload sampleFile ''/b'' ''k'' ''text/plain'' None) openStorage [] =
      (fst (run (doUpload sampleFile ''/b'' ''k'' ''text/plain'' None) openStorage []), Inr ())"
    by (metis prod.collapse)
  from upload_delivers_file[OF this] show ?thesis by (simp add: sampleFile_def)
qed

section \<open>What the caller is told\<close>

definition notices :: "request list \<Rightarrow> progress_event list" where
  "notices tr = concat (map (\<lambda>x. case x of RTell e \<Rightarrow> [e] | _ \<Rightarrow> []) tr)"

lemma notices_simps [simp]:
  "notices [] = []" "notices (xs @ ys) = notices xs @ notices ys"
  "notices (RFetch q # xs) = notices xs" "notices (RPut p # xs) = notices xs"
  "notices (RTell e # xs) = e # notices xs"
  by (simp_all add: notices_def)

lemma partAttempts_silent:
  "notices (fst (run (partAttempts base uid n chunk ct retries) b h)) = notices h"
proof (induction "Suc PART_MAX_RETRIES - retries" arbitrary: retries h rule: less_induct)
  case less
  have IH: "notices (fst (run (partAttempts base uid n chunk ct (Suc retries)) b k)) = notices k"
    if "\<not> PART_MAX_RETRIES < retries" for k
    using less[of "Suc retries" k] that by simp
  show ?case
    by (subst run_partAttempts) (simp add: Let_def IH split: option.split)
qed

lemma percent_mono: "x \<le> y \<Longrightarrow> percent x w \<le> percent y w"
  unfolding percent_def by (intro min.mono div_le_mono) simp_all

lemma percent_le: "percent x w \<le> 99"
  by (simp add: percent_def)

lemma uploadParts_progress:
  "\<exists>ps. notices (fst (run (uploadParts f base key ct uid off n parts) b h)) =
      notices h @ map Progress ps \<and> sorted ps \<and>
      (\<forall>p \<in> set ps. percent off (fileSize f) \<le> p \<and> p \<le> 99)"
proof (induction "fileSize f - off" arbitrary: off n parts h rule: less_induct)
  case less
  show ?case
  proof (cases "off < fileSize f")
    case False
    then show ?thesis by (subst run_uploadParts) (auto intro: exI[of _ "[]"])
  next
    case True
    let ?size = "min CHUNK_SIZE (fileSize f - off)"
    let ?chunk = "take ?size (drop off (fiBytes f))"
    let ?p = "percent (off + ?size) (fileSize f)"
    obtain h1 r where part: "run (partAttempts base uid n ?chunk ct 0) b h = (h1, r)"
      by (meson surj_pair)
    have quiet: "notices h1 = notices h" using partAttempts_silent[of base uid n ?chunk ct 0 b h] part by simp
    show ?thesis
    proof (cases "\<exists>etag. r = Inr (Some etag)")
      case False
      then show ?thesis using True part quiet
        by (subst run_uploadParts)
           (auto simp: Let_def split: sum.split option.split intro!: exI[of _ "[]"])
    next
      case 2: True
      then obtain etag where r: "r = Inr (Some etag)" by auto
      have "fileSize f - (off + ?size) < fileSize f - off" using True by (simp add: CHUNK_SIZE_def)
      from less[OF this, of "Suc n" "parts @ [(n, etag)]" "h1 @ [RTell (Progress ?p)]"]
      obtain ps where rest: "notices (fst (run (uploadParts f base key ct uid (off + ?size) (Suc n)
            (parts @ [(n, etag)])) b (h1 @ [RTell (Progress ?p)]))) =
          notices h @ Progress ?p # map Progress ps" "sorted ps"
          "\<forall>p \<in> set ps. ?p \<le> p \<and> p \<le> 99"
        using quiet by auto
      have "fst (run (uploadParts f base key ct uid off n parts) b h) =
          fst (run (uploadParts f base key ct uid (off + ?size) (Suc n) (parts @ [(n, etag)])) b
            (h1 @ [RTell (Progress ?p)]))"
        using True part r by (subst run_uploadParts) (simp add: Let_def)
      note ps = rest[folded this]
      have "percent off (fileSize f) \<le> ?p" by (simp add: percent_mono)
      with ps show ?thesis
        by (intro exI[of _ "?p # ps"]) (auto simp: percent_le intro: order_trans)
    qed
  qed
qed

text \<open>The events of the body of the \<open>try\<close>: growing percentages, closed by 100 and \<open>Finished\<close> on success.\<close>

definition reports :: "request list \<Rightarrow> bool \<Rightarrow> bool" where
  "reports tr ok \<longleftrightarrow> (\<exists>ps. sorted ps \<and> list_all (\<lambda>p. p \<le> 99) ps \<and>
     notices tr = map Progress ps @ (if ok then [Progress 100, Finished] else []))"

lemma reports_silent:
  assumes "notices tr = []"
  shows "reports tr False"
  using assms by (auto simp: reports_def intro: exI[of _ "[]"])

lemma singleShot_reports:
  "run (singleShot f base key ct) b [] = (tr, r) \<Longrightarrow> reports tr (\<not> isl r)"
  by (auto simp: singleShot_def run_steps reports_def split: option.splits if_splits
      intro: exI[of _ "[]"] exI[of _ "[0]"])

lemma initMultipart_silent: "notices (fst (run (initMultipart base key ct) b h)) = notices h"
  by (simp add: initMultipart_def run_steps split: option.split)

lemma completeMultipart_reports:
  assumes "run (completeMultipart base uid parts) b h = (tr, r)" and "reports h False"
  shows "reports tr (\<not> isl r)"
  using assms by (auto simp: completeMultipart_def run_steps reports_def split: option.splits if_splits)

lemma multipart_reports:
  assumes "run (bindJs m (\<lambda>uid. bindJs (uploadParts f base key ct uid 0 1 [])
      (completeMultipart base uid))) b [] = (tr, r)"
    and "notices (fst (run m b [])) = []"
  shows "reports tr (\<not> isl r)"
proof (cases "run m b []")
  case (Pair h1 r1)
  show ?thesis
  proof (cases r1)
    case (Inl e)
    then show ?thesis using assms Pair by (auto simp: run_bindJs reports_silent)
  next
    case (Inr uid)
    obtain h2 r2 where parts: "run (uploadParts f base key ct uid 0 1 []) b h1 = (h2, r2)"
      by (meson surj_pair)
    have h2: "reports h2 False"
      using uploadParts_progress[of f base key ct uid 0 1 "[]" b h1] parts assms(2) Pair
      by (auto simp: reports_def list_all_iff)
    then show ?thesis using assms(1) Pair Inr parts
      by (cases r2) (auto simp: run_bindJs intro: completeMultipart_reports)
  qed
qed

lemma uploadBody_reports:
  assumes "run (uploadBody f base key ct uid) b [] = (tr, r)"
  shows "reports tr (\<not> isl r)"
proof (cases "fileSize f \<le> CHUNK_SIZE \<and> \<not> present uid")
  case True
  with assms show ?thesis by (auto simp: uploadBody_def intro: singleShot_reports)
next
  case False
  let ?m = "if \<not> present uid then initMultipart base key ct else Ret (JStr (the uid))"
  have "notices (fst (run ?m b [])) = []" by (simp add: initMultipart_silent)
  with assms False show ?thesis
    by (intro multipart_reports[of ?m f base key ct b]) (simp_all only: uploadBody_def if_False)
qed

lemma doUpload_events:
  "\<exists>ps. sorted ps \<and> list_all (\<lambda>p. p \<le> 99) ps \<and>
     notices (fst (run (doUpload f base key ct uid) b [])) = map Progress ps @
       (case snd (run (doUpload f base key ct uid) b []) of
          Inr _ \<Rightarrow> [Progress 100, Finished] | Inl e \<Rightarrow> [Failed (messageOf e)])"
proof (cases "run (uploadBody f base key ct uid) b []")
  case (Pair tr r)
  then show ?thesis using uploadBody_reports[OF Pair]
    by (cases r) (auto simp: run_doUpload reports_def)
qed

text \<open>
  Whatever the server and the storage answer, the caller of an upload hears growing
  percentages and then exactly one verdict, as its last event: \<open>done\<close> after 100 percent when the promise
  resolves, otherwise the error the promise is rejected with; 100 percent is never shown before
  the object is complete.
\<close>

theorem upload_reports:
  "\<exists>ps. sorted ps \<and> list_all (\<lambda>p. p \<le> 99) ps \<and>
     notices (fst (run (doUpload f base key ct uid) b [])) = map Progress ps @
       (case snd (run (doUpload f base key ct uid) b []) of
          Inr _ \<Rightarrow> [Progress 100, Finished] | Inl e \<Rightarrow> [Failed (messageOf e)])"
  by (rule doUpload_events)

section \<open>How many storage requests an upload makes\<close>

definition puts :: "request list \<Rightarrow> nat" where
  "puts tr = length (filter (\<lambda>x. case x of RPut _ \<Rightarrow> True | _ \<Rightarrow> False) tr)"

lemma puts_simps [simp]:
  "puts [] = 0" "puts (xs @ ys) = puts xs + puts ys" "puts (RFetch q # xs) = puts xs"
  "puts (RTell e # xs) = puts xs" "puts (RPut p # xs) = Suc (puts xs)"
  by (simp_all add: puts_def)

lemma partAttempts_puts:
  "puts (fst (run (partAttempts base uid n chunk ct retries) b h)) \<le>
     puts h + (Suc PART_MAX_RETRIES - retries)"
proof (induction "Suc PART_MAX_RETRIES - retries" arbitrary: retries h rule: less_induct)
  case less
  show ?case
  proof (cases "PART_MAX_RETRIES < retries")
    case True
    then show ?thesis by (subst run_partAttempts) simp
  next
    case False
    then obtain d where d: "Suc PART_MAX_RETRIES - retries = Suc d"
      by (metis Suc_diff_le not_less)
    then have "PART_MAX_RETRIES - retries = d" using False by simp
    then have IH: "puts (fst (run (partAttempts base uid n chunk ct (Suc retries)) b
        (h @ [RFetch q, RPut p]))) \<le> puts h + Suc d" for q p
      using less[of "Suc retries" "h @ [RFetch q, RPut p]"] d by simp
    show ?thesis unfolding d using False
      by (subst run_partAttempts) (simp add: Let_def IH[simplified] split: option.split)
  qed
qed

definition chunks :: "nat \<Rightarrow> nat" where
  "chunks n = (n + CHUNK_SIZE - 1) div CHUNK_SIZE"

lemma chunks_step: "0 < n \<Longrightarrow> Suc (chunks (n - min CHUNK_SIZE n)) \<le> chunks n"
proof -
  assume n: "0 < n"
  show ?thesis
  proof (cases "n \<le> CHUNK_SIZE")
    case True
    then have "chunks (n - min CHUNK_SIZE n) = 0" by (simp add: chunks_def CHUNK_SIZE_def)
    moreover have "0 < chunks n" using n by (simp add: chunks_def CHUNK_SIZE_def div_greater_zero_iff)
    ultimately show ?thesis by simp
  next
    case False
    then have "n + CHUNK_SIZE - 1 = (n - CHUNK_SIZE + CHUNK_SIZE - 1) + CHUNK_SIZE"
      by (simp add: CHUNK_SIZE_def)
    then show ?thesis using False
      by (simp add: chunks_def CHUNK_SIZE_def)
  qed
qed

lemma uploadParts_puts:
  "puts (fst (run (uploadParts f base key ct uid off n parts) b h)) \<le>
     puts h + Suc PART_MAX_RETRIES * chunks (fileSize f - off)"
proof (induction "fileSize f - off" arbitrary: off n parts h rule: less_induct)
  case less
  show ?case
  proof (cases "off < fileSize f")
    case False
    then show ?thesis by (subst run_uploadParts) simp
  next
    case True
    let ?size = "min CHUNK_SIZE (fileSize f - off)"
    let ?chunk = "take ?size (drop off (fiBytes f))"
    obtain h1 r where part: "run (partAttempts base uid n ?chunk ct 0) b h = (h1, r)"
      by (meson surj_pair)
    have h1: "puts h1 \<le> puts h + Suc PART_MAX_RETRIES"
      using partAttempts_puts[of base uid n ?chunk ct 0 b h] part by simp
    have step: "Suc PART_MAX_RETRIES * Suc (chunks (fileSize f - (off + ?size))) \<le>
        Suc PART_MAX_RETRIES * chunks (fileSize f - off)"
      using chunks_step[of "fileSize f - off"] True by (intro mult_le_mono2) (simp add: diff_diff_left)
    show ?thesis
    proof (cases "\<exists>etag. r = Inr (Some etag)")
      case False
      then show ?thesis using True part h1 step
        by (subst run_uploadParts) (auto simp: Let_def split: sum.split option.split)
    next
      case 2: True
      then obtain etag where r: "r = Inr (Some etag)" by auto
      have "fileSize f - (off + ?size) < fileSize f - off" using True by (simp add: CHUNK_SIZE_def)
      note IH = less[OF this, of "Suc n" "parts @ [(n, etag)]"
          "h1 @ [RTell (Progress (percent (off + ?size) (fileSize f)))]"]
      have "fst (run (uploadParts f base key ct uid off n parts) b h) =
          fst (run (uploadParts f base key ct uid (off + ?size) (Suc n) (parts @ [(n, etag)])) b
            (h1 @ [RTell (Progress (percent (off + ?size) (fileSize f)))]))"
        using True part r by (subst run_uploadParts) (simp add: Let_def)
      then show ?thesis using IH h1 step by simp
    qed
  qed
qed

text \<open>
  An upload always ends, after at most two storage requests per chunk of five
  megabytes, the last one shorter (and one for an empty file).
\<close>

theorem upload_requests_bounded:
  "puts (fst (run (doUpload f base key ct uid) b [])) \<le> Suc PART_MAX_RETRIES * max 1 (chunks (fileSize f))"
proof -
  have shot: "puts (fst (run (singleShot f base key ct) b [])) \<le> 1"
    by (simp add: singleShot_def run_steps split: option.split)
  have init: "puts (fst (run (initMultipart base key ct) b h)) = puts h" for h
    by (simp add: initMultipart_def run_steps split: option.split)
  have complete: "puts (fst (run (completeMultipart base u parts) b h)) = puts h" for u parts h
    by (simp add: completeMultipart_def run_steps split: option.split)
  have multi: "puts (fst (run (bindJs m (\<lambda>u. bindJs (uploadParts f base key ct u 0 1 [])
      (completeMultipart base u))) b [])) \<le> Suc PART_MAX_RETRIES * chunks (fileSize f)"
    if m: "puts (fst (run m b [])) = 0" for m
  proof (cases "run m b []")
    case (Pair h1 r1)
    have parts: "puts (fst (run (uploadParts f base key ct u 0 1 []) b h1)) \<le>
        Suc PART_MAX_RETRIES * chunks (fileSize f)" for u
      using uploadParts_puts[of f base key ct u 0 1 "[]" b h1] m Pair by simp
    show ?thesis
    proof (cases r1)
      case (Inl e)
      then show ?thesis using Pair m by (simp add: run_bindJs)
    next
      case (Inr u)
      show ?thesis using Pair Inr parts[of u] complete
        by (cases "run (uploadParts f base key ct u 0 1 []) b h1"; cases "snd (run (uploadParts f base key ct u 0 1 []) b h1)")
           (simp_all add: run_bindJs)
    qed
  qed
  have "puts (fst (run (uploadBody f base key ct uid) b [])) \<le>
      Suc PART_MAX_RETRIES * max 1 (chunks (fileSize f))"
  proof (cases "fileSize f \<le> CHUNK_SIZE \<and> \<not> present uid")
    case True
    then show ?thesis using shot by (simp add: uploadBody_def max_def)
  next
    case False
    let ?m = "if \<not> present uid then initMultipart base key ct else Ret (JStr (the uid))"
    have "puts (fst (run (uploadBody f base key ct uid) b [])) \<le>
        Suc PART_MAX_RETRIES * chunks (fileSize f)"
      using multi[of ?m] False by (simp only: uploadBody_def if_False) (simp add: init)
    also have "\<dots> \<le> Suc PART_MAX_RETRIES * max 1 (chunks (fileSize f))" by (intro mult_le_mono2) simp
    finally show ?thesis .
  qed
  then show ?thesis by (auto simp: run_doUpload split: prod.split sum.split)
qed

text \<open>
  Only the exhausted retries of a part abort the multipart upload: any other failure, here a refused
  presign of the first part, leaves the upload the server has started behind.
\<close>

theorem refused_part_leaves_upload_open:
  assumes "CHUNK_SIZE < fileSize f"
    and "onFetch b [] (initReq base key ct) = Some \<lparr>rsStatus = 200, rsBody = Some (JObj [(''uploadId'', uid)])\<rparr>"
    and "onFetch b [RFetch (initReq base key ct)] (partReq base uid 1) = Some res"
    and "\<not> httpOk (rsStatus res)"
  shows "\<exists>e. run (doUpload f base key ct None) b [] =
    ([RFetch (initReq base key ct), RFetch (partReq base uid 1), RTell (Failed (messageOf e))], Inl e)"
proof -
  have "fiBytes f \<noteq> []" using assms(1) by auto
  then show ?thesis using assms
    by (simp add: run_doUpload run_multipart initMultipart_def run_steps httpOk_def
      run_uploadParts[of f base key ct uid 0] run_partAttempts[of base uid _ _ _ 0] Let_def)
qed

end
