(* ===== verification/Upload_Dialog.thy ===== *)
theory Upload_Dialog
  imports Upload
begin

text \<open>
  The state machine of \<open>UploadDialog\<close> in \<open>frontend/src/components/upload/UploadDialog.tsx\<close>: the rows,
  the handlers, and the uploads that run in the background while the operator goes on clicking. A
  running upload is a job: the events \<open>doUpload\<close> still has to report and whether its promise will
  resolve, taken from a run of \<open>doUpload\<close> against an arbitrary back end. The step relation interleaves
  the operator's clicks with the events of all running jobs in any order. The verdict of a job and
  the settling of its promise are one step: only promise jobs lie between them, and a click is
  not one.

  The component always reads the current rows (\<open>filesRef\<close>); file ids are unique by construction (name,
  time and a random suffix), which the step that adds files assumes.
\<close>

section \<open>Rows\<close>

datatype upload_status = PendingUp | Uploading | DoneUp | ErrorUp | CancelledUp

record FileUpload =
  fuFile :: upload_file
  fuId :: string
  fuKey :: string
  fuStatus :: upload_status
  fuProgress :: nat
  fuError :: "string option"

text \<open>\<open>s.replace(/\/+/g, "/")\<close>.\<close>

fun squeezeSlashes :: "string \<Rightarrow> string" where
  "squeezeSlashes [] = []"
| "squeezeSlashes [c] = [c]"
| "squeezeSlashes (c # d # cs) =
     (if c = CHR ''/'' \<and> d = CHR ''/'' then squeezeSlashes (d # cs) else c # squeezeSlashes (d # cs))"

definition generateFileKey :: "string \<Rightarrow> upload_file \<Rightarrow> string" where
  "generateFileKey folder f = squeezeSlashes (folder @ fiName f)"

definition newRow :: "string \<Rightarrow> string \<times> upload_file \<Rightarrow> FileUpload" where
  "newRow folder = (\<lambda>(i, f). \<lparr>fuFile = f, fuId = i, fuKey = generateFileKey folder f,
     fuStatus = PendingUp, fuProgress = 0, fuError = None\<rparr>)"

text \<open>\<open>prev.map(f => f.fileId === id ? g(f) : f)\<close>.\<close>

definition onRow :: "string \<Rightarrow> (FileUpload \<Rightarrow> FileUpload) \<Rightarrow> FileUpload list \<Rightarrow> FileUpload list" where
  "onRow i g = map (\<lambda>f. if fuId f = i then g f else f)"

definition markUploading :: "FileUpload \<Rightarrow> FileUpload" where
  "markUploading f = f\<lparr>fuStatus := Uploading, fuProgress := 0, fuError := None\<rparr>"

text \<open>The progress callback of a running upload.\<close>

fun applyEvent :: "progress_event \<Rightarrow> FileUpload \<Rightarrow> FileUpload" where
  "applyEvent (Progress p) f = f\<lparr>fuProgress := p\<rparr>"
| "applyEvent Finished f = f\<lparr>fuStatus := DoneUp\<rparr>"
| "applyEvent (Failed msg) f = f\<lparr>fuStatus := ErrorUp, fuError := Some msg\<rparr>"

definition markFailed :: "string \<Rightarrow> FileUpload \<Rightarrow> FileUpload" where
  "markFailed msg f = f\<lparr>fuStatus := ErrorUp, fuError := Some msg\<rparr>"

definition markCancelled :: "FileUpload \<Rightarrow> FileUpload" where
  "markCancelled f = f\<lparr>fuStatus := CancelledUp, fuProgress := 0\<rparr>"

section \<open>Jobs and the dialog\<close>

record upload_job =
  jbRow :: string
  jbEvents :: "progress_event list"
  jbOutcome :: "js_error + unit"
  jbBatch :: "nat option"

text \<open>
  The dialog: its rows, the drag counter, the running uploads, the results of the settled ones with
  the \<open>startUploads\<close> call that awaits them, and the calls for which \<open>onSuccess\<close> was fired.
\<close>

record upload_dialog =
  udRows :: "FileUpload list"
  udDragging :: bool
  udDragCounter :: int
  udJobs :: "upload_job list"
  udBatches :: nat
  udResults :: "(nat option \<times> bool) list"
  udSucceeded :: "nat list"

definition emptyDialog :: upload_dialog where
  "emptyDialog = \<lparr>udRows = [], udDragging = False, udDragCounter = 0, udJobs = [], udBatches = 0,
     udResults = [], udSucceeded = []\<rparr>"

definition uploadJob :: "backend \<Rightarrow> string \<Rightarrow> nat option \<Rightarrow> FileUpload \<Rightarrow> upload_job" where
  "uploadJob b base batch f =
     (case run (doUpload (fuFile f) base (fuKey f) (fiType (fuFile f)) None) b [] of (tr, r) \<Rightarrow>
       \<lparr>jbRow = fuId f, jbEvents = notices tr, jbOutcome = r, jbBatch = batch\<rparr>)"

text \<open>The part of \<open>uploadOneFile\<close> before its first \<open>await\<close>.\<close>

definition uploadOneFile ::
  "backend \<Rightarrow> string \<Rightarrow> nat option \<Rightarrow> FileUpload \<Rightarrow> upload_dialog \<Rightarrow> upload_dialog" where
  "uploadOneFile b base batch f d =
     d\<lparr>udRows := onRow (fuId f) markUploading (udRows d),
       udJobs := udJobs d @ [uploadJob b base batch f]\<rparr>"

definition handleFiles :: "string \<Rightarrow> (string \<times> upload_file) list \<Rightarrow> upload_dialog \<Rightarrow> upload_dialog" where
  "handleFiles folder new d = d\<lparr>udRows := udRows d @ map (newRow folder) new\<rparr>"

definition handleDragOver :: "upload_dialog \<Rightarrow> upload_dialog" where
  "handleDragOver d = d\<lparr>udDragCounter := udDragCounter d + 1, udDragging := True\<rparr>"

definition handleDragLeave :: "upload_dialog \<Rightarrow> upload_dialog" where
  "handleDragLeave d =
     (let d1 = d\<lparr>udDragCounter := udDragCounter d - 1\<rparr>
      in if udDragCounter d1 = 0 then d1\<lparr>udDragging := False\<rparr> else d1)"

definition handleDrop :: "string \<Rightarrow> (string \<times> upload_file) list \<Rightarrow> upload_dialog \<Rightarrow> upload_dialog" where
  "handleDrop folder dropped d =
     (let d1 = d\<lparr>udDragCounter := 0, udDragging := False\<rparr>
      in if 0 < length dropped then handleFiles folder dropped d1 else d1)"

definition handleFileInput :: "string \<Rightarrow> (string \<times> upload_file) list \<Rightarrow> upload_dialog \<Rightarrow> upload_dialog" where
  "handleFileInput folder selected d =
     (if 0 < length selected then handleFiles folder selected d else d)"

definition cancelUpload :: "string \<Rightarrow> upload_dialog \<Rightarrow> upload_dialog" where
  "cancelUpload i d = d\<lparr>udRows := onRow i markCancelled (udRows d)\<rparr>"

definition retryUpload ::
  "(string \<Rightarrow> backend) \<Rightarrow> string \<Rightarrow> string \<Rightarrow> upload_dialog \<Rightarrow> upload_dialog" where
  "retryUpload bs base i d =
     (case find (\<lambda>f. fuId f = i) (udRows d) of
        None \<Rightarrow> d
      | Some target \<Rightarrow>
          if fuStatus target = ErrorUp \<or> fuStatus target = CancelledUp
          then uploadOneFile (bs i) base None target d else d)"

definition cancelAll :: "upload_dialog \<Rightarrow> upload_dialog" where
  "cancelAll d = d\<lparr>udRows := map (\<lambda>f.
     if fuStatus f = PendingUp \<or> fuStatus f = Uploading then markCancelled f else f) (udRows d)\<rparr>"

definition launchAll ::
  "(string \<Rightarrow> backend) \<Rightarrow> string \<Rightarrow> nat option \<Rightarrow> FileUpload list \<Rightarrow> upload_dialog \<Rightarrow> upload_dialog" where
  "launchAll bs base batch fs d = foldl (\<lambda>d f. uploadOneFile (bs (fuId f)) base batch f d) d fs"

definition retryFailed :: "(string \<Rightarrow> backend) \<Rightarrow> string \<Rightarrow> upload_dialog \<Rightarrow> upload_dialog" where
  "retryFailed bs base d =
     launchAll bs base None (filter (\<lambda>f. fuStatus f = ErrorUp) (udRows d)) d"

text \<open>\<open>startUploads\<close> up to its \<open>await Promise.all\<close>; the rest of it runs when the last job settles.\<close>

definition startUploads :: "(string \<Rightarrow> backend) \<Rightarrow> string \<Rightarrow> upload_dialog \<Rightarrow> upload_dialog" where
  "startUploads bs base d =
     (let pending = filter (\<lambda>f. fuStatus f = PendingUp) (udRows d)
      in if length pending = 0 then d
         else launchAll bs base (Some (udBatches d)) pending (d\<lparr>udBatches := udBatches d + 1\<rparr>))"

text \<open>
  The continuation of \<open>startUploads\<close> when the last of its uploads has settled:
  \<open>if (results.every(Boolean) && onSuccess) onSuccess();\<close>
\<close>

definition awaitBatch :: "nat option \<Rightarrow> upload_dialog \<Rightarrow> upload_dialog" where
  "awaitBatch batch d =
     (case batch of
        None \<Rightarrow> d
      | Some k \<Rightarrow>
          if Some k \<in> set (map jbBatch (udJobs d)) then d
          else if list_all snd (filter (\<lambda>r. fst r = Some k) (udResults d))
          then d\<lparr>udSucceeded := udSucceeded d @ [k]\<rparr> else d)"

text \<open>
  The last event of a job and the rest of \<open>uploadOneFile\<close>: \<open>return true\<close>, or the catch clause and
  \<open>return false\<close>.
\<close>

definition settleJob :: "upload_job \<Rightarrow> progress_event \<Rightarrow> upload_dialog \<Rightarrow> upload_dialog" where
  "settleJob j e d =
     (let rows1 = onRow (jbRow j) (applyEvent e) (udRows d);
          rows2 = (case jbOutcome j of Inr _ \<Rightarrow> rows1
            | Inl err \<Rightarrow> onRow (jbRow j) (markFailed (messageOf err)) rows1)
      in awaitBatch (jbBatch j)
           (d\<lparr>udRows := rows2, udJobs := remove1 j (udJobs d),
              udResults := udResults d @ [(jbBatch j, \<not> isl (jbOutcome j))]\<rparr>))"

definition emitEvent :: "upload_job \<Rightarrow> upload_dialog \<Rightarrow> upload_dialog" where
  "emitEvent j d =
     d\<lparr>udRows := onRow (jbRow j) (applyEvent (hd (jbEvents j))) (udRows d),
       udJobs := map (\<lambda>k. if k = j then j\<lparr>jbEvents := tl (jbEvents j)\<rparr> else k) (udJobs d)\<rparr>"

section \<open>What the dialog offers\<close>

definition hasPendingOrUploading :: "upload_dialog \<Rightarrow> bool" where
  "hasPendingOrUploading d \<longleftrightarrow>
     list_ex (\<lambda>f. fuStatus f = PendingUp \<or> fuStatus f = Uploading) (udRows d)"

definition hasError :: "upload_dialog \<Rightarrow> bool" where
  "hasError d \<longleftrightarrow> list_ex (\<lambda>f. fuStatus f = ErrorUp) (udRows d)"

definition allDone :: "upload_dialog \<Rightarrow> bool" where
  "allDone d \<longleftrightarrow> 0 < length (udRows d) \<and>
     list_all (\<lambda>f. fuStatus f = DoneUp \<or> fuStatus f = CancelledUp) (udRows d)"

definition closes :: "bool \<Rightarrow> upload_dialog \<Rightarrow> bool" where
  "closes isOpen d \<longleftrightarrow> \<not> (\<not> isOpen \<and> hasPendingOrUploading d)"

datatype row_button = RetryBtn | CancelBtn

definition rowButtons :: "FileUpload \<Rightarrow> row_button list" where
  "rowButtons f =
     (if fuStatus f = ErrorUp then [RetryBtn, CancelBtn] else []) @
     (if fuStatus f = PendingUp \<or> fuStatus f = Uploading then [CancelBtn] else [])"

datatype footer_button = CancelAllBtn | RetryFailedBtn | UploadBtn nat | CloseBtn

text \<open>The buttons of the footer that are there, each with whether it is enabled.\<close>

definition footerButtons :: "upload_dialog \<Rightarrow> (footer_button \<times> bool) list" where
  "footerButtons d =
     [(CancelAllBtn, \<not> (\<not> hasPendingOrUploading d \<or> allDone d))] @
     (if hasError d then [(RetryFailedBtn, True)] else []) @
     (if \<not> allDone d
      then [(UploadBtn (length (filter (\<lambda>f. fuStatus f = PendingUp) (udRows d))),
             \<not> \<not> hasPendingOrUploading d)] else []) @
     (if allDone d then [(CloseBtn, True)] else [])"

section \<open>The interleaving\<close>

text \<open>
  One step of the open dialog: a click on something it offers, a drop or selection of files, or an
  event of a running upload.
\<close>

inductive dialog_step :: "string \<Rightarrow> string \<Rightarrow> upload_dialog \<Rightarrow> upload_dialog \<Rightarrow> bool"
  for folder base where
  files: "distinct (map fst new) \<Longrightarrow> set (map fst new) \<inter> set (map fuId (udRows d)) = {} \<Longrightarrow>
    dialog_step folder base d (handleFileInput folder new d)"
| dropped: "distinct (map fst new) \<Longrightarrow> set (map fst new) \<inter> set (map fuId (udRows d)) = {} \<Longrightarrow>
    dialog_step folder base d (handleDrop folder new d)"
| over: "dialog_step folder base d (handleDragOver d)"
| leave: "dialog_step folder base d (handleDragLeave d)"
| start: "(UploadBtn n, True) \<in> set (footerButtons d) \<Longrightarrow>
    dialog_step folder base d (startUploads bs base d)"
| cancel: "f \<in> set (udRows d) \<Longrightarrow> CancelBtn \<in> set (rowButtons f) \<Longrightarrow>
    dialog_step folder base d (cancelUpload (fuId f) d)"
| cancel_all: "(CancelAllBtn, True) \<in> set (footerButtons d) \<Longrightarrow>
    dialog_step folder base d (cancelAll d)"
| retry: "f \<in> set (udRows d) \<Longrightarrow> RetryBtn \<in> set (rowButtons f) \<Longrightarrow>
    dialog_step folder base d (retryUpload bs base (fuId f) d)"
| retry_failed: "(RetryFailedBtn, True) \<in> set (footerButtons d) \<Longrightarrow>
    dialog_step folder base d (retryFailed bs base d)"
| event: "j \<in> set (udJobs d) \<Longrightarrow> jbEvents j = e # e' # es \<Longrightarrow>
    dialog_step folder base d (emitEvent j d)"
| settle: "j \<in> set (udJobs d) \<Longrightarrow> jbEvents j = [e] \<Longrightarrow> dialog_step folder base d (settleJob j e d)"

inductive dialog_reach :: "string \<Rightarrow> string \<Rightarrow> upload_dialog \<Rightarrow> bool" for folder base where
  init: "dialog_reach folder base emptyDialog"
| step: "dialog_reach folder base d \<Longrightarrow> dialog_step folder base d d' \<Longrightarrow> dialog_reach folder base d'"

section \<open>The row invariant\<close>

text \<open>
  What a job still has to say: percentages and one verdict, which agrees with its outcome.
\<close>

definition jobOk :: "upload_job \<Rightarrow> bool" where
  "jobOk j \<longleftrightarrow> (\<exists>ps. list_all (\<lambda>p. p \<le> 100) ps \<and> jbEvents j = map Progress ps @
     [case jbOutcome j of Inr _ \<Rightarrow> Finished | Inl e \<Rightarrow> Failed (messageOf e)])"

definition rowOk :: "string set \<Rightarrow> FileUpload \<Rightarrow> bool" where
  "rowOk running f \<longleftrightarrow>
     (fuStatus f = Uploading \<longrightarrow> fuId f \<in> running) \<and>
     (fuId f \<in> running \<longrightarrow> fuStatus f = Uploading \<or> fuStatus f = CancelledUp) \<and>
     (fuStatus f = ErrorUp \<longrightarrow> fuError f \<noteq> None) \<and> fuProgress f \<le> 100"

definition running :: "upload_dialog \<Rightarrow> string set" where
  "running d = set (map jbRow (udJobs d))"

definition ids :: "upload_dialog \<Rightarrow> string list" where
  "ids d = map fuId (udRows d)"

definition dialogOk :: "upload_dialog \<Rightarrow> bool" where
  "dialogOk d \<longleftrightarrow> distinct (ids d) \<and> distinct (map jbRow (udJobs d)) \<and> running d \<subseteq> set (ids d) \<and>
     (\<forall>j \<in> set (udJobs d). jobOk j) \<and> (\<forall>f \<in> set (udRows d). rowOk (running d) f)"

lemma uploadJob_row [simp]: "jbRow (uploadJob b base batch f) = fuId f"
  "jbBatch (uploadJob b base batch f) = batch"
  by (simp_all add: uploadJob_def split: prod.split)

lemma uploadJob_ok: "jobOk (uploadJob b base batch f)"
proof -
  let ?R = "run (doUpload (fuFile f) base (fuKey f) (fiType (fuFile f)) None) b []"
  obtain ps where ps: "list_all (\<lambda>p. p \<le> 99) ps" "notices (fst ?R) = map Progress ps @
      (case snd ?R of Inr _ \<Rightarrow> [Progress 100, Finished] | Inl e \<Rightarrow> [Failed (messageOf e)])"
    using doUpload_events[of "fuFile f" base "fuKey f" "fiType (fuFile f)" None b] by auto
  have le: "list_all (\<lambda>p. p \<le> 100) ps" using ps(1) by (auto simp: list_all_iff)
  show ?thesis
  proof (cases "snd ?R")
    case (Inl e)
    then show ?thesis using ps le
      by (auto simp: jobOk_def uploadJob_def split: prod.split intro!: exI[of _ ps])
  next
    case (Inr u)
    then show ?thesis using ps le
      by (auto simp: jobOk_def uploadJob_def split: prod.split intro!: exI[of _ "ps @ [100]"])
  qed
qed

lemma set_onRow:
  "set (onRow i g rows) = (\<lambda>f. if fuId f = i then g f else f) ` set rows"
  by (simp add: onRow_def)

lemma onRow_ids: "(\<And>f. fuId (g f) = fuId f) \<Longrightarrow> map fuId (onRow i g rows) = map fuId rows"
  by (simp add: onRow_def)

lemma applyEvent_id [simp]: "fuId (applyEvent e f) = fuId f"
  by (cases e) simp_all

lemma mark_ids [simp]: "fuId (markUploading f) = fuId f" "fuId (markFailed m f) = fuId f"
  "fuId (markCancelled f) = fuId f"
  by (simp_all add: markUploading_def markFailed_def markCancelled_def)

lemma newRow_id [simp]: "fuId (newRow folder x) = fst x"
  by (cases x) (simp add: newRow_def)

lemma launch_ok:
  assumes "dialogOk d" and "fuId f \<in> set (ids d)" and "fuId f \<notin> running d"
  shows "dialogOk (uploadOneFile b base batch f d)"
    "ids (uploadOneFile b base batch f d) = ids d"
    "running (uploadOneFile b base batch f d) = insert (fuId f) (running d)"
  using assms uploadJob_ok[of b base batch f]
  by (auto simp: dialogOk_def uploadOneFile_def ids_def running_def onRow_ids set_onRow rowOk_def
      markUploading_def)

lemma launchAll_ok:
  assumes "dialogOk d" and "distinct (map fuId fs)" and "set (map fuId fs) \<subseteq> set (ids d)"
    and "set (map fuId fs) \<inter> running d = {}"
  shows "dialogOk (launchAll bs base batch fs d)"
  using assms
proof (induction fs arbitrary: d)
  case (Cons f fs)
  have f: "fuId f \<in> set (ids d)" "fuId f \<notin> running d" using Cons.prems by auto
  note l = launch_ok[OF Cons.prems(1) f, of "bs (fuId f)" base batch]
  have "dialogOk (launchAll bs base batch fs (uploadOneFile (bs (fuId f)) base batch f d))"
    using Cons.prems f by (intro Cons.IH) (auto simp: l)
  then show ?case by (simp add: launchAll_def)
qed (simp add: launchAll_def)

lemma dialogOk_rows:
  assumes "dialogOk d" and "f \<in> set (udRows d)" and "fuStatus f \<noteq> Uploading" "fuStatus f \<noteq> CancelledUp"
  shows "fuId f \<notin> running d"
  using assms by (auto simp: dialogOk_def rowOk_def)

lemma filter_ok:
  assumes "dialogOk d" and "\<And>f. P f \<Longrightarrow> fuStatus f \<noteq> Uploading \<and> fuStatus f \<noteq> CancelledUp"
  shows "dialogOk (launchAll bs base batch (filter P (udRows d)) d)"
proof (rule launchAll_ok)
  show "set (map fuId (filter P (udRows d))) \<inter> running d = {}"
    using dialogOk_rows[OF assms(1)] assms(2) by auto
  show "distinct (map fuId (filter P (udRows d)))"
    using assms(1) by (simp add: dialogOk_def ids_def distinct_map_filter)
qed (use assms in \<open>auto simp: ids_def\<close>)

lemma dialogOk_batches [simp]: "dialogOk (d\<lparr>udBatches := n\<rparr>) = dialogOk d"
  "dialogOk (d\<lparr>udResults := r\<rparr>) = dialogOk d" "dialogOk (d\<lparr>udSucceeded := s\<rparr>) = dialogOk d"
  "dialogOk (d\<lparr>udDragCounter := c, udDragging := g\<rparr>) = dialogOk d"
  "dialogOk (d\<lparr>udDragCounter := c\<rparr>) = dialogOk d"
  by (simp_all add: dialogOk_def ids_def running_def)

lemma handleFiles_ok:
  assumes "dialogOk d" and "distinct (map fst new)" and "set (map fst new) \<inter> set (ids d) = {}"
  shows "dialogOk (handleFiles folder new d)"
proof -
  have "running d \<subseteq> set (ids d)" using assms(1) by (simp add: dialogOk_def)
  then have "rowOk (running d) (newRow folder x)" if "x \<in> set new" for x
  proof -
    have "fst x \<in> set (map fst new)" using that by simp
    then have "fst x \<notin> running d" using \<open>running d \<subseteq> set (ids d)\<close> assms(3) by blast
    then show ?thesis by (cases x) (simp add: rowOk_def newRow_def)
  qed
  moreover have "map fuId (map (newRow folder) new) = map fst new" by (simp add: comp_def)
  ultimately show ?thesis using assms
    by (auto simp: dialogOk_def handleFiles_def ids_def running_def comp_def)
qed

lemma handleDrop_ok:
  assumes "dialogOk d" and "distinct (map fst new)" and "set (map fst new) \<inter> set (ids d) = {}"
  shows "dialogOk (handleDrop folder new d)"
  using assms handleFiles_ok[of "d\<lparr>udDragCounter := 0, udDragging := False\<rparr>" new folder]
  by (simp add: handleDrop_def Let_def ids_def)

lemma dialogOk_onRow:
  assumes "dialogOk d" and "\<And>f. fuId (g f) = fuId f"
    and "\<And>f. f \<in> set (udRows d) \<Longrightarrow> fuId f = i \<Longrightarrow> rowOk (running d) (g f)"
  shows "dialogOk (d\<lparr>udRows := onRow i g (udRows d)\<rparr>)"
  using assms by (auto simp: dialogOk_def ids_def running_def onRow_ids set_onRow)

lemma cancelUpload_ok:
  assumes "dialogOk d" and "f \<in> set (udRows d)" and "fuStatus f \<noteq> DoneUp"
  shows "dialogOk (cancelUpload (fuId f) d)"
  using assms unfolding cancelUpload_def
  by (intro dialogOk_onRow) (auto simp: dialogOk_def rowOk_def markCancelled_def)

lemma cancelAll_ok: "dialogOk d \<Longrightarrow> dialogOk (cancelAll d)"
  by (auto simp: dialogOk_def cancelAll_def ids_def running_def rowOk_def markCancelled_def comp_def
      if_distrib[of fuId] cong: if_cong)

lemma retry_ok:
  assumes "dialogOk d" and "f \<in> set (udRows d)" and "RetryBtn \<in> set (rowButtons f)"
  shows "dialogOk (retryUpload bs base (fuId f) d)"
proof (cases "find (\<lambda>g. fuId g = fuId f) (udRows d)")
  case None
  then show ?thesis using assms(1) by (simp add: retryUpload_def)
next
  case (Some g)
  then have g: "g \<in> set (udRows d)" "fuId g = fuId f" by (auto simp: find_Some_iff)
  have "fuStatus f = ErrorUp" using assms(3) by (auto simp: rowButtons_def split: if_splits)
  then have "fuId f \<notin> running d" using dialogOk_rows[OF assms(1,2)] by simp
  then show ?thesis using Some g assms(1,2)
    by (auto simp: retryUpload_def ids_def intro!: launch_ok(1))
qed

lemma retryFailed_ok: "dialogOk d \<Longrightarrow> dialogOk (retryFailed bs base d)"
  unfolding retryFailed_def by (rule filter_ok) auto

lemma start_ok: "dialogOk d \<Longrightarrow> dialogOk (startUploads bs base d)"
  using filter_ok[of "d\<lparr>udBatches := udBatches d + 1\<rparr>" "\<lambda>f. fuStatus f = PendingUp"]
  by (auto simp: startUploads_def Let_def)

text \<open>Events of jobs.\<close>

lemma job_unique:
  "dialogOk d \<Longrightarrow> j \<in> set (udJobs d) \<Longrightarrow> k \<in> set (udJobs d) \<Longrightarrow> jbRow j = jbRow k \<Longrightarrow> j = k"
  by (auto simp: dialogOk_def distinct_map dest: inj_onD)

lemma jobOk_step:
  assumes "jobOk j" and "jbEvents j = e # e' # es"
  shows "(\<exists>p \<le> 100. e = Progress p) \<and> jobOk (j\<lparr>jbEvents := e' # es\<rparr>)"
proof -
  obtain ps where ps: "list_all (\<lambda>p. p \<le> 100) ps" "jbEvents j = map Progress ps @
     [case jbOutcome j of Inr _ \<Rightarrow> Finished | Inl e \<Rightarrow> Failed (messageOf e)]"
    using assms(1) by (auto simp: jobOk_def)
  then show ?thesis using assms(2)
    by (cases ps) (auto simp: jobOk_def intro!: exI[of _ "tl ps"])
qed

lemma jobOk_last:
  "jobOk j \<Longrightarrow> jbEvents j = [e] \<Longrightarrow>
   e = (case jbOutcome j of Inr _ \<Rightarrow> Finished | Inl e \<Rightarrow> Failed (messageOf e))"
  by (auto simp: jobOk_def append_eq_Cons_conv)

lemma emitEvent_ok:
  assumes "dialogOk d" and j: "j \<in> set (udJobs d)" and "jbEvents j = e # e' # es"
  shows "dialogOk (emitEvent j d)" "running (emitEvent j d) = running d"
proof -
  have ok: "jobOk j" using assms by (simp add: dialogOk_def)
  obtain p where p: "e = Progress p" "p \<le> 100" "jobOk (j\<lparr>jbEvents := e' # es\<rparr>)"
    using jobOk_step[OF ok assms(3)] by auto
  have rows: "map jbRow (udJobs (emitEvent j d)) = map jbRow (udJobs d)"
    by (simp add: emitEvent_def)
  then show run: "running (emitEvent j d) = running d"
    by (metis running_def)
  have "jobOk k" if "k \<in> set (udJobs (emitEvent j d))" for k
    using that assms(1,3) p(3) by (auto simp: emitEvent_def dialogOk_def)
  moreover have "rowOk (running d) f" if "f \<in> set (udRows (emitEvent j d))" for f
    using that assms p by (auto simp: emitEvent_def dialogOk_def set_onRow rowOk_def)
  moreover have "ids (emitEvent j d) = ids d" by (simp add: ids_def emitEvent_def onRow_ids)
  ultimately show "dialogOk (emitEvent j d)" using assms(1) rows run
    by (simp add: dialogOk_def)
qed

lemma awaitBatch_same [simp]:
  "udRows (awaitBatch k d) = udRows d" "udJobs (awaitBatch k d) = udJobs d"
  "udResults (awaitBatch k d) = udResults d" "udBatches (awaitBatch k d) = udBatches d"
  by (simp_all add: awaitBatch_def split: option.split)

lemma dialogOk_awaitBatch [simp]: "dialogOk (awaitBatch k d) = dialogOk d"
  by (simp add: dialogOk_def ids_def running_def)

text \<open>The row of a job that settles, with the verdict.\<close>

definition settleRow :: "upload_job \<Rightarrow> FileUpload \<Rightarrow> FileUpload" where
  "settleRow j f = (case jbOutcome j of
     Inr _ \<Rightarrow> f\<lparr>fuStatus := DoneUp\<rparr>
   | Inl err \<Rightarrow> f\<lparr>fuStatus := ErrorUp, fuError := Some (messageOf err)\<rparr>)"

lemma settleJob_rows:
  assumes "jobOk j" and "jbEvents j = [e]"
  shows "udRows (settleJob j e d) = onRow (jbRow j) (settleRow j) (udRows d)"
  using jobOk_last[OF assms]
  by (cases "jbOutcome j")
     (auto simp: settleJob_def Let_def onRow_def settleRow_def markFailed_def)

lemma settleJob_jobs [simp]: "udJobs (settleJob j e d) = remove1 j (udJobs d)"
  by (simp add: settleJob_def Let_def)

lemma settleJob_ok:
  assumes ok: "dialogOk d" and j: "j \<in> set (udJobs d)" and e: "jbEvents j = [e]"
  shows "dialogOk (settleJob j e d)" "running (settleJob j e d) = running d - {jbRow j}"
proof -
  have dj: "distinct (map jbRow (udJobs d))" and jok: "jobOk j" using ok j by (simp_all add: dialogOk_def)
  have jobs: "set (remove1 j (udJobs d)) = set (udJobs d) - {j}"
    using dj by (simp add: distinct_map)
  show run: "running (settleJob j e d) = running d - {jbRow j}"
    using job_unique[OF ok j] by (fastforce simp: running_def jobs)
  have "rowOk (running d - {jbRow j}) f" if "f \<in> set (udRows (settleJob j e d))" for f
  proof -
    from that obtain g where g: "g \<in> set (udRows d)"
      "f = (if fuId g = jbRow j then settleRow j g else g)"
      by (auto simp: settleJob_rows[OF jok e] set_onRow)
    moreover have "rowOk (running d) g" using ok g(1) by (simp add: dialogOk_def)
    ultimately show ?thesis by (auto simp: rowOk_def settleRow_def split: sum.split)
  qed
  moreover have "ids (settleJob j e d) = ids d"
    by (simp add: ids_def settleJob_rows[OF jok e] onRow_ids settleRow_def split: sum.split)
  moreover have "distinct (map jbRow (remove1 j (udJobs d)))"
    using dj by (simp add: distinct_map inj_on_def jobs)
  ultimately show "dialogOk (settleJob j e d)" using ok run
    by (auto simp: dialogOk_def jobs)
qed

lemma step_ok: "dialog_step folder base d d' \<Longrightarrow> dialogOk d \<Longrightarrow> dialogOk d'"
proof (induction rule: dialog_step.induct)
  case (files new d)
  then show ?case using handleFiles_ok[of d new folder] by (simp add: handleFileInput_def ids_def)
next
  case (dropped new d)
  then show ?case using handleDrop_ok[of d new folder] by (simp add: ids_def)
next
  case (cancel f d)
  then show ?case by (intro cancelUpload_ok) (auto simp: rowButtons_def split: if_splits)
qed (auto simp: handleDragOver_def handleDragLeave_def Let_def ids_def
    intro: handleDrop_ok start_ok cancelAll_ok retry_ok retryFailed_ok emitEvent_ok(1) settleJob_ok(1))

lemma empty_ok: "dialogOk emptyDialog"
  by (simp add: emptyDialog_def dialogOk_def ids_def running_def)

lemma reach_ok: "dialog_reach folder base d \<Longrightarrow> dialogOk d"
  by (induction rule: dialog_reach.induct) (auto intro: step_ok empty_ok)

text \<open>
  C8. In every state the dialog can reach, whatever the operator clicks while uploads
  are running: no two rows have the same id, a row shown as uploading has a running upload that will still report to it, no row has two
  uploads at a time, a row that is done, failed or not started has none, a failed row says why, and the
  progress shown is a percentage.
\<close>

theorem no_upload_row_stuck:
  assumes "dialog_reach folder base d"
  shows "distinct (map fuId (udRows d)) \<and> distinct (map jbRow (udJobs d)) \<and>
    jbRow ` set (udJobs d) \<subseteq> fuId ` set (udRows d) \<and>
    list_all (\<lambda>f. (fuStatus f = Uploading \<longrightarrow> fuId f \<in> jbRow ` set (udJobs d)) \<and>
      (fuStatus f \<in> {DoneUp, ErrorUp, PendingUp} \<longrightarrow> fuId f \<notin> jbRow ` set (udJobs d)) \<and>
      (fuStatus f = ErrorUp \<longrightarrow> fuError f \<noteq> None) \<and> fuProgress f \<le> 100) (udRows d)"
  using reach_ok[OF assms] by (auto simp: dialogOk_def list_all_iff rowOk_def running_def ids_def)

theorem no_upload_row_stuck_witness:
  "\<exists>d. dialog_reach [] ''/b'' d \<and> length (udRows d) = 1 \<and> distinct (map fuId (udRows d)) \<and>
     distinct (map jbRow (udJobs d))"
proof (intro exI conjI)
  let ?d = "handleFileInput [] [(''id1'', sampleFile)] emptyDialog"
  show r: "dialog_reach [] ''/b'' ?d"
    by (rule dialog_reach.step[OF dialog_reach.init]) (rule dialog_step.files, simp_all add: emptyDialog_def)
  show "length (udRows ?d) = 1" by (simp add: handleFileInput_def handleFiles_def emptyDialog_def)
  show "distinct (map fuId (udRows ?d))" "distinct (map jbRow (udJobs ?d))"
    using no_upload_row_stuck[OF r] by blast+
qed

section \<open>How a row moves\<close>

text \<open>
  The row automaton: what a status may become. \<open>DoneUp\<close> is final; a cancelled row is not, because
  cancelling leaves the upload running.
\<close>

definition moves :: "upload_status \<Rightarrow> upload_status set" where
  "moves s = insert s (case s of
     PendingUp \<Rightarrow> {Uploading, CancelledUp}
   | Uploading \<Rightarrow> {DoneUp, ErrorUp, CancelledUp}
   | ErrorUp \<Rightarrow> {Uploading, CancelledUp}
   | CancelledUp \<Rightarrow> {DoneUp, ErrorUp}
   | DoneUp \<Rightarrow> {})"

text \<open>Every row of \<open>rs\<close> is still there in \<open>rs'\<close>, with its file and key, after at most one move.\<close>

definition rowsMove :: "FileUpload list \<Rightarrow> FileUpload list \<Rightarrow> bool" where
  "rowsMove rs rs' \<longleftrightarrow> list_all2 (\<lambda>f g. fuId g = fuId f \<and> fuFile g = fuFile f \<and> fuKey g = fuKey f \<and>
     fuStatus g \<in> moves (fuStatus f)) rs (take (length rs) rs')"

lemma rowsMove_map:
  assumes "\<And>f. f \<in> set rs \<Longrightarrow> fuId (g f) = fuId f \<and> fuFile (g f) = fuFile f \<and> fuKey (g f) = fuKey f \<and>
     fuStatus (g f) \<in> moves (fuStatus f)"
  shows "rowsMove rs (map g rs)"
  using assms by (simp add: rowsMove_def list_all2_conv_all_nth)

lemma rowsMove_append: "rowsMove rs (rs @ new)"
  by (simp add: rowsMove_def list_all2_conv_all_nth moves_def)

lemma rowsMove_onRow:
  assumes "\<And>f. f \<in> set rs \<Longrightarrow> fuId f = i \<Longrightarrow> fuId (g f) = fuId f \<and> fuFile (g f) = fuFile f \<and>
     fuKey (g f) = fuKey f \<and> fuStatus (g f) \<in> moves (fuStatus f)"
  shows "rowsMove rs (onRow i g rs)"
  unfolding onRow_def by (rule rowsMove_map) (use assms in \<open>auto simp: moves_def\<close>)

lemma launchAll_rows:
  "udRows (launchAll bs base batch fs d) =
     map (\<lambda>f. if fuId f \<in> set (map fuId fs) then markUploading f else f) (udRows d)"
proof (induction fs arbitrary: d)
  case (Cons g fs)
  have "udRows (launchAll bs base batch (g # fs) d) =
      udRows (launchAll bs base batch fs (uploadOneFile (bs (fuId g)) base batch g d))"
    by (simp add: launchAll_def)
  also have "\<dots> = map (\<lambda>f. if fuId f \<in> set (map fuId fs) then markUploading f else f)
      (onRow (fuId g) markUploading (udRows d))"
    by (simp add: Cons.IH uploadOneFile_def)
  finally show ?case
    by (auto simp: onRow_def markUploading_def)
qed (simp add: launchAll_def)

lemma launch_moves:
  assumes "dialogOk d" and "\<And>f. P f \<Longrightarrow> fuStatus f = PendingUp \<or> fuStatus f = ErrorUp"
  shows "rowsMove (udRows d) (udRows (launchAll bs base batch (filter P (udRows d)) d))"
proof -
  have "P f" if "f \<in> set (udRows d)" "fuId f \<in> set (map fuId (filter P (udRows d)))" for f
    using that assms(1) by (auto simp: dialogOk_def ids_def distinct_map dest: inj_onD)
  then show ?thesis unfolding launchAll_rows
    by (intro rowsMove_map) (use assms(2) in \<open>fastforce simp: markUploading_def moves_def\<close>)
qed

lemma rowsMove_refl: "rowsMove rs rs"
  using rowsMove_append[of rs "[]"] by simp

lemma settle_moves:
  assumes "dialogOk d" and "j \<in> set (udJobs d)" and "jbEvents j = [e]"
  shows "rowsMove (udRows d) (udRows (settleJob j e d))"
proof -
  have j: "jobOk j" "jbRow j \<in> running d" using assms by (auto simp: dialogOk_def running_def)
  have "fuStatus (settleRow j f) \<in> moves (fuStatus f)"
    if "f \<in> set (udRows d)" "fuId f = jbRow j" for f
  proof -
    have "fuStatus f = Uploading \<or> fuStatus f = CancelledUp"
      using that assms(1) j(2) by (auto simp: dialogOk_def rowOk_def)
    then show ?thesis by (auto simp: settleRow_def moves_def split: sum.split)
  qed
  then show ?thesis unfolding settleJob_rows[OF j(1) assms(3)]
    by (intro rowsMove_onRow) (auto simp: settleRow_def split: sum.split)
qed

lemma emit_moves:
  assumes "dialogOk d" and "j \<in> set (udJobs d)" and "jbEvents j = e # e' # es"
  shows "rowsMove (udRows d) (udRows (emitEvent j d))"
proof -
  have "jobOk j" using assms by (simp add: dialogOk_def)
  then obtain p where "e = Progress p" using jobOk_step[OF _ assms(3)] by auto
  then show ?thesis using assms(3)
    by (auto simp: emitEvent_def moves_def intro!: rowsMove_onRow)
qed

lemma retry_moves:
  assumes "dialogOk d" and "f \<in> set (udRows d)" and "RetryBtn \<in> set (rowButtons f)"
  shows "rowsMove (udRows d) (udRows (retryUpload bs base (fuId f) d))"
proof (cases "find (\<lambda>g. fuId g = fuId f) (udRows d)")
  case None
  then show ?thesis by (simp add: retryUpload_def rowsMove_refl)
next
  case (Some g)
  have err: "fuStatus f = ErrorUp" using assms(3) by (auto simp: rowButtons_def split: if_splits)
  have eq: "h = f" if "h \<in> set (udRows d)" "fuId h = fuId f" for h
    using that assms(1,2) by (auto simp: dialogOk_def ids_def distinct_map dest: inj_onD)
  have "g = f" by (rule eq) (use Some in \<open>auto simp: find_Some_iff\<close>)
  then have "udRows (retryUpload bs base (fuId f) d) = onRow (fuId f) markUploading (udRows d)"
    using Some err by (simp add: retryUpload_def uploadOneFile_def)
  then show ?thesis using err
    by (auto simp: moves_def markUploading_def dest!: eq intro!: rowsMove_onRow)
qed

lemma step_moves:
  "dialog_step folder base d d' \<Longrightarrow> dialogOk d \<Longrightarrow> rowsMove (udRows d) (udRows d')"
proof (induction rule: dialog_step.induct)
  case (start n d bs)
  then show ?case
    using launch_moves[of "d\<lparr>udBatches := udBatches d + 1\<rparr>" "\<lambda>f. fuStatus f = PendingUp"]
    by (auto simp: startUploads_def Let_def rowsMove_refl)
next
  case (cancel f d)
  have eq: "g = f" if "g \<in> set (udRows d)" "fuId g = fuId f" for g
    using that cancel by (auto simp: dialogOk_def ids_def distinct_map dest: inj_onD)
  have "fuStatus f \<noteq> DoneUp" using cancel(2) by (auto simp: rowButtons_def)
  then have "CancelledUp \<in> moves (fuStatus f)" by (cases "fuStatus f") (simp_all add: moves_def)
  then show ?case
    by (auto simp: cancelUpload_def markCancelled_def dest!: eq intro!: rowsMove_onRow)
next
  case (cancel_all d)
  then show ?case by (auto simp: cancelAll_def markCancelled_def moves_def intro!: rowsMove_map)
next
  case (retry_failed d bs)
  then show ?case by (auto simp: retryFailed_def intro: launch_moves)
qed (auto simp: handleFileInput_def handleFiles_def handleDrop_def handleDragOver_def handleDragLeave_def
    Let_def rowsMove_refl intro: rowsMove_append retry_moves emit_moves settle_moves)

text \<open>
  C19. Refinement: in every step of every interleaving each row keeps its file and
  object key and makes at most one move of the row automaton; in particular a row that is done
  stays done, and only a row that was not started, or failed, starts to upload.
\<close>

theorem upload_rows_refine_automaton:
  assumes "dialog_reach folder base d" and "dialog_step folder base d d'"
  shows "list_all2 (\<lambda>f g. fuId g = fuId f \<and> fuFile g = fuFile f \<and> fuKey g = fuKey f \<and>
     fuStatus g \<in> moves (fuStatus f)) (udRows d) (take (length (udRows d)) (udRows d'))"
  using step_moves[OF assms(2) reach_ok[OF assms(1)]] by (simp add: rowsMove_def)

theorem upload_rows_refine_automaton_witness:
  "list_all2 (\<lambda>f g. fuStatus g \<in> moves (fuStatus f))
     [newRow [] (''id1'', sampleFile)] [markCancelled (newRow [] (''id1'', sampleFile))]"
proof -
  let ?d = "handleFileInput [] [(''id1'', sampleFile)] emptyDialog"
  let ?f = "newRow [] (''id1'', sampleFile)"
  have r: "dialog_reach [] ''/b'' ?d"
    by (rule dialog_reach.step[OF dialog_reach.init]) (rule dialog_step.files, simp_all add: emptyDialog_def)
  have rows: "udRows ?d = [?f]" by (simp add: handleFileInput_def handleFiles_def emptyDialog_def)
  have "dialog_step [] ''/b'' ?d (cancelUpload (fuId ?f) ?d)"
    by (rule dialog_step.cancel) (simp_all add: rows rowButtons_def newRow_def)
  from upload_rows_refine_automaton[OF r this] show ?thesis
    by (simp add: rows cancelUpload_def onRow_def)
qed

section \<open>The uploads come to rest\<close>

text \<open>The steps the dialog makes without the operator.\<close>

inductive background :: "upload_dialog \<Rightarrow> upload_dialog \<Rightarrow> bool" where
  event: "j \<in> set (udJobs d) \<Longrightarrow> jbEvents j = e # e' # es \<Longrightarrow> background d (emitEvent j d)"
| settle: "j \<in> set (udJobs d) \<Longrightarrow> jbEvents j = [e] \<Longrightarrow> background d (settleJob j e d)"

inductive_cases background_cases: "background d d'"

lemma background_step: "background d d' \<Longrightarrow> dialog_step folder base d d'"
  by (auto elim!: background_cases intro: dialog_step.event dialog_step.settle)

definition workLeft :: "upload_dialog \<Rightarrow> nat" where
  "workLeft d = sum_list (map (length \<circ> jbEvents) (udJobs d))"

lemma sum_list_replace:
  "j \<in> set xs \<Longrightarrow> distinct xs \<Longrightarrow>
   sum_list (map f xs) + g j = sum_list (map (\<lambda>k. if k = j then g k else f k) xs) + f j"
  for f g :: "'a \<Rightarrow> nat"
proof (induction xs)
  case (Cons x xs)
  show ?case
  proof (cases "x = j")
    case True
    then have "map (\<lambda>k. if k = j then g k else f k) xs = map f xs"
      using Cons.prems by (intro map_cong) auto
    then have "sum_list (map (\<lambda>k. if k = j then g k else f k) xs) = sum_list (map f xs)"
      by (rule arg_cong)
    then show ?thesis using True by simp
  next
    case False
    then show ?thesis using Cons by simp
  qed
qed simp

lemma background_decreases:
  assumes "background d d'" and "dialogOk d"
  shows "workLeft d' < workLeft d"
  using assms(1)
proof (cases rule: background.cases)
  case (event j e e' es)
  have dist: "distinct (udJobs d)" using assms(2) by (auto simp: dialogOk_def distinct_map)
  have "map (length \<circ> jbEvents) (udJobs d') =
      map (\<lambda>k. if k = j then length (tl (jbEvents k)) else (length \<circ> jbEvents) k) (udJobs d)"
    by (simp add: event emitEvent_def)
  then show ?thesis
    using sum_list_replace[OF event(2) dist, of "length \<circ> jbEvents" "\<lambda>k. length (tl (jbEvents k))"] event(3)
    by (simp add: workLeft_def)
next
  case (settle j e)
  have "sum_list (map (length \<circ> jbEvents) (udJobs d)) =
      length (jbEvents j) + sum_list (map (length \<circ> jbEvents) (remove1 j (udJobs d)))"
    using sum_list_map_remove1[OF settle(2), of "length \<circ> jbEvents"] by simp
  then show ?thesis using settle by (simp add: workLeft_def)
qed

lemma background_ok: "background d d' \<Longrightarrow> dialogOk d \<Longrightarrow> dialogOk d'"
  using background_step step_ok by blast

lemma job_can_step:
  assumes "dialogOk d" and "udJobs d \<noteq> []"
  shows "\<exists>d'. background d d'"
proof -
  obtain j where j: "j \<in> set (udJobs d)" using assms(2) by (cases "udJobs d") auto
  then have "jbEvents j \<noteq> []" using assms(1) by (auto simp: dialogOk_def jobOk_def)
  then obtain e es where "jbEvents j = e # es" by (cases "jbEvents j") auto
  then show ?thesis using j by (cases es) (auto intro: background.intros)
qed

text \<open>
  C20. Liveness: from every reachable state the running uploads can go on, each of their
  steps uses up part of a finite amount of work, and when none can step any more no upload is running and no
  row is shown as uploading or can be closed over: every upload has ended in done, error or cancelled.
\<close>

theorem uploads_come_to_rest:
  assumes "dialog_reach folder base d"
  shows "(\<forall>d'. background d d' \<longrightarrow> workLeft d' < workLeft d) \<and>
    ((\<nexists>d'. background d d') \<longrightarrow> udJobs d = [] \<and> list_all (\<lambda>f. fuStatus f \<noteq> Uploading) (udRows d)) \<and>
    (\<exists>d'. background\<^sup>*\<^sup>* d d' \<and> (\<nexists>d''. background d' d''))"
proof (intro conjI allI impI)
  have ok: "dialogOk d" using assms by (rule reach_ok)
  fix d' assume "background d d'"
  then show "workLeft d' < workLeft d" using ok by (rule background_decreases)
next
  assume "\<nexists>d'. background d d'"
  then show none: "udJobs d = []" using job_can_step[OF reach_ok[OF assms]] by blast
  then show "list_all (\<lambda>f. fuStatus f \<noteq> Uploading) (udRows d)"
    using reach_ok[OF assms] by (auto simp: dialogOk_def rowOk_def running_def list_all_iff)
next
  have "dialogOk d \<Longrightarrow> \<exists>d'. background\<^sup>*\<^sup>* d d' \<and> (\<nexists>d''. background d' d'')" for d
  proof (induction "workLeft d" arbitrary: d rule: less_induct)
    case less
    show ?case
    proof (cases "\<exists>d'. background d d'")
      case True
      then obtain d' where d': "background d d'" by auto
      from less(1)[OF background_decreases[OF d' less(2)] background_ok[OF d' less(2)]]
      show ?thesis using d' by (meson converse_rtranclp_into_rtranclp)
    qed auto
  qed
  then show "\<exists>d'. background\<^sup>*\<^sup>* d d' \<and> (\<nexists>d''. background d' d'')" using reach_ok[OF assms] by blast
qed

theorem uploads_come_to_rest_witness:
  "\<exists>d'. background\<^sup>*\<^sup>* (startUploads (\<lambda>_. openStorage) ''/b'' (handleFileInput [] [(''id1'', sampleFile)]
     emptyDialog)) d' \<and> (\<nexists>d''. background d' d'')"
proof -
  let ?d = "handleFileInput [] [(''id1'', sampleFile)] emptyDialog"
  have r: "dialog_reach [] ''/b'' ?d"
    by (rule dialog_reach.step[OF dialog_reach.init]) (rule dialog_step.files, simp_all add: emptyDialog_def)
  have "dialog_step [] ''/b'' ?d (startUploads (\<lambda>_. openStorage) ''/b'' ?d)"
    by (rule dialog_step.start[of 1])
       (simp add: footerButtons_def handleFileInput_def handleFiles_def emptyDialog_def newRow_def
          allDone_def hasPendingOrUploading_def)
  from dialog_reach.step[OF r this] show ?thesis
    using uploads_come_to_rest[of "[]" "''/b''"] by blast
qed

section \<open>When onSuccess fires\<close>

text \<open>
  For every \<open>startUploads\<close> call \<open>k\<close>: it awaits at least one running upload, or all of its uploads
  have settled and \<open>onSuccess\<close> was called once if all of them succeeded and not otherwise.
\<close>

definition waiting :: "upload_dialog \<Rightarrow> nat \<Rightarrow> bool" where
  "waiting d k \<longleftrightarrow> Some k \<in> set (map jbBatch (udJobs d))"

definition allGood :: "upload_dialog \<Rightarrow> nat \<Rightarrow> bool" where
  "allGood d k \<longleftrightarrow> list_all snd (filter (\<lambda>r. fst r = Some k) (udResults d))"

definition batchesOk :: "upload_dialog \<Rightarrow> bool" where
  "batchesOk d \<longleftrightarrow> distinct (udSucceeded d) \<and> set (udSucceeded d) \<subseteq> {..<udBatches d} \<and>
     (\<forall>k. waiting d k \<longrightarrow> k < udBatches d) \<and>
     (\<forall>r \<in> set (udResults d). \<forall>k. fst r = Some k \<longrightarrow> k < udBatches d) \<and>
     (\<forall>k < udBatches d. k \<in> set (udSucceeded d) \<longleftrightarrow> \<not> waiting d k \<and> allGood d k)"

lemma batchesOk_frame:
  assumes "batchesOk d" and "\<And>k. waiting d' k \<longleftrightarrow> waiting d k"
    and "udBatches d' = udBatches d" "udResults d' = udResults d" "udSucceeded d' = udSucceeded d"
  shows "batchesOk d'"
  using assms by (simp add: batchesOk_def allGood_def)

lemma launchAll_same [simp]:
  "udBatches (launchAll bs base batch fs d) = udBatches d"
  "udResults (launchAll bs base batch fs d) = udResults d"
  "udSucceeded (launchAll bs base batch fs d) = udSucceeded d"
  "map jbBatch (udJobs (launchAll bs base batch fs d)) =
     map jbBatch (udJobs d) @ replicate (length fs) batch"
  unfolding launchAll_def
  by (induction fs arbitrary: d) (simp_all add: uploadOneFile_def)

lemma waiting_launchAll:
  "waiting (launchAll bs base batch fs d) k \<longleftrightarrow> waiting d k \<or> fs \<noteq> [] \<and> batch = Some k"
  by (auto simp: waiting_def simp del: set_map)

lemma start_batches:
  assumes "batchesOk d"
  shows "batchesOk (startUploads bs base d)"
proof -
  let ?p = "filter (\<lambda>f. fuStatus f = PendingUp) (udRows d)"
  let ?d = "launchAll bs base (Some (udBatches d)) ?p (d\<lparr>udBatches := udBatches d + 1\<rparr>)"
  have "batchesOk ?d" if "?p \<noteq> []"
  proof -
    have w: "waiting ?d k \<longleftrightarrow> waiting d k \<or> k = udBatches d" for k
      using that waiting_launchAll[of bs base "Some (udBatches d)" ?p "d\<lparr>udBatches := udBatches d + 1\<rparr>" k]
      by (auto simp: waiting_def)
    have g: "allGood ?d k = allGood d k" for k by (simp add: allGood_def)
    show ?thesis using assms unfolding batchesOk_def w g by (auto simp: less_Suc_eq)
  qed
  then show ?thesis using assms by (auto simp: startUploads_def Let_def)
qed

lemma retry_batches: "batchesOk d \<Longrightarrow> batchesOk (retryUpload bs base i d)"
  by (auto simp: retryUpload_def uploadOneFile_def waiting_def split: option.split
      intro: batchesOk_frame)

lemma emit_batches: "batchesOk d \<Longrightarrow> batchesOk (emitEvent j d)"
proof (erule batchesOk_frame)
  have "map jbBatch (udJobs (emitEvent j d)) = map jbBatch (udJobs d)" by (simp add: emitEvent_def)
  then show "waiting (emitEvent j d) k \<longleftrightarrow> waiting d k" for k by (simp only: waiting_def)
qed (simp_all add: emitEvent_def)

lemma settle_batches:
  assumes ok: "batchesOk d" and j: "j \<in> set (udJobs d)"
  shows "batchesOk (settleJob j e d)"
proof -
  define rs where "rs = udResults d @ [(jbBatch j, \<not> isl (jbOutcome j))]"
  obtain rows where s: "settleJob j e d = awaitBatch (jbBatch j)
      (d\<lparr>udRows := rows, udJobs := remove1 j (udJobs d), udResults := rs\<rparr>)" (is "_ = awaitBatch _ ?d1")
    by (auto simp: settleJob_def Let_def rs_def)
  have less: "waiting ?d1 k" if "jbBatch j \<noteq> Some k" "waiting d k" for k
  proof -
    from that(2) obtain i where "i \<in> set (udJobs d)" "jbBatch i = Some k" by (auto simp: waiting_def)
    moreover from this that(1) have "i \<noteq> j" by auto
    ultimately have "i \<in> set (remove1 j (udJobs d))" "jbBatch i = Some k" by simp_all
    then show ?thesis by (force simp: waiting_def)
  qed
  have more: "waiting ?d1 k \<Longrightarrow> waiting d k" for k
    using set_remove1_subset[of j "udJobs d"] by (auto simp: waiting_def)
  have good: "allGood ?d1 k = allGood d k" if "jbBatch j \<noteq> Some k" for k
    using that by (simp add: allGood_def rs_def)
  show ?thesis
  proof (cases "jbBatch j")
    case None
    then have n: "jbBatch j \<noteq> Some k" for k by simp
    have "waiting ?d1 k = waiting d k" "allGood ?d1 k = allGood d k" for k
      using less[OF n, of k] more[of k] good[OF n, of k] by iprover+
    then show ?thesis using ok None unfolding s batchesOk_def by (auto simp: awaitBatch_def rs_def)
  next
    case (Some k)
    have k: "waiting d k" using j Some by (force simp: waiting_def)
    then have lt: "k < udBatches d" and out: "k \<notin> set (udSucceeded d)"
      using ok by (auto simp: batchesOk_def)
    have other: "waiting ?d1 l = waiting d l" "allGood ?d1 l = allGood d l" if "l \<noteq> k" for l
      using that less more good Some by (metis option.inject)+
    have aw: "udSucceeded (settleJob j e d) =
        udSucceeded d @ (if \<not> waiting ?d1 k \<and> allGood ?d1 k then [k] else [])"
      "waiting (settleJob j e d) = waiting ?d1" "allGood (settleJob j e d) = allGood ?d1"
      "udBatches (settleJob j e d) = udBatches d" "udResults (settleJob j e d) = rs"
      unfolding s by (auto simp: awaitBatch_def Some waiting_def allGood_def fun_eq_iff)
    have iff: "l \<in> set (udSucceeded (settleJob j e d)) \<longleftrightarrow> \<not> waiting ?d1 l \<and> allGood ?d1 l"
      if "l < udBatches d" for l
    proof (cases "l = k")
      case True
      then show ?thesis using out by (auto simp: aw(1))
    next
      case False
      have "l \<in> set (udSucceeded d) \<longleftrightarrow> \<not> waiting d l \<and> allGood d l"
        using ok that by (simp add: batchesOk_def)
      then show ?thesis using False other[OF False] by (simp add: aw(1))
    qed
    have "distinct (udSucceeded (settleJob j e d))" "set (udSucceeded (settleJob j e d)) \<subseteq> {..<udBatches d}"
      using ok out lt by (auto simp: aw(1) batchesOk_def)
    moreover have "\<forall>l. waiting ?d1 l \<longrightarrow> l < udBatches d" using ok more by (auto simp: batchesOk_def)
    moreover have "\<forall>r \<in> set rs. \<forall>l. fst r = Some l \<longrightarrow> l < udBatches d"
      using ok lt Some by (auto simp: rs_def batchesOk_def)
    ultimately show ?thesis using iff by (simp add: batchesOk_def aw)
  qed
qed

lemma quiet_batches:
  "batchesOk d \<Longrightarrow> batchesOk (handleFileInput folder new d)"
  "batchesOk d \<Longrightarrow> batchesOk (handleDrop folder new d)"
  "batchesOk d \<Longrightarrow> batchesOk (handleDragOver d)"
  "batchesOk d \<Longrightarrow> batchesOk (handleDragLeave d)"
  "batchesOk d \<Longrightarrow> batchesOk (cancelUpload i d)"
  "batchesOk d \<Longrightarrow> batchesOk (cancelAll d)"
  "batchesOk d \<Longrightarrow> batchesOk (retryFailed bs base d)"
  by (erule batchesOk_frame;
      simp add: handleFileInput_def handleFiles_def handleDrop_def handleDragOver_def handleDragLeave_def
        cancelUpload_def cancelAll_def retryFailed_def Let_def waiting_launchAll;
      simp add: waiting_def)+

lemma step_batches: "dialog_step folder base d d' \<Longrightarrow> batchesOk d \<Longrightarrow> batchesOk d'"
  by (induction rule: dialog_step.induct)
     (simp_all add: quiet_batches start_batches retry_batches emit_batches settle_batches)

lemma empty_batches: "batchesOk emptyDialog"
  by (simp add: emptyDialog_def batchesOk_def waiting_def)

lemma reach_batches: "dialog_reach folder base d \<Longrightarrow> batchesOk d"
  by (induction rule: dialog_reach.induct) (auto intro: step_batches empty_batches)

text \<open>
  The parent's \<open>onSuccess\<close> is called at most once per click on Upload, and exactly when
  all uploads of that click have settled and none of them failed, in whatever order they finish
  and whatever is retried, cancelled or added meanwhile.
\<close>

theorem success_callback_exact:
  assumes "dialog_reach folder base d" and "k < udBatches d"
  shows "count_list (udSucceeded d) k = (if Some k \<notin> jbBatch ` set (udJobs d) \<and>
     (Some k, False) \<notin> set (udResults d) then 1 else 0)"
proof -
  have ok: "batchesOk d" using assms(1) by (rule reach_batches)
  have "allGood d k \<longleftrightarrow> (Some k, False) \<notin> set (udResults d)"
    unfolding allGood_def list_all_iff by (auto, metis (full_types))
  then have "k \<in> set (udSucceeded d) \<longleftrightarrow> Some k \<notin> jbBatch ` set (udJobs d) \<and>
      (Some k, False) \<notin> set (udResults d)"
    using ok assms(2) by (auto simp: batchesOk_def waiting_def)
  moreover have "count_list (udSucceeded d) k = (if k \<in> set (udSucceeded d) then 1 else 0)"
  proof -
    have "distinct xs \<Longrightarrow> count_list xs k = (if k \<in> set xs then 1 else 0)" for xs
      by (induction xs) auto
    then show ?thesis using ok by (simp add: batchesOk_def)
  qed
  ultimately show ?thesis by simp
qed

theorem success_callback_exact_witness:
  "count_list (udSucceeded (startUploads (\<lambda>_. openStorage) ''/b'' (handleFileInput []
     [(''id1'', sampleFile)] emptyDialog))) 0 = 0"
proof -
  let ?d = "handleFileInput [] [(''id1'', sampleFile)] emptyDialog"
  let ?d' = "startUploads (\<lambda>_. openStorage) ''/b'' ?d"
  have rows: "udRows ?d = [newRow [] (''id1'', sampleFile)]" "udBatches ?d = 0" "udJobs ?d = []"
    by (simp_all add: handleFileInput_def handleFiles_def emptyDialog_def)
  have r: "dialog_reach [] ''/b'' ?d"
    by (rule dialog_reach.step[OF dialog_reach.init]) (rule dialog_step.files, simp_all add: emptyDialog_def)
  have s: "dialog_step [] ''/b'' ?d ?d'"
    by (rule dialog_step.start[of 1])
       (simp add: rows footerButtons_def newRow_def allDone_def hasPendingOrUploading_def)
  have d': "udBatches ?d' = 1" "Some 0 \<in> jbBatch ` set (udJobs ?d')"
    by (simp_all add: startUploads_def rows newRow_def launchAll_def uploadOneFile_def Let_def)
  from success_callback_exact[OF dialog_reach.step[OF r s], of 0] d' show ?thesis by simp
qed

text \<open>
  Every button the dialog offers enabled does something: Retry restarts exactly its
  row, Cancel and Cancel All leave no row they were offered for pending or uploading, Upload starts
  all pending rows, and the dialog refuses to close while a row is pending or uploading.
\<close>

theorem dialog_buttons_work:
  assumes "dialog_reach folder base d" and "f \<in> set (udRows d)"
  shows "(RetryBtn \<in> set (rowButtons f) \<longrightarrow>
       map jbRow (udJobs (retryUpload bs base (fuId f) d)) = map jbRow (udJobs d) @ [fuId f]) \<and>
    (CancelBtn \<in> set (rowButtons f) \<longrightarrow>
       list_all (\<lambda>g. fuId g = fuId f \<longrightarrow> fuStatus g = CancelledUp) (udRows (cancelUpload (fuId f) d))) \<and>
    \<not> hasPendingOrUploading (cancelAll d) \<and>
    map jbRow (udJobs (startUploads bs base d)) = map jbRow (udJobs d) @
       map fuId (filter (\<lambda>f. fuStatus f = PendingUp) (udRows d)) \<and>
    (closes False d \<longleftrightarrow> \<not> hasPendingOrUploading d)"
proof (intro conjI impI)
  have ok: "dialogOk d" using assms(1) by (rule reach_ok)
  have launched: "map jbRow (udJobs (launchAll bs base batch fs e)) = map jbRow (udJobs e) @ map fuId fs"
    for fs batch e
    unfolding launchAll_def by (induction fs arbitrary: e) (simp_all add: uploadOneFile_def)
  show "map jbRow (udJobs (startUploads bs base d)) = map jbRow (udJobs d) @
       map fuId (filter (\<lambda>f. fuStatus f = PendingUp) (udRows d))"
    by (simp add: startUploads_def Let_def launched)
  show "\<not> hasPendingOrUploading (cancelAll d)"
    by (auto simp: hasPendingOrUploading_def cancelAll_def markCancelled_def list_ex_iff)
  show "list_all (\<lambda>g. fuId g = fuId f \<longrightarrow> fuStatus g = CancelledUp) (udRows (cancelUpload (fuId f) d))"
    by (auto simp: list_all_iff cancelUpload_def set_onRow markCancelled_def)
  show "closes False d \<longleftrightarrow> \<not> hasPendingOrUploading d" by (simp add: closes_def)
  assume "RetryBtn \<in> set (rowButtons f)"
  then have err: "fuStatus f = ErrorUp" by (auto simp: rowButtons_def split: if_splits)
  have "find (\<lambda>g. fuId g = fuId f) (udRows d) = Some f"
  proof -
    obtain g where g: "find (\<lambda>g. fuId g = fuId f) (udRows d) = Some g"
      using assms(2) by (cases "find (\<lambda>g. fuId g = fuId f) (udRows d)") (auto simp: find_None_iff)
    then have "g \<in> set (udRows d)" "fuId g = fuId f" by (auto simp: find_Some_iff)
    then show ?thesis using ok assms(2) g
      by (auto simp: dialogOk_def ids_def distinct_map dest: inj_onD)
  qed
  then show "map jbRow (udJobs (retryUpload bs base (fuId f) d)) = map jbRow (udJobs d) @ [fuId f]"
    using err by (simp add: retryUpload_def uploadOneFile_def)
qed

theorem dialog_buttons_work_witness:
  "\<not> hasPendingOrUploading (cancelAll (handleFileInput [] [(''id1'', sampleFile)] emptyDialog))"
proof -
  let ?d = "handleFileInput [] [(''id1'', sampleFile)] emptyDialog"
  have r: "dialog_reach [] ''/b'' ?d"
    by (rule dialog_reach.step[OF dialog_reach.init]) (rule dialog_step.files, simp_all add: emptyDialog_def)
  have "newRow [] (''id1'', sampleFile) \<in> set (udRows ?d)"
    by (simp add: handleFileInput_def handleFiles_def emptyDialog_def)
  from dialog_buttons_work[OF r this] show ?thesis by blast
qed

section \<open>What cancelling and dragging do not do\<close>

text \<open>
  Cancelling a row does not stop its upload: the request goes on in the background, and when it
  succeeds the row that was shown as cancelled turns to done and counts as a success.
\<close>

theorem cancelled_upload_still_finishes:
  assumes "dialogOk d" and "j \<in> set (udJobs d)" and "jbEvents j = [e]" and "jbOutcome j = Inr ()"
    and "f \<in> set (udRows d)" and "fuId f = jbRow j"
  shows "f\<lparr>fuStatus := DoneUp, fuProgress := 0\<rparr>
    \<in> set (udRows (settleJob j e (cancelUpload (fuId f) d)))"
proof -
  have j: "jobOk j" using assms by (simp add: dialogOk_def)
  have "udRows (settleJob j e (cancelUpload (fuId f) d)) =
      onRow (jbRow j) (settleRow j) (udRows (cancelUpload (fuId f) d))"
    by (rule settleJob_rows[OF j assms(3)])
  moreover have "markCancelled f \<in> set (udRows (cancelUpload (fuId f) d))"
    using assms(5) by (force simp: cancelUpload_def set_onRow)
  ultimately show ?thesis using assms
    by (force simp: set_onRow settleRow_def markCancelled_def)
qed

text \<open>
  The drop zone counts every \<open>dragover\<close> event, of which a browser fires many during one drag, but
  only one \<open>dragleave\<close>: after two of the former the highlight stays on for good.
\<close>

theorem drag_highlight_sticks:
  "udDragging (handleDragLeave ((handleDragOver ^^ Suc (Suc n)) emptyDialog))"
proof -
  have "udDragCounter ((handleDragOver ^^ m) emptyDialog) = int m \<and>
      (0 < m \<longrightarrow> udDragging ((handleDragOver ^^ m) emptyDialog))" for m
    by (induction m) (auto simp: handleDragOver_def emptyDialog_def)
  from this[of "Suc (Suc n)"] show ?thesis by (simp add: handleDragLeave_def Let_def)
qed

end
