(* ===== verification/Skin.thy ===== *)
theory Skin
  imports Query_Model
begin

text \<open>
  Theme and operator skin: \<open>frontend/src/shared/theme/useTheme.ts\<close> (the theme cookie and the dark
  class), \<open>shared/hooks/useSkin.ts\<close> (defaults, density, palette) and
  \<open>shared/components/SkinInjector.tsx\<close> (fonts, radius, footer links, login hero). A skin is operator
  data rendered on the login page before anyone has signed in, so the claims are about what can
  reach a style sheet or a link. The regular expressions are written as the recognisers they are.

  The browser is a parameter: its URL parser, whether the system prefers dark, and the cookie jar.
\<close>

section \<open>The theme cookie\<close>

datatype theme = SystemTheme | LightTheme | DarkTheme

fun themeName :: "theme \<Rightarrow> string" where
  "themeName SystemTheme = ''system''"
| "themeName LightTheme = ''light''"
| "themeName DarkTheme = ''dark''"

definition COOKIE_NAME :: string where
  "COOKIE_NAME = ''basement_theme''"

definition readCookie :: "string \<Rightarrow> theme" where
  "readCookie cookies =
     (case find (\<lambda>c. startsWith c (COOKIE_NAME @ ''='')) (map trim (splitOn (CHR '';'') cookies)) of
        None \<Rightarrow> SystemTheme
      | Some m \<Rightarrow>
          (let value = drop (length COOKIE_NAME + 1) m in
           if value = ''light'' then LightTheme
           else if value = ''dark'' then DarkTheme
           else if value = ''system'' then SystemTheme
           else SystemTheme))"

text \<open>The string assigned to \<open>document.cookie\<close>.\<close>

definition writeCookie :: "bool \<Rightarrow> theme \<Rightarrow> string" where
  "writeCookie https t =
     (let maxAge = 365 * 24 * 60 * (60 :: nat);
          secure = (if https then ''; Secure'' else [])
      in COOKIE_NAME @ ''='' @ themeName t @ ''; Path=/; Max-Age='' @ dec maxAge @
         ''; SameSite=Lax'' @ secure)"

definition effectiveDark :: "bool \<Rightarrow> theme \<Rightarrow> bool" where
  "effectiveDark systemPrefersDark t =
     (if t = DarkTheme then True else if t = LightTheme then False else systemPrefersDark)"

text \<open>The dark class and the \<open>color-scheme\<close> of the root element.\<close>

definition applyTheme :: "bool \<Rightarrow> theme \<Rightarrow> bool \<times> string" where
  "applyTheme systemPrefersDark t =
     (effectiveDark systemPrefersDark t,
      if effectiveDark systemPrefersDark t then ''dark'' else ''light'')"

definition nextTheme :: "theme \<Rightarrow> theme" where
  "nextTheme prev =
     (if prev = SystemTheme then LightTheme else if prev = LightTheme then DarkTheme else SystemTheme)"

text \<open>
  The cookie jar of the browser: an assignment to \<open>document.cookie\<close> sets the pair before its first
  semicolon, reading it lists all pairs.
\<close>

type_synonym jar = "(string \<times> string) list"

definition cookieText :: "jar \<Rightarrow> string" where
  "cookieText jar = joinWith ''; '' (map (\<lambda>(k, v). k @ ''='' @ v) jar)"

fun setCookie :: "string \<Rightarrow> string \<Rightarrow> jar \<Rightarrow> jar" where
  "setCookie k v [] = [(k, v)]"
| "setCookie k v ((k', v') # js) = (if k = k' then (k, v) # js else (k', v') # setCookie k v js)"

definition assignCookie :: "string \<Rightarrow> jar \<Rightarrow> jar" where
  "assignCookie s jar =
     (let pair = hd (splitOn (CHR '';'') s);
          i = (case indexOf pair (CHR ''='') of None \<Rightarrow> 0 | Some i \<Rightarrow> i)
      in setCookie (take i pair) (drop (Suc i) pair) jar)"

text \<open>
  One mounted \<open>useTheme\<close> per component that calls it: each has a state of its own, initialised from
  the cookie; the cookie jar and the root element are shared.
\<close>

record theme_page =
  tpThemes :: "theme list"
  tpJar :: jar
  tpRoot :: "bool \<times> string"
  tpPrefersDark :: bool

definition mountTheme :: "theme_page \<Rightarrow> theme_page" where
  "mountTheme p =
     (let t = readCookie (cookieText (tpJar p))
      in p\<lparr>tpThemes := tpThemes p @ [t], tpRoot := applyTheme (tpPrefersDark p) t\<rparr>)"

definition setTheme :: "bool \<Rightarrow> nat \<Rightarrow> theme \<Rightarrow> theme_page \<Rightarrow> theme_page" where
  "setTheme https i t p =
     p\<lparr>tpJar := assignCookie (writeCookie https t) (tpJar p), tpThemes := (tpThemes p)[i := t],
       tpRoot := applyTheme (tpPrefersDark p) t\<rparr>"

definition cycleTheme :: "bool \<Rightarrow> nat \<Rightarrow> theme_page \<Rightarrow> theme_page" where
  "cycleTheme https i p = setTheme https i (nextTheme (tpThemes p ! i)) p"

text \<open>A change of the system preference: only hooks in system mode listen.\<close>

definition preferenceChange :: "bool \<Rightarrow> theme_page \<Rightarrow> theme_page" where
  "preferenceChange dark p =
     (let p1 = p\<lparr>tpPrefersDark := dark\<rparr>
      in if SystemTheme \<in> set (tpThemes p) then p1\<lparr>tpRoot := applyTheme dark SystemTheme\<rparr> else p1)"

definition isDark :: "theme_page \<Rightarrow> nat \<Rightarrow> bool" where
  "isDark p i = effectiveDark (tpPrefersDark p) (tpThemes p ! i)"

section \<open>Reading the cookie back\<close>

text \<open>What a cookie name and value can hold.\<close>

definition cookieOk :: "string \<times> string \<Rightarrow> bool" where
  "cookieOk kv \<longleftrightarrow> CHR '';'' \<notin> set (fst kv) \<and> CHR '';'' \<notin> set (snd kv) \<and>
     CHR ''='' \<notin> set (fst kv) \<and> trimmed (fst kv @ ''='' @ snd kv)"

definition pairText :: "string \<times> string \<Rightarrow> string" where
  "pairText kv = fst kv @ ''='' @ snd kv"

lemma trim_space: "trim (CHR '' '' # w) = trim w"
proof -
  have "find (\<lambda>t. t \<noteq> [] \<and> prefix t (CHR '' '' # w)) wsTokens = Some [CHR '' '']"
    by (simp add: wsTokens_def)
  then have "strip wsTokens (CHR '' '' # w) = strip wsTokens w"
    by (subst strip.simps) simp
  then show ?thesis by (simp add: trim_def trimStart_def)
qed

lemma splitOn_space:
  "map trim (splitOn (CHR '';'') (CHR '' '' # s)) = map trim (splitOn (CHR '';'') s)"
  by (cases "splitOn (CHR '';'') s") (simp_all add: trim_space)

lemma splitOn_cookieText:
  "jar \<noteq> [] \<Longrightarrow> \<forall>kv \<in> set jar. cookieOk kv \<Longrightarrow>
   map trim (splitOn (CHR '';'') (cookieText jar)) = map pairText jar"
proof (induction jar)
  case (Cons kv jar)
  obtain k v where kv: "kv = (k, v)" by (cases kv)
  have pair: "CHR '';'' \<notin> set (k @ ''='' @ v)" "trim (k @ ''='' @ v) = k @ ''='' @ v"
    using Cons.prems(2) by (auto simp: kv cookieOk_def trim_id)
  show ?case
  proof (cases jar)
    case Nil
    then show ?thesis using pair by (simp add: kv cookieText_def pairText_def splitOn_no_delim)
  next
    case (Cons kv' jar')
    obtain k' v' where kv': "kv' = (k', v')" by (cases kv')
    have "cookieText (kv # jar) = (k @ ''='' @ v) @ CHR '';'' # CHR '' '' # cookieText jar"
      by (simp add: cookieText_def kv Cons kv')
    then have "map trim (splitOn (CHR '';'') (cookieText (kv # jar))) =
        (k @ ''='' @ v) # map trim (splitOn (CHR '';'') (CHR '' '' # cookieText jar))"
      by (simp only: splitOn_append[OF pair(1)] list.map pair(2))
    also have "\<dots> = (k @ ''='' @ v) # map pairText jar"
      using Cons.IH Cons.prems Cons by (simp only: splitOn_space) simp
    finally show ?thesis by (simp add: kv pairText_def)
  qed
qed simp

definition jarOk :: "jar \<Rightarrow> bool" where
  "jarOk jar \<longleftrightarrow> distinct (map fst jar) \<and> list_all cookieOk jar"

lemma startsWith_name:
  assumes "CHR ''='' \<notin> set k"
  shows "startsWith (k @ ''='' @ v) (COOKIE_NAME @ ''='') \<longleftrightarrow> k = COOKIE_NAME"
proof
  assume "startsWith (k @ ''='' @ v) (COOKIE_NAME @ ''='')"
  then obtain z where z: "k @ CHR ''='' # v = COOKIE_NAME @ CHR ''='' # z" by (auto simp: prefix_def)
  have take: "takeWhile (\<lambda>c. c \<noteq> CHR ''='') (w @ CHR ''='' # x) = w" if "CHR ''='' \<notin> set w" for w x
    using that by (induction w) auto
  have "CHR ''='' \<notin> set COOKIE_NAME" by (simp add: COOKIE_NAME_def)
  from take[OF this, of z] take[OF assms, of v] show "k = COOKIE_NAME" by (simp only: z)
qed (simp add: prefix_def)

definition themeOfValue :: "string \<Rightarrow> theme" where
  "themeOfValue v = (if v = ''light'' then LightTheme else if v = ''dark'' then DarkTheme else SystemTheme)"

lemma themeOfValue_name [simp]: "themeOfValue (themeName t) = t"
  by (cases t) (simp_all add: themeOfValue_def)

lemma readCookie_jar:
  assumes "jarOk jar"
  shows "readCookie (cookieText jar) =
    (case map_of jar COOKIE_NAME of None \<Rightarrow> SystemTheme | Some v \<Rightarrow> themeOfValue v)"
proof (cases "jar = []")
  case True
  then show ?thesis
    by (simp add: readCookie_def cookieText_def COOKIE_NAME_def trim_def trimStart_def trimEnd_def
        strip_id wsTokens_def)
next
  case False
  have ok: "\<forall>kv \<in> set jar. cookieOk kv" using assms by (simp add: jarOk_def list_all_iff)
  have "find (\<lambda>c. startsWith c (COOKIE_NAME @ ''='')) (map pairText jar) =
      map_option (\<lambda>v. COOKIE_NAME @ ''='' @ v) (map_of jar COOKIE_NAME)"
    using ok
  proof (induction jar)
    case (Cons kv jar)
    then show ?case
      using startsWith_name[of "fst kv" "snd kv"] by (cases kv) (auto simp: pairText_def cookieOk_def)
  qed simp
  then show ?thesis
    using splitOn_cookieText[OF False ok]
    by (cases "map_of jar COOKIE_NAME")
       (simp_all add: readCookie_def themeOfValue_def Let_def)
qed

lemma assign_writeCookie:
  "assignCookie (writeCookie https t) jar = setCookie COOKIE_NAME (themeName t) jar"
proof -
  let ?w = "COOKIE_NAME @ ''='' @ themeName t"
  have w: "CHR '';'' \<notin> set ?w" by (cases t) (simp_all add: COOKIE_NAME_def)
  obtain rest where "writeCookie https t = ?w @ CHR '';'' # rest"
    by (simp add: writeCookie_def Let_def)
  then have "hd (splitOn (CHR '';'') (writeCookie https t)) = ?w"
    by (simp only: splitOn_append[OF w] list.sel)
  moreover have "indexOf ?w (CHR ''='') = Some (length COOKIE_NAME)" by (simp add: COOKIE_NAME_def)
  ultimately show ?thesis by (simp add: assignCookie_def COOKIE_NAME_def)
qed

lemma setCookie_map_of: "map_of (setCookie k v jar) = (map_of jar)(k \<mapsto> v)"
  by (induction k v jar rule: setCookie.induct) (auto simp: fun_eq_iff)

lemma setCookie_names: "fst ` set (setCookie k v jar) = insert k (fst ` set jar)"
  by (induction k v jar rule: setCookie.induct) auto

lemma theme_cookieOk: "cookieOk (COOKIE_NAME, themeName t)"
  by (cases t) (simp_all add: cookieOk_def COOKIE_NAME_def trimmed_def wsTokens_def suffix_def)

lemma setCookie_ok:
  "jarOk jar \<Longrightarrow> cookieOk (k, v) \<Longrightarrow> jarOk (setCookie k v jar)"
proof (induction k v jar rule: setCookie.induct)
  case (2 k v k' v' js)
  then show ?case using setCookie_names[of k v js] by (auto simp: jarOk_def)
qed (simp add: jarOk_def)

text \<open>
  The chosen theme survives a reload, whatever other cookies the page has: reading
  the cookies after a write gives the theme written, every other cookie is left alone, and the jar
  stays well-formed.
\<close>

theorem theme_cookie_roundtrip:
  assumes "jarOk jar"
  shows "readCookie (cookieText (assignCookie (writeCookie https t) jar)) = t \<and>
    jarOk (assignCookie (writeCookie https t) jar) \<and>
    (name = COOKIE_NAME \<or> map_of (assignCookie (writeCookie https t) jar) name = map_of jar name)"
proof -
  have ok: "jarOk (setCookie COOKIE_NAME (themeName t) jar)"
    using assms theme_cookieOk by (rule setCookie_ok)
  then show ?thesis by (simp add: assign_writeCookie readCookie_jar setCookie_map_of)
qed

theorem theme_cookie_roundtrip_witness:
  "readCookie (cookieText (assignCookie (writeCookie True DarkTheme)
     [(''session'', ''abc''), (''basement_theme'', ''light'')])) = DarkTheme"
  by (rule theme_cookie_roundtrip[THEN conjunct1])
     (simp add: jarOk_def cookieOk_def trimmed_def wsTokens_def suffix_def)

text \<open>
  The hooks do not share their state: when one component changes the theme, the hook inside
  \<open>useSkin\<close> keeps the old one, so the root element is dark while the skin still paints its light
  palette (and the other way round), until the page is reloaded.
\<close>

theorem skin_misses_theme_change:
  assumes "tpThemes p = [LightTheme, LightTheme]"
  shows "let p' = cycleTheme https 0 p in
    fst (tpRoot p') \<and> isDark p' 0 \<and> \<not> isDark p' 1"
  using assms by (simp add: cycleTheme_def setTheme_def nextTheme_def applyTheme_def effectiveDark_def
      isDark_def Let_def)

section \<open>The skin\<close>

text \<open>The payload of \<open>useActiveSkin\<close> is a JSON value; \<open>a || b\<close> on it.\<close>

definition orFalsy :: "json \<Rightarrow> json \<Rightarrow> json" where
  "orFalsy a b = (if truthy a then a else b)"

definition defaultSans :: string where
  "defaultSans = ''ui-sans-serif, system-ui, sans-serif, '' @ [CHR 0x22] @ ''Apple Color Emoji'' @
     [CHR 0x22] @ '', '' @ [CHR 0x22] @ ''Segoe UI Emoji'' @ [CHR 0x22] @ '', '' @ [CHR 0x22] @
     ''Segoe UI Symbol'' @ [CHR 0x22] @ '', '' @ [CHR 0x22] @ ''Noto Color Emoji'' @ [CHR 0x22]"

definition defaultMono :: string where
  "defaultMono = ''ui-monospace, SFMono-Regular, '' @ [CHR 0x22] @ ''SF Mono'' @ [CHR 0x22] @ '', '' @
     [CHR 0x22] @ ''Menlo'' @ [CHR 0x22] @ '', '' @ [CHR 0x22] @ ''Monaco'' @ [CHR 0x22] @ '', '' @
     [CHR 0x22] @ ''Inconsolata'' @ [CHR 0x22] @ '', '' @ [CHR 0x22] @ ''Fira Mono'' @ [CHR 0x22] @
     '', monospace''"

definition computedSkin :: "json \<Rightarrow> json" where
  "computedSkin skin =
     (if \<not> truthy skin then JNull
      else let typography = getProp skin ''typography'' in
        JObj [(''name'', getProp skin ''name''),
          (''displayName'', orFalsy (getProp skin ''displayName'') (JStr ''Custom Skin'')),
          (''version'', orFalsy (getProp skin ''version'') (JStr ''1.0.0'')),
          (''productName'', orFalsy (getProp skin ''productName'') (JStr ''Basement'')),
          (''typography'', JObj
             [(''sans'', orFalsy (getProp typography ''sans'') (JStr defaultSans)),
              (''mono'', orFalsy (getProp typography ''mono'') (JStr defaultMono)),
              (''fontUrl'', getProp typography ''fontUrl'')]),
          (''borderRadius'', orFalsy (getProp skin ''borderRadius'') (JStr ''0.5rem'')),
          (''density'', orFalsy (getProp skin ''density'') (JStr ''comfortable'')),
          (''footer'', getProp skin ''footer''),
          (''loginHero'', getProp skin ''loginHero'')])"

definition densityTokens :: "json \<Rightarrow> string \<times> string" where
  "densityTokens computed =
     (if getProp computed ''density'' = JStr ''compact'' then (''4px'', ''8px'')
      else if getProp computed ''density'' = JStr ''spacious'' then (''12px'', ''16px'')
      else (''8px'', ''12px''))"

definition radiusToken :: "json \<Rightarrow> json" where
  "radiusToken computed = orFalsy (getProp computed ''borderRadius'') (JStr ''0.5rem'')"

section \<open>The palette\<close>

definition isDigit :: "char \<Rightarrow> bool" where
  "isDigit c \<longleftrightarrow> c \<in> set ''0123456789''"

text \<open>
  \<open>\d{1,3}(\.\d+)?\<close> at the front of a string: the rest behind it. What follows in the pattern is never
  a digit, so matching greedily loses nothing.
\<close>

definition number13 :: "string \<Rightarrow> string option" where
  "number13 s =
     (let ds = takeWhile isDigit s; r = dropWhile isDigit s in
      if ds = [] \<or> 3 < length ds then None
      else case r of
          [] \<Rightarrow> Some r
        | c # r' \<Rightarrow>
            if c = CHR ''.'' \<and> takeWhile isDigit r' \<noteq> [] then Some (dropWhile isDigit r') else Some r)"

text \<open>\<open>\s+\<close> and \<open>%\<close>.\<close>

definition spaces1 :: "string \<Rightarrow> string option" where
  "spaces1 s = (let r = strip wsTokens s in if r = s then None else Some r)"

definition percentSign :: "string \<Rightarrow> string option" where
  "percentSign s = (case s of c # r \<Rightarrow> if c = CHR ''%'' then Some r else None | [] \<Rightarrow> None)"

text \<open>\<open>/^\d{1,3}(\.\d+)?\s+\d{1,3}(\.\d+)?%\s+\d{1,3}(\.\d+)?%$/.test(v.trim())\<close>.\<close>

definition isHsl :: "string \<Rightarrow> bool" where
  "isHsl v \<longleftrightarrow>
     foldl Option.bind (Some (trim v))
       [number13, spaces1, number13, percentSign, spaces1, number13, percentSign] = Some []"

definition mapping :: "(string \<times> string) list" where
  "mapping = [(''primary'', ''primary''), (''bg'', ''background''), (''fg'', ''foreground''),
     (''muted'', ''muted''), (''accent'', ''accent''), (''destructive'', ''destructive''),
     (''warning'', ''warning''), (''success'', ''success''), (''info'', ''info'')]"

definition hsl :: "string \<Rightarrow> string" where
  "hsl v = ''hsl('' @ v @ '')''"

text \<open>A style property and its value, as given to \<open>setProperty\<close>.\<close>

type_synonym css_rule = "string \<times> string"

definition tokenRules :: "json \<Rightarrow> css_rule list" where
  "tokenRules variant = concat (map (\<lambda>(paletteKey, cssName).
     case getProp variant paletteKey of
       JStr value \<Rightarrow> if isHsl value then [(''--color-'' @ cssName, hsl value)] else []
     | _ \<Rightarrow> []) mapping)"

text \<open>
  The derived tokens: \<open>if (v && isHsl(v)) ...\<close>. A truthy value that is not a string makes \<open>v.trim\<close>
  fail; the exception ends the effect, which is the second component.
\<close>

definition derivedRules :: "json \<Rightarrow> string list \<Rightarrow> css_rule list \<times> bool" where
  "derivedRules value names =
     (case value of
        JStr v \<Rightarrow> (if v \<noteq> [] \<and> isHsl v then map (\<lambda>n. (n, hsl v)) names else [], True)
      | _ \<Rightarrow> ([], \<not> truthy value))"

definition paletteRules :: "json \<Rightarrow> bool \<Rightarrow> css_rule list" where
  "paletteRules skin dark =
     (let palette = getProp skin ''palette'' in
      if \<not> truthy palette then []
      else let variant = getProp palette (if dark then ''dark'' else ''light'') in
        if \<not> truthy variant then []
        else (let bg = derivedRules (getProp variant ''bg'') [''--color-card'', ''--color-popover''];
                  fg = derivedRules (getProp variant ''fg'')
                    [''--color-card-foreground'', ''--color-popover-foreground'']
              in tokenRules variant @ fst bg @ (if snd bg then fst fg else [])))"

section \<open>Fonts, radius, links and images\<close>

text \<open>\<open>/^https:\/\//i\<close>.\<close>

definition isHttps :: "string \<Rightarrow> bool" where
  "isHttps url \<longleftrightarrow> startsWith (map lowerChar url) ''https://''"

text \<open>\<open>/^(0|\d+(\.\d+)?(px|rem|em|%))$/\<close>.\<close>

definition isCssLength :: "string \<Rightarrow> bool" where
  "isCssLength v \<longleftrightarrow> v = ''0'' \<or>
     (takeWhile isDigit v \<noteq> [] \<and>
      (let r = dropWhile isDigit v;
           u = (case r of [] \<Rightarrow> r
             | c # r' \<Rightarrow> if c = CHR ''.'' \<and> takeWhile isDigit r' \<noteq> [] then dropWhile isDigit r' else r)
       in u \<in> set [''px'', ''rem'', ''em'', ''%'']))"

text \<open>\<open>/^[a-zA-Z0-9 ,_'"-]+$/\<close>.\<close>

definition isSafeFont :: "string \<Rightarrow> bool" where
  "isSafeFont v \<longleftrightarrow> v \<noteq> [] \<and> list_all (\<lambda>c. alnum c \<or> c \<in> set ('' ,_-'' @ [CHR 0x27, CHR 0x22])) v"

text \<open>\<open>/^(data:image\/(png|jpe?g|...);base64,|https:\/\/)/i\<close>.\<close>

definition isSafeImage :: "string \<Rightarrow> bool" where
  "isSafeImage v \<longleftrightarrow> isHttps v \<or>
     list_ex (\<lambda>t. startsWith (map lowerChar v) (''data:image/'' @ t @ '';base64,''))
       [''png'', ''jpeg'', ''jpg'', ''gif'', ''webp'', ''svg+xml'', ''x-icon'', ''vnd.microsoft.icon'']"

text \<open>
  The protocol \<open>new URL(url, origin)\<close> finds, \<open>None\<close> when it throws, is the parameter \<open>protocolOf\<close>.
\<close>

definition safeHref :: "(string \<Rightarrow> string option) \<Rightarrow> string option \<Rightarrow> string option" where
  "safeHref protocolOf url =
     (if \<not> present url then None
      else let u = the url in
        if (case u of c # d # _ \<Rightarrow> c = CHR ''/'' \<and> d \<noteq> CHR ''/'' \<and> d \<noteq> CHR 0x5C | _ \<Rightarrow> False)
        then Some u
        else case protocolOf u of
            Some p \<Rightarrow> if p = ''http:'' \<or> p = ''https:'' \<or> p = ''mailto:'' then Some u else None
          | None \<Rightarrow> None)"

text \<open>
  The effect of \<open>SkinInjector\<close> on the style sheet links and the root element. \<open>hrefOf\<close> is the
  normalised address a link element reports for the address it was given.
\<close>

definition skinEffect ::
  "(string \<Rightarrow> string) \<Rightarrow> json \<Rightarrow> bool \<Rightarrow> string list \<Rightarrow> string list \<times> css_rule list" where
  "skinEffect hrefOf skin isLoading links =
     (if \<not> truthy skin \<or> isLoading then (links, [])
      else let typography = getProp skin ''typography'' in
        (case getProp typography ''fontUrl'' of
           JStr fontUrl \<Rightarrow>
             if fontUrl \<noteq> [] \<and> isHttps fontUrl \<and> \<not> list_ex (\<lambda>l. l = fontUrl) links
             then links @ [hrefOf fontUrl] else links
         | _ \<Rightarrow> links,
         (case getProp typography ''sans'' of
            JStr v \<Rightarrow> if v \<noteq> [] \<and> isSafeFont v then [(''--skin-sans-font'', v)] else [] | _ \<Rightarrow> []) @
         (case getProp typography ''mono'' of
            JStr v \<Rightarrow> if v \<noteq> [] \<and> isSafeFont v then [(''--skin-mono-font'', v)] else [] | _ \<Rightarrow> []) @
         (case getProp skin ''borderRadius'' of
            JStr v \<Rightarrow> if v \<noteq> [] \<and> isCssLength v then [(''--skin-border-radius'', v)] else [] | _ \<Rightarrow> [])))"

text \<open>The links of the footer: at most five, each with its address or as plain text.\<close>

definition operatorFooter ::
  "(string \<Rightarrow> string option) \<Rightarrow> (string \<times> string option) list option \<Rightarrow> (string \<times> string option) list" where
  "operatorFooter protocolOf footerLinks =
     (let displayLinks = (case footerLinks of None \<Rightarrow> [] | Some ls \<Rightarrow> take 5 ls)
      in map (\<lambda>(label, url). (label, safeHref protocolOf url)) displayLinks)"

text \<open>The source of the login image, when it is shown.\<close>

definition loginHeroImage :: "string option \<Rightarrow> string option" where
  "loginHeroImage uri = (if \<not> present uri \<or> \<not> isSafeImage (the uri) then None else uri)"

section \<open>Nothing breaks out of a declaration\<close>

text \<open>The bytes that could end a declaration, open a block or a function, or start a comment or an address.\<close>

definition inert :: "string \<Rightarrow> bool" where
  "inert v \<longleftrightarrow> set v \<inter> set ('';{}()/:<>@!'' @ [CHR 0x5C]) = {}"

definition spaceBytes :: "char set" where
  "spaceBytes = \<Union> (set ` set wsTokens)"

definition hslBytes :: "char set" where
  "hslBytes = set ''0123456789.%'' \<union> spaceBytes"

lemma strip_bytes: "\<exists>p. s = p @ strip toks s \<and> set p \<subseteq> \<Union> (set ` set toks)"
proof (induction toks s rule: strip.induct)
  case (1 toks s)
  show ?case
  proof (cases "find (\<lambda>t. t \<noteq> [] \<and> prefix t s) toks")
    case None
    then show ?thesis by (subst strip.simps) simp
  next
    case (Some t)
    then have t: "t \<in> set toks" "prefix t s" by (auto simp: find_Some_iff)
    from 1[OF Some] obtain p where p: "drop (length t) s = p @ strip toks (drop (length t) s)"
      "set p \<subseteq> \<Union> (set ` set toks)" by auto
    have "s = t @ drop (length t) s" using t(2) by (auto simp: prefix_def)
    moreover have "strip toks s = strip toks (drop (length t) s)"
      using Some by (subst strip.simps) simp
    ultimately have "s = (t @ p) @ strip toks s" using p(1) by simp
    then show ?thesis using p(2) t(1) by (intro exI[of _ "t @ p"]) auto
  qed
qed

lemma trim_bytes: "set v \<subseteq> set (trim v) \<union> spaceBytes"
proof -
  obtain p where p: "v = p @ trimStart v" "set p \<subseteq> spaceBytes"
    using strip_bytes[of v wsTokens] by (auto simp: trimStart_def spaceBytes_def)
  obtain q where q: "rev (trimStart v) = q @ strip (map rev wsTokens) (rev (trimStart v))"
      "set q \<subseteq> spaceBytes"
    using strip_bytes[of "rev (trimStart v)" "map rev wsTokens"] by (auto simp: spaceBytes_def)
  from q(1) have "set (trimStart v) = set q \<union> set (trim v)"
    by (metis set_append set_rev trim_def trimEnd_def)
  moreover from p(1) have "set v = set p \<union> set (trimStart v)" by (metis set_append)
  ultimately show ?thesis using p(2) q(2) by auto
qed

text \<open>A recogniser that consumes only bytes of \<open>A\<close>.\<close>

definition eats :: "char set \<Rightarrow> (string \<Rightarrow> string option) \<Rightarrow> bool" where
  "eats A f \<longleftrightarrow> (\<forall>s r. f s = Some r \<longrightarrow> (\<exists>p. s = p @ r \<and> set p \<subseteq> A))"

lemma eats_number13: "eats hslBytes number13"
proof -
  have digits: "set (takeWhile isDigit s) \<subseteq> hslBytes" for s
    by (auto dest!: set_takeWhileD simp: isDigit_def hslBytes_def)
  have "\<exists>p. s = p @ r \<and> set p \<subseteq> hslBytes" if "number13 s = Some r" for s r
  proof -
    have "(\<exists>r'. dropWhile isDigit s = CHR ''.'' # r' \<and> r = dropWhile isDigit r') \<or> r = dropWhile isDigit s"
      using that by (cases "dropWhile isDigit s") (auto simp: number13_def Let_def simp del: dropWhile_eq_Nil_conv split: if_splits)
    then consider (frac) r' where "dropWhile isDigit s = CHR ''.'' # r'" "r = dropWhile isDigit r'"
      | (int) "r = dropWhile isDigit s" by blast
    then show ?thesis
    proof cases
      case int
      then show ?thesis using digits[of s] by (intro exI[of _ "takeWhile isDigit s"]) simp
    next
      case frac
      have "s = takeWhile isDigit s @ CHR ''.'' # takeWhile isDigit r' @ r"
        using frac by (metis takeWhile_dropWhile_id)
      then show ?thesis using digits[of s] digits[of r']
        by (intro exI[of _ "takeWhile isDigit s @ CHR ''.'' # takeWhile isDigit r'"])
           (auto simp: hslBytes_def)
    qed
  qed
  then show ?thesis by (auto simp: eats_def)
qed

lemma eats_spaces1: "eats hslBytes spaces1"
proof -
  have "\<exists>p. s = p @ strip wsTokens s \<and> set p \<subseteq> hslBytes" for s
    using strip_bytes[of s wsTokens] by (auto simp: hslBytes_def spaceBytes_def)
  then show ?thesis by (auto simp: eats_def spaces1_def Let_def split: if_splits)
qed

lemma eats_percent: "eats hslBytes percentSign"
  by (auto simp: eats_def percentSign_def hslBytes_def split: list.splits if_splits)

lemma eats_all:
  "list_all (eats A) fs \<Longrightarrow> foldl Option.bind (Some s) fs = Some [] \<Longrightarrow> set s \<subseteq> A"
proof (induction fs arbitrary: s)
  case (Cons f fs)
  have none: "foldl Option.bind None fs = None" for fs :: "(string \<Rightarrow> string option) list"
    by (induction fs) simp_all
  from Cons.prems none obtain r where r: "f s = Some r" "foldl Option.bind (Some r) fs = Some []"
    by (cases "f s") auto
  have "eats A f" "list_all (eats A) fs" using Cons.prems(1) by simp_all
  then obtain p where "s = p @ r" "set p \<subseteq> A" using r(1) by (auto simp: eats_def)
  moreover have "set r \<subseteq> A" by (rule Cons.IH) fact+
  ultimately show ?case by simp
qed simp

lemma isHsl_bytes: "isHsl v \<Longrightarrow> set v \<subseteq> hslBytes"
proof -
  let ?fs = "[number13, spaces1, number13, percentSign, spaces1, number13, percentSign]"
  assume "isHsl v"
  then have "foldl Option.bind (Some (trim v)) ?fs = Some []" by (simp only: isHsl_def)
  moreover have "list_all (eats hslBytes) ?fs"
    by (simp only: list.pred_inject eats_number13 eats_spaces1 eats_percent simp_thms)
  ultimately have "set (trim v) \<subseteq> hslBytes" using eats_all[of hslBytes ?fs "trim v"] by iprover
  moreover have "spaceBytes \<subseteq> hslBytes" by (simp only: hslBytes_def Un_upper2)
  ultimately show ?thesis using trim_bytes[of v] by blast
qed

lemma font_inert: "isSafeFont v \<Longrightarrow> inert v"
proof -
  have "alnum c \<Longrightarrow> c \<notin> set ('';{}()/:<>@!'' @ [CHR 0x5C])" for c by (auto simp: alnum_def)
  moreover have "c \<in> set ('' ,_-'' @ [CHR 0x27, CHR 0x22]) \<Longrightarrow>
      c \<notin> set ('';{}()/:<>@!'' @ [CHR 0x5C])" for c by auto
  ultimately show "isSafeFont v \<Longrightarrow> inert v"
    unfolding isSafeFont_def inert_def list_all_iff by blast
qed

lemma length_inert: "isCssLength v \<Longrightarrow> inert v"
proof -
  have digit: "isDigit c \<Longrightarrow> c \<notin> set ('';{}()/:<>@!'' @ [CHR 0x5C])" for c by (auto simp: isDigit_def)
  have unit: "u \<in> set [''px'', ''rem'', ''em'', ''%''] \<Longrightarrow> inert u" for u
    by (auto simp: inert_def)
  have split: "inert (takeWhile isDigit s @ r) = inert r" for s r
  proof -
    have "set (takeWhile isDigit s) \<inter> set ('';{}()/:<>@!'' @ [CHR 0x5C]) = {}"
      using digit set_takeWhileD[of _ isDigit s] by blast
    then show ?thesis unfolding inert_def set_append[of "takeWhile isDigit s"] Int_Un_distrib2 by simp
  qed
  assume v: "isCssLength v"
  show ?thesis
  proof (cases "v = ''0''")
    case True
    then show ?thesis by (simp add: inert_def)
  next
    case False
    have "inert (dropWhile isDigit v)"
    proof (cases "dropWhile isDigit v")
      case Nil
      then show ?thesis by (simp add: inert_def del: dropWhile_eq_Nil_conv)
    next
      case (Cons c r')
      show ?thesis
      proof (cases "c = CHR ''.'' \<and> takeWhile isDigit r' \<noteq> []")
        case True
        then have "inert (dropWhile isDigit r')"
          using v False Cons by (intro unit) (simp add: isCssLength_def Let_def)
        then have "inert r'" using split[of r' "dropWhile isDigit r'"] by simp
        then show ?thesis using Cons True by (simp add: inert_def)
      next
        case no: False
        have "dropWhile isDigit v \<in> set [''px'', ''rem'', ''em'', ''%'']"
          using v False by (simp only: isCssLength_def Cons list.case no if_False Let_def simp_thms)
        then show ?thesis by (rule unit)
      qed
    qed
    then show ?thesis using split[of v "dropWhile isDigit v"] by simp
  qed
qed

text \<open>
  C18. Whatever an operator uploads as a skin, no value that reaches a style property can leave its
  declaration: a palette colour is \<open>hsl(...)\<close> around nothing but digits, dots, percent signs and white
  space, and a font or radius holds no semicolon, brace, parenthesis, slash, colon, angle bracket, at
  sign, exclamation mark or backslash.
\<close>

theorem skin_css_inert:
  "list_all (\<lambda>r. \<exists>v. snd r = hsl v \<and> set v \<subseteq> set ''0123456789.%'' \<union> spaceBytes) (paletteRules skin dark) \<and>
   list_all (\<lambda>r. inert (snd r)) (snd (skinEffect hrefOf computed loading links))"
proof
  have d: "list_all (\<lambda>r. \<exists>v. snd r = hsl v \<and> set v \<subseteq> hslBytes) (fst (derivedRules j ns))" for j ns
    by (cases j) (auto simp: derivedRules_def list_all_iff intro!: exI dest: isHsl_bytes [THEN subsetD])
  have t: "list_all (\<lambda>r. \<exists>v. snd r = hsl v \<and> set v \<subseteq> hslBytes) (tokenRules variant)" for variant
    using isHsl_bytes
    by (fastforce simp: tokenRules_def list_all_iff split: json.splits if_splits)
  show "list_all (\<lambda>r. \<exists>v. snd r = hsl v \<and> set v \<subseteq> set ''0123456789.%'' \<union> spaceBytes) (paletteRules skin dark)"
    unfolding hslBytes_def [symmetric] by (simp add: paletteRules_def Let_def d t)
  show "list_all (\<lambda>r. inert (snd r)) (snd (skinEffect hrefOf computed loading links))"
    by (auto simp: skinEffect_def Let_def list_all_iff intro: font_inert length_inert
        split: json.splits if_splits)
qed

text \<open>
  No script address becomes clickable: the footer shows at most five links, and each
  one that is clickable is a path of the application or an address whose protocol the browser reads as http,
  https or mailto; a stylesheet is only ever loaded over https and never a second time under the
  address it was loaded from.
\<close>

theorem skin_links_safe:
  "length (operatorFooter protocolOf ls) \<le> 5 \<and>
   list_all (\<lambda>(label, href). case href of None \<Rightarrow> True | Some u \<Rightarrow>
      (startsWith u ''/'' \<and> \<not> startsWith u ''//'') \<or>
      protocolOf u \<in> {Some ''http:'', Some ''https:'', Some ''mailto:''}) (operatorFooter protocolOf ls) \<and>
   (let links' = fst (skinEffect hrefOf computed loading links) in
      links' = links \<or> (\<exists>u. isHttps u \<and> links' = links @ [hrefOf u] \<and> u \<notin> set links))"
proof (intro conjI)
  show "length (operatorFooter protocolOf ls) \<le> 5"
    by (simp add: operatorFooter_def split: option.split)
  have href: "(startsWith u ''/'' \<and> \<not> startsWith u ''//'') \<or>
      protocolOf u \<in> {Some ''http:'', Some ''https:'', Some ''mailto:''}"
    if "safeHref protocolOf x = Some u" for x u
    using that by (auto simp: safeHref_def Let_def split: if_splits option.splits list.splits)
  show "list_all (\<lambda>(label, href). case href of None \<Rightarrow> True | Some u \<Rightarrow>
      (startsWith u ''/'' \<and> \<not> startsWith u ''//'') \<or>
      protocolOf u \<in> {Some ''http:'', Some ''https:'', Some ''mailto:''}) (operatorFooter protocolOf ls)"
    using href by (fastforce simp: operatorFooter_def list_all_iff split: option.split)
  show "let links' = fst (skinEffect hrefOf computed loading links) in
      links' = links \<or> (\<exists>u. isHttps u \<and> links' = links @ [hrefOf u] \<and> u \<notin> set links)"
    by (auto simp: skinEffect_def Let_def list_ex_iff split: json.split)
qed

text \<open>
  The check for a stylesheet that is already there compares the normalised address of the link with
  the operator's spelling, so an address the browser normalises (\<open>https://fonts.example\<close> becomes
  \<open>https://fonts.example/\<close>) is added again on every run of the effect.
\<close>

theorem font_link_duplicated:
  assumes "truthy skin" and "getProp (getProp skin ''typography'') ''fontUrl'' = JStr u"
    and "isHttps u" and "u \<noteq> hrefOf u" and "u \<notin> set links"
  shows "fst (skinEffect hrefOf skin False (fst (skinEffect hrefOf skin False links))) =
    links @ [hrefOf u, hrefOf u]"
proof -
  have "u \<noteq> []" using assms(3) by (auto simp: isHttps_def)
  then show ?thesis using assms by (auto simp: skinEffect_def Let_def list_ex_iff)
qed

end
