(* ===== verification/Js_Numbers.thy ===== *)
theory Js_Numbers
  imports Prelude
begin

text \<open>
  Decimal notation of numbers, and reading it back: the digits of \<open>Prelude.dec\<close>, \<open>parseInt\<close>, and the facts
  the forms and the countdown share.
\<close>

section \<open>Reading a number\<close>

definition digitChar :: "char \<Rightarrow> bool" where
  "digitChar c \<longleftrightarrow> (48 :: nat) \<le> of_char c \<and> of_char c \<le> (57 :: nat)"

definition digitsValue :: "string \<Rightarrow> int" where
  "digitsValue = foldl (\<lambda>n c. 10 * n + (of_char c - 48)) 0"

text \<open>
  \<open>parseInt(s, 10)\<close>: white space, a sign, and as many digits as follow; \<open>None\<close> is \<open>NaN\<close>. The inputs
  it is used on are limited far below where a number loses digits.
\<close>

definition parseInt :: "string \<Rightarrow> int option" where
  "parseInt s =
     (let t = trimStart s;
          negative = startsWith t ''-'';
          u = (if negative \<or> startsWith t ''+'' then tl t else t);
          ds = takeWhile digitChar u
      in if ds = [] then None
         else Some (if negative then - digitsValue ds else digitsValue ds))"

section \<open>Reading back what was written\<close>

lemma digitsValue_snoc: "digitsValue (s @ [c]) = 10 * digitsValue s + (of_char c - 48)"
  by (simp add: digitsValue_def)

lemma digit_code: "n < 10 \<Longrightarrow> (of_char (char_of (48 + n) :: char) :: nat) = 48 + n"
  by simp

lemma digit_code_int: "n < 10 \<Longrightarrow> (of_char (char_of (48 + n) :: char) :: int) = 48 + int n"
  using digit_code [of n] by (metis of_nat_of_char of_nat_add of_nat_numeral)

lemma digits_dec: "list_all digitChar (dec n) \<and> dec n \<noteq> [] \<and> digitsValue (dec n) = int n"
proof (induction n rule: dec.induct)
  case (1 n)
  show ?case
  proof (cases "n < 10")
    case True
    then have "digitsValue [char_of (48 + n)] = int n"
      using digit_code_int [OF True] by (simp add: digitsValue_def)
    then show ?thesis using True digit_code [OF True]
      by (subst dec.simps) (simp add: digitChar_def dec.simps)
  next
    case False
    have d: "dec n = dec (n div 10) @ [char_of (48 + n mod 10)]" using False by (subst dec.simps) simp
    have "int n = int (10 * (n div 10) + n mod 10)" by simp
    then have eq: "int n = 10 * int (n div 10) + int (n mod 10)"
      by (simp only: of_nat_add of_nat_mult of_nat_numeral)
    have m: "n mod 10 \<le> 9" by simp
    show ?thesis
      unfolding d using 1 [OF False] digit_code [of "n mod 10"] digit_code_int [of "n mod 10"] m
      by (simp add: digitChar_def digitsValue_snoc flip: eq)
  qed
qed

lemma digits_first:
  assumes "list_all digitChar s" and "s \<noteq> []"
  shows "trimStart s = s" "\<not> startsWith s ''-''" "\<not> startsWith s ''+''"
proof -
  obtain c cs where c: "s = c # cs" using assms(2) by (cases s) auto
  then have dig: "digitChar c" using assms(1) by simp
  have "list_all (\<lambda>t. case t of [] \<Rightarrow> True | b # _ \<Rightarrow> \<not> digitChar b) wsTokens" by code_simp
  then have "\<forall>t \<in> set wsTokens. t = [] \<or> \<not> prefix t s"
    using dig by (auto simp: c list_all_iff prefix_Cons)
  then show "trimStart s = s" unfolding trimStart_def by (rule strip_id)
  have "\<not> digitChar CHR ''-''" "\<not> digitChar CHR ''+''" by code_simp+
  then show "\<not> startsWith s ''-''" "\<not> startsWith s ''+''" using dig by (auto simp: c)
qed

lemma parseInt_digits:
  assumes "list_all digitChar s" and "s \<noteq> []"
  shows "parseInt s = Some (digitsValue s)"
proof -
  have tw: "takeWhile digitChar s = s"
    using assms by (simp add: list_all_iff takeWhile_eq_all_conv)
  show ?thesis
    using assms digits_first [OF assms] unfolding parseInt_def Let_def
    by (simp add: tw del: takeWhile_eq_Nil_iff)
qed

text \<open>\<open>parseInt(String(n), 10)\<close>.\<close>

lemma parseInt_decInt:
  assumes "0 \<le> i"
  shows "parseInt (decInt i) = Some i"
  using assms digits_dec [of "nat i"] by (simp add: decInt_def parseInt_digits)

lemma dec_chars: "c \<in> set (dec n) \<Longrightarrow> digitChar c"
  using digits_dec [of n] by (auto simp: list_all_iff)

lemma nat_digits: "nat (digitsValue (dec n)) = n"
  using digits_dec [of n] by simp

end
