(* ===== verification/Persona.thy ===== *)
theory Persona
  imports Auth_Mode Prompts Js_Numbers
begin

text \<open>
  The persona pill of the page header (\<open>components/layout/PersonaPill.tsx\<close>): the countdown, the
  toasts around the end of an admin session, the drop button and the role switcher.

  A mounted pill keeps four refs and states; the module variable \<open>sessionEndedHandledFor\<close> is shared
  by all mounted pills and outlives them. What React calls a commit hands the same mode, expiry and
  role to every mounted pill, whose effects run one after the other. An effect whose dependencies
  did not change is not run by React; here it runs on every commit, which makes no difference since
  both effects do nothing unless the mode or the warning window changed.
\<close>

section \<open>The countdown\<close>

text \<open>\<open>n.toString().padStart(2, "0")\<close>.\<close>

definition pad2 :: "nat \<Rightarrow> string" where
  "pad2 n = replicate (2 - length (dec n)) CHR ''0'' @ dec n"

definition formatRemaining :: "int \<Rightarrow> string" where
  "formatRemaining msRemaining =
     (let clamped = nat (max 0 (msRemaining div 1000));
          h = clamped div 3600;
          m = clamped mod 3600 div 60;
          s = clamped mod 60
      in if h > 0 then dec h @ '':'' @ pad2 m @ '':'' @ pad2 s
         else dec m @ '':'' @ pad2 s)"

definition WARN_AMBER_MS :: int where
  "WARN_AMBER_MS = 2 * 60 * 1000"

definition WARN_RED_MS :: int where
  "WARN_RED_MS = 30 * 1000"

definition elevatedNow :: "auth_mode \<Rightarrow> bool" where
  "elevatedNow m \<longleftrightarrow> m = AdminMode \<or> m = ElevatedMode"

definition remainingMs :: "int \<Rightarrow> int \<Rightarrow> int" where
  "remainingMs expiresAt now = (if expiresAt > 0 then expiresAt - now else 0)"

definition showCountdown :: "auth_mode \<Rightarrow> int \<Rightarrow> bool" where
  "showCountdown m expiresAt \<longleftrightarrow> expiresAt > 0 \<and> elevatedNow m"

definition inAmberWindow :: "auth_mode \<Rightarrow> int \<Rightarrow> int \<Rightarrow> bool" where
  "inAmberWindow m expiresAt now \<longleftrightarrow>
     showCountdown m expiresAt \<and> remainingMs expiresAt now > 0 \<and>
     remainingMs expiresAt now \<le> WARN_AMBER_MS"

definition inRedWindow :: "auth_mode \<Rightarrow> int \<Rightarrow> int \<Rightarrow> bool" where
  "inRedWindow m expiresAt now \<longleftrightarrow>
     showCountdown m expiresAt \<and> remainingMs expiresAt now > 0 \<and>
     remainingMs expiresAt now \<le> WARN_RED_MS"

section \<open>The pill\<close>

text \<open>\<open>warnedRef\<close>: \<open>null\<close>, \<open>"ended"\<close>, or the expiry a warning was shown for.\<close>

datatype latch = Unwarned | EndedLatch | WarnedFor int

record pill =
  piPrevMode :: auth_mode
  piWarned :: latch
  piFlashing :: bool
  piNow :: int

datatype pill_toast = SessionEnded | ExpiresSoon | DropDone | DropRefused nat | DropNetworkError

text \<open>What the context and the session query hand to a pill.\<close>

record pill_props =
  ppMode :: auth_mode
  ppExpires :: int
  ppRole :: "active_role option"

definition mountPill :: "pill_props \<Rightarrow> int \<Rightarrow> pill" where
  "mountPill p now =
     \<lparr>piPrevMode = ppMode p, piWarned = Unwarned, piFlashing = False, piNow = now\<rparr>"

definition goingToUserRole :: "active_role option \<Rightarrow> bool" where
  "goingToUserRole r \<longleftrightarrow> (case r of None \<Rightarrow> True | Some a \<Rightarrow> arKind a = ''user'')"

text \<open>
  The effect on a change of mode: the pill, the shared sentinel and the toasts. A rising edge resets
  the latches, a falling one may announce the end of the session.
\<close>

definition modeEdge ::
  "pill_props \<Rightarrow> int option \<Rightarrow> pill \<Rightarrow> pill \<times> int option \<times> pill_toast list" where
  "modeEdge p sentinel x =
     (let elevated = elevatedNow (ppMode p);
          wasElevated = elevatedNow (piPrevMode x);
          (x1, sentinel1) =
            (if elevated \<and> \<not> wasElevated then (x\<lparr>piWarned := Unwarned, piFlashing := False\<rparr>, None)
             else (x, sentinel));
          (x2, sentinel2, toasts) =
            (if \<not> elevated \<and> wasElevated \<and> goingToUserRole (ppRole p) \<and> sentinel1 \<noteq> Some (ppExpires p)
             then (x1\<lparr>piWarned := EndedLatch\<rparr>, Some (ppExpires p), [SessionEnded])
             else (x1, sentinel1, []))
      in (x2\<lparr>piPrevMode := ppMode p\<rparr>, sentinel2, toasts))"

definition warnEffect :: "pill_props \<Rightarrow> pill \<Rightarrow> pill \<times> pill_toast list" where
  "warnEffect p x =
     (if \<not> showCountdown (ppMode p) (ppExpires p) then (x, [])
      else if \<not> inRedWindow (ppMode p) (ppExpires p) (piNow x) then (x, [])
      else if piWarned x = WarnedFor (ppExpires p) then (x, [])
      else (x\<lparr>piWarned := WarnedFor (ppExpires p), piFlashing := True\<rparr>, [ExpiresSoon]))"

definition pillEffects ::
  "pill_props \<Rightarrow> int option \<Rightarrow> pill \<Rightarrow> pill \<times> int option \<times> pill_toast list" where
  "pillEffects p sentinel x =
     (case modeEdge p sentinel x of (x1, sentinel1, t1) \<Rightarrow>
        (case warnEffect p x1 of (x2, t2) \<Rightarrow> (x2, sentinel1, t1 @ t2)))"

text \<open>One commit: every mounted pill in turn.\<close>

fun commitPills ::
  "pill_props \<Rightarrow> int option \<Rightarrow> pill list \<Rightarrow> pill list \<times> int option \<times> pill_toast list" where
  "commitPills p sentinel [] = ([], sentinel, [])"
| "commitPills p sentinel (x # xs) =
     (case pillEffects p sentinel x of (x', sentinel1, t1) \<Rightarrow>
        (case commitPills p sentinel1 xs of (xs', sentinel2, t2) \<Rightarrow>
           (x' # xs', sentinel2, t1 @ t2)))"

section \<open>The page with its pills\<close>

record pill_page =
  pgProps :: pill_props
  pgPills :: "pill list"
  pgSentinel :: "int option"

text \<open>
  What happens to them: new values from the context, a second passing in one pill (its interval sets
  \<open>now\<close>), a pill appearing with a page and disappearing, and the server accepting a press of the drop
  button of a render with the given expiry.
\<close>

datatype pill_event =
    Commit pill_props
  | SecondPasses nat int
  | PillMounts int
  | PillUnmounts nat
  | DropAccepted int

definition commitPage :: "pill_props \<Rightarrow> pill_page \<Rightarrow> pill_page \<times> pill_toast list" where
  "commitPage p g =
     (case commitPills p (pgSentinel g) (pgPills g) of (xs, sentinel, toasts) \<Rightarrow>
        (\<lparr>pgProps = p, pgPills = xs, pgSentinel = sentinel\<rparr>, toasts))"

text \<open>
  \<open>handleDrop\<close> after an accepted answer: the mode is set, the session query invalidated, the browser
  sent to \<open>/files\<close>, the sentinel claimed for the expiry this render closed over, and the success
  toast shown. The commit for the new mode comes after the handler has run.
\<close>

definition dropAccepted :: "int \<Rightarrow> pill_page \<Rightarrow> pill_page \<times> pill_toast list" where
  "dropAccepted expiresAt g =
     (let claimed = g\<lparr>pgSentinel := Some expiresAt\<rparr>
      in (case commitPage ((pgProps g)\<lparr>ppMode := UserMode, ppExpires := 0\<rparr>) claimed of
            (g', toasts) \<Rightarrow> (g', DropDone # toasts)))"

fun pillStep :: "pill_event \<Rightarrow> pill_page \<Rightarrow> pill_page \<times> pill_toast list" where
  "pillStep (Commit p) g = commitPage p g"
| "pillStep (SecondPasses i t) g =
     (if i < length (pgPills g)
      then commitPage (pgProps g) (g\<lparr>pgPills := (pgPills g)[i := (pgPills g ! i)\<lparr>piNow := t\<rparr>]\<rparr>)
      else (g, []))"
| "pillStep (PillMounts t) g =
     commitPage (pgProps g) (g\<lparr>pgPills := pgPills g @ [mountPill (pgProps g) t]\<rparr>)"
| "pillStep (PillUnmounts i) g = (g\<lparr>pgPills := take i (pgPills g) @ drop (Suc i) (pgPills g)\<rparr>, [])"
| "pillStep (DropAccepted e) g = dropAccepted e g"

fun pillRun :: "pill_event list \<Rightarrow> pill_page \<Rightarrow> pill_page \<times> pill_toast list" where
  "pillRun [] g = (g, [])"
| "pillRun (e # es) g =
     (case pillStep e g of (g1, t1) \<Rightarrow> (case pillRun es g1 of (g2, t2) \<Rightarrow> (g2, t1 @ t2)))"

text \<open>The page as it first appears.\<close>

definition freshPage :: "pill_props \<Rightarrow> int list \<Rightarrow> pill_page" where
  "freshPage p ts = \<lparr>pgProps = p, pgPills = map (mountPill p) ts, pgSentinel = None\<rparr>"

section \<open>The drop button\<close>

definition dropReq :: fetch_req where
  "dropReq = (bareReq ''POST'' [])\<lparr>rqUrl := Abs ''/api/v1/auth/logout-elevation''\<rparr>"

text \<open>
  One press: nothing while an earlier one runs, otherwise one request and the toast for each answer;
  \<open>Some DropDone\<close> is the branch \<open>dropAccepted\<close> plays.
\<close>

definition handleDropPrivileges :: "bool \<Rightarrow> pill_toast option js" where
  "handleDropPrivileges dropping =
     (if dropping then Ret None
      else catchJs (awaitFetch dropReq (\<lambda>res.
             if \<not> httpOk (rsStatus res) then Ret (Some (DropRefused (rsStatus res)))
             else Ret (Some DropDone)))
        (\<lambda>_. Ret (Some DropNetworkError)))"

section \<open>The role switcher\<close>

text \<open>The value of a role in the menu, and the value the menu shows as checked.\<close>

definition roleValue :: "available_role \<Rightarrow> string" where
  "roleValue r =
     (if avKind r = ''cluster-admin'' \<and> present (avCluster r)
      then ''cluster-admin:'' @ the (avCluster r) else avKind r)"

definition checkedRole :: "active_role option \<Rightarrow> string" where
  "checkedRole a =
     (case a of None \<Rightarrow> ''user''
      | Some r \<Rightarrow> if arKind r = ''cluster-admin'' \<and> present (arCluster r)
          then ''cluster-admin:'' @ the (arCluster r) else arKind r)"

text \<open>
  \<open>r.kind === roleKey.split(":")[0] && (!r.cluster || r.cluster === roleKey.split(":")[1])\<close>.
\<close>

definition roleMatches :: "string \<Rightarrow> available_role \<Rightarrow> bool" where
  "roleMatches roleKey r \<longleftrightarrow>
     avKind r = hd (splitOn CHR '':'' roleKey) \<and>
     (\<not> present (avCluster r) \<or>
      (case splitOn CHR '':'' roleKey of
         _ # second # _ \<Rightarrow> avCluster r = Some second
       | _ \<Rightarrow> False))"

definition roleLabel :: "available_role list \<Rightarrow> active_role \<Rightarrow> string" where
  "roleLabel roles a =
     (case List.find (\<lambda>r. avKind r = arKind a \<and>
          (avKind r \<noteq> ''cluster-admin'' \<or> avCluster r = arCluster a)) roles of
        Some r \<Rightarrow> avLabel r
      | None \<Rightarrow> if arKind a = ''ui-admin'' then ''UI Admin''
          else if arKind a = ''cluster-admin'' then ''Cluster Admin'' else ''User'')"

text \<open>\<open>navigateForRole\<close>: the page to open, if any.\<close>

definition navigateForRole :: "available_role \<Rightarrow> string option" where
  "navigateForRole r =
     (if avKind r = ''user'' then Some ''/files''
      else if avKind r = ''cluster-admin'' \<and> present (avCluster r)
        then Some (''/admin/clusters/'' @ the (avCluster r))
      else if avKind r = ''ui-admin'' then Some ''/admin/system''
      else None)"

datatype role_outcome =
    NothingChosen
  | RoleSwitched "string option"
  | RoleToast string
  | PromptOpen

definition switchRequest :: "available_role \<Rightarrow> SwitchActiveRoleRequest" where
  "switchRequest r = \<lparr>srKind = avKind r, srCluster = avCluster r\<rparr>"

definition switchAndGo :: "available_role \<Rightarrow> role_outcome js" where
  "switchAndGo r =
     bindJs (mutationFn useSwitchActiveRole (switchRequest r)) (\<lambda>_. Ret (RoleSwitched (navigateForRole r)))"

abbreviation roleCancelledToast :: string where
  "roleCancelledToast \<equiv> ''Elevation required for this role and was cancelled''"

text \<open>The prompt is \<open>promptElevationFromAnywhere\<close>, as a program whose \<open>None\<close> never settles.\<close>

definition handleRoleChange ::
  "(auth_mode \<times> string option \<Rightarrow> unit option js) \<Rightarrow> UserResponse option \<Rightarrow> string
     \<Rightarrow> role_outcome js" where
  "handleRoleChange prompt user roleKey =
     (let activeRole = (case user of None \<Rightarrow> None | Some u \<Rightarrow> urActiveRole u);
          availableRoles = (case user of None \<Rightarrow> [] | Some u \<Rightarrow>
            (case urAvailableRoles u of None \<Rightarrow> [] | Some rs \<Rightarrow> rs))
      in if activeRole = None \<or> availableRoles = [] then Ret NothingChosen
         else (case List.find (roleMatches roleKey) availableRoles of
             None \<Rightarrow> Ret NothingChosen
           | Some selectedRole \<Rightarrow>
               catchJs (switchAndGo selectedRole) (\<lambda>err.
                 if statusOf err = Some 423
                 then catchJs (bindJs (prompt (AdminMode,
                          Some ''Switching to this role requires admin re-authentication.''))
                        (\<lambda>ans. case ans of None \<Rightarrow> Ret PromptOpen
                           | Some _ \<Rightarrow> switchAndGo selectedRole))
                      (\<lambda>_. Ret (RoleToast roleCancelledToast))
                 else Ret (RoleToast (if messageOf err \<noteq> [] then messageOf err
                                      else ''Failed to switch role'')))))"

section \<open>Reading the countdown\<close>

definition readNum :: "string \<Rightarrow> nat" where
  "readNum s = nat (digitsValue s)"

definition readClock :: "string \<Rightarrow> nat" where
  "readClock s = foldl (\<lambda>a part. 60 * a + readNum part) 0 (splitOn CHR '':'' s)"

lemma readNum_pad2: "readNum (dec n) = n" "readNum (pad2 n) = n"
proof -
  have "digitsValue (replicate k CHR ''0'' @ s) = digitsValue s" for k s
    by (induction k) (simp_all add: digitsValue_def)
  then show "readNum (dec n) = n" "readNum (pad2 n) = n"
    by (simp_all add: readNum_def pad2_def nat_digits)
qed

lemma dec_no_colon: "CHR '':'' \<notin> set (dec n)"
  using dec_chars [of "CHR '':''" n] by (auto simp: digitChar_def)

lemma pad2_no_colon: "CHR '':'' \<notin> set (pad2 n)"
  by (simp add: pad2_def dec_no_colon)

text \<open>
  The countdown is the remaining time: read back as hours, minutes and seconds, the text the
  pill shows is the number of whole seconds left, and zero once the session is over.
\<close>

theorem countdown_readable:
  "readClock (formatRemaining ms) = nat (max 0 (ms div 1000))"
proof -
  define c where "c = nat (max 0 (ms div 1000))"
  have "c mod 3600 mod 60 = c mod 60"
    by (rule mod_mod_cancel) simp
  then have split: "c = 3600 * (c div 3600) + (60 * (c mod 3600 div 60) + c mod 60)"
    using mult_div_mod_eq [of 3600 c] mult_div_mod_eq [of 60 "c mod 3600"] by metis
  have "splitOn CHR '':'' (formatRemaining ms) =
      (if c div 3600 > 0 then [dec (c div 3600), pad2 (c mod 3600 div 60), pad2 (c mod 60)]
       else [dec (c mod 3600 div 60), pad2 (c mod 60)])"
    unfolding formatRemaining_def Let_def c_def [symmetric]
    by (simp add: splitOn_append splitOn_no_delim dec_no_colon pad2_no_colon)
  then show ?thesis using split
    by (auto simp: readClock_def readNum_pad2 c_def [symmetric] split: if_splits)
qed

section \<open>Announcing the end of a session\<close>

definition ended :: "pill_toast list \<Rightarrow> nat" where
  "ended ts = length (filter (\<lambda>t. t = SessionEnded) ts)"

text \<open>
  A real end of an admin session between two values of the context: the mode falls, and the role
  that remains is the user role or none.
\<close>

definition endsSession :: "pill_props \<Rightarrow> pill_props \<Rightarrow> bool" where
  "endsSession old new \<longleftrightarrow>
     elevatedNow (ppMode old) \<and> \<not> elevatedNow (ppMode new) \<and> goingToUserRole (ppRole new)"

fun newProps :: "pill_event \<Rightarrow> pill_page \<Rightarrow> pill_props" where
  "newProps (Commit p) g = p"
| "newProps (DropAccepted e) g = (pgProps g)\<lparr>ppMode := UserMode, ppExpires := 0\<rparr>"
| "newProps _ g = pgProps g"

fun sessionEnds :: "pill_event list \<Rightarrow> pill_page \<Rightarrow> nat" where
  "sessionEnds [] g = 0"
| "sessionEnds (e # es) g =
     (if endsSession (pgProps g) (newProps e g) then 1 else 0) + sessionEnds es (fst (pillStep e g))"

text \<open>Some pill is mounted at every moment, and drops come from a button that shows a countdown.\<close>

fun realDrop :: "pill_event \<Rightarrow> bool" where
  "realDrop (DropAccepted c) \<longleftrightarrow> 0 < c"
| "realDrop _ \<longleftrightarrow> True"

fun pillThroughout :: "pill_event list \<Rightarrow> pill_page \<Rightarrow> bool" where
  "pillThroughout [] g \<longleftrightarrow> pgPills g \<noteq> []"
| "pillThroughout (e # es) g \<longleftrightarrow>
     pgPills g \<noteq> [] \<and> realDrop e \<and> pillThroughout es (fst (pillStep e g))"

text \<open>Every pill has seen the mode of the page; with a pill there, admin mode has freed the sentinel.\<close>

definition pillsAgree :: "pill_page \<Rightarrow> bool" where
  "pillsAgree g \<longleftrightarrow> (\<forall>x \<in> set (pgPills g). piPrevMode x = ppMode (pgProps g))"

definition sentinelFree :: "pill_page \<Rightarrow> bool" where
  "sentinelFree g \<longleftrightarrow> (elevatedNow (ppMode (pgProps g)) \<longrightarrow> pgSentinel g = None)"

lemma warn_facts:
  "piPrevMode (fst (warnEffect p x)) = piPrevMode x" "ended (snd (warnEffect p x)) = 0"
  by (simp_all add: warnEffect_def ended_def)

lemma ended_simps [simp]:
  "ended [] = 0"
  "ended (t # ts) = (if t = SessionEnded then 1 else 0) + ended ts"
  "ended (a @ b) = ended a + ended b"
  by (simp_all add: ended_def)

lemma pillEffects_parts:
  "piPrevMode (fst (pillEffects p s x)) = piPrevMode (fst (modeEdge p s x))"
  "fst (snd (pillEffects p s x)) = fst (snd (modeEdge p s x))"
  "ended (snd (snd (pillEffects p s x))) = ended (snd (snd (modeEdge p s x)))"
  by (simp_all add: pillEffects_def case_prod_beta warn_facts)

lemma commitPills_parts:
  "fst (commitPills p s (x # xs)) =
     fst (pillEffects p s x) # fst (commitPills p (fst (snd (pillEffects p s x))) xs)"
  "fst (snd (commitPills p s (x # xs))) = fst (snd (commitPills p (fst (snd (pillEffects p s x))) xs))"
  "ended (snd (snd (commitPills p s (x # xs)))) =
     ended (snd (snd (pillEffects p s x))) +
     ended (snd (snd (commitPills p (fst (snd (pillEffects p s x))) xs)))"
  by (simp_all add: case_prod_beta)

declare commitPills.simps(2) [simp del]

text \<open>One pill, by the kind of edge it sees.\<close>

lemma pill_prev: "piPrevMode (fst (pillEffects p s x)) = ppMode p"
  by (simp add: pillEffects_parts modeEdge_def Let_def)

lemma pill_still:
  assumes "elevatedNow (piPrevMode x) = elevatedNow (ppMode p)"
  shows "fst (snd (pillEffects p s x)) = s" "ended (snd (snd (pillEffects p s x))) = 0"
  using assms by (auto simp add: pillEffects_parts modeEdge_def Let_def)

lemma pill_rises:
  assumes "elevatedNow (ppMode p)"
  shows "fst (snd (pillEffects p s x)) = (if elevatedNow (piPrevMode x) then s else None)"
    "ended (snd (snd (pillEffects p s x))) = 0"
  using assms by (simp_all add: pillEffects_parts modeEdge_def Let_def)

lemma pill_falls:
  assumes "elevatedNow (piPrevMode x)" and "\<not> elevatedNow (ppMode p)"
  shows "fst (snd (pillEffects p s x)) = (if goingToUserRole (ppRole p) then Some (ppExpires p) else s)"
    "ended (snd (snd (pillEffects p s x))) =
      (if goingToUserRole (ppRole p) \<and> s \<noteq> Some (ppExpires p) then 1 else 0)"
  using assms by (simp_all add: pillEffects_parts modeEdge_def Let_def)

lemma commit_prev: "x \<in> set (fst (commitPills p s xs)) \<Longrightarrow> piPrevMode x = ppMode p"
  by (induction xs arbitrary: s) (auto simp: commitPills_parts pill_prev)

lemma commit_length: "length (fst (commitPills p s xs)) = length xs"
  by (induction xs arbitrary: s) (simp_all add: commitPills_parts)

lemma commit_still:
  "\<forall>x \<in> set xs. elevatedNow (piPrevMode x) = elevatedNow (ppMode p) \<Longrightarrow>
   fst (snd (commitPills p s xs)) = s \<and> ended (snd (snd (commitPills p s xs))) = 0"
  by (induction xs arbitrary: s) (simp_all add: commitPills_parts pill_still)

lemma commit_rises:
  "elevatedNow (ppMode p) \<Longrightarrow> \<forall>x \<in> set xs. \<not> elevatedNow (piPrevMode x) \<Longrightarrow>
   fst (snd (commitPills p s xs)) = (if xs = [] then s else None) \<and>
   ended (snd (snd (commitPills p s xs))) = 0"
  by (induction xs arbitrary: s) (simp_all add: commitPills_parts pill_rises)

lemma commit_falls:
  "\<not> elevatedNow (ppMode p) \<Longrightarrow> \<forall>x \<in> set xs. elevatedNow (piPrevMode x) \<Longrightarrow>
   ended (snd (snd (commitPills p s xs))) =
     (if xs \<noteq> [] \<and> goingToUserRole (ppRole p) \<and> s \<noteq> Some (ppExpires p) then 1 else 0)"
  by (induction xs arbitrary: s) (simp_all add: commitPills_parts pill_falls)

lemma commitPage_parts:
  "pgProps (fst (commitPage p g)) = p"
  "pgPills (fst (commitPage p g)) = fst (commitPills p (pgSentinel g) (pgPills g))"
  "pgSentinel (fst (commitPage p g)) = fst (snd (commitPills p (pgSentinel g) (pgPills g)))"
  "snd (commitPage p g) = snd (snd (commitPills p (pgSentinel g) (pgPills g)))"
  by (simp_all add: commitPage_def case_prod_beta)

text \<open>A commit on pills that agree with the page announces exactly a real end.\<close>

lemma commitPage_agree: "pillsAgree (fst (commitPage p g))"
  using commit_prev by (auto simp: pillsAgree_def commitPage_parts)

lemma commitPage_ended:
  assumes "pillsAgree g"
  shows "ended (snd (commitPage p g)) =
    (if endsSession (pgProps g) p \<and> pgPills g \<noteq> [] \<and> pgSentinel g \<noteq> Some (ppExpires p) then 1 else 0)"
proof -
  have prev: "\<forall>x \<in> set (pgPills g). piPrevMode x = ppMode (pgProps g)"
    using assms by (simp add: pillsAgree_def)
  consider "elevatedNow (ppMode p) = elevatedNow (ppMode (pgProps g))"
    | "elevatedNow (ppMode p)" "\<not> elevatedNow (ppMode (pgProps g))"
    | "\<not> elevatedNow (ppMode p)" "elevatedNow (ppMode (pgProps g))" by blast
  then show ?thesis
  proof cases
    case 1
    then show ?thesis using commit_still [of "pgPills g" p] prev
      by (simp add: commitPage_parts endsSession_def)
  next
    case 2
    then show ?thesis using commit_rises [of p "pgPills g"] prev
      by (simp add: commitPage_parts endsSession_def)
  next
    case 3
    then show ?thesis using commit_falls [of p "pgPills g"] prev
      by (simp add: commitPage_parts endsSession_def)
  qed
qed

lemma commitPage_free:
  assumes "pillsAgree g" and "pgPills g \<noteq> []"
    and "elevatedNow (ppMode p) \<Longrightarrow> elevatedNow (ppMode (pgProps g)) \<Longrightarrow> pgSentinel g = None"
  shows "sentinelFree (fst (commitPage p g))"
proof (cases "elevatedNow (ppMode p)")
  case True
  then show ?thesis
    using assms commit_still [of "pgPills g" p "pgSentinel g"] commit_rises [of p "pgPills g" "pgSentinel g"]
    by (cases "elevatedNow (ppMode (pgProps g))")
       (simp_all add: sentinelFree_def commitPage_parts pillsAgree_def)
qed (simp add: sentinelFree_def commitPage_parts)

lemma agree_update:
  "pillsAgree g \<Longrightarrow> i < length (pgPills g) \<Longrightarrow>
   pillsAgree (g\<lparr>pgPills := (pgPills g)[i := (pgPills g ! i)\<lparr>piNow := t\<rparr>]\<rparr>)"
  by (auto simp: pillsAgree_def dest!: set_update_subset_insert [THEN subsetD])

lemma agree_mount: "pillsAgree g \<Longrightarrow> pillsAgree (g\<lparr>pgPills := pgPills g @ [mountPill (pgProps g) t]\<rparr>)"
  by (auto simp: pillsAgree_def mountPill_def)

lemma agree_unmount:
  "pillsAgree g \<Longrightarrow> pillsAgree (g\<lparr>pgPills := take i (pgPills g) @ drop (Suc i) (pgPills g)\<rparr>)"
  by (auto simp: pillsAgree_def dest: in_set_takeD in_set_dropD)

lemma agree_claim: "pillsAgree g \<Longrightarrow> pillsAgree (g\<lparr>pgSentinel := s\<rparr>)"
  by (simp add: pillsAgree_def)

lemma same_no_end: "\<not> endsSession p p"
  by (simp add: endsSession_def)

lemma dropAccepted_parts:
  "fst (dropAccepted e g) =
     fst (commitPage ((pgProps g)\<lparr>ppMode := UserMode, ppExpires := 0\<rparr>) (g\<lparr>pgSentinel := Some e\<rparr>))"
  "snd (dropAccepted e g) =
     DropDone # snd (commitPage ((pgProps g)\<lparr>ppMode := UserMode, ppExpires := 0\<rparr>) (g\<lparr>pgSentinel := Some e\<rparr>))"
  by (simp_all add: dropAccepted_def case_prod_beta Let_def)

lemma step_agree: "pillsAgree g \<Longrightarrow> pillsAgree (fst (pillStep e g))"
  by (cases e) (simp_all add: commitPage_agree agree_unmount dropAccepted_parts)

lemma step_ended:
  assumes "pillsAgree g"
  shows "ended (snd (pillStep e g)) \<le> (if endsSession (pgProps g) (newProps e g) then 1 else 0)"
proof (cases e)
  case (SecondPasses i t)
  then show ?thesis using assms agree_update [of g i t]
    by (simp add: commitPage_ended same_no_end)
qed (use assms in \<open>simp_all add: commitPage_ended agree_mount agree_claim dropAccepted_parts same_no_end\<close>)

lemma step_exact:
  assumes "pillsAgree g" and "sentinelFree g" and "pgPills g \<noteq> []"
    and "realDrop e" and "pgPills (fst (pillStep e g)) \<noteq> []"
  shows "ended (snd (pillStep e g)) = (if endsSession (pgProps g) (newProps e g) then 1 else 0)"
    "sentinelFree (fst (pillStep e g))"
proof (atomize(full), cases e)
  case (Commit p)
  then show "ended (snd (pillStep e g)) = (if endsSession (pgProps g) (newProps e g) then 1 else 0) \<and>
      sentinelFree (fst (pillStep e g))"
    using assms commitPage_free [of g p] by (auto simp: commitPage_ended sentinelFree_def endsSession_def)
next
  case (SecondPasses i t)
  then show "ended (snd (pillStep e g)) = (if endsSession (pgProps g) (newProps e g) then 1 else 0) \<and>
      sentinelFree (fst (pillStep e g))"
    using assms agree_update [of g i t] commitPage_free [OF agree_update [of g i t], of "pgProps g"]
    by (auto simp: commitPage_ended same_no_end sentinelFree_def)
next
  case (PillMounts t)
  then show "ended (snd (pillStep e g)) = (if endsSession (pgProps g) (newProps e g) then 1 else 0) \<and>
      sentinelFree (fst (pillStep e g))"
    using assms commitPage_free [OF agree_mount [of g t], of "pgProps g"]
    by (auto simp: commitPage_ended agree_mount same_no_end sentinelFree_def)
next
  case (PillUnmounts i)
  then show "ended (snd (pillStep e g)) = (if endsSession (pgProps g) (newProps e g) then 1 else 0) \<and>
      sentinelFree (fst (pillStep e g))"
    using assms by (auto simp: same_no_end sentinelFree_def)
next
  case (DropAccepted c)
  then show "ended (snd (pillStep e g)) = (if endsSession (pgProps g) (newProps e g) then 1 else 0) \<and>
      sentinelFree (fst (pillStep e g))"
    using assms by (auto simp: commitPage_ended agree_claim dropAccepted_parts sentinelFree_def
        commitPage_parts(1) elevatedNow_def endsSession_def)
qed

lemma run_ended:
  "pillsAgree g \<Longrightarrow>
   ended (snd (pillRun es g)) \<le> sessionEnds es g \<and>
   (sentinelFree g \<and> pillThroughout es g \<longrightarrow> ended (snd (pillRun es g)) = sessionEnds es g)"
proof (induction es arbitrary: g)
  case (Cons e es)
  let ?g = "fst (pillStep e g)"
  have run: "snd (pillRun (e # es) g) = snd (pillStep e g) @ snd (pillRun es ?g)"
    by (simp add: case_prod_beta)
  note IH = Cons.IH [OF step_agree [OF Cons.prems], of e]
  have "pgPills ?g \<noteq> []" if "pillThroughout (e # es) g"
    using that by (cases es) auto
  then show ?case
    using step_ended [OF Cons.prems, of e] step_exact [OF Cons.prems, of e] IH unfolding run
    by (auto simp del: pillStep.simps)
qed simp

text \<open>
  The end of an admin session is announced at most once, however many pills are
  mounted: over any course of commits, ticks, mounts, unmounts and drops the toast appears at
  most as often as the mode really fell to a user role, and exactly as often when some pill was
  mounted throughout and drops came from a running countdown.
\<close>

theorem session_end_announced_once:
  assumes "pillRun es (freshPage p ts) = (g, toasts)"
  shows "ended toasts \<le> sessionEnds es (freshPage p ts) \<and>
    (pillThroughout es (freshPage p ts) \<longrightarrow> ended toasts = sessionEnds es (freshPage p ts))"
proof -
  have "pillsAgree (freshPage p ts)" and "sentinelFree (freshPage p ts)"
    by (auto simp: pillsAgree_def sentinelFree_def freshPage_def mountPill_def)
  from run_ended [OF this(1), of es] this(2) show ?thesis using assms by simp
qed

text \<open>Two pills see an admin session start, end, start again and be dropped: two announcements.\<close>

definition propsOf :: "auth_mode \<Rightarrow> int \<Rightarrow> pill_props" where
  "propsOf m e = \<lparr>ppMode = m, ppExpires = e, ppRole = None\<rparr>"

definition sampleCourse :: "pill_event list" where
  "sampleCourse = [Commit (propsOf AdminMode 5000), Commit (propsOf UserMode 0), PillMounts 7,
     Commit (propsOf AdminMode 90000), DropAccepted 90000]"

theorem session_end_announced_once_witness:
  "ended (snd (pillRun sampleCourse (freshPage (propsOf UserMode 0) [0, 1]))) = 2"
proof -
  have "sessionEnds sampleCourse (freshPage (propsOf UserMode 0) [0, 1]) = 2"
    "pillThroughout sampleCourse (freshPage (propsOf UserMode 0) [0, 1])"
    by code_simp+
  then show ?thesis
    using session_end_announced_once [OF surjective_pairing, of sampleCourse "propsOf UserMode 0" "[0, 1]"]
    by simp
qed

text \<open>
  The claim of the sentinel in \<open>handleDrop\<close> has no effect: it is made for the expiry of the old
  session, the effect compares the expiry of the new one. An accepted drop by an operator in the
  user role shows both toasts.
\<close>

theorem drop_announced_twice:
  assumes "elevatedNow (ppMode p)" and "goingToUserRole (ppRole p)" and "0 < ppExpires p"
  shows "ended (snd (pillStep (DropAccepted (ppExpires p)) (freshPage p [t]))) = 1 \<and>
    DropDone \<in> set (snd (pillStep (DropAccepted (ppExpires p)) (freshPage p [t])))"
proof -
  have "pillsAgree (freshPage p [t])"
    by (simp add: pillsAgree_def freshPage_def mountPill_def)
  from agree_claim [OF this, of "Some (ppExpires p)"]
  show ?thesis using assms
    by (simp add: dropAccepted_parts commitPage_ended, simp add: freshPage_def endsSession_def elevatedNow_def)
qed

section \<open>Switching the role\<close>

definition switchFetch :: "available_role \<Rightarrow> fetch_req" where
  "switchFetch r = switchRoleReq (switchRequest r)"

lemma run_switchAndGo:
  "run (switchAndGo r) b h =
     (h @ [RFetch (switchFetch r)],
      case onFetch b h (switchFetch r) of
        None \<Rightarrow> Inl NetworkError
      | Some res \<Rightarrow>
          if httpOk (rsStatus res)
          then (case rsBody res of None \<Rightarrow> Inl (PlainError ''invalid JSON'')
                | Some _ \<Rightarrow> Inr (RoleSwitched (navigateForRole r)))
          else Inl (apiError ''active-role/switch'' (rsStatus res) (jsonOrNull res)))"
  by (simp add: switchAndGo_def run_bindJs run_useSwitchActiveRole switchFetch_def awaitJson_def
      split: option.splits)

text \<open>The server took the switch to \<open>r\<close> as the last request of the trace.\<close>

definition switchAccepted :: "backend \<Rightarrow> available_role \<Rightarrow> request list \<Rightarrow> request list \<Rightarrow> bool" where
  "switchAccepted b r before h \<longleftrightarrow> h = before @ [RFetch (switchFetch r)] \<and>
     (\<exists>res. onFetch b before (switchFetch r) = Some res \<and> httpOk (rsStatus res))"

definition lockedFirst :: "backend \<Rightarrow> available_role \<Rightarrow> bool" where
  "lockedFirst b r \<longleftrightarrow> (\<exists>res. onFetch b [] (switchFetch r) = Some res \<and> rsStatus res = 423)"

lemma switchAndGo_accepted:
  "run (switchAndGo r) b h = (h', Inr out) \<Longrightarrow>
   out = RoleSwitched (navigateForRole r) \<and> switchAccepted b r h h'"
  by (auto simp: run_switchAndGo switchAccepted_def split: option.splits if_splits)

lemma switchAndGo_423:
  "run (switchAndGo r) b [] = (h', Inl e) \<Longrightarrow> statusOf e = Some 423 \<Longrightarrow>
   lockedFirst b r \<and> h' = [RFetch (switchFetch r)]"
  by (auto simp: run_switchAndGo lockedFirst_def split: option.splits if_splits)

abbreviation rolePrompt :: "auth_mode \<times> string option" where
  "rolePrompt \<equiv> (AdminMode, Some ''Switching to this role requires admin re-authentication.'')"

text \<open>The handler once a role is selected.\<close>

definition changeTo ::
  "(auth_mode \<times> string option \<Rightarrow> unit option js) \<Rightarrow> available_role \<Rightarrow> role_outcome js" where
  "changeTo prompt r =
     catchJs (switchAndGo r) (\<lambda>err.
       if statusOf err = Some 423
       then catchJs (bindJs (prompt rolePrompt)
              (\<lambda>ans. case ans of None \<Rightarrow> Ret PromptOpen | Some _ \<Rightarrow> switchAndGo r))
            (\<lambda>_. Ret (RoleToast roleCancelledToast))
       else Ret (RoleToast (if messageOf err \<noteq> [] then messageOf err else ''Failed to switch role'')))"

lemma handleRoleChange_cases:
  obtains (nothing) "handleRoleChange prompt user key = Ret NothingChosen"
  | (chosen) u roles r where "user = Some u" "urAvailableRoles u = Some roles"
      "List.find (roleMatches key) roles = Some r"
      "handleRoleChange prompt user key = changeTo prompt r"
proof (cases "handleRoleChange prompt user key = Ret NothingChosen")
  case False
  then obtain u where u: "user = Some u"
    by (cases user) (simp_all add: handleRoleChange_def)
  with False obtain roles where roles: "urAvailableRoles u = Some roles"
    by (cases "urAvailableRoles u") (simp_all add: handleRoleChange_def)
  with False u obtain r where r: "List.find (roleMatches key) roles = Some r"
    by (cases "List.find (roleMatches key) roles") (simp_all add: handleRoleChange_def Let_def split: if_splits)
  have "handleRoleChange prompt user key = changeTo prompt r"
    using False u roles r by (simp add: handleRoleChange_def changeTo_def Let_def split: if_splits)
  then show ?thesis using chosen u roles r by blast
qed

lemma changeTo_answers: "\<exists>out. snd (run (changeTo prompt r) b h) = Inr out"
  by (auto simp: changeTo_def run_catchJs split: prod.splits sum.splits)

lemma changeTo_switched:
  assumes "run (changeTo (elevationOutcome (elevationRun es) later) r) b [] = (h, Inr (RoleSwitched target))"
  shows "target = navigateForRole r \<and>
    (\<exists>before. switchAccepted b r before h \<and>
       (before = [] \<or> lockedFirst b r \<and> (\<exists>rest. later = Confirm # rest)))"
proof -
  obtain h1 r1 where one: "run (switchAndGo r) b [] = (h1, r1)" by fastforce
  show ?thesis
  proof (cases r1)
    case (Inr out)
    then show ?thesis using assms one switchAndGo_accepted [of r b "[]"]
      by (auto simp: changeTo_def run_catchJs)
  next
    case (Inl e)
    then have locked: "statusOf e = Some 423"
      using assms one by (auto simp: changeTo_def run_catchJs split: if_splits)
    then have lf: "lockedFirst b r" using one Inl switchAndGo_423 by blast
    have "(\<exists>rest. later = Confirm # rest) \<and> run (switchAndGo r) b h1 = (h, Inr (RoleSwitched target))"
      using assms one Inl locked
      by (auto simp: changeTo_def run_catchJs run_bindJs elevation_outcome
          split: list.splits prompt_event.splits prod.splits sum.splits)
    then show ?thesis using switchAndGo_accepted lf by blast
  qed
qed

text \<open>
  The role switcher always comes to an answer and never throws. It moves the browser only after
  the server accepted the switch to the selected role, in the very last request: the first one, or,
  when that was answered 423, the one after the shared dialog was answered with an accepted password
  before anything else happened to it. And the page it opens is that of the selected role.
\<close>

theorem role_switch_safe:
  assumes "run (handleRoleChange (elevationOutcome (elevationRun es) later) user key) b [] = (h, result)"
  shows "\<exists>out. result = Inr out \<and>
    (\<forall>target. out = RoleSwitched target \<longrightarrow>
      (\<exists>u roles r before. user = Some u \<and> urAvailableRoles u = Some roles \<and>
         List.find (roleMatches key) roles = Some r \<and> target = navigateForRole r \<and>
         switchAccepted b r before h \<and>
         (before = [] \<or> lockedFirst b r \<and> (\<exists>rest. later = Confirm # rest))))"
proof (cases rule: handleRoleChange_cases [of "elevationOutcome (elevationRun es) later" user key])
  case nothing
  then show ?thesis using assms by auto
next
  case (chosen u roles r)
  then obtain out where "result = Inr out"
    using assms changeTo_answers [of "elevationOutcome (elevationRun es) later" r b "[]"] by auto
  then show ?thesis using assms chosen changeTo_switched by metis
qed

text \<open>A retry that the server refuses is reported as a cancelled dialog, whatever the refusal.\<close>

theorem refused_retry_called_cancelled:
  assumes "run (switchAndGo r) b [] = (h1, Inl e)" and "statusOf e = Some 423"
    and "run (prompt rolePrompt) b h1 = (h2, Inr (Some ()))"
    and "run (switchAndGo r) b h2 = (h3, Inl e')"
  shows "run (changeTo prompt r) b [] = (h3, Inr (RoleToast roleCancelledToast))"
  using assms by (simp add: changeTo_def run_catchJs run_bindJs)

definition rolesUser :: UserResponse where
  "rolesUser = \<lparr>urId = None, urUsername = ''ops'', urRole = ''admin'', urUiAdmin = True,
     urMode = None, urModeExpiresAt = None,
     urActiveRole = Some \<lparr>arKind = ''user'', arCluster = None\<rparr>,
     urAvailableRoles = Some [\<lparr>avKind = ''user'', avLabel = ''User'', avCluster = None\<rparr>,
       \<lparr>avKind = ''cluster-admin'', avLabel = ''Cluster Admin: c1'', avCluster = Some ''c1''\<rparr>,
       \<lparr>avKind = ''ui-admin'', avLabel = ''UI Admin'', avCluster = None\<rparr>],
     urCapabilities = None, urOidcUser = None\<rparr>"

definition acceptingBackend :: backend where
  "acceptingBackend = \<lparr>onFetch = (\<lambda>_ _. Some \<lparr>rsStatus = 200, rsBody = Some (JObj [])\<rparr>),
     onCall = (\<lambda>_ _. None), onPut = (\<lambda>_ _. None)\<rparr>"

theorem role_switch_safe_witness:
  "\<exists>h u roles r before.
     run (handleRoleChange (elevationOutcome (elevationRun []) []) (Some rolesUser) ''cluster-admin:c1'') acceptingBackend [] =
       (h, Inr (RoleSwitched (Some ''/admin/clusters/c1''))) \<and>
     Some rolesUser = Some u \<and> urAvailableRoles u = Some roles \<and>
     List.find (roleMatches ''cluster-admin:c1'') roles = Some r \<and>
     Some ''/admin/clusters/c1'' = navigateForRole r \<and> switchAccepted acceptingBackend r before h"
proof -
  have run: "run (handleRoleChange (elevationOutcome (elevationRun []) []) (Some rolesUser) ''cluster-admin:c1'') acceptingBackend []
      = ([RFetch (switchFetch \<lparr>avKind = ''cluster-admin'', avLabel = ''Cluster Admin: c1'',
           avCluster = Some ''c1''\<rparr>)], Inr (RoleSwitched (Some ''/admin/clusters/c1'')))"
    by (simp add: handleRoleChange_def rolesUser_def roleMatches_def run_catchJs run_switchAndGo
        acceptingBackend_def httpOk_def navigateForRole_def)
  from role_switch_safe [OF run] show ?thesis unfolding run by auto
qed

section \<open>The role menu\<close>

text \<open>A role as the server lists it: a cluster exactly for cluster admins, and no colon anywhere.\<close>

definition listedRole :: "available_role \<Rightarrow> bool" where
  "listedRole r \<longleftrightarrow> CHR '':'' \<notin> set (avKind r) \<and>
     (case avCluster r of None \<Rightarrow> avKind r \<noteq> ''cluster-admin''
      | Some c \<Rightarrow> avKind r = ''cluster-admin'' \<and> c \<noteq> [] \<and> CHR '':'' \<notin> set c)"

abbreviation roleKind :: "available_role \<Rightarrow> string \<times> string option" where
  "roleKind r \<equiv> (avKind r, avCluster r)"

lemma find_by_key:
  "distinct (map f xs) \<Longrightarrow> r \<in> set xs \<Longrightarrow> (\<And>s. s \<in> set xs \<Longrightarrow> P s \<longleftrightarrow> f s = f r) \<Longrightarrow> List.find P xs = Some r"
proof (induction xs)
  case (Cons x xs)
  then show ?case
    by (cases "f x = f r") (force, auto)
qed simp

lemma listed_cluster: "listedRole s \<Longrightarrow> avKind s \<noteq> ''cluster-admin'' \<longleftrightarrow> avCluster s = None"
  by (auto simp: listedRole_def split: option.splits)

lemma split_roleValue:
  "listedRole r \<Longrightarrow> splitOn CHR '':'' (roleValue r) =
     avKind r # (case avCluster r of None \<Rightarrow> [] | Some c \<Rightarrow> [c])"
proof (cases "avCluster r")
  case None
  assume "listedRole r"
  then show ?thesis using None by (simp add: listedRole_def roleValue_def splitOn_no_delim)
next
  case (Some c)
  assume l: "listedRole r"
  then have v: "roleValue r = ''cluster-admin'' @ CHR '':'' # c"
    using Some by (simp add: listedRole_def roleValue_def)
  show ?thesis
    unfolding v using l Some by (subst splitOn_append) (simp_all add: listedRole_def splitOn_no_delim)
qed

lemma roleMatches_listed:
  "listedRole r \<Longrightarrow> listedRole s \<Longrightarrow> roleMatches (roleValue r) s \<longleftrightarrow> roleKind s = roleKind r"
  by (cases "avCluster r"; cases "avCluster s")
     (auto simp: roleMatches_def split_roleValue listedRole_def)

text \<open>
  The role menu selects what it shows: for every role the server lists, choosing its entry makes
  the switcher find that very role, the entry of the active role is the checked one, and the pill shows
  its label.
\<close>

theorem role_menu_roundtrip:
  assumes "\<forall>r \<in> set roles. listedRole r" and "distinct (map (\<lambda>r. (avKind r, avCluster r)) roles)"
    and "r \<in> set roles" and "arKind a = avKind r" and "arCluster a = avCluster r"
  shows "List.find (roleMatches (roleValue r)) roles = Some r \<and> checkedRole (Some a) = roleValue r \<and>
    roleLabel roles a = avLabel r"
proof -
  have "List.find (roleMatches (roleValue r)) roles = Some r"
    using assms by (intro find_by_key [where f = roleKind]) (simp_all add: roleMatches_listed)
  moreover have "List.find (\<lambda>s. avKind s = arKind a \<and>
      (avKind s \<noteq> ''cluster-admin'' \<or> avCluster s = arCluster a)) roles = Some r"
  proof (rule find_by_key [where f = roleKind])
    fix s
    assume "s \<in> set roles"
    then have "listedRole s" and "listedRole r" using assms by auto
    then show "(avKind s = arKind a \<and> (avKind s \<noteq> ''cluster-admin'' \<or> avCluster s = arCluster a)) \<longleftrightarrow>
        roleKind s = roleKind r"
      using listed_cluster [of s] listed_cluster [of r] assms(4,5) by auto
  qed (use assms in auto)
  moreover have "checkedRole (Some a) = roleValue r"
    using assms by (simp add: checkedRole_def roleValue_def)
  ultimately show ?thesis by (simp add: roleLabel_def)
qed

theorem role_menu_roundtrip_witness:
  "let roles = [\<lparr>avKind = ''user'', avLabel = ''User'', avCluster = None\<rparr>,
        \<lparr>avKind = ''cluster-admin'', avLabel = ''Cluster Admin: c1'', avCluster = Some ''c1''\<rparr>];
       r = \<lparr>avKind = ''cluster-admin'', avLabel = ''Cluster Admin: c1'', avCluster = Some ''c1''\<rparr>
   in List.find (roleMatches (roleValue r)) roles = Some r"
  unfolding Let_def
  by (rule role_menu_roundtrip [where a = "\<lparr>arKind = ''cluster-admin'', arCluster = Some ''c1''\<rparr>",
        THEN conjunct1]) (simp_all add: listedRole_def)

end
