(* ===== verification/Shell.thy ===== *)
theory Shell
  imports Access Auth_Mode Share_Hooks
begin

text \<open>
  The chrome around the pages: the two redirect effects, the navigation and the logo of
  \<open>shared/layout/AppShell.tsx\<close> and \<open>UserShell.tsx\<close>, the wrapper \<open>adminPage.tsx\<close> that puts it under the
  gate of \<open>ProtectedRoute.tsx\<close>, the index route \<open>routes/admin/index.tsx\<close>, the sign-out and the skin
  choice of \<open>shared/ui/UserMenu.tsx\<close>, the login form (\<open>shared/auth/LoginForm.tsx\<close>) and the
  redirect of \<open>routes/signup.tsx\<close>. Effects are, as in \<open>Access\<close>, the calls they make, in order.
\<close>

section \<open>The redirects of the admin shell\<close>

definition onAdmin :: "string \<Rightarrow> bool" where
  "onAdmin pathname \<longleftrightarrow> startsWith pathname ''/admin''"

definition payloadMode :: "user_state \<Rightarrow> auth_mode option" where
  "payloadMode u = (case usData u of None \<Rightarrow> None | Some d \<Rightarrow> urMode d)"

definition adminPayload :: "user_state \<Rightarrow> bool" where
  "adminPayload u \<longleftrightarrow> payloadMode u = Some AdminMode \<or> payloadMode u = Some ElevatedMode"

definition userModeRedirect :: "user_state \<Rightarrow> auth_mode \<Rightarrow> string \<Rightarrow> nav list" where
  "userModeRedirect u mode pathname =
     (if \<not> onAdmin pathname then []
      else if pathname = ''/login'' then []
      else if usLoading u then []
      else if adminPayload u then []
      else if pathname = ''/login'' \<or> pathname = ''/admin/login'' then []
      else if mode = UserMode then [Goto ''/files'']
      else [])"

text \<open>The answer of \<open>useOnboardingState\<close>.\<close>

record onboarding =
  obCompleted :: bool
  obNeeded :: bool

definition onboardingQueryEnabled :: "user_state \<Rightarrow> auth_mode \<Rightarrow> string \<Rightarrow> bool" where
  "onboardingQueryEnabled u mode pathname \<longleftrightarrow>
     (case usData u of None \<Rightarrow> False | Some d \<Rightarrow> urUiAdmin d) \<and>
     (adminPayload u \<or> mode \<noteq> UserMode) \<and> onAdmin pathname \<and> pathname \<noteq> ''/login'' \<and> \<not> usLoading u"

definition onboardingRedirect ::
  "user_state \<Rightarrow> auth_mode \<Rightarrow> onboarding option \<Rightarrow> string \<Rightarrow> nav list" where
  "onboardingRedirect u mode state pathname =
     (if \<not> onboardingQueryEnabled u mode pathname then []
      else if pathname = ''/admin/first-run'' then []
      else (case state of None \<Rightarrow> []
        | Some s \<Rightarrow> if obCompleted s then [] else if \<not> obNeeded s then []
            else [Goto ''/admin/first-run'']))"

definition logoHref :: "auth_mode \<Rightarrow> string" where
  "logoHref mode = (if mode = UserMode then ''/files'' else ''/admin'')"

text \<open>\<open>routes/admin/index.tsx\<close>: \<open><Navigate to="/admin/clusters" replace />\<close>, with no gate around it.\<close>

definition adminIndex :: "nav list" where
  "adminIndex = [Goto ''/admin/clusters'']"

text \<open>
  \<open>adminPage\<close>: the gate around the shell around the page. The shell is mounted only once the gate shows
  its children; React runs the effects of children before those of their parents.
\<close>

definition adminPage :: "user_state \<Rightarrow> auth_mode \<Rightarrow> onboarding option \<Rightarrow> string \<Rightarrow> nav list" where
  "adminPage u mode state pathname =
     (if protectedRouteShows u
      then userModeRedirect u mode pathname @ onboardingRedirect u mode state pathname else []) @
     protectedRouteEffect u pathname"

text \<open>One round: from a path to where the last navigation leads. Only admin pages have this chrome.\<close>

definition shellRound :: "user_state \<Rightarrow> auth_mode \<Rightarrow> onboarding option \<Rightarrow> string \<Rightarrow> string" where
  "shellRound u mode state p = follow p (adminPage u mode state p)"

section \<open>Navigation links\<close>

definition clusterAdminCluster :: "user_state \<Rightarrow> string option" where
  "clusterAdminCluster u = (case usData u of None \<Rightarrow> None | Some d \<Rightarrow> ownCluster d)"

definition capLink :: "user_state \<Rightarrow> string \<Rightarrow> string \<Rightarrow> string list" where
  "capLink u c target = (if Can u (Some (cap c)) None None then [target] else [])"

text \<open>The targets of the links the admin shell renders; the router encodes the cluster id.\<close>

definition navLinks :: "user_state \<Rightarrow> string list" where
  "navLinks u =
     (if present (clusterAdminCluster u)
      then capLink u ''CLUSTER_CONTENTS_READ''
             (clusterPath (encodeURIComponent (the (clusterAdminCluster u))))
      else []) @
     capLink u ''CLUSTER_BUCKETS_AGGREGATE'' ''/admin/buckets'' @
     capLink u ''CLUSTER_USAGE_AGGREGATE'' ''/admin/usage'' @
     capLink u ''CLUSTER_WIRING_LIST'' ''/admin/clusters'' @
     capLink u ''PLATFORM_POLICIES_LIST'' ''/admin/policies'' @
     capLink u ''PLATFORM_SERVICE_ACCOUNTS_LIST'' ''/admin/service-accounts'' @
     capLink u ''PLATFORM_AUDIT_READ'' ''/admin/audit'' @
     capLink u ''PLATFORM_SYSTEM_READ'' ''/admin/system''"

definition userNavLinks :: "string list" where
  "userNavLinks = [''/files'', ''/files/keys'', ''/files/shares'', ''/files/backups'',
     ''/files/federated-buckets'', ''/files/webhooks'']"

section \<open>Signing in and out\<close>

text \<open>The zod schema of the form: both fields non-empty.\<close>

definition loginSchema :: "string \<Rightarrow> string \<Rightarrow> bool" where
  "loginSchema username password \<longleftrightarrow> length username \<ge> 1 \<and> length password \<ge> 1"

datatype login_outcome =
    LoginError json
  | ConnectionFailedToast
  | LoginDone "effect list" string

definition loginReq :: "string \<Rightarrow> string \<Rightarrow> call_req" where
  "loginReq username password =
     callReq ''POST'' ''/auth/login'' []
       (JObj [(''username'', JStr username), (''password'', JStr password)])"

text \<open>\<open>onSubmit\<close>; \<open>title\<close> is the translated fallback.\<close>

definition onLoginSubmit :: "string \<Rightarrow> string \<Rightarrow> string \<Rightarrow> string \<Rightarrow> login_outcome js" where
  "onLoginSubmit title nextPath username password =
     catchJs (awaitCall (loginReq username password) (\<lambda>res.
       if crStatus res = 401 then Ret (LoginError (JStr ''Invalid credentials''))
       else if crStatus res \<ge> 500 then Ret ConnectionFailedToast
       else if truthy (crError res)
         then Ret (LoginError (orElse (getProp (getProp (crError res) ''error'') ''message'') (JStr title)))
       else Ret (LoginDone [Invalidate [KS ''auth'', KS ''me'']] nextPath)))
     (\<lambda>_. Ret ConnectionFailedToast)"

definition oidcStartPath :: string where
  "oidcStartPath = ''/api/v1/auth/oidc/start''"

text \<open>\<open>handleLogout\<close>: the request may fail, the rest happens anyway.\<close>

definition handleLogout :: "(effect list \<times> nav) js" where
  "handleLogout =
     bindJs (catchJs (Call (callReq ''POST'' ''/auth/logout'' [] JUndef)
               (\<lambda>r. case r of None \<Rightarrow> Throw NetworkError | Some _ \<Rightarrow> Ret ())) (\<lambda>_. Ret ()))
       (\<lambda>_. Ret ([RemoveQueries [KS ''auth'', KS ''me'']], GotoLogin None))"

text \<open>
  The sign-up page leaves for the login page once, when sign-up is off; the result is the address it
  assigns, if any, and the flag.
\<close>

definition signupEffect :: "string option option \<Rightarrow> bool \<Rightarrow> string option \<times> bool" where
  "signupEffect orgCaps redirected =
     (case orgCaps of None \<Rightarrow> (None, redirected)
      | Some signupMode \<Rightarrow>
          if \<not> isSignupEnabled signupMode \<and> \<not> redirected then (Some ''/login'', True)
          else (None, redirected))"

section \<open>The skin menu\<close>

record skin_entry =
  skName :: string
  skDisplayName :: "string option"

definition shownSkins :: "string list option \<Rightarrow> skin_entry list \<Rightarrow> (string \<times> string) list" where
  "shownSkins allowedUserSkins registry =
     (let names = (case allowedUserSkins of Some (a # as) \<Rightarrow> a # as | _ \<Rightarrow> map skName registry)
      in concat (map (\<lambda>name.
           case List.find (\<lambda>s. skName s = name) registry of
             None \<Rightarrow> []
           | Some s \<Rightarrow> [(name, if present (skDisplayName s) then the (skDisplayName s) else name)]) names))"

datatype skin_choice = SetSkin string | SkinRefused string

definition chooseSkin :: "string list option \<Rightarrow> string \<Rightarrow> skin_choice" where
  "chooseSkin allowedUserSkins selectedName =
     (let allowed = (case allowedUserSkins of None \<Rightarrow> [] | Some a \<Rightarrow> a)
      in if length allowed = 0 \<or> selectedName \<in> set allowed then SetSkin selectedName
         else SkinRefused selectedName)"

section \<open>One round of the shell\<close>

lemma follow_append: "follow p (xs @ ys) = follow (follow p xs) ys"
  by (induction p xs rule: follow.induct) simp_all

text \<open>The gate, when it acts, has the last word.\<close>

lemma follow_effect:
  assumes "\<not> usLoading u" and "usData u = Some d" and "protectedRouteEffect u p \<noteq> []"
  shows "follow q (protectedRouteEffect u p) = settle u p"
  using assms(1,2)
proof (cases rule: effect_signed_in [where p = p])
  case gate
  then show ?thesis using assms(3) capabilityGate_cases [of "canAny u" p]
    by (auto simp: settle_def bounceToFiles_def)
qed (use assms(3) in \<open>simp_all add: settle_def bounceToFiles_def\<close>)

definition chromeTarget :: "user_state \<Rightarrow> auth_mode \<Rightarrow> onboarding option \<Rightarrow> string \<Rightarrow> string" where
  "chromeTarget u m st p = follow p (userModeRedirect u m p @ onboardingRedirect u m st p)"

lemma shellRound_eq:
  assumes "\<not> usLoading u" and "usData u = Some d"
  shows "shellRound u m st p =
    (if protectedRouteEffect u p = [] then chromeTarget u m st p else settle u p)"
  using assms follow_effect [OF assms]
  by (simp add: shellRound_def adminPage_def protectedRouteShows_def chromeTarget_def follow_append)

definition adminMode :: "user_state \<Rightarrow> auth_mode \<Rightarrow> bool" where
  "adminMode u m \<longleftrightarrow> adminPayload u \<or> m \<noteq> UserMode"

lemma chromeTarget_cases:
  "chromeTarget u m st p = p \<or>
   \<not> adminMode u m \<and> chromeTarget u m st p = ''/files'' \<or>
   adminMode u m \<and> chromeTarget u m st p = ''/admin/first-run''"
  by (auto simp: chromeTarget_def userModeRedirect_def onboardingRedirect_def adminMode_def
      onboardingQueryEnabled_def split: option.splits)

lemma chromeTarget_user:
  "\<not> usLoading u \<Longrightarrow> \<not> adminMode u m \<Longrightarrow> onAdmin p \<Longrightarrow> p \<noteq> ''/admin/login'' \<Longrightarrow>
   chromeTarget u m st p = ''/files''"
  by (auto simp: chromeTarget_def userModeRedirect_def onboardingRedirect_def adminMode_def
      onboardingQueryEnabled_def onAdmin_def)

lemma chromeTarget_fixed:
  "chromeTarget u m st ''/files'' = ''/files''"
  "chromeTarget u m st ''/admin/first-run'' \<in> {''/admin/first-run'', ''/files''}"
  by (auto simp: chromeTarget_def userModeRedirect_def onboardingRedirect_def onAdmin_def
      onboardingQueryEnabled_def)

section \<open>Coming to rest\<close>

definition rests :: "('a \<Rightarrow> 'a) \<Rightarrow> nat \<Rightarrow> 'a \<Rightarrow> bool" where
  "rests f n x \<longleftrightarrow> f ((f ^^ n) x) = (f ^^ n) x"

lemma rests_later: "rests f n x \<Longrightarrow> n \<le> k \<Longrightarrow> rests f k x"
proof (induction k)
  case (Suc k)
  then show ?case by (cases "n = Suc k") (auto simp: rests_def)
qed (simp add: rests_def)

lemma rests_step: "f x = y \<Longrightarrow> rests f n y \<Longrightarrow> n < k \<Longrightarrow> rests f k x"
proof -
  assume "f x = y" and "rests f n y" and "n < k"
  moreover from this have "rests f (Suc n) x" by (simp add: rests_def funpow_swap1)
  ultimately show ?thesis using rests_later [of f "Suc n" x k] by simp
qed

lemma rests_now: "f x = x \<Longrightarrow> rests f k x"
  using rests_later [of f 0 x k] by (simp add: rests_def)

text \<open>A loaded session whose own cluster, if any, is one path segment.\<close>

definition loaded :: "user_state \<Rightarrow> UserResponse \<Rightarrow> bool" where
  "loaded u d \<longleftrightarrow> \<not> usLoading u \<and> usData u = Some d \<and>
     (\<forall>c. ownCluster d = Some c \<longrightarrow> CHR ''/'' \<notin> set c)"

lemma loadedD:
  assumes "loaded u d"
  shows "\<not> usLoading u" "usData u = Some d" "ownCluster d = Some c \<Longrightarrow> CHR ''/'' \<notin> set c"
  using assms by (auto simp: loaded_def)

lemma loaded_round:
  assumes "loaded u d"
  shows "shellRound u m st p =
    (if protectedRouteEffect u p = [] then chromeTarget u m st p else settle u p)"
  using shellRound_eq [OF loadedD(1,2) [OF assms]] .

lemma loaded_stays: "loaded u d \<Longrightarrow> settle u p = p \<Longrightarrow> protectedRouteEffect u p = []"
  using effect_stays [of u d p] by (auto simp: loaded_def)

lemma rests_files:
  assumes L: "loaded u d"
  shows "rests (shellRound u m st) 0 ''/files''"
  by (simp add: rests_def loaded_round [OF L] files_quiet [OF loadedD(2) [OF L]] chromeTarget_fixed)

lemma settle_first_run:
  assumes L: "loaded u d"
  shows "settle u ''/admin/first-run'' \<in> {''/admin/first-run'', ''/files''}"
  using settle_page [OF loadedD(1,2) [OF L], of "''/admin/first-run''"] by (simp add: clusterSegment_def)

lemma rests_first_run:
  assumes L: "loaded u d"
  shows "rests (shellRound u m st) 1 ''/admin/first-run''"
proof -
  have "shellRound u m st ''/admin/first-run'' \<in> {''/admin/first-run'', ''/files''}"
    unfolding loaded_round [OF L] using settle_first_run [OF L] chromeTarget_fixed(2) by auto
  then show ?thesis
    using rests_now [of "shellRound u m st" "''/admin/first-run''"]
      rests_step [OF _ rests_files [OF L], of m st "''/admin/first-run''" 1] by auto
qed

text \<open>A page the gate leaves alone or bounces needs two rounds.\<close>

lemma rests_page:
  assumes L: "loaded u d" and "settle u p = p \<or> settle u p = ''/files''"
  shows "rests (shellRound u m st) 2 p"
proof -
  have "shellRound u m st p \<in> {p, ''/files'', ''/admin/first-run''}"
    using assms(2) chromeTarget_cases [of u m st p] loaded_stays [OF L, of p]
    by (auto simp: loaded_round [OF L])
  then consider "shellRound u m st p = p" | "shellRound u m st p = ''/files''"
    | "shellRound u m st p = ''/admin/first-run''" by blast
  then show ?thesis
  proof cases
    case 1
    then show ?thesis by (rule rests_now)
  next
    case 2
    then show ?thesis using rests_files [OF L] by (rule rests_step) simp
  next
    case 3
    then show ?thesis using rests_first_run [OF L] by (rule rests_step) simp
  qed
qed

lemma rests_own:
  assumes L: "loaded u d" and "ownCluster d = Some c" and "c \<noteq> []"
  shows "rests (shellRound u m st) 2 (clusterPath c)"
  using settle_own_cluster [OF loadedD(1,2) [OF L] assms(2) loadedD(3) [OF L assms(2)] assms(3)]
  by (rule rests_page [OF L])

lemma rests_clusters:
  assumes L: "loaded u d"
  shows "rests (shellRound u m st) 3 ''/admin/clusters''"
proof (cases "settle u ''/admin/clusters'' = ''/admin/clusters'' \<or> settle u ''/admin/clusters'' = ''/files''")
  case True
  then show ?thesis by (rule rests_page [OF L, THEN rests_later]) simp
next
  case False
  then obtain c where c: "ownCluster d = Some c" "c \<noteq> []" "settle u ''/admin/clusters'' = clusterPath c"
    using settle_clusters [OF loadedD(1,2) [OF L]] by auto
  then have "protectedRouteEffect u ''/admin/clusters'' \<noteq> []" using False by (auto simp: settle_def)
  then have "shellRound u m st ''/admin/clusters'' = clusterPath c"
    using c(3) by (simp add: loaded_round [OF L])
  then show ?thesis using rests_own [OF L c(1,2)] by (rule rests_step) simp
qed

lemma rests_anywhere:
  assumes L: "loaded u d"
  shows "rests (shellRound u m st) 4 p"
proof (cases "settle u p = p \<or> settle u p = ''/files''")
  case True
  then show ?thesis by (rule rests_page [OF L, THEN rests_later]) simp
next
  case False
  then have "protectedRouteEffect u p \<noteq> []" by (auto simp: settle_def)
  then have round: "shellRound u m st p = settle u p" by (simp add: loaded_round [OF L])
  have "rests (shellRound u m st) 3 (settle u p)"
    using loadedD(1,2) [OF L]
  proof (cases rule: settle_signed_in [where p = p])
    case system
    then show ?thesis
      using rests_page [OF L settle_system [OF loadedD(1,2) [OF L]], THEN rests_later] by simp
  next
    case (own c)
    then show ?thesis using rests_own [OF L own(1,2), THEN rests_later] by simp
  qed (use False rests_clusters [OF L] in auto)
  with round show ?thesis by (rule rests_step) simp
qed

lemma at_rest:
  assumes L: "loaded u d" and "shellRound u m st p = p" and "onAdmin p" and "p \<noteq> ''/admin/login''"
  shows "protectedRouteEffect u p = [] \<and> adminMode u m"
proof -
  have "p \<noteq> ''/files''" using assms(3) by (auto simp: onAdmin_def)
  moreover have "protectedRouteEffect u p = []"
    using assms(2) loaded_stays [OF L, of p] by (auto simp: loaded_round [OF L] split: if_splits)
  ultimately show ?thesis
    using assms(2-4) chromeTarget_user [OF loadedD(1) [OF L], of m p st] by (auto simp: loaded_round [OF L])
qed

text \<open>
  C6. The gate, the shell's mode redirect and the onboarding redirect never chase each other: from
  any path, after at most four rounds a signed-in operator is on a page where all of them are
  silent. If that is an admin page (the bare login route aside), the session is in an admin mode
  and the operator holds a capability for that page.
\<close>

theorem shell_comes_to_rest:
  assumes "\<not> usLoading u" and "usData u = Some d"
    and "\<And>c. ownCluster d = Some c \<Longrightarrow> CHR ''/'' \<notin> set c"
    and "q = (shellRound u m st ^^ 4) p"
  shows "shellRound u m st q = q \<and>
    (onAdmin q \<and> q \<noteq> ''/admin/login'' \<longrightarrow>
      adminMode u m \<and>
      (\<exists>c. can u c \<and>
        (case resolveRequiredCapabilities q of
           Some required \<Rightarrow> c \<in> set required
         | None \<Rightarrow> c \<in> {cap ''PLATFORM_SYSTEM_READ'', cap ''CLUSTER_WIRING_LIST'',
                       cap ''CLUSTER_WIRING_READ'', cap ''CLUSTER_CONTENTS_READ''})))"
proof -
  have L: "loaded u d" using assms(1-3) by (simp add: loaded_def)
  have q: "shellRound u m st q = q"
    using rests_anywhere [OF L, of m st p] assms(4) by (simp add: rests_def)
  moreover have "protectedRouteEffect u q = [] \<and> adminMode u m"
    if "onAdmin q" "q \<noteq> ''/admin/login''"
    using at_rest [OF L q that] .
  ultimately show ?thesis
    using effect_admits [OF assms(1), of q] assms(2) by (simp only: onAdmin_def) blast
qed

theorem shell_comes_to_rest_witness:
  "\<exists>q. q = (shellRound (clusterAdmin ''c1'' [''cluster.wiring.read'']) AdminMode
        (Some \<lparr>obCompleted = False, obNeeded = True\<rparr>) ^^ 4) ''/admin'' \<and>
     shellRound (clusterAdmin ''c1'' [''cluster.wiring.read'']) AdminMode
        (Some \<lparr>obCompleted = False, obNeeded = True\<rparr>) q = q"
proof -
  let ?d = "sampleUser [''cluster.wiring.read''] (Some \<lparr>arKind = ''cluster-admin'', arCluster = Some ''c1''\<rparr>)"
  have "\<not> usLoading (clusterAdmin ''c1'' [''cluster.wiring.read''])"
    "usData (clusterAdmin ''c1'' [''cluster.wiring.read'']) = Some ?d"
    "\<And>c. ownCluster ?d = Some c \<Longrightarrow> CHR ''/'' \<notin> set c"
    by (auto simp: clusterAdmin_def signedIn_def sampleUser_def ownCluster_def)
  from shell_comes_to_rest [OF this refl] show ?thesis by blast
qed

text \<open>
  The landing page that the gate computes for the bare admin root is never asked for: the index
  route sits outside the gate and always goes to the cluster list. An operator with the system
  capability but not the cluster list ends on the files page.
\<close>

theorem admin_root_skips_landing:
  "\<exists>u. settle u ''/admin'' = ''/admin/system'' \<and> settle u (follow ''/admin'' adminIndex) = ''/files''"
proof -
  let ?u = "signedIn (sampleUser [''platform.system.read''] None)"
  have "settle ?u ''/admin'' = ''/admin/system''" "settle ?u (follow ''/admin'' adminIndex) = ''/files''"
    by (simp_all add: access_eval settle_def resolveAdminLanding_def bounceToFiles_def adminIndex_def
        resolve_clusters)
  then show ?thesis by blast
qed

section \<open>Where the links lead\<close>

lemma Can_single: "Can u (Some c) None None \<longleftrightarrow> can u c"
  by (simp add: Can_iff)

lemma resolve_static:
  "resolveRequiredCapabilities ''/admin/buckets'' = Some [''cluster.buckets.aggregate'']"
  "resolveRequiredCapabilities ''/admin/usage'' = Some [''cluster.usage.aggregate'']"
  "resolveRequiredCapabilities ''/admin/policies'' = Some [''platform.policies.list'']"
  "resolveRequiredCapabilities ''/admin/service-accounts'' = Some [''platform.service-accounts.list'']"
  "resolveRequiredCapabilities ''/admin/audit'' = Some [''platform.audit.read'']"
  "resolveRequiredCapabilities ''/admin/system'' = Some [''platform.system.read'']"
  unfolding resolve_by_segments by code_simp+

lemma resolve_own_cluster:
  assumes "c \<noteq> []" and "CHR ''/'' \<notin> set c" and "c \<noteq> ''new''"
  shows "resolveRequiredCapabilities (clusterPath c) = Some [''cluster.wiring.read'']"
proof -
  have "splitOn CHR ''/'' (clusterPath c) = [[], ''admin'', ''clusters'', c]"
    using assms(2) by (simp add: clusterPath_def splitOn_no_delim)
  then have "segments (clusterPath c) = [''admin'', ''clusters'', c]"
    using assms(1) by (simp add: segments_def)
  then show ?thesis using assms(3)
    unfolding resolve_by_segments findSegments_def routeSegments_eval by simp
qed

lemma gate_opens:
  "resolveRequiredCapabilities p = Some [c] \<Longrightarrow> can u c \<Longrightarrow> capabilityGate (canAny u) p = []"
  by (simp add: capabilityGate_empty caps.hasAny_iff)

text \<open>A static page outside the clusters section, reached with its capability.\<close>

lemma static_stays:
  assumes "\<not> usLoading u" and "usData u = Some d" and "clusterSegment p = None"
    and "p \<notin> {''/admin'', ''/admin/'', ''/admin/clusters''}"
    and "resolveRequiredCapabilities p = Some [c]" and "can u c"
  shows "settle u p = p"
proof -
  have "protectedRouteEffect u p = [] \<or> protectedRouteEffect u p = capabilityGate (canAny u) p"
    using assms by (simp add: protectedRouteEffect_def)
  then show ?thesis using gate_opens [OF assms(5,6)] by (auto simp: settle_def)
qed

lemma own_stays:
  assumes "\<not> usLoading u" and "usData u = Some d" and "ownCluster d = Some c" and "c \<noteq> []"
    and "CHR ''/'' \<notin> set c" and "c \<noteq> ''new''" and "can u ''cluster.wiring.read''"
  shows "settle u (clusterPath c) = clusterPath c"
proof -
  have "startsWith (clusterPath c) ''/admin''" "clusterPath c \<noteq> ''/login''"
    by (simp_all add: clusterPath_def)
  then have "protectedRouteEffect u (clusterPath c) = capabilityGate (canAny u) (clusterPath c)"
    using assms clusterPath_neq [of c] by (simp add: protectedRouteEffect_def clusterSegment_own)
  then show ?thesis
    using gate_opens [OF resolve_own_cluster assms(7)] assms(4-6) by (simp add: settle_def)
qed

lemma capLink_iff: "l \<in> set (capLink u c t) \<longleftrightarrow> l = t \<and> can u (cap c)"
  by (simp add: capLink_def Can_single)

lemma navLinks_iff:
  "l \<in> set (navLinks u) \<longleftrightarrow>
     (\<exists>c. clusterAdminCluster u = Some c \<and> c \<noteq> [] \<and> l = clusterPath (encodeURIComponent c) \<and>
        can u ''cluster.contents.read'') \<or>
     l = ''/admin/buckets'' \<and> can u ''cluster.buckets.aggregate'' \<or>
     l = ''/admin/usage'' \<and> can u ''cluster.usage.aggregate'' \<or>
     l = ''/admin/clusters'' \<and> can u ''cluster.wiring.list'' \<or>
     l = ''/admin/policies'' \<and> can u ''platform.policies.list'' \<or>
     l = ''/admin/service-accounts'' \<and> can u ''platform.service-accounts.list'' \<or>
     l = ''/admin/audit'' \<and> can u ''platform.audit.read'' \<or>
     l = ''/admin/system'' \<and> can u ''platform.system.read''"
proof -
  have own: "l \<in> set (if present (clusterAdminCluster u)
      then capLink u ''CLUSTER_CONTENTS_READ'' (clusterPath (encodeURIComponent (the (clusterAdminCluster u))))
      else []) \<longleftrightarrow>
     (\<exists>c. clusterAdminCluster u = Some c \<and> c \<noteq> [] \<and> l = clusterPath (encodeURIComponent c) \<and>
        can u ''cluster.contents.read'')"
    by (cases "clusterAdminCluster u") (auto simp: capLink_iff)
  show ?thesis
    unfolding navLinks_def set_append Un_iff own capLink_iff cap_values ..
qed

lemma static_pages:
  "clusterSegment ''/admin/buckets'' = None" "clusterSegment ''/admin/usage'' = None"
  "clusterSegment ''/admin/policies'' = None" "clusterSegment ''/admin/service-accounts'' = None"
  "clusterSegment ''/admin/audit'' = None" "clusterSegment ''/admin/system'' = None"
  "''/admin/buckets'' \<notin> {''/admin'', ''/admin/'', ''/admin/clusters''}"
  "''/admin/usage'' \<notin> {''/admin'', ''/admin/'', ''/admin/clusters''}"
  "''/admin/policies'' \<notin> {''/admin'', ''/admin/'', ''/admin/clusters''}"
  "''/admin/service-accounts'' \<notin> {''/admin'', ''/admin/'', ''/admin/clusters''}"
  "''/admin/audit'' \<notin> {''/admin'', ''/admin/'', ''/admin/clusters''}"
  "''/admin/system'' \<notin> {''/admin'', ''/admin/'', ''/admin/clusters''}"
  by (simp_all add: clusterSegment_def)

lemma navLinks_cases:
  assumes "l \<in> set (navLinks u)"
  obtains (own) c where "clusterAdminCluster u = Some c" "c \<noteq> []" "l = clusterPath (encodeURIComponent c)"
  | (clusters) "l = ''/admin/clusters''" "can u ''cluster.wiring.list''"
  | (static) c where "resolveRequiredCapabilities l = Some [c]" "can u c" "clusterSegment l = None"
      "l \<notin> {''/admin'', ''/admin/'', ''/admin/clusters''}"
  using assms unfolding navLinks_iff
proof (elim disjE exE conjE)
  fix c
  assume "clusterAdminCluster u = Some c" "c \<noteq> []" "l = clusterPath (encodeURIComponent c)"
  then show thesis by (rule own)
next
  assume "l = ''/admin/clusters''" "can u ''cluster.wiring.list''"
  then show thesis by (rule clusters)
next
  assume l: "l = ''/admin/buckets''" and "can u ''cluster.buckets.aggregate''"
  show thesis by (rule static, unfold l) (fact resolve_static(1) \<open>can u _\<close> static_pages)+
next
  assume l: "l = ''/admin/usage''" and "can u ''cluster.usage.aggregate''"
  show thesis by (rule static, unfold l) (fact resolve_static(2) \<open>can u _\<close> static_pages)+
next
  assume l: "l = ''/admin/policies''" and "can u ''platform.policies.list''"
  show thesis by (rule static, unfold l) (fact resolve_static(3) \<open>can u _\<close> static_pages)+
next
  assume l: "l = ''/admin/service-accounts''" and "can u ''platform.service-accounts.list''"
  show thesis by (rule static, unfold l) (fact resolve_static(4) \<open>can u _\<close> static_pages)+
next
  assume l: "l = ''/admin/audit''" and "can u ''platform.audit.read''"
  show thesis by (rule static, unfold l) (fact resolve_static(5) \<open>can u _\<close> static_pages)+
next
  assume l: "l = ''/admin/system''" and "can u ''platform.system.read''"
  show thesis by (rule static, unfold l) (fact resolve_static(6) \<open>can u _\<close> static_pages)+
qed

text \<open>
  No dead links: every link the admin shell shows to a signed-in operator leads to a page
  on which the route gate leaves that operator, the one exception being the cluster list, which for a
  cluster admin leads on to the admin's own cluster. It is assumed that a cluster admin may read
  the wiring of the own cluster, whose id is a plain path segment other than \<open>new\<close>.
\<close>

theorem nav_links_lead_to_pages:
  assumes "\<not> usLoading u" and "usData u = Some d" and "l \<in> set (navLinks u)"
    and "\<And>c. ownCluster d = Some c \<Longrightarrow>
      c \<noteq> ''new'' \<and> (\<forall>x \<in> set c. uriUnreserved x) \<and> can u (cap ''CLUSTER_WIRING_READ'')"
  shows "stays u l \<or>
    (\<exists>c. l = ''/admin/clusters'' \<and> ownCluster d = Some c \<and> settle u l = clusterPath c \<and>
       stays u (clusterPath c))"
proof -
  have enc: "encodeURIComponent c = c" if "ownCluster d = Some c" for c
    using assms(4) [OF that] enc_plain by blast
  have own: "settle u (clusterPath c) = clusterPath c" if "ownCluster d = Some c" "c \<noteq> []" for c
  proof -
    have "CHR ''/'' \<notin> set c" using enc [OF that(1)] enc_no_reserved [of "CHR ''/''" c] by simp
    then show ?thesis using own_stays [OF assms(1,2) that] assms(4) [OF that(1)] by simp
  qed
  show ?thesis
    using assms(3)
  proof (cases rule: navLinks_cases)
    case (own c)
    then have "ownCluster d = Some c" using assms(2) by (simp add: clusterAdminCluster_def)
    then show ?thesis using own(2,3) \<open>\<And>c. ownCluster d = Some c \<Longrightarrow> c \<noteq> [] \<Longrightarrow> _\<close> enc
      by (simp add: stays_settle)
  next
    case clusters
    then show ?thesis
    proof (cases "present (ownCluster d)")
      case True
      then obtain c where "ownCluster d = Some c" "c \<noteq> []" by (auto simp: present_iff)
      then show ?thesis using assms(1,2) clusters own [of c]
        by (simp add: stays_settle settle_def protectedRouteEffect_def)
    next
      case False
      then have "protectedRouteEffect u l = capabilityGate (canAny u) l"
        using assms(1,2) clusters by (simp add: protectedRouteEffect_def clusterSegment_def)
      then show ?thesis using clusters gate_opens [OF resolve_clusters(1)] by (simp add: stays_def)
    qed
  next
    case (static c)
    then show ?thesis using static_stays [OF assms(1,2)] by (simp add: stays_settle)
  qed
qed

theorem nav_links_lead_to_pages_witness:
  "stays (clusterAdmin ''c1'' [''cluster.contents.read'', ''cluster.wiring.read'']) (clusterPath ''c1'')"
proof -
  let ?cs = "[''cluster.contents.read'', ''cluster.wiring.read'']"
  let ?u = "clusterAdmin ''c1'' ?cs"
  let ?d = "sampleUser ?cs (Some \<lparr>arKind = ''cluster-admin'', arCluster = Some ''c1''\<rparr>)"
  have facts: "\<not> usLoading ?u" "usData ?u = Some ?d"
    by (simp_all add: clusterAdmin_def signedIn_def)
  have own: "ownCluster ?d = Some ''c1''" by (simp add: ownCluster_def sampleUser_def)
  have caps: "can ?u ''cluster.contents.read''" "can ?u ''cluster.wiring.read''"
    by (simp_all add: access_eval)
  have enc: "encodeURIComponent ''c1'' = ''c1''" by (rule enc_plain) code_simp
  have "clusterPath ''c1'' \<in> set (navLinks ?u)"
    unfolding navLinks_iff clusterAdminCluster_def using own caps enc by (auto simp: facts)
  moreover have "c \<noteq> ''new'' \<and> (\<forall>x \<in> set c. uriUnreserved x) \<and> can ?u (cap ''CLUSTER_WIRING_READ'')"
    if "ownCluster ?d = Some c" for c
  proof -
    have "\<forall>x \<in> set ''c1''. uriUnreserved x" by code_simp
    then show ?thesis using that caps own by auto
  qed
  ultimately have "stays ?u (clusterPath ''c1'') \<or>
      (\<exists>c. clusterPath ''c1'' = ''/admin/clusters'' \<and> ownCluster ?d = Some c \<and>
         settle ?u (clusterPath ''c1'') = clusterPath c \<and> stays ?u (clusterPath c))"
    by (rule nav_links_lead_to_pages [OF facts])
  then show ?thesis using clusterPath_neq(3) [of "''c1''"] by blast
qed

text \<open>
  The assumption on the wiring capability is needed: the link to the own cluster is shown for the contents
  capability, the page asks for the wiring capability.
\<close>

theorem my_cluster_link_can_bounce:
  "\<exists>u. clusterPath ''c1'' \<in> set (navLinks u) \<and> settle u (clusterPath ''c1'') = ''/files''"
proof (intro exI conjI)
  let ?u = "clusterAdmin ''c1'' [''cluster.contents.read'']"
  have "encodeURIComponent ''c1'' = ''c1''" by (rule enc_plain) code_simp
  then show "clusterPath ''c1'' \<in> set (navLinks ?u)"
    unfolding navLinks_iff by (intro disjI1 exI [of _ "''c1''"])
      (simp add: clusterAdminCluster_def access_eval)
  show "settle ?u (clusterPath ''c1'') = ''/files''"
    by (simp add: clusterPath_def settle_def access_eval resolve_clusters bounceToFiles_def)
qed

section \<open>Signing in and out\<close>

lemma run_onLoginSubmit:
  "run (onLoginSubmit title nextPath username password) b h =
     (h @ [RCall (loginReq username password)],
      Inr (case onCall b h (loginReq username password) of
          None \<Rightarrow> ConnectionFailedToast
        | Some res \<Rightarrow>
            if crStatus res = 401 then LoginError (JStr ''Invalid credentials'')
            else if crStatus res \<ge> 500 then ConnectionFailedToast
            else if truthy (crError res)
              then LoginError (orElse (getProp (getProp (crError res) ''error'') ''message'') (JStr title))
            else LoginDone [Invalidate [KS ''auth'', KS ''me'']] nextPath))"
  by (simp add: onLoginSubmit_def awaitCall_def run_catchJs split: option.splits)

text \<open>
  A deep link survives the login: when the gate has sent a signed-out visitor of an admin page
  to the login form, the form sends one request and never fails; it moves on only after an
  answer below 500 other than 401 that carried no error, having outdated the cached session first,
  and then to the very page the visitor came for.
\<close>

theorem login_returns_to_page:
  assumes "protectedRouteEffect u path = [GotoLogin (Some nxt)]" and "startsWith path ''/admin''"
    and "run (onLoginSubmit title (loginNextPath (JStr nxt)) username password) b [] = (h, result)"
  shows "h = [RCall (loginReq username password)] \<and>
    (\<exists>out. result = Inr out \<and>
      (\<forall>effects target. out = LoginDone effects target \<longrightarrow>
         target = path \<and> covers effects (queryKey useUser) \<and>
         (\<exists>res. onCall b [] (loginReq username password) = Some res \<and> crStatus res \<noteq> 401 \<and>
            crStatus res < 500 \<and> \<not> truthy (crError res))))"
proof -
  have nxt: "nxt = path"
    using assms(1,2)
    by (auto simp: protectedRouteEffect_def bounceToFiles_def capabilityGate_def Let_def
        split: if_splits option.splits AdminLandingResult.splits)
  have "loginNextPath (JStr path) = path"
    using assms(2) by (auto simp: loginNextPath_def sanitizeNextPath_def prefix_def)
  then show ?thesis
    using assms(3) unfolding nxt run_onLoginSubmit
    by (auto simp: covers_def useUser_def split: option.splits if_splits)
qed

theorem login_returns_to_page_witness:
  "\<exists>out. snd (run (onLoginSubmit ''Sign in'' (loginNextPath (JStr ''/admin/users'')) ''ops'' ''pw'')
     \<lparr>onFetch = (\<lambda>_ _. None),
      onCall = (\<lambda>_ _. Some \<lparr>crStatus = 200, crData = JObj [], crError = JUndef\<rparr>),
      onPut = (\<lambda>_ _. None)\<rparr> []) = Inr out \<and>
    out = LoginDone [Invalidate [KS ''auth'', KS ''me'']] ''/admin/users''"
proof -
  let ?b = "\<lparr>onFetch = (\<lambda>_ _. None),
    onCall = (\<lambda>_ _. Some \<lparr>crStatus = 200, crData = JObj [], crError = JUndef\<rparr>), onPut = (\<lambda>_ _. None)\<rparr>"
  have gate: "protectedRouteEffect \<lparr>usData = None, usLoading = False, usError = False\<rparr> ''/admin/users''
      = [GotoLogin (Some ''/admin/users'')]" and admin: "startsWith ''/admin/users'' ''/admin''"
    by (simp_all add: protectedRouteEffect_def)
  have run: "run (onLoginSubmit ''Sign in'' (loginNextPath (JStr ''/admin/users'')) ''ops'' ''pw'') ?b [] =
      ([RCall (loginReq ''ops'' ''pw'')],
       Inr (LoginDone [Invalidate [KS ''auth'', KS ''me'']] (loginNextPath (JStr ''/admin/users''))))"
    by (simp add: run_onLoginSubmit)
  from login_returns_to_page [OF gate admin run] show ?thesis unfolding run by auto
qed

text \<open>
  The form looks at the error body, not at the status: a refusal other than 401 without a body
  counts as a login.
\<close>

theorem bodiless_refusal_counts_as_login:
  assumes "onCall b [] (loginReq username password) =
    Some \<lparr>crStatus = 403, crData = JUndef, crError = JUndef\<rparr>"
  shows "snd (run (onLoginSubmit title nextPath username password) b []) =
    Inr (LoginDone [Invalidate [KS ''auth'', KS ''me'']] nextPath)"
  using assms by (simp add: run_onLoginSubmit)

text \<open>Signing out forgets the session whatever the server says, and the gate then closes.\<close>

theorem logout_closes_gate:
  "snd (run handleLogout b h) = Inr ([RemoveQueries (queryKey useUser)], GotoLogin None) \<and>
   (path \<noteq> ''/login'' \<longrightarrow>
     (\<exists>n. protectedRouteEffect \<lparr>usData = None, usLoading = False, usError = e\<rparr> path = [GotoLogin n]))"
  by (simp add: handleLogout_def run_bindJs run_catchJs useUser_def protectedRouteEffect_def
      split: option.splits)

section \<open>The skin menu\<close>

definition skinNames :: "string list option \<Rightarrow> skin_entry list \<Rightarrow> string list" where
  "skinNames allowed registry =
     (case allowed of Some (a # as) \<Rightarrow> a # as | _ \<Rightarrow> map skName registry)"

lemma skin_found:
  "(case List.find (\<lambda>s. skName s = name) registry of None \<Rightarrow> [] | Some s \<Rightarrow> [(name, f s)]) = [] \<longleftrightarrow>
   name \<notin> skName ` set registry"
  by (auto simp: find_None_iff split: option.splits dest!: find_Some_iff [THEN iffD1])

lemma shownSkins_names:
  "fst ` set (shownSkins allowed registry) = set (skinNames allowed registry) \<inter> skName ` set registry"
proof -
  have "fst ` set (concat (map (\<lambda>name. case List.find (\<lambda>s. skName s = name) registry of None \<Rightarrow> []
      | Some s \<Rightarrow> [(name, if present (skDisplayName s) then the (skDisplayName s) else name)]) names))
    = set names \<inter> skName ` set registry" for names
  proof (induction names)
    case (Cons n names)
    then show ?case using skin_found [where name = n and registry = registry]
      by (cases "List.find (\<lambda>s. skName s = n) registry") (auto simp: image_Un)
  qed simp
  then show ?thesis by (simp add: shownSkins_def skinNames_def Let_def)
qed

lemma chooseSkin_names:
  "chooseSkin allowed n = SetSkin n \<longleftrightarrow>
     allowed = None \<or> allowed = Some [] \<or> n \<in> set (skinNames allowed registry)"
  by (cases allowed) (auto simp: chooseSkin_def skinNames_def Let_def split: list.splits)

text \<open>
  Every skin the menu offers can be chosen: its entry exists in the registry and selecting it is
  never refused as unavailable, and the menu offers every permitted skin of the registry.
\<close>

theorem menu_skins_selectable:
  "(\<forall>name \<in> fst ` set (shownSkins allowed registry).
      chooseSkin allowed name = SetSkin name \<and> name \<in> skName ` set registry) \<and>
   (\<forall>name \<in> skName ` set registry. chooseSkin allowed name = SetSkin name \<longrightarrow>
      name \<in> fst ` set (shownSkins allowed registry))"
  unfolding shownSkins_names chooseSkin_names [of _ _ registry]
  by (auto simp: skinNames_def)

theorem menu_skins_selectable_witness:
  "chooseSkin (Some [''dark'']) ''dark'' = SetSkin ''dark''"
  using menu_skins_selectable [of "Some [''dark'']" "[\<lparr>skName = ''dark'', skDisplayName = None\<rparr>]"]
  by (simp add: shownSkins_def)

end
