(* ===== verification/Lifecycle_Editor.thy ===== *)
theory Lifecycle_Editor
  imports Bucket_Hooks Js_Numbers
begin

text \<open>
  The form for one lifecycle rule (\<open>shared/ui/LifecycleRuleEditor.tsx\<close>): how a stored rule becomes form
  state, how form state becomes a rule, and how the rule is put back into the policy, which is always
  sent as a whole. The policy the editor was opened with and the driver's capabilities are
  arguments; the form holds strings, as its inputs do.
\<close>

section \<open>The form\<close>

record LifecycleCapabilities =
  lcSupported :: bool
  lcExpiration :: bool
  lcTransition :: bool
  lcTransitionTiers :: "string list"
  lcNoncurrentDays :: bool
  lcAbortMultipartDays :: bool

datatype ActionKind = Expire | Transition | AbortMpu | Noncurrent

record FormState =
  fsId :: string
  fsStatus :: string
  fsPrefix :: string
  fsAction :: ActionKind
  fsDays :: string
  fsTier :: string

section \<open>From a rule to the form\<close>

definition inferAction :: "LifecycleRule \<Rightarrow> ActionKind" where
  "inferAction rule =
     (if lrExpirationDays rule \<noteq> None then Expire
      else if lrTransitionDays rule \<noteq> None then Transition
      else if lrAbortMultipartDays rule \<noteq> None then AbortMpu
      else if lrNoncurrentDays rule \<noteq> None then Noncurrent
      else Expire)"

fun daysForAction :: "LifecycleRule \<Rightarrow> ActionKind \<Rightarrow> int option" where
  "daysForAction rule Expire = lrExpirationDays rule"
| "daysForAction rule Transition = lrTransitionDays rule"
| "daysForAction rule AbortMpu = lrAbortMultipartDays rule"
| "daysForAction rule Noncurrent = lrNoncurrentDays rule"

definition firstTier :: "LifecycleCapabilities \<Rightarrow> string" where
  "firstTier caps = (case lcTransitionTiers caps of [] \<Rightarrow> [] | t # _ \<Rightarrow> t)"

text \<open>The initial form; \<open>ruleId\<close> is absent or empty for a new rule.\<close>

definition isEdit :: "string option \<Rightarrow> bool" where
  "isEdit ruleId = present ruleId"

definition newForm :: "LifecycleCapabilities \<Rightarrow> FormState" where
  "newForm caps = \<lparr>fsId = [], fsStatus = ''Enabled'', fsPrefix = [], fsAction = Expire,
     fsDays = ''30'', fsTier = firstTier caps\<rparr>"

definition formOf :: "LifecycleCapabilities \<Rightarrow> LifecycleRule \<Rightarrow> FormState" where
  "formOf caps existing =
     (let action = inferAction existing in
      \<lparr>fsId = lrId existing, fsStatus = lrStatus existing,
       fsPrefix = (case lrPrefix existing of None \<Rightarrow> [] | Some p \<Rightarrow> p),
       fsAction = action,
       fsDays = (case daysForAction existing action of None \<Rightarrow> [] | Some d \<Rightarrow> decInt d),
       fsTier = (case lrTransitionTier existing of None \<Rightarrow> firstTier caps | Some t \<Rightarrow> t)\<rparr>)"

definition seedForm ::
  "LifecycleCapabilities \<Rightarrow> LifecycleRule list \<Rightarrow> string option \<Rightarrow> FormState" where
  "seedForm caps rules ruleId =
     (if isEdit ruleId
      then (case List.find (\<lambda>r. lrId r = the ruleId) rules of
              None \<Rightarrow> newForm caps
            | Some existing \<Rightarrow> formOf caps existing)
      else newForm caps)"

section \<open>From the form to a rule\<close>

definition baseRule :: "FormState \<Rightarrow> LifecycleRule" where
  "baseRule form = \<lparr>lrId = trim (fsId form), lrStatus = fsStatus form,
     lrPrefix = (if trim (fsPrefix form) = [] then None else Some (trim (fsPrefix form))),
     lrExpirationDays = None, lrTransitionDays = None, lrTransitionTier = None,
     lrNoncurrentDays = None, lrAbortMultipartDays = None\<rparr>"

definition formToRule :: "FormState \<Rightarrow> LifecycleCapabilities \<Rightarrow> LifecycleRule option" where
  "formToRule form caps =
     (case parseInt (fsDays form) of
        None \<Rightarrow> None
      | Some days \<Rightarrow>
          if days < 1 then None
          else (let rule = baseRule form in
            case fsAction form of
              Expire \<Rightarrow> if \<not> lcExpiration caps then None
                else Some (rule\<lparr>lrExpirationDays := Some days\<rparr>)
            | Transition \<Rightarrow> if \<not> lcTransition caps \<or> fsTier form = [] then None
                else Some (rule\<lparr>lrTransitionDays := Some days, lrTransitionTier := Some (fsTier form)\<rparr>)
            | AbortMpu \<Rightarrow> if \<not> lcAbortMultipartDays caps then None
                else Some (rule\<lparr>lrAbortMultipartDays := Some days\<rparr>)
            | Noncurrent \<Rightarrow> if \<not> lcNoncurrentDays caps then None
                else Some (rule\<lparr>lrNoncurrentDays := Some days\<rparr>)))"

section \<open>Saving\<close>

text \<open>Nothing happens, the page is left, or the whole policy is sent (and the page left on success).\<close>

datatype save_outcome = NothingSaved | LeftEditor | PutPolicy "LifecycleRule list"

definition saveRule ::
  "LifecycleCapabilities \<Rightarrow> LifecycleRule list \<Rightarrow> string option \<Rightarrow> FormState \<Rightarrow> save_outcome" where
  "saveRule caps rules ruleId form =
     (case formToRule form caps of
        None \<Rightarrow> NothingSaved
      | Some rule \<Rightarrow>
          (let others = filter (\<lambda>r. lrId r \<noteq> lrId rule) rules in
           if isEdit ruleId \<and> \<not> list_ex (\<lambda>r. Some (lrId r) = ruleId) rules then LeftEditor
           else PutPolicy (others @ [rule])))"

text \<open>The actions the form offers, and when the submit button is live.\<close>

definition actionOffered :: "LifecycleCapabilities \<Rightarrow> ActionKind \<Rightarrow> bool" where
  "actionOffered caps a =
     (case a of Expire \<Rightarrow> lcExpiration caps | Transition \<Rightarrow> lcTransition caps
      | AbortMpu \<Rightarrow> lcAbortMultipartDays caps | Noncurrent \<Rightarrow> lcNoncurrentDays caps)"

definition submitEnabled :: "bool \<Rightarrow> FormState \<Rightarrow> bool" where
  "submitEnabled isPending form \<longleftrightarrow> \<not> (isPending \<or> trim (fsId form) = [])"

definition submitForm ::
  "bool \<Rightarrow> LifecycleCapabilities \<Rightarrow> LifecycleRule list \<Rightarrow> string option \<Rightarrow> FormState \<Rightarrow> save_outcome" where
  "submitForm isPending caps rules ruleId form =
     (if submitEnabled isPending form then saveRule caps rules ruleId form else NothingSaved)"

text \<open>
  The controls: the id is locked while editing, an action the driver does not support is disabled, and the tiers
  on offer are the driver's, shown for a transition only. The browser's own check of the number is left out.
\<close>

datatype form_event =
    ChangeRuleId string
  | ChooseStatus bool
  | ChangeRulePrefix string
  | ChooseAction ActionKind
  | ChangeDays string
  | ChooseTier string

fun formStep :: "LifecycleCapabilities \<Rightarrow> string option \<Rightarrow> form_event \<Rightarrow> FormState \<Rightarrow> FormState" where
  "formStep caps ruleId (ChangeRuleId s) f = (if isEdit ruleId then f else f\<lparr>fsId := s\<rparr>)"
| "formStep caps ruleId (ChooseStatus on) f = f\<lparr>fsStatus := (if on then ''Enabled'' else ''Disabled'')\<rparr>"
| "formStep caps ruleId (ChangeRulePrefix s) f = f\<lparr>fsPrefix := s\<rparr>"
| "formStep caps ruleId (ChooseAction a) f = (if actionOffered caps a then f\<lparr>fsAction := a\<rparr> else f)"
| "formStep caps ruleId (ChangeDays s) f = f\<lparr>fsDays := s\<rparr>"
| "formStep caps ruleId (ChooseTier t) f =
     (if fsAction f = Transition \<and> t \<in> set (lcTransitionTiers caps) then f\<lparr>fsTier := t\<rparr> else f)"

definition formAfter ::
  "LifecycleCapabilities \<Rightarrow> LifecycleRule list \<Rightarrow> string option \<Rightarrow> form_event list \<Rightarrow> FormState" where
  "formAfter caps rules ruleId es = foldl (\<lambda>f e. formStep caps ruleId e f) (seedForm caps rules ruleId) es"

text \<open>What the editor shows: a skeleton, an error, an unsupported driver, or the form.\<close>

datatype editor_view = EditorSkeleton | LoadError | Unsupported | EditorForm

definition editorView :: "bool \<Rightarrow> bool \<Rightarrow> LifecycleCapabilities option \<Rightarrow> editor_view" where
  "editorView isLoading error data =
     (case data of
        None \<Rightarrow> EditorSkeleton
      | Some caps \<Rightarrow>
          if isLoading then EditorSkeleton
          else if error then LoadError
          else if \<not> lcSupported caps then Unsupported
          else EditorForm)"

section \<open>What a save sends\<close>

text \<open>
  A rule in the shape the form produces: one action, supported by the driver, with a positive number
  of days, and a tier exactly for a transition.
\<close>

definition wireRule :: "LifecycleCapabilities \<Rightarrow> LifecycleRule \<Rightarrow> bool" where
  "wireRule caps r \<longleftrightarrow>
     (let a = inferAction r in
      actionOffered caps a \<and>
      (case daysForAction r a of None \<Rightarrow> False | Some d \<Rightarrow> 1 \<le> d) \<and>
      list_all (\<lambda>b. b = a \<or> daysForAction r b = None) [Expire, Transition, AbortMpu, Noncurrent] \<and>
      (if a = Transition then present (lrTransitionTier r) else lrTransitionTier r = None))"

lemma formToRule_wire:
  assumes "formToRule form caps = Some r"
  shows "wireRule caps r \<and> lrId r = trim (fsId form) \<and> lrStatus r = fsStatus form \<and>
    inferAction r = fsAction form"
  using assms
  by (cases "fsAction form")
     (auto simp: formToRule_def baseRule_def Let_def wireRule_def actionOffered_def inferAction_def
       split: option.splits if_splits)

text \<open>
  A rule as the driver's capabilities allow it, with any number of actions: a stored rule may have
  several, the form makes one.
\<close>

definition typedRule :: "LifecycleCapabilities \<Rightarrow> LifecycleRule \<Rightarrow> bool" where
  "typedRule caps r \<longleftrightarrow> lrId r \<noteq> [] \<and> lrStatus r \<in> {''Enabled'', ''Disabled''} \<and>
     list_ex (\<lambda>a. daysForAction r a \<noteq> None) [Expire, Transition, AbortMpu, Noncurrent] \<and>
     list_all (\<lambda>a. case daysForAction r a of None \<Rightarrow> True | Some d \<Rightarrow> actionOffered caps a \<and> 1 \<le> d)
       [Expire, Transition, AbortMpu, Noncurrent] \<and>
     (lrTransitionDays r \<noteq> None \<longrightarrow> lrTransitionTier r \<noteq> None) \<and>
     (case lrTransitionTier r of None \<Rightarrow> True | Some t \<Rightarrow> t \<in> set (lcTransitionTiers caps))"

definition formTyped :: "LifecycleCapabilities \<Rightarrow> FormState \<Rightarrow> bool" where
  "formTyped caps f \<longleftrightarrow> fsStatus f \<in> {''Enabled'', ''Disabled''} \<and>
     (fsTier f = [] \<or> fsTier f \<in> set (lcTransitionTiers caps))"

lemma firstTier_offered: "firstTier caps = [] \<or> firstTier caps \<in> set (lcTransitionTiers caps)"
  by (simp add: firstTier_def split: list.split)

lemma seed_typed: "list_all (typedRule caps) rules \<Longrightarrow> formTyped caps (seedForm caps rules ruleId)"
proof -
  assume typed: "list_all (typedRule caps) rules"
  have new: "formTyped caps (newForm caps)" using firstTier_offered by (auto simp: formTyped_def newForm_def)
  have "formTyped caps (formOf caps r)" if "r \<in> set rules" for r
  proof -
    have r: "typedRule caps r" using that typed by (simp add: list_all_iff)
    then have "lrStatus r \<in> {''Enabled'', ''Disabled''}" unfolding typedRule_def by blast
    moreover have "lrTransitionTier r = Some t \<Longrightarrow> t \<in> set (lcTransitionTiers caps)" for t
      using r unfolding typedRule_def by simp
    ultimately show ?thesis using firstTier_offered [of caps]
      by (cases "lrTransitionTier r") (simp_all add: formTyped_def formOf_def Let_def)
  qed
  then show ?thesis using new
    by (auto simp: seedForm_def find_Some_iff split: option.split)
qed

lemma formAfter_typed:
  assumes "list_all (typedRule caps) rules"
  shows "formTyped caps (formAfter caps rules ruleId es)"
proof (induction es rule: rev_induct)
  case Nil
  then show ?case using seed_typed [OF assms] by (simp add: formAfter_def)
next
  case (snoc e es)
  then show ?case by (cases e) (auto simp: formAfter_def formTyped_def)
qed

lemma formToRule_typed:
  assumes "formToRule form caps = Some r" and "formTyped caps form" and "trim (fsId form) \<noteq> []"
  shows "typedRule caps r"
proof -
  obtain d where d: "parseInt (fsDays form) = Some d" "1 \<le> d"
    using assms(1) by (auto simp: formToRule_def split: option.splits if_splits)
  have base: "lrId (baseRule form) \<noteq> []" "lrStatus (baseRule form) \<in> {''Enabled'', ''Disabled''}"
    "lrExpirationDays (baseRule form) = None" "lrTransitionDays (baseRule form) = None"
    "lrTransitionTier (baseRule form) = None" "lrNoncurrentDays (baseRule form) = None"
    "lrAbortMultipartDays (baseRule form) = None"
    using assms(2,3) unfolding formTyped_def by (simp_all add: baseRule_def)
  have tier: "fsTier form = [] \<or> fsTier form \<in> set (lcTransitionTiers caps)"
    using assms(2) unfolding formTyped_def by blast
  show ?thesis
  proof (cases "fsAction form")
    case Expire
    have "r = (baseRule form)\<lparr>lrExpirationDays := Some d\<rparr>" "lcExpiration caps"
      using assms(1) d unfolding formToRule_def Expire by (simp_all add: Let_def split: if_splits)
    then show ?thesis using d base tier by (simp add: typedRule_def actionOffered_def)
  next
    case Transition
    have "r = (baseRule form)\<lparr>lrTransitionDays := Some d, lrTransitionTier := Some (fsTier form)\<rparr>" "lcTransition caps" "fsTier form \<noteq> []"
      using assms(1) d unfolding formToRule_def Transition by (simp_all add: Let_def split: if_splits)
    then show ?thesis using d base tier by (simp add: typedRule_def actionOffered_def)
  next
    case AbortMpu
    have "r = (baseRule form)\<lparr>lrAbortMultipartDays := Some d\<rparr>" "lcAbortMultipartDays caps"
      using assms(1) d unfolding formToRule_def AbortMpu by (simp_all add: Let_def split: if_splits)
    then show ?thesis using d base tier by (simp add: typedRule_def actionOffered_def)
  next
    case Noncurrent
    have "r = (baseRule form)\<lparr>lrNoncurrentDays := Some d\<rparr>" "lcNoncurrentDays caps"
      using assms(1) d unfolding formToRule_def Noncurrent by (simp_all add: Let_def split: if_splits)
    then show ?thesis using d base tier by (simp add: typedRule_def actionOffered_def)
  qed
qed

text \<open>
  C32. Whatever is typed and chosen in the form, a save sends the policy the editor was opened with, every rule with
  another id unchanged and in its place, followed by one rule of the form's id, which is not empty. That
  rule has exactly one action, one the driver supports, with at least one day, and a tier
  exactly if it is a transition. If the loaded rules fit the capabilities the server declared (a non-empty id, at least one day count,
  counts of at least one, only actions and tiers on offer), so does every rule of the policy that is sent. Ids that
  were distinct stay distinct.
\<close>

theorem lifecycle_save_typed:
  assumes "form = formAfter caps rules ruleId es"
    and "submitForm isPending caps rules ruleId form = PutPolicy sent"
  shows "(\<exists>r. sent = filter (\<lambda>s. lrId s \<noteq> trim (fsId form)) rules @ [r] \<and> wireRule caps r \<and>
      lrId r = trim (fsId form) \<and> lrId r \<noteq> []) \<and>
    (list_all (typedRule caps) rules \<longrightarrow> list_all (typedRule caps) sent) \<and>
    (distinct (map lrId rules) \<longrightarrow> distinct (map lrId sent))"
proof -
  have save: "saveRule caps rules ruleId form = PutPolicy sent" and id: "trim (fsId form) \<noteq> []"
    using assms(2) by (auto simp: submitForm_def submitEnabled_def split: if_splits)
  then obtain r where r: "formToRule form caps = Some r"
    by (auto simp: saveRule_def split: option.splits)
  from formToRule_wire [OF r] have w: "wireRule caps r" "lrId r = trim (fsId form)" by auto
  have sent: "sent = filter (\<lambda>s. lrId s \<noteq> trim (fsId form)) rules @ [r]"
    using save r w by (auto simp: saveRule_def Let_def split: if_splits)
  moreover have "distinct (map lrId rules) \<longrightarrow> distinct (map lrId sent)"
    unfolding sent using w by (auto simp: distinct_map_filter)
  moreover have "list_all (typedRule caps) sent" if "list_all (typedRule caps) rules"
    using that formToRule_typed [OF r _ id] formAfter_typed [OF that] assms(1)
    unfolding sent by (auto simp: list_all_iff)
  ultimately show ?thesis using w id by auto
qed

definition allCaps :: LifecycleCapabilities where
  "allCaps = \<lparr>lcSupported = True, lcExpiration = True, lcTransition = True,
     lcTransitionTiers = [''GLACIER''], lcNoncurrentDays = True, lcAbortMultipartDays = True\<rparr>"

definition sampleRule :: "string \<Rightarrow> LifecycleRule" where
  "sampleRule i = \<lparr>lrId = i, lrStatus = ''Enabled'', lrPrefix = Some ''logs/'', lrExpirationDays = None,
     lrTransitionDays = Some 30, lrTransitionTier = Some ''GLACIER'', lrNoncurrentDays = None,
     lrAbortMultipartDays = None\<rparr>"

theorem lifecycle_save_typed_witness:
  "\<exists>r. submitForm False allCaps [sampleRule ''a''] None (formAfter allCaps [sampleRule ''a''] None [ChangeRuleId ''b'']) =
      PutPolicy [sampleRule ''a'', r] \<and> wireRule allCaps r \<and> typedRule allCaps r"
proof -
  have t: "trim ''b'' = ''b''" "parseInt ''30'' = Some 30" by code_simp+
  let ?f = "formAfter allCaps [sampleRule ''a''] None [ChangeRuleId ''b'']"
  have f: "?f = (newForm allCaps)\<lparr>fsId := ''b''\<rparr>"
    by (simp add: formAfter_def seedForm_def isEdit_def)
  obtain sent where s: "submitForm False allCaps [sampleRule ''a''] None ?f = PutPolicy sent"
    using t unfolding f
    by (simp add: submitForm_def submitEnabled_def saveRule_def formToRule_def newForm_def allCaps_def isEdit_def Let_def)
  have typed: "list_all (typedRule allCaps) [sampleRule ''a'']"
    by (simp add: typedRule_def sampleRule_def allCaps_def actionOffered_def)
  have id: "trim (fsId ?f) = ''b''" using t by (simp add: f newForm_def)
  have keep: "filter (\<lambda>s. lrId s \<noteq> ''b'') [sampleRule ''a''] = [sampleRule ''a'']" by (simp add: sampleRule_def)
  from lifecycle_save_typed [OF refl s] typed obtain r where
    "sent = [sampleRule ''a''] @ [r]" "wireRule allCaps r" "list_all (typedRule allCaps) sent"
    unfolding id keep by blast
  then show ?thesis using s by auto
qed

text \<open>
  C24. Opening a rule and saving it untouched changes nothing but its position, for a rule in the
  editor's shape (one action, supported by the driver, with at least one day), whose id and prefix carry no surrounding white space, in a policy
  without repeated ids: the policy sent is the stored one with that very rule moved to the end. A rule
  with several actions is flattened to one, and blanks around a prefix are lost.
\<close>

theorem lifecycle_edit_roundtrip:
  assumes "r \<in> set rules" and "distinct (map lrId rules)" and "wireRule caps r"
    and "trim (lrId r) = lrId r" and "lrId r \<noteq> []"
    and "\<And>p. lrPrefix r = Some p \<Longrightarrow> trim p = p \<and> p \<noteq> []"
  shows "saveRule caps rules (Some (lrId r)) (seedForm caps rules (Some (lrId r))) =
    PutPolicy (filter (\<lambda>s. s \<noteq> r) rules @ [r])"
proof -
  have "\<exists>s. List.find (\<lambda>s. lrId s = lrId r) rules = Some s"
    using assms(1) by (metis (mono_tags, lifting) find_None_iff not_None_eq)
  then obtain s where f: "List.find (\<lambda>s. lrId s = lrId r) rules = Some s" by blast
  then have "s \<in> set rules" "lrId s = lrId r" by (auto simp: find_Some_iff)
  then have "s = r" using assms(1,2) by (metis distinct_map inj_onD)
  then have seed: "seedForm caps rules (Some (lrId r)) = formOf caps r"
    using f assms(5) by (simp add: seedForm_def isEdit_def)
  have empty: "trim [] = []" by code_simp
  have prefix: "(if trim (case lrPrefix r of None \<Rightarrow> [] | Some p \<Rightarrow> p) = [] then None
      else Some (trim (case lrPrefix r of None \<Rightarrow> [] | Some p \<Rightarrow> p))) = lrPrefix r"
    using assms(6) empty by (cases "lrPrefix r") auto
  obtain a d where a: "inferAction r = a" "daysForAction r a = Some d" "1 \<le> d"
    using assms(3) by (auto simp: wireRule_def Let_def split: option.splits)
  have days: "parseInt (decInt d) = Some d" using a(3) by (intro parseInt_decInt) simp
  have "formToRule (formOf caps r) caps = Some r"
    using a days assms(3,4) prefix
    by (cases a; cases r) (simp_all add: formToRule_def formOf_def baseRule_def Let_def actionOffered_def
        wireRule_def present_iff split: if_splits option.splits)
  moreover have "filter (\<lambda>s. lrId s \<noteq> lrId r) rules = filter (\<lambda>s. s \<noteq> r) rules"
    using assms(1,2) by (intro filter_cong) (auto simp: distinct_map inj_on_def)
  ultimately show ?thesis
    unfolding seed saveRule_def using assms(1) by (auto simp: list_ex_iff)
qed

theorem lifecycle_edit_roundtrip_witness:
  "saveRule allCaps [sampleRule ''a'', sampleRule ''b''] (Some ''a'')
     (seedForm allCaps [sampleRule ''a'', sampleRule ''b''] (Some ''a'')) =
   PutPolicy [sampleRule ''b'', sampleRule ''a'']"
proof -
  let ?r = "sampleRule ''a''" and ?rules = "[sampleRule ''a'', sampleRule ''b'']"
  have id: "lrId ?r = ''a''" by (simp add: sampleRule_def)
  have trims: "trim (lrId ?r) = lrId ?r" "trim ''logs/'' = ''logs/''" by code_simp+
  have wire: "wireRule allCaps ?r"
    by code_simp
  have "saveRule allCaps ?rules (Some (lrId ?r)) (seedForm allCaps ?rules (Some (lrId ?r))) =
      PutPolicy (filter (\<lambda>s. s \<noteq> ?r) ?rules @ [?r])"
  proof (rule lifecycle_edit_roundtrip [OF _ _ wire trims(1)])
    show "trim p = p \<and> p \<noteq> []" if "lrPrefix ?r = Some p" for p
      using that trims(2) by (auto simp: sampleRule_def)
  qed (simp_all add: sampleRule_def)
  moreover have "sampleRule ''b'' \<noteq> ?r" by (simp add: sampleRule_def)
  ultimately show ?thesis unfolding id by simp
qed

section \<open>Where the editor surprises\<close>

text \<open>A failed load without cached data shows the skeleton for ever: the error test comes second.\<close>

theorem load_error_never_shown:
  "editorView isLoading error None = EditorSkeleton"
  by (simp add: editorView_def)

text \<open>A new rule whose id is taken replaces the stored rule without a word.\<close>

theorem new_rule_overwrites_same_id:
  assumes "formToRule form caps = Some r" and "lrId old = trim (fsId form)"
  shows "saveRule caps [old] None form = PutPolicy [r]"
  using assms formToRule_wire [OF assms(1)] by (simp add: saveRule_def isEdit_def)

text \<open>
  A stored prefix with surrounding white space is trimmed when the rule is saved, which widens the set
  of objects the rule deletes: one that is a single blank comes back as no prefix at all.
\<close>

theorem blank_prefix_is_dropped:
  "formToRule (formOf allCaps ((sampleRule ''a'')\<lparr>lrPrefix := Some '' ''\<rparr>)) allCaps =
     Some ((sampleRule ''a'')\<lparr>lrPrefix := None\<rparr>)"
proof -
  have "trim '' '' = []" "trim ''a'' = ''a''" "parseInt (decInt 30) = Some 30" by code_simp+
  then show ?thesis
    by (simp add: formToRule_def formOf_def baseRule_def sampleRule_def allCaps_def inferAction_def Let_def)
qed

text \<open>The number input accepts \<open>1e3\<close> as one thousand; the form reads one day.\<close>

theorem exponent_days_misread: "parseInt ''1e3'' = Some 1"
  by code_simp

end
