(* ===== verification/Add_Key.thy ===== *)
theory Add_Key
  imports Region_Hooks Bulk_Keys Js_Numbers
begin

text \<open>
  The page that adds storage keys (\<open>routes/files/keys/new.tsx\<close>): the endpoint split into scheme, host
  and port, the form with its suggestions and its submit, and the bulk import panel over the parser
  of \<open>Bulk_Keys\<close>. The URL constructor of the browser is the parameter \<open>url\<close>: protocol, host name
  and port of a valid URL, \<open>None\<close> when it throws.
\<close>

section \<open>Endpoints\<close>

record url_parts =
  upProtocol :: string
  upHostname :: string
  upPort :: string

definition detectDriverFromEndpoint :: "string \<Rightarrow> string option" where
  "detectDriverFromEndpoint endpoint =
     (if endpoint = [] then None
      else (let lower = toLowerCase endpoint in
        if sublist ''amazonaws.com'' lower then Some ''aws-s3''
        else if sublist ''garage'' lower then Some ''garage-v1''
        else if sublist ''minio'' lower then Some ''minio''
        else None))"

text \<open>\<open>/^(\d{1,3}\.){3}\d{1,3}$/.test(host)\<close>.\<close>

definition dottedQuad :: "string \<Rightarrow> bool" where
  "dottedQuad host \<longleftrightarrow>
     length (splitOn CHR ''.'' host) = 4 \<and>
     list_all (\<lambda>w. 1 \<le> length w \<and> length w \<le> 3 \<and> list_all digitChar w) (splitOn CHR ''.'' host)"

definition endpointHostIsIP :: "(string \<Rightarrow> url_parts option) \<Rightarrow> string \<Rightarrow> bool" where
  "endpointHostIsIP url endpoint =
     (if endpoint = [] then False
      else (case url endpoint of
          None \<Rightarrow> False
        | Some u \<Rightarrow>
            if upHostname u = [] then False
            else if CHR '':'' \<in> set (upHostname u) then True
            else dottedQuad (upHostname u)))"

datatype scheme = Http | Https

fun schemeName :: "scheme \<Rightarrow> string" where
  "schemeName Http = ''http''"
| "schemeName Https = ''https''"

record endpoint_parts =
  epScheme :: scheme
  epHost :: string
  epPort :: string

definition noParts :: endpoint_parts where
  "noParts = \<lparr>epScheme = Https, epHost = [], epPort = []\<rparr>"

text \<open>Without a valid URL: a bare host, split at the last colon when digits follow it.\<close>

definition bareHost :: "string \<Rightarrow> endpoint_parts" where
  "bareHost tr =
     (let after = rev (takeWhile (\<lambda>c. c \<noteq> CHR '':'') (rev tr));
          before = take (length tr - length after - 1) tr
      in if CHR '':'' \<in> set tr \<and> before \<noteq> [] \<and> after \<noteq> [] \<and> list_all digitChar after
         then \<lparr>epScheme = Https, epHost = before, epPort = after\<rparr>
         else \<lparr>epScheme = Https, epHost = tr, epPort = []\<rparr>)"

definition parseEndpointParts :: "(string \<Rightarrow> url_parts option) \<Rightarrow> string \<Rightarrow> endpoint_parts" where
  "parseEndpointParts url raw =
     (let tr = trim raw in
      if tr = [] then noParts
      else (case url tr of
          Some u \<Rightarrow> \<lparr>epScheme = (if upProtocol u = ''http:'' then Http else Https),
            epHost = upHostname u, epPort = upPort u\<rparr>
        | None \<Rightarrow> bareHost tr))"

definition isDefaultPort :: "scheme \<Rightarrow> string \<Rightarrow> bool" where
  "isDefaultPort s port \<longleftrightarrow> s = Https \<and> port = ''443'' \<or> s = Http \<and> port = ''80''"

definition composeEndpointFromParts :: "endpoint_parts \<Rightarrow> string" where
  "composeEndpointFromParts p =
     (let host = trim (epHost p) in
      if host = [] then []
      else (let port = trim (epPort p);
                portSuffix = (if port \<noteq> [] \<and> \<not> isDefaultPort (epScheme p) port
                              then '':'' @ port else [])
            in schemeName (epScheme p) @ ''://'' @ host @ portSuffix))"

section \<open>The form\<close>

record DriverDefaults =
  ddDriver :: string
  ddDisplayName :: string
  ddS3Endpoint :: string
  ddRegionLabel :: string

record field_errors =
  feAlias :: bool
  feEndpoint :: bool
  feAccessKeyId :: bool
  feSecretKey :: bool

record key_form =
  kyAlias :: string
  kyEndpoint :: string
  kyParts :: endpoint_parts
  kyAccessKeyId :: string
  kySecretKey :: string
  kyRegion :: string
  kyRegionTouched :: bool
  kyVirtualHost :: bool
  kyErrors :: field_errors
  kyErrorMessage :: "string option"

definition noErrors :: field_errors where
  "noErrors = \<lparr>feAlias = False, feEndpoint = False, feAccessKeyId = False, feSecretKey = False\<rparr>"

definition freshForm :: key_form where
  "freshForm = \<lparr>kyAlias = [], kyEndpoint = [], kyParts = noParts, kyAccessKeyId = [], kySecretKey = [],
     kyRegion = ''us-east-1'', kyRegionTouched = False, kyVirtualHost = False, kyErrors = noErrors,
     kyErrorMessage = None\<rparr>"

definition handleEndpointChange :: "DriverDefaults list option \<Rightarrow> string \<Rightarrow> key_form \<Rightarrow> key_form" where
  "handleEndpointChange driverDefaults nxt f =
     (let f1 = f\<lparr>kyEndpoint := nxt\<rparr> in
      if kyRegionTouched f then f1
      else (case detectDriverFromEndpoint nxt of
          None \<Rightarrow> f1
        | Some detected \<Rightarrow>
            (case List.find (\<lambda>d. ddDriver d = detected)
                    (case driverDefaults of None \<Rightarrow> [] | Some ds \<Rightarrow> ds) of
               None \<Rightarrow> f1
             | Some m \<Rightarrow> if ddRegionLabel m \<noteq> [] then f1\<lparr>kyRegion := ddRegionLabel m\<rparr> else f1)))"

datatype part = SchemePart scheme | HostPart string | PortPart string

fun withPart :: "part \<Rightarrow> endpoint_parts \<Rightarrow> endpoint_parts" where
  "withPart (SchemePart s) p = p\<lparr>epScheme := s\<rparr>"
| "withPart (HostPart h) p = p\<lparr>epHost := h\<rparr>"
| "withPart (PortPart d) p = p\<lparr>epPort := filter digitChar d\<rparr>"

text \<open>The port input drops everything but digits before it calls the setter.\<close>

definition setEndpointPart :: "DriverDefaults list option \<Rightarrow> part \<Rightarrow> key_form \<Rightarrow> key_form" where
  "setEndpointPart driverDefaults p f =
     (let parts = withPart p (kyParts f);
          composed = composeEndpointFromParts parts;
          f1 = handleEndpointChange driverDefaults composed (f\<lparr>kyParts := parts\<rparr>)
      in if feEndpoint (kyErrors f) \<and> trim composed \<noteq> []
         then f1\<lparr>kyErrors := (kyErrors f1)\<lparr>feEndpoint := False\<rparr>\<rparr> else f1)"

definition applyExample :: "(string \<Rightarrow> url_parts option) \<Rightarrow> DriverDefaults \<Rightarrow> key_form \<Rightarrow> key_form" where
  "applyExample url d f =
     (let f1 = (if ddS3Endpoint d \<noteq> []
                then f\<lparr>kyParts := parseEndpointParts url (ddS3Endpoint d), kyEndpoint := ddS3Endpoint d\<rparr>
                else f);
          f2 = (if ddRegionLabel d \<noteq> []
                then f1\<lparr>kyRegion := ddRegionLabel d, kyRegionTouched := True\<rparr> else f1)
      in if ddDriver d = ''aws-s3'' then f2\<lparr>kyVirtualHost := True\<rparr> else f2)"

definition typeAlias :: "string \<Rightarrow> key_form \<Rightarrow> key_form" where
  "typeAlias v f = f\<lparr>kyAlias := v, kyErrors := (kyErrors f)\<lparr>feAlias :=
     feAlias (kyErrors f) \<and> trim v = []\<rparr>\<rparr>"

definition typeAccessKeyId :: "string \<Rightarrow> key_form \<Rightarrow> key_form" where
  "typeAccessKeyId v f = f\<lparr>kyAccessKeyId := v, kyErrors := (kyErrors f)\<lparr>feAccessKeyId :=
     feAccessKeyId (kyErrors f) \<and> trim v = []\<rparr>\<rparr>"

definition typeSecretKey :: "string \<Rightarrow> key_form \<Rightarrow> key_form" where
  "typeSecretKey v f = f\<lparr>kySecretKey := v, kyErrors := (kyErrors f)\<lparr>feSecretKey :=
     feSecretKey (kyErrors f) \<and> v = []\<rparr>\<rparr>"

definition typeRegion :: "string \<Rightarrow> key_form \<Rightarrow> key_form" where
  "typeRegion v f = f\<lparr>kyRegion := v, kyRegionTouched := True\<rparr>"

definition effectiveVirtualHost :: "(string \<Rightarrow> url_parts option) \<Rightarrow> key_form \<Rightarrow> bool" where
  "effectiveVirtualHost url f \<longleftrightarrow> kyVirtualHost f \<and> \<not> endpointHostIsIP url (kyEndpoint f)"

definition missingFields :: "key_form \<Rightarrow> field_errors" where
  "missingFields f = \<lparr>feAlias = trim (kyAlias f) = [], feEndpoint = trim (kyEndpoint f) = [],
     feAccessKeyId = trim (kyAccessKeyId f) = [], feSecretKey = kySecretKey f = []\<rparr>"

definition keyRequest :: "(string \<Rightarrow> url_parts option) \<Rightarrow> key_form \<Rightarrow> CreateUserKeyRequest" where
  "keyRequest url f = \<lparr>ckAlias = trim (kyAlias f), ckEndpoint = trim (kyEndpoint f),
     ckAccessKeyId = trim (kyAccessKeyId f), ckSecretKey = kySecretKey f,
     ckRegion = Some (if trim (kyRegion f) = [] then ''us-east-1'' else trim (kyRegion f)),
     ckAddressingStyle = Some (if effectiveVirtualHost url f then ''virtual_host'' else ''path'')\<rparr>"

text \<open>One submit: the form after it and where the browser goes, if anywhere.\<close>

definition submitKey ::
  "(string \<Rightarrow> url_parts option) \<Rightarrow> key_form \<Rightarrow> (key_form \<times> string option) js" where
  "submitKey url f =
     (let f1 = f\<lparr>kyErrorMessage := None, kyErrors := missingFields f\<rparr> in
      if missingFields f \<noteq> noErrors
      then Ret (f1\<lparr>kyErrorMessage := Some ''Please fill in the required fields.''\<rparr>, None)
      else catchJs (bindJs (mutationFn useCreateUserKey (keyRequest url f))
             (\<lambda>_. Ret (f1, Some ''/files'')))
           (\<lambda>e. Ret (f1\<lparr>kyErrorMessage := Some (messageOf e)\<rparr>, None)))"

section \<open>What the operator does to the form\<close>

datatype key_event =
    EditAlias string
  | EditPart part
  | EditAccessKeyId string
  | EditSecretKey string
  | EditRegion string
  | ToggleVirtualHost bool
  | UseExample DriverDefaults

fun keyStep ::
  "(string \<Rightarrow> url_parts option) \<Rightarrow> DriverDefaults list option \<Rightarrow> key_event \<Rightarrow> key_form \<Rightarrow> key_form" where
  "keyStep url ds (EditAlias v) f = typeAlias v f"
| "keyStep url ds (EditPart p) f = setEndpointPart ds p f"
| "keyStep url ds (EditAccessKeyId v) f = typeAccessKeyId v f"
| "keyStep url ds (EditSecretKey v) f = typeSecretKey v f"
| "keyStep url ds (EditRegion v) f = typeRegion v f"
| "keyStep url ds (ToggleVirtualHost b) f =
     (if endpointHostIsIP url (kyEndpoint f) then f else f\<lparr>kyVirtualHost := b\<rparr>)"
| "keyStep url ds (UseExample d) f = applyExample url d f"

definition keyRun ::
  "(string \<Rightarrow> url_parts option) \<Rightarrow> DriverDefaults list option \<Rightarrow> key_event list \<Rightarrow> key_form" where
  "keyRun url ds es = foldl (\<lambda>f e. keyStep url ds e f) freshForm es"

section \<open>The bulk panel\<close>

record bulk_error =
  beIndex :: nat
  beError :: string
  beMessage :: string

record bulk_panel =
  bpRaw :: string
  bpResult :: "bulk_error list option"
  bpSubmitError :: "string option"
  bpSubmitting :: bool

definition freshPanel :: bulk_panel where
  "freshPanel = \<lparr>bpRaw = [], bpResult = None, bpSubmitError = None, bpSubmitting = False\<rparr>"

text \<open>The parsed rows of the text, by the parser of \<open>Bulk_Keys\<close> with its own URL parameter.\<close>

definition panelRows :: "(string \<Rightarrow> (string \<times> string) option) \<Rightarrow> bulk_panel \<Rightarrow> ParsedKeyRow list" where
  "panelRows parseUrl p = snd (parseBulkKeys parseUrl (bpRaw p) None)"

definition validRowCount :: "ParsedKeyRow list \<Rightarrow> nat" where
  "validRowCount rows = length (filter (\<lambda>r. pkErrors r = []) rows)"

definition canSubmitBulk :: "(string \<Rightarrow> (string \<times> string) option) \<Rightarrow> bulk_panel \<Rightarrow> bool" where
  "canSubmitBulk parseUrl p \<longleftrightarrow>
     \<not> bpSubmitting p \<and> 0 < length (panelRows parseUrl p) \<and>
     \<not> list_ex (\<lambda>r. pkErrors r \<noteq> []) (panelRows parseUrl p) \<and> bpResult p = None"

definition bulkRow :: "ParsedKeyRow \<Rightarrow> CreateUserKeyRequest" where
  "bulkRow r = \<lparr>ckAlias = kfAlias r, ckEndpoint = kfEndpoint r, ckAccessKeyId = kfAccessKeyId r,
     ckSecretKey = kfSecretKey r, ckRegion = Some (kfRegion r),
     ckAddressingStyle = (case kfStyle r of None \<Rightarrow> None | Some PathStyle \<Rightarrow> Some ''path''
        | Some VirtualHost \<Rightarrow> Some ''virtual_host'')\<rparr>"

datatype row_status = RowError string | RowCreated | RowReady

definition rowStatus :: "bulk_error list option \<Rightarrow> nat \<Rightarrow> ParsedKeyRow \<Rightarrow> row_status" where
  "rowStatus result i r =
     (case (case result of None \<Rightarrow> None | Some es \<Rightarrow> List.find (\<lambda>e. beIndex e = i) es) of
        Some e \<Rightarrow> RowError (beError e @ '': '' @ beMessage e)
      | None \<Rightarrow>
          if pkErrors r \<noteq> [] then RowError (joinWith ''; '' (pkErrors r))
          else if result \<noteq> None then RowCreated
          else RowReady)"

text \<open>
  The panel in time: typing, a press of the import button (with the request it sends), and the answer
  of the server or the message of a failure. Typing is possible while a request runs.
\<close>

datatype bulk_event = BulkType string | BulkPress | BulkAnswer "bulk_error list" | BulkFail string

fun bulkStep ::
  "(string \<Rightarrow> (string \<times> string) option) \<Rightarrow> bulk_event \<Rightarrow> bulk_panel
     \<Rightarrow> bulk_panel \<times> CreateUserKeyRequest list list" where
  "bulkStep parseUrl (BulkType s) p = (p\<lparr>bpRaw := s\<rparr>, [])"
| "bulkStep parseUrl BulkPress p =
     (if canSubmitBulk parseUrl p
      then (p\<lparr>bpSubmitError := None, bpSubmitting := True\<rparr>, [map bulkRow (panelRows parseUrl p)])
      else (p, []))"
| "bulkStep parseUrl (BulkAnswer es) p =
     (if bpSubmitting p then (p\<lparr>bpResult := Some es, bpSubmitting := False\<rparr>, []) else (p, []))"
| "bulkStep parseUrl (BulkFail m) p =
     (if bpSubmitting p then (p\<lparr>bpSubmitError := Some m, bpSubmitting := False\<rparr>, []) else (p, []))"

fun bulkRun ::
  "(string \<Rightarrow> (string \<times> string) option) \<Rightarrow> bulk_event list \<Rightarrow> bulk_panel
     \<Rightarrow> bulk_panel \<times> CreateUserKeyRequest list list" where
  "bulkRun parseUrl [] p = (p, [])"
| "bulkRun parseUrl (e # es) p =
     (case bulkStep parseUrl e p of (p1, s1) \<Rightarrow>
        (case bulkRun parseUrl es p1 of (p2, s2) \<Rightarrow> (p2, s1 @ s2)))"

section \<open>The form stays consistent\<close>

text \<open>The region the operator chose last, by typing it or by taking an example that has one.\<close>

fun chosenRegion :: "string option \<Rightarrow> key_event \<Rightarrow> string option" where
  "chosenRegion r (EditRegion v) = Some v"
| "chosenRegion r (UseExample d) = (if ddRegionLabel d \<noteq> [] then Some (ddRegionLabel d) else r)"
| "chosenRegion r _ = r"

definition lastRegion :: "key_event list \<Rightarrow> string option" where
  "lastRegion = foldl chosenRegion None"

text \<open>The parts on screen and the endpoint that would be sent belong together.\<close>

definition inSync :: "(string \<Rightarrow> url_parts option) \<Rightarrow> key_form \<Rightarrow> bool" where
  "inSync url f \<longleftrightarrow> kyEndpoint f = composeEndpointFromParts (kyParts f) \<or>
     kyParts f = parseEndpointParts url (kyEndpoint f)"

definition regionKept :: "string option \<Rightarrow> key_form \<Rightarrow> bool" where
  "regionKept r f \<longleftrightarrow> (case r of None \<Rightarrow> \<not> kyRegionTouched f
     | Some v \<Rightarrow> kyRegionTouched f \<and> kyRegion f = v)"

lemma endpointChange_parts:
  "kyParts (handleEndpointChange ds nxt f) = kyParts f"
  "kyEndpoint (handleEndpointChange ds nxt f) = nxt"
  "kyRegionTouched (handleEndpointChange ds nxt f) = kyRegionTouched f"
  "kyRegionTouched f \<Longrightarrow> kyRegion (handleEndpointChange ds nxt f) = kyRegion f"
  by (simp_all add: handleEndpointChange_def Let_def split: option.splits)

lemma keyStep_sync: "inSync url f \<Longrightarrow> inSync url (keyStep url ds e f)"
  by (cases e) (auto simp: inSync_def typeAlias_def typeAccessKeyId_def typeSecretKey_def typeRegion_def
      setEndpointPart_def applyExample_def Let_def endpointChange_parts)

lemma keyStep_region: "regionKept r f \<Longrightarrow> regionKept (chosenRegion r e) (keyStep url ds e f)"
  by (cases e) (auto simp: regionKept_def typeAlias_def typeAccessKeyId_def typeSecretKey_def typeRegion_def
      setEndpointPart_def applyExample_def Let_def endpointChange_parts split: option.splits)

text \<open>
  Whatever the operator does to the form, in whatever order: the scheme, host and port on screen
  belong to the endpoint that a submit would send, and once a region has been chosen, by typing or
  from an example, no later edit of the endpoint replaces it; the form offers a region of its own
  only before that.
\<close>

theorem key_form_keeps_choices:
  "inSync url (keyRun url ds es) \<and>
   (case lastRegion es of
      None \<Rightarrow> \<not> kyRegionTouched (keyRun url ds es)
    | Some v \<Rightarrow> kyRegion (keyRun url ds es) = v)"
proof -
  have "inSync url (keyRun url ds es) \<and> regionKept (lastRegion es) (keyRun url ds es)"
  proof (induction es rule: rev_induct)
    case Nil
    have "composeEndpointFromParts noParts = []" by code_simp
    then show ?case by (simp add: keyRun_def freshForm_def inSync_def lastRegion_def regionKept_def)
  next
    case (snoc e es)
    then show ?case using keyStep_sync keyStep_region by (simp add: keyRun_def lastRegion_def)
  qed
  then show ?thesis by (auto simp: regionKept_def split: option.splits)
qed

section \<open>What a submit sends\<close>

definition createKeyReq :: "CreateUserKeyRequest \<Rightarrow> fetch_req" where
  "createKeyReq r = jsonReq ''POST'' ''/user/regions'' (keyJson r)"

lemma missing_none:
  "missingFields f = noErrors \<longleftrightarrow> trim (kyAlias f) \<noteq> [] \<and> trim (kyEndpoint f) \<noteq> [] \<and>
     trim (kyAccessKeyId f) \<noteq> [] \<and> kySecretKey f \<noteq> []"
  by (simp add: missingFields_def noErrors_def)

text \<open>
  A submit of the key form never throws. With a required field blank it sends nothing, stays and marks
  exactly the blank fields. Otherwise it sends one request, in which alias, endpoint and key id are
  non-empty and trimmed, the region is never empty, and virtual-host addressing is never combined
  with an endpoint whose host is an IP address; the page is left exactly when the server accepted.
\<close>

theorem add_key_sends_complete_key:
  assumes "run (submitKey url f) b [] = (h, result)"
  shows "\<exists>f' goes. result = Inr (f', goes) \<and> kyErrors f' = missingFields f \<and>
    (if missingFields f \<noteq> noErrors then h = [] \<and> goes = None
     else h = [RFetch (createKeyReq (keyRequest url f))] \<and>
       (goes \<noteq> None \<longleftrightarrow> (\<exists>res. onFetch b [] (createKeyReq (keyRequest url f)) = Some res \<and>
          httpOk (rsStatus res))) \<and>
       trim (kyAlias f) \<noteq> [] \<and> ckAlias (keyRequest url f) = trim (kyAlias f) \<and>
       trim (kyEndpoint f) \<noteq> [] \<and> ckEndpoint (keyRequest url f) = trim (kyEndpoint f) \<and>
       trim (kyAccessKeyId f) \<noteq> [] \<and> ckAccessKeyId (keyRequest url f) = trim (kyAccessKeyId f) \<and>
       ckRegion (keyRequest url f) \<noteq> Some [] \<and>
       (ckAddressingStyle (keyRequest url f) = Some ''virtual_host'' \<longrightarrow>
          \<not> endpointHostIsIP url (kyEndpoint f)))"
proof (cases "missingFields f = noErrors")
  case False
  then show ?thesis using assms by (auto simp: submitKey_def Let_def)
next
  case True
  have req: "ckAlias (keyRequest url f) = trim (kyAlias f)"
    "ckEndpoint (keyRequest url f) = trim (kyEndpoint f)"
    "ckAccessKeyId (keyRequest url f) = trim (kyAccessKeyId f)"
    "ckRegion (keyRequest url f) \<noteq> Some []"
    "ckAddressingStyle (keyRequest url f) = Some ''virtual_host'' \<longrightarrow> \<not> endpointHostIsIP url (kyEndpoint f)"
    by (simp_all add: keyRequest_def effectiveVirtualHost_def)
  have "run (mutationFn useCreateUserKey (keyRequest url f)) b [] =
      ([RFetch (createKeyReq (keyRequest url f))],
       case onFetch b [] (createKeyReq (keyRequest url f)) of
         None \<Rightarrow> Inl NetworkError
       | Some res \<Rightarrow> if httpOk (rsStatus res) then Inr (jsonOrNull res)
           else Inl (apiError ''user/regions/create'' (rsStatus res) (jsonOrNull res)))"
    by (simp add: useCreateUserKey_def run_fetchJson createKeyReq_def)
  then show ?thesis
    using True assms req missing_none [of f]
    by (auto simp: submitKey_def Let_def run_catchJs run_bindJs split: option.splits if_splits)
qed

definition noUrl :: "string \<Rightarrow> url_parts option" where
  "noUrl s = None"

definition filledForm :: key_form where
  "filledForm = freshForm\<lparr>kyAlias := ''home'', kyEndpoint := ''https://s3'', kyAccessKeyId := ''GK1'',
     kySecretKey := ''s''\<rparr>"

theorem add_key_sends_complete_key_witness:
  "\<exists>h f' goes. run (submitKey noUrl filledForm) \<lparr>onFetch = (\<lambda>_ _. Some \<lparr>rsStatus = 201, rsBody = None\<rparr>),
      onCall = (\<lambda>_ _. None), onPut = (\<lambda>_ _. None)\<rparr> [] = (h, Inr (f', goes)) \<and>
    h = [RFetch (createKeyReq (keyRequest noUrl filledForm))] \<and> goes \<noteq> None"
proof -
  let ?b = "\<lparr>onFetch = (\<lambda>_ _. Some \<lparr>rsStatus = 201, rsBody = None\<rparr>), onCall = (\<lambda>_ _. None),
    onPut = (\<lambda>_ _. None)\<rparr>"
  obtain h r where run: "run (submitKey noUrl filledForm) ?b [] = (h, r)" by fastforce
  have "missingFields filledForm = noErrors" by code_simp
  then show ?thesis using add_key_sends_complete_key [OF run] run by (auto simp: httpOk_def)
qed

section \<open>Bulk import\<close>

definition failures :: "bulk_event list \<Rightarrow> nat" where
  "failures es = length (filter (\<lambda>e. case e of BulkFail _ \<Rightarrow> True | _ \<Rightarrow> False) es)"

text \<open>A request is on its way or has been answered.\<close>

definition spent :: "bulk_panel \<Rightarrow> nat" where
  "spent p = (if bpSubmitting p \<or> bpResult p \<noteq> None then 1 else 0)"

definition validPayload ::
  "(string \<Rightarrow> (string \<times> string) option) \<Rightarrow> CreateUserKeyRequest list \<Rightarrow> bool" where
  "validPayload parseUrl payload \<longleftrightarrow> payload \<noteq> [] \<and>
     (\<exists>raw. payload = map bulkRow (snd (parseBulkKeys parseUrl raw None)) \<and>
        (\<forall>r \<in> set (snd (parseBulkKeys parseUrl raw None)). pkErrors r = []))"

lemma bulkStep_facts:
  assumes "bulkStep parseUrl e p = (p1, s1)"
  shows "spent p + length s1 \<le> failures [e] + spent p1" "\<forall>x \<in> set s1. validPayload parseUrl x"
  using assms
  by (cases e; auto simp: failures_def spent_def canSubmitBulk_def validPayload_def panelRows_def
      list_ex_iff split: if_splits)+

lemma bulkRun_facts:
  "bulkRun parseUrl es p = (p', sent) \<Longrightarrow>
   spent p + length sent \<le> failures es + spent p' \<and> (\<forall>x \<in> set sent. validPayload parseUrl x)"
proof (induction es arbitrary: p p' sent)
  case (Cons e es)
  obtain p1 s1 where s: "bulkStep parseUrl e p = (p1, s1)" by fastforce
  obtain p2 s2 where r: "bulkRun parseUrl es p1 = (p2, s2)" by fastforce
  have "failures (e # es) = failures [e] + failures es" by (simp add: failures_def)
  then show ?case
    using Cons.prems s r Cons.IH [OF r] bulkStep_facts [OF s] by fastforce
qed (simp add: failures_def)

text \<open>
  The import button sends only whole, valid pastes, and never twice: in any course of typing,
  presses and answers every request carries, in order, all rows of some text of which each parsed
  without an error, and there is at most one more request than failed ones.
\<close>

theorem bulk_import_once:
  assumes "bulkRun parseUrl es freshPanel = (p, sent)"
  shows "length sent \<le> Suc (failures es) \<and> (\<forall>payload \<in> set sent. validPayload parseUrl payload)"
  using bulkRun_facts [OF assms] by (auto simp: spent_def freshPanel_def split: if_splits)

definition anyUrl :: "string \<Rightarrow> (string \<times> string) option" where
  "anyUrl s = Some (''https:'', ''h'')"

theorem bulk_import_once_witness:
  "length (snd (bulkRun anyUrl [BulkType (''alias,endpoint,accessKeyId,secretKey'' @ [LF] @ ''a,https://h,K,S''),
     BulkPress, BulkFail ''down'', BulkPress, BulkAnswer [], BulkPress] freshPanel)) \<le> Suc 1"
proof -
  let ?es = "[BulkType (''alias,endpoint,accessKeyId,secretKey'' @ [LF] @ ''a,https://h,K,S''),
     BulkPress, BulkFail ''down'', BulkPress, BulkAnswer [], BulkPress]"
  obtain p sent where run: "bulkRun anyUrl ?es freshPanel = (p, sent)" by fastforce
  from bulk_import_once [OF run] show ?thesis unfolding run by (simp add: failures_def)
qed

section \<open>Where the page surprises\<close>

text \<open>
  The result of an import outlives the text it belongs to: rows typed afterwards, which were never
  sent and cannot be sent, are shown as created.
\<close>

theorem typed_rows_shown_created:
  assumes "bpResult p = Some []" and "pkErrors r = []"
  shows "rowStatus (bpResult (fst (bulkStep parseUrl (BulkType s) p))) i r = RowCreated \<and>
    \<not> canSubmitBulk parseUrl (fst (bulkStep parseUrl (BulkType s) p))"
  using assms by (simp add: rowStatus_def canSubmitBulk_def)

text \<open>
  The branch for a bare host with a port is not reached for a host name: a browser takes the name
  for the scheme of a URL, which has no host, and both host and port are lost.
\<close>

theorem bare_host_with_port_lost:
  assumes "url ''garage:3902'' = Some \<lparr>upProtocol = ''garage:'', upHostname = [], upPort = []\<rparr>"
  shows "parseEndpointParts url ''garage:3902'' = noParts \<and>
    bareHost ''garage:3902'' = \<lparr>epScheme = Https, epHost = ''garage'', epPort = ''3902''\<rparr>"
proof -
  have "trim ''garage:3902'' = ''garage:3902''"
    "bareHost ''garage:3902'' = \<lparr>epScheme = Https, epHost = ''garage'', epPort = ''3902''\<rparr>" by code_simp+
  then show ?thesis using assms by (simp add: parseEndpointParts_def noParts_def)
qed

end
