(* ===== verification/First_Run.thy ===== *)
theory First_Run
  imports Shell Cluster_Hooks
begin

text \<open>
  The first-run wizard (\<open>routes/admin/first-run.tsx\<close>): its steps, the cluster step with its connection
  test, the optional single-sign-on and invitation steps, and the dismissal.

  The cluster step is a state machine, because the operator can go on pressing and typing while a
  test runs: a test is first a create request (once per wizard) and then a test request, and each of
  its phases is an event of its own. The other handlers are programs that send one request.
\<close>

section \<open>Steps\<close>

definition STEPS :: "string list" where
  "STEPS = [''welcome'', ''cluster'', ''oidc'', ''user'', ''done'']"

definition goNext :: "nat \<Rightarrow> nat" where
  "goNext i = min (length STEPS - 1) (i + 1)"

definition goBack :: "nat \<Rightarrow> nat" where
  "goBack i = i - 1"

definition stepKey :: "nat \<Rightarrow> string" where
  "stepKey i = (if i < length STEPS then STEPS ! i else ''welcome'')"

section \<open>The cluster step\<close>

datatype driver = GarageV1 | Garage | AwsS3 | Minio

fun driverName :: "driver \<Rightarrow> string" where
  "driverName GarageV1 = ''garage-v1''"
| "driverName Garage = ''garage''"
| "driverName AwsS3 = ''aws-s3''"
| "driverName Minio = ''minio''"

record cluster_form =
  cfLabel :: string
  cfDriver :: driver
  cfAdminUrl :: string
  cfAdminToken :: string
  cfAccessKey :: string
  cfSecretKey :: string
  cfRegion :: string

definition regionOr :: "cluster_form \<Rightarrow> string" where
  "regionOr f = (if cfRegion f = [] then ''us-east-1'' else cfRegion f)"

definition driverConfig :: "cluster_form \<Rightarrow> (string \<times> json) list" where
  "driverConfig f =
     (case cfDriver f of
        AwsS3 \<Rightarrow>
          [(''region'', JStr (regionOr f)), (''access_key'', JStr (cfAccessKey f)),
           (''secret_key'', JStr (cfSecretKey f))] @
          (if cfAdminUrl f \<noteq> [] then [(''endpoint'', JStr (cfAdminUrl f))] else [])
      | Minio \<Rightarrow>
          [(''endpoint'', JStr (cfAdminUrl f)), (''access_key'', JStr (cfAccessKey f)),
           (''secret_key'', JStr (cfSecretKey f)), (''region'', JStr (regionOr f))]
      | _ \<Rightarrow> [(''admin_url'', JStr (cfAdminUrl f)), (''admin_token'', JStr (cfAdminToken f))])"

definition connectionSpec :: "cluster_form \<Rightarrow> json" where
  "connectionSpec f = JObj [(''label'', JStr (trim (cfLabel f))),
     (''driver'', JStr (driverName (cfDriver f))), (''config'', JObj (driverConfig f))]"

datatype test_state = Idle | TestRunning | TestOk string | TestFail string

datatype test_phase = Creating | Probing

record cluster_step =
  csStep :: nat
  csForm :: cluster_form
  csTest :: test_state
  csCreated :: "string option"
  csRuns :: "test_phase list"

datatype wizard_request = SendCreate json | SendTest string

definition emptyCluster :: cluster_form where
  "emptyCluster = \<lparr>cfLabel = [], cfDriver = GarageV1, cfAdminUrl = [], cfAdminToken = [],
     cfAccessKey = [], cfSecretKey = [], cfRegion = []\<rparr>"

definition freshWizard :: cluster_step where
  "freshWizard = \<lparr>csStep = 0, csForm = emptyCluster, csTest = Idle, csCreated = None, csRuns = []\<rparr>"

text \<open>The start of \<open>handleTestConnection\<close>, up to its first request.\<close>

definition startTest :: "cluster_step \<Rightarrow> cluster_step \<times> wizard_request list" where
  "startTest w =
     (if trim (cfLabel (csForm w)) = []
      then (w\<lparr>csTest := TestFail ''Label is required before testing.''\<rparr>, [])
      else (case csCreated w of
          Some cid \<Rightarrow> (w\<lparr>csTest := TestRunning, csRuns := csRuns w @ [Probing]\<rparr>, [SendTest cid])
        | None \<Rightarrow> (w\<lparr>csTest := TestRunning, csRuns := csRuns w @ [Creating]\<rparr>,
            [SendCreate (connectionSpec (csForm w))])))"

text \<open>The buttons: the test button is off while a test runs, the next button while the create runs.\<close>

definition testEnabled :: "cluster_step \<Rightarrow> bool" where
  "testEnabled w \<longleftrightarrow> \<not> (csTest w = TestRunning \<or> trim (cfLabel (csForm w)) = [])"

definition nextEnabled :: "cluster_step \<Rightarrow> bool" where
  "nextEnabled w \<longleftrightarrow> Creating \<notin> set (csRuns w)"

definition isOk :: "test_state \<Rightarrow> bool" where
  "isOk t = (case t of TestOk _ \<Rightarrow> True | _ \<Rightarrow> False)"

definition handleClusterNext :: "cluster_step \<Rightarrow> cluster_step \<times> wizard_request list" where
  "handleClusterNext w =
     (if isOk (csTest w) then (w\<lparr>csStep := goNext (csStep w)\<rparr>, []) else startTest w)"

text \<open>
  The answers. The create call succeeds with an id or without one, or fails with a message; then the test
  call answers with a result, with a bad status, or fails.
\<close>

datatype create_answer = CreatedId "string option" | CreateError string

datatype test_answer = TestResult bool "string option" | TestStatus nat | TestError string

definition orText :: "string option \<Rightarrow> string \<Rightarrow> string" where
  "orText m fallback = (if present m then the m else fallback)"

definition onCreated :: "create_answer \<Rightarrow> cluster_step \<Rightarrow> cluster_step \<times> wizard_request list" where
  "onCreated a w =
     (if Creating \<notin> set (csRuns w) then (w, [])
      else (let w1 = w\<lparr>csRuns := remove1 Creating (csRuns w)\<rparr> in
        case a of
          CreateError m \<Rightarrow> (w1\<lparr>csTest := TestFail (if m = [] then ''Test failed.'' else m)\<rparr>, [])
        | CreatedId i \<Rightarrow>
            if present i
            then (w1\<lparr>csCreated := i, csRuns := csRuns w1 @ [Probing]\<rparr>, [SendTest (the i)])
            else (w1\<lparr>csTest := TestFail ''Cluster create returned no id.''\<rparr>, [])))"

definition onTested :: "test_answer \<Rightarrow> cluster_step \<Rightarrow> cluster_step" where
  "onTested a w =
     (if Probing \<notin> set (csRuns w) then w
      else w\<lparr>csRuns := remove1 Probing (csRuns w),
        csTest := (case a of
            TestResult ok m \<Rightarrow> if ok then TestOk (orText m ''Connection healthy.'')
              else TestFail (orText m ''Connection unavailable.'')
          | TestStatus s \<Rightarrow> TestFail (''Test failed (HTTP '' @ dec s @ '')'')
          | TestError m \<Rightarrow> TestFail (if m = [] then ''Test failed.'' else m))\<rparr>)"

datatype wizard_event =
    EditCluster cluster_form
  | PressTest
  | PressNext
  | PressSkip
  | PressBack
  | CreateAnswered create_answer
  | TestAnswered test_answer

text \<open>\<open>PressNext\<close> is the next button of the cluster step, the only step this machine acts on.\<close>

fun wizardStep :: "wizard_event \<Rightarrow> cluster_step \<Rightarrow> cluster_step \<times> wizard_request list" where
  "wizardStep (EditCluster f) w = (w\<lparr>csForm := f\<rparr>, [])"
| "wizardStep PressTest w = (if testEnabled w then startTest w else (w, []))"
| "wizardStep PressNext w = (if nextEnabled w then handleClusterNext w else (w, []))"
| "wizardStep PressSkip w = (w\<lparr>csStep := goNext (csStep w)\<rparr>, [])"
| "wizardStep PressBack w = (w\<lparr>csStep := goBack (csStep w)\<rparr>, [])"
| "wizardStep (CreateAnswered a) w = onCreated a w"
| "wizardStep (TestAnswered a) w = (onTested a w, [])"

fun wizardRun :: "wizard_event list \<Rightarrow> cluster_step \<Rightarrow> cluster_step \<times> wizard_request list" where
  "wizardRun [] w = (w, [])"
| "wizardRun (e # es) w =
     (case wizardStep e w of (w1, s1) \<Rightarrow> (case wizardRun es w1 of (w2, s2) \<Rightarrow> (w2, s1 @ s2)))"

section \<open>The optional steps\<close>

datatype move = MoveNext | StayHere

record step_outcome =
  soMove :: move
  soToast :: "toast option"
  soInvite :: "string option"

definition outcome :: "move \<Rightarrow> toast option \<Rightarrow> step_outcome" where
  "outcome m t = \<lparr>soMove = m, soToast = t, soInvite = None\<rparr>"

definition oidcReq :: "string \<Rightarrow> string \<Rightarrow> string \<Rightarrow> call_req" where
  "oidcReq issuer clientId secret =
     callReq ''PATCH'' ''/admin/system'' [] (JObj [(''oidc'',
       JObj [(''issuer'', JStr (trim issuer)), (''clientId'', JStr (trim clientId)),
             (''clientSecret'', JStr secret)])])"

text \<open>A partly filled form counts as a skip.\<close>

definition handleOidcSave :: "string \<Rightarrow> string \<Rightarrow> string \<Rightarrow> step_outcome js" where
  "handleOidcSave issuer clientId secret =
     (if trim issuer = [] \<or> trim clientId = [] \<or> trim secret = [] then Ret (outcome MoveNext None)
      else catchJs (awaitCall (oidcReq issuer clientId secret) (\<lambda>res.
             if \<not> httpOk (crStatus res)
             then Ret (outcome StayHere (Some (ToastError (''Failed to save OIDC (HTTP '' @ dec (crStatus res) @ '')''))))
             else Ret (outcome MoveNext (Some (ToastSuccess ''OIDC configured'')))))
           (\<lambda>e. Ret (outcome StayHere (Some (ToastError
              (if messageOf e = [] then ''Failed to save OIDC'' else messageOf e))))))"

definition inviteReq :: "string \<Rightarrow> call_req" where
  "inviteReq username = callReq ''POST'' ''/admin/users'' []
     (JObj [(''username'', JStr (trim username)), (''inviteOnly'', JBool True)])"

definition handleInviteSubmit :: "string \<Rightarrow> string \<Rightarrow> step_outcome js" where
  "handleInviteSubmit origin username =
     (if trim username = [] then Ret (outcome MoveNext None)
      else catchJs (awaitCall (inviteReq username) (\<lambda>res.
             let token = getProp (getProp (crData res) ''invite'') ''token'' in
             if \<not> httpOk (crStatus res)
             then Ret (outcome StayHere (Some (ToastError (''Failed to create invite (HTTP '' @ dec (crStatus res) @ '')''))))
             else if truthy token
             then Ret \<lparr>soMove = StayHere, soToast = None,
                       soInvite = Some (origin @ ''/auth/oidc/redeem/'' @ toStr token)\<rparr>
             else Ret (outcome MoveNext (Some (ToastSuccess ''User invited'')))))
           (\<lambda>e. Ret (outcome StayHere (Some (ToastError
              (if messageOf e = [] then ''Failed to create invite'' else messageOf e))))))"

section \<open>Leaving the wizard\<close>

definition dismissReq :: fetch_req where
  "dismissReq = (bareReq ''POST'' [])\<lparr>rqUrl := Abs ''/api/v1/admin/onboarding/dismiss''\<rparr>"

text \<open>The answer is not looked at; the state query is invalidated and the page left in any case.\<close>

definition dismiss :: "string \<Rightarrow> (effect list \<times> string) js" where
  "dismiss destination =
     bindJs (catchJs (awaitFetch dismissReq (\<lambda>_. Ret ())) (\<lambda>_. Ret ()))
       (\<lambda>_. Ret ([Invalidate [KS ''admin'', KS ''onboarding'', KS ''state'']], destination))"

section \<open>The cluster step as a whole\<close>

definition creates :: "wizard_request list \<Rightarrow> nat" where
  "creates rs = length (filter (\<lambda>r. case r of SendCreate _ \<Rightarrow> True | _ \<Rightarrow> False) rs)"

fun createRefused :: "wizard_event \<Rightarrow> bool" where
  "createRefused (CreateAnswered (CreateError _)) \<longleftrightarrow> True"
| "createRefused (CreateAnswered (CreatedId i)) \<longleftrightarrow> \<not> present i"
| "createRefused _ \<longleftrightarrow> False"

definition refusals :: "wizard_event list \<Rightarrow> nat" where
  "refusals es = length (filter createRefused es)"

text \<open>A create request is on its way or has brought an id.\<close>

definition pledged :: "cluster_step \<Rightarrow> nat" where
  "pledged w = (if Creating \<in> set (csRuns w) \<or> csCreated w \<noteq> None then 1 else 0)"

definition wizardOk :: "cluster_step \<Rightarrow> bool" where
  "wizardOk w \<longleftrightarrow> csStep w < length STEPS \<and> count_list (csRuns w) Creating \<le> 1 \<and>
     (csCreated w \<noteq> None \<longrightarrow> Creating \<notin> set (csRuns w)) \<and>
     (csCreated w = None \<longrightarrow> Probing \<notin> set (csRuns w)) \<and>
     (Creating \<in> set (csRuns w) \<longrightarrow> csTest w = TestRunning)"

lemma steps_length [simp]: "length STEPS = 5"
  by (simp add: STEPS_def)

lemma count_remove1: "count_list (remove1 a xs) b = (if a = b then count_list xs b - 1 else count_list xs b)"
  by (induction xs) (auto simp: count_list_0_iff)

lemma count_one_gone: "count_list xs a \<le> 1 \<Longrightarrow> a \<notin> set (remove1 a xs)"
  using count_remove1 [of a xs a] by (metis count_list_0_iff diff_is_0_eq)

lemma remove1_other: "a \<noteq> b \<Longrightarrow> a \<in> set (remove1 b xs) \<longleftrightarrow> a \<in> set xs"
  by (metis in_set_remove1)

lemma startTest_facts:
  assumes "wizardOk w" and "nextEnabled w \<or> csTest w \<noteq> TestRunning"
  shows "wizardOk (fst (startTest w)) \<and>
    pledged w + creates (snd (startTest w)) = pledged (fst (startTest w)) \<and>
    (\<forall>c. SendTest c \<in> set (snd (startTest w)) \<longrightarrow> csCreated (fst (startTest w)) = Some c) \<and>
    csCreated (fst (startTest w)) = csCreated w"
proof -
  have "Creating \<notin> set (csRuns w)" using assms by (auto simp: wizardOk_def nextEnabled_def)
  then show ?thesis using assms
    by (cases "csCreated w") (auto simp: startTest_def wizardOk_def pledged_def creates_def count_list_0_iff)
qed

lemma onCreated_facts:
  assumes "wizardOk w"
  shows "wizardOk (fst (onCreated a w)) \<and>
    pledged w + creates (snd (onCreated a w)) \<le> refusals [CreateAnswered a] + pledged (fst (onCreated a w)) \<and>
    (\<forall>c. SendTest c \<in> set (snd (onCreated a w)) \<longrightarrow> csCreated (fst (onCreated a w)) = Some c) \<and>
    (csCreated w \<noteq> None \<longrightarrow> csCreated (fst (onCreated a w)) = csCreated w)"
proof (cases "Creating \<in> set (csRuns w)")
  case False
  then show ?thesis using assms by (simp add: onCreated_def creates_def)
next
  case True
  then have gone: "Creating \<notin> set (remove1 Creating (csRuns w))" and none: "csCreated w = None"
    using assms count_one_gone [of "csRuns w" Creating] by (auto simp: wizardOk_def)
  then have z: "count_list (remove1 Creating (csRuns w)) Creating = 0" by (metis count_list_0_iff)
  show ?thesis
  proof (cases a)
    case (CreatedId i)
    then show ?thesis using True assms gone none z
      by (cases "present i") (auto simp: onCreated_def Let_def wizardOk_def pledged_def creates_def refusals_def
          present_iff remove1_other)
  next
    case (CreateError m)
    then show ?thesis using True assms gone none z
      by (auto simp: onCreated_def Let_def wizardOk_def pledged_def creates_def refusals_def remove1_other)
  qed
qed

lemma onTested_facts:
  assumes "wizardOk w"
  shows "wizardOk (onTested a w) \<and> pledged (onTested a w) = pledged w \<and>
    csCreated (onTested a w) = csCreated w"
proof (cases "Probing \<in> set (csRuns w)")
  case True
  then have c: "csCreated w \<noteq> None" "Creating \<notin> set (csRuns w)" using assms by (auto simp: wizardOk_def)
  then have "Creating \<notin> set (remove1 Probing (csRuns w))" by (simp add: remove1_other)
  moreover from this have "count_list (remove1 Probing (csRuns w)) Creating = 0" by (metis count_list_0_iff)
  ultimately show ?thesis using c assms True by (auto simp: onTested_def Let_def wizardOk_def pledged_def)
qed (use assms in \<open>simp add: onTested_def\<close>)

lemma wizardStep_facts:
  assumes "wizardOk w"
  shows "wizardOk (fst (wizardStep e w)) \<and>
    pledged w + creates (snd (wizardStep e w)) \<le> refusals [e] + pledged (fst (wizardStep e w)) \<and>
    (\<forall>c. SendTest c \<in> set (snd (wizardStep e w)) \<longrightarrow> csCreated (fst (wizardStep e w)) = Some c) \<and>
    (csCreated w \<noteq> None \<longrightarrow> csCreated (fst (wizardStep e w)) = csCreated w)"
proof (cases e)
  case PressTest
  then show ?thesis using assms startTest_facts [OF assms]
    by (auto simp: testEnabled_def creates_def)
next
  case PressNext
  have "wizardOk (w\<lparr>csStep := goNext (csStep w)\<rparr>)" using assms by (simp add: wizardOk_def goNext_def)
  then show ?thesis using PressNext assms startTest_facts [OF assms]
    by (auto simp: handleClusterNext_def creates_def pledged_def)
next
  case (CreateAnswered a)
  then show ?thesis using onCreated_facts [OF assms, of a] by simp
next
  case (TestAnswered a)
  then show ?thesis using onTested_facts [OF assms, of a] by (simp add: creates_def)
qed (use assms in \<open>auto simp: wizardOk_def creates_def pledged_def goNext_def goBack_def\<close>)

lemma wizardRun_facts:
  "wizardOk w \<Longrightarrow> wizardRun es w = (w', sent) \<Longrightarrow>
   wizardOk w' \<and> pledged w + creates sent \<le> refusals es + pledged w' \<and>
   (\<forall>c. SendTest c \<in> set sent \<longrightarrow> csCreated w' = Some c) \<and>
   (csCreated w \<noteq> None \<longrightarrow> csCreated w' = csCreated w)"
proof (induction es arbitrary: w sent)
  case (Cons e es)
  let ?w = "fst (wizardStep e w)"
  obtain sent2 where r: "wizardRun es ?w = (w', sent2)" and s: "sent = snd (wizardStep e w) @ sent2"
    using Cons.prems(2) by (auto simp: case_prod_beta prod_eq_iff)
  have "refusals (e # es) = refusals [e] + refusals es" by (simp add: refusals_def)
  moreover have "creates sent = creates (snd (wizardStep e w)) + creates sent2"
    by (simp add: s creates_def)
  moreover note wizardStep_facts [OF Cons.prems(1), of e] Cons.IH [OF _ r]
  ultimately show ?case unfolding s by auto
qed (simp add: creates_def refusals_def)

text \<open>
  C23. The cluster step registers at most one cluster: however the operator types and presses while
  requests are under way, there is at most one more create request than refused ones, every test
  request is for the one cluster that was created, and the step shown is one of the five.
\<close>

theorem wizard_creates_one_cluster:
  assumes "wizardRun es freshWizard = (w, sent)"
  shows "creates sent \<le> Suc (refusals es) \<and>
    (\<forall>c. SendTest c \<in> set sent \<longrightarrow> csCreated w = Some c) \<and> csStep w < length STEPS"
proof -
  have "wizardOk freshWizard" by (simp add: wizardOk_def freshWizard_def)
  from wizardRun_facts [OF this assms]
  have "wizardOk w" "creates sent \<le> refusals es + pledged w"
    "\<forall>c. SendTest c \<in> set sent \<longrightarrow> csCreated w = Some c" by auto
  then show ?thesis by (auto simp: wizardOk_def pledged_def split: if_splits)
qed

theorem wizard_creates_one_cluster_witness:
  "creates (snd (wizardRun [EditCluster (emptyCluster\<lparr>cfLabel := ''home''\<rparr>), PressSkip, PressTest, PressNext,
      CreateAnswered (CreateError ''down''), PressNext, CreateAnswered (CreatedId (Some ''c1'')),
      PressNext, TestAnswered (TestResult True None)] freshWizard)) \<le> Suc 1"
proof -
  let ?es = "[EditCluster (emptyCluster\<lparr>cfLabel := ''home''\<rparr>), PressSkip, PressTest, PressNext,
      CreateAnswered (CreateError ''down''), PressNext, CreateAnswered (CreatedId (Some ''c1'')),
      PressNext, TestAnswered (TestResult True None)]"
  obtain w sent where run: "wizardRun ?es freshWizard = (w, sent)" by fastforce
  from wizard_creates_one_cluster [OF run] show ?thesis unfolding run by (simp add: refusals_def)
qed

text \<open>
  Nobody is trapped: from every reachable state four presses of Skip lead to the last step, and no
  press of Back leaves the wizard's range.
\<close>

theorem skip_reaches_done:
  assumes "csStep w < length STEPS"
  shows "stepKey (csStep (fst (wizardRun [PressSkip, PressSkip, PressSkip, PressSkip] w))) = ''done''"
  using assms by (auto simp: goNext_def stepKey_def STEPS_def)

section \<open>Where the wizard surprises\<close>

text \<open>
  Once a cluster has been created, nothing the operator types reaches the server any more: every later
  request is a test of the cluster as it was first registered, also after a failed test whose
  message asks to correct the configuration.
\<close>

theorem corrections_are_never_sent:
  assumes "wizardOk w" and "csCreated w = Some cid" and "wizardRun es w = (w', sent)"
  shows "creates sent \<le> refusals es \<and> (\<forall>r \<in> set sent. \<forall>c. r = SendTest c \<longrightarrow> c = cid)"
  using wizardRun_facts [OF assms(1,3)] assms(2)
  by (auto simp: pledged_def split: if_splits)

text \<open>And after a successful test an edited configuration passes without a new one.\<close>

theorem edit_after_ok_passes:
  assumes "csTest w = TestOk m" and "nextEnabled w" and "csStep w = 1"
  shows "wizardRun [EditCluster f, PressNext] w = (w\<lparr>csForm := f, csStep := 2\<rparr>, [])"
  using assms by (simp add: nextEnabled_def handleClusterNext_def isOk_def goNext_def)

text \<open>
  The dismissal does not look at the answer. When the server refuses it, or while the old onboarding
  state is still in the cache, the page it leads to sends the operator straight back.
\<close>

theorem refused_dismissal_returns:
  "snd (run (dismiss ''/admin/clusters'') b h) =
     Inr ([Invalidate [KS ''admin'', KS ''onboarding'', KS ''state'']], ''/admin/clusters'') \<and>
   shellRound (signedIn (sampleUser [''cluster.wiring.list'', ''platform.onboarding.read''] None))
     AdminMode (Some \<lparr>obCompleted = False, obNeeded = True\<rparr>) ''/admin/clusters'' = ''/admin/first-run''"
proof
  show "snd (run (dismiss ''/admin/clusters'') b h) =
     Inr ([Invalidate [KS ''admin'', KS ''onboarding'', KS ''state'']], ''/admin/clusters'')"
    by (auto simp: dismiss_def run_bindJs run_catchJs awaitFetch_def split: option.splits)
  let ?u = "signedIn (sampleUser [''cluster.wiring.list'', ''platform.onboarding.read''] None)"
  have "protectedRouteEffect ?u ''/admin/clusters'' = []"
    by (simp add: access_eval resolve_clusters)
  then show "shellRound ?u AdminMode (Some \<lparr>obCompleted = False, obNeeded = True\<rparr>) ''/admin/clusters'' =
      ''/admin/first-run''"
    by (simp add: shellRound_def adminPage_def protectedRouteShows_def userModeRedirect_def
        onboardingRedirect_def onboardingQueryEnabled_def adminPayload_def payloadMode_def onAdmin_def
        signedIn_def sampleUser_def)
qed

end
