(* ===== verification/Bucket_Sections.thy ===== *)
theory Bucket_Sections
  imports Lifecycle_Editor
begin

text \<open>
  The cards below a bucket: versioning, object lock, default encryption and lifecycle rules
  (\<open>shared/ui/VersioningSection.tsx\<close>, \<open>ObjectLockSection.tsx\<close>, \<open>EncryptionSection.tsx\<close>,
  \<open>LifecycleSection.tsx\<close>). Each card shows the server's value, seeds a form from it once, and saves the
  form through the hooks of \<open>Bucket_Hooks\<close>.

  Times are milliseconds since the epoch. The clock is an argument; so are the two conversions of
  \<open>Date\<close> the cards use, \<open>new Date(s).getTime()\<close> (\<open>None\<close> is \<open>NaN\<close>) and \<open>new Date(ms).toISOString()\<close>.
\<close>

text \<open>What a card shows.\<close>

datatype section_view = SectionLoading | SectionFailed | SectionUnsupported | NeedsVersioning | SectionEditor

section \<open>Versioning\<close>

datatype VersioningStatus = VDisabled | VEnabled | VSuspended

fun statusName :: "VersioningStatus \<Rightarrow> string" where
  "statusName VDisabled = ''disabled''"
| "statusName VEnabled = ''enabled''"
| "statusName VSuspended = ''suspended''"

definition versioningView :: "bool \<Rightarrow> bool \<Rightarrow> bool option \<Rightarrow> section_view" where
  "versioningView isLoading failed supported =
     (if isLoading then SectionLoading
      else if failed \<or> supported = None then SectionFailed
      else if supported = Some False then SectionUnsupported else SectionEditor)"

record versioning_card =
  vcData :: "VersioningStatus option"
  vcPending :: "VersioningStatus option"
  vcSeeded :: bool
  vcSaving :: bool

definition freshVersioning :: versioning_card where
  "freshVersioning = \<lparr>vcData = None, vcPending = None, vcSeeded = False, vcSaving = False\<rparr>"

definition seedVersioning :: "versioning_card \<Rightarrow> versioning_card" where
  "seedVersioning c =
     (if vcSeeded c \<or> vcData c = None then c else c\<lparr>vcSeeded := True, vcPending := vcData c\<rparr>)"

definition versioningSelected :: "VersioningStatus \<Rightarrow> versioning_card \<Rightarrow> VersioningStatus" where
  "versioningSelected current c = (case vcPending c of None \<Rightarrow> current | Some p \<Rightarrow> p)"

definition versioningOptions :: "VersioningStatus \<Rightarrow> VersioningStatus list" where
  "versioningOptions current = (if current = VDisabled then [VEnabled] else [VEnabled, VSuspended])"

text \<open>The save button with its handler: what is sent, if anything.\<close>

definition saveVersioning :: "versioning_card \<Rightarrow> VersioningStatus option" where
  "saveVersioning c =
     (case vcData c of
        None \<Rightarrow> None
      | Some current \<Rightarrow>
          (let selected = versioningSelected current c in
           if selected = current \<or> vcSaving c \<or> selected = VDisabled then None else Some selected))"

datatype versioning_event =
    VArrives VersioningStatus
  | VSelect VersioningStatus
  | VSave
  | VSettled

fun versioningStep :: "versioning_event \<Rightarrow> versioning_card \<Rightarrow> versioning_card \<times> VersioningStatus list" where
  "versioningStep (VArrives st) c = (seedVersioning (c\<lparr>vcData := Some st\<rparr>), [])"
| "versioningStep (VSelect v) c =
     (case vcData c of
        None \<Rightarrow> (c, [])
      | Some current \<Rightarrow>
          if v \<in> set (versioningOptions current) \<and> \<not> vcSaving c
          then (c\<lparr>vcPending := Some v\<rparr>, []) else (c, []))"
| "versioningStep VSave c =
     (case saveVersioning c of None \<Rightarrow> (c, []) | Some v \<Rightarrow> (c\<lparr>vcSaving := True\<rparr>, [v]))"
| "versioningStep VSettled c = (c\<lparr>vcSaving := False\<rparr>, [])"

definition versioningAfter :: "versioning_event list \<Rightarrow> versioning_card" where
  "versioningAfter es = foldl (\<lambda>c e. fst (versioningStep e c)) freshVersioning es"

section \<open>Object lock\<close>

datatype lock_mode = Governance | Compliance

fun modeText :: "lock_mode \<Rightarrow> string" where
  "modeText Governance = ''GOVERNANCE''"
| "modeText Compliance = ''COMPLIANCE''"

definition DAY :: int where
  "DAY = 24 * 60 * 60 * 1000"

text \<open>\<open>Math.round(ms / DAY)\<close>: to the nearest, halves up.\<close>

definition roundDays :: "int \<Rightarrow> int" where
  "roundDays ms = (2 * ms + DAY) div (2 * DAY)"

definition seedDays :: "(string \<Rightarrow> int option) \<Rightarrow> int \<Rightarrow> string \<Rightarrow> int option" where
  "seedDays parseDate now date = map_option (\<lambda>t. max 1 (roundDays (t - now))) (parseDate date)"

text \<open>\<open>Math.max(1, parseInt(v, 10) || 1)\<close>.\<close>

definition typeDays :: "string \<Rightarrow> int" where
  "typeDays v = max 1 (case parseInt v of None \<Rightarrow> 1 | Some n \<Rightarrow> if n = 0 then 1 else n)"

text \<open>The form; \<open>lfDays = None\<close> is \<open>NaN\<close>.\<close>

record lock_form =
  lfDefault :: bool
  lfMode :: lock_mode
  lfDays :: "int option"
  lfSeeded :: bool

definition freshLock :: lock_form where
  "freshLock = \<lparr>lfDefault = False, lfMode = Governance, lfDays = Some 30, lfSeeded = False\<rparr>"

definition seedLock ::
  "(string \<Rightarrow> int option) \<Rightarrow> int \<Rightarrow> (lock_mode \<times> string) option \<Rightarrow> lock_form \<Rightarrow> lock_form" where
  "seedLock parseDate now defaultRetention f =
     (if lfSeeded f then f
      else (case defaultRetention of
          Some (m, date) \<Rightarrow> f\<lparr>lfSeeded := True, lfDefault := True, lfMode := m,
            lfDays := seedDays parseDate now date\<rparr>
        | None \<Rightarrow> f\<lparr>lfSeeded := True, lfDefault := False\<rparr>))"

definition lockView :: "bool \<Rightarrow> bool \<Rightarrow> bool option \<Rightarrow> bool \<Rightarrow> VersioningStatus option \<Rightarrow> section_view" where
  "lockView isLoading failed supported versioningSupported versioning =
     (if isLoading then SectionLoading
      else if failed \<or> supported = None then SectionFailed
      else if supported = Some False then SectionUnsupported
      else if \<not> (versioningSupported \<and> versioning = Some VEnabled) then NeedsVersioning
      else SectionEditor)"

definition lockRequest :: "(int \<Rightarrow> string) \<Rightarrow> int \<Rightarrow> lock_form \<Rightarrow> ObjectLockConfigRequest" where
  "lockRequest isoDate now f = \<lparr>ocEnabled = True, ocDefault =
     (case lfDays f of
        Some d \<Rightarrow> if lfDefault f \<and> 0 < d
          then Some (Some \<lparr>olMode = modeText (lfMode f), olRetainUntil = isoDate (now + d * DAY)\<rparr>)
          else None
      | None \<Rightarrow> None)\<rparr>"

datatype lock_event =
    LockArrives int "(lock_mode \<times> string) option"
  | LockToggle bool
  | LockMode lock_mode
  | LockDays string

fun lockStep :: "(string \<Rightarrow> int option) \<Rightarrow> lock_event \<Rightarrow> lock_form \<Rightarrow> lock_form" where
  "lockStep parseDate (LockArrives now r) f = seedLock parseDate now r f"
| "lockStep parseDate (LockToggle b) f = f\<lparr>lfDefault := b\<rparr>"
| "lockStep parseDate (LockMode m) f = f\<lparr>lfMode := m\<rparr>"
| "lockStep parseDate (LockDays v) f = f\<lparr>lfDays := Some (typeDays v)\<rparr>"

definition lockAfter :: "(string \<Rightarrow> int option) \<Rightarrow> lock_event list \<Rightarrow> lock_form" where
  "lockAfter parseDate es = foldl (\<lambda>f e. lockStep parseDate e f) freshLock es"

section \<open>Default encryption\<close>

datatype SSEAlgorithm = AES256 | AwsKms

fun algorithmName :: "SSEAlgorithm \<Rightarrow> string" where
  "algorithmName AES256 = ''AES256''"
| "algorithmName AwsKms = ''aws:kms''"

fun algorithmLabel :: "SSEAlgorithm \<Rightarrow> string" where
  "algorithmLabel AES256 = ''SSE-S3 (backend keys)''"
| "algorithmLabel AwsKms = ''SSE-KMS (operator key)''"

record encryption_data =
  edEnabled :: bool
  edAlgorithm :: "SSEAlgorithm option"
  edKmsKeyId :: "string option"
  edBucketKey :: "bool option"
  edSupportedS3 :: bool
  edSupportedKms :: bool

record encryption_form =
  efAlgorithm :: SSEAlgorithm
  efKmsKeyId :: string
  efBucketKey :: bool
  efSeeded :: bool

definition freshEncryption :: encryption_form where
  "freshEncryption = \<lparr>efAlgorithm = AES256, efKmsKeyId = [], efBucketKey = False, efSeeded = False\<rparr>"

definition seedEncryption :: "encryption_data \<Rightarrow> encryption_form \<Rightarrow> encryption_form" where
  "seedEncryption d f =
     (if efSeeded f then f
      else (case (edEnabled d, edAlgorithm d) of
          (True, Some a) \<Rightarrow> \<lparr>efAlgorithm = a,
            efKmsKeyId = (case edKmsKeyId d of None \<Rightarrow> [] | Some k \<Rightarrow> k),
            efBucketKey = (edBucketKey d = Some True), efSeeded = True\<rparr>
        | _ \<Rightarrow> \<lparr>efAlgorithm = (if edSupportedS3 d then AES256 else AwsKms), efKmsKeyId = [],
            efBucketKey = False, efSeeded = True\<rparr>))"

definition encryptionView :: "bool \<Rightarrow> bool \<Rightarrow> encryption_data option \<Rightarrow> section_view" where
  "encryptionView isLoading failed d =
     (if isLoading then SectionLoading
      else (case d of
          None \<Rightarrow> SectionFailed
        | Some x \<Rightarrow> if failed then SectionFailed
            else if \<not> edSupportedS3 x \<and> \<not> edSupportedKms x then SectionUnsupported else SectionEditor))"

text \<open>The radio buttons of the algorithm, or the notice in their place.\<close>

datatype algorithm_choice = AlgorithmRadio | OnlyS3Notice

definition algorithmChoice :: "encryption_data \<Rightarrow> algorithm_choice" where
  "algorithmChoice d = (if edSupportedS3 d \<and> edSupportedKms d then AlgorithmRadio else OnlyS3Notice)"

definition encryptionRequest :: "encryption_form \<Rightarrow> BucketEncryptionRequest" where
  "encryptionRequest f = \<lparr>beAlgorithm = algorithmName (efAlgorithm f),
     beKmsKeyId = (if efAlgorithm f = AwsKms then Some (trim (efKmsKeyId f)) else None),
     beBucketKey = (if efAlgorithm f = AwsKms then Some (efBucketKey f) else None)\<rparr>"

definition encryptionSaveDisabled :: "bool \<Rightarrow> encryption_form \<Rightarrow> bool" where
  "encryptionSaveDisabled busy f \<longleftrightarrow> busy \<or> efAlgorithm f = AwsKms \<and> trim (efKmsKeyId f) = []"

section \<open>Lifecycle rules\<close>

definition lifecycleView :: "bool \<Rightarrow> bool \<Rightarrow> bool option \<Rightarrow> section_view" where
  "lifecycleView isLoading failed supported =
     (if isLoading then SectionLoading
      else if failed \<or> supported = None then SectionFailed
      else if supported = Some False then SectionUnsupported else SectionEditor)"

definition remainingRules :: "LifecycleRule list \<Rightarrow> string \<Rightarrow> LifecycleRule list" where
  "remainingRules rules ruleId = filter (\<lambda>r. lrId r \<noteq> ruleId) rules"

definition deleteRule :: "string \<Rightarrow> string \<Rightarrow> LifecycleRule list \<Rightarrow> string \<Rightarrow> json js" where
  "deleteRule cid bid rules ruleId =
     mutationFn (usePutBucketLifecycle cid bid) (remainingRules rules ruleId)"

definition plural :: "int \<Rightarrow> string" where
  "plural n = (if n = 1 then [] else ''s'')"

text \<open>The first letter of a description is a lower-case ASCII letter or a bracket.\<close>

definition upperChar :: "char \<Rightarrow> char" where
  "upperChar c =
     (if of_char c \<ge> (97 :: nat) \<and> of_char c \<le> (122 :: nat) then char_of (of_char c - (32 :: nat)) else c)"

definition capitalize :: "string \<Rightarrow> string" where
  "capitalize s = (case s of [] \<Rightarrow> [] | c # cs \<Rightarrow> upperChar c # cs)"

definition ruleActions :: "LifecycleRule \<Rightarrow> string list" where
  "ruleActions r =
     (case lrExpirationDays r of None \<Rightarrow> []
       | Some d \<Rightarrow> [''delete objects after '' @ decInt d @ '' day'' @ plural d]) @
     (case (lrTransitionDays r, lrTransitionTier r) of
        (Some d, Some t) \<Rightarrow>
          if t = [] then []
          else [''move objects to '' @ t @ '' after '' @ decInt d @ '' day'' @ plural d]
      | _ \<Rightarrow> []) @
     (case lrNoncurrentDays r of None \<Rightarrow> []
       | Some d \<Rightarrow> [''delete noncurrent versions after '' @ decInt d @ '' day'' @ plural d]) @
     (case lrAbortMultipartDays r of None \<Rightarrow> []
       | Some d \<Rightarrow> [''cancel incomplete uploads after '' @ decInt d @ '' day'' @ plural d])"

definition describeRule :: "LifecycleRule \<Rightarrow> string" where
  "describeRule r =
     capitalize (if ruleActions r = [] then ''(no actions configured)'' else joinWith ''; '' (ruleActions r)) @
     (case lrPrefix r of None \<Rightarrow> []
       | Some p \<Rightarrow> if p = [] then [] else '' with prefix '' @ [CHR 0x60] @ p @ [CHR 0x60])"

section \<open>Versioning is only ever moved along its contract\<close>

lemma versioningAfter_snoc [simp]:
  "versioningAfter (es @ [e]) = fst (versioningStep e (versioningAfter es))"
  by (simp add: versioningAfter_def)

text \<open>
  The statuses a bucket reports, in order. The S3 contract: once versioning has been turned on, a bucket
  is never \<open>disabled\<close> again.
\<close>

fun arrival :: "versioning_event \<Rightarrow> VersioningStatus list" where
  "arrival (VArrives st) = [st]"
| "arrival _ = []"

definition arrivals :: "versioning_event list \<Rightarrow> VersioningStatus list" where
  "arrivals es = concat (map arrival es)"

fun neverDisabledAgain :: "VersioningStatus list \<Rightarrow> bool" where
  "neverDisabledAgain [] = True"
| "neverDisabledAgain (a # as) \<longleftrightarrow> (a = VDisabled \<or> VDisabled \<notin> set as) \<and> neverDisabledAgain as"

lemma arrivals_snoc [simp]: "arrivals (es @ [e]) = arrivals es @ arrival e"
  by (simp add: arrivals_def)

lemma neverDisabledAgain_snoc:
  "neverDisabledAgain (as @ [b]) \<longleftrightarrow>
     neverDisabledAgain as \<and> (b = VDisabled \<longrightarrow> set as \<subseteq> {VDisabled})"
  by (induction as) auto

lemma versioning_inv:
  "neverDisabledAgain (arrivals es) \<Longrightarrow>
   (vcData (versioningAfter es) = None \<longrightarrow> vcPending (versioningAfter es) = None \<and> arrivals es = []) \<and>
   (\<forall>st. vcData (versioningAfter es) = Some st \<longrightarrow> st \<in> set (arrivals es)) \<and>
   (vcSeeded (versioningAfter es) \<longrightarrow> vcData (versioningAfter es) \<noteq> None) \<and>
   (vcPending (versioningAfter es) = Some VSuspended \<longrightarrow> \<not> set (arrivals es) \<subseteq> {VDisabled})"
proof (induction es rule: rev_induct)
  case Nil
  then show ?case by (simp add: versioningAfter_def freshVersioning_def arrivals_def)
next
  case (snoc e es)
  have ok: "neverDisabledAgain (arrivals es)"
    using snoc.prems by (cases e) (auto simp: neverDisabledAgain_snoc)
  note ih = snoc.IH [OF ok]
  show ?case
  proof (cases e)
    case (VArrives st)
    then show ?thesis using ih by (auto simp: seedVersioning_def)
  next
    case (VSelect v)
    then show ?thesis using ih
      by (cases "vcData (versioningAfter es)")
         (auto simp: versioningOptions_def split: if_splits)
  qed (use ih in \<open>auto split: option.splits\<close>)
qed

text \<open>
  The versioning card saves only real and valid changes: whatever was selected
  and refetched before, a status that goes out differs from the bucket's current one, is never
  \<open>disabled\<close>, and a bucket on which versioning was never enabled can only be enabled.
\<close>

theorem versioning_saves_valid:
  assumes "neverDisabledAgain (arrivals es)" and "v \<in> set (snd (versioningStep e (versioningAfter es)))"
  shows "e = VSave \<and> \<not> vcSaving (versioningAfter es) \<and> v \<noteq> VDisabled \<and>
    (\<exists>current. vcData (versioningAfter es) = Some current \<and> v \<noteq> current \<and>
       (set (arrivals es) = {VDisabled} \<longrightarrow> v = VEnabled))"
proof -
  have e: "e = VSave" "saveVersioning (versioningAfter es) = Some v"
    using assms(2) by (cases e; auto split: option.splits if_splits)+
  then show ?thesis using versioning_inv [OF assms(1)]
    by (cases v)
       (auto simp: saveVersioning_def versioningSelected_def Let_def split: option.splits if_splits)
qed

theorem versioning_saves_valid_witness:
  "vcData (versioningAfter [VArrives VEnabled, VSelect VSuspended]) = Some VEnabled \<and> VSuspended \<noteq> VDisabled"
proof -
  let ?es = "[VArrives VEnabled, VSelect VSuspended]"
  have "neverDisabledAgain (arrivals ?es)" "VSuspended \<in> set (snd (versioningStep VSave (versioningAfter ?es)))"
    by code_simp+
  from versioning_saves_valid [OF this] have "VSuspended \<noteq> VDisabled" by blast
  moreover have "vcData (versioningAfter ?es) = Some VEnabled" by code_simp
  ultimately show ?thesis by blast
qed

text \<open>
  The seed survives a change of the bucket, because the mark that it happened is kept. The status of the
  bucket left behind counts as the operator's choice on the next one, and one press of Save sends it:
  here suspending a bucket that was never versioned.
\<close>

theorem seed_survives_bucket_change:
  "snd (versioningStep VSave (versioningAfter [VArrives VSuspended, VArrives VDisabled])) = [VSuspended]"
  by code_simp

section \<open>Retention periods\<close>

lemma typeDays_pos: "1 \<le> typeDays v"
  by (simp add: typeDays_def)

lemma lock_days: "lfDays (lockAfter parseDate es) = Some d \<Longrightarrow> 1 \<le> d"
proof (induction es arbitrary: d rule: rev_induct)
  case Nil
  then show ?case by (simp add: lockAfter_def freshLock_def)
next
  case (snoc e es)
  have s: "lockAfter parseDate (es @ [e]) = lockStep parseDate e (lockAfter parseDate es)"
    by (simp add: lockAfter_def)
  note p = snoc.prems [unfolded s]
  show ?case
  proof (cases e)
    case (LockArrives now r)
    then show ?thesis using p snoc.IH
      by (auto simp: seedLock_def seedDays_def split: if_splits option.splits prod.splits)
  qed (use p snoc.IH typeDays_pos in auto)
qed

text \<open>
  Whatever was loaded and typed, a save of the object-lock card keeps the
  lock on, and a default retention it sends ends a whole number of days, at least one, after the
  moment of the save, in the mode on screen.
\<close>

theorem lock_retention_at_least_a_day:
  assumes "f = lockAfter parseDate es"
  shows "ocEnabled (lockRequest isoDate now f) \<and>
    (case ocDefault (lockRequest isoDate now f) of
       None \<Rightarrow> \<not> lfDefault f \<or> lfDays f = None
     | Some r \<Rightarrow> \<exists>d \<ge> 1. lfDays f = Some d \<and>
         r = Some \<lparr>olMode = modeText (lfMode f), olRetainUntil = isoDate (now + d * DAY)\<rparr>)"
  using lock_days [of parseDate es] unfolding assms
  by (cases "lfDays (lockAfter parseDate es)") (fastforce simp: lockRequest_def)+

theorem lock_retention_at_least_a_day_witness:
  "ocEnabled (lockRequest (\<lambda>_. ''2026-01-01'') 0 (lockAfter (\<lambda>_. None) [LockToggle True, LockDays ''0'']))"
  using lock_retention_at_least_a_day [OF refl, of "\<lambda>_. ''2026-01-01''" 0 "\<lambda>_. None" "[LockToggle True, LockDays ''0'']"]
  by blast

lemma roundDays_near:
  assumes "0 \<le> \<delta>" and "2 * \<delta> \<le> DAY"
  shows "roundDays (d * DAY - \<delta>) = d"
proof -
  have "2 * (d * DAY - \<delta>) + DAY = d * (2 * DAY) + (DAY - 2 * \<delta>)" by (simp add: algebra_simps)
  moreover have "(DAY - 2 * \<delta>) div (2 * DAY) = 0" using assms by (auto simp: DAY_def)
  moreover have "DAY \<noteq> 0" by (simp add: DAY_def)
  ultimately show ?thesis unfolding roundDays_def by (metis add_0 add.commute div_mult_self1 mult_eq_0_iff zero_neq_numeral)
qed

text \<open>
  The number of days that was saved is the number that is shown when the card
  is opened again within half a day: the date that was sent, read back, gives the same days, in the
  object-lock card and in the retention dialog alike.
\<close>

theorem retention_days_roundtrip:
  assumes "lfDays f = Some d" and "1 \<le> d" and "lfDefault f"
    and "parseDate (isoDate (now + d * DAY)) = Some (now + d * DAY)"
    and "now \<le> later" and "2 * (later - now) \<le> DAY"
  shows "ocDefault (lockRequest isoDate now f) =
      Some (Some \<lparr>olMode = modeText (lfMode f), olRetainUntil = isoDate (now + d * DAY)\<rparr>) \<and>
    seedLock parseDate later (Some (lfMode f, isoDate (now + d * DAY))) freshLock =
      \<lparr>lfDefault = True, lfMode = lfMode f, lfDays = Some d, lfSeeded = True\<rparr>"
proof -
  have eq: "now + d * DAY - later = d * DAY - (later - now)" by simp
  have "roundDays (now + d * DAY - later) = d"
    unfolding eq using assms(5,6) by (intro roundDays_near) auto
  then have "seedDays parseDate later (isoDate (now + d * DAY)) = Some d"
    using assms(2,4) by (simp add: seedDays_def)
  then show ?thesis using assms(1-3) by (simp add: lockRequest_def seedLock_def freshLock_def)
qed

theorem retention_days_roundtrip_witness:
  "seedLock parseInt 1000 (Some (Governance, decInt (10 + 3 * DAY))) freshLock =
     \<lparr>lfDefault = True, lfMode = Governance, lfDays = Some 3, lfSeeded = True\<rparr>"
proof -
  let ?f = "\<lparr>lfDefault = True, lfMode = Governance, lfDays = Some 3, lfSeeded = False\<rparr>"
  have "lfDays ?f = Some 3" "(1 :: int) \<le> 3" "lfDefault ?f"
    "parseInt (decInt (10 + 3 * DAY)) = Some (10 + 3 * DAY)" "(10 :: int) \<le> 1000"
    "2 * (1000 - 10) \<le> DAY"
    by (simp_all add: parseInt_decInt DAY_def)
  from retention_days_roundtrip [where isoDate = decInt and parseDate = parseInt, OF this]
  show ?thesis by simp
qed

section \<open>The other two cards\<close>

text \<open>
  A save of the encryption card is complete and says what the card shows: with
  KMS it names a key, with S3-managed keys it names none; and saving the card as it was loaded sends
  the configuration the bucket already has.
\<close>

theorem encryption_form_faithful:
  assumes "\<not> encryptionSaveDisabled busy f"
  shows "(case efAlgorithm f of
      AES256 \<Rightarrow> encryptionRequest f = \<lparr>beAlgorithm = ''AES256'', beKmsKeyId = None, beBucketKey = None\<rparr>
    | AwsKms \<Rightarrow> \<exists>k. k \<noteq> [] \<and>
        encryptionRequest f = \<lparr>beAlgorithm = ''aws:kms'', beKmsKeyId = Some k, beBucketKey = Some (efBucketKey f)\<rparr>) \<and>
    (f = seedEncryption d freshEncryption \<and> edEnabled d \<and> edAlgorithm d = Some AwsKms \<and>
       edKmsKeyId d = Some key \<and> trimmed key \<longrightarrow>
     encryptionRequest f = \<lparr>beAlgorithm = ''aws:kms'', beKmsKeyId = Some key,
       beBucketKey = Some (edBucketKey d = Some True)\<rparr>)"
  using assms
  by (auto simp: encryptionSaveDisabled_def encryptionRequest_def seedEncryption_def freshEncryption_def
      trim_id split: SSEAlgorithm.splits)

theorem encryption_form_faithful_witness:
  "encryptionRequest (seedEncryption \<lparr>edEnabled = True, edAlgorithm = Some AwsKms,
      edKmsKeyId = Some ''arn:k'', edBucketKey = None, edSupportedS3 = True, edSupportedKms = True\<rparr> freshEncryption) =
    \<lparr>beAlgorithm = ''aws:kms'', beKmsKeyId = Some ''arn:k'', beBucketKey = Some False\<rparr>"
proof -
  let ?d = "\<lparr>edEnabled = True, edAlgorithm = Some AwsKms, edKmsKeyId = Some ''arn:k'', edBucketKey = None,
      edSupportedS3 = True, edSupportedKms = True\<rparr>"
  have ok: "\<not> encryptionSaveDisabled False (seedEncryption ?d freshEncryption)" and t: "trimmed ''arn:k''"
    by code_simp+
  show ?thesis using encryption_form_faithful [OF ok, of ?d "''arn:k''"] t by simp
qed

text \<open>A driver with KMS only gets the notice that it supports S3-managed keys only.\<close>

theorem kms_only_driver_mislabelled:
  "\<not> edSupportedS3 d \<and> edSupportedKms d \<and> \<not> edEnabled d \<Longrightarrow>
   algorithmChoice d = OnlyS3Notice \<and> efAlgorithm (seedEncryption d freshEncryption) = AwsKms"
  by (auto simp: algorithmChoice_def seedEncryption_def freshEncryption_def)

lemma filter_remove1: "r \<in> set xs \<Longrightarrow> distinct (map f xs) \<Longrightarrow> filter (\<lambda>x. f x \<noteq> f r) xs = remove1 r xs"
proof (induction xs)
  case (Cons x xs)
  show ?case
  proof (cases "x = r")
    case True
    then have "\<forall>y \<in> set xs. f y \<noteq> f r" using Cons.prems(2) by (auto simp: image_iff)
    then show ?thesis using True by (simp add: filter_id_conv)
  next
    case False
    then have "r \<in> set xs" and "f x \<noteq> f r" using Cons.prems by (force, force)
    then show ?thesis using False Cons.IH Cons.prems(2) by simp
  qed
qed simp

text \<open>
  Deleting a lifecycle rule puts back the whole policy without that rule and
  nothing else: one request, all other rules in their order, and with distinct ids exactly the one
  rule is gone.
\<close>

theorem lifecycle_delete_exact:
  assumes "r \<in> set rules" and "distinct (map lrId rules)"
  shows "fst (run (deleteRule cid bid rules (lrId r)) b []) =
      [RFetch (jsonReq ''PUT'' (lifecyclePath cid bid)
        (JObj [(''rules'', JArr (map ruleJson (remove1 r rules)))]))] \<and>
    set (remainingRules rules (lrId r)) = set rules - {r}"
proof -
  have "remainingRules rules (lrId r) = remove1 r rules"
    unfolding remainingRules_def by (rule filter_remove1 [OF assms])
  moreover have "set (remove1 r rules) = set rules - {r}"
    using assms(2) by (simp add: distinct_map)
  ultimately show ?thesis
    by (simp add: deleteRule_def usePutBucketLifecycle_def run_fetchJson)
qed

theorem lifecycle_delete_exact_witness:
  "set (remainingRules [sampleRule ''a'', sampleRule ''b''] ''a'') = {sampleRule ''b''}"
proof -
  have r: "sampleRule ''a'' \<in> set [sampleRule ''a'', sampleRule ''b'']"
    "distinct (map lrId [sampleRule ''a'', sampleRule ''b''])" "lrId (sampleRule ''a'') = ''a''"
    "sampleRule ''a'' \<noteq> sampleRule ''b''"
    by (auto simp: sampleRule_def)
  from lifecycle_delete_exact [OF r(1,2)] r(3,4) show ?thesis by auto
qed

text \<open>Rules without an id, which the list shows as unnamed, are all deleted with any one of them.\<close>

theorem unnamed_rules_deleted_together:
  "lrId r = [] \<Longrightarrow> lrId s = [] \<Longrightarrow> s \<notin> set (remainingRules rules (lrId r))"
  by (simp add: remainingRules_def)

end
