(* ===== verification/Object_Versions.thy ===== *)
theory Object_Versions
  imports Bucket_Sections
begin

text \<open>
  The version history of one object (\<open>shared/ui/ObjectVersionsPanel.tsx\<close>): the panel with its delete
  dialog, the row of a version with its lock state, the dialog that edits a retention, and the
  legal-hold toggle. Dates and the clock are as in \<open>Bucket_Sections\<close>.
\<close>

section \<open>The panel\<close>

record ObjectVersion =
  ovKey :: string
  ovVersionId :: string
  ovIsLatest :: bool
  ovIsDeleteMarker :: bool
  ovLastModified :: "string option"
  ovSize :: int

text \<open>The list comes newest first; the labels count from the oldest.\<close>

definition numbered :: "ObjectVersion list \<Rightarrow> (string \<times> ObjectVersion) list" where
  "numbered versions = map (\<lambda>idx. (''v'' @ dec (length versions - idx), versions ! idx)) [0..<length versions]"

definition lockActionsAvailable :: "(bool \<times> bool) option \<Rightarrow> bool" where
  "lockActionsAvailable cfg = (case cfg of None \<Rightarrow> False | Some (supported, enabled) \<Rightarrow> supported \<and> enabled)"

record versions_panel =
  vpConfirm :: "ObjectVersion option"
  vpBypass :: bool
  vpPending :: "ObjectVersion option"

definition freshPanelState :: versions_panel where
  "freshPanelState = \<lparr>vpConfirm = None, vpBypass = False, vpPending = None\<rparr>"

text \<open>The success callback of the delete, after the one of the hook.\<close>

definition versionDeleted :: "string \<Rightarrow> string \<Rightarrow> string \<Rightarrow> effect list" where
  "versionDeleted regionId bucket key =
     [Invalidate (bucketKey (Some regionId) (Some bucket) [KS ''object-versions'', KS key]),
      Invalidate (bucketKey (Some regionId) (Some bucket) [KS ''objects-inf''])]"

datatype panel_event =
    AskDelete ObjectVersion
  | DismissDelete
  | ConfirmVersion
  | ToggleBypass bool
  | DeleteSettled bool

text \<open>
  The steps with the versions sent for deletion. A row offers its delete button unless the version
  is protected (\<open>deleteBlocked\<close> below) or being deleted; nothing of the dialog is enabled while the
  delete is under way.
\<close>

fun panelStep :: "(ObjectVersion \<Rightarrow> bool) \<Rightarrow> panel_event \<Rightarrow> versions_panel \<Rightarrow> versions_panel \<times> (string \<times> string) list" where
  "panelStep blocked (AskDelete v) p =
     (if blocked v \<or> map_option ovVersionId (vpPending p) = Some (ovVersionId v) then (p, [])
      else (p\<lparr>vpConfirm := Some v\<rparr>, []))"
| "panelStep blocked DismissDelete p =
     (if vpPending p \<noteq> None then (p, []) else (p\<lparr>vpConfirm := None, vpBypass := False\<rparr>, []))"
| "panelStep blocked ConfirmVersion p =
     (case vpConfirm p of
        None \<Rightarrow> (p, [])
      | Some v \<Rightarrow> if vpPending p \<noteq> None then (p, [])
          else (p\<lparr>vpPending := Some v\<rparr>, [(ovKey v, ovVersionId v)]))"
| "panelStep blocked (ToggleBypass b) p =
     (if vpPending p \<noteq> None then (p, []) else (p\<lparr>vpBypass := b\<rparr>, []))"
| "panelStep blocked (DeleteSettled ok) p =
     (if vpPending p = None then (p, [])
      else if ok then (p\<lparr>vpPending := None, vpConfirm := None, vpBypass := False\<rparr>, [])
      else (p\<lparr>vpPending := None\<rparr>, []))"

definition deleteVersion :: "string \<Rightarrow> string \<Rightarrow> (string \<times> string) \<Rightarrow> json js" where
  "deleteVersion regionId bucket target =
     mutationFn (useDeleteObjectVersion (Some regionId) (Some bucket)) target"

section \<open>The row of a version\<close>

record retention =
  rtMode :: lock_mode
  rtUntil :: string

definition retentionActive :: "(string \<Rightarrow> int option) \<Rightarrow> int \<Rightarrow> retention option \<Rightarrow> bool" where
  "retentionActive parseDate now r =
     (case r of None \<Rightarrow> False
      | Some x \<Rightarrow> (case parseDate (rtUntil x) of None \<Rightarrow> False | Some t \<Rightarrow> now < t))"

definition hasMode :: "lock_mode \<Rightarrow> retention option \<Rightarrow> bool" where
  "hasMode m r \<longleftrightarrow> map_option rtMode r = Some m"

definition deleteBlocked :: "(string \<Rightarrow> int option) \<Rightarrow> int \<Rightarrow> retention option \<Rightarrow> bool \<Rightarrow> bool" where
  "deleteBlocked parseDate now r holdOn \<longleftrightarrow>
     retentionActive parseDate now r \<and> hasMode Compliance r \<or> holdOn"

definition deleteTitle :: "(string \<Rightarrow> int option) \<Rightarrow> int \<Rightarrow> retention option \<Rightarrow> bool \<Rightarrow> string" where
  "deleteTitle parseDate now r holdOn =
     (if deleteBlocked parseDate now r holdOn
      then if hasMode Compliance r then ''Cannot delete: compliance retention is active.''
           else if holdOn then ''Cannot delete: legal hold is on.'' else []
      else [])"

text \<open>The query of a row runs only with object lock, and never for a delete marker.\<close>

definition rowLockEnabled :: "bool \<Rightarrow> ObjectVersion \<Rightarrow> bool" where
  "rowLockEnabled available v \<longleftrightarrow> available \<and> \<not> ovIsDeleteMarker v"

definition legalHoldUpdate :: "ObjectVersion \<Rightarrow> bool \<Rightarrow> string \<times> string \<times> bool" where
  "legalHoldUpdate v on = (ovKey v, ovVersionId v, \<not> on)"

section \<open>The retention dialog\<close>

text \<open>
  \<open>rdProps\<close> is the retention the row has loaded; a change of it, or the opening of the dialog, seeds the
  form. \<open>rdDays = None\<close> is \<open>NaN\<close>.
\<close>

record retention_dialog =
  rdProps :: "retention option"
  rdOpen :: bool
  rdMode :: lock_mode
  rdDays :: "int option"
  rdBypass :: bool
  rdSaving :: bool

definition initialMode :: "retention option \<Rightarrow> lock_mode" where
  "initialMode r = (case r of None \<Rightarrow> Governance | Some x \<Rightarrow> rtMode x)"

definition initialDays :: "(string \<Rightarrow> int option) \<Rightarrow> int \<Rightarrow> retention option \<Rightarrow> int option" where
  "initialDays parseDate now r =
     (case r of None \<Rightarrow> Some 30
      | Some x \<Rightarrow> if rtUntil x = [] then Some 30 else seedDays parseDate now (rtUntil x))"

definition mountRetention :: "(string \<Rightarrow> int option) \<Rightarrow> int \<Rightarrow> retention option \<Rightarrow> retention_dialog" where
  "mountRetention parseDate now r = \<lparr>rdProps = r, rdOpen = False, rdMode = initialMode r,
     rdDays = initialDays parseDate now r, rdBypass = False, rdSaving = False\<rparr>"

definition seedRetention :: "(string \<Rightarrow> int option) \<Rightarrow> int \<Rightarrow> retention_dialog \<Rightarrow> retention_dialog" where
  "seedRetention parseDate now d =
     (if \<not> rdOpen d then d
      else d\<lparr>rdMode := initialMode (rdProps d), rdDays := initialDays parseDate now (rdProps d),
             rdBypass := False\<rparr>)"

definition newDateMs :: "int \<Rightarrow> retention_dialog \<Rightarrow> int option" where
  "newDateMs now d = map_option (\<lambda>n. now + n * DAY) (rdDays d)"

definition existingMs :: "(string \<Rightarrow> int option) \<Rightarrow> retention_dialog \<Rightarrow> int option" where
  "existingMs parseDate d =
     (case rdProps d of None \<Rightarrow> Some 0
      | Some x \<Rightarrow> if rtUntil x = [] then Some 0 else parseDate (rtUntil x))"

definition reducing :: "(string \<Rightarrow> int option) \<Rightarrow> int \<Rightarrow> retention_dialog \<Rightarrow> bool" where
  "reducing parseDate now d =
     (case (existingMs parseDate d, newDateMs now d) of
        (Some e, Some n) \<Rightarrow> 0 < e \<and> n < e | _ \<Rightarrow> False)"

definition saveRetentionEnabled :: "(string \<Rightarrow> int option) \<Rightarrow> int \<Rightarrow> retention_dialog \<Rightarrow> bool" where
  "saveRetentionEnabled parseDate now d \<longleftrightarrow>
     \<not> (rdSaving d \<or> reducing parseDate now d \<and> hasMode Compliance (rdProps d) \<or>
        reducing parseDate now d \<and> hasMode Governance (rdProps d) \<and> \<not> rdBypass d)"

text \<open>The update of a save; \<open>None\<close> when \<open>toISOString\<close> throws on an invalid date.\<close>

definition retentionUpdate ::
  "(int \<Rightarrow> string) \<Rightarrow> int \<Rightarrow> ObjectVersion \<Rightarrow> retention_dialog \<Rightarrow> RetentionUpdate option" where
  "retentionUpdate isoDate now v d =
     map_option (\<lambda>t. \<lparr>ruKey = ovKey v, ruVersionId = ovVersionId v,
       ruRetention = \<lparr>olMode = modeText (rdMode d), olRetainUntil = isoDate t\<rparr>,
       ruBypassGovernance = Some (rdBypass d \<and> hasMode Governance (rdProps d))\<rparr>) (newDateMs now d)"

datatype retention_event =
    RetentionArrives int "retention option"
  | OpenRetention int
  | CloseRetention
  | PickMode lock_mode
  | TypeDays string
  | TickBypass int bool
  | SaveRetention int
  | RetentionSaved
  | RetentionRefused

text \<open>
  Every event with the guard of its control; the time is the one of the last rendering, which computed
  both the guard and the date that is sent.
\<close>

fun retentionStep ::
  "(string \<Rightarrow> int option) \<Rightarrow> (int \<Rightarrow> string) \<Rightarrow> ObjectVersion \<Rightarrow> retention_event \<Rightarrow> retention_dialog
     \<Rightarrow> retention_dialog \<times> RetentionUpdate list" where
  "retentionStep pd fmt v (RetentionArrives now r) d =
     (if r = rdProps d then (d, []) else (seedRetention pd now (d\<lparr>rdProps := r\<rparr>), []))"
| "retentionStep pd fmt v (OpenRetention now) d =
     (if rdOpen d then (d, []) else (seedRetention pd now (d\<lparr>rdOpen := True\<rparr>), []))"
| "retentionStep pd fmt v CloseRetention d = (if rdSaving d then (d, []) else (d\<lparr>rdOpen := False\<rparr>, []))"
| "retentionStep pd fmt v (PickMode m) d =
     (if rdOpen d \<and> \<not> rdSaving d \<and> \<not> hasMode Compliance (rdProps d) then (d\<lparr>rdMode := m\<rparr>, []) else (d, []))"
| "retentionStep pd fmt v (TypeDays s) d =
     (if rdOpen d \<and> \<not> rdSaving d then (d\<lparr>rdDays := Some (typeDays s)\<rparr>, []) else (d, []))"
| "retentionStep pd fmt v (TickBypass now b) d =
     (if rdOpen d \<and> \<not> rdSaving d \<and> reducing pd now d \<and> hasMode Governance (rdProps d)
      then (d\<lparr>rdBypass := b\<rparr>, []) else (d, []))"
| "retentionStep pd fmt v (SaveRetention now) d =
     (if rdOpen d \<and> saveRetentionEnabled pd now d
      then (case retentionUpdate fmt now v d of None \<Rightarrow> (d, []) | Some u \<Rightarrow> (d\<lparr>rdSaving := True\<rparr>, [u]))
      else (d, []))"
| "retentionStep pd fmt v RetentionSaved d =
     (if rdSaving d then (d\<lparr>rdSaving := False, rdOpen := False, rdBypass := False\<rparr>, []) else (d, []))"
| "retentionStep pd fmt v RetentionRefused d = (d\<lparr>rdSaving := False\<rparr>, [])"

definition retentionAfter ::
  "(string \<Rightarrow> int option) \<Rightarrow> (int \<Rightarrow> string) \<Rightarrow> ObjectVersion \<Rightarrow> retention_event list \<Rightarrow> int \<Rightarrow>
     retention option \<Rightarrow> retention_dialog" where
  "retentionAfter pd fmt v es now r =
     foldl (\<lambda>d e. fst (retentionStep pd fmt v e d)) (mountRetention pd now r) es"

text \<open>What a successful save outdates, beyond the hook's own effect.\<close>

definition retentionSaved :: "string \<Rightarrow> string \<Rightarrow> ObjectVersion \<Rightarrow> effect list" where
  "retentionSaved regionId bucket v =
     [Invalidate (bucketKey (Some regionId) (Some bucket)
        [KS ''object-retention'', KS (ovKey v), KS (ovVersionId v)]),
      Invalidate (bucketKey (Some regionId) (Some bucket) [KS ''object-versions'', KS (ovKey v)])]"

section \<open>A retention is never shortened by accident\<close>

lemma retentionAfter_snoc:
  "retentionAfter pd fmt v (es @ [e]) now r = fst (retentionStep pd fmt v e (retentionAfter pd fmt v es now r))"
  by (simp add: retentionAfter_def)

text \<open>An open dialog on a version under compliance is in compliance mode.\<close>

lemma compliance_mode:
  "rdOpen (retentionAfter pd fmt v es now r) \<Longrightarrow>
   hasMode Compliance (rdProps (retentionAfter pd fmt v es now r)) \<Longrightarrow>
   rdMode (retentionAfter pd fmt v es now r) = Compliance"
proof (induction es rule: rev_induct)
  case Nil
  then show ?case by (simp add: retentionAfter_def mountRetention_def)
next
  case (snoc e es)
  then show ?case unfolding retentionAfter_snoc
    by (cases e) (auto simp: seedRetention_def initialMode_def hasMode_def split: if_splits option.splits)
qed

text \<open>The box is ticked for the form on screen: since the tick the dialog has stayed open on the same retention.\<close>

definition tickedFor :: "retention option \<Rightarrow> retention_dialog \<Rightarrow> bool" where
  "tickedFor r d \<longleftrightarrow> rdOpen d \<and> rdBypass d \<and> rdProps d = r"

lemma tick_only:
  assumes "tickedFor r (fst (retentionStep pd fmt v e d))" and "\<not> tickedFor r d"
  shows "\<exists>t. e = TickBypass t True \<and> reducing pd t d \<and> hasMode Governance (rdProps d)"
  using assms by (cases e) (auto simp: tickedFor_def seedRetention_def split: if_splits option.splits)

lemma ticked_since:
  assumes "d = retentionAfter pd fmt v es t0 r0" and "rdOpen d" and "rdBypass d"
  shows "\<exists>es1 t es2. es = es1 @ TickBypass t True # es2 \<and>
    reducing pd t (retentionAfter pd fmt v es1 t0 r0) \<and>
    (\<forall>n \<le> length es2. tickedFor (rdProps d) (retentionAfter pd fmt v (es1 @ TickBypass t True # take n es2) t0 r0))"
proof -
  let ?step = "\<lambda>d e. fst (retentionStep pd fmt v e d)" and ?P = "tickedFor (rdProps d)"
  have now: "?P (foldl ?step (mountRetention pd t0 r0) es)"
    using assms by (simp add: tickedFor_def retentionAfter_def)
  have "\<not> ?P (mountRetention pd t0 r0)" by (simp add: tickedFor_def mountRetention_def)
  from held_since [where P = ?P, OF now this] obtain es1 e es2 where
    es: "es = es1 @ e # es2" "\<not> ?P (retentionAfter pd fmt v es1 t0 r0)"
      "\<forall>n \<le> length es2. ?P (retentionAfter pd fmt v (es1 @ e # take n es2) t0 r0)"
    unfolding retentionAfter_def by blast
  have "?P (retentionAfter pd fmt v (es1 @ [e]) t0 r0)" using es(3) by force
  from tick_only [OF this [unfolded retentionAfter_snoc] es(2)] show ?thesis using es by blast
qed

text \<open>
  C14. Every retention that leaves the dialog is for the version of the row
  and names the date that was checked. On a version under compliance it stays in compliance mode and
  does not end before the retention that is there; under governance it ends earlier only together
  with the bypass, and the bypass is never asked for otherwise than under governance, and only when the operator
  ticked its box against a reduction on screen and the dialog has since stayed open on that retention, the box ticked.
\<close>

theorem retention_reduction_needs_bypass:
  assumes "d = retentionAfter pd fmt v es t0 r0" and "u \<in> set (snd (retentionStep pd fmt v e d))"
  shows "\<exists>now n. e = SaveRetention now \<and> newDateMs now d = Some n \<and>
    ruKey u = ovKey v \<and> ruVersionId u = ovVersionId v \<and> olRetainUntil (ruRetention u) = fmt n \<and>
    (hasMode Compliance (rdProps d) \<longrightarrow> olMode (ruRetention u) = ''COMPLIANCE'' \<and>
       (\<forall>old. existingMs pd d = Some old \<and> 0 < old \<longrightarrow> old \<le> n)) \<and>
    (hasMode Governance (rdProps d) \<longrightarrow>
       (\<forall>old. existingMs pd d = Some old \<and> 0 < old \<and> n < old \<longrightarrow> ruBypassGovernance u = Some True)) \<and>
    (ruBypassGovernance u = Some True \<longrightarrow> hasMode Governance (rdProps d) \<and>
       (\<exists>es1 t es2. es = es1 @ TickBypass t True # es2 \<and>
          reducing pd t (retentionAfter pd fmt v es1 t0 r0) \<and>
          (\<forall>k \<le> length es2. tickedFor (rdProps d)
             (retentionAfter pd fmt v (es1 @ TickBypass t True # take k es2) t0 r0))))"
proof -
  obtain now where e: "e = SaveRetention now" "rdOpen d" "saveRetentionEnabled pd now d"
      "retentionUpdate fmt now v d = Some u"
    using assms(2) by (cases e) (auto split: if_splits option.splits)
  then obtain n where n: "newDateMs now d = Some n"
    by (auto simp: retentionUpdate_def)
  have "hasMode Compliance (rdProps d) \<Longrightarrow> rdMode d = Compliance"
    using compliance_mode [of pd fmt v es t0 r0] e(2) assms(1) by blast
  moreover have u: "u = \<lparr>ruKey = ovKey v, ruVersionId = ovVersionId v,
      ruRetention = \<lparr>olMode = modeText (rdMode d), olRetainUntil = fmt n\<rparr>,
      ruBypassGovernance = Some (rdBypass d \<and> hasMode Governance (rdProps d))\<rparr>"
    using e(4) n by (simp add: retentionUpdate_def)
  moreover have "\<not> (hasMode Compliance (rdProps d) \<and> existingMs pd d = Some old \<and> 0 < old \<and> n < old)" for old
    using e(3) n by (auto simp: saveRetentionEnabled_def reducing_def)
  moreover have "rdBypass d" if "hasMode Governance (rdProps d)" "existingMs pd d = Some old" "0 < old" "n < old" for old
    using that e(3) n by (simp add: saveRetentionEnabled_def reducing_def)
  ultimately have main: "ruKey u = ovKey v \<and> ruVersionId u = ovVersionId v \<and> olRetainUntil (ruRetention u) = fmt n \<and>
    (hasMode Compliance (rdProps d) \<longrightarrow> olMode (ruRetention u) = ''COMPLIANCE'' \<and>
       (\<forall>old. existingMs pd d = Some old \<and> 0 < old \<longrightarrow> old \<le> n)) \<and>
    (hasMode Governance (rdProps d) \<longrightarrow>
       (\<forall>old. existingMs pd d = Some old \<and> 0 < old \<and> n < old \<longrightarrow> ruBypassGovernance u = Some True))"
    by (auto simp: not_less [symmetric])
  have "ruBypassGovernance u = Some True \<longrightarrow> rdBypass d \<and> hasMode Governance (rdProps d)"
    unfolding u by simp
  then show ?thesis using e(1) n main ticked_since [OF assms(1) e(2)] by blast
qed

definition heldVersion :: ObjectVersion where
  "heldVersion = \<lparr>ovKey = ''a'', ovVersionId = ''v1'', ovIsLatest = True, ovIsDeleteMarker = False,
     ovLastModified = None, ovSize = 1\<rparr>"

definition governed :: retention where
  "governed = \<lparr>rtMode = Governance, rtUntil = decInt 864000000\<rparr>"

text \<open>Ten days of governance, shortened to two with the bypass ticked.\<close>

definition shortening :: "retention_event list" where
  "shortening = [OpenRetention 0, TypeDays ''2'', TickBypass 0 True]"

lemma governed_date: "parseInt (decInt 864000000) = Some 864000000" "decInt 864000000 \<noteq> []"
proof -
  show "parseInt (decInt 864000000) = Some 864000000" by (rule parseInt_decInt) simp
  show "decInt 864000000 \<noteq> []" using digits_dec [of 864000000] by (simp add: decInt_def)
qed

lemma shortening_state:
  "retentionAfter parseInt decInt heldVersion shortening 0 (Some governed) =
     \<lparr>rdProps = Some governed, rdOpen = True, rdMode = Governance, rdDays = Some 2, rdBypass = True,
      rdSaving = False\<rparr>"
proof -
  have t: "typeDays ''2'' = 2" by code_simp
  show ?thesis using governed_date
    by (simp add: shortening_def retentionAfter_def mountRetention_def governed_def t seedRetention_def
        existingMs_def newDateMs_def reducing_def hasMode_def DAY_def initialMode_def)
qed

theorem retention_reduction_needs_bypass_witness:
  "\<exists>u. u \<in> set (snd (retentionStep parseInt decInt heldVersion (SaveRetention 0)
      (retentionAfter parseInt decInt heldVersion shortening 0 (Some governed)))) \<and>
    ruBypassGovernance u = Some True"
proof -
  let ?d = "retentionAfter parseInt decInt heldVersion shortening 0 (Some governed)"
  have g: "hasMode Governance (rdProps ?d)" "\<not> hasMode Compliance (rdProps ?d)"
    "existingMs parseInt ?d = Some 864000000" "newDateMs 0 ?d = Some (2 * DAY)"
    using governed_date unfolding shortening_state
    by (simp_all add: governed_def hasMode_def existingMs_def newDateMs_def)
  then obtain u where u: "u \<in> set (snd (retentionStep parseInt decInt heldVersion (SaveRetention 0) ?d))"
    by (simp add: shortening_state saveRetentionEnabled_def retentionUpdate_def)
  from retention_reduction_needs_bypass [OF refl u] g have "ruBypassGovernance u = Some True"
    by (auto simp: DAY_def)
  then show ?thesis using u by blast
qed

section \<open>Deleting a version\<close>

text \<open>The panel over a trace, with everything it has sent.\<close>

fun panelRun ::
  "(ObjectVersion \<Rightarrow> bool) \<Rightarrow> panel_event list \<Rightarrow> versions_panel \<Rightarrow> versions_panel \<times> (string \<times> string) list" where
  "panelRun blocked [] p = (p, [])"
| "panelRun blocked (e # es) p =
     (case panelStep blocked e p of (p1, s1) \<Rightarrow> (case panelRun blocked es p1 of (p2, s2) \<Rightarrow> (p2, s1 @ s2)))"

definition confirms :: "panel_event list \<Rightarrow> nat" where
  "confirms es = length (filter (\<lambda>e. e = ConfirmVersion) es)"

definition askedFor :: "(ObjectVersion \<Rightarrow> bool) \<Rightarrow> panel_event list \<Rightarrow> (string \<times> string) set" where
  "askedFor blocked es = {(ovKey v, ovVersionId v) | v. AskDelete v \<in> set es \<and> \<not> blocked v}"

definition confirmedIn :: "versions_panel \<Rightarrow> (string \<times> string) set" where
  "confirmedIn p = (case vpConfirm p of None \<Rightarrow> {} | Some v \<Rightarrow> {(ovKey v, ovVersionId v)})"

lemma panelStep_targets:
  "confirmedIn (fst (panelStep blocked e p)) \<subseteq> confirmedIn p \<union> askedFor blocked [e] \<and>
   set (snd (panelStep blocked e p)) \<subseteq> confirmedIn p \<and>
   length (snd (panelStep blocked e p)) \<le> confirms [e]"
  by (cases e) (auto simp: confirmedIn_def askedFor_def confirms_def split: option.splits)

lemma panelRun_targets:
  "set (snd (panelRun blocked es p)) \<subseteq> confirmedIn p \<union> askedFor blocked es \<and>
   length (snd (panelRun blocked es p)) \<le> confirms es"
proof (induction es arbitrary: p)
  case (Cons e es)
  have "askedFor blocked (e # es) = askedFor blocked [e] \<union> askedFor blocked es"
    by (auto simp: askedFor_def)
  moreover have "confirms (e # es) = confirms [e] + confirms es" by (simp add: confirms_def)
  ultimately show ?case
    using panelStep_targets [of blocked e p] Cons.IH [of "fst (panelStep blocked e p)"]
    by (auto simp: case_prod_beta)
qed simp

text \<open>
  A version is deleted only after its unprotected row asked for it and the dialog was
  confirmed, one request for each confirmation at most; the request names that version, and its
  success outdates both the version list of the object and the listing of the bucket.
\<close>

theorem version_delete_confirmed:
  assumes "target \<in> set (snd (panelRun blocked es freshPanelState))"
  shows "(\<exists>v. AskDelete v \<in> set es \<and> \<not> blocked v \<and> target = (ovKey v, ovVersionId v)) \<and>
    length (snd (panelRun blocked es freshPanelState)) \<le> confirms es \<and>
    covers (versionDeleted r k (fst target)) (queryKey (useObjectVersions (Some r) (Some k) (Some (fst target)) True)) \<and>
    covers (versionDeleted r k (fst target)) (iqKey (useUserRegionObjectsInfinite (Some r) (Some k) pre))"
proof -
  have "confirmedIn freshPanelState = {}" by (simp add: confirmedIn_def freshPanelState_def)
  then show ?thesis using panelRun_targets [of blocked es freshPanelState] assms
    by (auto simp: askedFor_def versionDeleted_def hook_defs)
qed

theorem version_delete_confirmed_witness:
  "length (snd (panelRun (\<lambda>_. False) [AskDelete heldVersion, ConfirmVersion, ConfirmVersion, DeleteSettled True]
     freshPanelState)) \<le> 2"
proof -
  let ?es = "[AskDelete heldVersion, ConfirmVersion, ConfirmVersion, DeleteSettled True]"
  have "(''a'', ''v1'') \<in> set (snd (panelRun (\<lambda>_. False) ?es freshPanelState))"
    by (simp add: freshPanelState_def heldVersion_def)
  from version_delete_confirmed [OF this]
  have "length (snd (panelRun (\<lambda>_. False) ?es freshPanelState)) \<le> confirms ?es" by blast
  moreover have "confirms ?es = 2" by (simp add: confirms_def)
  ultimately show ?thesis by (simp only:)
qed

section \<open>Where the panel surprises\<close>

text \<open>The bypass box of the delete dialog changes nothing that is sent.\<close>

theorem bypass_toggle_does_nothing:
  "snd (panelStep blocked ConfirmVersion (fst (panelStep blocked (ToggleBypass b) p))) =
   snd (panelStep blocked ConfirmVersion p)"
  by (cases "vpConfirm p") auto

text \<open>
  An expired compliance retention does not block a delete, but when a legal hold does, the row blames
  the compliance retention.
\<close>

theorem expired_compliance_blamed:
  "parseDate until = Some t \<Longrightarrow> t \<le> now \<Longrightarrow>
   deleteTitle parseDate now (Some \<lparr>rtMode = Compliance, rtUntil = until\<rparr>) True =
     ''Cannot delete: compliance retention is active.''"
  by (simp add: deleteTitle_def deleteBlocked_def hasMode_def)

text \<open>
  The days of the form are rounded to the nearest day, so a retention with a little less than a half day
  beyond a whole number of days counts as reduced as soon as its dialog opens: under compliance nothing
  can be saved, and the message says the date must not be earlier.
\<close>

theorem unchanged_retention_counts_as_reduction:
  assumes "r = \<lparr>rtMode = Compliance, rtUntil = until\<rparr>" and "until \<noteq> []"
    and "parseDate until = Some (now + n * DAY + \<delta>)" and "1 \<le> n" and "0 < \<delta>" and "2 * \<delta> < DAY" and "0 \<le> now"
    and "d = fst (retentionStep parseDate fmt v (OpenRetention now) (mountRetention parseDate now (Some r)))"
  shows "rdDays d = Some n \<and> \<not> saveRetentionEnabled parseDate now d"
proof -
  have "2 * (n * DAY + \<delta>) + DAY = n * (2 * DAY) + (2 * \<delta> + DAY)" by (simp add: algebra_simps)
  moreover have "(2 * \<delta> + DAY) div (2 * DAY) = 0" using assms(5,6) by (auto simp: DAY_def)
  moreover have "DAY \<noteq> 0" by (simp add: DAY_def)
  ultimately have "roundDays (n * DAY + \<delta>) = n"
    unfolding roundDays_def by (metis add_0 add.commute div_mult_self1 mult_eq_0_iff zero_neq_numeral)
  then have days: "seedDays parseDate now until = Some n" using assms(3,4) by (simp add: seedDays_def)
  have "0 < now + n * DAY + \<delta>" using assms(4,5,7) by (simp add: DAY_def)
  then show ?thesis using assms(1-3,5,8) days
    by (simp add: mountRetention_def seedRetention_def initialDays_def saveRetentionEnabled_def reducing_def
        existingMs_def newDateMs_def hasMode_def)
qed

text \<open>
  A bypass that was ticked for a reduction stays ticked when the days are raised again: the box has
  disappeared, and the save still asks to bypass governance.
\<close>

theorem hidden_bypass_still_sent:
  "\<exists>u. snd (retentionStep parseInt decInt heldVersion (SaveRetention 0)
      (retentionAfter parseInt decInt heldVersion (shortening @ [TypeDays ''20'']) 0 (Some governed))) = [u] \<and>
    ruBypassGovernance u = Some True \<and>
    \<not> reducing parseInt 0 (retentionAfter parseInt decInt heldVersion (shortening @ [TypeDays ''20'']) 0 (Some governed))"
proof -
  have t: "typeDays ''20'' = 20" by code_simp
  show ?thesis unfolding retentionAfter_snoc shortening_state using governed_date
    by (simp add: t saveRetentionEnabled_def reducing_def existingMs_def newDateMs_def hasMode_def governed_def
        DAY_def retentionUpdate_def)
qed

end
