(* ===== verification/Object_Browser.thy ===== *)
theory Object_Browser
  imports Region_Hooks "HOL-Library.List_Lexorder"
begin

text \<open>
  The object browser (\<open>routes/files/$regionId/b/$bid.tsx\<close>): the rows it makes of the pages of a
  listing, the selection with its batch delete, the versions panel, the breadcrumb and the names on
  screen.

  The page is a state machine. Its inputs are the route parameters and the pages of the
  listing query; its outputs are the delete requests of a batch and the refetch of the listing. A
  batch runs while the operator goes on: its keys, region and bucket are fixed when it starts, its
  answers come back together (\<open>Promise.allSettled\<close>). Markup and the virtualiser are not modelled.
\<close>

section \<open>What the page reads\<close>

fun arrOf :: "json \<Rightarrow> json list" where
  "arrOf (JArr xs) = xs"
| "arrOf _ = []"

definition validateSearch :: "json \<Rightarrow> string" where
  "validateSearch search = (case getProp search ''prefix'' of JStr p \<Rightarrow> p | _ \<Rightarrow> [])"

definition bucketOf :: "json \<Rightarrow> string \<Rightarrow> json" where
  "bucketOf bucketsData bid =
     (case List.find (\<lambda>b. getProp b ''id'' = JStr bid) (arrOf (getProp bucketsData ''buckets'')) of
        None \<Rightarrow> JUndef | Some b \<Rightarrow> b)"

definition bucketAlias :: "json \<Rightarrow> string \<Rightarrow> string" where
  "bucketAlias bucket bid =
     (case arrOf (getProp bucket ''aliases'') of
        [] \<Rightarrow> bid | a # _ \<Rightarrow> if truthy a then toStr a else bid)"

definition versioningActive :: "json \<Rightarrow> bool" where
  "versioningActive st \<longleftrightarrow> truthy (getProp st ''supported'') \<and>
     (getProp st ''status'' = JStr ''enabled'' \<or> getProp st ''status'' = JStr ''suspended'')"

section \<open>The rows\<close>

text \<open>
  The default order of \<open>sort()\<close>: by UTF-16 code units. A byte string is decoded to them; four-byte
  sequences become surrogate pairs.
\<close>

definition bits6 :: "char \<Rightarrow> nat" where
  "bits6 c = of_char c mod 64"

fun utf16 :: "string \<Rightarrow> nat list" where
  "utf16 [] = []"
| "utf16 (c # cs) =
     (let n = (of_char c :: nat) in
      if n < 192 then n # utf16 cs
      else (case cs of
          [] \<Rightarrow> [n]
        | c1 # cs1 \<Rightarrow>
            if n < 224 then ((n mod 32) * 64 + bits6 c1) # utf16 cs1
            else (case cs1 of
                [] \<Rightarrow> n # utf16 [c1]
              | c2 # cs2 \<Rightarrow>
                  if n < 240 then ((n mod 16) * 4096 + bits6 c1 * 64 + bits6 c2) # utf16 cs2
                  else (case cs2 of
                      [] \<Rightarrow> n # utf16 [c1, c2]
                    | c3 # cs3 \<Rightarrow>
                        (let p = (n mod 8) * 262144 + bits6 c1 * 4096 + bits6 c2 * 64 + bits6 c3 - 65536
                         in (55296 + p div 1024) # (56320 + p mod 1024) # utf16 cs3)))))"

datatype VirtualRow = FolderRow string | FileRow string json | LoadMoreSentinel

definition pageFolders :: "json \<Rightarrow> string list" where
  "pageFolders pg = map toStr (arrOf (getProp pg ''commonPrefixes''))"

definition pageObjects :: "json \<Rightarrow> json list" where
  "pageObjects pg = arrOf (getProp pg ''objects'')"

definition objectKey :: "json \<Rightarrow> string" where
  "objectKey obj = toStr (getProp obj ''key'')"

definition listRows :: "json list \<Rightarrow> bool \<Rightarrow> VirtualRow list" where
  "listRows pageList hasNextPage =
     (case pageList of
        [] \<Rightarrow> []
      | fp # _ \<Rightarrow>
          map FolderRow (sort_key utf16 (pageFolders fp)) @
          concat (map (\<lambda>pg. map (\<lambda>obj. FileRow (objectKey obj) obj) (pageObjects pg)) pageList) @
          (if hasNextPage then [LoadMoreSentinel] else []))"

fun rowFileKey :: "VirtualRow \<Rightarrow> string list" where
  "rowFileKey (FileRow k obj) = [k]"
| "rowFileKey _ = []"

definition visibleFileKeys :: "VirtualRow list \<Rightarrow> string list" where
  "visibleFileKeys rows = concat (map rowFileKey rows)"

text \<open>The state of the page and of its list.\<close>

datatype page_view = PageSkeleton | BucketNotFound | BucketPage

definition pageView :: "bool \<Rightarrow> json \<Rightarrow> page_view" where
  "pageView bucketsLoading bucket =
     (if bucketsLoading then PageSkeleton
      else if \<not> truthy bucket then BucketNotFound else BucketPage)"

datatype list_view = ListSkeleton | ListError | ListEmpty | ListRows

definition listView :: "bool \<Rightarrow> bool \<Rightarrow> json list \<Rightarrow> bool \<Rightarrow> list_view" where
  "listView objectsLoading objectsError pages hasNextPage =
     (let hasFolders = (case pages of [] \<Rightarrow> False | p # _ \<Rightarrow> pageFolders p \<noteq> []);
          hasFiles = visibleFileKeys (listRows pages hasNextPage) \<noteq> []
      in if objectsLoading then ListSkeleton
         else if objectsError then ListError
         else if \<not> objectsLoading \<and> \<not> objectsError \<and> \<not> hasFolders \<and> \<not> hasFiles then ListEmpty
         else ListRows)"

text \<open>
  Infinite scrolling: the effect of the list on the indices of the virtual items, and the guard of
  its \<open>onReachEnd\<close>.
\<close>

definition fetchesNextPage :: "nat list \<Rightarrow> nat \<Rightarrow> bool \<Rightarrow> bool \<Rightarrow> bool" where
  "fetchesNextPage items rowCount isFetchingNextPage hasNextPage \<longleftrightarrow>
     items \<noteq> [] \<and> rowCount \<le> last items + 1 \<and> \<not> isFetchingNextPage \<and> hasNextPage"

section \<open>The page as a state machine\<close>

record browser =
  brRegion :: string
  brBucket :: string
  brPrefix :: string
  brPages :: "json list"
  brHasNext :: bool
  brSelected :: "string list"
  brErrors :: "string \<rightharpoonup> string"
  brConfirm :: bool
  brDeleting :: bool
  brSummary :: "nat option"
  brVersions :: "string option"
  brShowAll :: bool
  brUpload :: bool
  brBatch :: "(string \<times> string \<times> string list) option"

definition freshBrowser :: "string \<Rightarrow> string \<Rightarrow> string \<Rightarrow> browser" where
  "freshBrowser r b p = \<lparr>brRegion = r, brBucket = b, brPrefix = p, brPages = [], brHasNext = False,
     brSelected = [], brErrors = Map.empty, brConfirm = False, brDeleting = False, brSummary = None,
     brVersions = None, brShowAll = False, brUpload = False, brBatch = None\<rparr>"

definition browserRows :: "browser \<Rightarrow> VirtualRow list" where
  "browserRows s = listRows (brPages s) (brHasNext s)"

definition fileKeys :: "browser \<Rightarrow> string list" where
  "fileKeys s = visibleFileKeys (browserRows s)"

text \<open>A JavaScript set keeps its insertion order.\<close>

definition setAdd :: "string \<Rightarrow> string list \<Rightarrow> string list" where
  "setAdd k xs = (if k \<in> set xs then xs else xs @ [k])"

definition toggleSelected :: "string \<Rightarrow> browser \<Rightarrow> browser" where
  "toggleSelected key s = s\<lparr>
     brSelected := (if key \<in> set (brSelected s) then remove1 key (brSelected s)
                    else brSelected s @ [key]),
     brErrors := (brErrors s)(key := None)\<rparr>"

definition allVisibleSelected :: "browser \<Rightarrow> bool" where
  "allVisibleSelected s \<longleftrightarrow> fileKeys s \<noteq> [] \<and> list_all (\<lambda>k. k \<in> set (brSelected s)) (fileKeys s)"

definition someVisibleSelected :: "browser \<Rightarrow> bool" where
  "someVisibleSelected s \<longleftrightarrow>
     \<not> allVisibleSelected s \<and> list_ex (\<lambda>k. k \<in> set (brSelected s)) (fileKeys s)"

definition toggleSelectAllVisible :: "browser \<Rightarrow> browser" where
  "toggleSelectAllVisible s = s\<lparr>brSelected :=
     (if allVisibleSelected s then foldl (\<lambda>xs k. remove1 k xs) (brSelected s) (fileKeys s)
      else foldl (\<lambda>xs k. setAdd k xs) (brSelected s) (fileKeys s))\<rparr>"

definition clearSelection :: "browser \<Rightarrow> browser" where
  "clearSelection s = s\<lparr>brSelected := [], brErrors := Map.empty, brSummary := None\<rparr>"

text \<open>The two effects on the route parameters.\<close>

definition folderEffects :: "browser \<Rightarrow> browser" where
  "folderEffects s = (clearSelection s)\<lparr>brVersions := None\<rparr>"

section \<open>The batch delete\<close>

definition deleteReq :: "string \<Rightarrow> string \<Rightarrow> string \<Rightarrow> fetch_req" where
  "deleteReq regionId bid key = (bareReq ''DELETE'' [])\<lparr>rqUrl := Abs (''/api/v1/user/regions/'' @
     enc regionId @ ''/buckets/'' @ enc bid @ ''/objects/'' @ enc key)\<rparr>"

text \<open>The reason of one rejected delete; \<open>None\<close> when it was fulfilled.\<close>

definition refusalText :: "fetch_res \<Rightarrow> string" where
  "refusalText res =
     (case jsonOrNull res of
        JObj fs \<Rightarrow> (case map_of fs ''message'' of
            Some (JStr m) \<Rightarrow> m | _ \<Rightarrow> ''HTTP '' @ dec (rsStatus res))
      | _ \<Rightarrow> ''HTTP '' @ dec (rsStatus res))"

definition deleteFailure :: "fetch_res option \<Rightarrow> string option" where
  "deleteFailure answer =
     (case answer of
        None \<Rightarrow> Some (messageOf NetworkError)
      | Some res \<Rightarrow> if httpOk (rsStatus res) then None else Some (refusalText res))"

definition confirmBatch :: "browser \<Rightarrow> browser \<times> fetch_req list" where
  "confirmBatch s =
     (if brSelected s = [] then (s\<lparr>brConfirm := False\<rparr>, [])
      else (s\<lparr>brDeleting := True, brErrors := Map.empty, brSummary := None,
              brBatch := Some (brRegion s, brBucket s, brSelected s)\<rparr>,
            map (deleteReq (brRegion s) (brBucket s)) (brSelected s)))"

definition batchErrors :: "string list \<Rightarrow> fetch_res option list \<Rightarrow> (string \<times> string) list" where
  "batchErrors keys answers =
     concat (map (\<lambda>(key, a). case deleteFailure a of None \<Rightarrow> [] | Some m \<Rightarrow> [(key, m)])
       (zip keys answers))"

definition batchSucceeded :: "string list \<Rightarrow> fetch_res option list \<Rightarrow> string list" where
  "batchSucceeded keys answers =
     map fst (filter (\<lambda>(key, a). deleteFailure a = None) (zip keys answers))"

definition settleBatch ::
  "string list \<Rightarrow> fetch_res option list \<Rightarrow> browser \<Rightarrow> browser \<times> bool" where
  "settleBatch keys answers s =
     (s\<lparr>brErrors := map_of (rev (batchErrors keys answers)),
        brSelected := foldl (\<lambda>xs k. remove1 k xs) (brSelected s) (batchSucceeded keys answers),
        brDeleting := False, brConfirm := False,
        brSummary := Some (length (batchErrors keys answers)), brBatch := None\<rparr>,
      batchSucceeded keys answers \<noteq> [])"

section \<open>The events\<close>

datatype browser_event =
    OpenFolder string string string
  | PagesArrive "json list" bool
  | ToggleRow string
  | ToggleAll
  | PressDelete
  | PressCancel
  | CloseConfirm
  | ConfirmDelete
  | BatchAnswered "fetch_res option list"
  | VersionsClick string
  | CloseVersions
  | ShowAllVersions bool
  | OpenUpload bool
  | UploadSucceeded

text \<open>
  What leaves the page: a delete request, or a refetch by the query observer of the page, which is of
  the folder that is open at that moment.
\<close>

datatype browser_out = SendDelete fetch_req | Refetch string string string

definition refetchOpen :: "browser \<Rightarrow> browser_out" where
  "refetchOpen s = Refetch (brRegion s) (brBucket s) (brPrefix s)"

text \<open>
  Every event with the guard of its control: only file rows have a checkbox, the action bar shows
  with a selection, nothing of it is enabled while a batch runs.
\<close>

fun browserStep :: "browser_event \<Rightarrow> browser \<Rightarrow> browser \<times> browser_out list" where
  "browserStep (OpenFolder r b p) s =
     (if (r, b, p) = (brRegion s, brBucket s, brPrefix s) then (s, [])
      else (folderEffects (s\<lparr>brRegion := r, brBucket := b, brPrefix := p, brPages := [],
              brHasNext := False\<rparr>), []))"
| "browserStep (PagesArrive pages hasNext) s = (s\<lparr>brPages := pages, brHasNext := hasNext\<rparr>, [])"
| "browserStep (ToggleRow key) s = (if key \<in> set (fileKeys s) then toggleSelected key s else s, [])"
| "browserStep ToggleAll s = (if fileKeys s \<noteq> [] then toggleSelectAllVisible s else s, [])"
| "browserStep PressDelete s =
     (if brSelected s \<noteq> [] \<and> \<not> brDeleting s then s\<lparr>brConfirm := True\<rparr> else s, [])"
| "browserStep PressCancel s =
     (if brSelected s \<noteq> [] \<and> \<not> brDeleting s then clearSelection s else s, [])"
| "browserStep CloseConfirm s = (if \<not> brDeleting s then s\<lparr>brConfirm := False\<rparr> else s, [])"
| "browserStep ConfirmDelete s =
     (if brConfirm s \<and> \<not> brDeleting s
      then (fst (confirmBatch s), map SendDelete (snd (confirmBatch s))) else (s, []))"
| "browserStep (BatchAnswered answers) s =
     (case brBatch s of
        None \<Rightarrow> (s, [])
      | Some (r, b, keys) \<Rightarrow>
          if length answers \<noteq> length keys then (s, [])
          else (case settleBatch keys answers s of
              (s', refetch) \<Rightarrow> (s', if refetch then [refetchOpen s'] else [])))"
| "browserStep (VersionsClick key) s =
     (if key \<in> set (fileKeys s) then s\<lparr>brVersions := Some key\<rparr> else s, [])"
| "browserStep CloseVersions s = (s\<lparr>brVersions := None\<rparr>, [])"
| "browserStep (ShowAllVersions b) s = (s\<lparr>brShowAll := b\<rparr>, [])"
| "browserStep (OpenUpload b) s = (s\<lparr>brUpload := b\<rparr>, [])"
| "browserStep UploadSucceeded s = (s\<lparr>brUpload := False\<rparr>, [refetchOpen s])"

definition browserAfter :: "browser_event list \<Rightarrow> browser \<Rightarrow> browser" where
  "browserAfter es s = foldl (\<lambda>s e. fst (browserStep e s)) s es"

section \<open>Names and paths\<close>

definition stripSlash :: "string \<Rightarrow> string" where
  "stripSlash s = (if suffix ''/'' s then butlast s else s)"

definition lastSegment :: "string \<Rightarrow> string" where
  "lastSegment s = (let w = last (splitOn CHR ''/'' s) in if w = [] then s else w)"

definition folderName :: "string \<Rightarrow> string" where
  "folderName pre = lastSegment (stripSlash pre)"

definition fileName :: "string \<Rightarrow> string" where
  "fileName key = lastSegment key"

definition crumbParts :: "string \<Rightarrow> string list" where
  "crumbParts pre = filter (\<lambda>w. w \<noteq> []) (splitOn CHR ''/'' pre)"

definition parentPrefix :: "string \<Rightarrow> string" where
  "parentPrefix pre =
     (if 1 < length (crumbParts pre)
      then joinWith ''/'' (butlast (crumbParts pre)) @ ''/'' else [])"

text \<open>The crumbs: the name and the prefix it leads to.\<close>

definition crumbs :: "string \<Rightarrow> (string \<times> string) list" where
  "crumbs pre = map (\<lambda>i. (crumbParts pre ! i, joinWith ''/'' (take (Suc i) (crumbParts pre)) @ ''/''))
     [0..<length (crumbParts pre)]"

text \<open>The counts of the federation badge; a replica without a health value counts as in sync.\<close>

definition inSyncCount :: "json \<Rightarrow> nat" where
  "inSyncCount federation = length (filter
     (\<lambda>rep. orElse (getProp rep ''health'') (JStr ''in-sync'') = JStr ''in-sync'')
     (arrOf (getProp federation ''replicas'')))"

definition downloadObject :: "string \<Rightarrow> string \<Rightarrow> string \<Rightarrow> json js" where
  "downloadObject regionId bid key =
     bindJs (mutationFn (useUserRegionPresignGet (Some regionId) (Some bid)) (key, Some 3600))
       (\<lambda>p. Ret (getProp p ''url''))"

section \<open>Selection only ever holds what was listed\<close>

text \<open>The key stood in a listing that arrived for the folder that is still open.\<close>

definition listedHere :: "browser_event list \<Rightarrow> browser \<Rightarrow> string \<Rightarrow> bool" where
  "listedHere es s k \<longleftrightarrow> (\<exists>es1 ps n es2. es = es1 @ PagesArrive ps n # es2 \<and>
     k \<in> set (visibleFileKeys (listRows ps n)) \<and>
     (\<forall>r b p. OpenFolder r b p \<in> set es2 \<longrightarrow> (r, b, p) = (brRegion s, brBucket s, brPrefix s)))"

definition leavesFolder :: "browser_event \<Rightarrow> browser \<Rightarrow> bool" where
  "leavesFolder e s = (case e of OpenFolder r b p \<Rightarrow> (r, b, p) \<noteq> (brRegion s, brBucket s, brPrefix s) | _ \<Rightarrow> False)"

lemma browserAfter_snoc [simp]:
  "browserAfter (es @ [e]) s = fst (browserStep e (browserAfter es s))"
  by (simp add: browserAfter_def)

lemma after_nil [simp]: "browserAfter [] s = s"
  by (simp add: browserAfter_def)

lemma foldl_setAdd_set: "set (foldl (\<lambda>xs k. setAdd k xs) xs ks) = set xs \<union> set ks"
  by (induction ks arbitrary: xs) (auto simp: setAdd_def)

lemma foldl_setAdd_distinct: "distinct xs \<Longrightarrow> distinct (foldl (\<lambda>xs k. setAdd k xs) xs ks)"
  by (induction ks arbitrary: xs) (auto simp: setAdd_def)

lemma foldl_remove_distinct: "distinct xs \<Longrightarrow> distinct (foldl (\<lambda>xs k. remove1 k xs) xs ks)"
  by (induction ks arbitrary: xs) auto

lemma foldl_remove_set: "distinct xs \<Longrightarrow> set (foldl (\<lambda>xs k. remove1 k xs) xs ks) = set xs - set ks"
  by (induction ks arbitrary: xs) auto

lemmas selection_folds = foldl_setAdd_set foldl_setAdd_distinct foldl_remove_distinct foldl_remove_set

lemmas browser_ops = toggleSelected_def toggleSelectAllVisible_def clearSelection_def folderEffects_def
  confirmBatch_def settleBatch_def refetchOpen_def

text \<open>One step: the folder, the listing and the selection.\<close>

lemma fileKeys_cong:
  "brPages s = brPages t \<Longrightarrow> brHasNext s = brHasNext t \<Longrightarrow> fileKeys s = fileKeys t"
  by (simp add: fileKeys_def browserRows_def)

lemma step_listing:
  "\<not> leavesFolder e s \<Longrightarrow> (\<forall>ps n. e \<noteq> PagesArrive ps n) \<Longrightarrow>
   fileKeys (fst (browserStep e s)) = fileKeys s"
  by (cases e; intro fileKeys_cong) (auto simp: browser_ops leavesFolder_def split: option.splits prod.splits)

lemma step_folder:
  "\<not> leavesFolder e s \<Longrightarrow> brRegion (fst (browserStep e s)) = brRegion s \<and>
     brBucket (fst (browserStep e s)) = brBucket s \<and> brPrefix (fst (browserStep e s)) = brPrefix s"
  by (cases e) (auto simp: browser_ops leavesFolder_def split: option.splits prod.splits)

lemma step_selection:
  assumes "distinct (brSelected s)"
  shows "distinct (brSelected (fst (browserStep e s))) \<and>
    set (brSelected (fst (browserStep e s))) \<subseteq>
      (if leavesFolder e s then {} else set (brSelected s) \<union> set (fileKeys s))"
  using assms
  by (cases e)
     (auto simp: browser_ops leavesFolder_def selection_folds split: option.splits prod.splits if_splits)

text \<open>The pages of a moved browser are gone.\<close>

lemma step_moved: "leavesFolder e s \<Longrightarrow> fileKeys (fst (browserStep e s)) = []"
  by (cases e) (auto simp: leavesFolder_def browser_ops fileKeys_def browserRows_def listRows_def visibleFileKeys_def)

lemma listedHere_step:
  assumes "listedHere es s k" and "\<not> leavesFolder e s"
  shows "listedHere (es @ [e]) (fst (browserStep e s)) k"
proof -
  obtain es1 ps n es2 where h: "es = es1 @ PagesArrive ps n # es2"
    "k \<in> set (visibleFileKeys (listRows ps n))"
    "\<forall>r b p. OpenFolder r b p \<in> set es2 \<longrightarrow> (r, b, p) = (brRegion s, brBucket s, brPrefix s)"
    using assms(1) unfolding listedHere_def by blast
  have "\<forall>r b p. OpenFolder r b p \<in> set (es2 @ [e]) \<longrightarrow>
      (r, b, p) = (brRegion s, brBucket s, brPrefix s)"
    using h(3) assms(2) by (auto simp: leavesFolder_def)
  with h(1,2) step_folder [OF assms(2)] show ?thesis unfolding listedHere_def
    by (intro exI [of _ es1] exI [of _ ps] exI [of _ n] exI [of _ "es2 @ [e]"]) simp
qed

lemma listedHere_arrived:
  "k \<in> set (visibleFileKeys (listRows ps n)) \<Longrightarrow> listedHere (es @ [PagesArrive ps n]) s k"
  unfolding listedHere_def by (intro exI [of _ es] exI [of _ ps] exI [of _ n] exI [of _ "[]"]) simp

lemma browser_listed:
  "distinct (brSelected (browserAfter es (freshBrowser r b p))) \<and>
   (\<forall>k \<in> set (fileKeys (browserAfter es (freshBrowser r b p))) \<union>
       set (brSelected (browserAfter es (freshBrowser r b p))).
     listedHere es (browserAfter es (freshBrowser r b p)) k)"
proof (induction es rule: rev_induct)
  case Nil
  then show ?case
    by (simp add: freshBrowser_def fileKeys_def browserRows_def listRows_def visibleFileKeys_def)
next
  case (snoc e es)
  let ?s = "browserAfter es (freshBrowser r b p)"
  let ?t = "fst (browserStep e ?s)"
  have d: "distinct (brSelected ?s)" using snoc by blast
  note sel = step_selection [OF d, of e]
  show ?case
  proof (cases "leavesFolder e ?s")
    case True
    then show ?thesis using sel step_moved [OF True] by simp
  next
    case False
    have old: "listedHere (es @ [e]) ?t k" if "k \<in> set (fileKeys ?s) \<union> set (brSelected ?s)" for k
      using snoc that listedHere_step [OF _ False] by blast
    have new: "listedHere (es @ [e]) ?t k" if k: "k \<in> set (fileKeys ?t)" for k
    proof (cases "\<exists>ps n. e = PagesArrive ps n")
      case True
      then obtain ps n where e: "e = PagesArrive ps n" by blast
      then show ?thesis using k listedHere_arrived by (simp add: fileKeys_def browserRows_def)
    next
      case other: False
      then show ?thesis using k old step_listing [OF False] by auto
    qed
    show ?thesis using sel old new False by (auto simp: subset_iff)
  qed
qed

lemma deleteReq_inj: "deleteReq r b k = deleteReq r b k' \<longleftrightarrow> k = k'"
  by (simp add: deleteReq_def bareReq_def getReq_def inj_enc)

text \<open>
  C13. A delete request leaves the object browser only when the operator
  confirms the dialog while no batch runs; the batch then has one request per selected object, no
  object twice, each for a file that the listing of the folder that is still open has shown. Folders
  and objects of other folders are never deleted.
\<close>

theorem batch_deletes_listed_selection:
  assumes "s = browserAfter es (freshBrowser r b p)" and "SendDelete q \<in> set (snd (browserStep e s))"
  shows "e = ConfirmDelete \<and> brConfirm s \<and> \<not> brDeleting s \<and>
    snd (browserStep e s) = map (\<lambda>k. SendDelete (deleteReq (brRegion s) (brBucket s) k)) (brSelected s) \<and>
    distinct (snd (browserStep e s)) \<and>
    (\<forall>k \<in> set (brSelected s). listedHere es s k)"
proof -
  have e: "e = ConfirmDelete \<and> brConfirm s \<and> \<not> brDeleting s \<and> brSelected s \<noteq> []"
    using assms(2) by (cases e) (auto simp: browser_ops split: option.splits prod.splits if_splits)
  then have out: "snd (browserStep e s) =
      map (\<lambda>k. SendDelete (deleteReq (brRegion s) (brBucket s) k)) (brSelected s)"
    by (auto simp: confirmBatch_def)
  moreover have "distinct (snd (browserStep e s))"
    using browser_listed [of es r b p] assms(1) unfolding out
    by (auto simp: distinct_map inj_on_def deleteReq_inj)
  ultimately show ?thesis using e browser_listed [of es r b p] assms(1) by blast
qed

theorem batch_deletes_listed_selection_witness:
  "\<exists>es. listedHere es (browserAfter es (freshBrowser ''r'' ''b'' [])) ''a.txt''"
proof -
  let ?pg = "JObj [(''objects'', JArr [JObj [(''key'', JStr ''a.txt'')]])]"
  let ?es = "[PagesArrive [?pg] False, ToggleRow ''a.txt'', PressDelete]"
  let ?s = "browserAfter ?es (freshBrowser ''r'' ''b'' [])"
  have s: "brSelected ?s = [''a.txt'']" "brConfirm ?s" "\<not> brDeleting ?s"
    by (simp_all add: browserAfter_def freshBrowser_def fileKeys_def browserRows_def listRows_def
        visibleFileKeys_def pageObjects_def pageFolders_def objectKey_def toggleSelected_def)
  then have "SendDelete (deleteReq (brRegion ?s) (brBucket ?s) ''a.txt'') \<in> set (snd (browserStep ConfirmDelete ?s))"
    by (simp add: confirmBatch_def)
  from batch_deletes_listed_selection [OF refl this] s show ?thesis by auto
qed

section \<open>What a batch leaves behind\<close>

text \<open>The running batch is what was confirmed: distinct keys, as long as the page is deleting.\<close>

lemma browser_batch:
  "(brDeleting (browserAfter es (freshBrowser r b p)) \<longleftrightarrow>
      brBatch (browserAfter es (freshBrowser r b p)) \<noteq> None) \<and>
   (\<forall>x y keys. brBatch (browserAfter es (freshBrowser r b p)) = Some (x, y, keys) \<longrightarrow> distinct keys)"
proof (induction es rule: rev_induct)
  case Nil
  then show ?case by (simp add: freshBrowser_def)
next
  case (snoc e es)
  then show ?case using browser_listed [of es r b p]
    by (cases e) (auto simp: browser_ops split: option.splits prod.splits)
qed

lemma batchErrors_Cons:
  "batchErrors (k # keys) (a # answers) =
     (case deleteFailure a of None \<Rightarrow> [] | Some m \<Rightarrow> [(k, m)]) @ batchErrors keys answers"
  by (simp add: batchErrors_def)

lemma batchErrors_lookup:
  "length answers = length keys \<Longrightarrow> distinct keys \<Longrightarrow>
   distinct (map fst (batchErrors keys answers)) \<and> fst ` set (batchErrors keys answers) \<subseteq> set keys \<and>
   (\<forall>i < length keys. \<forall>m. (keys ! i, m) \<in> set (batchErrors keys answers) \<longleftrightarrow> deleteFailure (answers ! i) = Some m)"
proof (induction keys arbitrary: answers)
  case (Cons k keys)
  then obtain a as where a: "answers = a # as" "length as = length keys" by (cases answers) auto
  note ih = Cons.IH [OF a(2)]
  have k: "k \<notin> fst ` set (batchErrors keys as)" using ih Cons.prems by auto
  have "(((k # keys) ! i, m) \<in> set (batchErrors (k # keys) answers)) = (deleteFailure (answers ! i) = Some m)"
    if "i < length (k # keys)" for i m
  proof (cases i)
    case 0
    then show ?thesis using k a by (force simp: batchErrors_Cons split: option.splits)
  next
    case (Suc j)
    then have "keys ! j \<noteq> k" using that Cons.prems(2) by auto
    then show ?thesis using Suc that ih Cons.prems a by (auto simp: batchErrors_Cons split: option.splits)
  qed
  moreover have "distinct (map fst (batchErrors (k # keys) answers)) \<and>
      fst ` set (batchErrors (k # keys) answers) \<subseteq> set (k # keys)"
    using k ih Cons.prems a by (auto simp: batchErrors_Cons split: option.splits)
  ultimately show ?case by blast
qed (simp add: batchErrors_def)

lemma batchSucceeded_iff:
  "length answers = length keys \<Longrightarrow> distinct keys \<Longrightarrow> i < length keys \<Longrightarrow>
   keys ! i \<in> set (batchSucceeded keys answers) \<longleftrightarrow> deleteFailure (answers ! i) = None"
  by (auto simp: batchSucceeded_def set_zip nth_eq_iff_index_eq image_iff Bex_def)

lemma batchSucceeded_subset: "set (batchSucceeded keys answers) \<subseteq> set keys"
  by (auto simp: batchSucceeded_def dest: set_zip_leftD)

lemma batchErrors_marks:
  assumes "length answers = length keys" and "distinct keys"
  shows "i < length keys \<Longrightarrow> map_of (rev (batchErrors keys answers)) (keys ! i) = deleteFailure (answers ! i)"
    and "k \<notin> set keys \<Longrightarrow> map_of (rev (batchErrors keys answers)) k = None"
proof -
  note f = batchErrors_lookup [OF assms]
  then have d: "distinct (map fst (rev (batchErrors keys answers)))" by (simp add: rev_map [symmetric])
  { assume i: "i < length keys"
    show "map_of (rev (batchErrors keys answers)) (keys ! i) = deleteFailure (answers ! i)"
    proof (cases "deleteFailure (answers ! i)")
      case None
      then have "\<forall>m. (keys ! i, m) \<notin> set (rev (batchErrors keys answers))" using f i by auto
      then show ?thesis using None by (auto simp: map_of_eq_None_iff)
    next
      case (Some m)
      then have "(keys ! i, m) \<in> set (rev (batchErrors keys answers))" using f i by auto
      then show ?thesis using Some map_of_is_SomeI [OF d] by simp
    qed }
  { assume "k \<notin> set keys"
    then show "map_of (rev (batchErrors keys answers)) k = None"
      using f by (auto simp: map_of_eq_None_iff) }
qed

lemma batchErrors_count:
  "length answers = length keys \<Longrightarrow>
   length (batchErrors keys answers) = length (filter (\<lambda>a. deleteFailure a \<noteq> None) answers)"
proof (induction keys arbitrary: answers)
  case (Cons k keys)
  then obtain a as where "answers = a # as" "length as = length keys" by (cases answers) auto
  then show ?case using Cons.IH by (auto simp: batchErrors_Cons split: option.split)
qed (simp add: batchErrors_def)

text \<open>
  C33. When the answers of a batch are in, every key of it is accounted for,
  whatever the operator did meanwhile: a key the server deleted is deselected and carries no error; a
  key whose delete was refused is marked with the \<open>message\<close> at the top level of the body, or else with the status,
  and one whose answer was lost with the network error, and both are selected exactly if they still were; the summary counts these failures;
  no other key is touched, and the page takes the next batch.
\<close>

theorem batch_reports_every_key:
  assumes "s = browserAfter es (freshBrowser r b p)" and "brBatch s = Some (x, y, keys)"
    and "length answers = length keys" and "s' = fst (browserStep (BatchAnswered answers) s)"
  shows "(\<forall>i < length keys. brErrors s' (keys ! i) = deleteFailure (answers ! i) \<and>
      deleteFailure (answers ! i) = (case answers ! i of None \<Rightarrow> Some (messageOf NetworkError)
        | Some res \<Rightarrow> if httpOk (rsStatus res) then None else Some (refusalText res)) \<and>
      (keys ! i \<in> set (brSelected s') \<longleftrightarrow>
         deleteFailure (answers ! i) \<noteq> None \<and> keys ! i \<in> set (brSelected s))) \<and>
    brSummary s' = Some (length (filter (\<lambda>a. deleteFailure a \<noteq> None) answers)) \<and>
    (\<forall>k. k \<notin> set keys \<longrightarrow> brErrors s' k = None \<and> (k \<in> set (brSelected s') \<longleftrightarrow> k \<in> set (brSelected s))) \<and>
    \<not> brDeleting s' \<and> brBatch s' = None"
proof -
  have d: "distinct keys" and sel: "distinct (brSelected s)"
    using browser_batch [of es r b p] browser_listed [of es r b p] assms(1,2) by auto
  have s': "s' = fst (settleBatch keys answers s)"
    using assms(2-4) by (auto split: prod.splits)
  have why: "deleteFailure a = (case a of None \<Rightarrow> Some (messageOf NetworkError)
      | Some res \<Rightarrow> if httpOk (rsStatus res) then None else Some (refusalText res))" for a
    by (simp add: deleteFailure_def)
  have count: "brSummary s' = Some (length (filter (\<lambda>a. deleteFailure a \<noteq> None) answers))"
    unfolding s' by (simp add: settleBatch_def batchErrors_count [OF assms(3)])
  have "(\<forall>i < length keys. brErrors s' (keys ! i) = deleteFailure (answers ! i) \<and>
      (keys ! i \<in> set (brSelected s') \<longleftrightarrow>
         deleteFailure (answers ! i) \<noteq> None \<and> keys ! i \<in> set (brSelected s))) \<and>
    (\<forall>k. k \<notin> set keys \<longrightarrow> brErrors s' k = None \<and> (k \<in> set (brSelected s') \<longleftrightarrow> k \<in> set (brSelected s))) \<and>
    \<not> brDeleting s' \<and> brBatch s' = None"
    using batchErrors_marks [OF assms(3) d] batchSucceeded_iff [OF assms(3) d]
      batchSucceeded_subset [of keys answers] foldl_remove_set [OF sel]
    unfolding s' by (auto simp: settleBatch_def)
  then show ?thesis using count why by blast
qed

text \<open>The listing and the setup shared by the examples: a folder with the files \<open>a\<close> and \<open>b\<close>, both selected.\<close>

definition filePage :: "string list \<Rightarrow> json" where
  "filePage keys = JObj [(''objects'', JArr (map (\<lambda>k. JObj [(''key'', JStr k)]) keys))]"

definition deletingEvents :: "browser_event list" where
  "deletingEvents = [PagesArrive [filePage [''a'', ''b'']] False, ToggleAll, PressDelete, ConfirmDelete]"

definition deleting :: browser where
  "deleting = browserAfter deletingEvents (freshBrowser ''r'' ''k'' [])"

lemma filePage_keys: "brPages s = [filePage keys] \<Longrightarrow> fileKeys s = keys"
proof -
  assume pages: "brPages s = [filePage keys]"
  have "visibleFileKeys (map FolderRow fs @ rows @ (if brHasNext s then [LoadMoreSentinel] else [])) =
      visibleFileKeys rows" for fs rows
    by (simp add: visibleFileKeys_def o_def)
  then show ?thesis using pages
    by (simp add: fileKeys_def browserRows_def listRows_def filePage_def pageObjects_def objectKey_def
        visibleFileKeys_def o_def)
qed

lemma deleting_facts:
  "brBatch deleting = Some (''r'', ''k'', [''a'', ''b''])" "brSelected deleting = [''a'', ''b'']"
  "brDeleting deleting" "brRegion deleting = ''r''" "brBucket deleting = ''k''" "brPrefix deleting = []"
  by (simp_all add: deleting_def deletingEvents_def browserAfter_def browser_ops freshBrowser_def
      allVisibleSelected_def setAdd_def filePage_keys)

definition lockedAnswer :: fetch_res where
  "lockedAnswer = \<lparr>rsStatus = 403, rsBody = Some (JObj [(''error'',
     JObj [(''code'', JStr ''LOCKED''), (''message'', JStr ''object is under legal hold'')])])\<rparr>"

theorem batch_reports_every_key_witness:
  "brErrors (fst (browserStep (BatchAnswered [Some \<lparr>rsStatus = 204, rsBody = None\<rparr>, Some lockedAnswer]) deleting)) ''b''
     \<noteq> None \<and>
   brSummary (fst (browserStep (BatchAnswered [Some \<lparr>rsStatus = 204, rsBody = None\<rparr>, Some lockedAnswer]) deleting)) =
     Some 1"
proof -
  let ?as = "[Some \<lparr>rsStatus = 204, rsBody = None\<rparr>, Some lockedAnswer]"
  have "brErrors (fst (browserStep (BatchAnswered ?as) deleting)) ([''a'', ''b''] ! 1) =
      deleteFailure (?as ! 1) \<and>
      brSummary (fst (browserStep (BatchAnswered ?as) deleting)) =
        Some (length (filter (\<lambda>a. deleteFailure a \<noteq> None) ?as))"
    using batch_reports_every_key [OF deleting_def [unfolded deletingEvents_def] deleting_facts(1), of ?as]
    by (simp add: less_Suc_eq all_conj_distrib)
  then show ?thesis by (simp add: deleteFailure_def lockedAnswer_def httpOk_def)
qed

section \<open>Selecting everything on screen\<close>

text \<open>
  The select-all box does what its mark promises: one press of it selects every
  visible file unless all were selected, in which case it deselects them; what is selected beyond
  the screen is left alone, and the mark flips.
\<close>

theorem select_all_toggles:
  assumes "s = browserAfter es (freshBrowser r b p)" and "fileKeys s \<noteq> []"
    and "t = fst (browserStep ToggleAll s)"
  shows "(allVisibleSelected t \<longleftrightarrow> \<not> allVisibleSelected s) \<and> \<not> someVisibleSelected t \<and>
    (\<forall>k. k \<in> set (brSelected t) \<longleftrightarrow>
       (if k \<in> set (fileKeys s) then \<not> allVisibleSelected s else k \<in> set (brSelected s)))"
proof -
  have d: "distinct (brSelected s)" using browser_listed [of es r b p] assms(1) by blast
  have t: "t = toggleSelectAllVisible s" and f: "fileKeys t = fileKeys s"
    using assms(2,3) by (auto simp: toggleSelectAllVisible_def intro: fileKeys_cong)
  have sel: "set (brSelected t) = (if allVisibleSelected s then set (brSelected s) - set (fileKeys s)
      else set (brSelected s) \<union> set (fileKeys s))"
    unfolding t using foldl_remove_set [OF d] by (simp add: toggleSelectAllVisible_def foldl_setAdd_set)
  show ?thesis
    unfolding allVisibleSelected_def [of t] someVisibleSelected_def [of t] f list_all_iff list_ex_iff sel
    using assms(2) by (cases "fileKeys s") auto
qed

theorem select_all_toggles_witness:
  "\<exists>s. fileKeys s = [''a''] \<and> allVisibleSelected (fst (browserStep ToggleAll s))"
proof -
  let ?s = "browserAfter [PagesArrive [filePage [''a'']] True] (freshBrowser ''r'' ''k'' [])"
  have s: "fileKeys ?s = [''a'']" "brSelected ?s = []"
    by (simp_all add: browserAfter_def filePage_keys freshBrowser_def)
  then have "\<not> allVisibleSelected ?s" by (simp add: allVisibleSelected_def)
  with select_all_toggles [OF refl _ refl, of "[PagesArrive [filePage [''a'']] True]" "''r''" "''k''" "[]"] s
  show ?thesis by (intro exI [of _ ?s]) simp
qed

section \<open>Folders and crumbs\<close>

text \<open>The prefix of a path of folders, as the listing hands it out.\<close>

definition folderOf :: "string list \<Rightarrow> string" where
  "folderOf segs = concat (map (\<lambda>w. w @ ''/'') segs)"

definition plainSegments :: "string list \<Rightarrow> bool" where
  "plainSegments segs \<longleftrightarrow> (\<forall>w \<in> set segs. w \<noteq> [] \<and> CHR ''/'' \<notin> set w)"

lemma splitOn_folderOf:
  "plainSegments segs \<Longrightarrow> CHR ''/'' \<notin> set w \<Longrightarrow> splitOn CHR ''/'' (folderOf segs @ w) = segs @ [w]"
  by (induction segs) (auto simp: folderOf_def plainSegments_def splitOn_append splitOn_no_delim)

lemma crumbParts_folderOf: "plainSegments segs \<Longrightarrow> crumbParts (folderOf segs) = segs"
  using splitOn_folderOf [of segs "[]"] by (auto simp: crumbParts_def plainSegments_def filter_id_conv)

lemma joinWith_folderOf: "segs \<noteq> [] \<Longrightarrow> joinWith ''/'' segs @ ''/'' = folderOf segs"
  by (induction "''/''" segs rule: joinWith.induct) (auto simp: folderOf_def)

text \<open>
  Folders and breadcrumb agree: in the folder reached through any path of
  named folders, the row of the folder shows its own name, the way up leads back to the folder it was
  opened from, and the crumbs are the folders of the path, each leading to its own prefix.
\<close>

theorem breadcrumb_roundtrip:
  assumes "plainSegments (segs @ [w])"
  shows "folderName (folderOf (segs @ [w])) = w \<and>
    parentPrefix (folderOf (segs @ [w])) = folderOf segs \<and>
    crumbs (folderOf (segs @ [w])) =
      map (\<lambda>i. ((segs @ [w]) ! i, folderOf (take (Suc i) (segs @ [w])))) [0..<Suc (length segs)]"
proof -
  have segs: "plainSegments segs" and w: "w \<noteq> []" "CHR ''/'' \<notin> set w"
    using assms by (auto simp: plainSegments_def)
  have f: "folderOf (segs @ [w]) = (folderOf segs @ w) @ ''/''" by (simp add: folderOf_def)
  have "folderName (folderOf (segs @ [w])) = w"
    unfolding folderName_def f stripSlash_def lastSegment_def using splitOn_folderOf [OF segs w(2)] w
    by (simp add: suffix_def Let_def butlast_append)
  moreover have "parentPrefix (folderOf (segs @ [w])) = folderOf segs"
    unfolding parentPrefix_def crumbParts_folderOf [OF assms] using joinWith_folderOf [of segs]
    by (cases segs) (simp_all add: folderOf_def)
  moreover have "crumbs (folderOf (segs @ [w])) =
      map (\<lambda>i. ((segs @ [w]) ! i, folderOf (take (Suc i) (segs @ [w])))) [0..<Suc (length segs)]"
    unfolding crumbs_def crumbParts_folderOf [OF assms]
    by (rule map_cong) (auto intro: joinWith_folderOf)
  ultimately show ?thesis by blast
qed

theorem breadcrumb_roundtrip_witness:
  "parentPrefix ''raw/docs/'' = ''raw/'' \<and> folderName ''raw/docs/'' = ''docs''"
proof -
  have "plainSegments ([''raw''] @ [''docs''])" by (simp add: plainSegments_def)
  from breadcrumb_roundtrip [OF this] show ?thesis by (simp add: folderOf_def)
qed

section \<open>From the server to the rows\<close>

fun rowObjects :: "VirtualRow \<Rightarrow> json list" where
  "rowObjects (FileRow k obj) = [obj]"
| "rowObjects _ = []"

lemma concat_file_rows:
  "concat (map rowObjects (concat (map (\<lambda>pg. map (\<lambda>obj. FileRow (objectKey obj) obj) (pageObjects pg)) ps)))
     = concat (map pageObjects ps)"
  by (induction ps) (simp_all add: o_def)

lemma listRows_objects: "concat (map rowObjects (listRows ps n)) = concat (map pageObjects ps)"
  by (cases ps) (use concat_file_rows [of ps] in \<open>auto simp: listRows_def o_def\<close>)

lemma servesPages_last:
  "servesPages b r k pre param ps \<Longrightarrow> ps \<noteq> [] \<and> iqNext (useUserRegionObjectsInfinite x y pre) (last ps) = JUndef"
  by (induction b r k pre param ps rule: servesPages.induct) (auto simp: iqNext_page)

text \<open>
  Scrolling to the end of a folder shows every file the server has there:
  the rows made of the pages that the walk of the listing delivers hold the objects of all its pages,
  in the order of the server and each once, and no row asks to scroll on.
\<close>

theorem listing_shows_every_object:
  assumes "servesPages b r k pre (JStr []) ps" and "length ps \<le> n"
    and "q = useUserRegionObjectsInfinite (Some r) (Some k) pre"
  shows "\<exists>pages. snd (run (walkPages q n (iqFirst q)) b []) = Inr (pages, True) \<and>
    concat (map rowObjects (listRows pages (iqNext q (last pages) \<noteq> JUndef))) = concat (map pageObjects ps) \<and>
    LoadMoreSentinel \<notin> set (listRows pages (iqNext q (last pages) \<noteq> JUndef))"
proof (intro exI conjI)
  show "snd (run (walkPages q n (iqFirst q)) b []) = Inr (ps, True)"
    using walk_served [OF assms(1,2), of "[]"] by (simp add: assms(3) useUserRegionObjectsInfinite_def)
  show "concat (map rowObjects (listRows ps (iqNext q (last ps) \<noteq> JUndef))) = concat (map pageObjects ps)"
    by (rule listRows_objects)
  show "LoadMoreSentinel \<notin> set (listRows ps (iqNext q (last ps) \<noteq> JUndef))"
    using servesPages_last [OF assms(1)] unfolding assms(3) by (auto simp: listRows_def split: list.splits)
qed

definition onePage :: backend where
  "onePage = \<lparr>onFetch = (\<lambda>_ _. Some \<lparr>rsStatus = 200, rsBody = Some (filePage [''a'', ''b''])\<rparr>),
     onCall = (\<lambda>_ _. None), onPut = (\<lambda>_ _. None)\<rparr>"

theorem listing_shows_every_object_witness:
  "\<exists>pages. snd (run (walkPages (useUserRegionObjectsInfinite (Some ''r'') (Some ''k'') []) 3
      (JStr [])) onePage []) = Inr (pages, True)"
proof -
  have "servesPages onePage ''r'' ''k'' [] (JStr []) [filePage [''a'', ''b'']]"
    by (simp add: onePage_def filePage_def)
  from listing_shows_every_object [OF this _ refl, of 3] show ?thesis
    by (auto simp: useUserRegionObjectsInfinite_def)
qed

section \<open>Where the browser surprises\<close>

text \<open>
  Folders are taken from the first page only. The server answers every page of a listing with the
  folders that fall into it, so a folder of a later page has no row, however far one scrolls.
\<close>

theorem later_folders_never_shown:
  "x \<notin> set (pageFolders p) \<Longrightarrow> FolderRow x \<notin> set (listRows (p # ps) n)"
  by (auto simp: listRows_def)

text \<open>
  The reason of a refused delete is read from the top level of the body; the API nests it under
  \<open>error\<close>, so the row only ever says the status.
\<close>

theorem nested_error_message_lost:
  "deleteFailure (Some lockedAnswer) = Some ''HTTP 403''"
  by code_simp

text \<open>
  A batch that comes back after the operator has moved to another folder puts its failure banner
  there, without a row that carries a mark, and refetches that folder instead of the one it changed.
\<close>

definition elsewhere :: browser where
  "elsewhere = fst (browserStep (OpenFolder ''r'' ''k'' ''docs/'') deleting)"

theorem summary_outlives_folder:
  "brSummary (fst (browserStep (BatchAnswered [Some \<lparr>rsStatus = 204, rsBody = None\<rparr>, None]) elsewhere)) = Some 1 \<and>
   fileKeys (fst (browserStep (BatchAnswered [Some \<lparr>rsStatus = 204, rsBody = None\<rparr>, None]) elsewhere)) = [] \<and>
   snd (browserStep (BatchAnswered [Some \<lparr>rsStatus = 204, rsBody = None\<rparr>, None]) elsewhere) =
     [Refetch ''r'' ''k'' ''docs/'']"
  using deleting_facts
  by (simp add: elsewhere_def browser_ops batchErrors_def batchSucceeded_def deleteFailure_def httpOk_def
      fileKeys_def browserRows_def listRows_def visibleFileKeys_def)

text \<open>Empty path segments are dropped: the way up from \<open>a//b/\<close> skips the folder \<open>a//\<close> it was opened from.\<close>

theorem double_slash_breadcrumb: "parentPrefix ''a//b/'' = ''a/''"
  by code_simp

text \<open>The toggle for all versions only changes the look of the buttons; no panel opens.\<close>

theorem show_all_opens_nothing:
  "brVersions (fst (browserStep (ShowAllVersions b) s)) = brVersions s"
  by simp

end
