(* ===== verification/Public_Share.thy ===== *)
theory Public_Share
  imports Object_Browser Share_Hooks
begin

text \<open>
  The public page of a share link (\<open>routes/share/$token.tsx\<close>): which of its screens is shown, the password
  form, and the folder browser with its breadcrumb. The answers of the server reach the page through
  the hooks of \<open>Share_Hooks\<close>; their query state (fetching, data, error) is the input of the screens.
\<close>

section \<open>The screens\<close>

datatype share_view =
    ShareLoading
  | ShareNotFound
  | ShareRevoked
  | ShareExpired
  | ShareError string
  | ShareLimitReached
  | SharePassword
  | ShareFile
  | ShareBrowser

record query_state =
  qsFetching :: bool
  qsData :: "json option"
  qsError :: "js_error option"

text \<open>\<open>isPending\<close>: neither data nor an error yet; \<open>isLoading\<close>: pending and fetching.\<close>

definition isPending :: "query_state \<Rightarrow> bool" where
  "isPending q \<longleftrightarrow> qsData q = None \<and> qsError q = None"

definition isLoading :: "query_state \<Rightarrow> bool" where
  "isLoading q \<longleftrightarrow> qsFetching q \<and> isPending q"

definition errorView :: "js_error \<Rightarrow> share_view" where
  "errorView e =
     (if codeOf e = JStr ''SHARE_NOT_FOUND'' then ShareNotFound
      else if codeOf e = JStr ''SHARE_REVOKED'' \<or> statusOf e = Some 410 then ShareRevoked
      else if codeOf e = JStr ''SHARE_EXPIRED'' then ShareExpired
      else ShareError (if messageOf e = [] then ''Failed to load share'' else messageOf e))"

definition shareView :: "query_state \<Rightarrow> js_error option \<Rightarrow> share_view" where
  "shareView infoQuery listError =
     (if isLoading infoQuery \<or> isPending infoQuery then ShareLoading
      else (case qsError infoQuery of
          Some e \<Rightarrow> errorView e
        | None \<Rightarrow>
            (let info = (case qsData infoQuery of None \<Rightarrow> JUndef | Some d \<Rightarrow> d) in
             if \<not> truthy info then ShareNotFound
             else if truthy (getProp info ''revoked'') \<or> truthy (getProp info ''expired'')
             then (if truthy (getProp info ''revoked'') then ShareRevoked else ShareExpired)
             else if (case listError of None \<Rightarrow> False | Some e \<Rightarrow> statusOf e = Some 410)
             then ShareLimitReached
             else if truthy (getProp info ''requiresPassword'') then SharePassword
             else if \<not> truthy (getProp info ''isDirectory'') then ShareFile
             else ShareBrowser)))"

text \<open>The submit of the password form: the password afterwards, once the call was accepted; then a refetch.\<close>

definition submitPassword :: "string \<Rightarrow> string \<Rightarrow> string js" where
  "submitPassword token password = bindJs (mutationFn useShareAuth (token, password)) (\<lambda>_. Ret [])"

definition downloadUrl :: "string \<Rightarrow> string \<Rightarrow> string" where
  "downloadUrl token key = ''/api/v1/share/'' @ enc token @ ''/get?key='' @ enc key"

section \<open>The folder browser\<close>

datatype folder_view = FolderSkeleton | FolderEmpty | FolderTable bool bool

text \<open>The table, with its pending row and its button for more.\<close>

definition folderView :: "query_state \<Rightarrow> string \<Rightarrow> folder_view" where
  "folderView listQuery pre =
     (if isLoading listQuery \<and> pre \<noteq> [] then FolderSkeleton
      else if \<not> isLoading listQuery \<and>
        (case qsData listQuery of None \<Rightarrow> False | Some d \<Rightarrow> pageObjects d = []) then FolderEmpty
      else FolderTable (isPending listQuery)
        (case qsData listQuery of None \<Rightarrow> False | Some d \<Rightarrow> truthy (getProp d ''isTruncated'')))"

text \<open>\<open>buildBreadcrumb\<close>: labels with cumulative paths.\<close>

fun crumbsFrom :: "string \<Rightarrow> string list \<Rightarrow> (string \<times> string) list" where
  "crumbsFrom cur [] = []"
| "crumbsFrom cur (p # ps) = (p, cur @ p) # crumbsFrom (cur @ p @ ''/'') ps"

definition buildBreadcrumb :: "string \<Rightarrow> (string \<times> string) list" where
  "buildBreadcrumb pre = (if pre = [] then [] else crumbsFrom [] (crumbParts pre))"

definition goUp :: "string \<Rightarrow> string" where
  "goUp currentPath = joinWith ''/'' (butlast (crumbParts currentPath))"

text \<open>The path a folder row is given, and what a click on it navigates to.\<close>

definition folderPath :: "string \<Rightarrow> string \<Rightarrow> string" where
  "folderPath pre folder = pre @ ''/'' @ folder"

definition handleFolderClick :: "string \<Rightarrow> string \<Rightarrow> string" where
  "handleFolderClick pre name = (if pre \<noteq> [] then ''/'' @ name else name)"

definition openFolder :: "string \<Rightarrow> string \<Rightarrow> string" where
  "openFolder pre folder = handleFolderClick pre (folderPath pre folder)"

section \<open>What the page shows to whom\<close>

text \<open>The state of a query after its call has come back.\<close>

definition settledQuery :: "js_error + json \<Rightarrow> query_state" where
  "settledQuery r = (case r of
       Inl e \<Rightarrow> \<lparr>qsFetching = False, qsData = None, qsError = Some e\<rparr>
     | Inr j \<Rightarrow> \<lparr>qsFetching = False, qsData = Some j, qsError = None\<rparr>)"

definition infoReq :: "string \<Rightarrow> fetch_req" where
  "infoReq t = publicReq (''/share/'' @ enc t @ ''/info'')"

lemma run_useShareInfo:
  "t \<noteq> [] \<Longrightarrow> onFetch b h (infoReq t) = Some res \<Longrightarrow>
   snd (run (queryFn (useShareInfo (Some t))) b h) =
     (if \<not> httpOk (rsStatus res) \<and> rsStatus res \<noteq> 404
      then Inl (apiError (''share/info/'' @ t) (rsStatus res) (jsonOrEmpty res))
      else if rsStatus res = 404 then Inr JNull
      else (case rsBody res of None \<Rightarrow> Inl (PlainError ''invalid JSON'') | Some j \<Rightarrow> Inr j))"
  by (auto simp: useShareInfo_def tries_def stale_def enabledIf_def mkQuery_def run_requireOr awaitFetch_def
      awaitJson_def httpOk_def infoReq_def split: option.splits)

text \<open>
  C16. The public page offers the content of a share only when the server has answered its
  information call with success and the answer says that the share is neither revoked nor expired and
  asks for no password, and no listing has hit a limit; a missing share always ends on the not-found
  screen.
\<close>

theorem share_page_gate:
  assumes "t \<noteq> []" and "onFetch b [] (infoReq t) = Some res"
    and "v = shareView (settledQuery (snd (run (queryFn (useShareInfo (Some t))) b []))) listError"
  shows "(v \<in> {ShareFile, ShareBrowser} \<longrightarrow>
      (\<exists>info. httpOk (rsStatus res) \<and> rsBody res = Some info \<and>
         \<not> truthy (getProp info ''revoked'') \<and> \<not> truthy (getProp info ''expired'') \<and>
         \<not> truthy (getProp info ''requiresPassword'') \<and>
         (\<forall>e. listError = Some e \<longrightarrow> statusOf e \<noteq> Some 410) \<and>
         (v = ShareBrowser \<longleftrightarrow> truthy (getProp info ''isDirectory'')))) \<and>
    (rsStatus res = 404 \<longrightarrow> v = ShareNotFound)"
  unfolding assms(3) run_useShareInfo [OF assms(1,2)]
  by (cases listError; cases "rsBody res")
     (auto simp: settledQuery_def shareView_def Let_def isLoading_def isPending_def errorView_def split: if_splits)

definition answering :: "fetch_res \<Rightarrow> backend" where
  "answering res = \<lparr>onFetch = (\<lambda>_ _. Some res), onCall = (\<lambda>_ _. None), onPut = (\<lambda>_ _. None)\<rparr>"

definition infoAnswer :: "bool \<Rightarrow> fetch_res" where
  "infoAnswer needsPassword = \<lparr>rsStatus = 200, rsBody = Some (JObj [(''requiresPassword'', JBool needsPassword),
     (''expired'', JBool False), (''revoked'', JBool False), (''isDirectory'', JBool True)])\<rparr>"

theorem share_page_gate_witness:
  "httpOk (rsStatus (infoAnswer False)) \<and>
   shareView (settledQuery (snd (run (queryFn (useShareInfo (Some ''t''))) (answering (infoAnswer False)) []))) None = ShareBrowser"
proof -
  let ?b = "answering (infoAnswer False)"
  have on: "''t'' \<noteq> []" "onFetch ?b [] (infoReq ''t'') = Some (infoAnswer False)"
    by (simp_all add: answering_def)
  have v: "shareView (settledQuery (snd (run (queryFn (useShareInfo (Some ''t''))) ?b []))) None = ShareBrowser"
    unfolding run_useShareInfo [OF on]
    by (simp add: infoAnswer_def httpOk_def settledQuery_def shareView_def isLoading_def isPending_def)
  with share_page_gate [OF on refl, of None] show ?thesis by auto
qed

section \<open>Downloads and crumbs\<close>

text \<open>
  The download link of a file leads to the share and the file it stands for: the
  server reads back the token from the path and the key from the query, whatever characters they hold.
\<close>

theorem share_download_exact:
  assumes "noDots [token]"
  shows "serverPath (downloadUrl token key) = [[], ''api'', ''v1'', ''share'', token, ''get''] \<and>
    pctDecode (drop (length ''?key='') (dropWhile (\<lambda>c. c \<noteq> CHR ''?'') (downloadUrl token key))) = key"
proof -
  let ?segs = "[[], ''api'', ''v1'', ''share'', token, ''get'']"
  have "enc ''api'' = ''api''" "enc ''v1'' = ''v1''" "enc ''share'' = ''share''" "enc ''get'' = ''get''"
    by (rule enc_plain, simp add: uriUnreserved_def alnum_def Let_def)+
  then have url: "downloadUrl token key = pathOf ?segs @ ''?key='' @ enc key"
    by (simp add: downloadUrl_def pathOf_def)
  have "noDots ?segs" using assms by (simp add: noDots_def)
  then have "serverPath (downloadUrl token key) = ?segs"
    unfolding url by (rule serverPath_pathOf) simp_all
  moreover have "dropWhile (\<lambda>c. c \<noteq> CHR ''?'') (downloadUrl token key) = ''?key='' @ enc key"
  proof -
    have "x \<noteq> CHR ''?''" if "x \<in> set (pathOf ?segs)" for x
      using joinWith_chars [OF that [unfolded pathOf_def]] enc_no_reserved [of "CHR ''?''"] by auto
    then show ?thesis unfolding url by (subst dropWhile_append2) auto
  qed
  ultimately show ?thesis by (simp add: pctDecode_enc)
qed

theorem share_download_exact_witness:
  "serverPath (downloadUrl ''abc'' ''a&b=c?.txt'') = [[], ''api'', ''v1'', ''share'', ''abc'', ''get'']"
proof -
  have "noDots [''abc'']" by (simp add: noDots_def)
  from share_download_exact [OF this] show ?thesis by blast
qed

lemma crumbsFrom_join:
  "i < length ps \<Longrightarrow> crumbsFrom cur ps ! i = (ps ! i, cur @ joinWith ''/'' (take (Suc i) ps))"
proof (induction ps arbitrary: cur i)
  case (Cons p ps)
  show ?case
  proof (cases i)
    case (Suc j)
    then obtain q qs where "take (Suc j) ps = q # qs" using Cons.prems by (cases ps) auto
    then show ?thesis using Suc Cons.IH [of j] Cons.prems by simp
  qed simp
qed simp

lemma crumbsFrom_length: "length (crumbsFrom cur ps) = length ps"
  by (induction ps arbitrary: cur) auto

lemma splitOn_joinWith: "ps \<noteq> [] \<Longrightarrow> plainSegments ps \<Longrightarrow> splitOn CHR ''/'' (joinWith ''/'' ps) = ps"
  by (rule splitOn_join) (auto simp: plainSegments_def)

text \<open>
  The breadcrumb of the public page is the path it was built from: one crumb
  for each folder, each leading to the path up to it, the last one to the folder that is open, and
  the way up to the folder above.
\<close>

theorem share_breadcrumb_roundtrip:
  assumes "plainSegments ps" and "ps \<noteq> []" and "path = joinWith ''/'' ps"
  shows "map fst (buildBreadcrumb path) = ps \<and>
    (\<forall>i < length ps. snd (buildBreadcrumb path ! i) = joinWith ''/'' (take (Suc i) ps)) \<and>
    snd (last (buildBreadcrumb path)) = path \<and> goUp path = joinWith ''/'' (butlast ps)"
proof -
  have parts: "crumbParts path = ps"
    using splitOn_joinWith [OF assms(2,1)] assms(1)
    by (simp add: crumbParts_def assms(3) plainSegments_def filter_id_conv)
  have "path \<noteq> []" using parts assms(2) by (auto simp: crumbParts_def)
  then have b: "buildBreadcrumb path = crumbsFrom [] ps" by (simp add: buildBreadcrumb_def parts)
  have "map fst (buildBreadcrumb path) = ps"
    by (rule nth_equalityI) (simp_all add: b crumbsFrom_length crumbsFrom_join)
  moreover have "snd (last (buildBreadcrumb path)) = path"
    unfolding b using assms(2,3) crumbsFrom_join [of "length ps - 1" ps "[]"]
    by (subst last_conv_nth) (auto simp: crumbsFrom_length dest: arg_cong [where f = length])
  ultimately show ?thesis by (simp add: b crumbsFrom_join goUp_def parts)
qed

theorem share_breadcrumb_roundtrip_witness:
  "goUp (joinWith ''/'' [''raw'', ''docs'']) = joinWith ''/'' [''raw'']"
proof -
  have "plainSegments [''raw'', ''docs'']" by (simp add: plainSegments_def)
  from share_breadcrumb_roundtrip [OF this _ refl] show ?thesis by simp
qed

section \<open>Where the page fails\<close>

text \<open>
  The list of the root of a share is never requested, because the query is off without a prefix. The page
  then shows a table with nothing but the pending row, so there is no folder to open either.
\<close>

theorem root_never_listed:
  "\<not> qEnabled (useShareList (Some t) []) \<and>
   folderView \<lparr>qsFetching = False, qsData = None, qsError = None\<rparr> [] = FolderTable True False"
  by (simp add: useShareList_def tries_def stale_def enabledIf_def mkQuery_def folderView_def isLoading_def isPending_def)

text \<open>
  A protected share cannot be opened: the server's information says that a password is required as long as
  the share has one, and this is asked before the content, also after the password was accepted.
\<close>

theorem password_screen_forever:
  "shareView (settledQuery (snd (run (queryFn (useShareInfo (Some ''t''))) (answering (infoAnswer True)) []))) None = SharePassword"
proof -
  have "''t'' \<noteq> []" "onFetch (answering (infoAnswer True)) [] (infoReq ''t'') = Some (infoAnswer True)"
    by (simp_all add: answering_def)
  from run_useShareInfo [OF this] show ?thesis
    by (simp add: infoAnswer_def httpOk_def settledQuery_def shareView_def isLoading_def isPending_def)
qed

text \<open>
  Below the root a click on a folder leaves the path it is in: the row already has the full path, which
  gets a slash in front of it and, as the server's folder names are full paths, holds the parent twice.
\<close>

theorem share_folder_path_wrong:
  "openFolder ''docs'' ''docs/raw/'' = ''/docs/docs/raw/''"
  by code_simp

text \<open>An expired share whose listing answers 410 is reported as one that reached its download limit.\<close>

theorem list_410_called_limit:
  "truthy info \<Longrightarrow> \<not> truthy (getProp info ''revoked'') \<Longrightarrow> \<not> truthy (getProp info ''expired'') \<Longrightarrow>
   shareView (settledQuery (Inr info)) (Some (ApiError m (JStr ''SHARE_EXPIRED'') 410 d)) = ShareLimitReached"
  by (simp add: shareView_def settledQuery_def isLoading_def isPending_def)

text \<open>A refused password shows nothing: no request follows, and no screen depends on the refusal.\<close>

theorem refused_password_silent:
  "\<not> httpOk (rsStatus res) \<Longrightarrow>
   \<exists>e. run (submitPassword t pw) (answering res) [] =
     ([RFetch ((jsonReq ''POST'' (''/share/'' @ enc t @ ''/auth'') (JObj [(''password'', JStr pw)]))\<lparr>rqCredentials := False\<rparr>)], Inl e)"
  by (auto simp: submitPassword_def useShareAuth_def run_bindJs awaitFetch_def answering_def httpOk_def)

end
