(* ===== verification/Wizards.thy ===== *)
theory Wizards
  imports Replication_Hooks Js_Numbers
begin

text \<open>
  The wizards of the file area: a new federation (\<open>routes/files/federated-buckets/new.tsx\<close>), a new
  backup (\<open>routes/files/backups/new.tsx\<close>) and a restore (\<open>routes/files/backups/$id/restore.tsx\<close>).

  A wizard is a state machine: its fields, the step on screen and the request under way. Each control is
  an event with the guard that the page gives it, above all that it stands on one step only. The
  step checks guard the way forward, so that the last step can rely on all of them.
\<close>

section \<open>The federation wizard\<close>

datatype FederationSyncMode = Continuous | Scheduled

fun syncModeName :: "FederationSyncMode \<Rightarrow> string" where
  "syncModeName Continuous = ''continuous''"
| "syncModeName Scheduled = ''scheduled''"

definition LAG_PRESETS :: "int list" where
  "LAG_PRESETS = [300, 900, 3600, 21600]"

definition FAILOVER_TIMEOUTS :: "int list" where
  "FAILOVER_TIMEOUTS = [30, 60, 300]"

record federation_wizard =
  fwStep :: nat
  fwName :: string
  fwPrimary :: FederationTarget
  fwReplicas :: "FederationTarget list"
  fwSyncMode :: FederationSyncMode
  fwSchedule :: string
  fwLagAlertSec :: int
  fwLagCustom :: bool
  fwWriteQuorum :: int
  fwAutoFailover :: bool
  fwAutoFailoverSec :: int
  fwStepError :: "string option"
  fwSaving :: bool

definition emptyTarget :: FederationTarget where
  "emptyTarget = \<lparr>ftRegionId = [], ftBucket = []\<rparr>"

definition freshFederation :: federation_wizard where
  "freshFederation = \<lparr>fwStep = 1, fwName = [], fwPrimary = emptyTarget, fwReplicas = [emptyTarget],
     fwSyncMode = Continuous, fwSchedule = ''0 * * * *'', fwLagAlertSec = 300, fwLagCustom = False,
     fwWriteQuorum = 1, fwAutoFailover = False, fwAutoFailoverSec = 60, fwStepError = None,
     fwSaving = False\<rparr>"

definition completeTarget :: "FederationTarget \<Rightarrow> bool" where
  "completeTarget t \<longleftrightarrow> ftRegionId t \<noteq> [] \<and> ftBucket t \<noteq> []"

definition targetKey :: "FederationTarget \<Rightarrow> string" where
  "targetKey t = ftRegionId t @ ''|'' @ ftBucket t"

definition claimedKeys :: "FederationTarget list \<Rightarrow> string list" where
  "claimedKeys ts = map targetKey (filter completeTarget ts)"

fun firstDuplicate :: "string list \<Rightarrow> FederationTarget list \<Rightarrow> string option" where
  "firstDuplicate seen [] = None"
| "firstDuplicate seen (r # rs) =
     (if \<not> completeTarget r then firstDuplicate seen rs
      else if targetKey r \<in> set seen then Some (targetKey r)
      else firstDuplicate (targetKey r # seen) rs)"

definition duplicateReplica :: "federation_wizard \<Rightarrow> string option" where
  "duplicateReplica w = firstDuplicate (claimedKeys [fwPrimary w]) (fwReplicas w)"

definition replicasValid :: "federation_wizard \<Rightarrow> bool" where
  "replicasValid w \<longleftrightarrow> fwReplicas w \<noteq> [] \<and> list_all completeTarget (fwReplicas w)"

definition quorumInRange :: "federation_wizard \<Rightarrow> bool" where
  "quorumInRange w \<longleftrightarrow> \<not> (fwWriteQuorum w < 1 \<or> 1 + int (length (fwReplicas w)) < fwWriteQuorum w)"

definition canNextFromStep :: "federation_wizard \<Rightarrow> nat \<Rightarrow> bool" where
  "canNextFromStep w s =
     (if s = 1 then completeTarget (fwPrimary w)
      else if s = 2 then replicasValid w \<and> duplicateReplica w = None
      else if s = 3 then \<not> (fwSyncMode w = Scheduled \<and> trim (fwSchedule w) = []) \<and> quorumInRange w
      else if s = 4 then trim (fwName w) \<noteq> []
      else True)"

definition errorForStep :: "federation_wizard \<Rightarrow> nat \<Rightarrow> string option" where
  "errorForStep w s =
     (if s = 1 \<and> ftRegionId (fwPrimary w) = [] then Some ''Please pick a primary region.''
      else if s = 1 \<and> ftBucket (fwPrimary w) = [] then Some ''Please pick a primary bucket.''
      else if s = 2 \<and> list_ex (\<lambda>r. \<not> completeTarget r) (fwReplicas w)
      then Some ''Each replica row needs both a region and a bucket.''
      else if s = 2 \<and> duplicateReplica w \<noteq> None
      then Some ''A (region, bucket) pair is duplicated. Each replica must be unique.''
      else if s = 3 \<and> fwSyncMode w = Scheduled \<and> trim (fwSchedule w) = []
      then Some ''Scheduled mode requires a cron expression.''
      else if s = 3 \<and> \<not> quorumInRange w
      then Some (''Write quorum must be between 1 and '' @ dec (1 + length (fwReplicas w)) @ ''.'')
      else if s = 4 \<and> trim (fwName w) = [] then Some ''Federation name is required.''
      else None)"

definition handleNext :: "federation_wizard \<Rightarrow> federation_wizard" where
  "handleNext w =
     (case errorForStep w (fwStep w) of
        Some err \<Rightarrow> w\<lparr>fwStepError := Some err\<rparr>
      | None \<Rightarrow> w\<lparr>fwStepError := None, fwStep := fwStep w + 1\<rparr>)"

definition handleBack :: "federation_wizard \<Rightarrow> federation_wizard" where
  "handleBack w = w\<lparr>fwStepError := None, fwStep := fwStep w - 1\<rparr>"

definition addReplica :: "federation_wizard \<Rightarrow> federation_wizard" where
  "addReplica w = (if 10 \<le> length (fwReplicas w) then w
     else w\<lparr>fwReplicas := fwReplicas w @ [emptyTarget]\<rparr>)"

definition updateReplica :: "nat \<Rightarrow> FederationTarget \<Rightarrow> federation_wizard \<Rightarrow> federation_wizard" where
  "updateReplica idx t w = w\<lparr>fwReplicas := (fwReplicas w)[idx := t]\<rparr>"

definition removeReplica :: "nat \<Rightarrow> federation_wizard \<Rightarrow> federation_wizard" where
  "removeReplica idx w = w\<lparr>fwReplicas := take idx (fwReplicas w) @ drop (Suc idx) (fwReplicas w)\<rparr>"

text \<open>An option of a replica's bucket list is off when another row or the primary has it.\<close>

definition isOptionTaken :: "federation_wizard \<Rightarrow> FederationTarget \<Rightarrow> FederationTarget \<Rightarrow> bool" where
  "isOptionTaken w row t \<longleftrightarrow>
     \<not> (completeTarget row \<and> targetKey t = targetKey row) \<and>
     (targetKey t \<in> set (claimedKeys [fwPrimary w]) \<or> targetKey t \<in> set (claimedKeys (fwReplicas w)))"

definition federationRequest :: "federation_wizard \<Rightarrow> FederatedBucketCreateRequest" where
  "federationRequest w = \<lparr>fcName = trim (fwName w), fcPrimary = fwPrimary w, fcReplicas = fwReplicas w,
     fcPolicy = Some \<lparr>fpSyncMode = syncModeName (fwSyncMode w),
       fpSchedule = (if fwSyncMode w = Scheduled then Some (trim (fwSchedule w)) else None),
       fpLagAlertSec = fwLagAlertSec w, fpWriteQuorum = fwWriteQuorum w,
       fpAutoFailover = (if fwAutoFailover w then Some True else None),
       fpAutoFailoverSec = (if fwAutoFailover w then Some (fwAutoFailoverSec w) else None)\<rparr>\<rparr>"

definition submitFederation :: "federation_wizard \<Rightarrow> federation_wizard \<times> FederatedBucketCreateRequest list" where
  "submitFederation w =
     (if trim (fwName w) = []
      then (w\<lparr>fwStepError := Some ''Federation name is required (go back to Review to set it).''\<rparr>, [])
      else (w\<lparr>fwStepError := None, fwSaving := True\<rparr>, [federationRequest w]))"

datatype federation_event =
    PrimaryRegion string
  | PrimaryBucket string
  | AddReplica
  | ReplicaRegion nat string
  | ReplicaBucket nat string
  | RemoveReplica nat
  | PickSyncMode FederationSyncMode
  | TypeSchedule string
  | PickLag "int option"
  | TypeLag string
  | PickQuorum int
  | TickFailover bool
  | PickFailover int
  | TypeName string
  | FederationNext
  | FederationBack
  | FederationSubmit
  | FederationSettled

fun federationStep ::
  "federation_event \<Rightarrow> federation_wizard \<Rightarrow> federation_wizard \<times> FederatedBucketCreateRequest list" where
  "federationStep (PrimaryRegion r) w =
     (if fwStep w = 1 then w\<lparr>fwPrimary := \<lparr>ftRegionId = r, ftBucket = []\<rparr>\<rparr> else w, [])"
| "federationStep (PrimaryBucket b) w =
     (if fwStep w = 1 \<and> ftRegionId (fwPrimary w) \<noteq> []
      then w\<lparr>fwPrimary := (fwPrimary w)\<lparr>ftBucket := b\<rparr>\<rparr> else w, [])"
| "federationStep AddReplica w = (if fwStep w = 2 then addReplica w else w, [])"
| "federationStep (ReplicaRegion i r) w =
     (if fwStep w = 2 then updateReplica i \<lparr>ftRegionId = r, ftBucket = []\<rparr> w else w, [])"
| "federationStep (ReplicaBucket i b) w =
     (if fwStep w = 2 \<and> i < length (fwReplicas w) \<and> ftRegionId (fwReplicas w ! i) \<noteq> [] \<and>
         \<not> isOptionTaken w (fwReplicas w ! i) ((fwReplicas w ! i)\<lparr>ftBucket := b\<rparr>)
      then updateReplica i ((fwReplicas w ! i)\<lparr>ftBucket := b\<rparr>) w else w, [])"
| "federationStep (RemoveReplica i) w =
     (if fwStep w = 2 \<and> 1 < length (fwReplicas w) \<and> i < length (fwReplicas w) then removeReplica i w else w, [])"
| "federationStep (PickSyncMode m) w = (if fwStep w = 3 then w\<lparr>fwSyncMode := m\<rparr> else w, [])"
| "federationStep (TypeSchedule s) w =
     (if fwStep w = 3 \<and> fwSyncMode w = Scheduled then w\<lparr>fwSchedule := s\<rparr> else w, [])"
| "federationStep (PickLag n) w =
     (if fwStep w = 3
      then (case n of None \<Rightarrow> w\<lparr>fwLagCustom := True\<rparr>
        | Some k \<Rightarrow> if k \<in> set LAG_PRESETS then w\<lparr>fwLagCustom := False, fwLagAlertSec := k\<rparr> else w)
      else w, [])"
| "federationStep (TypeLag s) w =
     (if fwStep w = 3 \<and> fwLagCustom w
      then w\<lparr>fwLagAlertSec := (case parseInt s of None \<Rightarrow> 300 | Some n \<Rightarrow> n)\<rparr> else w, [])"
| "federationStep (PickQuorum n) w =
     (if fwStep w = 3 \<and> 1 \<le> n \<and> n \<le> 1 + int (length (fwReplicas w)) then w\<lparr>fwWriteQuorum := n\<rparr> else w, [])"
| "federationStep (TickFailover b) w = (if fwStep w = 3 then w\<lparr>fwAutoFailover := b\<rparr> else w, [])"
| "federationStep (PickFailover n) w =
     (if fwStep w = 3 \<and> fwAutoFailover w \<and> n \<in> set FAILOVER_TIMEOUTS then w\<lparr>fwAutoFailoverSec := n\<rparr> else w, [])"
| "federationStep (TypeName s) w = (if fwStep w = 4 then w\<lparr>fwName := s\<rparr> else w, [])"
| "federationStep FederationNext w = (if fwStep w < 5 then handleNext w else w, [])"
| "federationStep FederationBack w = (if 1 < fwStep w then handleBack w else w, [])"
| "federationStep FederationSubmit w =
     (if fwStep w = 5 \<and> \<not> fwSaving w then submitFederation w else (w, []))"
| "federationStep FederationSettled w = (w\<lparr>fwSaving := False\<rparr>, [])"

definition federationAfter :: "federation_event list \<Rightarrow> federation_wizard" where
  "federationAfter es = foldl (\<lambda>w e. fst (federationStep e w)) freshFederation es"

section \<open>What a submitted federation looks like\<close>

text \<open>Every step before the one on screen is satisfied.\<close>

definition wizardReady :: "federation_wizard \<Rightarrow> bool" where
  "wizardReady w \<longleftrightarrow> 1 \<le> fwStep w \<and> fwStep w \<le> 5 \<and> fwReplicas w \<noteq> [] \<and> length (fwReplicas w) \<le> 10 \<and>
     fwAutoFailoverSec w \<in> set FAILOVER_TIMEOUTS \<and>
     (\<forall>k. 1 \<le> k \<and> k < fwStep w \<longrightarrow> canNextFromStep w k)"

text \<open>The message of a step and its check say the same.\<close>

lemma errorForStep_iff:
  "fwReplicas w \<noteq> [] \<Longrightarrow> errorForStep w s = None \<longleftrightarrow> canNextFromStep w s"
  by (auto simp: errorForStep_def canNextFromStep_def completeTarget_def replicasValid_def list_all_iff list_ex_iff)

lemmas step_checks = canNextFromStep_def replicasValid_def duplicateReplica_def quorumInRange_def

lemma ready_next:
  assumes "wizardReady w" and "fwStep w < 5"
  shows "wizardReady (handleNext w)"
proof (cases "errorForStep w (fwStep w)")
  case None
  then have "canNextFromStep w (fwStep w)" using assms errorForStep_iff by (simp add: wizardReady_def)
  moreover have "canNextFromStep (handleNext w) k = canNextFromStep w k" for k
    by (simp add: handleNext_def None step_checks)
  ultimately show ?thesis using assms
    by (auto simp: wizardReady_def handleNext_def None less_Suc_eq)
next
  case (Some e)
  moreover have "canNextFromStep (handleNext w) k = canNextFromStep w k" for k
    by (simp add: handleNext_def Some step_checks)
  ultimately show ?thesis using assms by (simp add: wizardReady_def handleNext_def)
qed

lemma ready_edit:
  assumes "wizardReady w" and "fwStep w' = fwStep w" and "fwReplicas w' \<noteq> []" and "length (fwReplicas w') \<le> 10"
    and "fwAutoFailoverSec w' \<in> set FAILOVER_TIMEOUTS"
    and "\<And>k. 1 \<le> k \<Longrightarrow> k < fwStep w \<Longrightarrow> canNextFromStep w' k = canNextFromStep w k"
  shows "wizardReady w'"
  using assms by (simp add: wizardReady_def)

lemma step_small: "(1 :: nat) \<le> k \<Longrightarrow> k < 2 \<Longrightarrow> k = 1" "(1 :: nat) \<le> k \<Longrightarrow> k < 3 \<Longrightarrow> k = 1 \<or> k = 2"
  "(1 :: nat) \<le> k \<Longrightarrow> k < 4 \<Longrightarrow> k = 1 \<or> k = 2 \<or> k = 3"
  by linarith+

lemma ready_step: "wizardReady w \<Longrightarrow> wizardReady (fst (federationStep e w))"
proof -
  assume r: "wizardReady w"
  then have b: "fwReplicas w \<noteq> []" "length (fwReplicas w) \<le> 10" "fwAutoFailoverSec w \<in> set FAILOVER_TIMEOUTS"
    by (simp_all add: wizardReady_def)
  show ?thesis
  proof (cases e)
    case FederationNext
    then show ?thesis using r ready_next by simp
  next
    case FederationBack
    moreover have "canNextFromStep (handleBack w) k = canNextFromStep w k" for k
      by (simp add: handleBack_def step_checks)
    ultimately show ?thesis using r by (auto simp: wizardReady_def handleBack_def)
  next
    case FederationSubmit
    have "canNextFromStep (fst (submitFederation w)) k = canNextFromStep w k" for k
      by (simp add: submitFederation_def step_checks)
    then show ?thesis using FederationSubmit r by (auto simp: wizardReady_def submitFederation_def)
  qed (use r b step_small in \<open>auto intro!: ready_edit [OF r] simp: step_checks addReplica_def
      updateReplica_def removeReplica_def submitFederation_def split: option.splits\<close>)
qed

lemma ready_after: "wizardReady (federationAfter es)"
proof (induction es rule: rev_induct)
  case Nil
  then show ?case by (simp add: federationAfter_def wizardReady_def freshFederation_def FAILOVER_TIMEOUTS_def)
next
  case (snoc e es)
  then show ?case using ready_step by (simp add: federationAfter_def)
qed

lemma firstDuplicate_none:
  "list_all completeTarget rs \<Longrightarrow> firstDuplicate seen rs = None \<Longrightarrow>
   distinct (map targetKey rs) \<and> set (map targetKey rs) \<inter> set seen = {}"
proof (induction rs arbitrary: seen)
  case (Cons r rs)
  then have "targetKey r \<notin> set seen" "firstDuplicate (targetKey r # seen) rs = None" "list_all completeTarget rs"
    by (auto split: if_splits)
  with Cons.IH [OF this(3,2)] show ?case by auto
qed simp

text \<open>
  C15. Whatever the operator does in the federation wizard, going back and editing
  included, a request that leaves it is complete: a name, a primary and one to ten replicas, all of
  them with region and bucket and no two the same, a write quorum the members can reach, a cron
  expression exactly in scheduled mode, and a failover timeout exactly when failover is on.
\<close>

theorem federation_request_valid:
  assumes "req \<in> set (snd (federationStep e (federationAfter es)))"
  shows "fcName req \<noteq> [] \<and> list_all completeTarget (fcPrimary req # fcReplicas req) \<and>
    distinct (fcPrimary req # fcReplicas req) \<and> 1 \<le> length (fcReplicas req) \<and> length (fcReplicas req) \<le> 10 \<and>
    (\<exists>p. fcPolicy req = Some p \<and> 1 \<le> fpWriteQuorum p \<and> fpWriteQuorum p \<le> 1 + int (length (fcReplicas req)) \<and>
       (case fpSchedule p of None \<Rightarrow> fpSyncMode p = ''continuous''
          | Some s \<Rightarrow> fpSyncMode p = ''scheduled'' \<and> s \<noteq> []) \<and>
       (case fpAutoFailoverSec p of None \<Rightarrow> fpAutoFailover p = None
          | Some n \<Rightarrow> fpAutoFailover p = Some True \<and> n \<in> set FAILOVER_TIMEOUTS))"
proof -
  let ?w = "federationAfter es"
  have e: "fwStep ?w = 5" "trim (fwName ?w) \<noteq> []" "req = federationRequest ?w"
    using assms by (cases e; auto simp: submitFederation_def split: if_splits)+
  have r: "wizardReady ?w" by (rule ready_after)
  then have c: "canNextFromStep ?w 1" "canNextFromStep ?w 2" "canNextFromStep ?w 3"
    using e(1) by (auto simp: wizardReady_def)
  have rep: "list_all completeTarget (fwReplicas ?w)" "firstDuplicate (claimedKeys [fwPrimary ?w]) (fwReplicas ?w) = None"
    using c(2) by (auto simp: step_checks)
  have prim: "completeTarget (fwPrimary ?w)" using c(1) by (simp add: canNextFromStep_def)
  have "distinct (map targetKey (fwReplicas ?w))" "targetKey (fwPrimary ?w) \<notin> targetKey ` set (fwReplicas ?w)"
    using firstDuplicate_none [OF rep] prim by (auto simp: claimedKeys_def)
  then have d: "distinct (fwPrimary ?w # fwReplicas ?w)" by (auto simp: distinct_map)
  have q: "quorumInRange ?w" "\<not> (fwSyncMode ?w = Scheduled \<and> trim (fwSchedule ?w) = [])"
    using c(3) by (simp_all add: canNextFromStep_def)
  have "1 \<le> length (fwReplicas ?w)" using r by (cases "fwReplicas ?w") (auto simp: wizardReady_def)
  then show ?thesis using r e d q rep prim
    by (cases "fwSyncMode ?w") (auto simp: federationRequest_def wizardReady_def quorumInRange_def)
qed

text \<open>A run of the wizard to its end.\<close>

definition federationTour :: "federation_event list" where
  "federationTour = [PrimaryRegion ''r1'', PrimaryBucket ''b'', FederationNext, ReplicaRegion 0 ''r2'',
     ReplicaBucket 0 ''b'', FederationNext, PickQuorum 2, FederationNext, TypeName '' photos '', FederationNext]"

theorem federation_request_valid_witness:
  "\<exists>req. req \<in> set (snd (federationStep FederationSubmit (federationAfter federationTour))) \<and> fcName req \<noteq> []"
proof -
  let ?req = "federationRequest (federationAfter federationTour)"
  have "fwStep (federationAfter federationTour) = 5 \<and> \<not> fwSaving (federationAfter federationTour) \<and>
      trim (fwName (federationAfter federationTour)) = ''photos''" by code_simp
  then have r: "?req \<in> set (snd (federationStep FederationSubmit (federationAfter federationTour)))"
    by (simp add: submitFederation_def)
  from federation_request_valid [OF r] r show ?thesis by blast
qed

text \<open>
  The page asks for a name of 3 to 64 letters, digits, dashes and underscores, but only a blank name is
  stopped; and the bounds of a custom lag, 30 and 86400 seconds, stand on the input only.
\<close>

theorem federation_name_unchecked:
  "\<exists>es req. req \<in> set (snd (federationStep FederationSubmit (federationAfter es))) \<and>
     fcName req = ''!'' \<and> map_option fpLagAlertSec (fcPolicy req) = Some (- 5)"
proof (intro exI conjI)
  let ?es = "[PrimaryRegion ''r1'', PrimaryBucket ''b'', FederationNext, ReplicaRegion 0 ''r2'',
     ReplicaBucket 0 ''b'', FederationNext, PickLag None, TypeLag ''-5'', FederationNext, TypeName ''!'', FederationNext]"
  have "fwStep (federationAfter ?es) = 5 \<and> \<not> fwSaving (federationAfter ?es) \<and>
      trim (fwName (federationAfter ?es)) = ''!'' \<and> fwLagAlertSec (federationAfter ?es) = - 5" by code_simp
  then show "federationRequest (federationAfter ?es) \<in> set (snd (federationStep FederationSubmit (federationAfter ?es)))"
    "fcName (federationRequest (federationAfter ?es)) = ''!''"
    "map_option fpLagAlertSec (fcPolicy (federationRequest (federationAfter ?es))) = Some (- 5)"
    by (simp_all add: submitFederation_def federationRequest_def)
qed

section \<open>The backup wizard\<close>

datatype BackupMode = MirrorMode | SnapshotMode

fun backupModeName :: "BackupMode \<Rightarrow> string" where
  "backupModeName MirrorMode = ''mirror''"
| "backupModeName SnapshotMode = ''snapshot''"

datatype ScheduleKind = Manual | Daily | Weekly | Monthly | CustomCron

definition clampInt :: "int option \<Rightarrow> int \<Rightarrow> int \<Rightarrow> int \<Rightarrow> int" where
  "clampInt n lo hi fallback =
     (case n of None \<Rightarrow> fallback | Some k \<Rightarrow> if k < lo then lo else if hi < k then hi else k)"

record schedule_opts =
  soKind :: ScheduleKind
  soTime :: string
  soWeekday :: string
  soDayOfMonth :: string
  soCustom :: string

definition scheduleTime :: "string \<Rightarrow> int \<times> int" where
  "scheduleTime time =
     (let ws = splitOn CHR '':'' (if time = [] then ''03:00'' else time);
          hStr = hd ws; mStr = (case tl ws of [] \<Rightarrow> ''0'' | m # _ \<Rightarrow> m)
      in (clampInt (parseInt hStr) 0 23 3, clampInt (parseInt mStr) 0 59 0))"

definition cron :: "int \<Rightarrow> int \<Rightarrow> string \<Rightarrow> string \<Rightarrow> string" where
  "cron m h dayM dow = decInt m @ '' '' @ decInt h @ '' '' @ dayM @ '' * '' @ dow"

definition buildSchedule :: "schedule_opts \<Rightarrow> string" where
  "buildSchedule o1 =
     (case scheduleTime (soTime o1) of (h, m) \<Rightarrow>
        (case soKind o1 of
           Manual \<Rightarrow> ''manual''
         | CustomCron \<Rightarrow> trim (soCustom o1)
         | Daily \<Rightarrow> cron m h ''*'' ''*''
         | Weekly \<Rightarrow> cron m h ''*'' (decInt (clampInt (parseInt (soWeekday o1)) 0 6 1))
         | Monthly \<Rightarrow> cron m h (decInt (clampInt (parseInt (soDayOfMonth o1)) 1 28 1)) ''*''))"

text \<open>The input of a keep count.\<close>

definition keepCount :: "string \<Rightarrow> int" where
  "keepCount s = (case parseInt s of None \<Rightarrow> 0 | Some n \<Rightarrow> if 0 \<le> n then n else 0)"

record backup_wizard =
  bwStep :: nat
  bwSrcRegion :: string
  bwSrcBucket :: string
  bwSrcPrefix :: string
  bwDstRegion :: string
  bwDstBucket :: string
  bwDstPrefix :: string
  bwMode :: BackupMode
  bwKeepDaily :: int
  bwKeepWeekly :: int
  bwKeepMonthly :: int
  bwSchedule :: schedule_opts
  bwName :: string
  bwSaving :: bool

definition freshBackup :: backup_wizard where
  "freshBackup = \<lparr>bwStep = 1, bwSrcRegion = [], bwSrcBucket = [], bwSrcPrefix = [], bwDstRegion = [],
     bwDstBucket = [], bwDstPrefix = [], bwMode = MirrorMode, bwKeepDaily = 7, bwKeepWeekly = 4,
     bwKeepMonthly = 12, bwSchedule = \<lparr>soKind = Manual, soTime = ''03:00'', soWeekday = ''1'',
     soDayOfMonth = ''1'', soCustom = ''0 3 * * *''\<rparr>, bwName = [], bwSaving = False\<rparr>"

definition canNextBackup :: "backup_wizard \<Rightarrow> nat \<Rightarrow> bool" where
  "canNextBackup w s =
     (if s = 1 then bwSrcRegion w \<noteq> [] \<and> bwSrcBucket w \<noteq> []
      else if s = 2 then bwDstRegion w \<noteq> [] \<and> bwDstBucket w \<noteq> []
      else if s = 3 then bwMode w = SnapshotMode \<longrightarrow> 0 < bwKeepDaily w + bwKeepWeekly w + bwKeepMonthly w
      else if s = 4 then buildSchedule (bwSchedule w) \<noteq> []
      else True)"

definition optText :: "string \<Rightarrow> json" where
  "optText s = (if s = [] then JUndef else JStr s)"

definition backupRequest :: "backup_wizard \<Rightarrow> json" where
  "backupRequest w = jobj
     [(''name'', JStr (trim (bwName w))), (''srcRegionId'', JStr (bwSrcRegion w)),
      (''srcBucket'', JStr (bwSrcBucket w)), (''srcPrefix'', optText (bwSrcPrefix w)),
      (''dstRegionId'', JStr (bwDstRegion w)), (''dstBucket'', JStr (bwDstBucket w)),
      (''dstPrefix'', if bwMode w = SnapshotMode then JUndef else optText (bwDstPrefix w)),
      (''schedule'', JStr (buildSchedule (bwSchedule w))), (''mode'', JStr (backupModeName (bwMode w))),
      (''retention'', if bwMode w = SnapshotMode
         then JObj [(''keepDaily'', JNum (bwKeepDaily w)), (''keepWeekly'', JNum (bwKeepWeekly w)),
           (''keepMonthly'', JNum (bwKeepMonthly w))] else JUndef)]"

datatype backup_event =
    SrcRegion string
  | SrcBucket string
  | SrcPrefix string
  | DstRegion string
  | DstBucket string
  | DstPrefix string
  | PickMode BackupMode
  | KeepDaily string
  | KeepWeekly string
  | KeepMonthly string
  | EditSchedule schedule_opts
  | BackupName string
  | BackupNext
  | BackupBack
  | BackupSubmit
  | BackupSettled

fun backupStep :: "backup_event \<Rightarrow> backup_wizard \<Rightarrow> backup_wizard \<times> json list" where
  "backupStep (SrcRegion r) w = (if bwStep w = 1 then w\<lparr>bwSrcRegion := r, bwSrcBucket := []\<rparr> else w, [])"
| "backupStep (SrcBucket b) w =
     (if bwStep w = 1 \<and> bwSrcRegion w \<noteq> [] then w\<lparr>bwSrcBucket := b\<rparr> else w, [])"
| "backupStep (SrcPrefix s) w = (if bwStep w = 1 then w\<lparr>bwSrcPrefix := s\<rparr> else w, [])"
| "backupStep (DstRegion r) w = (if bwStep w = 2 then w\<lparr>bwDstRegion := r, bwDstBucket := []\<rparr> else w, [])"
| "backupStep (DstBucket b) w =
     (if bwStep w = 2 \<and> bwDstRegion w \<noteq> [] then w\<lparr>bwDstBucket := b\<rparr> else w, [])"
| "backupStep (DstPrefix s) w = (if bwStep w = 2 then w\<lparr>bwDstPrefix := s\<rparr> else w, [])"
| "backupStep (PickMode m) w = (if bwStep w = 3 then w\<lparr>bwMode := m\<rparr> else w, [])"
| "backupStep (KeepDaily s) w =
     (if bwStep w = 3 \<and> bwMode w = SnapshotMode then w\<lparr>bwKeepDaily := keepCount s\<rparr> else w, [])"
| "backupStep (KeepWeekly s) w =
     (if bwStep w = 3 \<and> bwMode w = SnapshotMode then w\<lparr>bwKeepWeekly := keepCount s\<rparr> else w, [])"
| "backupStep (KeepMonthly s) w =
     (if bwStep w = 3 \<and> bwMode w = SnapshotMode then w\<lparr>bwKeepMonthly := keepCount s\<rparr> else w, [])"
| "backupStep (EditSchedule p) w = (if bwStep w = 4 then w\<lparr>bwSchedule := p\<rparr> else w, [])"
| "backupStep (BackupName s) w = (if bwStep w = 5 then w\<lparr>bwName := s\<rparr> else w, [])"
| "backupStep BackupNext w =
     (if bwStep w < 5 \<and> canNextBackup w (bwStep w) then w\<lparr>bwStep := bwStep w + 1\<rparr> else w, [])"
| "backupStep BackupBack w = (if 1 < bwStep w then w\<lparr>bwStep := bwStep w - 1\<rparr> else w, [])"
| "backupStep BackupSubmit w =
     (if bwStep w = 5 \<and> trim (bwName w) \<noteq> [] \<and> \<not> bwSaving w \<and> buildSchedule (bwSchedule w) \<noteq> []
      then (w\<lparr>bwSaving := True\<rparr>, [backupRequest w]) else (w, []))"
| "backupStep BackupSettled w = (w\<lparr>bwSaving := False\<rparr>, [])"

definition backupAfter :: "backup_event list \<Rightarrow> backup_wizard" where
  "backupAfter es = foldl (\<lambda>w e. fst (backupStep e w)) freshBackup es"

section \<open>What a submitted backup looks like\<close>

definition backupReady :: "backup_wizard \<Rightarrow> bool" where
  "backupReady w \<longleftrightarrow> 1 \<le> bwStep w \<and> bwStep w \<le> 5 \<and>
     0 \<le> bwKeepDaily w \<and> 0 \<le> bwKeepWeekly w \<and> 0 \<le> bwKeepMonthly w \<and>
     (\<forall>k. 1 \<le> k \<and> k < bwStep w \<longrightarrow> canNextBackup w k)"

lemma keepCount_nonneg: "0 \<le> keepCount s"
  by (simp add: keepCount_def split: option.splits)

lemma backup_edit:
  assumes "backupReady w" and "bwStep w' = bwStep w"
    and "0 \<le> bwKeepDaily w'" and "0 \<le> bwKeepWeekly w'" and "0 \<le> bwKeepMonthly w'"
    and "\<And>k. 1 \<le> k \<Longrightarrow> k < bwStep w \<Longrightarrow> canNextBackup w' k = canNextBackup w k"
  shows "backupReady w'"
  using assms by (simp add: backupReady_def)

lemma backup_ready_step: "backupReady w \<Longrightarrow> backupReady (fst (backupStep e w))"
proof -
  assume r: "backupReady w"
  then have b: "0 \<le> bwKeepDaily w" "0 \<le> bwKeepWeekly w" "0 \<le> bwKeepMonthly w" by (simp_all add: backupReady_def)
  show ?thesis
  proof (cases e)
    case BackupNext
    moreover have "canNextBackup (w\<lparr>bwStep := n\<rparr>) k = canNextBackup w k" for n k by (simp add: canNextBackup_def)
    ultimately show ?thesis using r by (auto simp: backupReady_def less_Suc_eq)
  next
    case BackupBack
    moreover have "canNextBackup (w\<lparr>bwStep := n\<rparr>) k = canNextBackup w k" for n k by (simp add: canNextBackup_def)
    ultimately show ?thesis using r by (auto simp: backupReady_def)
  qed (use r b keepCount_nonneg in \<open>auto intro!: backup_edit [OF r] simp: canNextBackup_def\<close>)
qed

lemma backup_ready_after: "backupReady (backupAfter es)"
proof (induction es rule: rev_induct)
  case Nil
  then show ?case by (simp add: backupAfter_def backupReady_def freshBackup_def)
next
  case (snoc e es)
  then show ?case using backup_ready_step by (simp add: backupAfter_def)
qed

text \<open>
  A request that leaves the backup wizard is complete and consistent: name, source and
  destination are filled in and there is a schedule; a snapshot backup keeps something and names no
  destination prefix, a mirror backup has no retention.
\<close>

theorem backup_request_valid:
  assumes "req \<in> set (snd (backupStep e (backupAfter es)))"
  shows "list_all (\<lambda>k. \<exists>s. getProp req k = JStr s \<and> s \<noteq> [])
      [''name'', ''srcRegionId'', ''srcBucket'', ''dstRegionId'', ''dstBucket'', ''schedule''] \<and>
    (case getProp req ''retention'' of
       JObj _ \<Rightarrow> getProp req ''mode'' = JStr ''snapshot'' \<and> getProp req ''dstPrefix'' = JUndef \<and>
         (\<exists>d w m. getProp (getProp req ''retention'') ''keepDaily'' = JNum d \<and>
            getProp (getProp req ''retention'') ''keepWeekly'' = JNum w \<and>
            getProp (getProp req ''retention'') ''keepMonthly'' = JNum m \<and>
            0 \<le> d \<and> 0 \<le> w \<and> 0 \<le> m \<and> 0 < d + w + m)
     | r \<Rightarrow> r = JUndef \<and> getProp req ''mode'' = JStr ''mirror'')"
proof -
  let ?w = "backupAfter es"
  have e: "bwStep ?w = 5" "trim (bwName ?w) \<noteq> []" "buildSchedule (bwSchedule ?w) \<noteq> []" "req = backupRequest ?w"
    using assms by (cases e; auto split: if_splits)+
  have r: "backupReady ?w" by (rule backup_ready_after)
  then have c: "canNextBackup ?w 1" "canNextBackup ?w 2" "canNextBackup ?w 3" using e(1) by (auto simp: backupReady_def)
  have f: "bwSrcRegion ?w \<noteq> []" "bwSrcBucket ?w \<noteq> []" "bwDstRegion ?w \<noteq> []" "bwDstBucket ?w \<noteq> []"
    and k: "bwMode ?w = SnapshotMode \<Longrightarrow> 0 < bwKeepDaily ?w + bwKeepWeekly ?w + bwKeepMonthly ?w"
    using c by (simp_all add: canNextBackup_def)
  have n: "0 \<le> bwKeepDaily ?w" "0 \<le> bwKeepWeekly ?w" "0 \<le> bwKeepMonthly ?w" using r by (simp_all add: backupReady_def)
  show ?thesis using e(2,3) f k n unfolding e(4)
    by (cases "bwMode ?w") (simp_all add: backupRequest_def jobj_def optText_def)
qed

definition backupTour :: "backup_event list" where
  "backupTour = [SrcRegion ''r1'', SrcBucket ''b'', BackupNext, DstRegion ''r2'', DstBucket ''c'', BackupNext,
     PickMode SnapshotMode, KeepDaily ''3'', BackupNext, BackupNext, BackupName ''nightly'']"

theorem backup_request_valid_witness:
  "\<exists>req. req \<in> set (snd (backupStep BackupSubmit (backupAfter backupTour))) \<and>
     (\<exists>s. getProp req ''dstBucket'' = JStr s \<and> s \<noteq> [])"
proof -
  let ?req = "backupRequest (backupAfter backupTour)"
  have "bwStep (backupAfter backupTour) = 5 \<and> \<not> bwSaving (backupAfter backupTour) \<and>
      trim (bwName (backupAfter backupTour)) = ''nightly'' \<and>
      buildSchedule (bwSchedule (backupAfter backupTour)) = ''manual''" by code_simp
  then have r: "?req \<in> set (snd (backupStep BackupSubmit (backupAfter backupTour)))" by simp
  from backup_request_valid [OF r] have "\<exists>s. getProp ?req ''dstBucket'' = JStr s \<and> s \<noteq> []" by simp
  with r show ?thesis by blast
qed

lemma clampInt_range: "lo \<le> fallback \<Longrightarrow> fallback \<le> hi \<Longrightarrow> lo \<le> clampInt n lo hi fallback \<and> clampInt n lo hi fallback \<le> hi"
  by (auto simp: clampInt_def split: option.splits)

text \<open>
  A schedule built from the choices of the wizard is a five-field cron expression
  whose fields are in range, whatever was typed; and a time of day that is one is scheduled
  at exactly that hour and minute.
\<close>

theorem cron_fields_in_range:
  assumes "soKind p \<in> {Daily, Weekly, Monthly}"
  shows "(\<exists>m h d w. buildSchedule p = cron m h d w \<and> 0 \<le> m \<and> m \<le> 59 \<and> 0 \<le> h \<and> h \<le> 23 \<and>
      (d = ''*'' \<or> (\<exists>k. 1 \<le> k \<and> k \<le> 28 \<and> d = decInt k)) \<and> (w = ''*'' \<or> (\<exists>k. 0 \<le> k \<and> k \<le> 6 \<and> w = decInt k))) \<and>
    (\<forall>hs ms. soTime p = hs @ '':'' @ ms \<and> list_all digitChar hs \<and> hs \<noteq> [] \<and> digitsValue hs \<le> 23 \<and>
       list_all digitChar ms \<and> ms \<noteq> [] \<and> digitsValue ms \<le> 59 \<and> 0 \<le> digitsValue hs \<and> 0 \<le> digitsValue ms \<longrightarrow>
       (\<exists>d w. buildSchedule p = cron (digitsValue ms) (digitsValue hs) d w))"
proof
  obtain h m where t: "scheduleTime (soTime p) = (h, m)" by fastforce
  then have r: "0 \<le> h" "h \<le> 23" "0 \<le> m" "m \<le> 59"
    by (auto simp: scheduleTime_def Let_def clampInt_range)
  have w: "0 \<le> clampInt n 0 6 1 \<and> clampInt n 0 6 1 \<le> 6" "1 \<le> clampInt n 1 28 1 \<and> clampInt n 1 28 1 \<le> 28" for n
    by (simp_all add: clampInt_range)
  show "\<exists>m h d w. buildSchedule p = cron m h d w \<and> 0 \<le> m \<and> m \<le> 59 \<and> 0 \<le> h \<and> h \<le> 23 \<and>
      (d = ''*'' \<or> (\<exists>k. 1 \<le> k \<and> k \<le> 28 \<and> d = decInt k)) \<and> (w = ''*'' \<or> (\<exists>k. 0 \<le> k \<and> k \<le> 6 \<and> w = decInt k))"
    using assms r w by (auto simp: buildSchedule_def t; blast)
  have colon: "CHR '':'' \<notin> set s" if "list_all digitChar s" for s
  proof -
    have "\<not> digitChar CHR '':''" by code_simp
    then show ?thesis using that by (auto simp: list_all_iff)
  qed
  show "\<forall>hs ms. soTime p = hs @ '':'' @ ms \<and> list_all digitChar hs \<and> hs \<noteq> [] \<and> digitsValue hs \<le> 23 \<and>
       list_all digitChar ms \<and> ms \<noteq> [] \<and> digitsValue ms \<le> 59 \<and> 0 \<le> digitsValue hs \<and> 0 \<le> digitsValue ms \<longrightarrow>
       (\<exists>d w. buildSchedule p = cron (digitsValue ms) (digitsValue hs) d w)"
  proof (intro allI impI, elim conjE)
    fix hs ms assume a: "soTime p = hs @ '':'' @ ms" "list_all digitChar hs" "hs \<noteq> []" "digitsValue hs \<le> 23"
      "list_all digitChar ms" "ms \<noteq> []" "digitsValue ms \<le> 59" "0 \<le> digitsValue hs" "0 \<le> digitsValue ms"
    have "scheduleTime (soTime p) = (digitsValue hs, digitsValue ms)"
      using a colon [of hs] colon [of ms]
      by (simp add: scheduleTime_def splitOn_append splitOn_no_delim parseInt_digits clampInt_def)
    then show "\<exists>d w. buildSchedule p = cron (digitsValue ms) (digitsValue hs) d w"
      using assms by (auto simp: buildSchedule_def; blast)
  qed
qed

theorem cron_fields_in_range_witness:
  "\<exists>d w. buildSchedule \<lparr>soKind = Weekly, soTime = ''07:45'', soWeekday = ''5'', soDayOfMonth = [], soCustom = []\<rparr> =
     cron 45 7 d w"
proof -
  let ?p = "\<lparr>soKind = Weekly, soTime = ''07:45'', soWeekday = ''5'', soDayOfMonth = [], soCustom = []\<rparr>"
  have d: "list_all digitChar ''07''" "list_all digitChar ''45''" "digitsValue ''07'' = 7" "digitsValue ''45'' = 45"
    by code_simp+
  have k: "soKind ?p \<in> {Daily, Weekly, Monthly}" by simp
  from cron_fields_in_range [OF k] have "\<forall>hs ms. soTime ?p = hs @ '':'' @ ms \<and> list_all digitChar hs \<and> hs \<noteq> [] \<and>
      digitsValue hs \<le> 23 \<and> list_all digitChar ms \<and> ms \<noteq> [] \<and> digitsValue ms \<le> 59 \<and> 0 \<le> digitsValue hs \<and>
      0 \<le> digitsValue ms \<longrightarrow> (\<exists>d w. buildSchedule ?p = cron (digitsValue ms) (digitsValue hs) d w)" by (rule conjunct2)
  from this [rule_format, of "''07''" "''45''"] d show ?thesis by simp
qed

section \<open>The restore wizard\<close>

text \<open>
  The destination is filled with the source of the backup whenever it is empty and the backup is
  known; this happens during rendering, so every event ends with it.
\<close>

datatype snapshot_choice = LatestSnapshot | ExplicitSnapshot

record restore_wizard =
  rwBackup :: "(string \<times> string \<times> string) option"
  rwStep :: nat
  rwChoice :: snapshot_choice
  rwTimestamp :: string
  rwDstRegion :: string
  rwDstBucket :: string
  rwDstPrefix :: string
  rwOverwrite :: bool
  rwSaving :: bool
  rwResult :: bool

definition freshRestore :: "string option \<Rightarrow> restore_wizard" where
  "freshRestore ts = \<lparr>rwBackup = None, rwStep = 1,
     rwChoice = (if present ts then ExplicitSnapshot else LatestSnapshot),
     rwTimestamp = (case ts of None \<Rightarrow> [] | Some t \<Rightarrow> t), rwDstRegion = [], rwDstBucket = [],
     rwDstPrefix = [], rwOverwrite = False, rwSaving = False, rwResult = False\<rparr>"

definition prefillDestination :: "restore_wizard \<Rightarrow> restore_wizard" where
  "prefillDestination w =
     (if rwDstRegion w \<noteq> [] \<or> rwDstBucket w \<noteq> [] then w
      else (case rwBackup w of None \<Rightarrow> w
          | Some (r, b, p) \<Rightarrow> w\<lparr>rwDstRegion := r, rwDstBucket := b\<rparr>))"

definition restoringInPlace :: "restore_wizard \<Rightarrow> bool" where
  "restoringInPlace w =
     (case rwBackup w of None \<Rightarrow> False
      | Some (r, b, p) \<Rightarrow> rwDstRegion w = r \<and> rwDstBucket w = b \<and> (rwDstPrefix w = [] \<or> rwDstPrefix w = p))"

definition canAdvance :: "nat \<Rightarrow> restore_wizard \<Rightarrow> bool" where
  "canAdvance snapshotCount w =
     (if rwStep w = 1
      then (case rwChoice w of LatestSnapshot \<Rightarrow> 0 < snapshotCount | ExplicitSnapshot \<Rightarrow> rwTimestamp w \<noteq> [])
      else if rwStep w = 2 then rwDstRegion w \<noteq> [] \<and> rwDstBucket w \<noteq> [] else True)"

definition overwriteWarning :: "restore_wizard \<Rightarrow> bool" where
  "overwriteWarning w \<longleftrightarrow> rwOverwrite w \<and> restoringInPlace w"

definition restoreRequest :: "restore_wizard \<Rightarrow> json" where
  "restoreRequest w = jobj
     [(''snapshotTimestamp'', JStr (if rwChoice w = LatestSnapshot then ''latest'' else rwTimestamp w)),
      (''dstRegionId'', JStr (rwDstRegion w)), (''dstBucket'', JStr (rwDstBucket w)),
      (''dstPrefix'', optText (rwDstPrefix w)), (''overwriteExisting'', JBool (rwOverwrite w))]"

datatype restore_event =
    BackupArrives string string string
  | ChooseSnapshot snapshot_choice
  | PickSnapshot string
  | RestoreRegion string
  | RestoreBucket string
  | RestorePrefix string
  | TickOverwrite bool
  | RestoreNext nat
  | RestoreBack
  | RestoreSubmit
  | RestoreDone bool
  | RestoreAgain

fun restoreMove :: "restore_event \<Rightarrow> restore_wizard \<Rightarrow> restore_wizard \<times> json list" where
  "restoreMove (BackupArrives r b p) w = (w\<lparr>rwBackup := Some (r, b, p)\<rparr>, [])"
| "restoreMove (ChooseSnapshot c) w = (if rwStep w = 1 then w\<lparr>rwChoice := c\<rparr> else w, [])"
| "restoreMove (PickSnapshot ts) w =
     (if rwStep w = 1 \<and> rwChoice w = ExplicitSnapshot then w\<lparr>rwTimestamp := ts\<rparr> else w, [])"
| "restoreMove (RestoreRegion r) w = (if rwStep w = 2 then w\<lparr>rwDstRegion := r, rwDstBucket := []\<rparr> else w, [])"
| "restoreMove (RestoreBucket b) w =
     (if rwStep w = 2 \<and> rwDstRegion w \<noteq> [] then w\<lparr>rwDstBucket := b\<rparr> else w, [])"
| "restoreMove (RestorePrefix p) w = (if rwStep w = 2 then w\<lparr>rwDstPrefix := p\<rparr> else w, [])"
| "restoreMove (TickOverwrite b) w = (if rwStep w = 3 then w\<lparr>rwOverwrite := b\<rparr> else w, [])"
| "restoreMove (RestoreNext n) w =
     (if rwStep w < 3 \<and> canAdvance n w then w\<lparr>rwStep := rwStep w + 1\<rparr> else w, [])"
| "restoreMove RestoreBack w = (if 1 < rwStep w then w\<lparr>rwStep := rwStep w - 1\<rparr> else w, [])"
| "restoreMove RestoreSubmit w =
     (if rwStep w = 3 \<and> \<not> rwSaving w then (w\<lparr>rwSaving := True\<rparr>, [restoreRequest w]) else (w, []))"
| "restoreMove (RestoreDone ok) w = (w\<lparr>rwSaving := False, rwResult := rwResult w \<or> ok\<rparr>, [])"
| "restoreMove RestoreAgain w = (w\<lparr>rwResult := False, rwStep := 1\<rparr>, [])"

text \<open>The form is on screen once the backup is loaded, until a result takes its place.\<close>

fun restoreAllowed :: "restore_event \<Rightarrow> restore_wizard \<Rightarrow> bool" where
  "restoreAllowed (BackupArrives r b p) w \<longleftrightarrow> True"
| "restoreAllowed (RestoreDone ok) w \<longleftrightarrow> rwSaving w"
| "restoreAllowed RestoreAgain w \<longleftrightarrow> rwResult w"
| "restoreAllowed e w \<longleftrightarrow> rwBackup w \<noteq> None \<and> \<not> rwResult w"

definition restoreStep :: "restore_event \<Rightarrow> restore_wizard \<Rightarrow> restore_wizard \<times> json list" where
  "restoreStep e w =
     (case (if restoreAllowed e w then restoreMove e w else (w, [])) of
        (w1, out) \<Rightarrow> (prefillDestination w1, out))"

definition restoreAfter :: "restore_event list \<Rightarrow> string option \<Rightarrow> restore_wizard" where
  "restoreAfter es ts = foldl (\<lambda>w e. fst (restoreStep e w)) (freshRestore ts) es"

definition restoreReady :: "restore_wizard \<Rightarrow> bool" where
  "restoreReady w \<longleftrightarrow> 1 \<le> rwStep w \<and> rwStep w \<le> 3 \<and>
     (1 < rwStep w \<longrightarrow> rwBackup w \<noteq> None \<and> (rwChoice w = ExplicitSnapshot \<longrightarrow> rwTimestamp w \<noteq> [])) \<and>
     (2 < rwStep w \<longrightarrow> rwDstRegion w \<noteq> [] \<and> rwDstBucket w \<noteq> [])"

lemma restore_ready_prefill: "restoreReady w \<Longrightarrow> restoreReady (prefillDestination w)"
  by (auto simp: prefillDestination_def restoreReady_def split: option.splits)

lemma restore_ready_step: "restoreReady w \<Longrightarrow> restoreReady (fst (restoreStep e w))"
proof -
  assume r: "restoreReady w"
  have "restoreAllowed e w \<Longrightarrow> restoreReady (fst (restoreMove e w))"
    by (cases e) (use r in \<open>auto simp: restoreReady_def canAdvance_def split: snapshot_choice.splits\<close>)
  with r restore_ready_prefill show ?thesis by (simp add: restoreStep_def split_beta)
qed

lemma restore_ready_after: "restoreReady (restoreAfter es ts)"
proof (induction es rule: rev_induct)
  case Nil
  then show ?case by (simp add: restoreAfter_def restoreReady_def freshRestore_def)
next
  case (snoc e es)
  then show ?case using restore_ready_step by (simp add: restoreAfter_def)
qed

text \<open>
  A restore that is sent names a snapshot and a destination, and it overwrites
  existing objects in the place the backup came from only after the page has shown the warning
  that there is no undo.
\<close>

theorem restore_request_valid:
  assumes "w = restoreAfter es ts" and "req \<in> set (snd (restoreStep e w))"
  shows "(\<exists>t r b. getProp req ''snapshotTimestamp'' = JStr t \<and> t \<noteq> [] \<and> getProp req ''dstRegionId'' = JStr r \<and> r \<noteq> [] \<and>
      getProp req ''dstBucket'' = JStr b \<and> b \<noteq> [] \<and>
      (case rwBackup w of None \<Rightarrow> False
       | Some (sr, sb, sp) \<Rightarrow> getProp req ''overwriteExisting'' = JBool True \<and> r = sr \<and> b = sb \<and>
           (getProp req ''dstPrefix'' = JUndef \<or> getProp req ''dstPrefix'' = JStr sp) \<longrightarrow> overwriteWarning w))"
proof -
  have e: "rwStep w = 3" "req = restoreRequest w"
    using assms(2) by (cases e; auto simp: restoreStep_def split: if_splits prod.splits)+
  have "restoreReady w" unfolding assms(1) by (rule restore_ready_after)
  then have f: "rwBackup w \<noteq> None" "rwChoice w = ExplicitSnapshot \<longrightarrow> rwTimestamp w \<noteq> []"
    "rwDstRegion w \<noteq> []" "rwDstBucket w \<noteq> []" using e(1) by (simp_all add: restoreReady_def)
  then obtain sr sb sp where b: "rwBackup w = Some (sr, sb, sp)" by auto
  show ?thesis unfolding e(2)
    by (intro exI [of _ "if rwChoice w = LatestSnapshot then ''latest'' else rwTimestamp w"]
        exI [of _ "rwDstRegion w"] exI [of _ "rwDstBucket w"])
       (use f b in \<open>cases "rwChoice w"; simp add: restoreRequest_def jobj_def optText_def overwriteWarning_def restoringInPlace_def\<close>)
qed

theorem restore_request_valid_witness:
  "\<exists>w req. restoringInPlace w \<and> getProp req ''overwriteExisting'' = JBool True \<and> overwriteWarning w"
proof -
  let ?es = "[BackupArrives ''r1'' ''photos'' [], RestoreNext 2, RestoreNext 2, TickOverwrite True]"
  let ?w = "restoreAfter ?es None" and ?req = "restoreRequest (restoreAfter ?es None)"
  have s: "rwStep ?w = 3 \<and> \<not> rwSaving ?w \<and> \<not> rwResult ?w \<and> restoringInPlace ?w \<and> rwOverwrite ?w \<and> rwDstPrefix ?w = [] \<and>
      rwBackup ?w = Some (''r1'', ''photos'', []) \<and> rwDstRegion ?w = ''r1'' \<and> rwDstBucket ?w = ''photos''"
    by code_simp
  then have r: "?req \<in> set (snd (restoreStep RestoreSubmit ?w))" by (simp add: restoreStep_def)
  have q: "getProp ?req ''overwriteExisting'' = JBool True" "getProp ?req ''dstRegionId'' = JStr ''r1''"
    "getProp ?req ''dstBucket'' = JStr ''photos''" "getProp ?req ''dstPrefix'' = JUndef"
    using s by (simp_all add: restoreRequest_def jobj_def optText_def)
  from restore_request_valid [OF refl r] s q have "overwriteWarning ?w" by auto
  with s q show ?thesis by blast
qed

end
