(* ===== verification/Shown_Once.thy ===== *)
theory Shown_Once
  imports Prelude
begin

text \<open>
  The dialogs that show a new secret exactly once (\<open>shared/ui/SecretShownOnceDialog.tsx\<close>,
  \<open>WebhookSecretShownOnceDialog.tsx\<close>), and the contract of a page that opens one: the answer of the
  server is the only copy of the secret, so it has to stay on screen until the operator has
  acknowledged it.
\<close>

section \<open>The dialog\<close>

record secret_dialog =
  sdResult :: json
  sdRevealed :: bool
  sdAcknowledged :: bool

definition openDialog :: "json \<Rightarrow> secret_dialog" where
  "openDialog result = \<lparr>sdResult = result, sdRevealed = False, sdAcknowledged = False\<rparr>"

datatype secret_event = ToggleReveal | Acknowledge bool | DismissSecret | PressDone

text \<open>
  Escape and clicks outside do nothing; the button is enabled by the checkbox. \<open>None\<close> is a page without the
  dialog.
\<close>

fun secretStep :: "secret_event \<Rightarrow> secret_dialog \<Rightarrow> secret_dialog option" where
  "secretStep ToggleReveal d = Some (d\<lparr>sdRevealed := \<not> sdRevealed d\<rparr>)"
| "secretStep (Acknowledge b) d = Some (d\<lparr>sdAcknowledged := b\<rparr>)"
| "secretStep DismissSecret d = Some d"
| "secretStep PressDone d = (if sdAcknowledged d then None else Some d)"

text \<open>What the row of the secret shows: the text, or at most 48 bullets, one per UTF-16 unit.\<close>

definition bullet :: string where
  "bullet = [CHR 0xE2, CHR 0x80, CHR 0xA2]"

definition secretText :: "nat \<Rightarrow> string \<Rightarrow> bool \<Rightarrow> string" where
  "secretText units secret revealed =
     (if revealed then secret else concat (replicate (min units 48) bullet))"

text \<open>The dialog events of a trace never hold an acknowledgement with the button after it.\<close>

definition unacknowledged :: "secret_event option list \<Rightarrow> bool" where
  "unacknowledged xs \<longleftrightarrow> Some PressDone \<notin> set (dropWhile (\<lambda>x. x \<noteq> Some (Acknowledge True)) xs)"

lemma unacknowledged_split:
  "unacknowledged xs \<Longrightarrow> \<nexists>xs1 xs2. xs = xs1 @ xs2 \<and> Some (Acknowledge True) \<in> set xs1 \<and> Some PressDone \<in> set xs2"
proof
  assume u: "unacknowledged xs"
    and "\<exists>xs1 xs2. xs = xs1 @ xs2 \<and> Some (Acknowledge True) \<in> set xs1 \<and> Some PressDone \<in> set xs2"
  then obtain xs1 xs2 where x: "xs = xs1 @ xs2" "Some (Acknowledge True) \<in> set xs1" "Some PressDone \<in> set xs2"
    by blast
  have "dropWhile (\<lambda>x. x \<noteq> Some (Acknowledge True)) xs =
      dropWhile (\<lambda>x. x \<noteq> Some (Acknowledge True)) xs1 @ xs2"
    unfolding x(1) by (rule dropWhile_append1 [OF x(2)]) simp
  with u x(3) show False by (simp add: unacknowledged_def)
qed

lemma unacknowledged_events:
  "unacknowledged (map f es) \<Longrightarrow> \<nexists>es1 es2 a b. es = es1 @ es2 \<and> a \<in> set es1 \<and> b \<in> set es2 \<and>
     f a = Some (Acknowledge True) \<and> f b = Some PressDone"
  using unacknowledged_split [of "map f es"] by (metis imageI map_append set_map)

section \<open>The contract of the pages\<close>

text \<open>
  A page with a slot for the dialog. While a dialog is open, its own events act on it or, when it is
  covered, not at all; every other event leaves the secret where it is and acknowledges nothing.
\<close>

locale secret_page =
  fixes pageStep :: "'e \<Rightarrow> 's \<Rightarrow> 's"
    and slot :: "'s \<Rightarrow> secret_dialog option"
    and dialogEvent :: "'e \<Rightarrow> secret_event option"
    and sane :: "'s \<Rightarrow> bool"
  assumes sane_step: "sane s \<Longrightarrow> sane (pageStep e s)"
    and slot_quiet: "sane s \<Longrightarrow> slot s = Some d \<Longrightarrow> dialogEvent e = None \<Longrightarrow>
      \<exists>d'. slot (pageStep e s) = Some d' \<and> sdResult d' = sdResult d \<and> (sdAcknowledged d' \<longrightarrow> sdAcknowledged d)"
    and slot_event: "sane s \<Longrightarrow> slot s = Some d \<Longrightarrow> dialogEvent e = Some x \<Longrightarrow>
      slot (pageStep e s) = secretStep x d \<or> slot (pageStep e s) = Some d"
begin

definition pageRun :: "'e list \<Rightarrow> 's \<Rightarrow> 's" where
  "pageRun es s = foldl (\<lambda>s e. pageStep e s) s es"

lemma pageRun_snoc: "pageRun (es @ [e]) s = pageStep e (pageRun es s)"
  by (simp add: pageRun_def)

lemma sane_run: "sane s \<Longrightarrow> sane (pageRun es s)"
  by (induction es rule: rev_induct) (simp_all add: pageRun_def sane_step)

text \<open>The secret leaves the screen only by the button, and only behind the checkbox.\<close>

lemma secret_kept:
  assumes "sane s" and "slot s = Some d" and "\<not> sdAcknowledged d"
    and "\<nexists>es1 es2 a b. es = es1 @ es2 \<and> a \<in> set es1 \<and> b \<in> set es2 \<and>
      dialogEvent a = Some (Acknowledge True) \<and> dialogEvent b = Some PressDone"
  shows "\<exists>d'. slot (pageRun es s) = Some d' \<and> sdResult d' = sdResult d \<and>
    (sdAcknowledged d' \<longrightarrow> (\<exists>a \<in> set es. dialogEvent a = Some (Acknowledge True)))"
  using assms(4)
proof (induction es rule: rev_induct)
  case Nil
  then show ?case using assms(2,3) by (simp add: pageRun_def)
next
  case (snoc e es)
  have "\<nexists>es1 es2 a b. es = es1 @ es2 \<and> a \<in> set es1 \<and> b \<in> set es2 \<and>
      dialogEvent a = Some (Acknowledge True) \<and> dialogEvent b = Some PressDone"
  proof
    assume "\<exists>es1 es2 a b. es = es1 @ es2 \<and> a \<in> set es1 \<and> b \<in> set es2 \<and>
      dialogEvent a = Some (Acknowledge True) \<and> dialogEvent b = Some PressDone"
    then obtain es1 es2 a b where "es = es1 @ es2" "a \<in> set es1" "b \<in> set es2"
      "dialogEvent a = Some (Acknowledge True)" "dialogEvent b = Some PressDone" by blast
    then have "es @ [e] = es1 @ (es2 @ [e]) \<and> a \<in> set es1 \<and> b \<in> set (es2 @ [e])" by simp
    with \<open>dialogEvent a = _\<close> \<open>dialogEvent b = _\<close> snoc.prems show False by blast
  qed
  from snoc.IH [OF this] obtain d' where d': "slot (pageRun es s) = Some d'" "sdResult d' = sdResult d"
    "sdAcknowledged d' \<longrightarrow> (\<exists>a \<in> set es. dialogEvent a = Some (Acknowledge True))" by blast
  note sane' = sane_run [OF assms(1), of es]
  have "dialogEvent e = Some PressDone \<Longrightarrow> \<not> sdAcknowledged d'"
  proof
    assume p: "dialogEvent e = Some PressDone" and "sdAcknowledged d'"
    then obtain a where "a \<in> set es" "dialogEvent a = Some (Acknowledge True)" using d'(3) by blast
    with p snoc.prems show False by (metis list.set_intros(1))
  qed
  then show ?case
  proof (cases "dialogEvent e")
    case None
    from slot_quiet [OF sane' d'(1) None] show ?thesis using d' by (auto simp: pageRun_snoc)
  next
    case (Some x)
    from slot_event [OF sane' d'(1) Some] show ?thesis
      using d' Some \<open>dialogEvent e = Some PressDone \<Longrightarrow> \<not> sdAcknowledged d'\<close>
      by (cases x) (auto simp: pageRun_snoc)
  qed
qed

end

end
