(* ===== verification/Webhook_Pages.thy ===== *)
theory Webhook_Pages
  imports Replication_Hooks Shown_Once
begin

text \<open>
  The pages of the webhook subscriptions: the form for a new one (\<open>routes/files/webhooks/new.tsx\<close>), the
  list (\<open>routes/files/webhooks/index.tsx\<close>) and the page of one webhook with its inline editor
  (\<open>routes/files/webhooks/$id/index.tsx\<close>). The URL constructor of the browser is the parameter
  \<open>protocolOf\<close>: the protocol of a valid URL, \<open>None\<close> when it throws.
\<close>

section \<open>The form\<close>

text \<open>A set keeps the order of insertion.\<close>

record webhook_form =
  whName :: string
  whTargetUrl :: string
  whEvents :: "string list"
  whRegionId :: string
  whBucket :: string
  whPrefix :: string
  whSecret :: string

definition freshWebhook :: webhook_form where
  "freshWebhook = \<lparr>whName = [], whTargetUrl = [], whEvents = [''object.created'', ''object.deleted''],
     whRegionId = [], whBucket = [], whPrefix = [], whSecret = []\<rparr>"

definition toggleEvent :: "string \<Rightarrow> string list \<Rightarrow> string list" where
  "toggleEvent ev prev = (if ev \<in> set prev then remove1 ev prev else prev @ [ev])"

definition webhookNameChar :: "char \<Rightarrow> bool" where
  "webhookNameChar c \<longleftrightarrow> alnum c \<or> c = CHR ''_'' \<or> c = CHR ''-''"

definition webhookNameOk :: "string \<Rightarrow> bool" where
  "webhookNameOk s \<longleftrightarrow> 3 \<le> length s \<and> length s \<le> 64 \<and> list_all webhookNameChar s"

text \<open>The message of a form that cannot be submitted.\<close>

definition validateWebhook :: "(string \<Rightarrow> string option) \<Rightarrow> webhook_form \<Rightarrow> string option" where
  "validateWebhook protocolOf w =
     (if \<not> webhookNameOk (trim (whName w))
      then Some ''Name must be 3-64 characters of letters, digits, dashes, or underscores.''
      else if trim (whTargetUrl w) = [] then Some ''Target URL is required.''
      else (case protocolOf (trim (whTargetUrl w)) of
          None \<Rightarrow> Some ''Target URL must be a fully-qualified URL.''
        | Some p \<Rightarrow>
            if p \<noteq> ''http:'' \<and> p \<noteq> ''https:'' then Some ''Target URL must use http or https.''
            else if whEvents w = [] then Some ''Pick at least one event type.''
            else None))"

definition showHttpsWarning :: "webhook_form \<Rightarrow> bool" where
  "showHttpsWarning w \<longleftrightarrow> startsWith (toLowerCase (trim (whTargetUrl w))) ''http://''"

definition eventBlurb :: "string \<Rightarrow> string" where
  "eventBlurb ev =
     (if ev = ''object.created'' then ''an object is uploaded to a matching bucket''
      else if ev = ''object.deleted'' then ''an object is removed from a matching bucket''
      else if ev = ''object.modified'' then ''an existing object is overwritten'' else [])"

definition orNone :: "string \<Rightarrow> string option" where
  "orNone s = (if s = [] then None else Some s)"

text \<open>The body of a create and of an update.\<close>

definition webhookBody :: "string \<Rightarrow> bool option \<Rightarrow> webhook_form \<Rightarrow> WebhookCreateRequest" where
  "webhookBody name enabled w = \<lparr>wcName = name, wcTargetUrl = trim (whTargetUrl w), wcEvents = whEvents w,
     wcBucketFilter = (if whRegionId w = [] then None
       else Some \<lparr>wfRegionId = whRegionId w, wfBucket = whBucket w\<rparr>),
     wcPrefixFilter = orNone (whPrefix w), wcSecret = orNone (trim (whSecret w)), wcEnabled = enabled\<rparr>"

text \<open>\<open>message.replace(/^[A-Z_]+:\s*/, "")\<close>, in the banner of a failed request.\<close>

definition codeChar :: "char \<Rightarrow> bool" where
  "codeChar c \<longleftrightarrow> (65 :: nat) \<le> of_char c \<and> of_char c \<le> (90 :: nat) \<or> c = CHR ''_''"

definition stripErrorCode :: "string \<Rightarrow> string" where
  "stripErrorCode message =
     (let code = takeWhile codeChar message; rest = drop (length code) message
      in if code \<noteq> [] \<and> startsWith rest '':'' then trimStart (tl rest) else message)"

datatype webhook_field =
    HookName string
  | HookUrl string
  | HookEvent string
  | HookRegion string
  | HookBucket string
  | HookPrefix string
  | HookSecret string

fun webhookEdit :: "webhook_field \<Rightarrow> webhook_form \<Rightarrow> webhook_form" where
  "webhookEdit (HookName s) w = w\<lparr>whName := s\<rparr>"
| "webhookEdit (HookUrl s) w = w\<lparr>whTargetUrl := s\<rparr>"
| "webhookEdit (HookEvent ev) w =
     (if ev \<in> set WEBHOOK_EVENT_TYPES then w\<lparr>whEvents := toggleEvent ev (whEvents w)\<rparr> else w)"
| "webhookEdit (HookRegion r) w = w\<lparr>whRegionId := r, whBucket := []\<rparr>"
| "webhookEdit (HookBucket b) w = (if whRegionId w = [] then w else w\<lparr>whBucket := b\<rparr>)"
| "webhookEdit (HookPrefix s) w = w\<lparr>whPrefix := s\<rparr>"
| "webhookEdit (HookSecret s) w = w\<lparr>whSecret := s\<rparr>"

section \<open>The page of a new webhook\<close>

text \<open>The page is left by the button of the secret dialog, which is modal, or by Cancel before that.\<close>

record new_webhook =
  nwForm :: webhook_form
  nwSaving :: bool
  nwSecret :: "secret_dialog option"
  nwLeft :: bool

definition newWebhook :: new_webhook where
  "newWebhook = \<lparr>nwForm = freshWebhook, nwSaving = False, nwSecret = None, nwLeft = False\<rparr>"

datatype new_webhook_event =
    EditWebhook webhook_field
  | SubmitWebhook
  | WebhookCreated json
  | WebhookRefused
  | CancelNew
  | WebhookSecret secret_event

fun newWebhookStep ::
  "(string \<Rightarrow> string option) \<Rightarrow> new_webhook_event \<Rightarrow> new_webhook \<Rightarrow> new_webhook \<times> WebhookCreateRequest list" where
  "newWebhookStep protocolOf (EditWebhook f) p =
     (if nwSecret p = None \<and> \<not> nwLeft p then p\<lparr>nwForm := webhookEdit f (nwForm p)\<rparr> else p, [])"
| "newWebhookStep protocolOf SubmitWebhook p =
     (if nwSecret p = None \<and> \<not> nwLeft p \<and> \<not> nwSaving p \<and> validateWebhook protocolOf (nwForm p) = None
      then (p\<lparr>nwSaving := True\<rparr>, [webhookBody (trim (whName (nwForm p))) None (nwForm p)]) else (p, []))"
| "newWebhookStep protocolOf (WebhookCreated j) p =
     (if nwSaving p then p\<lparr>nwSaving := False, nwSecret := Some (openDialog j)\<rparr> else p, [])"
| "newWebhookStep protocolOf WebhookRefused p = (p\<lparr>nwSaving := False\<rparr>, [])"
| "newWebhookStep protocolOf CancelNew p =
     (if nwSecret p = None \<and> \<not> nwSaving p then p\<lparr>nwLeft := True\<rparr> else p, [])"
| "newWebhookStep protocolOf (WebhookSecret x) p =
     (case nwSecret p of None \<Rightarrow> p
      | Some d \<Rightarrow> p\<lparr>nwSecret := secretStep x d, nwLeft := (secretStep x d = None)\<rparr>, [])"

definition newWebhookAfter :: "(string \<Rightarrow> string option) \<Rightarrow> new_webhook_event list \<Rightarrow> new_webhook" where
  "newWebhookAfter protocolOf es = foldl (\<lambda>p e. fst (newWebhookStep protocolOf e p)) newWebhook es"

section \<open>The list\<close>

record webhook =
  wkId :: string
  wkName :: string
  wkTargetUrl :: string
  wkEvents :: "string list"
  wkBucketFilter :: "WebhookBucketFilter option"
  wkPrefixFilter :: "string option"
  wkEnabled :: bool

definition testButton :: "bool \<Rightarrow> webhook \<Rightarrow> bool" where
  "testButton isMutating wh \<longleftrightarrow> wkEnabled wh \<and> \<not> isMutating"

definition toggleWebhook :: "webhook \<Rightarrow> json js" where
  "toggleWebhook wh =
     (if wkEnabled wh then mutationFn useDisableWebhook (wkId wh) else mutationFn useEnableWebhook (wkId wh))"

definition deleteWebhook :: "bool \<Rightarrow> webhook \<Rightarrow> json option js" where
  "deleteWebhook confirmed wh =
     (if \<not> confirmed then Ret None
      else bindJs (mutationFn useDeleteWebhook (wkId wh)) (\<lambda>r. Ret (Some r)))"

definition filterCell :: "webhook \<Rightarrow> string" where
  "filterCell wh =
     (let parts =
        (case wkBucketFilter wh of None \<Rightarrow> []
         | Some f \<Rightarrow> if wfRegionId f = [] then []
             else [wfRegionId f @ ''/'' @ (if wfBucket f = [] then ''*'' else wfBucket f)]) @
        (case wkPrefixFilter wh of None \<Rightarrow> [] | Some p \<Rightarrow> if p = [] then [] else [''prefix='' @ p])
      in if parts = [] then ''all regions'' else joinWith ''  '' parts)"

text \<open>The status of the last delivery: success, and the HTTP status, 0 when there was none.\<close>

definition deliveryText :: "bool \<Rightarrow> nat \<Rightarrow> string" where
  "deliveryText success httpStatus =
     (if success then ''200'' else ''HTTP '' @ (if httpStatus = 0 then emDash else dec httpStatus))"

section \<open>The page of one webhook\<close>

definition editFormOf :: "webhook \<Rightarrow> webhook_form" where
  "editFormOf wh = \<lparr>whName = wkName wh, whTargetUrl = wkTargetUrl wh, whEvents = rev (remdups (rev (wkEvents wh))),
     whRegionId = (case wkBucketFilter wh of None \<Rightarrow> [] | Some f \<Rightarrow> wfRegionId f),
     whBucket = (case wkBucketFilter wh of None \<Rightarrow> [] | Some f \<Rightarrow> wfBucket f),
     whPrefix = (case wkPrefixFilter wh of None \<Rightarrow> [] | Some p \<Rightarrow> p), whSecret = []\<rparr>"

text \<open>
  The webhook is polled. A failed poll replaces the page, and what stands on it is mounted anew
  when a later poll succeeds: the editor from the webhook, the secret dialog unacknowledged.
\<close>

record webhook_detail =
  wdWebhook :: webhook
  wdFailed :: bool
  wdEditing :: "webhook_form option"
  wdSaving :: bool
  wdSecret :: "secret_dialog option"

definition detailOf :: "webhook \<Rightarrow> webhook_detail" where
  "detailOf wh = \<lparr>wdWebhook = wh, wdFailed = False, wdEditing = None, wdSaving = False, wdSecret = None\<rparr>"

datatype detail_event =
    PollArrives webhook
  | PollFails
  | StartEdit
  | CancelEdit
  | EditField webhook_field
  | SaveEdit
  | EditSaved json
  | EditRefused
  | DetailSecret secret_event

definition canSave :: "webhook_form \<Rightarrow> bool \<Rightarrow> bool" where
  "canSave w isSaving \<longleftrightarrow> trim (whTargetUrl w) \<noteq> [] \<and> whEvents w \<noteq> [] \<and> \<not> isSaving"

definition onScreen :: "webhook_detail \<Rightarrow> bool" where
  "onScreen p \<longleftrightarrow> \<not> wdFailed p \<and> wdSecret p = None"

text \<open>The secret dialog is part of the page, not of the view that a failed poll puts in its place.\<close>

definition secretShown :: "webhook_detail \<Rightarrow> json option" where
  "secretShown p = (if wdFailed p then None else map_option sdResult (wdSecret p))"

fun detailStep :: "detail_event \<Rightarrow> webhook_detail \<Rightarrow> webhook_detail \<times> WebhookCreateRequest list" where
  "detailStep (PollArrives wh) p =
     (p\<lparr>wdWebhook := wh, wdFailed := False,
        wdEditing := (if wdFailed p then map_option (\<lambda>_. editFormOf wh) (wdEditing p) else wdEditing p)\<rparr>, [])"
| "detailStep PollFails p =
     (p\<lparr>wdFailed := True, wdSecret := map_option (\<lambda>d. openDialog (sdResult d)) (wdSecret p)\<rparr>, [])"
| "detailStep StartEdit p =
     (if onScreen p \<and> wdEditing p = None then p\<lparr>wdEditing := Some (editFormOf (wdWebhook p))\<rparr> else p, [])"
| "detailStep CancelEdit p = (if onScreen p \<and> \<not> wdSaving p then p\<lparr>wdEditing := None\<rparr> else p, [])"
| "detailStep (EditField f) p =
     (if onScreen p then p\<lparr>wdEditing := map_option (webhookEdit f) (wdEditing p)\<rparr> else p, [])"
| "detailStep SaveEdit p =
     (case wdEditing p of None \<Rightarrow> (p, [])
      | Some w \<Rightarrow>
          if onScreen p \<and> canSave w (wdSaving p)
          then (p\<lparr>wdSaving := True\<rparr>, [webhookBody (wkName (wdWebhook p)) (Some (wkEnabled (wdWebhook p))) w])
          else (p, []))"
| "detailStep (EditSaved j) p =
     (if \<not> wdSaving p then p
      else p\<lparr>wdSaving := False, wdEditing := None,
             wdSecret := (if truthy (getProp j ''secret'') then Some (openDialog j) else wdSecret p)\<rparr>, [])"
| "detailStep EditRefused p = (p\<lparr>wdSaving := False\<rparr>, [])"
| "detailStep (DetailSecret x) p =
     (if wdFailed p then p else p\<lparr>wdSecret := Option.bind (wdSecret p) (secretStep x)\<rparr>, [])"


section \<open>What a submitted webhook looks like\<close>

definition eventsOk :: "string list \<Rightarrow> bool" where
  "eventsOk evs \<longleftrightarrow> distinct evs \<and> set evs \<subseteq> set WEBHOOK_EVENT_TYPES"

lemma toggle_ok: "eventsOk evs \<Longrightarrow> ev \<in> set WEBHOOK_EVENT_TYPES \<Longrightarrow> eventsOk (toggleEvent ev evs)"
  by (auto simp: eventsOk_def toggleEvent_def)

lemma edit_events_ok: "eventsOk (whEvents w) \<Longrightarrow> eventsOk (whEvents (webhookEdit f w))"
  by (cases f) (simp_all add: toggle_ok)

lemma fresh_ok: "eventsOk (whEvents freshWebhook)"
  by (simp add: eventsOk_def freshWebhook_def WEBHOOK_EVENT_TYPES_def)

lemma newWebhookAfter_snoc:
  "newWebhookAfter f (es @ [e]) = fst (newWebhookStep f e (newWebhookAfter f es))"
  by (simp add: newWebhookAfter_def)

lemma new_events_ok: "eventsOk (whEvents (nwForm (newWebhookAfter f es)))"
proof (induction es rule: rev_induct)
  case Nil
  then show ?case by (simp add: newWebhookAfter_def newWebhook_def fresh_ok)
next
  case (snoc e es)
  then show ?case unfolding newWebhookAfter_snoc
    by (cases e) (auto simp: edit_events_ok split: option.splits)
qed

lemma validate_None:
  "validateWebhook f w = None \<longleftrightarrow> webhookNameOk (trim (whName w)) \<and> trim (whTargetUrl w) \<noteq> [] \<and>
     (f (trim (whTargetUrl w)) = Some ''http:'' \<or> f (trim (whTargetUrl w)) = Some ''https:'') \<and> whEvents w \<noteq> []"
  by (auto simp: validateWebhook_def split: option.splits if_splits)

text \<open>
  Whatever was typed and clicked, a webhook that is sent has a name of 3 to 64
  letters, digits, dashes and underscores, an http or https address, one or more distinct known
  event types, a bucket filter only for a region, and no empty prefix or secret; and it is sent only
  while no other create is under way and no secret is on screen.
\<close>

theorem webhook_request_valid:
  assumes "p = newWebhookAfter protocolOf es" and "req \<in> set (snd (newWebhookStep protocolOf e p))"
  shows "webhookNameOk (wcName req) \<and> protocolOf (wcTargetUrl req) \<in> {Some ''http:'', Some ''https:''} \<and>
    wcEvents req \<noteq> [] \<and> eventsOk (wcEvents req) \<and>
    (\<forall>b. wcBucketFilter req = Some b \<longrightarrow> wfRegionId b \<noteq> []) \<and> wcPrefixFilter req \<noteq> Some [] \<and>
    wcSecret req \<noteq> Some [] \<and> \<not> nwSaving p \<and> nwSecret p = None"
proof -
  have e: "e = SubmitWebhook" using assms(2) by (cases e) (auto split: option.splits if_splits)
  have s: "nwSecret p = None" "\<not> nwSaving p" "validateWebhook protocolOf (nwForm p) = None"
    "req = webhookBody (trim (whName (nwForm p))) None (nwForm p)"
    using assms(2) by (auto simp: e split: if_splits)
  have "eventsOk (whEvents (nwForm p))" unfolding assms(1) by (rule new_events_ok)
  then show ?thesis using s by (auto simp: validate_None webhookBody_def orNone_def)
qed

definition webUrl :: "string \<Rightarrow> string option" where
  "webUrl s = (if startsWith s ''https://'' then Some ''https:'' else None)"

definition filledWebhook :: "new_webhook_event list" where
  "filledWebhook = [EditWebhook (HookName '' ci-deploy ''), EditWebhook (HookUrl ''https://ci/hook''),
     EditWebhook (HookEvent ''object.deleted''), EditWebhook (HookRegion ''r1''), EditWebhook (HookSecret '' '')]"

theorem webhook_request_valid_witness:
  "\<exists>req. snd (newWebhookStep webUrl SubmitWebhook (newWebhookAfter webUrl filledWebhook)) = [req] \<and>
     wcName req = ''ci-deploy'' \<and> webhookNameOk ''ci-deploy'' \<and> wcEvents req = [''object.created''] \<and>
     wcSecret req \<noteq> Some []"
proof -
  let ?out = "snd (newWebhookStep webUrl SubmitWebhook (newWebhookAfter webUrl filledWebhook))"
  have o: "map (\<lambda>r. (wcName r, wcEvents r)) ?out = [(''ci-deploy'', [''object.created''])]" by code_simp
  then obtain req where r: "?out = [req]" "wcName req = ''ci-deploy''" "wcEvents req = [''object.created'']"
    by (auto simp: map_eq_Cons_conv)
  then have "req \<in> set ?out" by simp
  from webhook_request_valid [OF refl this] r show ?thesis by auto
qed

section \<open>A new secret stays until it is acknowledged\<close>

fun newDialogEvent :: "new_webhook_event \<Rightarrow> secret_event option" where
  "newDialogEvent (WebhookSecret x) = Some x"
| "newDialogEvent _ = None"

fun detailDialogEvent :: "detail_event \<Rightarrow> secret_event option" where
  "detailDialogEvent (DetailSecret x) = Some x"
| "detailDialogEvent _ = None"

text \<open>Nothing is under way while a secret is on screen.\<close>

definition newSane :: "new_webhook \<Rightarrow> bool" where
  "newSane p \<longleftrightarrow> (nwSecret p \<noteq> None \<longrightarrow> \<not> nwSaving p)"

definition detailSane :: "webhook_detail \<Rightarrow> bool" where
  "detailSane p \<longleftrightarrow> (wdSecret p \<noteq> None \<longrightarrow> \<not> wdSaving p)"

interpretation created: secret_page "\<lambda>e p. fst (newWebhookStep f e p)" nwSecret newDialogEvent newSane for f
proof unfold_locales
  fix p e
  show "newSane p \<Longrightarrow> newSane (fst (newWebhookStep f e p))"
    by (cases e) (auto simp: newSane_def split: option.splits)
next
  fix p d e
  show "newSane p \<Longrightarrow> nwSecret p = Some d \<Longrightarrow> newDialogEvent e = None \<Longrightarrow>
    \<exists>d'. nwSecret (fst (newWebhookStep f e p)) = Some d' \<and> sdResult d' = sdResult d \<and>
      (sdAcknowledged d' \<longrightarrow> sdAcknowledged d)"
    by (cases e) (auto simp: newSane_def)
next
  fix p d e x
  show "newSane p \<Longrightarrow> nwSecret p = Some d \<Longrightarrow> newDialogEvent e = Some x \<Longrightarrow>
    nwSecret (fst (newWebhookStep f e p)) = secretStep x d \<or> nwSecret (fst (newWebhookStep f e p)) = Some d"
    by (cases e) auto
qed

interpretation rotated: secret_page "\<lambda>e p. fst (detailStep e p)" wdSecret detailDialogEvent detailSane
proof unfold_locales
  fix p e
  show "detailSane p \<Longrightarrow> detailSane (fst (detailStep e p))"
    by (cases e) (auto simp: detailSane_def onScreen_def split: option.splits)
next
  fix p d e
  show "detailSane p \<Longrightarrow> wdSecret p = Some d \<Longrightarrow> detailDialogEvent e = None \<Longrightarrow>
    \<exists>d'. wdSecret (fst (detailStep e p)) = Some d' \<and> sdResult d' = sdResult d \<and>
      (sdAcknowledged d' \<longrightarrow> sdAcknowledged d)"
    by (cases e) (auto simp: detailSane_def openDialog_def split: option.splits)
next
  fix p d e x
  show "detailSane p \<Longrightarrow> wdSecret p = Some d \<Longrightarrow> detailDialogEvent e = Some x \<Longrightarrow>
    wdSecret (fst (detailStep e p)) = secretStep x d \<or> wdSecret (fst (detailStep e p)) = Some d"
    by (cases e) auto
qed


lemma failed_only_by_poll:
  "wdFailed (foldl (\<lambda>q e. fst (detailStep e q)) q fs) \<Longrightarrow> wdFailed q \<or> PollFails \<in> set fs"
proof (induction fs arbitrary: q)
  case (Cons e fs)
  have "wdFailed (fst (detailStep e q)) \<Longrightarrow> wdFailed q \<or> e = PollFails"
    by (cases e) (auto split: option.splits if_splits)
  then show ?case using Cons by fastforce
qed simp

text \<open>
  C30. The secret of a new webhook, which the server never returns again, stays on
  screen through whatever happens until the operator ticks the acknowledgement and then presses the
  button, and the form behind it sends nothing meanwhile. A secret rotated in the
  editor of a webhook's page is kept just as long: it is on screen unless a poll has failed, a failed poll takes it off the screen with the page, and
  the next answered poll brings it back.
\<close>

theorem webhook_secret_shown:
  assumes "nwSaving p" and "nwSecret p = None" and "unacknowledged (map newDialogEvent es)"
    and "wdSaving q" and "wdSecret q = None" and "truthy (getProp k ''secret'')"
    and "unacknowledged (map detailDialogEvent fs)"
    and "p' = foldl (\<lambda>p e. fst (newWebhookStep f e p)) (fst (newWebhookStep f (WebhookCreated j) p)) es"
    and "q' = foldl (\<lambda>q e. fst (detailStep e q)) (fst (detailStep (EditSaved k) q)) fs"
  shows "map_option sdResult (nwSecret p') = Some j \<and> snd (newWebhookStep f e p') = [] \<and>
    map_option sdResult (wdSecret q') = Some k \<and> snd (detailStep e' q') = [] \<and>
    (secretShown q' = Some k \<or> secretShown q' = None \<and> (wdFailed q \<or> PollFails \<in> set fs)) \<and>
    secretShown (fst (detailStep (PollArrives wh) q')) = Some k"
proof -
  let ?p = "fst (newWebhookStep f (WebhookCreated j) p)" and ?q = "fst (detailStep (EditSaved k) q)"
  have p: "newSane ?p" "nwSecret ?p = Some (openDialog j)"
    and q: "detailSane ?q" "wdSecret ?q = Some (openDialog k)"
    using assms(1,2,4-6) by (simp_all add: newSane_def detailSane_def)
  have "\<exists>d. nwSecret p' = Some d \<and> sdResult d = j"
    using created.secret_kept [OF p _ unacknowledged_events [OF assms(3)], of f]
    unfolding assms(8) created.pageRun_def by (auto simp: openDialog_def)
  moreover have "\<exists>d. wdSecret q' = Some d \<and> sdResult d = k"
    using rotated.secret_kept [OF q _ unacknowledged_events [OF assms(7)]]
    unfolding assms(9) rotated.pageRun_def by (auto simp: openDialog_def)
  moreover have "wdFailed q' \<Longrightarrow> wdFailed q \<or> PollFails \<in> set fs"
    using failed_only_by_poll [of ?q fs] unfolding assms(9) by (auto split: if_splits)
  ultimately show ?thesis
    by (cases e; cases e') (auto simp: onScreen_def secretShown_def split: option.splits)
qed

definition sampleWebhook :: webhook where
  "sampleWebhook = \<lparr>wkId = ''w1'', wkName = ''ci'', wkTargetUrl = ''https://ci/'', wkEvents = [''object.created''],
     wkBucketFilter = None, wkPrefixFilter = None, wkEnabled = True\<rparr>"

theorem webhook_secret_shown_witness:
  "\<exists>p' q'. p' = fst (newWebhookStep webUrl (WebhookSecret PressDone) (fst (newWebhookStep webUrl
       (WebhookCreated (JStr ''k'')) (newWebhook\<lparr>nwSaving := True\<rparr>)))) \<and>
     map_option sdResult (nwSecret p') = Some (JStr ''k'') \<and>
     q' = fst (detailStep PollFails (fst (detailStep (EditSaved (JObj [(''secret'', JStr ''s'')]))
       ((detailOf sampleWebhook)\<lparr>wdSaving := True\<rparr>)))) \<and>
     map_option sdResult (wdSecret q') = Some (JObj [(''secret'', JStr ''s'')]) \<and>
     secretShown (fst (detailStep (PollArrives sampleWebhook) q')) = Some (JObj [(''secret'', JStr ''s'')])"
proof (intro exI conjI)
  note t = webhook_secret_shown [where wh = sampleWebhook, of "newWebhook\<lparr>nwSaving := True\<rparr>" "[WebhookSecret PressDone]"
      "(detailOf sampleWebhook)\<lparr>wdSaving := True\<rparr>" "JObj [(''secret'', JStr ''s'')]" "[PollFails]" _ webUrl
      "JStr ''k''" _ SubmitWebhook SaveEdit, OF _ _ _ _ _ _ _ refl refl]
  have a: "nwSaving (newWebhook\<lparr>nwSaving := True\<rparr>)" "nwSecret (newWebhook\<lparr>nwSaving := True\<rparr>) = None"
    "wdSaving ((detailOf sampleWebhook)\<lparr>wdSaving := True\<rparr>)" "wdSecret ((detailOf sampleWebhook)\<lparr>wdSaving := True\<rparr>) = None"
    "truthy (getProp (JObj [(''secret'', JStr ''s'')]) ''secret'')"
    by (simp_all add: newWebhook_def detailOf_def)
  have u: "unacknowledged (map newDialogEvent [WebhookSecret PressDone])"
    "unacknowledged (map detailDialogEvent [PollFails])" by (simp_all add: unacknowledged_def)
  note t = t [OF a(1,2) u(1) a(3,4,5) u(2)]
  show "map_option sdResult (nwSecret (fst (newWebhookStep webUrl (WebhookSecret PressDone) (fst (newWebhookStep webUrl
       (WebhookCreated (JStr ''k'')) (newWebhook\<lparr>nwSaving := True\<rparr>)))))) = Some (JStr ''k'')"
    and "map_option sdResult (wdSecret (fst (detailStep PollFails (fst (detailStep (EditSaved (JObj [(''secret'', JStr ''s'')]))
       ((detailOf sampleWebhook)\<lparr>wdSaving := True\<rparr>)))))) = Some (JObj [(''secret'', JStr ''s'')])"
    and "secretShown (fst (detailStep (PollArrives sampleWebhook) (fst (detailStep PollFails (fst (detailStep (EditSaved (JObj [(''secret'', JStr ''s'')]))
       ((detailOf sampleWebhook)\<lparr>wdSaving := True\<rparr>)))))))  = Some (JObj [(''secret'', JStr ''s'')])"
    using t by (simp_all del: newWebhookStep.simps detailStep.simps)
qed simp_all

section \<open>The editor\<close>

text \<open>
  Opening the editor of a webhook and saving it unchanged sends the very
  configuration that was loaded, on or off as it is at the moment of the save, and no secret, so that
  the server keeps the old one.
\<close>

theorem webhook_edit_roundtrip:
  assumes "wdWebhook p = wh" and "onScreen p" and "wdEditing p = None" and "\<not> wdSaving p"
    and "trim (wkTargetUrl wh) = wkTargetUrl wh" and "wkTargetUrl wh \<noteq> []"
    and "wkEvents wh \<noteq> []" and "distinct (wkEvents wh)"
    and "map_option wfRegionId (wkBucketFilter wh) \<noteq> Some []" and "wkPrefixFilter wh \<noteq> Some []"
  shows "snd (detailStep SaveEdit (fst (detailStep (PollArrives (wh\<lparr>wkEnabled := on\<rparr>)) (fst (detailStep StartEdit p))))) =
    [\<lparr>wcName = wkName wh, wcTargetUrl = wkTargetUrl wh, wcEvents = wkEvents wh, wcBucketFilter = wkBucketFilter wh,
      wcPrefixFilter = wkPrefixFilter wh, wcSecret = None, wcEnabled = Some on\<rparr>]"
proof -
  have "rev (remdups (rev (wkEvents wh))) = wkEvents wh"
    using assms(8) by (simp add: distinct_remdups_id)
  moreover have "trim [] = []" by code_simp
  ultimately show ?thesis using assms
    by (cases "wkBucketFilter wh"; cases "wkPrefixFilter wh")
       (auto simp: onScreen_def canSave_def editFormOf_def webhookBody_def orNone_def)
qed

theorem webhook_edit_roundtrip_witness:
  "snd (detailStep SaveEdit (fst (detailStep (PollArrives (sampleWebhook\<lparr>wkEnabled := False\<rparr>))
     (fst (detailStep StartEdit (detailOf sampleWebhook)))))) =
   [\<lparr>wcName = ''ci'', wcTargetUrl = ''https://ci/'', wcEvents = [''object.created''], wcBucketFilter = None,
      wcPrefixFilter = None, wcSecret = None, wcEnabled = Some False\<rparr>]"
proof -
  have "trim ''https://ci/'' = ''https://ci/''" by code_simp
  then show ?thesis
    using webhook_edit_roundtrip [of "detailOf sampleWebhook" sampleWebhook False]
    by (simp add: detailOf_def sampleWebhook_def onScreen_def)
qed

section \<open>Where the pages surprise\<close>

text \<open>A failed poll throws away what was typed in the editor.\<close>

theorem failed_poll_drops_edits:
  "wdEditing p = Some w \<Longrightarrow> \<not> wdFailed p \<Longrightarrow>
   wdEditing (fst (detailStep (PollArrives wh) (fst (detailStep PollFails p)))) = Some (editFormOf wh)"
  by simp

text \<open>And it takes a secret off the screen that was not acknowledged yet: the not-found view has no dialog.\<close>

theorem failed_poll_hides_secret:
  "secretShown (fst (detailStep PollFails p)) = None \<and>
   map_option sdResult (wdSecret (fst (detailStep PollFails p))) = map_option sdResult (wdSecret p)"
  by (cases "wdSecret p") (simp_all add: secretShown_def openDialog_def)

text \<open>Every successful delivery is shown as status 200.\<close>

theorem success_shown_as_200: "deliveryText True 204 = ''200''"
  by (simp add: deliveryText_def)

text \<open>The fallback code of an error without a body has digits, so the banner keeps it.\<close>

theorem http_code_prefix_kept:
  "stripErrorCode ''HTTP_500: user/webhooks failed'' = ''HTTP_500: user/webhooks failed''"
  by code_simp

text \<open>The editor sends an address that the form of a new webhook refuses.\<close>

theorem editor_accepts_any_url:
  "\<exists>p req. snd (detailStep SaveEdit p) = [req] \<and> wcTargetUrl req = ''ftp:ci''"
proof (intro exI conjI)
  let ?p = "(detailOf sampleWebhook)\<lparr>wdEditing := Some ((editFormOf sampleWebhook)\<lparr>whTargetUrl := ''ftp:ci''\<rparr>)\<rparr>"
  have t: "trim ''ftp:ci'' = ''ftp:ci''" by code_simp
  show "snd (detailStep SaveEdit ?p) = [webhookBody (wkName (wdWebhook ?p)) (Some (wkEnabled (wdWebhook ?p)))
      ((editFormOf sampleWebhook)\<lparr>whTargetUrl := ''ftp:ci''\<rparr>)]"
    by (simp add: detailOf_def sampleWebhook_def onScreen_def canSave_def editFormOf_def t)
  show "wcTargetUrl (webhookBody (wkName (wdWebhook ?p)) (Some (wkEnabled (wdWebhook ?p)))
      ((editFormOf sampleWebhook)\<lparr>whTargetUrl := ''ftp:ci''\<rparr>)) = ''ftp:ci''"
    by (simp add: webhookBody_def t)
qed

end
