(* ===== verification/Share_Sync_Forms.thy ===== *)
theory Share_Sync_Forms
  imports Object_Browser Share_Hooks Js_Numbers
begin

text \<open>
  The forms for a new share link (\<open>routes/files/shares/new.tsx\<close>) and a new sync job
  (\<open>routes/files/syncs/new.tsx\<close>). The clock is an argument, and so is \<open>new Date(ms).toISOString()\<close>.
\<close>

section \<open>The share form\<close>

datatype share_type = PrefixShare | ObjectShare

datatype expires_in = Hours24 | Days7 | Days30 | NeverExpires

fun shareExpiryMs :: "expires_in \<Rightarrow> int option" where
  "shareExpiryMs Hours24 = Some (24 * 3600 * 1000)"
| "shareExpiryMs Days7 = Some (7 * 24 * 3600 * 1000)"
| "shareExpiryMs Days30 = Some (30 * 24 * 3600 * 1000)"
| "shareExpiryMs NeverExpires = None"

record share_form =
  sfRegionId :: string
  sfBucketId :: string
  sfShareType :: share_type
  sfPrefix :: string
  sfKey :: string
  sfExpiresIn :: expires_in
  sfDownloadLimit :: string
  sfHasPassword :: bool
  sfPassword :: string
  sfSaving :: bool
  sfCreated :: "json option"

definition freshShare :: share_form where
  "freshShare = \<lparr>sfRegionId = [], sfBucketId = [], sfShareType = PrefixShare, sfPrefix = [], sfKey = [],
     sfExpiresIn = Days7, sfDownloadLimit = [], sfHasPassword = False, sfPassword = [], sfSaving = False,
     sfCreated = None\<rparr>"

text \<open>\<open>password.length\<close> counts UTF-16 units.\<close>

definition longEnough :: "string \<Rightarrow> bool" where
  "longEnough password \<longleftrightarrow> 8 \<le> length (utf16 password)"

definition isCreateDisabled :: "share_form \<Rightarrow> bool" where
  "isCreateDisabled f \<longleftrightarrow> sfRegionId f = [] \<or> sfBucketId f = [] \<or>
     sfShareType f = PrefixShare \<and> sfPrefix f = [] \<or> sfShareType f = ObjectShare \<and> sfKey f = [] \<or>
     sfHasPassword f \<and> \<not> longEnough (sfPassword f) \<or> sfSaving f"

definition limitOf :: "string \<Rightarrow> int option" where
  "limitOf downloadLimit =
     (if trim downloadLimit = [] then None
      else (case parseInt downloadLimit of None \<Rightarrow> None | Some lim \<Rightarrow> if 0 < lim then Some lim else None))"

definition shareRequest :: "(int \<Rightarrow> string) \<Rightarrow> int \<Rightarrow> share_form \<Rightarrow> ShareRequest" where
  "shareRequest isoDate now f = \<lparr>shConnectionId = sfRegionId f, shBucketId = sfBucketId f,
     shPrefix = (if sfShareType f = PrefixShare then Some (sfPrefix f) else None),
     shKey = (if sfShareType f = PrefixShare then None else Some (sfKey f)),
     shExpiresAt = map_option (\<lambda>ms. isoDate (now + ms)) (shareExpiryMs (sfExpiresIn f)),
     shDownloadLimit = limitOf (sfDownloadLimit f),
     shPassword = (if sfHasPassword f \<and> longEnough (sfPassword f) then Some (sfPassword f) else None)\<rparr>"

datatype share_event =
    ShareRegion string
  | ShareBucket string
  | ShareKind share_type
  | SharePrefix string
  | ShareKey string
  | ShareExpiry expires_in
  | ShareLimit string
  | ShareHasPassword bool
  | SharePasswordText string
  | CreateShare int
  | ShareCreated json
  | ShareRefused

text \<open>Once a link exists, it takes the place of the form.\<close>

fun shareEdit :: "share_event \<Rightarrow> share_form \<Rightarrow> share_form" where
  "shareEdit (ShareRegion r) f = f\<lparr>sfRegionId := r, sfBucketId := []\<rparr>"
| "shareEdit (ShareBucket b) f = (if sfRegionId f = [] then f else f\<lparr>sfBucketId := b\<rparr>)"
| "shareEdit (ShareKind t) f = f\<lparr>sfShareType := t\<rparr>"
| "shareEdit (SharePrefix s) f = (if sfShareType f = PrefixShare then f\<lparr>sfPrefix := s\<rparr> else f)"
| "shareEdit (ShareKey s) f = (if sfShareType f = ObjectShare then f\<lparr>sfKey := s\<rparr> else f)"
| "shareEdit (ShareExpiry x) f = f\<lparr>sfExpiresIn := x\<rparr>"
| "shareEdit (ShareLimit s) f = f\<lparr>sfDownloadLimit := s\<rparr>"
| "shareEdit (ShareHasPassword b) f = f\<lparr>sfHasPassword := b\<rparr>"
| "shareEdit (SharePasswordText s) f = (if sfHasPassword f then f\<lparr>sfPassword := s\<rparr> else f)"
| "shareEdit _ f = f"

fun shareStep :: "(int \<Rightarrow> string) \<Rightarrow> share_event \<Rightarrow> share_form \<Rightarrow> share_form \<times> ShareRequest list" where
  "shareStep isoDate (CreateShare now) f =
     (if sfCreated f = None \<and> \<not> isCreateDisabled f
      then (f\<lparr>sfSaving := True\<rparr>, [shareRequest isoDate now f]) else (f, []))"
| "shareStep isoDate (ShareCreated j) f =
     (if sfSaving f then f\<lparr>sfSaving := False, sfCreated := Some j\<rparr> else f, [])"
| "shareStep isoDate ShareRefused f = (f\<lparr>sfSaving := False\<rparr>, [])"
| "shareStep isoDate e f = (if sfCreated f = None then shareEdit e f else f, [])"

definition shareAfter :: "(int \<Rightarrow> string) \<Rightarrow> share_event list \<Rightarrow> share_form" where
  "shareAfter isoDate es = foldl (\<lambda>f e. fst (shareStep isoDate e f)) freshShare es"

text \<open>The link of the answer, and its revocation behind the browser's confirmation.\<close>

definition generatedLink :: "string \<Rightarrow> json option \<Rightarrow> string option" where
  "generatedLink origin created =
     (case created of None \<Rightarrow> None
      | Some d \<Rightarrow> if truthy d then Some (origin @ ''/share/'' @ toStr (getProp d ''token'')) else None)"

definition revokeLink :: "bool \<Rightarrow> json option \<Rightarrow> json option js" where
  "revokeLink confirmed created =
     (case created of None \<Rightarrow> Ret None
      | Some d \<Rightarrow> if \<not> truthy d \<or> \<not> confirmed then Ret None
          else bindJs (mutationFn useRevokeUserShare (toStr (getProp d ''token''))) (\<lambda>r. Ret (Some r)))"

text \<open>What a refusal shows: the endpoint without an administrator's connection, or the message.\<close>

datatype bridge_error = NoAdminBridge string string | OtherError string

definition bridgeError :: "js_error \<Rightarrow> bridge_error" where
  "bridgeError e =
     (if codeOf e = JStr ''NO_ADMIN_BRIDGE''
      then NoAdminBridge
        (case orElse (getProp (detailsOf e) ''endpoint'') JNull of JStr s \<Rightarrow> s | _ \<Rightarrow> ''(unknown)'')
        (case getProp (detailsOf e) ''field'' of
           JStr f \<Rightarrow> if f = ''srcConnectionId'' then ''source''
             else if f = ''dstConnectionId'' then ''destination'' else []
         | _ \<Rightarrow> [])
      else OtherError (messageOf e))"

section \<open>The sync form\<close>

datatype sync_mode = Pull | Push

fun syncModeText :: "sync_mode \<Rightarrow> string" where
  "syncModeText Pull = ''pull''"
| "syncModeText Push = ''push''"

definition searchMode :: "json \<Rightarrow> sync_mode" where
  "searchMode search = (if getProp search ''mode'' = JStr ''push'' then Push else Pull)"

definition searchText :: "json \<Rightarrow> string \<Rightarrow> string option" where
  "searchText search key = (case getProp search key of JStr s \<Rightarrow> Some s | _ \<Rightarrow> None)"

text \<open>The mode and the linked source live in the address; the form is seeded from it once.\<close>

record sync_form =
  yfMode :: sync_mode
  yfLinkRegion :: "string option"
  yfLinkBucket :: "string option"
  yfSrcRegion :: string
  yfSrcBucket :: string
  yfSrcPrefix :: string
  yfDstRegion :: string
  yfDstBucket :: string
  yfDstPrefix :: string
  yfSaving :: bool

definition freshSync :: "json \<Rightarrow> sync_form" where
  "freshSync search = (let r = searchText search ''srcCid''; b = searchText search ''srcBid'' in
     \<lparr>yfMode = searchMode search, yfLinkRegion = r, yfLinkBucket = b,
      yfSrcRegion = (case r of None \<Rightarrow> [] | Some s \<Rightarrow> s), yfSrcBucket = (case b of None \<Rightarrow> [] | Some s \<Rightarrow> s),
      yfSrcPrefix = [], yfDstRegion = [], yfDstBucket = [], yfDstPrefix = [], yfSaving = False\<rparr>)"

definition srcLocked :: "sync_form \<Rightarrow> bool" where
  "srcLocked f \<longleftrightarrow> yfMode f = Push \<and> present (yfLinkRegion f) \<and> present (yfLinkBucket f)"

definition isSubmitDisabled :: "sync_form \<Rightarrow> bool" where
  "isSubmitDisabled f \<longleftrightarrow> yfSrcRegion f = [] \<or> yfDstRegion f = [] \<or> yfSrcBucket f = [] \<or>
     yfDstBucket f = [] \<or> yfSaving f"

definition orUndef :: "string \<Rightarrow> json" where
  "orUndef s = (if s = [] then JUndef else JStr s)"

definition syncRequest :: "sync_form \<Rightarrow> json" where
  "syncRequest f = jobj
     [(''mode'', JStr (syncModeText (yfMode f))), (''srcConnectionId'', JStr (yfSrcRegion f)),
      (''srcBucket'', JStr (yfSrcBucket f)), (''srcPrefix'', orUndef (yfSrcPrefix f)),
      (''dstConnectionId'', JStr (yfDstRegion f)), (''dstBucket'', JStr (yfDstBucket f)),
      (''dstPrefix'', orUndef (yfDstPrefix f))]"

datatype sync_event =
    SyncMode sync_mode
  | SyncSrcRegion string
  | SyncSrcBucket string
  | SyncSrcPrefix string
  | SyncDstRegion string
  | SyncDstBucket string
  | SyncDstPrefix string
  | StartSync
  | SyncSettled

fun syncStep :: "sync_event \<Rightarrow> sync_form \<Rightarrow> sync_form \<times> json list" where
  "syncStep (SyncMode m) f = (f\<lparr>yfMode := m\<rparr>, [])"
| "syncStep (SyncSrcRegion r) f = (if srcLocked f then f else f\<lparr>yfSrcRegion := r, yfSrcBucket := []\<rparr>, [])"
| "syncStep (SyncSrcBucket b) f =
     (if srcLocked f \<or> yfSrcRegion f = [] then f else f\<lparr>yfSrcBucket := b\<rparr>, [])"
| "syncStep (SyncSrcPrefix s) f = (f\<lparr>yfSrcPrefix := s\<rparr>, [])"
| "syncStep (SyncDstRegion r) f = (f\<lparr>yfDstRegion := r, yfDstBucket := []\<rparr>, [])"
| "syncStep (SyncDstBucket b) f = (if yfDstRegion f = [] then f else f\<lparr>yfDstBucket := b\<rparr>, [])"
| "syncStep (SyncDstPrefix s) f = (f\<lparr>yfDstPrefix := s\<rparr>, [])"
| "syncStep StartSync f =
     (if isSubmitDisabled f then (f, []) else (f\<lparr>yfSaving := True\<rparr>, [syncRequest f]))"
| "syncStep SyncSettled f = (f\<lparr>yfSaving := False\<rparr>, [])"

definition syncAfter :: "json \<Rightarrow> sync_event list \<Rightarrow> sync_form" where
  "syncAfter search es = foldl (\<lambda>f e. fst (syncStep e f)) (freshSync search) es"

section \<open>What a share asks for\<close>

lemma limitOf_pos: "limitOf s = Some n \<Longrightarrow> 0 < n"
  by (auto simp: limitOf_def split: if_splits option.splits)

lemma limitOf_dec: "0 < n \<Longrightarrow> trim (decInt n) \<noteq> [] \<Longrightarrow> limitOf (decInt n) = Some n"
  by (simp add: limitOf_def parseInt_decInt)

text \<open>
  A share that is asked for names a region, a bucket and exactly one non-empty
  target, a folder or an object; it expires exactly as long after the click as was chosen, or
  never; a download limit is positive; and it is protected by the password that was typed, of at least 8
  units, precisely when the box is ticked.
\<close>

theorem share_request_valid:
  assumes "f = shareAfter isoDate es" and "req \<in> set (snd (shareStep isoDate (CreateShare now) f))"
  shows "shConnectionId req \<noteq> [] \<and> shBucketId req \<noteq> [] \<and>
    (\<exists>t. t \<noteq> [] \<and> (shPrefix req = Some t \<and> shKey req = None \<or> shPrefix req = None \<and> shKey req = Some t)) \<and>
    shExpiresAt req = map_option (\<lambda>ms. isoDate (now + ms)) (shareExpiryMs (sfExpiresIn f)) \<and>
    (\<forall>n. shDownloadLimit req = Some n \<longrightarrow> 0 < n) \<and>
    (if sfHasPassword f then shPassword req = Some (sfPassword f) \<and> longEnough (sfPassword f)
     else shPassword req = None) \<and>
    snd (shareStep isoDate e (fst (shareStep isoDate (CreateShare now) f))) = []"
proof -
  have c: "sfCreated f = None" "\<not> isCreateDisabled f" "req = shareRequest isoDate now f"
    using assms(2) by (auto split: if_splits)
  have target: "\<exists>t. t \<noteq> [] \<and> (shPrefix req = Some t \<and> shKey req = None \<or> shPrefix req = None \<and> shKey req = Some t)"
    using c(2) by (cases "sfShareType f") (simp_all add: c(3) isCreateDisabled_def shareRequest_def)
  have step: "fst (shareStep isoDate (CreateShare now) f) = f\<lparr>sfSaving := True\<rparr>" using c by simp
  have quiet: "snd (shareStep isoDate e (fst (shareStep isoDate (CreateShare now) f))) = []"
    unfolding step by (cases e) (simp_all add: isCreateDisabled_def)
  have place: "shConnectionId req \<noteq> []" "shBucketId req \<noteq> []"
    and pw: "sfHasPassword f \<Longrightarrow> longEnough (sfPassword f)"
    using c(2) by (simp_all add: c(3) isCreateDisabled_def shareRequest_def)
  have times: "shExpiresAt req = map_option (\<lambda>ms. isoDate (now + ms)) (shareExpiryMs (sfExpiresIn f))"
    "\<forall>n. shDownloadLimit req = Some n \<longrightarrow> 0 < n"
    using limitOf_pos by (simp_all add: c(3) shareRequest_def)
  have word: "if sfHasPassword f then shPassword req = Some (sfPassword f) \<and> longEnough (sfPassword f)
     else shPassword req = None"
    using pw by (simp add: c(3) shareRequest_def)
  show ?thesis by (intro conjI place target times word quiet)
qed

definition filledShare :: "share_event list" where
  "filledShare = [ShareRegion ''r1'', ShareBucket ''photos'', SharePrefix ''2024/'', ShareExpiry Hours24,
     ShareLimit ''3'', ShareHasPassword True, SharePasswordText ''longenough'']"

definition sampleDate :: "int \<Rightarrow> string" where
  "sampleDate ms = (if ms = 86400005 then ''tomorrow'' else [])"

theorem share_request_valid_witness:
  "\<exists>req. snd (shareStep sampleDate (CreateShare 5) (shareAfter sampleDate filledShare)) = [req] \<and>
     shPassword req = Some ''longenough'' \<and> shExpiresAt req = Some ''tomorrow''"
proof -
  let ?f = "shareAfter sampleDate filledShare"
  have f: "sfCreated ?f = None \<and> \<not> isCreateDisabled ?f \<and> sfHasPassword ?f \<and> sfPassword ?f = ''longenough'' \<and>
      sfExpiresIn ?f = Hours24" by code_simp
  then have s: "snd (shareStep sampleDate (CreateShare 5) ?f) = [shareRequest sampleDate 5 ?f]" by simp
  have "shareRequest sampleDate 5 ?f \<in> set (snd (shareStep sampleDate (CreateShare 5) ?f))" using s by simp
  from share_request_valid [OF refl this] f have
    "shPassword (shareRequest sampleDate 5 ?f) = Some ''longenough'' \<and>
     shExpiresAt (shareRequest sampleDate 5 ?f) = Some ''tomorrow''" by (simp add: sampleDate_def)
  with s show ?thesis by blast
qed

section \<open>What a sync asks for\<close>

lemma syncAfter_snoc: "syncAfter search (es @ [e]) = fst (syncStep e (syncAfter search es))"
  by (simp add: syncAfter_def)

lemma sync_link:
  "yfLinkRegion (syncAfter search es) = searchText search ''srcCid'' \<and>
   yfLinkBucket (syncAfter search es) = searchText search ''srcBid''"
proof (induction es rule: rev_induct)
  case Nil
  then show ?case by (simp add: syncAfter_def freshSync_def Let_def)
next
  case (snoc e es)
  then show ?case unfolding syncAfter_snoc by (cases e) auto
qed

lemma sync_source:
  assumes "searchMode search = Push" and "searchText search ''srcCid'' = Some r" and "r \<noteq> []"
    and "searchText search ''srcBid'' = Some b" and "b \<noteq> []" and "SyncMode Pull \<notin> set es"
  shows "yfMode (syncAfter search es) = Push \<and> yfSrcRegion (syncAfter search es) = r \<and>
    yfSrcBucket (syncAfter search es) = b"
  using assms(6)
proof (induction es rule: rev_induct)
  case Nil
  then show ?case using assms(1-5) by (simp add: syncAfter_def freshSync_def Let_def)
next
  case (snoc e es)
  have l: "srcLocked (syncAfter search es)"
    using sync_link [of search es] snoc assms(2-5) by (simp add: srcLocked_def)
  have "e \<noteq> SyncMode Pull" using snoc.prems by auto
  then show ?case using snoc l unfolding syncAfter_snoc
    by (cases e) (auto intro: sync_mode.exhaust)
qed

text \<open>
  A sync that is started names a source and a destination and the chosen mode;
  and when the page was opened from a bucket to push it out, the source is that bucket, unless the
  operator switched to the pull mode in between.
\<close>

theorem sync_request_valid:
  assumes "f = syncAfter search es" and "req \<in> set (snd (syncStep e f))"
  shows "(\<exists>r b r' b'. r \<noteq> [] \<and> b \<noteq> [] \<and> r' \<noteq> [] \<and> b' \<noteq> [] \<and> req = jobj
      [(''mode'', JStr (syncModeText (yfMode f))), (''srcConnectionId'', JStr r), (''srcBucket'', JStr b),
       (''srcPrefix'', orUndef (yfSrcPrefix f)), (''dstConnectionId'', JStr r'), (''dstBucket'', JStr b'),
       (''dstPrefix'', orUndef (yfDstPrefix f))] \<and>
      (\<forall>lr lb. searchMode search = Push \<and> searchText search ''srcCid'' = Some lr \<and> lr \<noteq> [] \<and>
         searchText search ''srcBid'' = Some lb \<and> lb \<noteq> [] \<and> SyncMode Pull \<notin> set es \<longrightarrow>
         yfMode f = Push \<and> r = lr \<and> b = lb)) \<and> \<not> yfSaving f"
proof -
  have "\<not> isSubmitDisabled f" "req = syncRequest f"
    using assms(2) by (cases e; auto split: if_splits)+
  then show ?thesis using sync_source [of search _ _ es, folded assms(1)]
    by (intro conjI exI [of _ "yfSrcRegion f"] exI [of _ "yfSrcBucket f"] exI [of _ "yfDstRegion f"]
        exI [of _ "yfDstBucket f"]) (auto simp: isSubmitDisabled_def syncRequest_def)
qed

definition pushLink :: json where
  "pushLink = JObj [(''mode'', JStr ''push''), (''srcCid'', JStr ''c1''), (''srcBid'', JStr ''photos'')]"

definition pushEvents :: "sync_event list" where
  "pushEvents = [SyncSrcRegion ''c2'', SyncDstRegion ''r2'', SyncDstBucket ''copy'']"

theorem sync_request_valid_witness:
  "\<exists>req. snd (syncStep StartSync (syncAfter pushLink pushEvents)) = [req] \<and>
     getProp req ''srcConnectionId'' = JStr ''c1'' \<and> getProp req ''srcBucket'' = JStr ''photos''"
proof -
  let ?f = "syncAfter pushLink pushEvents"
  have f: "\<not> isSubmitDisabled ?f" "searchMode pushLink = Push" "searchText pushLink ''srcCid'' = Some ''c1''"
    "searchText pushLink ''srcBid'' = Some ''photos''" by code_simp+
  have p: "SyncMode Pull \<notin> set pushEvents" by (simp add: pushEvents_def)
  have s: "snd (syncStep StartSync ?f) = [syncRequest ?f]" using f(1) by simp
  then have "syncRequest ?f \<in> set (snd (syncStep StartSync ?f))" by simp
  from sync_request_valid [OF refl this] f p
  have "\<exists>r' b'. syncRequest ?f = jobj
      [(''mode'', JStr (syncModeText (yfMode ?f))), (''srcConnectionId'', JStr ''c1''), (''srcBucket'', JStr ''photos''),
       (''srcPrefix'', orUndef (yfSrcPrefix ?f)), (''dstConnectionId'', JStr r'), (''dstBucket'', JStr b'),
       (''dstPrefix'', orUndef (yfDstPrefix ?f))]" by (metis list.discI)
  then have "getProp (syncRequest ?f) ''srcConnectionId'' = JStr ''c1'' \<and> getProp (syncRequest ?f) ''srcBucket'' = JStr ''photos''"
    by (auto simp: jobj_def)
  then show ?thesis using s by blast
qed

section \<open>Where the forms surprise\<close>

text \<open>A limit that is not positive, or not a number, means no limit, without a word.\<close>

theorem bad_limit_means_unlimited:
  "limitOf ''0'' = None \<and> limitOf ''-5'' = None \<and> limitOf ''1e3'' = Some 1"
  by code_simp

text \<open>The lock of the source holds whatever stands there: after a detour over the pull mode another bucket.\<close>

theorem lock_holds_another_source:
  "\<exists>es. srcLocked (syncAfter pushLink es) \<and> yfSrcRegion (syncAfter pushLink es) = ''c2'' \<and>
     yfLinkRegion (syncAfter pushLink es) = Some ''c1''"
proof (intro exI)
  let ?es = "[SyncMode Pull, SyncSrcRegion ''c2'', SyncSrcBucket ''x'', SyncMode Push]"
  show "srcLocked (syncAfter pushLink ?es) \<and> yfSrcRegion (syncAfter pushLink ?es) = ''c2'' \<and>
     yfLinkRegion (syncAfter pushLink ?es) = Some ''c1''" by code_simp
qed

end
