(* ===== verification/Service_Accounts.thy ===== *)
theory Service_Accounts
  imports Admin_Hooks Shown_Once Bulk_Keys
begin

text \<open>
  The pages of the service accounts (\<open>routes/admin/service-accounts/new.tsx\<close>, \<open>index.tsx\<close>, \<open>$id.tsx\<close>) and the
  snippets of \<open>shared/ui/SecretShownOnceDialog.tsx\<close> and \<open>McpConfigSection.tsx\<close>. The clock is an argument, and
  so are \<open>new Date(s).getTime()\<close> (\<open>None\<close> is \<open>NaN\<close>) and \<open>new Date(ms).toISOString()\<close>.
\<close>

section \<open>The form\<close>

datatype expiry_preset = NeverPreset | OneMonth | SixMonths | OneYear | CustomDate

fun presetDays :: "expiry_preset \<Rightarrow> int option" where
  "presetDays NeverPreset = None"
| "presetDays OneMonth = Some 30"
| "presetDays SixMonths = Some (30 * 6)"
| "presetDays OneYear = Some 365"
| "presetDays CustomDate = None"

text \<open>\<open>id.split(":")[0]\<close>.\<close>

definition domainOf :: "string \<Rightarrow> string" where
  "domainOf i = hd (splitOn CHR '':'' i)"

definition defaultScopeFor :: "string \<Rightarrow> string" where
  "defaultScopeFor capId =
     (let d = domainOf capId in
      if d = ''host'' then ''host:*''
      else if d = ''cluster'' then ''cluster:*''
      else if d = ''bucket'' then ''bucket:{cid}:*''
      else if d = ''key'' then ''key:{cid}:*''
      else ''host:*'')"

text \<open>The chosen capabilities with their scopes: a map in the order of insertion.\<close>

record account_form =
  afName :: string
  afExpiry :: expiry_preset
  afCustom :: string
  afSelected :: "(string \<times> string) list"
  afSearch :: string

definition freshAccount :: account_form where
  "freshAccount = \<lparr>afName = [], afExpiry = NeverPreset, afCustom = [], afSelected = [], afSearch = []\<rparr>"

definition toggleCapability :: "string \<Rightarrow> (string \<times> string) list \<Rightarrow> (string \<times> string) list" where
  "toggleCapability capId prev =
     (if capId \<in> fst ` set prev then filter (\<lambda>(i, _). i \<noteq> capId) prev
      else prev @ [(capId, defaultScopeFor capId)])"

definition setScope :: "string \<Rightarrow> string \<Rightarrow> (string \<times> string) list \<Rightarrow> (string \<times> string) list" where
  "setScope capId scope prev = map (\<lambda>(i, s). if i = capId then (i, scope) else (i, s)) prev"

text \<open>
  The picker: the capabilities (id and description) that match the search, by domain in the order of their
  first appearance; the page then sorts the domains by \<open>localeCompare\<close>. Identifiers are ASCII; beyond
  it the folding of case in a search is not modelled.
\<close>

definition hasText :: "string \<Rightarrow> string \<Rightarrow> bool" where
  "hasText s needle = sublist needle s"

definition CATCH_ALL :: string where
  "CATCH_ALL = ''*:*''"

definition capShown :: "string \<Rightarrow> string \<times> string \<Rightarrow> bool" where
  "capShown search c \<longleftrightarrow> fst c \<noteq> CATCH_ALL \<and>
     (let needle = toLowerCase (trim search) in
      needle = [] \<or> hasText (toLowerCase (fst c)) needle \<or> hasText (toLowerCase (snd c)) needle)"

fun addToDomain ::
  "string \<times> string \<Rightarrow> (string \<times> (string \<times> string) list) list \<Rightarrow> (string \<times> (string \<times> string) list) list" where
  "addToDomain c [] = [(domainOf (fst c), [c])]"
| "addToDomain c ((d, cs) # gs) = (if d = domainOf (fst c) then (d, cs @ [c]) # gs else (d, cs) # addToDomain c gs)"

definition groupedCapabilities ::
  "string \<Rightarrow> (string \<times> string) list \<Rightarrow> (string \<times> (string \<times> string) list) list" where
  "groupedCapabilities search caps = foldl (\<lambda>gs c. addToDomain c gs) [] (filter (capShown search) caps)"

text \<open>\<open>None\<close> is \<open>undefined\<close>, \<open>Some None\<close> is \<open>null\<close>.\<close>

definition expiresAtISO ::
  "(string \<Rightarrow> int option) \<Rightarrow> (int \<Rightarrow> string) \<Rightarrow> int \<Rightarrow> account_form \<Rightarrow> string option option" where
  "expiresAtISO parseDate isoDate now f =
     (case afExpiry f of
        NeverPreset \<Rightarrow> Some None
      | CustomDate \<Rightarrow>
          if afCustom f = [] then None
          else map_option (\<lambda>t. Some (isoDate t)) (parseDate (afCustom f @ ''T23:59:59Z''))
      | p \<Rightarrow> Some (map_option (\<lambda>d. isoDate (now + d * 24 * 60 * 60 * 1000)) (presetDays p)))"

definition canSubmitAccount :: "account_form \<Rightarrow> bool" where
  "canSubmitAccount f \<longleftrightarrow> trim (afName f) \<noteq> [] \<and> afSelected f \<noteq> [] \<and>
     \<not> (afExpiry f = CustomDate \<and> afCustom f = [])"

definition accountRequest ::
  "(string \<Rightarrow> int option) \<Rightarrow> (int \<Rightarrow> string) \<Rightarrow> int \<Rightarrow> account_form \<Rightarrow> CreateServiceAccountRequest option" where
  "accountRequest parseDate isoDate now f =
     (if \<not> canSubmitAccount f then None
      else map_option (\<lambda>expiresAt. \<lparr>csName = trim (afName f), csCapabilities = afSelected f, csScopes = [],
        csExpiresAt = Some expiresAt\<rparr>) (expiresAtISO parseDate isoDate now f))"

datatype account_field =
    AccountName string
  | PickExpiry expiry_preset
  | TypeCustom string
  | ToggleCap string
  | TypeScope string string
  | SearchCaps string

fun accountEdit :: "account_field \<Rightarrow> account_form \<Rightarrow> account_form" where
  "accountEdit (AccountName s) f = f\<lparr>afName := s\<rparr>"
| "accountEdit (PickExpiry p) f = f\<lparr>afExpiry := p\<rparr>"
| "accountEdit (TypeCustom s) f = (if afExpiry f = CustomDate then f\<lparr>afCustom := s\<rparr> else f)"
| "accountEdit (ToggleCap i) f = f\<lparr>afSelected := toggleCapability i (afSelected f)\<rparr>"
| "accountEdit (TypeScope i s) f = f\<lparr>afSelected := setScope i s (afSelected f)\<rparr>"
| "accountEdit (SearchCaps s) f = f\<lparr>afSearch := s\<rparr>"

section \<open>The page that mints an account\<close>

text \<open>
  A mint runs under the elevation guard; \<open>apMinting\<close> holds from the click until the guard is through.
  \<open>apRegistry\<close> is the capability registry that has been loaded.
\<close>

record account_page =
  apForm :: account_form
  apRegistry :: "(string \<times> string) list"
  apMinting :: bool
  apSecret :: "secret_dialog option"
  apLeft :: bool

definition freshAccountPage :: account_page where
  "freshAccountPage = \<lparr>apForm = freshAccount, apRegistry = [], apMinting = False, apSecret = None, apLeft = False\<rparr>"

datatype account_event =
    RegistryArrives "(string \<times> string) list"
  | EditAccount account_field
  | MintAccount int
  | AccountMinted json
  | MintEnded
  | CancelMint
  | AccountSecret secret_event

text \<open>A checkbox stands for a capability of the picker, a scope field and its button for a chosen one.\<close>

fun fieldShown :: "account_field \<Rightarrow> account_page \<Rightarrow> bool" where
  "fieldShown (ToggleCap i) p \<longleftrightarrow>
     list_ex (\<lambda>c. fst c = i \<and> capShown (afSearch (apForm p)) c) (apRegistry p) \<or> i \<in> fst ` set (afSelected (apForm p))"
| "fieldShown _ p \<longleftrightarrow> True"

fun accountStep ::
  "(string \<Rightarrow> int option) \<Rightarrow> (int \<Rightarrow> string) \<Rightarrow> account_event \<Rightarrow> account_page \<Rightarrow>
     account_page \<times> CreateServiceAccountRequest list" where
  "accountStep pd fmt (RegistryArrives caps) p = (p\<lparr>apRegistry := caps\<rparr>, [])"
| "accountStep pd fmt (EditAccount x) p =
     (if apSecret p = None \<and> \<not> apLeft p \<and> fieldShown x p then p\<lparr>apForm := accountEdit x (apForm p)\<rparr> else p, [])"
| "accountStep pd fmt (MintAccount now) p =
     (if apSecret p \<noteq> None \<or> apLeft p \<or> apMinting p then (p, [])
      else (case accountRequest pd fmt now (apForm p) of
          None \<Rightarrow> (p, []) | Some r \<Rightarrow> (p\<lparr>apMinting := True\<rparr>, [r])))"
| "accountStep pd fmt (AccountMinted j) p =
     (if apMinting p then p\<lparr>apMinting := False, apSecret := Some (openDialog j)\<rparr> else p, [])"
| "accountStep pd fmt MintEnded p = (p\<lparr>apMinting := False\<rparr>, [])"
| "accountStep pd fmt CancelMint p =
     (if apSecret p = None \<and> \<not> apMinting p then p\<lparr>apLeft := True\<rparr> else p, [])"
| "accountStep pd fmt (AccountSecret x) p =
     (case apSecret p of None \<Rightarrow> p
      | Some d \<Rightarrow> p\<lparr>apSecret := secretStep x d, apLeft := (secretStep x d = None)\<rparr>, [])"

definition accountAfter ::
  "(string \<Rightarrow> int option) \<Rightarrow> (int \<Rightarrow> string) \<Rightarrow> account_event list \<Rightarrow> account_page" where
  "accountAfter pd fmt es = foldl (\<lambda>p e. fst (accountStep pd fmt e p)) freshAccountPage es"

section \<open>The list\<close>

record account =
  saId :: string
  saName :: string
  saAccessKeyId :: string
  saRevokedAt :: "string option"
  saExpiresAt :: "string option"

datatype account_status = RevokedAccount | ExpiredAccount | ActiveAccount

definition saStatus :: "(string \<Rightarrow> int option) \<Rightarrow> int \<Rightarrow> account \<Rightarrow> account_status" where
  "saStatus parseDate now sa =
     (if present (saRevokedAt sa) then RevokedAccount
      else (case saExpiresAt sa of
          None \<Rightarrow> ActiveAccount
        | Some e \<Rightarrow> if e \<noteq> [] \<and> (case parseDate e of None \<Rightarrow> False | Some t \<Rightarrow> t < now)
            then ExpiredAccount else ActiveAccount))"

definition accountListed :: "bool \<Rightarrow> string \<Rightarrow> account \<Rightarrow> bool" where
  "accountListed showRevoked search sa \<longleftrightarrow>
     (\<not> showRevoked \<longrightarrow> \<not> present (saRevokedAt sa)) \<and>
     (search = [] \<or> hasText (toLowerCase (saName sa)) (toLowerCase search) \<or>
      hasText (toLowerCase (saAccessKeyId sa)) (toLowerCase search))"

definition rotateEnabled :: "(string \<Rightarrow> int option) \<Rightarrow> int \<Rightarrow> bool \<Rightarrow> account \<Rightarrow> bool" where
  "rotateEnabled parseDate now rotateBusy sa \<longleftrightarrow>
     \<not> (rotateBusy \<or> present (saRevokedAt sa) \<or> saStatus parseDate now sa = ExpiredAccount)"

record account_list =
  alRows :: "account list"
  alRevoking :: "account option"
  alDeleting :: bool
  alRotating :: bool
  alRotated :: "secret_dialog option"

definition freshList :: account_list where
  "freshList = \<lparr>alRows = [], alRevoking = None, alDeleting = False, alRotating = False, alRotated = None\<rparr>"

datatype list_event =
    RowsArrive "account list"
  | AskRevoke account
  | DismissRevoke
  | ConfirmRevoke
  | RevokeEnded
  | RotateRow int account
  | AccountRotated json
  | RotateEnded
  | ListSecret secret_event

datatype list_request = RevokeAccount string | RotateAccount string

fun listStep :: "(string \<Rightarrow> int option) \<Rightarrow> list_event \<Rightarrow> account_list \<Rightarrow> account_list \<times> list_request list" where
  "listStep pd (RowsArrive rows) p = (p\<lparr>alRows := rows\<rparr>, [])"
| "listStep pd (AskRevoke sa) p =
     (if sa \<in> set (alRows p) \<and> \<not> present (saRevokedAt sa) \<and> alRotated p = None \<and> alRevoking p = None
      then p\<lparr>alRevoking := Some sa\<rparr> else p, [])"
| "listStep pd DismissRevoke p = (p\<lparr>alRevoking := None\<rparr>, [])"
| "listStep pd ConfirmRevoke p =
     (case alRevoking p of None \<Rightarrow> (p, [])
      | Some sa \<Rightarrow> if alDeleting p then (p, [])
          else (p\<lparr>alRevoking := None, alDeleting := True\<rparr>, [RevokeAccount (saId sa)]))"
| "listStep pd RevokeEnded p = (p\<lparr>alDeleting := False\<rparr>, [])"
| "listStep pd (RotateRow now sa) p =
     (if sa \<in> set (alRows p) \<and> rotateEnabled pd now (alRotating p) sa \<and> alRotated p = None \<and> alRevoking p = None
      then (p\<lparr>alRotating := True\<rparr>, [RotateAccount (saId sa)]) else (p, []))"
| "listStep pd (AccountRotated j) p =
     (if alRotating p then p\<lparr>alRotating := False, alRotated := Some (openDialog j)\<rparr> else p, [])"
| "listStep pd RotateEnded p = (p\<lparr>alRotating := False\<rparr>, [])"
| "listStep pd (ListSecret x) p = (p\<lparr>alRotated := Option.bind (alRotated p) (secretStep x)\<rparr>, [])"

text \<open>The two guarded actions, after the guard of \<open>Prompts\<close>.\<close>

fun listAction :: "list_request \<Rightarrow> json js" where
  "listAction (RevokeAccount i) = mutationFn useDeleteServiceAccount i"
| "listAction (RotateAccount i) = mutationFn useRotateServiceAccount i"

section \<open>The snippets\<close>

definition profileChar :: "char \<Rightarrow> bool" where
  "profileChar c \<longleftrightarrow> (let n = (of_char c :: nat) in
     97 \<le> n \<and> n \<le> 122 \<or> 48 \<le> n \<and> n \<le> 57 \<or> c = CHR ''_'' \<or> c = CHR ''-'')"

text \<open>\<open>replace(/[^a-z0-9_-]+/g, "-")\<close>: a run of other characters becomes one dash.\<close>

fun dashRuns :: "bool \<Rightarrow> string \<Rightarrow> string" where
  "dashRuns inRun [] = []"
| "dashRuns inRun (c # cs) =
     (if profileChar c then c # dashRuns False cs
      else if inRun then dashRuns True cs else CHR ''-'' # dashRuns True cs)"

definition dropDashes :: "string \<Rightarrow> string" where
  "dropDashes s = (let nd = (\<lambda>c. c = CHR ''-'') in rev (dropWhile nd (rev (dropWhile nd s))))"

definition profileNameFor :: "string \<Rightarrow> string" where
  "profileNameFor name =
     (let cleaned = dropDashes (dashRuns False (toLowerCase name))
      in if cleaned = [] then ''basement'' else cleaned)"

definition bearerHeader :: "string \<Rightarrow> string \<Rightarrow> string" where
  "bearerHeader akid secret = ''Authorization: Bearer '' @ akid @ '':'' @ secret"

definition awsSnippet :: "string \<Rightarrow> string \<Rightarrow> string \<Rightarrow> string" where
  "awsSnippet name akid secret = joinWith [LF]
     [''['' @ profileNameFor name @ '']'', ''aws_access_key_id = '' @ akid, ''aws_secret_access_key = '' @ secret]"

definition SECRET_PLACEHOLDER :: string where
  "SECRET_PLACEHOLDER = ''<SECRET_FROM_ROTATE>''"

definition yamlSnippet :: "string \<Rightarrow> string \<Rightarrow> string option \<Rightarrow> string" where
  "yamlSnippet endpoint akid secret = joinWith [LF]
     [''profiles:'', ''  default:'', ''    endpoint: '' @ endpoint, ''    access_key_id: '' @ akid,
      ''    secret_key: '' @ (case secret of None \<Rightarrow> SECRET_PLACEHOLDER | Some s \<Rightarrow> s)]"


section \<open>What a minted account is granted\<close>

lemma toggle_ids:
  "fst ` set (toggleCapability i sel) \<subseteq> insert i (fst ` set sel)"
  "distinct (map fst sel) \<Longrightarrow> distinct (map fst (toggleCapability i sel))"
  by (auto simp: toggleCapability_def distinct_map_filter)

lemma toggle_known:
  "i \<in> fst ` set sel \<or> P i \<Longrightarrow> (\<forall>j \<in> fst ` set sel. P j) \<Longrightarrow> \<forall>j \<in> fst ` set (toggleCapability i sel). P j"
  using toggle_ids(1) [of i sel] by blast

lemma setScope_ids: "map fst (setScope i s sel) = map fst sel"
  by (simp add: setScope_def split_beta comp_def cong: if_cong)

lemma setScope_set: "fst ` set (setScope i s sel) = fst ` set sel"
  using arg_cong [OF setScope_ids, of set i s sel] by simp

text \<open>The capabilities the server has offered so far.\<close>

fun offeredBy :: "account_event \<Rightarrow> string set" where
  "offeredBy (RegistryArrives caps) = fst ` set caps"
| "offeredBy _ = {}"

definition offered :: "account_event list \<Rightarrow> string set" where
  "offered es = (\<Union>e \<in> set es. offeredBy e)"

lemma accountAfter_snoc:
  "accountAfter pd fmt (es @ [e]) = fst (accountStep pd fmt e (accountAfter pd fmt es))"
  by (simp add: accountAfter_def)

lemma offered_snoc: "offered (es @ [e]) = offered es \<union> offeredBy e"
  by (auto simp: offered_def)

definition grantOk :: "string set \<Rightarrow> account_page \<Rightarrow> bool" where
  "grantOk known p \<longleftrightarrow> fst ` set (apRegistry p) \<subseteq> known \<and> distinct (map fst (afSelected (apForm p))) \<and>
     (\<forall>i \<in> fst ` set (afSelected (apForm p)). i \<noteq> CATCH_ALL \<and> i \<in> known)"

lemma grant_mono: "grantOk k p \<Longrightarrow> k \<subseteq> k' \<Longrightarrow> grantOk k' p"
  by (auto simp: grantOk_def)

lemma shown_known:
  "grantOk k p \<Longrightarrow> fieldShown (ToggleCap i) p \<Longrightarrow> i \<in> fst ` set (afSelected (apForm p)) \<or> (i \<noteq> CATCH_ALL \<and> i \<in> k)"
  by (force simp: grantOk_def list_ex_iff capShown_def)

lemma grant_edit: "grantOk k p \<Longrightarrow> fieldShown x p \<Longrightarrow> grantOk k (p\<lparr>apForm := accountEdit x (apForm p)\<rparr>)"
proof (cases x)
  case (ToggleCap i)
  let ?sel = "afSelected (apForm p)"
  assume g: "grantOk k p" and f: "fieldShown x p"
  have "i \<in> fst ` set ?sel \<or> i \<noteq> CATCH_ALL \<and> i \<in> k" using shown_known [OF g] f unfolding ToggleCap by blast
  moreover have "\<forall>j \<in> fst ` set ?sel. j \<noteq> CATCH_ALL \<and> j \<in> k" using g unfolding grantOk_def by blast
  ultimately have "\<forall>j \<in> fst ` set (toggleCapability i ?sel). j \<noteq> CATCH_ALL \<and> j \<in> k" by (rule toggle_known)
  moreover have "distinct (map fst (toggleCapability i ?sel))" "fst ` set (apRegistry p) \<subseteq> k"
    using g toggle_ids(2) unfolding grantOk_def by blast+
  ultimately show ?thesis unfolding grantOk_def ToggleCap by simp
next
  case (TypeScope i s)
  assume "grantOk k p"
  then show ?thesis unfolding grantOk_def TypeScope by (simp add: setScope_ids setScope_set)
qed (simp_all add: grantOk_def)

lemma grant_after: "grantOk (offered es) (accountAfter pd fmt es)"
proof (induction es rule: rev_induct)
  case Nil
  then show ?case by (simp add: grantOk_def accountAfter_def freshAccountPage_def freshAccount_def)
next
  case (snoc e es)
  have ih: "grantOk (offered (es @ [e])) (accountAfter pd fmt es)"
    by (rule grant_mono [OF snoc.IH]) (simp add: offered_snoc)
  show ?case unfolding accountAfter_snoc
  proof (cases e)
    case (RegistryArrives caps)
    then show "grantOk (offered (es @ [e])) (fst (accountStep pd fmt e (accountAfter pd fmt es)))"
      using ih by (simp add: grantOk_def offered_snoc)
  next
    case (EditAccount x)
    then show "grantOk (offered (es @ [e])) (fst (accountStep pd fmt e (accountAfter pd fmt es)))"
      using ih grant_edit by simp
  next
    case (MintAccount now)
    then show "grantOk (offered (es @ [e])) (fst (accountStep pd fmt e (accountAfter pd fmt es)))"
      using ih by (simp add: grantOk_def split: option.split)
  next
    case (AccountMinted j)
    then show "grantOk (offered (es @ [e])) (fst (accountStep pd fmt e (accountAfter pd fmt es)))"
      using ih by (simp add: grantOk_def)
  next
    case MintEnded
    then show "grantOk (offered (es @ [e])) (fst (accountStep pd fmt e (accountAfter pd fmt es)))"
      using ih by (simp add: grantOk_def)
  next
    case CancelMint
    then show "grantOk (offered (es @ [e])) (fst (accountStep pd fmt e (accountAfter pd fmt es)))"
      using ih by (simp add: grantOk_def)
  next
    case (AccountSecret x)
    then show "grantOk (offered (es @ [e])) (fst (accountStep pd fmt e (accountAfter pd fmt es)))"
      using ih by (simp add: grantOk_def split: option.split)
  qed
qed

text \<open>
  C31. A service account that is minted has a name and at least one capability; each
  capability is granted once, was offered by the server, and is never the catch-all; and the account
  expires the chosen number of days after the click, at the chosen date, or by explicit choice never.
\<close>

theorem minted_account_confined:
  assumes "p = accountAfter pd fmt es" and "req \<in> set (snd (accountStep pd fmt (MintAccount now) p))"
  shows "csName req \<noteq> [] \<and> csCapabilities req \<noteq> [] \<and> distinct (map fst (csCapabilities req)) \<and>
    (\<forall>i \<in> fst ` set (csCapabilities req). i \<noteq> CATCH_ALL \<and> i \<in> offered es) \<and>
    csExpiresAt req = Some (case afExpiry (apForm p) of
       CustomDate \<Rightarrow> map_option fmt (pd (afCustom (apForm p) @ ''T23:59:59Z''))
     | x \<Rightarrow> map_option (\<lambda>d. fmt (now + d * 24 * 60 * 60 * 1000)) (presetDays x)) \<and>
    (csExpiresAt req = Some None \<longrightarrow> afExpiry (apForm p) = NeverPreset)"
proof -
  obtain x where r: "canSubmitAccount (apForm p)" "expiresAtISO pd fmt now (apForm p) = Some x"
    and req: "req = \<lparr>csName = trim (afName (apForm p)), csCapabilities = afSelected (apForm p), csScopes = [],
      csExpiresAt = Some x\<rparr>"
    using assms(2) by (auto simp: accountRequest_def split: if_splits option.splits)
  have g: "grantOk (offered es) p" unfolding assms(1) by (rule grant_after)
  have "x = (case afExpiry (apForm p) of
       CustomDate \<Rightarrow> map_option fmt (pd (afCustom (apForm p) @ ''T23:59:59Z''))
     | y \<Rightarrow> map_option (\<lambda>d. fmt (now + d * 24 * 60 * 60 * 1000)) (presetDays y))"
    using r(2) by (cases "afExpiry (apForm p)") (auto simp: expiresAtISO_def split: if_splits)
  moreover have "x = None \<longrightarrow> afExpiry (apForm p) = NeverPreset"
    using r(2) by (cases "afExpiry (apForm p)") (auto simp: expiresAtISO_def split: if_splits)
  ultimately show ?thesis using r(1) g by (simp add: req grantOk_def canSubmitAccount_def)
qed


definition sampleRegistry :: "(string \<times> string) list" where
  "sampleRegistry = [(''*:*'', ''everything''), (''bucket:read'', ''read a bucket''), (''host:audit'', ''read the log'')]"

definition mintEvents :: "account_event list" where
  "mintEvents = [RegistryArrives sampleRegistry, EditAccount (AccountName '' ci ''), EditAccount (ToggleCap ''*:*''),
     EditAccount (ToggleCap ''host:audit''), EditAccount (PickExpiry OneMonth)]"

theorem minted_account_confined_witness:
  "\<exists>req. snd (accountStep (\<lambda>s. None) (\<lambda>ms. if ms = 2592000007 then ''later'' else []) (MintAccount 7)
       (accountAfter (\<lambda>s. None) (\<lambda>ms. if ms = 2592000007 then ''later'' else []) mintEvents)) = [req] \<and>
     csCapabilities req = [(''host:audit'', ''host:*'')] \<and> csExpiresAt req = Some (Some ''later'') \<and>
     ''host:audit'' \<in> offered mintEvents"
proof -
  let ?fmt = "\<lambda>ms :: int. if ms = 2592000007 then ''later'' else []"
  let ?p = "accountAfter (\<lambda>s. None) ?fmt mintEvents"
  let ?out = "snd (accountStep (\<lambda>s. None) ?fmt (MintAccount 7) ?p)"
  have p: "afExpiry (apForm ?p) = OneMonth \<and> map csCapabilities ?out = [[(''host:audit'', ''host:*'')]]" by code_simp
  then obtain req where r: "?out = [req]" "csCapabilities req = [(''host:audit'', ''host:*'')]" by auto
  then have "req \<in> set ?out" by simp
  from minted_account_confined [OF refl this] p r(2)
  have "csExpiresAt req = Some (Some ''later'')" "''host:audit'' \<in> offered mintEvents" by simp_all
  with r show ?thesis by blast
qed

section \<open>A new secret stays until it is acknowledged\<close>

fun mintDialogEvent :: "account_event \<Rightarrow> secret_event option" where
  "mintDialogEvent (AccountSecret x) = Some x"
| "mintDialogEvent _ = None"

fun listDialogEvent :: "list_event \<Rightarrow> secret_event option" where
  "listDialogEvent (ListSecret x) = Some x"
| "listDialogEvent _ = None"

definition mintSane :: "account_page \<Rightarrow> bool" where
  "mintSane p \<longleftrightarrow> (apSecret p \<noteq> None \<longrightarrow> \<not> apMinting p)"

definition listSane :: "account_list \<Rightarrow> bool" where
  "listSane p \<longleftrightarrow> (alRotated p \<noteq> None \<longrightarrow> \<not> alRotating p)"

interpretation minted: secret_page "\<lambda>e p. fst (accountStep pd fmt e p)" apSecret mintDialogEvent mintSane for pd fmt
proof unfold_locales
  fix p e
  show "mintSane p \<Longrightarrow> mintSane (fst (accountStep pd fmt e p))"
    by (cases e) (auto simp: mintSane_def split: option.splits)
next
  fix p d e
  show "mintSane p \<Longrightarrow> apSecret p = Some d \<Longrightarrow> mintDialogEvent e = None \<Longrightarrow>
    \<exists>d'. apSecret (fst (accountStep pd fmt e p)) = Some d' \<and> sdResult d' = sdResult d \<and>
      (sdAcknowledged d' \<longrightarrow> sdAcknowledged d)"
    by (cases e) (auto simp: mintSane_def)
next
  fix p d e x
  show "mintSane p \<Longrightarrow> apSecret p = Some d \<Longrightarrow> mintDialogEvent e = Some x \<Longrightarrow>
    apSecret (fst (accountStep pd fmt e p)) = secretStep x d \<or> apSecret (fst (accountStep pd fmt e p)) = Some d"
    by (cases e) auto
qed

interpretation replaced: secret_page "\<lambda>e p. fst (listStep pd e p)" alRotated listDialogEvent listSane for pd
proof unfold_locales
  fix p e
  show "listSane p \<Longrightarrow> listSane (fst (listStep pd e p))"
    by (cases e) (auto simp: listSane_def split: option.splits)
next
  fix p d e
  show "listSane p \<Longrightarrow> alRotated p = Some d \<Longrightarrow> listDialogEvent e = None \<Longrightarrow>
    \<exists>d'. alRotated (fst (listStep pd e p)) = Some d' \<and> sdResult d' = sdResult d \<and>
      (sdAcknowledged d' \<longrightarrow> sdAcknowledged d)"
    by (cases e) (auto simp: listSane_def split: option.split)
next
  fix p d e x
  show "listSane p \<Longrightarrow> alRotated p = Some d \<Longrightarrow> listDialogEvent e = Some x \<Longrightarrow>
    alRotated (fst (listStep pd e p)) = secretStep x d \<or> alRotated (fst (listStep pd e p)) = Some d"
    by (cases e) auto
qed

text \<open>
  The secret of a minted or rotated service account stays on screen until the operator
  ticks the acknowledgement and then presses the button, whatever arrives meanwhile, and no account
  is minted or rotated behind it.
\<close>

theorem account_secret_shown:
  assumes "apMinting p" and "apSecret p = None" and "unacknowledged (map mintDialogEvent es)"
    and "alRotating q" and "alRotated q = None" and "unacknowledged (map listDialogEvent fs)"
    and "p' = foldl (\<lambda>p e. fst (accountStep pd fmt e p)) (fst (accountStep pd fmt (AccountMinted j) p)) es"
    and "q' = foldl (\<lambda>q e. fst (listStep pd e q)) (fst (listStep pd (AccountRotated k) q)) fs"
  shows "map_option sdResult (apSecret p') = Some j \<and> snd (accountStep pd fmt e p') = [] \<and>
    map_option sdResult (alRotated q') = Some k \<and> snd (listStep pd (RotateRow now sa) q') = []"
proof -
  let ?p = "fst (accountStep pd fmt (AccountMinted j) p)" and ?q = "fst (listStep pd (AccountRotated k) q)"
  have p: "mintSane ?p" "apSecret ?p = Some (openDialog j)" and q: "listSane ?q" "alRotated ?q = Some (openDialog k)"
    using assms(1,2,4,5) by (simp_all add: mintSane_def listSane_def)
  have "\<exists>d. apSecret p' = Some d \<and> sdResult d = j"
    using minted.secret_kept [OF p _ unacknowledged_events [OF assms(3)], of pd fmt]
    unfolding assms(7) minted.pageRun_def by (auto simp: openDialog_def)
  moreover have "\<exists>d. alRotated q' = Some d \<and> sdResult d = k"
    using replaced.secret_kept [OF q _ unacknowledged_events [OF assms(6)], of pd]
    unfolding assms(8) replaced.pageRun_def by (auto simp: openDialog_def)
  ultimately show ?thesis by (cases e) auto
qed

definition noDate :: "int \<Rightarrow> string" where
  "noDate ms = []"

theorem account_secret_shown_witness:
  "\<exists>p' q'. p' = fst (accountStep (\<lambda>s. None) noDate (AccountSecret PressDone)
       (fst (accountStep (\<lambda>s. None) noDate (AccountMinted (JStr ''k'')) (freshAccountPage\<lparr>apMinting := True\<rparr>)))) \<and>
     map_option sdResult (apSecret p') = Some (JStr ''k'') \<and>
     q' = fst (listStep (\<lambda>s. None) (RowsArrive [])
       (fst (listStep (\<lambda>s. None) (AccountRotated (JStr ''n'')) (freshList\<lparr>alRotating := True\<rparr>)))) \<and>
     map_option sdResult (alRotated q') = Some (JStr ''n'')"
proof (intro exI conjI)
  have a: "apMinting (freshAccountPage\<lparr>apMinting := True\<rparr>)" "apSecret (freshAccountPage\<lparr>apMinting := True\<rparr>) = None"
    "alRotating (freshList\<lparr>alRotating := True\<rparr>)" "alRotated (freshList\<lparr>alRotating := True\<rparr>) = None"
    by (simp_all add: freshAccountPage_def freshList_def)
  have u: "unacknowledged (map mintDialogEvent [AccountSecret PressDone])"
    "unacknowledged (map listDialogEvent [RowsArrive []])" by (simp_all add: unacknowledged_def)
  note t = account_secret_shown [OF a(1,2) u(1) a(3,4) u(2) refl refl]
  show "map_option sdResult (apSecret (fst (accountStep (\<lambda>s. None) noDate (AccountSecret PressDone)
       (fst (accountStep (\<lambda>s. None) noDate (AccountMinted (JStr ''k'')) (freshAccountPage\<lparr>apMinting := True\<rparr>)))))) =
      Some (JStr ''k'')"
    using t [THEN conjunct1] by (simp only: foldl.simps)
  show "map_option sdResult (alRotated (fst (listStep (\<lambda>s. None) (RowsArrive [])
       (fst (listStep (\<lambda>s. None) (AccountRotated (JStr ''n'')) (freshList\<lparr>alRotating := True\<rparr>)))))) =
      Some (JStr ''n'')"
    using t [THEN conjunct2, THEN conjunct2, THEN conjunct1] by (simp only: foldl.simps)
qed simp_all


section \<open>The actions of the list\<close>

definition listAfter :: "(string \<Rightarrow> int option) \<Rightarrow> list_event list \<Rightarrow> account_list" where
  "listAfter pd es = foldl (\<lambda>p e. fst (listStep pd e p)) freshList es"

lemma listAfter_snoc: "listAfter pd (es @ [e]) = fst (listStep pd e (listAfter pd es))"
  by (simp add: listAfter_def)

fun arrived :: "list_event \<Rightarrow> account set" where
  "arrived (RowsArrive rows) = set rows"
| "arrived _ = {}"

lemma rows_arrived: "set (alRows (listAfter pd es)) \<subseteq> (\<Union>e \<in> set es. arrived e)"
proof (induction es rule: rev_induct)
  case Nil
  then show ?case by (simp add: listAfter_def freshList_def)
next
  case (snoc e es)
  then show ?case unfolding listAfter_snoc
    by (cases e) (auto split: option.splits)
qed

lemma revoking_asked:
  "alRevoking (listAfter pd es) = Some sa \<Longrightarrow>
   AskRevoke sa \<in> set es \<and> \<not> present (saRevokedAt sa) \<and> sa \<in> (\<Union>e \<in> set es. arrived e)"
proof (induction es rule: rev_induct)
  case Nil
  then show ?case by (simp add: listAfter_def freshList_def)
next
  case (snoc e es)
  show ?case using snoc rows_arrived [of pd es] unfolding listAfter_snoc
    by (cases e) (auto split: option.splits if_splits)
qed

lemma active_iff: "rotateEnabled pd now busy sa \<Longrightarrow> saStatus pd now sa = ActiveAccount"
  by (auto simp: rotateEnabled_def saStatus_def split: option.splits if_splits)

text \<open>
  From the list, an account is revoked only after its own entry was chosen and the
  dialog confirmed, for a listed account that was not revoked yet; an account is rotated only when it
  is listed and active, no other rotation is under way and no fresh secret is on screen.
\<close>

theorem account_actions_confined:
  assumes "p = listAfter pd es" and "r \<in> set (snd (listStep pd e p))"
  shows "(\<exists>sa. r = RevokeAccount (saId sa) \<and> e = ConfirmRevoke \<and> AskRevoke sa \<in> set es \<and>
        \<not> present (saRevokedAt sa) \<and> sa \<in> (\<Union>x \<in> set es. arrived x)) \<or>
    (\<exists>sa now. r = RotateAccount (saId sa) \<and> e = RotateRow now sa \<and> saStatus pd now sa = ActiveAccount \<and>
        sa \<in> (\<Union>x \<in> set es. arrived x) \<and> \<not> alRotating p \<and> alRotated p = None)"
proof (cases e)
  case ConfirmRevoke
  then obtain sa where sa: "alRevoking p = Some sa" "r = RevokeAccount (saId sa)"
    using assms(2) by (auto split: option.splits if_splits)
  with revoking_asked [of pd es sa] ConfirmRevoke assms(1) show ?thesis by (intro disjI1 exI [of _ sa]) simp
next
  case (RotateRow now sa)
  then have sa: "sa \<in> set (alRows p)" "rotateEnabled pd now (alRotating p) sa" "alRotated p = None"
    "r = RotateAccount (saId sa)" using assms(2) by (auto split: if_splits)
  have "\<not> alRotating p" using sa(2) by (simp add: rotateEnabled_def)
  have "sa \<in> (\<Union>x \<in> set es. arrived x)" using sa(1) rows_arrived [of pd es] assms(1) by (simp add: subset_iff)
  then show ?thesis
    using sa active_iff [OF sa(2)] RotateRow \<open>\<not> alRotating p\<close> by (intro disjI2 exI [of _ sa] exI [of _ now]) simp
qed (use assms(2) in simp_all)

definition sampleAccount :: account where
  "sampleAccount = \<lparr>saId = ''a1'', saName = ''ci'', saAccessKeyId = ''AK'', saRevokedAt = None, saExpiresAt = None\<rparr>"

theorem account_actions_confined_witness:
  "RevokeAccount ''a1'' \<in> set (snd (listStep (\<lambda>s. None) ConfirmRevoke
      (listAfter (\<lambda>s. None) [RowsArrive [sampleAccount], AskRevoke sampleAccount]))) \<and>
   (\<exists>sa :: account. saId sa = ''a1'' \<and> \<not> present (saRevokedAt sa))"
proof -
  let ?es = "[RowsArrive [sampleAccount], AskRevoke sampleAccount]"
  have r: "RevokeAccount ''a1'' \<in> set (snd (listStep (\<lambda>s. None) ConfirmRevoke (listAfter (\<lambda>s. None) ?es)))"
    by (simp add: listAfter_def freshList_def sampleAccount_def)
  from account_actions_confined [OF refl r] have "\<exists>sa :: account. saId sa = ''a1'' \<and> \<not> present (saRevokedAt sa)"
  proof (elim disjE exE conjE)
    fix sa :: account assume "RevokeAccount ''a1'' = RevokeAccount (saId sa)" "\<not> present (saRevokedAt sa)"
    then show ?thesis by (intro exI [of _ sa]) (simp only: list_request.inject simp_thms)
  qed (simp only: list_request.distinct)
  with r show ?thesis by blast
qed

section \<open>The snippet for a credentials file\<close>

lemma dashRuns_chars: "list_all profileChar (dashRuns b s)"
proof (induction b s rule: dashRuns.induct)
  case (2 b c cs)
  have "profileChar CHR ''-''" by code_simp
  then show ?case using 2 by simp
qed simp

lemma dropDashes_chars: "list_all P s \<Longrightarrow> list_all P (dropDashes s)"
  by (auto simp: dropDashes_def Let_def list_all_iff dest!: set_dropWhileD)

text \<open>A profile name is safe in a section header: lower-case letters, digits, underscores, dashes.\<close>

lemma profile_chars: "list_all profileChar (profileNameFor name) \<and> profileNameFor name \<noteq> []"
proof -
  have "list_all profileChar ''basement''" by code_simp
  then show ?thesis using dropDashes_chars [OF dashRuns_chars]
    by (simp add: profileNameFor_def Let_def)
qed

lemma profileChar_code: "profileChar c \<Longrightarrow> c \<noteq> CHR '']'' \<and> c \<noteq> LF \<and> c \<noteq> CR \<and> (\<forall>t \<in> set wsTokens. c \<notin> set t)"
proof -
  assume c: "profileChar c"
  have "list_all (\<lambda>t. list_all (\<lambda>x. \<not> profileChar x) t) wsTokens" "\<not> profileChar CHR '']''"
    "\<not> profileChar LF" "\<not> profileChar CR" by code_simp+
  then show ?thesis using c by (auto simp: list_all_iff)
qed

text \<open>Text between characters that no white space holds is its own trim.\<close>

lemma trimmed_between:
  assumes "\<forall>t \<in> set wsTokens. x \<notin> set t" and "\<forall>t \<in> set wsTokens. \<not> suffix t s" and "s \<noteq> []"
  shows "trimmed (x # s)"
proof -
  have "\<not> prefix t (x # s) \<and> \<not> suffix t (x # s)" if "t \<in> set wsTokens" for t
    using that assms wsTokens_facts [OF that] by (auto simp: prefix_Cons suffix_Cons)
  then show ?thesis by (simp add: trimmed_def list_all_iff)
qed

lemma suffix_last: "suffix t s \<Longrightarrow> t \<noteq> [] \<Longrightarrow> last s \<in> set t"
  by (auto simp: suffix_def)

lemma trim_one_space: "trimmed v \<Longrightarrow> v \<noteq> [] \<Longrightarrow> trim (CHR '' '' # v) = v"
proof -
  assume v: "trimmed v" "v \<noteq> []"
  have t: "\<forall>t \<in> set wsTokens. \<not> prefix t v" "\<forall>t \<in> set wsTokens. \<not> suffix t v"
    using v(1) by (auto simp: trimmed_def list_all_iff)
  have heads: "list_all (\<lambda>t. t \<noteq> [] \<and> (hd t = CHR '' '' \<longrightarrow> t = [CHR '' ''])) wsTokens" by code_simp
  have f: "find (\<lambda>t. t \<noteq> [] \<and> prefix t (CHR '' '' # v)) wsTokens = Some [CHR '' '']"
    by (simp add: wsTokens_def)
  have "strip wsTokens (CHR '' '' # v) = strip wsTokens v"
    by (subst strip.simps) (simp add: f)
  also have "\<dots> = v" using t(1) by (intro strip_id) blast
  finally have "trimStart (CHR '' '' # v) = trimStart v"
    using t(1) by (simp add: trimStart_def strip_id)
  then show ?thesis using trim_id [OF v(1)] by (simp add: trim_def)
qed

text \<open>A value that a credentials file can hold: not empty, trimmed, on one line.\<close>

definition plainValue :: "string \<Rightarrow> bool" where
  "plainValue v \<longleftrightarrow> v \<noteq> [] \<and> trimmed v \<and> LF \<notin> set v \<and> CR \<notin> set v"


text \<open>A line \<open>key = value\<close> of the file: trimmed, cut at its equals sign, both halves trimmed.\<close>

lemma trimmed_tail:
  assumes "trimmed v" and "v \<noteq> []" and "\<forall>t \<in> set wsTokens. x \<notin> set t"
  shows "trimmed (x # p @ CHR '' '' # v)"
proof (rule trimmed_between)
  show "\<forall>t \<in> set wsTokens. \<not> suffix t (p @ CHR '' '' # v)"
  proof
    fix t assume t: "t \<in> set wsTokens"
    have v: "\<not> suffix t v" using assms(1) t by (auto simp: trimmed_def list_all_iff)
    show "\<not> suffix t (p @ CHR '' '' # v)"
    proof (cases "CHR '' '' \<in> set t")
      case False
      then have "suffix t (p @ CHR '' '' # v) \<Longrightarrow> suffix t v" by (rule suffix_after [rotated])
      with v show ?thesis by (rule contrapos_nn)
    next
      case True
      then have "length t = 1" using wsTokens_facts [OF t] by blast
      then obtain c where c: "t = [c]" by (cases t) simp_all
      show ?thesis
      proof
        assume "suffix t (p @ CHR '' '' # v)"
        then obtain zs where "p @ CHR '' '' # v = zs @ [c]" using c by (auto simp: suffix_def)
        then have "last (p @ CHR '' '' # v) = c" by (simp only: last_snoc)
        then have "c = last v" using assms(2) by simp
        then have "suffix t v" using c assms(2) by (metis append_butlast_last_id suffixI)
        with v show False ..
      qed
    qed
  qed
qed (use assms(3) in simp_all)

lemma indexOf_append: "d \<notin> set p \<Longrightarrow> indexOf (p @ d # v) d = Some (length p)"
  by (induction p) auto

lemma keyLine:
  assumes v: "plainValue v" and k: "trimmed (c # k)" "CHR ''='' \<notin> set (c # k)" "trim ((c # k) @ '' '') = c # k"
    and c: "\<forall>t \<in> set wsTokens. c \<notin> set t" "\<not> commentOrBlank (c # k @ '' = '' @ v)" "c \<noteq> CHR ''[''"
  shows "awsLine parseUrl (Some p, out) (c # k @ '' = '' @ v) =
    (Some (assignAws (toLowerCase (c # k)) v p), out)"
proof -
  let ?line = "c # k @ '' = '' @ v"
  have t: "trim ?line = ?line"
    using trimmed_tail [of v c "k @ '' =''"] v c(1) by (intro trim_id) (simp add: plainValue_def)
  have s: "sectionName ?line = None" using c(3) by (simp add: sectionName_def)
  have i: "indexOf ?line CHR ''='' = Some (length k + 2)"
    using indexOf_append [of "CHR ''=''" "(c # k) @ '' ''" "'' '' @ v"] k(2) by auto
  have h: "take (length k + 2) ?line = (c # k) @ '' ''" "drop (length k + 3) ?line = CHR '' '' # v"
    by (simp_all add: numeral_3_eq_3)
  show ?thesis
    unfolding awsLine_def prod.case t Let_def s i option.case
    using c(2) h k(3) trim_one_space [of v] v [unfolded plainValue_def] by (simp only: if_False simp_thms numeral_3_eq_3 numeral_2_eq_2
        One_nat_def add_Suc_right add_0_right)
qed

lemma snippet_keys:
  "plainValue v \<Longrightarrow> awsLine parseUrl (Some p, out) (''aws_access_key_id = '' @ v) =
     (Some (p\<lparr>prAccessKeyId := Some v\<rparr>), out)"
  "plainValue v \<Longrightarrow> awsLine parseUrl (Some p, out) (''aws_secret_access_key = '' @ v) =
     (Some (p\<lparr>prSecretKey := Some v\<rparr>), out)"
proof -
  have k: "trimmed ''aws_access_key_id'' \<and> CHR ''='' \<notin> set ''aws_access_key_id'' \<and>
      trim (''aws_access_key_id'' @ '' '') = ''aws_access_key_id'' \<and>
      toLowerCase ''aws_access_key_id'' = ''aws_access_key_id''"
    "trimmed ''aws_secret_access_key'' \<and> CHR ''='' \<notin> set ''aws_secret_access_key'' \<and>
      trim (''aws_secret_access_key'' @ '' '') = ''aws_secret_access_key'' \<and>
      toLowerCase ''aws_secret_access_key'' = ''aws_secret_access_key''"
    "list_all (\<lambda>t. CHR ''a'' \<notin> set t) wsTokens" by code_simp+
  note a = k(3) [unfolded list_all_iff]
  show "plainValue v \<Longrightarrow> awsLine parseUrl (Some p, out) (''aws_access_key_id = '' @ v) =
     (Some (p\<lparr>prAccessKeyId := Some v\<rparr>), out)"
    using keyLine [of v "CHR ''a''" "''ws_access_key_id''" parseUrl p out] k(1) a
    by (simp add: commentOrBlank_def assignAws_def)
  show "plainValue v \<Longrightarrow> awsLine parseUrl (Some p, out) (''aws_secret_access_key = '' @ v) =
     (Some (p\<lparr>prSecretKey := Some v\<rparr>), out)"
    using keyLine [of v "CHR ''a''" "''ws_secret_access_key''" parseUrl p out] k(2) a
    by (simp add: commentOrBlank_def assignAws_def)
qed

lemma profile_line:
  "trim (''['' @ profileNameFor n @ '']'') = ''['' @ profileNameFor n @ '']''"
  "sectionName (''['' @ profileNameFor n @ '']'') = Some (profileNameFor n)"
  "trim (profileNameFor n) = profileNameFor n"
  "\<not> commentOrBlank (''['' @ profileNameFor n @ '']'')"
proof -
  let ?p = "profileNameFor n"
  have c: "\<forall>c \<in> set ?p. c \<noteq> CHR '']'' \<and> (\<forall>t \<in> set wsTokens. c \<notin> set t)" "?p \<noteq> []"
    using profile_chars [of n] profileChar_code by (auto simp: list_all_iff)
  have "list_all (\<lambda>t. t \<noteq> [] \<and> CHR ''['' \<notin> set t \<and> CHR '']'' \<notin> set t) wsTokens" by code_simp
  then have b: "\<forall>t \<in> set wsTokens. t \<noteq> [] \<and> CHR ''['' \<notin> set t \<and> CHR '']'' \<notin> set t"
    by (simp add: list_all_iff)
  have pre: "prefix t s \<Longrightarrow> t \<noteq> [] \<Longrightarrow> hd s \<in> set t" for t s :: string
    by (cases t; cases s) auto
  have out: "\<not> prefix t s \<and> \<not> suffix t s"
    if "t \<in> set wsTokens" "hd s \<notin> set t" "last s \<notin> set t" for t s
    using that b pre [of t s] suffix_last [of t s] by blast
  have "trimmed ?p" using c out [of _ ?p] unfolding trimmed_def list_all_iff
    by (meson hd_in_set last_in_set)
  then show "trim ?p = ?p" by (rule trim_id)
  have "trimmed (''['' @ ?p @ '']'')" using b out [of _ "''['' @ ?p @ '']''"] unfolding trimmed_def list_all_iff
    by simp
  then show "trim (''['' @ ?p @ '']'') = ''['' @ ?p @ '']''" by (rule trim_id)
  show "sectionName (''['' @ ?p @ '']'') = Some ?p" using c by (auto simp: sectionName_def butlast_append Suc_le_eq)
  show "\<not> commentOrBlank (''['' @ ?p @ '']'')" by (simp add: commentOrBlank_def)
qed

text \<open>
  The credentials file that the secret dialog offers for a fresh service account is recognised
  by the bulk key import as a credentials file with one section, and both keys come back unchanged under
  the profile name of the account; all that the row then lacks is an endpoint.
\<close>

theorem credentials_snippet_roundtrip:
  assumes "plainValue akid" and "plainValue secret"
  shows "parseBulkKeys parseUrl (awsSnippet name akid secret) None =
    (AwsCredentials, [\<lparr>kfAlias = profileNameFor name, kfEndpoint = [], kfAccessKeyId = akid,
       kfSecretKey = secret, kfRegion = ''us-east-1'', kfStyle = None, pkErrors = [''endpoint is required'']\<rparr>])"
proof -
  let ?h = "''['' @ profileNameFor name @ '']''"
  let ?ls = "[?h, ''aws_access_key_id = '' @ akid, ''aws_secret_access_key = '' @ secret]"
  have pn: "LF \<notin> set (profileNameFor name)" "CR \<notin> set (profileNameFor name)" "profileNameFor name \<noteq> []"
    using profile_chars [of name] profileChar_code by (auto simp: list_all_iff)
  have "list_all (\<lambda>c. c \<noteq> LF \<and> c \<noteq> CR) (''[]aws_access_key_id = '' @ ''aws_secret_access_key = '')" by code_simp
  then have lines: "splitLines (awsSnippet name akid secret) = ?ls"
    unfolding awsSnippet_def using assms pn
    by (intro splitLines_join) (auto simp: plainValue_def)
  have "detectFormat (awsSnippet name akid secret) = AwsCredentials"
    unfolding detectFormat_def lines by (simp only: list.map profile_line filter.simps if_True not_False_eq_True
        list.case option.distinct simp_thms)
  moreover have "awsLine parseUrl (None, []) ?h = (Some (emptyRow\<lparr>prAlias := Some (profileNameFor name)\<rparr>), [])"
    by (simp only: awsLine_def prod.case Let_def profile_line if_False option.case flush_def)
  ultimately show ?thesis using assms pn
    by (simp add: parseBulkKeys_def parseAwsCredentials_def lines snippet_keys [simplified] snippet_keys
        flush_def closeRow_def finalizeRow_def emptyRow_def orEmpty_def required_def urlErrors_def plainValue_def
        del: append_Cons)
qed

theorem credentials_snippet_roundtrip_witness:
  "snd (parseBulkKeys (\<lambda>_. None) (awsSnippet ''CI Bot'' ''BSMT1'' ''s3cr=t'') None) \<noteq> [] \<and>
   kfAlias (hd (snd (parseBulkKeys (\<lambda>_. None) (awsSnippet ''CI Bot'' ''BSMT1'' ''s3cr=t'') None))) = ''ci-bot''"
proof -
  have "plainValue ''BSMT1'' \<and> plainValue ''s3cr=t'' \<and> profileNameFor ''CI Bot'' = ''ci-bot''" by code_simp
  then show ?thesis
    using credentials_snippet_roundtrip [of "''BSMT1''" "''s3cr=t''" "\<lambda>_. None" "''CI Bot''"] by simp
qed


section \<open>A template is sent as a scope\<close>

text \<open>
  The default scope of a bucket or key capability is a template the operator is meant to narrow. Nothing asks
  for it: left alone, the template is sent literally (\<open>validateServiceAccountScope\<close> of the server takes it for
  three non-empty segments), so the account is confined to a cluster named \<open>{cid}\<close>, which does not exist.
\<close>

theorem template_scope_sent:
  "map csCapabilities (snd (accountStep (\<lambda>s. None) noDate (MintAccount 7) (accountAfter (\<lambda>s. None) noDate
      [RegistryArrives sampleRegistry, EditAccount (AccountName ''ci''), EditAccount (ToggleCap ''bucket:read'')]))) =
    [[(''bucket:read'', ''bucket:{cid}:*'')]]"
  by code_simp

end
