(* ===== verification/Confirm_Dialogs.thy ===== *)
theory Confirm_Dialogs
  imports Prelude
begin

text \<open>
  The dialogs around a grant and a deletion that several pages share: type the name to delete
  (\<open>shared/ui/DeleteBucketConfirm.tsx\<close>, \<open>DeleteKeyConfirm.tsx\<close>, \<open>DeleteClusterConfirm.tsx\<close>, which differ in
  their texts only) and the choice of one bucket or key with its permissions
  (\<open>GrantBucketAccessDialog.tsx\<close> and its mirror \<open>AttachKeyToBucketDialog.tsx\<close>). Both keep a little state of
  their own and reset it while rendering, which is a function applied after every event of the page.
\<close>

section \<open>Type the name to delete\<close>

text \<open>\<open>cfOpen\<close> belongs to the page, the typed text and the key last seen to the dialog.\<close>

record confirm_dialog =
  cfOpen :: bool
  cfTyped :: string
  cfSeen :: "string option"

definition closedConfirm :: confirm_dialog where
  "closedConfirm = \<lparr>cfOpen = False, cfTyped = [], cfSeen = None\<rparr>"

definition confirmKey :: "string \<Rightarrow> string" where
  "confirmKey label = label @ ''::open''"

definition renderConfirm :: "string \<Rightarrow> confirm_dialog \<Rightarrow> confirm_dialog" where
  "renderConfirm label d =
     (let key = (if cfOpen d then Some (confirmKey label) else None) in
      if key \<noteq> None \<and> key \<noteq> cfSeen d then d\<lparr>cfSeen := key, cfTyped := []\<rparr>
      else if key = None \<and> cfSeen d \<noteq> None then d\<lparr>cfSeen := None\<rparr> else d)"

definition confirmMatches :: "string \<Rightarrow> confirm_dialog \<Rightarrow> bool" where
  "confirmMatches label d \<longleftrightarrow> trim (cfTyped d) = label"

text \<open>The button of the dialog.\<close>

definition confirmEnabled :: "string \<Rightarrow> bool \<Rightarrow> confirm_dialog \<Rightarrow> bool" where
  "confirmEnabled label isDeleting d \<longleftrightarrow> cfOpen d \<and> confirmMatches label d \<and> \<not> isDeleting"

definition typeConfirm :: "string \<Rightarrow> confirm_dialog \<Rightarrow> confirm_dialog" where
  "typeConfirm s d = (if cfOpen d then d\<lparr>cfTyped := s\<rparr> else d)"

text \<open>A rendered dialog has seen exactly what is on screen, and is blank when that is new.\<close>

lemma render_open [simp]: "cfOpen (renderConfirm l d) = cfOpen d"
  by (simp add: renderConfirm_def Let_def)

lemma render_seen: "cfSeen (renderConfirm l d) = (if cfOpen d then Some (confirmKey l) else None)"
  by (cases "cfOpen d"; cases "cfSeen d") (simp_all add: renderConfirm_def Let_def)

lemma render_typed:
  "cfTyped (renderConfirm l d) = (if cfOpen d \<and> cfSeen d \<noteq> Some (confirmKey l) then [] else cfTyped d)"
  by (cases "cfOpen d"; cases "cfSeen d") (simp_all add: renderConfirm_def Let_def)

section \<open>The contract of a page with such a dialog\<close>

text \<open>
  Each event of the page ends in a rendering of the dialog under the label of that moment; what is typed
  changes by a typing event only, and the dialog alone touches what it has seen.
\<close>

locale confirm_page =
  fixes pageStep :: "'e \<Rightarrow> 's \<Rightarrow> 's"
    and label :: "'s \<Rightarrow> string"
    and dialog :: "'s \<Rightarrow> confirm_dialog"
    and typedBy :: "'e \<Rightarrow> string option"
  assumes rendered: "\<exists>d. dialog (pageStep e s) = renderConfirm (label (pageStep e s)) d \<and> cfSeen d = cfSeen (dialog s) \<and>
      (cfTyped d = cfTyped (dialog s) \<or> typedBy e = Some (cfTyped d))"
begin

definition pageRun :: "'e list \<Rightarrow> 's \<Rightarrow> 's" where
  "pageRun es s = foldl (\<lambda>s e. pageStep e s) s es"

lemma pageRun_snoc: "pageRun (es @ [e]) s = pageStep e (pageRun es s)"
  by (simp add: pageRun_def)

text \<open>The dialog is open under the given label after each of the later events.\<close>

definition openUnder :: "string \<Rightarrow> 'e list \<Rightarrow> 's \<Rightarrow> bool" where
  "openUnder l es s \<longleftrightarrow> (\<forall>k \<le> length es. cfOpen (dialog (pageRun (take k es) s)) \<and> label (pageRun (take k es) s) = l)"

lemma openUnder_snoc:
  "openUnder l es s \<Longrightarrow> cfOpen (dialog (pageRun (es @ [e]) s)) \<Longrightarrow> label (pageRun (es @ [e]) s) = l \<Longrightarrow>
   openUnder l (es @ [e]) s"
  by (auto simp: openUnder_def le_Suc_eq)

lemma seen_run:
  "cfSeen (dialog s) = (if cfOpen (dialog s) then Some (confirmKey (label s)) else None) \<Longrightarrow>
   cfSeen (dialog (pageRun es s)) =
     (if cfOpen (dialog (pageRun es s)) then Some (confirmKey (label (pageRun es s))) else None)"
proof (induction es rule: rev_induct)
  case Nil
  then show ?case by (simp add: pageRun_def)
next
  case (snoc e es)
  from rendered [of e "pageRun es s"] show ?case
    unfolding pageRun_snoc using render_seen by (metis render_open)
qed

text \<open>What stands in the open dialog was typed into it, and the label has not changed since.\<close>

theorem typed_under_label:
  assumes "cfSeen (dialog s) = None" and "\<not> cfOpen (dialog s)"
    and "cfOpen (dialog (pageRun es s))" and "cfTyped (dialog (pageRun es s)) \<noteq> []"
  shows "\<exists>es1 e es2. es = es1 @ e # es2 \<and> typedBy e = Some (cfTyped (dialog (pageRun es s))) \<and>
    openUnder (label (pageRun es s)) es2 (pageRun (es1 @ [e]) s)"
  using assms(3,4)
proof (induction es rule: rev_induct)
  case Nil
  then show ?case using assms(2) by (simp add: pageRun_def)
next
  case (snoc e es)
  let ?s = "pageRun es s" and ?s' = "pageRun (es @ [e]) s"
  obtain d where d: "dialog ?s' = renderConfirm (label ?s') d" "cfSeen d = cfSeen (dialog ?s)"
    "cfTyped d = cfTyped (dialog ?s) \<or> typedBy e = Some (cfTyped d)"
    using rendered [of e ?s] by (auto simp: pageRun_snoc)
  have o: "cfOpen d" using snoc.prems(1) unfolding d(1) by simp
  have same: "cfSeen d = Some (confirmKey (label ?s'))" "cfTyped (dialog ?s') = cfTyped d"
    using snoc.prems(2) o unfolding d(1) render_typed by (simp_all split: if_splits)
  have l: "cfOpen (dialog ?s)" "label ?s' = label ?s"
    using seen_run [of s es] assms(1,2) same(1) d(2) by (simp_all add: confirmKey_def split: if_splits)
  show ?case
  proof (cases "typedBy e = Some (cfTyped d)")
    case True
    have "openUnder (label ?s') [] (pageRun (es @ [e]) s)"
      using snoc.prems(1) by (simp add: openUnder_def pageRun_def)
    moreover have "typedBy e = Some (cfTyped (dialog ?s'))" using True same(2) by simp
    ultimately show ?thesis by (intro exI [of _ es] exI [of _ e] exI [of _ "[]"] conjI) simp_all
  next
    case False
    then have t: "cfTyped (dialog ?s) = cfTyped (dialog ?s')" using d(3) same(2) by simp
    from snoc.IH [OF l(1)] t snoc.prems(2) obtain es1 e' es2 where
      *: "es = es1 @ e' # es2" "typedBy e' = Some (cfTyped (dialog ?s))"
      "openUnder (label ?s) es2 (pageRun (es1 @ [e']) s)" by auto
    have run: "pageRun (es2 @ [e]) (pageRun (es1 @ [e']) s) = ?s'"
      using *(1) by (simp add: pageRun_def)
    have "openUnder (label ?s') (es2 @ [e]) (pageRun (es1 @ [e']) s)"
      using openUnder_snoc [of "label ?s" es2 "pageRun (es1 @ [e']) s" e] *(3) l(2) snoc.prems(1)
      unfolding run by simp
    moreover have "es @ [e] = es1 @ e' # (es2 @ [e])" using *(1) by simp
    ultimately show ?thesis using *(2) unfolding t by (intro exI [of _ es1] exI [of _ e'] exI [of _ "es2 @ [e]"] conjI)
  qed
qed

text \<open>So the button works only after the label itself was typed.\<close>

lemma trim_nil: "trim [] = []"
  by code_simp

theorem confirmed_after_typing:
  assumes "cfSeen (dialog s) = None" and "\<not> cfOpen (dialog s)"
    and "confirmEnabled (label (pageRun es s)) busy (dialog (pageRun es s))" and "label (pageRun es s) \<noteq> []"
  shows "\<exists>es1 e es2 t. es = es1 @ e # es2 \<and> typedBy e = Some t \<and> trim t = label (pageRun es s) \<and>
    (\<forall>k \<le> length es2. cfOpen (dialog (pageRun (es1 @ e # take k es2) s)) \<and>
      label (pageRun (es1 @ e # take k es2) s) = label (pageRun es s))"
proof -
  let ?p = "pageRun es s"
  have c: "cfOpen (dialog ?p)" "trim (cfTyped (dialog ?p)) = label ?p"
    using assms(3) by (simp_all add: confirmEnabled_def confirmMatches_def)
  then have "cfTyped (dialog ?p) \<noteq> []" using assms(4) trim_nil by auto
  from typed_under_label [OF assms(1,2) c(1) this] obtain es1 e es2 where
    *: "es = es1 @ e # es2" "typedBy e = Some (cfTyped (dialog ?p))" "openUnder (label ?p) es2 (pageRun (es1 @ [e]) s)" by blast
  have after: "pageRun ys (pageRun xs s) = pageRun (xs @ ys) s" for xs ys by (simp add: pageRun_def)
  show ?thesis using * c(2) unfolding openUnder_def after
    by (intro exI [of _ es1] exI [of _ e] exI [of _ es2] exI [of _ "cfTyped (dialog ?p)"]) simp
qed

end


section \<open>One edge between a key and a bucket\<close>

text \<open>The choice of the other end and the permissions; \<open>egTrack\<close> is \<open>openTrack\<close>.\<close>

record edge_dialog =
  egOpen :: bool
  egTrack :: bool
  egChoice :: string
  egRead :: bool
  egWrite :: bool
  egOwner :: bool

definition closedEdge :: edge_dialog where
  "closedEdge = \<lparr>egOpen = False, egTrack = False, egChoice = [], egRead = True, egWrite = False, egOwner = False\<rparr>"

text \<open>The reset of a dialog that has just been opened; the candidates are identifiers.\<close>

definition renderEdge :: "string list \<Rightarrow> edge_dialog \<Rightarrow> edge_dialog" where
  "renderEdge candidates d =
     (if egOpen d \<and> \<not> egTrack d
      then d\<lparr>egTrack := True, egChoice := (case candidates of [] \<Rightarrow> [] | c # _ \<Rightarrow> c),
             egRead := True, egWrite := False, egOwner := False\<rparr>
      else if \<not> egOpen d \<and> egTrack d then d\<lparr>egTrack := False\<rparr> else d)"

definition handleOwnerToggle :: "edge_dialog \<Rightarrow> edge_dialog" where
  "handleOwnerToggle d =
     (let nxt = \<not> egOwner d in
      if nxt then d\<lparr>egOwner := nxt, egRead := False, egWrite := False\<rparr> else d\<lparr>egOwner := nxt\<rparr>)"

datatype edge_field = ReadField | WriteField

fun handleReadOrWriteToggle :: "edge_field \<Rightarrow> edge_dialog \<Rightarrow> edge_dialog" where
  "handleReadOrWriteToggle ReadField d = d\<lparr>egOwner := False, egRead := \<not> egRead d\<rparr>"
| "handleReadOrWriteToggle WriteField d = d\<lparr>egOwner := False, egWrite := \<not> egWrite d\<rparr>"

definition canSubmitEdge :: "bool \<Rightarrow> edge_dialog \<Rightarrow> bool" where
  "canSubmitEdge isSaving d \<longleftrightarrow> egChoice d \<noteq> [] \<and> (egRead d \<or> egWrite d \<or> egOwner d) \<and> \<not> isSaving"

datatype edge_event = PickEdge string | ToggleOwner | ToggleField edge_field

text \<open>The form stands only while there are candidates; its controls are off while a grant is being saved.\<close>

fun edgeStep :: "string list \<Rightarrow> bool \<Rightarrow> edge_event \<Rightarrow> edge_dialog \<Rightarrow> edge_dialog" where
  "edgeStep candidates isSaving (PickEdge c) d =
     (if egOpen d \<and> \<not> isSaving \<and> c \<in> set candidates then d\<lparr>egChoice := c\<rparr> else d)"
| "edgeStep candidates isSaving ToggleOwner d =
     (if egOpen d \<and> \<not> isSaving \<and> candidates \<noteq> [] then handleOwnerToggle d else d)"
| "edgeStep candidates isSaving (ToggleField f) d =
     (if egOpen d \<and> \<not> isSaving \<and> candidates \<noteq> [] then handleReadOrWriteToggle f d else d)"

text \<open>Owner excludes read and write.\<close>

definition edgeOk :: "edge_dialog \<Rightarrow> bool" where
  "edgeOk d \<longleftrightarrow> (egOwner d \<longrightarrow> \<not> egRead d \<and> \<not> egWrite d)"

lemma edgeOk_closed [simp]: "edgeOk closedEdge"
  by (simp add: edgeOk_def closedEdge_def)

lemma edgeOk_render [simp]: "edgeOk d \<Longrightarrow> edgeOk (renderEdge cs d)"
  by (simp add: edgeOk_def renderEdge_def)

lemma edgeOk_open [simp]: "edgeOk (d\<lparr>egOpen := b\<rparr>) = edgeOk d"
  by (simp add: edgeOk_def)

lemma edgeOk_step: "edgeOk d \<Longrightarrow> edgeOk (edgeStep cs saving e d)"
proof (cases e)
  case (ToggleField f)
  then show "edgeOk d \<Longrightarrow> edgeOk (edgeStep cs saving e d)"
    by (cases f) (simp_all add: edgeOk_def)
qed (simp_all add: edgeOk_def handleOwnerToggle_def Let_def)

section \<open>What the dialogs get wrong\<close>

lemma trim_no_space: "\<not> suffix [CHR '' ''] (trim s)"
proof -
  have "[CHR '' ''] \<in> set (map rev wsTokens)" by (simp add: wsTokens_def)
  then have "\<not> prefix [CHR '' ''] (strip (map rev wsTokens) (rev (trimStart s)))"
    by (rule strip_stripped) simp
  then show ?thesis by (simp add: trim_def trimEnd_def suffix_to_prefix)
qed

text \<open>
  The typed text is trimmed, the label is not: whatever is typed, a key whose name ends in a space cannot
  be deleted. A key with an empty name is deleted without typing anything.
\<close>

theorem untrimmed_name_never_confirmed:
  "\<not> confirmEnabled (name @ '' '') busy (renderConfirm (name @ '' '') (typeConfirm s d))"
proof -
  have "trim x \<noteq> name @ '' ''" for x
    using trim_no_space [of x] by (auto simp: suffix_def)
  then show ?thesis by (simp add: confirmEnabled_def confirmMatches_def)
qed

theorem empty_name_needs_no_typing:
  "confirmEnabled [] False (renderConfirm [] (closedConfirm\<lparr>cfOpen := True\<rparr>))"
  by code_simp

text \<open>
  A dialog opened before the candidates have arrived keeps an empty choice when they do: the list on
  screen shows its first entry, but the button stays off, and with a single candidate nothing can be picked
  anew.
\<close>

theorem late_candidates_disable_submit:
  "\<not> canSubmitEdge False (renderEdge cs (renderEdge [] (d\<lparr>egOpen := True, egTrack := False\<rparr>)))"
  by (simp add: renderEdge_def canSubmitEdge_def)

end
