(* ===== verification/Key_Permissions.thy ===== *)
theory Key_Permissions
  imports Cluster_Hooks Confirm_Dialogs "HOL-Library.Multiset"
begin

text \<open>
  The page of one access key (\<open>routes/admin/clusters/$cid/keys/$id.tsx\<close>): the editor of its permissions on all
  buckets of the cluster, with filter and pages, and the dialogs that grant one bucket, revoke one bucket
  and delete the key. What a list of permissions does to the grants of a key is the loop of
  \<open>UpdateKeyPermissions\<close> in \<open>internal/drivers/garage/keys.go\<close>. The order of \<open>localeCompare\<close> is the parameter
  \<open>collate\<close>: \<open>collate a b\<close> says that \<open>a\<close> does not come after \<open>b\<close>.
\<close>

section \<open>Permissions and grants\<close>

record bucket_perm =
  bpBucket :: string
  bpRead :: bool
  bpWrite :: bool
  bpOwner :: bool

text \<open>A row of the key, with the aliases of its bucket.\<close>

record key_bucket = bucket_perm +
  kbGlobal :: "string list option"
  kbLocal :: "string list option"

definition permOf :: "key_bucket \<Rightarrow> bucket_perm" where
  "permOf b = \<lparr>bpBucket = bpBucket b, bpRead = bpRead b, bpWrite = bpWrite b, bpOwner = bpOwner b\<rparr>"

record key_detail =
  kyName :: "string option"
  kyBuckets :: "key_bucket list"

text \<open>A bucket of the cluster; a missing identifier is empty.\<close>

record cluster_bucket =
  cbId :: string
  cbAliases :: "string list option"

definition permJson :: "bucket_perm \<Rightarrow> json" where
  "permJson p = JObj [(''bucketId'', JStr (bpBucket p)), (''read'', JBool (bpRead p)), (''write'', JBool (bpWrite p)),
     (''owner'', JBool (bpOwner p))]"

definition permsJson :: "bucket_perm list \<Rightarrow> json" where
  "permsJson ps = JArr (map permJson ps)"

text \<open>
  The grants of a key: read, write and owner on each bucket it has an edge to. For each entry in turn the
  driver allows what is true and denies what is not, so the entry replaces the edge; an edge with no
  permission is none.
\<close>

type_synonym grants = "string \<Rightarrow> (bool \<times> bool \<times> bool) option"

definition setEdge :: "bucket_perm \<Rightarrow> grants \<Rightarrow> grants" where
  "setEdge p g = g(bpBucket p :=
     (if bpRead p \<or> bpWrite p \<or> bpOwner p then Some (bpRead p, bpWrite p, bpOwner p) else None))"

definition applyPerms :: "bucket_perm list \<Rightarrow> grants \<Rightarrow> grants" where
  "applyPerms ps g = foldl (\<lambda>g p. setEdge p g) g ps"

definition grantsOf :: "key_detail \<Rightarrow> grants" where
  "grantsOf key = applyPerms (map permOf (kyBuckets key)) (\<lambda>b. None)"

section \<open>Labels, filter and pages\<close>

definition PAGE_SIZE :: nat where
  "PAGE_SIZE = 50"

definition ellipsis :: string where
  "ellipsis = [CHR 0xE2, CHR 0x80, CHR 0xA6]"

definition shortId :: "string \<Rightarrow> string" where
  "shortId i = take 12 i @ ellipsis"

text \<open>\<open>aliases?.[0]\<close>.\<close>

definition firstAlias :: "string list option \<Rightarrow> string option" where
  "firstAlias xs = (case xs of Some (a # _) \<Rightarrow> Some a | _ \<Rightarrow> None)"

definition clusterLabel :: "cluster_bucket \<Rightarrow> string" where
  "clusterLabel b = (case firstAlias (cbAliases b) of Some a \<Rightarrow> a | None \<Rightarrow> shortId (cbId b))"

definition rowLabel :: "key_bucket \<Rightarrow> string" where
  "rowLabel b =
     (case firstAlias (kbGlobal b) of Some a \<Rightarrow> a
      | None \<Rightarrow> (case firstAlias (kbLocal b) of Some a \<Rightarrow> a | None \<Rightarrow> shortId (bpBucket b)))"

definition bucketLabels :: "cluster_bucket list \<Rightarrow> key_bucket list \<Rightarrow> string \<Rightarrow> string option" where
  "bucketLabels cbs kbs =
     foldl (\<lambda>m b. if m (bpBucket b) \<noteq> None then m else m(bpBucket b := Some (rowLabel b)))
       (foldl (\<lambda>m b. if cbId b = [] then m else m(cbId b := Some (clusterLabel b))) (\<lambda>i. None) cbs) kbs"

definition labelOr :: "(string \<Rightarrow> string option) \<Rightarrow> string \<Rightarrow> string" where
  "labelOr labels i = (case labels i of Some l \<Rightarrow> l | None \<Rightarrow> i)"

definition granted :: "bucket_perm \<Rightarrow> bool" where
  "granted p \<longleftrightarrow> bpRead p \<or> bpWrite p \<or> bpOwner p"

definition visiblePermissions ::
  "(string \<Rightarrow> string option) \<Rightarrow> string \<Rightarrow> bool \<Rightarrow> bucket_perm list \<Rightarrow> bucket_perm list" where
  "visiblePermissions labels filterText onlyGranted ps =
     (let needle = toLowerCase (trim filterText) in
      filter (\<lambda>p. \<not> (onlyGranted \<and> \<not> granted p) \<and>
        (needle = [] \<or> sublist needle (toLowerCase (labelOr labels (bpBucket p))))) ps)"

definition totalPages :: "bucket_perm list \<Rightarrow> nat" where
  "totalPages visible = max 1 ((length visible + PAGE_SIZE - 1) div PAGE_SIZE)"

definition clampedPage :: "nat \<Rightarrow> bucket_perm list \<Rightarrow> nat" where
  "clampedPage page visible = min page (totalPages visible - 1)"

definition pageRows :: "nat \<Rightarrow> bucket_perm list \<Rightarrow> bucket_perm list" where
  "pageRows page visible = take PAGE_SIZE (drop (clampedPage page visible * PAGE_SIZE) visible)"

definition grantedCount :: "bucket_perm list \<Rightarrow> nat" where
  "grantedCount ps = length (filter granted ps)"

section \<open>The rows of the editor\<close>

text \<open>A stable insertion sort, for \<open>sort\<close> with a comparison.\<close>

fun insertBy :: "('a \<Rightarrow> 'a \<Rightarrow> bool) \<Rightarrow> 'a \<Rightarrow> 'a list \<Rightarrow> 'a list" where
  "insertBy le x [] = [x]"
| "insertBy le x (y # ys) = (if le x y then x # y # ys else y # insertBy le x ys)"

definition sortBy :: "('a \<Rightarrow> 'a \<Rightarrow> bool) \<Rightarrow> 'a list \<Rightarrow> 'a list" where
  "sortBy le xs = foldr (insertBy le) xs []"

definition tailRows :: "cluster_bucket list \<Rightarrow> key_bucket list \<Rightarrow> bucket_perm list" where
  "tailRows cbs kbs =
     map (\<lambda>b. \<lparr>bpBucket = cbId b, bpRead = False, bpWrite = False, bpOwner = False\<rparr>)
       (filter (\<lambda>b. cbId b \<noteq> [] \<and> cbId b \<notin> bpBucket ` set kbs) cbs)"

definition hydrateRows ::
  "(string \<Rightarrow> string \<Rightarrow> bool) \<Rightarrow> cluster_bucket list \<Rightarrow> key_bucket list \<Rightarrow> bucket_perm list" where
  "hydrateRows collate cbs kbs =
     (let labels = bucketLabels cbs kbs; name = (\<lambda>p. toLowerCase (labelOr labels (bpBucket p)))
      in map permOf kbs @ sortBy (\<lambda>p q. collate (name p) (name q)) (tailRows cbs kbs))"

datatype perm_field = PermRead | PermWrite | PermOwner

text \<open>One click on a checkbox of a row.\<close>

definition changePerm :: "perm_field \<Rightarrow> bucket_perm \<Rightarrow> bucket_perm" where
  "changePerm field p =
     (let newOwner = (\<not> bpOwner p \<and> field = PermOwner);
          newRead = (if field = PermRead then \<not> bpRead p else if newOwner then False else bpRead p);
          newWrite = (if field = PermWrite then \<not> bpWrite p else if newOwner then False else bpWrite p)
      in p\<lparr>bpRead := newRead, bpWrite := newWrite, bpOwner := newOwner\<rparr>)"

definition handlePermissionChange :: "string \<Rightarrow> perm_field \<Rightarrow> bucket_perm list \<Rightarrow> bucket_perm list" where
  "handlePermissionChange bucketId field = map (\<lambda>p. if bpBucket p \<noteq> bucketId then p else changePerm field p)"


section \<open>The page\<close>

text \<open>
  \<open>kgSaving\<close> is the update under way, from the click until the elevation guard is through with it. The page
  is shown once the key has been loaded; later answers replace the key and the buckets of the cluster.
\<close>

datatype save_kind = EditorSave | GrantSave | RevokeSave

record key_page =
  kgKey :: key_detail
  kgCluster :: "cluster_bucket list"
  kgDriver :: string
  kgEditing :: bool
  kgEdit :: "bucket_perm list"
  kgFilter :: string
  kgPage :: nat
  kgOnly :: bool
  kgGrant :: edge_dialog
  kgRevoke :: "string option"
  kgDelete :: confirm_dialog
  kgSaving :: "save_kind option"
  kgDeleting :: bool

definition openKeyPage :: "key_detail \<Rightarrow> key_page" where
  "openKeyPage key = \<lparr>kgKey = key, kgCluster = [], kgDriver = [], kgEditing = False, kgEdit = [], kgFilter = [],
     kgPage = 0, kgOnly = False, kgGrant = closedEdge, kgRevoke = None, kgDelete = closedConfirm,
     kgSaving = None, kgDeleting = False\<rparr>"

definition supportsGrants :: "string \<Rightarrow> bool" where
  "supportsGrants driver \<longleftrightarrow> driver = ''garage'' \<or> driver = ''garage-v1''"

definition grantCandidates :: "key_page \<Rightarrow> string list" where
  "grantCandidates p = filter (\<lambda>i. i \<noteq> [] \<and> i \<notin> bpBucket ` set (kyBuckets (kgKey p))) (map cbId (kgCluster p))"

definition keyVisible :: "key_page \<Rightarrow> bucket_perm list" where
  "keyVisible p = visiblePermissions (bucketLabels (kgCluster p) (kyBuckets (kgKey p))) (kgFilter p) (kgOnly p) (kgEdit p)"

definition deleteKeyLabel :: "key_page \<Rightarrow> string" where
  "deleteKeyLabel p = (case kyName (kgKey p) of Some n \<Rightarrow> n | None \<Rightarrow> ''key'')"

text \<open>No dialog covers the page.\<close>

definition uncovered :: "key_page \<Rightarrow> bool" where
  "uncovered p \<longleftrightarrow> \<not> egOpen (kgGrant p) \<and> kgRevoke p = None \<and> \<not> cfOpen (kgDelete p)"

datatype key_page_event =
    KeyLoaded key_detail
  | BucketsLoaded "cluster_bucket list"
  | DriverLoaded string
  | PressEdit
  | TypeFilter string
  | SetOnlyGranted bool
  | ClickPerm string perm_field
  | PressPrevious
  | PressNext
  | PressCancel
  | PressSave
  | OpenGrant
  | CloseGrant
  | GrantEdge edge_event
  | SubmitGrant
  | AskRevokeGrant string
  | CloseRevoke
  | ConfirmRevokeGrant
  | OpenKeyDelete
  | TypeKeyName string
  | CloseKeyDelete
  | ConfirmKeyDelete
  | UpdateSettled bool
  | DeleteSettled

datatype key_request = SavePermissions "bucket_perm list" | DropKey

definition startEditing :: "(string \<Rightarrow> string \<Rightarrow> bool) \<Rightarrow> key_page \<Rightarrow> key_page" where
  "startEditing collate p = p\<lparr>kgEditing := True, kgEdit := hydrateRows collate (kgCluster p) (kyBuckets (kgKey p)),
     kgFilter := [], kgPage := 0, kgOnly := False\<rparr>"

definition grantPerms :: "key_page \<Rightarrow> bucket_perm list" where
  "grantPerms p = map permOf (kyBuckets (kgKey p)) @
     [\<lparr>bpBucket = egChoice (kgGrant p), bpRead = egRead (kgGrant p), bpWrite = egWrite (kgGrant p), bpOwner = egOwner (kgGrant p)\<rparr>]"

definition revokePerms :: "string \<Rightarrow> bucket_perm list" where
  "revokePerms bucketId = [\<lparr>bpBucket = bucketId, bpRead = False, bpWrite = False, bpOwner = False\<rparr>]"

fun keyMove ::
  "(string \<Rightarrow> string \<Rightarrow> bool) \<Rightarrow> key_page_event \<Rightarrow> key_page \<Rightarrow> key_page \<times> key_request list" where
  "keyMove collate (KeyLoaded key) p = (p\<lparr>kgKey := key\<rparr>, [])"
| "keyMove collate (BucketsLoaded cbs) p = (p\<lparr>kgCluster := cbs\<rparr>, [])"
| "keyMove collate (DriverLoaded d) p = (p\<lparr>kgDriver := d\<rparr>, [])"
| "keyMove collate PressEdit p =
     (if uncovered p \<and> \<not> kgEditing p \<and> (kyBuckets (kgKey p) \<noteq> [] \<or> kgCluster p \<noteq> [])
      then startEditing collate p else p, [])"
| "keyMove collate (TypeFilter s) p = (if uncovered p \<and> kgEditing p then p\<lparr>kgFilter := s, kgPage := 0\<rparr> else p, [])"
| "keyMove collate (SetOnlyGranted b) p = (if uncovered p \<and> kgEditing p then p\<lparr>kgOnly := b, kgPage := 0\<rparr> else p, [])"
| "keyMove collate (ClickPerm i f) p =
     (if uncovered p \<and> kgEditing p \<and> kgSaving p = None \<and> i \<in> bpBucket ` set (pageRows (kgPage p) (keyVisible p))
      then p\<lparr>kgEdit := handlePermissionChange i f (kgEdit p)\<rparr> else p, [])"
| "keyMove collate PressPrevious p =
     (if uncovered p \<and> kgEditing p \<and> clampedPage (kgPage p) (keyVisible p) \<noteq> 0 then p\<lparr>kgPage := kgPage p - 1\<rparr> else p, [])"
| "keyMove collate PressNext p =
     (if uncovered p \<and> kgEditing p \<and> clampedPage (kgPage p) (keyVisible p) < totalPages (keyVisible p) - 1
      then p\<lparr>kgPage := min (totalPages (keyVisible p) - 1) (kgPage p + 1)\<rparr> else p, [])"
| "keyMove collate PressCancel p =
     (if uncovered p \<and> kgEditing p \<and> kgSaving p = None
      then p\<lparr>kgEdit := [], kgFilter := [], kgPage := 0, kgOnly := False, kgEditing := False\<rparr> else p, [])"
| "keyMove collate PressSave p =
     (if uncovered p \<and> kgEditing p \<and> kgSaving p = None
      then (p\<lparr>kgEditing := False, kgSaving := Some EditorSave\<rparr>, [SavePermissions (kgEdit p)]) else (p, []))"
| "keyMove collate OpenGrant p =
     (if uncovered p \<and> \<not> kgEditing p \<and> supportsGrants (kgDriver p) then p\<lparr>kgGrant := (kgGrant p)\<lparr>egOpen := True\<rparr>\<rparr> else p, [])"
| "keyMove collate CloseGrant p = (p\<lparr>kgGrant := (kgGrant p)\<lparr>egOpen := False\<rparr>\<rparr>, [])"
| "keyMove collate (GrantEdge e) p =
     (if supportsGrants (kgDriver p)
      then p\<lparr>kgGrant := edgeStep (grantCandidates p) (kgSaving p \<noteq> None) e (kgGrant p)\<rparr> else p, [])"
| "keyMove collate SubmitGrant p =
     (if supportsGrants (kgDriver p) \<and> egOpen (kgGrant p) \<and> grantCandidates p \<noteq> [] \<and>
         canSubmitEdge (kgSaving p \<noteq> None) (kgGrant p)
      then (p\<lparr>kgSaving := Some GrantSave\<rparr>, [SavePermissions (grantPerms p)]) else (p, []))"
| "keyMove collate (AskRevokeGrant i) p =
     (if uncovered p \<and> \<not> kgEditing p \<and> supportsGrants (kgDriver p) \<and> kgSaving p = None \<and>
         i \<in> bpBucket ` set (kyBuckets (kgKey p))
      then p\<lparr>kgRevoke := Some i\<rparr> else p, [])"
| "keyMove collate CloseRevoke p = (p\<lparr>kgRevoke := None\<rparr>, [])"
| "keyMove collate ConfirmRevokeGrant p =
     (case kgRevoke p of None \<Rightarrow> (p, [])
      | Some i \<Rightarrow> if kgSaving p \<noteq> None then (p, [])
          else (p\<lparr>kgSaving := Some RevokeSave\<rparr>, [SavePermissions (revokePerms i)]))"
| "keyMove collate OpenKeyDelete p = (if uncovered p then p\<lparr>kgDelete := (kgDelete p)\<lparr>cfOpen := True\<rparr>\<rparr> else p, [])"
| "keyMove collate (TypeKeyName s) p = (p\<lparr>kgDelete := typeConfirm s (kgDelete p)\<rparr>, [])"
| "keyMove collate CloseKeyDelete p = (p\<lparr>kgDelete := (kgDelete p)\<lparr>cfOpen := False\<rparr>\<rparr>, [])"
| "keyMove collate ConfirmKeyDelete p =
     (if confirmEnabled (deleteKeyLabel p) (kgDeleting p) (kgDelete p)
      then (p\<lparr>kgDelete := (kgDelete p)\<lparr>cfOpen := False\<rparr>, kgDeleting := True\<rparr>, [DropKey]) else (p, []))"
| "keyMove collate (UpdateSettled ok) p =
     (case kgSaving p of None \<Rightarrow> p
      | Some EditorSave \<Rightarrow> p\<lparr>kgSaving := None\<rparr>
      | Some GrantSave \<Rightarrow> p\<lparr>kgSaving := None, kgGrant := (if ok then (kgGrant p)\<lparr>egOpen := False\<rparr> else kgGrant p)\<rparr>
      | Some RevokeSave \<Rightarrow> p\<lparr>kgSaving := None, kgRevoke := (if ok then None else kgRevoke p)\<rparr>, [])"
| "keyMove collate DeleteSettled p = (p\<lparr>kgDeleting := False\<rparr>, [])"

text \<open>The rendering after an event: both dialogs reset themselves; without support for grants one of them is not mounted.\<close>

definition renderKeyPage :: "key_page \<Rightarrow> key_page" where
  "renderKeyPage p = p\<lparr>kgDelete := renderConfirm (deleteKeyLabel p) (kgDelete p),
     kgGrant := (if supportsGrants (kgDriver p) then renderEdge (grantCandidates p) (kgGrant p)
       else closedEdge\<lparr>egOpen := egOpen (kgGrant p)\<rparr>)\<rparr>"

definition keyPageStep ::
  "(string \<Rightarrow> string \<Rightarrow> bool) \<Rightarrow> key_page_event \<Rightarrow> key_page \<Rightarrow> key_page \<times> key_request list" where
  "keyPageStep collate e p = (case keyMove collate e p of (p', rs) \<Rightarrow> (renderKeyPage p', rs))"

definition keyPageAfter ::
  "(string \<Rightarrow> string \<Rightarrow> bool) \<Rightarrow> key_detail \<Rightarrow> key_page_event list \<Rightarrow> key_page" where
  "keyPageAfter collate key es = foldl (\<lambda>p e. fst (keyPageStep collate e p)) (openKeyPage key) es"

text \<open>What a request asks of the server, behind the guard of \<open>Prompts\<close>.\<close>

fun keyAction :: "string \<Rightarrow> string \<Rightarrow> key_request \<Rightarrow> json js" where
  "keyAction cid i (SavePermissions ps) = mutationFn useUpdateKeyPermissions (cid, i, permsJson ps)"
| "keyAction cid i DropKey = mutationFn useDeleteKey (cid, i)"


section \<open>Replaying permissions on the grants\<close>

text \<open>The edge a row stands for.\<close>

definition edgeOf :: "bucket_perm \<Rightarrow> (bool \<times> bool \<times> bool) option" where
  "edgeOf p = (if granted p then Some (bpRead p, bpWrite p, bpOwner p) else None)"

lemma setEdge_eq: "setEdge p g = g(bpBucket p := edgeOf p)"
  by (simp add: setEdge_def edgeOf_def granted_def)

lemma applyPerms_simps [simp]:
  "applyPerms [] g = g" "applyPerms (p # ps) g = applyPerms ps (setEdge p g)"
  "applyPerms (ps @ qs) g = applyPerms qs (applyPerms ps g)"
  by (simp_all add: applyPerms_def)

lemma applyPerms_other: "b \<notin> bpBucket ` set ps \<Longrightarrow> applyPerms ps g b = g b"
  by (induction ps arbitrary: g) (auto simp: setEdge_eq)

lemma applyPerms_row: "distinct (map bpBucket ps) \<Longrightarrow> p \<in> set ps \<Longrightarrow> applyPerms ps g (bpBucket p) = edgeOf p"
proof (induction ps arbitrary: g)
  case (Cons q ps)
  show ?case
  proof (cases "p = q")
    case True
    then show ?thesis using Cons.prems(1) by (simp add: applyPerms_other setEdge_eq)
  next
    case False
    then show ?thesis using Cons by simp
  qed
qed simp

lemma applyPerms_again: "distinct (map bpBucket ps) \<Longrightarrow> applyPerms ps (applyPerms ps g) = applyPerms ps g"
proof
  fix b assume d: "distinct (map bpBucket ps)"
  show "applyPerms ps (applyPerms ps g) b = applyPerms ps g b"
  proof (cases "b \<in> bpBucket ` set ps")
    case True
    then obtain p where "p \<in> set ps" "b = bpBucket p" by blast
    then show ?thesis using d by (simp add: applyPerms_row)
  qed (simp add: applyPerms_other)
qed

section \<open>The rows of the editor are all buckets, each once\<close>

lemma permOf_bucket [simp]: "bpBucket (permOf b) = bpBucket b"
  by (simp add: permOf_def)

lemma map_permOf_bucket [simp]: "map (bpBucket \<circ> permOf) bs = map bpBucket bs"
  by simp

lemma mset_insertBy: "mset (insertBy le x xs) = {#x#} + mset xs"
  by (induction xs) auto

lemma mset_sortBy: "mset (sortBy le xs) = mset xs"
  by (induction xs) (simp_all add: sortBy_def mset_insertBy)

lemma set_sortBy [simp]: "set (sortBy le xs) = set xs"
  by (metis mset_sortBy set_mset_mset)

lemma distinct_sortBy: "distinct (map f (sortBy le xs)) = distinct (map f xs)"
  by (metis mset_sortBy mset_map mset_eq_imp_distinct_iff)

definition clusterIds :: "cluster_bucket list \<Rightarrow> string list" where
  "clusterIds cbs = filter (\<lambda>i. i \<noteq> []) (map cbId cbs)"

lemma tailRows_ids:
  "map bpBucket (tailRows cbs kbs) = filter (\<lambda>i. i \<notin> bpBucket ` set kbs) (clusterIds cbs)"
  by (induction cbs) (auto simp: tailRows_def clusterIds_def)

lemma hydrateRows_ids:
  "set (map bpBucket (hydrateRows collate cbs kbs)) = bpBucket ` set kbs \<union> set (clusterIds cbs)"
proof -
  have "bpBucket ` set (tailRows cbs kbs) = set (map bpBucket (tailRows cbs kbs))" by simp
  then have "bpBucket ` set (tailRows cbs kbs) = set (clusterIds cbs) - bpBucket ` set kbs"
    unfolding tailRows_ids by auto
  then show ?thesis by (auto simp: hydrateRows_def Let_def image_Un image_comp)
qed

lemma hydrateRows_distinct:
  "distinct (map bpBucket kbs) \<Longrightarrow> distinct (clusterIds cbs) \<Longrightarrow> distinct (map bpBucket (hydrateRows collate cbs kbs))"
proof -
  assume k: "distinct (map bpBucket kbs)" and c: "distinct (clusterIds cbs)"
  let ?t = "tailRows cbs kbs"
  have "distinct (map bpBucket ?t)" unfolding tailRows_ids using c by simp
  moreover have "set (map bpBucket ?t) \<inter> bpBucket ` set kbs = {}" unfolding tailRows_ids by auto
  ultimately show ?thesis using k
    by (auto simp: hydrateRows_def Let_def distinct_sortBy)
qed

text \<open>Saved as they were loaded, the rows change no grant.\<close>

lemma hydrateRows_keep:
  "edgeOf r = grantsOf key (bpBucket r)"
  if "r \<in> set (hydrateRows collate cbs (kyBuckets key))" and "distinct (map bpBucket (kyBuckets key))"
proof (cases "r \<in> permOf ` set (kyBuckets key)")
  case True
  then show ?thesis using that(2) applyPerms_row [of "map permOf (kyBuckets key)" r]
    by (auto simp: grantsOf_def)
next
  case False
  then have t: "r \<in> set (tailRows cbs (kyBuckets key))" using that(1) by (auto simp: hydrateRows_def Let_def)
  then have "bpBucket r \<notin> bpBucket ` set (map permOf (kyBuckets key))" "\<not> granted r"
    by (auto simp: tailRows_def granted_def)
  then show ?thesis by (simp add: grantsOf_def applyPerms_other edgeOf_def)
qed


section \<open>An editing session\<close>

text \<open>Same buckets in the same order, and the same permissions but for the given buckets.\<close>

definition sameBut :: "string set \<Rightarrow> bucket_perm list \<Rightarrow> bucket_perm list \<Rightarrow> bool" where
  "sameBut T xs ys \<longleftrightarrow> list_all2 (\<lambda>x y. bpBucket x = bpBucket y \<and> (bpBucket x \<notin> T \<longrightarrow> x = y)) xs ys"

lemma sameBut_refl [simp]: "sameBut T xs xs"
  by (simp add: sameBut_def list_all2_refl)

lemma sameBut_mono: "sameBut T xs ys \<Longrightarrow> T \<subseteq> U \<Longrightarrow> sameBut U xs ys"
  unfolding sameBut_def by (erule list_all2_mono) blast

lemma sameBut_ids: "sameBut T xs ys \<Longrightarrow> map bpBucket xs = map bpBucket ys"
  unfolding sameBut_def by (induction rule: list_all2_induct) simp_all

lemma sameBut_row: "sameBut T xs ys \<Longrightarrow> y \<in> set ys \<Longrightarrow> bpBucket y \<notin> T \<Longrightarrow> y \<in> set xs"
  unfolding sameBut_def by (induction rule: list_all2_induct) auto

lemma changePerm_bucket [simp]: "bpBucket (changePerm f p) = bpBucket p"
  by (simp add: changePerm_def Let_def)

lemma sameBut_change: "sameBut T xs ys \<Longrightarrow> sameBut (insert i T) xs (handlePermissionChange i f ys)"
proof -
  let ?h = "\<lambda>p. if bpBucket p \<noteq> i then p else changePerm f p"
  have row: "bpBucket x = bpBucket (?h y) \<and> (bpBucket x \<notin> insert i T \<longrightarrow> x = ?h y)"
    if "bpBucket x = bpBucket y \<and> (bpBucket x \<notin> T \<longrightarrow> x = y)" for x y
  proof (cases "bpBucket y = i")
    case True
    then have "?h y = changePerm f y" by simp
    with that True show ?thesis by (metis changePerm_bucket insert_iff)
  next
    case False
    then have "?h y = y" by simp
    with that show ?thesis by (metis insert_iff)
  qed
  assume "sameBut T xs ys"
  then show ?thesis unfolding sameBut_def handlePermissionChange_def list_all2_map2
    by (rule list_all2_mono) (rule row)
qed

lemma keyPageStep_fst: "fst (keyPageStep collate e p) = renderKeyPage (fst (keyMove collate e p))"
  by (simp add: keyPageStep_def split_beta)

lemma keyPageStep_snd [simp]: "snd (keyPageStep collate e p) = snd (keyMove collate e p)"
  by (simp add: keyPageStep_def split_beta)

lemma renderKeyPage_fields [simp]:
  "kgKey (renderKeyPage p) = kgKey p" "kgCluster (renderKeyPage p) = kgCluster p"
  "kgEditing (renderKeyPage p) = kgEditing p" "kgEdit (renderKeyPage p) = kgEdit p"
  "kgSaving (renderKeyPage p) = kgSaving p" "kgRevoke (renderKeyPage p) = kgRevoke p"
  "kgDriver (renderKeyPage p) = kgDriver p" "kgFilter (renderKeyPage p) = kgFilter p"
  "kgPage (renderKeyPage p) = kgPage p" "kgOnly (renderKeyPage p) = kgOnly p"
  by (simp_all add: renderKeyPage_def)

text \<open>The buckets whose checkboxes were clicked.\<close>

fun clickOf :: "key_page_event \<Rightarrow> string set" where
  "clickOf (ClickPerm i f) = {i}"
| "clickOf _ = {}"

definition clickedIn :: "key_page_event list \<Rightarrow> string set" where
  "clickedIn es = (\<Union>e \<in> set es. clickOf e)"

lemma clicked_iff: "b \<in> clickedIn es \<longleftrightarrow> (\<exists>f. ClickPerm b f \<in> set es)"
proof -
  have "b \<in> clickOf e \<longleftrightarrow> (\<exists>f. e = ClickPerm b f)" for e by (cases e) auto
  then show ?thesis by (auto simp: clickedIn_def)
qed

lemma edit_step:
  assumes "kgEditing p \<Longrightarrow> sameBut T rows (kgEdit p)" and "e \<noteq> PressEdit"
    and "kgEditing (fst (keyMove collate e p))"
  shows "sameBut (T \<union> clickOf e) rows (kgEdit (fst (keyMove collate e p)))"
proof (cases e)
  case (ClickPerm i f)
  then show ?thesis using assms by (auto simp: sameBut_change intro: sameBut_mono split: if_splits)
next
  case PressCancel
  then show ?thesis using assms by (cases "uncovered p \<and> kgEditing p \<and> kgSaving p = None") auto
next
  case (UpdateSettled ok)
  then show ?thesis using assms by (cases "kgSaving p") (auto split: save_kind.splits)
qed (use assms in \<open>simp_all split: if_splits option.splits\<close>)

lemma edit_run:
  assumes "kgEditing p \<Longrightarrow> sameBut {} rows (kgEdit p)" and "PressEdit \<notin> set es"
  shows "kgEditing (foldl (\<lambda>p e. fst (keyPageStep collate e p)) p es) \<Longrightarrow>
    sameBut (clickedIn es) rows (kgEdit (foldl (\<lambda>p e. fst (keyPageStep collate e p)) p es))"
  using assms(2)
proof (induction es rule: rev_induct)
  case Nil
  then show ?case using assms(1) by (simp add: clickedIn_def)
next
  case (snoc e es)
  let ?q = "foldl (\<lambda>p e. fst (keyPageStep collate e p)) p es"
  have "clickedIn (es @ [e]) = clickedIn es \<union> clickOf e" by (auto simp: clickedIn_def)
  moreover have "e \<noteq> PressEdit" "PressEdit \<notin> set es" using snoc.prems(2) by auto
  moreover have "kgEditing ?q \<Longrightarrow> sameBut (clickedIn es) rows (kgEdit ?q)"
    using snoc.IH \<open>PressEdit \<notin> set es\<close> by blast
  ultimately show ?case
    using edit_step [of ?q "clickedIn es" rows e collate] snoc.prems(1) by (simp add: keyPageStep_fst)
qed

text \<open>
  C25. What a save of the editor leaves of any grants \<open>g\<close> the key has on the server, however
  the operator filtered and turned pages and whatever was refetched: every bucket of the key and of the cluster, as they were when Edit was pressed, has exactly one
  row; a bucket whose checkboxes were clicked gets what the editor shows, one that was not clicked gets the grant it had
  when Edit was pressed, and any other bucket keeps its grant. So a save changes
  only what was clicked when the grants are still those the editor was opened on; a
  grant that was changed elsewhere meanwhile is set back.
\<close>

theorem editor_changes_only_clicked:
  assumes "distinct (map bpBucket (kyBuckets (kgKey p0)))" and "distinct (clusterIds (kgCluster p0))"
    and "\<not> kgEditing p0" and "PressEdit \<notin> set es"
    and "p = foldl (\<lambda>p e. fst (keyPageStep collate e p)) (fst (keyPageStep collate PressEdit p0)) es"
    and "SavePermissions ps \<in> set (snd (keyPageStep collate PressSave p))"
  shows "distinct (map bpBucket ps) \<and>
    bpBucket ` set ps = bpBucket ` set (kyBuckets (kgKey p0)) \<union> set (clusterIds (kgCluster p0)) \<and>
    (\<forall>b. (\<forall>f. ClickPerm b f \<notin> set es) \<longrightarrow>
       applyPerms ps g b = (if b \<in> bpBucket ` set ps then grantsOf (kgKey p0) b else g b)) \<and>
    (\<forall>b. (\<forall>f. ClickPerm b f \<notin> set es) \<longrightarrow> applyPerms ps (grantsOf (kgKey p0)) b = grantsOf (kgKey p0) b) \<and>
    (\<forall>row \<in> set (kgEdit p). applyPerms ps g (bpBucket row) = edgeOf row)"
proof -
  let ?rows = "hydrateRows collate (kgCluster p0) (kyBuckets (kgKey p0))"
  let ?p1 = "fst (keyPageStep collate PressEdit p0)"
  have ps: "ps = kgEdit p" "kgEditing p" using assms(6) by (simp_all split: if_splits)
  have "kgEditing ?p1 \<Longrightarrow> sameBut {} ?rows (kgEdit ?p1)"
    using assms(3) by (auto simp: keyPageStep_fst startEditing_def split: if_splits)
  then have same: "sameBut (clickedIn es) ?rows ps"
    using edit_run [of ?p1 ?rows es collate] assms(4) ps(2) unfolding assms(5) ps(1) by blast
  have ids: "map bpBucket ps = map bpBucket ?rows" using sameBut_ids [OF same] by simp
  have d: "distinct (map bpBucket ps)" unfolding ids by (rule hydrateRows_distinct [OF assms(1,2)])
  have set_ids: "bpBucket ` set ps = set (map bpBucket ?rows)" unfolding ids [symmetric] by simp
  have kept: "applyPerms ps g b = (if b \<in> bpBucket ` set ps then grantsOf (kgKey p0) b else g b)"
    if "\<forall>f. ClickPerm b f \<notin> set es" for b g
  proof (cases "b \<in> bpBucket ` set ps")
    case True
    then obtain r where r: "r \<in> set ps" "b = bpBucket r" by blast
    then have "r \<in> set ?rows" using sameBut_row [OF same r(1)] that clicked_iff [of b es] by blast
    from hydrateRows_keep [OF this assms(1)] show ?thesis using applyPerms_row [OF d r(1)] r(2) True by simp
  qed (simp add: applyPerms_other)
  moreover have "\<forall>row \<in> set (kgEdit p). applyPerms ps g (bpBucket row) = edgeOf row"
    using applyPerms_row [OF d] ps(1) by blast
  moreover have "bpBucket ` set ps = bpBucket ` set (kyBuckets (kgKey p0)) \<union> set (clusterIds (kgCluster p0))"
    unfolding set_ids by (rule hydrateRows_ids)
  ultimately show ?thesis using d by simp
qed

definition sampleKeyRow :: key_bucket where
  "sampleKeyRow = \<lparr>bpBucket = ''b1'', bpRead = True, bpWrite = False, bpOwner = False, kbGlobal = None, kbLocal = None\<rparr>"

definition sampleKeyPage :: key_page where
  "sampleKeyPage = (openKeyPage \<lparr>kyName = Some ''ci'', kyBuckets = [sampleKeyRow]\<rparr>)
     \<lparr>kgDriver := ''garage'', kgCluster := [\<lparr>cbId = ''b1'', cbAliases = None\<rparr>, \<lparr>cbId = ''b2'', cbAliases = Some [''logs'']\<rparr>]\<rparr>"

theorem editor_changes_only_clicked_witness:
  "\<exists>ps. snd (keyPageStep (\<lambda>a b. True) PressSave (foldl (\<lambda>p e. fst (keyPageStep (\<lambda>a b. True) e p))
      (fst (keyPageStep (\<lambda>a b. True) PressEdit sampleKeyPage)) [TypeFilter '' LOGS'', ClickPerm ''b2'' PermOwner])) = [SavePermissions ps] \<and>
    length ps = 2 \<and> applyPerms ps (grantsOf (kgKey sampleKeyPage)) ''b1'' = Some (True, False, False)"
proof -
  let ?es = "[TypeFilter '' LOGS'', ClickPerm ''b2'' PermOwner]"
  let ?p = "foldl (\<lambda>p e. fst (keyPageStep (\<lambda>a b. True) e p)) (fst (keyPageStep (\<lambda>a b. True) PressEdit sampleKeyPage)) ?es"
  obtain ps where ps: "snd (keyPageStep (\<lambda>a b. True) PressSave ?p) = [SavePermissions ps]" "length ps = 2"
  proof -
    have "length (kgEdit ?p) = 2 \<and> uncovered ?p \<and> kgEditing ?p \<and> kgSaving ?p = None" by code_simp
    then have "snd (keyPageStep (\<lambda>a b. True) PressSave ?p) = [SavePermissions (kgEdit ?p)]" "length (kgEdit ?p) = 2"
      by (simp_all only: keyPageStep_snd keyMove.simps simp_thms if_True snd_conv)
    then show thesis by (rule that)
  qed
  have h: "distinct (map bpBucket (kyBuckets (kgKey sampleKeyPage))) \<and> distinct (clusterIds (kgCluster sampleKeyPage)) \<and>
      \<not> kgEditing sampleKeyPage" by code_simp
  have n: "\<forall>f. ClickPerm ''b1'' f \<notin> set ?es" "PressEdit \<notin> set ?es" by simp_all
  have "grantsOf (kgKey sampleKeyPage) ''b1'' = Some (True, False, False)" by code_simp
  with editor_changes_only_clicked [of sampleKeyPage ?es ?p "\<lambda>a b. True" ps "\<lambda>b. None"] h n ps show ?thesis by simp
qed


section \<open>The dialogs change one edge\<close>

lemma keyPageAfter_snoc: "keyPageAfter collate key (es @ [e]) = fst (keyPageStep collate e (keyPageAfter collate key es))"
  by (simp add: keyPageAfter_def)

lemma keyMove_edge: "edgeOk (kgGrant p) \<Longrightarrow> edgeOk (kgGrant (fst (keyMove collate e p)))"
proof (cases e)
  case (UpdateSettled ok)
  then show "edgeOk (kgGrant p) \<Longrightarrow> edgeOk (kgGrant (fst (keyMove collate e p)))"
    by (cases "kgSaving p") (auto split: save_kind.splits)
qed (simp_all add: edgeOk_step startEditing_def split: option.splits)

lemma keyPage_edge: "edgeOk (kgGrant (keyPageAfter collate key es))"
proof (induction es rule: rev_induct)
  case Nil
  then show ?case by (simp add: keyPageAfter_def openKeyPage_def)
next
  case (snoc e es)
  then show ?case using keyMove_edge
    by (simp add: keyPageAfter_snoc keyPageStep_fst renderKeyPage_def)
qed

text \<open>
  Granting a bucket from the dialog, on grants that are as the page shows them, sets exactly the edge that
  was chosen, to at least one permission and never to owner along with another; revoking removes exactly the
  edge that was asked about, whatever the others are.
\<close>

theorem key_dialogs_change_one_edge:
  assumes "p = keyPageAfter collate key es" and "distinct (map bpBucket (kyBuckets (kgKey p)))"
    and "SavePermissions ps \<in> set (snd (keyPageStep collate e p))" and "e \<noteq> PressSave"
  shows "(e = SubmitGrant \<and> egChoice (kgGrant p) \<noteq> [] \<and>
      (\<exists>r w ow. (r \<or> w \<or> ow) \<and> (ow \<longrightarrow> \<not> r \<and> \<not> w) \<and>
        applyPerms ps (grantsOf (kgKey p)) = (grantsOf (kgKey p))(egChoice (kgGrant p) := Some (r, w, ow)))) \<or>
    (e = ConfirmRevokeGrant \<and> (\<exists>i. kgRevoke p = Some i \<and> (\<forall>g. applyPerms ps g = g(i := None))))"
proof (cases e)
  case SubmitGrant
  let ?d = "kgGrant p" and ?rows = "map permOf (kyBuckets (kgKey p))"
  let ?new = "\<lparr>bpBucket = egChoice ?d, bpRead = egRead ?d, bpWrite = egWrite ?d, bpOwner = egOwner ?d\<rparr>"
  have ps: "ps = ?rows @ [?new]" "canSubmitEdge (kgSaving p \<noteq> None) ?d"
    using assms(3) unfolding SubmitGrant by (simp_all add: grantPerms_def split: if_splits)
  have "applyPerms ps (grantsOf (kgKey p)) = setEdge ?new (grantsOf (kgKey p))"
    using applyPerms_again [of ?rows] assms(2) unfolding ps(1) grantsOf_def by simp
  also have "\<dots> = (grantsOf (kgKey p))(egChoice ?d := Some (egRead ?d, egWrite ?d, egOwner ?d))"
    using ps(2) by (simp add: setEdge_def canSubmitEdge_def)
  finally have "applyPerms ps (grantsOf (kgKey p)) =
    (grantsOf (kgKey p))(egChoice ?d := Some (egRead ?d, egWrite ?d, egOwner ?d))" .
  moreover have "edgeOk ?d" unfolding assms(1) by (rule keyPage_edge)
  ultimately have "\<exists>r w ow. (r \<or> w \<or> ow) \<and> (ow \<longrightarrow> \<not> r \<and> \<not> w) \<and>
      applyPerms ps (grantsOf (kgKey p)) = (grantsOf (kgKey p))(egChoice ?d := Some (r, w, ow))"
    using ps(2) unfolding canSubmitEdge_def edgeOk_def by blast
  with SubmitGrant ps(2) show ?thesis by (intro disjI1 conjI) (simp_all only: canSubmitEdge_def simp_thms)
next
  case ConfirmRevokeGrant
  then obtain i where i: "kgRevoke p = Some i" "ps = revokePerms i"
    using assms(3) by (auto split: option.splits if_splits)
  have "applyPerms ps g = g(i := None)" for g by (simp add: i(2) revokePerms_def setEdge_def)
  with i(1) ConfirmRevokeGrant show ?thesis by blast
qed (use assms(3,4) in \<open>simp_all split: if_splits\<close>)

definition grantEvents :: "key_page_event list" where
  "grantEvents = [BucketsLoaded [\<lparr>cbId = ''b1'', cbAliases = None\<rparr>, \<lparr>cbId = ''b2'', cbAliases = Some [''logs'']\<rparr>],
     DriverLoaded ''garage'', OpenGrant, GrantEdge ToggleOwner]"

theorem key_dialogs_change_one_edge_witness:
  "\<exists>ps r w ow. snd (keyPageStep (\<lambda>a b. True) SubmitGrant (keyPageAfter (\<lambda>a b. True) (kgKey sampleKeyPage) grantEvents))
      = [SavePermissions ps] \<and> (ow \<longrightarrow> \<not> r \<and> \<not> w) \<and>
    applyPerms ps (grantsOf (kgKey sampleKeyPage)) = (grantsOf (kgKey sampleKeyPage))(''b2'' := Some (r, w, ow))"
proof -
  let ?p = "keyPageAfter (\<lambda>a b. True) (kgKey sampleKeyPage) grantEvents"
  have h: "distinct (map bpBucket (kyBuckets (kgKey ?p))) \<and> egChoice (kgGrant ?p) = ''b2'' \<and>
      supportsGrants (kgDriver ?p) \<and> egOpen (kgGrant ?p) \<and> grantCandidates ?p \<noteq> [] \<and>
      canSubmitEdge (kgSaving ?p \<noteq> None) (kgGrant ?p)" by code_simp
  have k: "kgKey ?p = kgKey sampleKeyPage"
    by (simp add: grantEvents_def keyPageAfter_def keyPageStep_fst openKeyPage_def uncovered_def)
  have s: "snd (keyPageStep (\<lambda>a b. True) SubmitGrant ?p) = [SavePermissions (grantPerms ?p)]"
    using h by (simp only: keyPageStep_snd keyMove.simps simp_thms if_True snd_conv)
  from key_dialogs_change_one_edge [OF refl, of "\<lambda>a b. True" "kgKey sampleKeyPage" grantEvents "grantPerms ?p" SubmitGrant] h s
  obtain r w ow where "ow \<longrightarrow> \<not> r \<and> \<not> w" "applyPerms (grantPerms ?p) (grantsOf (kgKey ?p)) =
      (grantsOf (kgKey ?p))(''b2'' := Some (r, w, ow))" by auto
  with s show ?thesis unfolding k by blast
qed

section \<open>Pages\<close>

lemma take_drop_pages: "length xs \<le> n * k \<Longrightarrow> concat (map (\<lambda>i. take k (drop (i * k) xs)) [0..<n]) = xs"
proof (induction n arbitrary: xs)
  case (Suc n)
  have "concat (map (\<lambda>i. take k (drop (i * k) xs)) [0..<Suc n]) =
      take k xs @ concat (map (\<lambda>i. take k (drop (i * k) (drop k xs))) [0..<n])"
    unfolding upt_conv_Cons [OF zero_less_Suc] map_Suc_upt [symmetric]
    by (simp add: comp_def add.commute)
  also have "\<dots> = take k xs @ drop k xs" using Suc.IH [of "drop k xs"] Suc.prems by simp
  finally show ?case by simp
qed simp

text \<open>
  The pages of the permission editor show every visible row exactly once, in order and at most fifty
  on each; whatever page number is left over from an earlier filter, the page on screen is one of them.
\<close>

theorem permission_pages_partition:
  "concat (map (\<lambda>k. pageRows k visible) [0..<totalPages visible]) = visible \<and>
   length (pageRows page visible) \<le> PAGE_SIZE \<and> clampedPage page visible < totalPages visible \<and>
   pageRows page visible = pageRows (clampedPage page visible) visible"
proof -
  let ?n = "totalPages visible"
  have n: "1 \<le> ?n" by (simp add: totalPages_def)
  have "length visible \<le> (length visible + PAGE_SIZE - 1) div PAGE_SIZE * PAGE_SIZE"
    by (simp add: PAGE_SIZE_def)
  also have "\<dots> \<le> ?n * PAGE_SIZE" by (intro mult_right_mono) (simp_all add: totalPages_def)
  finally have l: "length visible \<le> ?n * PAGE_SIZE" .
  have "map (\<lambda>k. pageRows k visible) [0..<?n] = map (\<lambda>k. take PAGE_SIZE (drop (k * PAGE_SIZE) visible)) [0..<?n]"
    by (intro map_cong refl) (simp add: pageRows_def clampedPage_def min_def)
  then have "concat (map (\<lambda>k. pageRows k visible) [0..<?n]) = visible"
    by (simp only: take_drop_pages [OF l])
  moreover have "clampedPage page visible < ?n" using n unfolding clampedPage_def by linarith
  ultimately show ?thesis by (simp add: pageRows_def clampedPage_def)
qed


section \<open>Deleting the key\<close>

fun keyTyped :: "key_page_event \<Rightarrow> string option" where
  "keyTyped (TypeKeyName s) = Some s"
| "keyTyped _ = None"

lemma keyMove_delete:
  "cfSeen (kgDelete (fst (keyMove collate e p))) = cfSeen (kgDelete p) \<and>
   (cfTyped (kgDelete (fst (keyMove collate e p))) = cfTyped (kgDelete p) \<or>
    keyTyped e = Some (cfTyped (kgDelete (fst (keyMove collate e p)))))"
proof (cases e)
  case (UpdateSettled ok)
  then show ?thesis by (cases "kgSaving p") (auto split: save_kind.splits)
qed (simp_all add: startEditing_def typeConfirm_def split: option.splits)

interpretation key_delete: confirm_page "\<lambda>e p. fst (keyPageStep collate e p)" deleteKeyLabel kgDelete keyTyped for collate
proof unfold_locales
  fix e p
  have l: "deleteKeyLabel (renderKeyPage q) = deleteKeyLabel q" for q by (simp add: deleteKeyLabel_def)
  show "\<exists>d. kgDelete (fst (keyPageStep collate e p)) = renderConfirm (deleteKeyLabel (fst (keyPageStep collate e p))) d \<and>
      cfSeen d = cfSeen (kgDelete p) \<and> (cfTyped d = cfTyped (kgDelete p) \<or> keyTyped e = Some (cfTyped d))"
    using keyMove_delete [of collate e p] unfolding keyPageStep_fst l
    by (intro exI [of _ "kgDelete (fst (keyMove collate e p))"]) (simp add: renderKeyPage_def)
qed

lemma keyTyped_Some: "keyTyped e = Some s \<Longrightarrow> e = TypeKeyName s"
  by (cases e) simp_all

text \<open>
  The key is deleted only by the button of the dialog and, unless its name is empty, only after its name,
  up to surrounding blanks, was typed into the dialog, which from then on stayed open under that very name.
\<close>

theorem key_delete_typed:
  assumes "p = keyPageAfter collate key es" and "DropKey \<in> set (snd (keyPageStep collate e p))"
  shows "e = ConfirmKeyDelete \<and> (deleteKeyLabel p \<noteq> [] \<longrightarrow>
    (\<exists>es1 s es2. es = es1 @ TypeKeyName s # es2 \<and> trim s = deleteKeyLabel p \<and>
      (\<forall>k \<le> length es2. let q = keyPageAfter collate key (es1 @ TypeKeyName s # take k es2)
        in cfOpen (kgDelete q) \<and> deleteKeyLabel q = deleteKeyLabel p)))"
proof -
  have e: "e = ConfirmKeyDelete" using assms(2)
    by (cases e) (simp_all split: if_splits option.splits)
  have c: "confirmEnabled (deleteKeyLabel p) (kgDeleting p) (kgDelete p)"
    using assms(2) unfolding e by (simp split: if_splits)
  have run: "keyPageAfter collate key xs = key_delete.pageRun collate xs (openKeyPage key)" for xs
    by (simp add: key_delete.pageRun_def keyPageAfter_def)
  from key_delete.confirmed_after_typing [of "openKeyPage key" collate es "kgDeleting p"] c e
  show ?thesis unfolding assms(1) run
    by (auto simp: openKeyPage_def closedConfirm_def Let_def dest!: keyTyped_Some)
qed

theorem key_delete_typed_witness:
  "DropKey \<in> set (snd (keyPageStep (\<lambda>a b. True) ConfirmKeyDelete (keyPageAfter (\<lambda>a b. True) (kgKey sampleKeyPage)
      [OpenKeyDelete, TypeKeyName '' ci'']))) \<and> trim '' ci'' = ''ci''"
proof -
  let ?p = "keyPageAfter (\<lambda>a b. True) (kgKey sampleKeyPage) [OpenKeyDelete, TypeKeyName '' ci'']"
  have c: "confirmEnabled (deleteKeyLabel ?p) (kgDeleting ?p) (kgDelete ?p)" "deleteKeyLabel ?p = ''ci''" by code_simp+
  from c(1) have d: "DropKey \<in> set (snd (keyPageStep (\<lambda>a b. True) ConfirmKeyDelete ?p))"
    by (simp only: keyPageStep_snd keyMove.simps if_True snd_conv list.set insert_iff simp_thms)
  from key_delete_typed [OF refl d] c have "\<exists>s es1 es2. [OpenKeyDelete, TypeKeyName '' ci''] = es1 @ TypeKeyName s # es2 \<and>
      trim s = ''ci''" by (metis list.distinct(1))
  then have "trim '' ci'' = ''ci''" by (auto simp: Cons_eq_append_conv)
  with d show ?thesis by blast
qed

section \<open>What the page gets wrong\<close>

text \<open>
  According to the comment a click on owner clears read and write; a click on read or write also takes the
  ownership away: a key with all three permissions loses two of them when write is unticked.
\<close>

theorem read_click_drops_owner:
  "f \<noteq> PermOwner \<Longrightarrow> \<not> bpOwner (changePerm f p)"
  by (simp add: changePerm_def Let_def)

text \<open>
  A grant sends all the edges the page knows of. When one of them was revoked elsewhere meanwhile, granting
  another bucket restores it.
\<close>

theorem grant_restores_revoked_edge:
  "\<forall>r \<in> set (snd (keyPageStep (\<lambda>a b. True) SubmitGrant (keyPageAfter (\<lambda>a b. True) (kgKey sampleKeyPage) grantEvents))).
     case r of DropKey \<Rightarrow> False | SavePermissions ps \<Rightarrow> applyPerms ps (\<lambda>b. None) ''b1'' = Some (True, False, False)"
proof -
  let ?p = "keyPageAfter (\<lambda>a b. True) (kgKey sampleKeyPage) grantEvents"
  have "applyPerms (grantPerms ?p) (\<lambda>b. None) ''b1'' = Some (True, False, False)" by code_simp
  then show ?thesis by (auto split: if_splits)
qed

text \<open>
  So does the editor: the rows are those of the moment Edit was pressed, and a refetch does not touch them. A
  permission that is revoked while the editor is open is granted again by a save that never touched it.
\<close>

theorem editor_restores_revoked_edge:
  "let p = keyPageAfter (\<lambda>a b. True) (kgKey sampleKeyPage)
       [PressEdit, KeyLoaded \<lparr>kyName = Some ''ci'', kyBuckets = []\<rparr>]
   in grantsOf (kgKey p) ''b1'' = None \<and>
     snd (keyPageStep (\<lambda>a b. True) PressSave p) = [SavePermissions [permOf sampleKeyRow]] \<and>
     applyPerms [permOf sampleKeyRow] (grantsOf (kgKey p)) ''b1'' = Some (True, False, False)"
  by code_simp

text \<open>
  The editor closes when the save is sent. When the re-authentication is cancelled, pressing Edit again starts
  from the key as it is: the edits are lost.
\<close>

theorem cancelled_elevation_loses_edits:
  "let p = keyPageAfter (\<lambda>a b. True) (kgKey sampleKeyPage)
       [PressEdit, ClickPerm ''b1'' PermWrite, PressSave, UpdateSettled False, PressEdit]
   in kgEdit p = [permOf sampleKeyRow] \<and> kgEditing p"
  by code_simp

text \<open>
  A number left over from a longer list is not clamped when the operator goes back: the press changes nothing
  that is on screen.
\<close>

theorem previous_press_lost:
  "kgPage p \<ge> totalPages (keyVisible p) \<Longrightarrow>
   pageRows (kgPage (fst (keyPageStep collate PressPrevious p))) (keyVisible p) = pageRows (kgPage p) (keyVisible p)"
  by (simp add: keyPageStep_fst pageRows_def clampedPage_def)

end
