(* ===== verification/Bucket_Page.thy ===== *)
theory Bucket_Page
  imports Complex_Main Key_Permissions Js_Numbers
begin

text \<open>
  The page of one bucket (\<open>routes/admin/clusters/$cid/buckets/$id.tsx\<close>): the alias edited in the heading, the
  quota dialog, the dialogs that attach and detach a key, and the deletion. \<open>parseFloat\<close> of the browser is a
  parameter: a double is a rational number, \<open>None\<close> is \<open>NaN\<close>.
\<close>

section \<open>The bucket and its requests\<close>

record bucket_detail =
  bdId :: string
  bdAliases :: "string list option"
  bdKeyIds :: "string list"

text \<open>A key of the cluster: identifier (empty when missing) and name.\<close>

type_synonym cluster_key = "string \<times> string option"

datatype bucket_request =
    SaveAliases "string list"
  | SaveQuotas "int option" "int option"
  | WriteEdge string bucket_perm
  | DropBucket

definition nullable :: "int option \<Rightarrow> json" where
  "nullable x = (case x of None \<Rightarrow> JNull | Some n \<Rightarrow> JNum n)"

definition aliasUpdate :: "string list \<Rightarrow> json" where
  "aliasUpdate as = JObj [(''aliases'', JArr (map JStr as))]"

definition quotaUpdate :: "int option \<Rightarrow> int option \<Rightarrow> json" where
  "quotaUpdate maxSize maxObjects =
     JObj [(''quotas'', JObj [(''max_size'', nullable maxSize), (''max_objects'', nullable maxObjects)])]"

fun bucketAction :: "string \<Rightarrow> string \<Rightarrow> bucket_request \<Rightarrow> json js" where
  "bucketAction cid i (SaveAliases as) = mutationFn useUpdateBucket (cid, i, aliasUpdate as)"
| "bucketAction cid i (SaveQuotas s n) = mutationFn useUpdateBucket (cid, i, quotaUpdate s n)"
| "bucketAction cid i (WriteEdge keyId p) = mutationFn useUpdateKeyPermissions (cid, keyId, permsJson [p])"
| "bucketAction cid i DropBucket = mutationFn useDeleteBucket (cid, i)"

text \<open>The primary alias is replaced by position, the others stay.\<close>

definition newAliases :: "string \<Rightarrow> string list option \<Rightarrow> string list" where
  "newAliases inp aliases =
     (case aliases of Some (_ # as) \<Rightarrow> inp # as | _ \<Rightarrow> [inp])"

text \<open>\<open>parse(s) || null\<close>: zero and \<open>NaN\<close> are falsy.\<close>

definition quotaSize :: "(string \<Rightarrow> rat option) \<Rightarrow> string \<Rightarrow> int option" where
  "quotaSize parseFloat s =
     (if s = [] then None
      else (case parseFloat s of None \<Rightarrow> None
        | Some x \<Rightarrow> if x = 0 then None else Some \<lfloor>x * 1024 ^ 3 + 1 / 2\<rfloor>))"

definition quotaObjects :: "string \<Rightarrow> int option" where
  "quotaObjects s =
     (if s = [] then None
      else (case parseInt s of None \<Rightarrow> None | Some n \<Rightarrow> if n = 0 then None else Some n))"

definition deleteBucketLabel :: "bucket_detail \<Rightarrow> string" where
  "deleteBucketLabel b = (case firstAlias (bdAliases b) of Some a \<Rightarrow> a | None \<Rightarrow> take 12 (bdId b))"

definition keyLabel :: "cluster_key \<Rightarrow> string" where
  "keyLabel k = (case snd k of
       Some n \<Rightarrow> if n = [] then fst k else n @ '' ('' @ take 12 (fst k) @ ellipsis @ '')''
     | None \<Rightarrow> fst k)"

section \<open>The page\<close>

datatype edge_save = AttachSave | DetachSave

record bucket_page =
  bgBucket :: bucket_detail
  bgKeys :: "cluster_key list"
  bgDriver :: string
  bgEditing :: bool
  bgAlias :: string
  bgQuotaOpen :: bool
  bgDelete :: confirm_dialog
  bgAttach :: edge_dialog
  bgDetach :: "string option"
  bgUpdating :: bool
  bgEdgeSaving :: "edge_save option"
  bgDeleting :: bool

definition openBucketPage :: "bucket_detail \<Rightarrow> bucket_page" where
  "openBucketPage b = \<lparr>bgBucket = b, bgKeys = [], bgDriver = [], bgEditing = False, bgAlias = [], bgQuotaOpen = False,
     bgDelete = closedConfirm, bgAttach = closedEdge, bgDetach = None, bgUpdating = False, bgEdgeSaving = None,
     bgDeleting = False\<rparr>"

definition attachCandidates :: "bucket_page \<Rightarrow> string list" where
  "attachCandidates p = filter (\<lambda>i. i \<noteq> [] \<and> i \<notin> set (bdKeyIds (bgBucket p))) (map fst (bgKeys p))"

definition clear :: "bucket_page \<Rightarrow> bool" where
  "clear p \<longleftrightarrow> \<not> bgQuotaOpen p \<and> \<not> cfOpen (bgDelete p) \<and> \<not> egOpen (bgAttach p) \<and> bgDetach p = None"

text \<open>
  A click elsewhere takes the focus from the alias field first, so its blur handler runs before the handler
  of what was clicked; a control that this has removed is not clicked any more.
\<close>

datatype bucket_page_event =
    BucketArrives bucket_detail
  | KeysArrive "cluster_key list"
  | DriverArrives string
  | ClickTitle
  | TypeAlias string
  | AliasEnter
  | AliasEscape
  | AliasBlur
  | ClickAliasSave
  | ClickAliasCancel
  | OpenQuota
  | CloseQuota
  | SubmitQuota string string
  | OpenAttach
  | CloseAttach
  | AttachEdge edge_event
  | SubmitAttach
  | AskDetach string
  | CloseDetach
  | ConfirmDetach
  | OpenBucketDelete
  | TypeBucketName string
  | CloseBucketDelete
  | ConfirmBucketDelete
  | BucketUpdateSettled
  | EdgeSettled bool
  | BucketDeleteSettled

definition handleAliasSave :: "bucket_page \<Rightarrow> bucket_page \<times> bucket_request list" where
  "handleAliasSave p =
     (if trim (bgAlias p) = [] then (p, [])
      else (p\<lparr>bgEditing := False, bgUpdating := True\<rparr>, [SaveAliases (newAliases (bgAlias p) (bdAliases (bgBucket p)))]))"

definition handleCancelEdit :: "bucket_page \<Rightarrow> bucket_page" where
  "handleCancelEdit p =
     p\<lparr>bgAlias := (case firstAlias (bdAliases (bgBucket p)) of None \<Rightarrow> [] | Some a \<Rightarrow> a), bgEditing := False\<rparr>"

definition attachPerm :: "bucket_page \<Rightarrow> bucket_perm" where
  "attachPerm p = \<lparr>bpBucket = bdId (bgBucket p), bpRead = egRead (bgAttach p), bpWrite = egWrite (bgAttach p),
     bpOwner = egOwner (bgAttach p)\<rparr>"

fun bucketMove ::
  "(string \<Rightarrow> rat option) \<Rightarrow> bucket_page_event \<Rightarrow> bucket_page \<Rightarrow> bucket_page \<times> bucket_request list" where
  "bucketMove pf (BucketArrives b) p = (p\<lparr>bgBucket := b\<rparr>, [])"
| "bucketMove pf (KeysArrive ks) p = (p\<lparr>bgKeys := ks\<rparr>, [])"
| "bucketMove pf (DriverArrives d) p = (p\<lparr>bgDriver := d\<rparr>, [])"
| "bucketMove pf ClickTitle p =
     (if clear p \<and> \<not> bgEditing p
      then p\<lparr>bgAlias := (case firstAlias (bdAliases (bgBucket p)) of None \<Rightarrow> [] | Some a \<Rightarrow> a), bgEditing := True\<rparr> else p, [])"
| "bucketMove pf (TypeAlias s) p = (if clear p \<and> bgEditing p then p\<lparr>bgAlias := s\<rparr> else p, [])"
| "bucketMove pf AliasEnter p = (if clear p \<and> bgEditing p then handleAliasSave p else (p, []))"
| "bucketMove pf AliasEscape p = (if clear p \<and> bgEditing p then handleCancelEdit p else p, [])"
| "bucketMove pf AliasBlur p = (if clear p \<and> bgEditing p then handleAliasSave p else (p, []))"
| "bucketMove pf ClickAliasSave p =
     (if clear p \<and> bgEditing p
      then (case handleAliasSave p of (p', rs) \<Rightarrow>
          if bgEditing p' then (case handleAliasSave p' of (p'', rs') \<Rightarrow> (p'', rs @ rs')) else (p', rs))
      else (p, []))"
| "bucketMove pf ClickAliasCancel p =
     (if clear p \<and> bgEditing p
      then (case handleAliasSave p of (p', rs) \<Rightarrow> (if bgEditing p' then handleCancelEdit p' else p', rs))
      else (p, []))"
| "bucketMove pf OpenQuota p = (if clear p then p\<lparr>bgQuotaOpen := True\<rparr> else p, [])"
| "bucketMove pf CloseQuota p = (p\<lparr>bgQuotaOpen := False\<rparr>, [])"
| "bucketMove pf (SubmitQuota sizeText objectsText) p =
     (if bgQuotaOpen p \<and> \<not> bgUpdating p
      then (p\<lparr>bgQuotaOpen := False, bgUpdating := True\<rparr>, [SaveQuotas (quotaSize pf sizeText) (quotaObjects objectsText)])
      else (p, []))"
| "bucketMove pf OpenAttach p =
     (if clear p \<and> supportsGrants (bgDriver p) then p\<lparr>bgAttach := (bgAttach p)\<lparr>egOpen := True\<rparr>\<rparr> else p, [])"
| "bucketMove pf CloseAttach p = (p\<lparr>bgAttach := (bgAttach p)\<lparr>egOpen := False\<rparr>\<rparr>, [])"
| "bucketMove pf (AttachEdge e) p =
     (if supportsGrants (bgDriver p)
      then p\<lparr>bgAttach := edgeStep (attachCandidates p) (bgEdgeSaving p \<noteq> None) e (bgAttach p)\<rparr> else p, [])"
| "bucketMove pf SubmitAttach p =
     (if supportsGrants (bgDriver p) \<and> egOpen (bgAttach p) \<and> attachCandidates p \<noteq> [] \<and>
         canSubmitEdge (bgEdgeSaving p \<noteq> None) (bgAttach p)
      then (p\<lparr>bgEdgeSaving := Some AttachSave\<rparr>, [WriteEdge (egChoice (bgAttach p)) (attachPerm p)]) else (p, []))"
| "bucketMove pf (AskDetach k) p =
     (if clear p \<and> supportsGrants (bgDriver p) \<and> bgEdgeSaving p = None \<and> k \<in> set (bdKeyIds (bgBucket p))
      then p\<lparr>bgDetach := Some k\<rparr> else p, [])"
| "bucketMove pf CloseDetach p = (p\<lparr>bgDetach := None\<rparr>, [])"
| "bucketMove pf ConfirmDetach p =
     (case bgDetach p of None \<Rightarrow> (p, [])
      | Some k \<Rightarrow> if bgEdgeSaving p \<noteq> None then (p, [])
          else (p\<lparr>bgEdgeSaving := Some DetachSave\<rparr>, [WriteEdge k (hd (revokePerms (bdId (bgBucket p))))]))"
| "bucketMove pf OpenBucketDelete p =
     (if clear p \<and> \<not> bgDeleting p then p\<lparr>bgDelete := (bgDelete p)\<lparr>cfOpen := True\<rparr>\<rparr> else p, [])"
| "bucketMove pf (TypeBucketName s) p = (p\<lparr>bgDelete := typeConfirm s (bgDelete p)\<rparr>, [])"
| "bucketMove pf CloseBucketDelete p = (p\<lparr>bgDelete := (bgDelete p)\<lparr>cfOpen := False\<rparr>\<rparr>, [])"
| "bucketMove pf ConfirmBucketDelete p =
     (if confirmEnabled (deleteBucketLabel (bgBucket p)) (bgDeleting p) (bgDelete p)
      then (p\<lparr>bgDelete := (bgDelete p)\<lparr>cfOpen := False\<rparr>, bgDeleting := True\<rparr>, [DropBucket]) else (p, []))"
| "bucketMove pf BucketUpdateSettled p = (p\<lparr>bgUpdating := False\<rparr>, [])"
| "bucketMove pf (EdgeSettled ok) p =
     (case bgEdgeSaving p of None \<Rightarrow> p
      | Some AttachSave \<Rightarrow> p\<lparr>bgEdgeSaving := None, bgAttach := (if ok then (bgAttach p)\<lparr>egOpen := False\<rparr> else bgAttach p)\<rparr>
      | Some DetachSave \<Rightarrow> p\<lparr>bgEdgeSaving := None, bgDetach := (if ok then None else bgDetach p)\<rparr>, [])"
| "bucketMove pf BucketDeleteSettled p = (p\<lparr>bgDeleting := False\<rparr>, [])"

definition renderBucketPage :: "bucket_page \<Rightarrow> bucket_page" where
  "renderBucketPage p = p\<lparr>bgDelete := renderConfirm (deleteBucketLabel (bgBucket p)) (bgDelete p),
     bgAttach := (if supportsGrants (bgDriver p) then renderEdge (attachCandidates p) (bgAttach p)
       else closedEdge\<lparr>egOpen := egOpen (bgAttach p)\<rparr>)\<rparr>"

definition bucketPageStep ::
  "(string \<Rightarrow> rat option) \<Rightarrow> bucket_page_event \<Rightarrow> bucket_page \<Rightarrow> bucket_page \<times> bucket_request list" where
  "bucketPageStep pf e p = (case bucketMove pf e p of (p', rs) \<Rightarrow> (renderBucketPage p', rs))"

definition bucketPageAfter :: "(string \<Rightarrow> rat option) \<Rightarrow> bucket_detail \<Rightarrow> bucket_page_event list \<Rightarrow> bucket_page" where
  "bucketPageAfter pf b es = foldl (\<lambda>p e. fst (bucketPageStep pf e p)) (openBucketPage b) es"


section \<open>The alias in the heading\<close>

lemma bucketPageStep_fst: "fst (bucketPageStep pf e p) = renderBucketPage (fst (bucketMove pf e p))"
  by (simp add: bucketPageStep_def split_beta)

lemma bucketPageStep_snd [simp]: "snd (bucketPageStep pf e p) = snd (bucketMove pf e p)"
  by (simp add: bucketPageStep_def split_beta)

lemma bucketPageAfter_snoc: "bucketPageAfter pf b (es @ [e]) = fst (bucketPageStep pf e (bucketPageAfter pf b es))"
  by (simp add: bucketPageAfter_def)

lemma handleAliasSave_req:
  "SaveAliases as \<in> set (snd (handleAliasSave p)) \<longleftrightarrow>
     trim (bgAlias p) \<noteq> [] \<and> as = newAliases (bgAlias p) (bdAliases (bgBucket p))"
  by (simp add: handleAliasSave_def)

lemma handleAliasSave_once:
  "bgEditing (fst (handleAliasSave p)) \<Longrightarrow> snd (handleAliasSave p) = [] \<and> (bgEditing p \<longrightarrow> fst (handleAliasSave p) = p)"
  by (simp add: handleAliasSave_def split: if_splits)

text \<open>
  An edit of the heading sends at most one update, with the text that stands in the field as the primary
  alias, not blank, and every other alias in its place.
\<close>

theorem alias_edit_keeps_others:
  assumes "SaveAliases as \<in> set (snd (bucketPageStep pf e p))"
  shows "snd (bucketPageStep pf e p) = [SaveAliases as] \<and> bgEditing p \<and>
    as \<noteq> [] \<and> hd as = bgAlias p \<and> trim (hd as) \<noteq> [] \<and>
    tl as = (case bdAliases (bgBucket p) of None \<Rightarrow> [] | Some old \<Rightarrow> tl old) \<and>
    \<not> bgEditing (fst (bucketPageStep pf e p))"
proof -
  have s: "snd (handleAliasSave p) = [SaveAliases as] \<and> as \<noteq> [] \<and> hd as = bgAlias p \<and> trim (bgAlias p) \<noteq> [] \<and>
      tl as = (case bdAliases (bgBucket p) of None \<Rightarrow> [] | Some old \<Rightarrow> tl old) \<and> \<not> bgEditing (fst (handleAliasSave p))"
    if "SaveAliases as \<in> set (snd (handleAliasSave p))"
    using that by (auto simp: handleAliasSave_def newAliases_def split: option.splits list.splits if_splits)
  have n: "bgEditing (fst (handleAliasSave p)) \<Longrightarrow> snd (handleAliasSave p) = []"
    "bgEditing (fst (handleAliasSave p)) \<Longrightarrow> snd (handleAliasSave (fst (handleAliasSave p))) = []"
    using handleAliasSave_once [of p] by (simp_all add: handleAliasSave_def split: if_splits)
  have r: "bgEditing (renderBucketPage q) = bgEditing q" for q by (simp add: renderBucketPage_def)
  show ?thesis unfolding bucketPageStep_fst r
  proof (cases e)
    case ClickAliasSave
    then have "SaveAliases as \<in> set (snd (handleAliasSave p)) \<and> bgEditing p \<and> clear p \<and> \<not> bgEditing (fst (handleAliasSave p))"
      using assms n by (auto simp: split_beta split: if_splits)
    with s show "snd (bucketPageStep pf e p) = [SaveAliases as] \<and> bgEditing p \<and>
      as \<noteq> [] \<and> hd as = bgAlias p \<and> trim (hd as) \<noteq> [] \<and>
      tl as = (case bdAliases (bgBucket p) of None \<Rightarrow> [] | Some old \<Rightarrow> tl old) \<and>
      \<not> bgEditing (fst (bucketMove pf e p))" using ClickAliasSave by (simp add: split_beta)
  next
    case ClickAliasCancel
    then have "SaveAliases as \<in> set (snd (handleAliasSave p)) \<and> bgEditing p \<and> clear p \<and> \<not> bgEditing (fst (handleAliasSave p))"
      using assms n by (auto simp: split_beta split: if_splits)
    with s show "snd (bucketPageStep pf e p) = [SaveAliases as] \<and> bgEditing p \<and>
      as \<noteq> [] \<and> hd as = bgAlias p \<and> trim (hd as) \<noteq> [] \<and>
      tl as = (case bdAliases (bgBucket p) of None \<Rightarrow> [] | Some old \<Rightarrow> tl old) \<and>
      \<not> bgEditing (fst (bucketMove pf e p))" using ClickAliasCancel by (simp add: split_beta)
  qed (use assms s in \<open>simp_all split: if_splits option.splits\<close>)
qed

definition sampleBucket :: bucket_detail where
  "sampleBucket = \<lparr>bdId = ''b1'', bdAliases = Some [''logs'', ''old''], bdKeyIds = [''k1'']\<rparr>"

definition noFloat :: "string \<Rightarrow> rat option" where
  "noFloat s = None"

theorem alias_edit_keeps_others_witness:
  "SaveAliases [''logs2'', ''old''] \<in> set (snd (bucketPageStep noFloat AliasEnter
     (bucketPageAfter noFloat sampleBucket [ClickTitle, TypeAlias ''logs2'']))) \<and> tl [''logs2'', ''old''] = [''old'']"
proof -
  let ?p = "bucketPageAfter noFloat sampleBucket [ClickTitle, TypeAlias ''logs2'']"
  have s: "SaveAliases [''logs2'', ''old''] \<in> set (snd (bucketPageStep noFloat AliasEnter ?p))"
    "bdAliases (bgBucket ?p) = Some [''logs'', ''old'']" by code_simp+
  from alias_edit_keeps_others [OF s(1)] s show ?thesis by simp
qed

section \<open>Attaching and detaching a key\<close>

lemma bucketMove_edge: "edgeOk (bgAttach p) \<Longrightarrow> edgeOk (bgAttach (fst (bucketMove pf e p)))"
proof (cases e)
  case (EdgeSettled ok)
  then show "edgeOk (bgAttach p) \<Longrightarrow> edgeOk (bgAttach (fst (bucketMove pf e p)))"
    by (cases "bgEdgeSaving p") (auto split: edge_save.splits)
qed (simp_all add: edgeOk_step handleAliasSave_def handleCancelEdit_def split: option.splits)

lemma bucketPage_edge: "edgeOk (bgAttach (bucketPageAfter pf b es))"
proof (induction es rule: rev_induct)
  case Nil
  then show ?case by (simp add: bucketPageAfter_def openBucketPage_def)
next
  case (snoc e es)
  then show ?case using bucketMove_edge
    by (simp add: bucketPageAfter_snoc bucketPageStep_fst renderBucketPage_def)
qed

text \<open>
  C26. Whatever grants the key has, attaching it writes the edge to this bucket and no other, with at least one
  permission and never owner along with another; detaching it removes that edge only. Attaching a key
  here and granting the bucket on an up-to-date page of the key come to the same.
\<close>

theorem bucket_page_writes_one_edge:
  assumes "p = bucketPageAfter pf b es" and "WriteEdge k perm \<in> set (snd (bucketPageStep pf e p))"
  shows "bpBucket perm = bdId (bgBucket p) \<and> (\<forall>g. applyPerms [perm] g = g(bdId (bgBucket p) := edgeOf perm)) \<and>
    (e = SubmitAttach \<and> k \<noteq> [] \<and> granted perm \<and> (bpOwner perm \<longrightarrow> \<not> bpRead perm \<and> \<not> bpWrite perm) \<or>
     e = ConfirmDetach \<and> bgDetach p = Some k \<and> edgeOf perm = None) \<and>
    (\<forall>q. distinct (map bpBucket (kyBuckets (kgKey q))) \<and> egChoice (kgGrant q) = bdId (bgBucket p) \<and>
       egRead (kgGrant q) = bpRead perm \<and> egWrite (kgGrant q) = bpWrite perm \<and> egOwner (kgGrant q) = bpOwner perm \<longrightarrow>
       applyPerms (grantPerms q) (grantsOf (kgKey q)) = applyPerms [perm] (grantsOf (kgKey q)))"
proof -
  have c: "(e = SubmitAttach \<and> k = egChoice (bgAttach p) \<and> perm = attachPerm p \<and> canSubmitEdge (bgEdgeSaving p \<noteq> None) (bgAttach p)) \<or>
      (e = ConfirmDetach \<and> bgDetach p = Some k \<and> perm = hd (revokePerms (bdId (bgBucket p))))"
    using assms(2) by (cases e) (auto simp: handleAliasSave_def split_beta split: if_splits option.splits)
  then have b: "bpBucket perm = bdId (bgBucket p)" by (auto simp: attachPerm_def revokePerms_def)
  moreover have "\<forall>g. applyPerms [perm] g = g(bdId (bgBucket p) := edgeOf perm)" by (simp add: setEdge_eq b)
  moreover have "e = SubmitAttach \<and> k \<noteq> [] \<and> granted perm \<and> (bpOwner perm \<longrightarrow> \<not> bpRead perm \<and> \<not> bpWrite perm) \<or>
     e = ConfirmDetach \<and> bgDetach p = Some k \<and> edgeOf perm = None"
    using c bucketPage_edge [of pf b es] unfolding assms(1) [symmetric]
    by (auto simp: attachPerm_def canSubmitEdge_def granted_def edgeOk_def revokePerms_def edgeOf_def)
  moreover have "applyPerms (grantPerms q) (grantsOf (kgKey q)) = applyPerms [perm] (grantsOf (kgKey q))"
    if q: "distinct (map bpBucket (kyBuckets (kgKey q)))" "egChoice (kgGrant q) = bdId (bgBucket p)"
      "egRead (kgGrant q) = bpRead perm" "egWrite (kgGrant q) = bpWrite perm" "egOwner (kgGrant q) = bpOwner perm" for q
  proof -
    have "grantPerms q = map permOf (kyBuckets (kgKey q)) @ [perm]" using q b by (simp add: grantPerms_def)
    then show ?thesis using applyPerms_again [of "map permOf (kyBuckets (kgKey q))"] q(1) by (simp add: grantsOf_def)
  qed
  ultimately show ?thesis by blast
qed

definition attachEvents :: "bucket_page_event list" where
  "attachEvents = [KeysArrive [(''k1'', None), (''k2'', Some ''ci'')], DriverArrives ''garage-v1'', OpenAttach,
     AttachEdge (ToggleField WriteField)]"

theorem bucket_page_writes_one_edge_witness:
  "\<exists>perm. snd (bucketPageStep noFloat SubmitAttach (bucketPageAfter noFloat sampleBucket attachEvents)) = [WriteEdge ''k2'' perm] \<and>
     bpBucket perm = ''b1'' \<and> applyPerms [perm] (\<lambda>b. None) = (\<lambda>b. None)(''b1'' := edgeOf perm)"
proof -
  let ?p = "bucketPageAfter noFloat sampleBucket attachEvents"
  have h: "supportsGrants (bgDriver ?p)" "egOpen (bgAttach ?p)" "attachCandidates ?p \<noteq> []"
    "canSubmitEdge (bgEdgeSaving ?p \<noteq> None) (bgAttach ?p)" "egChoice (bgAttach ?p) = ''k2''" "bdId (bgBucket ?p) = ''b1''"
    by code_simp+
  then have s: "snd (bucketPageStep noFloat SubmitAttach ?p) = [WriteEdge ''k2'' (attachPerm ?p)]" by simp
  then have "WriteEdge ''k2'' (attachPerm ?p) \<in> set (snd (bucketPageStep noFloat SubmitAttach ?p))" by simp
  from bucket_page_writes_one_edge [OF refl this] s h(6) show ?thesis by auto
qed


section \<open>Deleting the bucket\<close>

fun bucketTyped :: "bucket_page_event \<Rightarrow> string option" where
  "bucketTyped (TypeBucketName s) = Some s"
| "bucketTyped _ = None"

lemma bucketMove_delete:
  "cfSeen (bgDelete (fst (bucketMove pf e p))) = cfSeen (bgDelete p) \<and>
   (cfTyped (bgDelete (fst (bucketMove pf e p))) = cfTyped (bgDelete p) \<or>
    bucketTyped e = Some (cfTyped (bgDelete (fst (bucketMove pf e p)))))"
proof (cases e)
  case (EdgeSettled ok)
  then show ?thesis by (cases "bgEdgeSaving p") (auto split: edge_save.splits)
qed (simp_all add: handleAliasSave_def handleCancelEdit_def typeConfirm_def split: option.splits)

interpretation bucket_delete: confirm_page "\<lambda>e p. fst (bucketPageStep pf e p)" "\<lambda>p. deleteBucketLabel (bgBucket p)"
  bgDelete bucketTyped for pf
proof unfold_locales
  fix e p
  have l: "bgBucket (renderBucketPage q) = bgBucket q" for q by (simp add: renderBucketPage_def)
  show "\<exists>d. bgDelete (fst (bucketPageStep pf e p)) =
        renderConfirm (deleteBucketLabel (bgBucket (fst (bucketPageStep pf e p)))) d \<and>
      cfSeen d = cfSeen (bgDelete p) \<and> (cfTyped d = cfTyped (bgDelete p) \<or> bucketTyped e = Some (cfTyped d))"
    using bucketMove_delete [of pf e p] unfolding bucketPageStep_fst l
    by (intro exI [of _ "bgDelete (fst (bucketMove pf e p))"]) (simp add: renderBucketPage_def)
qed

lemma bucketTyped_Some: "bucketTyped e = Some s \<Longrightarrow> e = TypeBucketName s"
  by (cases e) simp_all

text \<open>
  A bucket with a name is deleted only by the button of the dialog and only after that name, up to surrounding
  blanks, was typed into it while it stood open under this very name: an alias that is replaced
  under the open dialog has to be typed anew.
\<close>

theorem bucket_delete_typed:
  assumes "p = bucketPageAfter pf b es" and "DropBucket \<in> set (snd (bucketPageStep pf e p))"
    and "deleteBucketLabel (bgBucket p) \<noteq> []"
  shows "e = ConfirmBucketDelete \<and>
    (\<exists>es1 s es2. es = es1 @ TypeBucketName s # es2 \<and> trim s = deleteBucketLabel (bgBucket p) \<and>
      (\<forall>k \<le> length es2. let q = bucketPageAfter pf b (es1 @ TypeBucketName s # take k es2)
        in cfOpen (bgDelete q) \<and> deleteBucketLabel (bgBucket q) = deleteBucketLabel (bgBucket p)))"
proof -
  have e: "e = ConfirmBucketDelete" using assms(2)
    by (cases e) (auto simp: handleAliasSave_def split_beta split: if_splits option.splits)
  have c: "confirmEnabled (deleteBucketLabel (bgBucket p)) (bgDeleting p) (bgDelete p)"
    using assms(2) unfolding e by (simp split: if_splits)
  have run: "bucketPageAfter pf b xs = bucket_delete.pageRun pf xs (openBucketPage b)" for xs
    by (simp add: bucket_delete.pageRun_def bucketPageAfter_def)
  from bucket_delete.confirmed_after_typing [of "openBucketPage b" pf es "bgDeleting p"] c e assms(3)
  show ?thesis unfolding assms(1) run
    by (auto simp: openBucketPage_def closedConfirm_def Let_def dest!: bucketTyped_Some)
qed

theorem bucket_delete_typed_witness:
  "DropBucket \<in> set (snd (bucketPageStep noFloat ConfirmBucketDelete (bucketPageAfter noFloat sampleBucket
      [OpenBucketDelete, TypeBucketName ''logs'']))) \<and> (\<exists>s. trim s = ''logs'')"
proof -
  let ?p = "bucketPageAfter noFloat sampleBucket [OpenBucketDelete, TypeBucketName ''logs'']"
  have c: "confirmEnabled (deleteBucketLabel (bgBucket ?p)) (bgDeleting ?p) (bgDelete ?p)"
    "deleteBucketLabel (bgBucket ?p) = ''logs''" by code_simp+
  from c(1) have d: "DropBucket \<in> set (snd (bucketPageStep noFloat ConfirmBucketDelete ?p))"
    by (simp only: bucketPageStep_snd bucketMove.simps if_True snd_conv list.set insert_iff simp_thms)
  from bucket_delete_typed [OF refl d] c(2) have "\<exists>s. trim s = ''logs''" by (metis list.distinct(1))
  with d show ?thesis by blast
qed

section \<open>What the page gets wrong\<close>

text \<open>
  The quotas are sent under \<open>max_size\<close> and \<open>max_objects\<close>; the server reads \<open>maxSize\<close> and \<open>maxObjects\<close>
  (\<open>internal/driver/driver.go\<close>) and finds neither, which it takes for no limit: every save of the dialog removes
  both quotas.
\<close>

theorem quota_save_names_no_limit:
  "getProp (getProp (quotaUpdate s n) ''quotas'') ''maxSize'' = JUndef \<and>
   getProp (getProp (quotaUpdate s n) ''quotas'') ''maxObjects'' = JUndef"
  by (simp add: quotaUpdate_def)

text \<open>A limit of zero, which the inputs allow, is sent as no limit, and a million in scientific notation as one object.\<close>

theorem zero_quota_means_unlimited:
  "quotaSize (\<lambda>s. Some 0) ''0'' = None \<and> quotaObjects ''0'' = None \<and> quotaObjects ''1e6'' = Some 1"
  by code_simp

text \<open>A click on Cancel takes the focus from the field, whose blur handler saves the edit that was to be given up.\<close>

theorem cancel_click_saves_alias:
  "snd (bucketPageStep noFloat ClickAliasCancel (bucketPageAfter noFloat sampleBucket [ClickTitle, TypeAlias ''oops''])) =
     [SaveAliases [''oops'', ''old'']]"
  by code_simp

text \<open>The field is tested without its surrounding blanks, but sent with them.\<close>

theorem padded_alias_sent:
  "snd (bucketPageStep noFloat AliasEnter (bucketPageAfter noFloat sampleBucket [ClickTitle, TypeAlias '' logs''])) =
     [SaveAliases ['' logs'', ''old'']]"
  by code_simp

end
