(* ===== verification/Policies.thy ===== *)
theory Policies
  imports Admin_Hooks
begin

text \<open>
  The policy matrix (\<open>routes/admin/policies.tsx\<close>): the card of a role, the card of a new role, the
  assignments and the simulator. Each pane is a state machine of its own over the roles, the assignments and
  the capability registry that the page hands down; a request is under way until the elevation guard is
  through with it. The folding of case in a filter is modelled for ASCII.
\<close>

section \<open>Choosing capabilities\<close>

text \<open>A JavaScript set is a list in the order of insertion.\<close>

definition jsSet :: "string list \<Rightarrow> string list" where
  "jsSet xs = rev (remdups (rev xs))"

definition toggleCap :: "string \<Rightarrow> string list \<Rightarrow> string list" where
  "toggleCap c cs = (if c \<in> set cs then filter (\<lambda>x. x \<noteq> c) cs else cs @ [c])"

text \<open>The label next to a checkbox: \<open>id.split(":")[1] ?? id\<close>.\<close>

definition capVerb :: "string \<Rightarrow> string" where
  "capVerb i = (case splitOn CHR '':'' i of _ # v # _ \<Rightarrow> v | _ \<Rightarrow> i)"

definition isWildcard :: "PolicyRole \<Rightarrow> bool" where
  "isWildcard r \<longleftrightarrow> ''*:*'' \<in> set (plCapabilities r)"

section \<open>The card of a role\<close>

text \<open>\<open>rcRole\<close> is what the server says now; label, description and choice are seeded when the card is mounted.\<close>

record role_card =
  rcRole :: PolicyRole
  rcEditing :: bool
  rcLabel :: string
  rcDescription :: string
  rcSelected :: "string list"
  rcSaving :: bool
  rcDeleting :: bool

definition mountCard :: "PolicyRole \<Rightarrow> role_card" where
  "mountCard r = \<lparr>rcRole = r, rcEditing = False, rcLabel = plLabel r, rcDescription = plDescription r,
     rcSelected = jsSet (plCapabilities r), rcSaving = False, rcDeleting = False\<rparr>"

datatype card_event =
    RoleArrives PolicyRole
  | PressEditRole
  | PressCancelRole
  | TypeRoleLabel string
  | TypeRoleDescription string
  | ClickRoleCap string
  | PressSaveRole
  | SaveRoleSettled bool
  | PressDeleteRole bool
  | DeleteRoleSettled

datatype card_request = UpsertRole PolicyRole | DeleteRole string

definition upsertBody :: "string \<Rightarrow> string \<Rightarrow> string \<Rightarrow> string list \<Rightarrow> PolicyRole" where
  "upsertBody i label description caps =
     \<lparr>plId = i, plLabel = (if trim label = [] then i else trim label), plDescription = trim description,
      plCapabilities = caps, plSeed = None, plDeprecated = None\<rparr>"

definition seedRole :: "PolicyRole \<Rightarrow> bool" where
  "seedRole r \<longleftrightarrow> plSeed r = Some True"

fun cardStep :: "string list \<Rightarrow> card_event \<Rightarrow> role_card \<Rightarrow> role_card \<times> card_request list" where
  "cardStep registry (RoleArrives r) c = (c\<lparr>rcRole := r\<rparr>, [])"
| "cardStep registry PressEditRole c = (c\<lparr>rcEditing := True\<rparr>, [])"
| "cardStep registry PressCancelRole c = (c\<lparr>rcEditing := False\<rparr>, [])"
| "cardStep registry (TypeRoleLabel s) c = (if rcEditing c then c\<lparr>rcLabel := s\<rparr> else c, [])"
| "cardStep registry (TypeRoleDescription s) c = (if rcEditing c then c\<lparr>rcDescription := s\<rparr> else c, [])"
| "cardStep registry (ClickRoleCap i) c =
     (if rcEditing c \<and> i \<in> set registry then c\<lparr>rcSelected := toggleCap i (rcSelected c)\<rparr> else c, [])"
| "cardStep registry PressSaveRole c =
     (if rcEditing c \<and> \<not> rcSaving c
      then (c\<lparr>rcSaving := True\<rparr>, [UpsertRole (upsertBody (plId (rcRole c)) (rcLabel c) (rcDescription c) (rcSelected c))])
      else (c, []))"
| "cardStep registry (SaveRoleSettled ok) c =
     (if rcSaving c then c\<lparr>rcSaving := False, rcEditing := (rcEditing c \<and> \<not> ok)\<rparr> else c, [])"
| "cardStep registry (PressDeleteRole confirmed) c =
     (if \<not> rcEditing c \<and> \<not> seedRole (rcRole c) \<and> \<not> rcDeleting c \<and> confirmed
      then (c\<lparr>rcDeleting := True\<rparr>, [DeleteRole (plId (rcRole c))]) else (c, []))"
| "cardStep registry DeleteRoleSettled c = (c\<lparr>rcDeleting := False\<rparr>, [])"

definition cardAfter :: "string list \<Rightarrow> PolicyRole \<Rightarrow> card_event list \<Rightarrow> role_card" where
  "cardAfter registry r es = foldl (\<lambda>c e. fst (cardStep registry e c)) (mountCard r) es"

section \<open>The card of a new role\<close>

record new_role =
  nrId :: string
  nrLabel :: string
  nrDescription :: string
  nrCaps :: "string list"
  nrSaving :: bool

definition newRole :: new_role where
  "newRole = \<lparr>nrId = [], nrLabel = [], nrDescription = [], nrCaps = [], nrSaving = False\<rparr>"

text \<open>The card disappears when the role was created or given up; opened again it is new.\<close>

datatype new_role_event =
    TypeNewId string
  | TypeNewLabel string
  | TypeNewDescription string
  | ClickNewCap string
  | PressCreateRole
  | CreateSettled bool
  | CancelNewRole

fun newRoleStep :: "string list \<Rightarrow> new_role_event \<Rightarrow> new_role \<Rightarrow> new_role \<times> PolicyRole list" where
  "newRoleStep registry (TypeNewId s) n = (n\<lparr>nrId := s\<rparr>, [])"
| "newRoleStep registry (TypeNewLabel s) n = (n\<lparr>nrLabel := s\<rparr>, [])"
| "newRoleStep registry (TypeNewDescription s) n = (n\<lparr>nrDescription := s\<rparr>, [])"
| "newRoleStep registry (ClickNewCap i) n =
     (if i \<in> set registry then n\<lparr>nrCaps := toggleCap i (nrCaps n)\<rparr> else n, [])"
| "newRoleStep registry PressCreateRole n =
     (if nrSaving n \<or> trim (nrId n) = [] then (n, [])
      else (n\<lparr>nrSaving := True\<rparr>, [upsertBody (trim (nrId n)) (nrLabel n) (nrDescription n) (nrCaps n)]))"
| "newRoleStep registry (CreateSettled ok) n = (if \<not> nrSaving n then n else if ok then newRole else n\<lparr>nrSaving := False\<rparr>, [])"
| "newRoleStep registry CancelNewRole n = (newRole, [])"

section \<open>Assignments\<close>

text \<open>The choice of a role is seeded when the pane is mounted: the first role that is not deprecated.\<close>

definition deprecatedRole :: "PolicyRole \<Rightarrow> bool" where
  "deprecatedRole r \<longleftrightarrow> plDeprecated r = Some True"

definition defaultRole :: "PolicyRole list \<Rightarrow> string" where
  "defaultRole roles =
     (case find (\<lambda>r. \<not> deprecatedRole r) roles of Some r \<Rightarrow> plId r
      | None \<Rightarrow> (case roles of [] \<Rightarrow> [] | r # _ \<Rightarrow> plId r))"

record assign_pane =
  apRoles :: "PolicyRole list"
  apAssignments :: "PolicyAssignment list"
  apUser :: string
  apRole :: string
  apScope :: string
  apUserFilter :: string
  apRoleFilter :: string
  apAssigning :: bool
  apRevoking :: bool

definition mountAssign :: "PolicyRole list \<Rightarrow> PolicyAssignment list \<Rightarrow> assign_pane" where
  "mountAssign roles assignments = \<lparr>apRoles = roles, apAssignments = assignments, apUser = [], apRole = defaultRole roles,
     apScope = [], apUserFilter = [], apRoleFilter = [], apAssigning = False, apRevoking = False\<rparr>"

definition selectedIsDeprecated :: "assign_pane \<Rightarrow> bool" where
  "selectedIsDeprecated p =
     (case find (\<lambda>r. plId r = apRole p) (apRoles p) of None \<Rightarrow> False | Some r \<Rightarrow> deprecatedRole r)"

definition filteredAssignments :: "assign_pane \<Rightarrow> PolicyAssignment list" where
  "filteredAssignments p = filter (\<lambda>a.
     (apUserFilter p = [] \<or> sublist (toLowerCase (apUserFilter p)) (toLowerCase (paUserId a))) \<and>
     (apRoleFilter p = [] \<or> paRoleId a = apRoleFilter p)) (apAssignments p)"

text \<open>What the list box shows: the chosen role or, when that is gone, the first entry.\<close>

definition shownRole :: "assign_pane \<Rightarrow> string" where
  "shownRole p =
     (if apRole p \<in> plId ` set (apRoles p) then apRole p
      else (case apRoles p of [] \<Rightarrow> [] | r # _ \<Rightarrow> plId r))"

datatype assign_event =
    PoliciesArrive "PolicyRole list" "PolicyAssignment list"
  | TypeUser string
  | PickRole string
  | TypeScopeText string
  | FilterUser string
  | FilterRole string
  | PressAssign
  | AssignSettled bool
  | PressRevoke PolicyAssignment bool
  | RevokeSettled

datatype assign_request = Assign PolicyAssignment | Unassign PolicyAssignment

fun assignStep :: "assign_event \<Rightarrow> assign_pane \<Rightarrow> assign_pane \<times> assign_request list" where
  "assignStep (PoliciesArrive roles assignments) p = (p\<lparr>apRoles := roles, apAssignments := assignments\<rparr>, [])"
| "assignStep (TypeUser s) p = (p\<lparr>apUser := s\<rparr>, [])"
| "assignStep (PickRole i) p = (if i \<in> plId ` set (apRoles p) then p\<lparr>apRole := i\<rparr> else p, [])"
| "assignStep (TypeScopeText s) p = (p\<lparr>apScope := s\<rparr>, [])"
| "assignStep (FilterUser s) p = (p\<lparr>apUserFilter := s\<rparr>, [])"
| "assignStep (FilterRole i) p =
     (if i = [] \<or> i \<in> plId ` set (apRoles p) then p\<lparr>apRoleFilter := i\<rparr> else p, [])"
| "assignStep PressAssign p =
     (if apAssigning p \<or> trim (apUser p) = [] \<or> apRole p = [] \<or> trim (apScope p) = [] \<or> selectedIsDeprecated p
      then (p, [])
      else (p\<lparr>apAssigning := True\<rparr>,
        [Assign \<lparr>paUserId = trim (apUser p), paRoleId = apRole p, paScope = trim (apScope p)\<rparr>]))"
| "assignStep (AssignSettled ok) p =
     (if apAssigning p
      then (if ok then p\<lparr>apAssigning := False, apUser := [], apScope := []\<rparr> else p\<lparr>apAssigning := False\<rparr>) else p, [])"
| "assignStep (PressRevoke a confirmed) p =
     (if \<not> apRevoking p \<and> a \<in> set (filteredAssignments p) \<and> confirmed
      then (p\<lparr>apRevoking := True\<rparr>, [Unassign a]) else (p, []))"
| "assignStep RevokeSettled p = (p\<lparr>apRevoking := False\<rparr>, [])"

fun assignAction :: "assign_request \<Rightarrow> json js" where
  "assignAction (Assign a) = mutationFn useAssignRole a"
| "assignAction (Unassign a) = mutationFn useUnassignRole a"

definition assignAfter :: "PolicyRole list \<Rightarrow> PolicyAssignment list \<Rightarrow> assign_event list \<Rightarrow> assign_pane" where
  "assignAfter roles assignments es = foldl (\<lambda>p e. fst (assignStep e p)) (mountAssign roles assignments) es"

section \<open>The simulator\<close>

record simulator =
  siRegistry :: "string list"
  siUser :: string
  siCapability :: string
  siScope :: string
  siResult :: "json option"
  siRunning :: bool

definition mountSimulator :: "string list \<Rightarrow> simulator" where
  "mountSimulator registry = \<lparr>siRegistry = registry, siUser = [], siCapability = (case registry of [] \<Rightarrow> [] | c # _ \<Rightarrow> c),
     siScope = [], siResult = None, siRunning = False\<rparr>"

datatype simulator_event =
    TypeSimUser string
  | PickCapability string
  | TypeSimScope string
  | PressSimulate
  | SimulateAnswered json
  | SimulateFailed

fun simulatorStep :: "simulator_event \<Rightarrow> simulator \<Rightarrow> simulator \<times> SimulateRequest list" where
  "simulatorStep (TypeSimUser s) p = (p\<lparr>siUser := s\<rparr>, [])"
| "simulatorStep (PickCapability c) p = (if c \<in> set (siRegistry p) then p\<lparr>siCapability := c\<rparr> else p, [])"
| "simulatorStep (TypeSimScope s) p = (p\<lparr>siScope := s\<rparr>, [])"
| "simulatorStep PressSimulate p =
     (if siRunning p \<or> trim (siUser p) = [] \<or> siCapability p = [] \<or> trim (siScope p) = [] then (p, [])
      else (p\<lparr>siRunning := True\<rparr>,
        [\<lparr>smUserId = trim (siUser p), smCapability = siCapability p, smScope = trim (siScope p)\<rparr>]))"
| "simulatorStep (SimulateAnswered j) p =
     (if siRunning p then p\<lparr>siRunning := False, siResult := Some j\<rparr> else p, [])"
| "simulatorStep SimulateFailed p =
     (if siRunning p then p\<lparr>siRunning := False, siResult := None\<rparr> else p, [])"

text \<open>The autocompletion of the user field: every assigned user once; the page then sorts them.\<close>

definition knownUsers :: "PolicyAssignment list \<Rightarrow> string list" where
  "knownUsers assignments = jsSet (map paUserId assignments)"


section \<open>What a saved role holds\<close>

lemma jsSet_set [simp]: "set (jsSet xs) = set xs"
  by (simp add: jsSet_def)

lemma jsSet_distinct [simp]: "distinct (jsSet xs)"
  by (simp add: jsSet_def)

lemma toggleCap_distinct: "distinct cs \<Longrightarrow> distinct (toggleCap c cs)"
  by (simp add: toggleCap_def)

lemma toggleCap_other: "x \<noteq> c \<Longrightarrow> x \<in> set (toggleCap c cs) \<longleftrightarrow> x \<in> set cs"
  by (auto simp: toggleCap_def)

lemma cardAfter_snoc: "cardAfter registry r (es @ [e]) = fst (cardStep registry e (cardAfter registry r es))"
  by (simp add: cardAfter_def)

lemma toggleCap_kept:
  "distinct cs \<Longrightarrow> (\<forall>x. x \<notin> T \<longrightarrow> (x \<in> set cs \<longleftrightarrow> x \<in> A)) \<Longrightarrow>
   distinct (toggleCap c cs) \<and> (\<forall>x. x \<notin> insert c T \<longrightarrow> (x \<in> set (toggleCap c cs) \<longleftrightarrow> x \<in> A))"
  by (auto simp: toggleCap_def)

text \<open>The capabilities whose checkboxes were clicked; only those of the registry have one.\<close>

fun capClick :: "card_event \<Rightarrow> string set" where
  "capClick (ClickRoleCap i) = {i}"
| "capClick _ = {}"

definition capClicks :: "string list \<Rightarrow> card_event list \<Rightarrow> string set" where
  "capClicks registry es = set registry \<inter> (\<Union>e \<in> set es. capClick e)"

lemma capClicks_snoc: "capClicks registry (es @ [e]) = capClicks registry es \<union> (set registry \<inter> capClick e)"
  by (auto simp: capClicks_def)

lemma card_selected:
  "distinct (rcSelected (cardAfter registry r es)) \<and>
   (\<forall>x. x \<notin> capClicks registry es \<longrightarrow> (x \<in> set (rcSelected (cardAfter registry r es)) \<longleftrightarrow> x \<in> set (plCapabilities r)))"
proof (induction es rule: rev_induct)
  case Nil
  then show ?case by (simp add: cardAfter_def mountCard_def)
next
  case (snoc e es)
  show ?case
  proof (cases "\<exists>i. e = ClickRoleCap i \<and> i \<in> set registry \<and> rcEditing (cardAfter registry r es)")
    case True
    then obtain i where i: "e = ClickRoleCap i" "i \<in> set registry" "rcEditing (cardAfter registry r es)" by blast
    have "capClicks registry (es @ [e]) = insert i (capClicks registry es)"
      using i by (auto simp: capClicks_snoc)
    then show ?thesis
      using toggleCap_kept [of "rcSelected (cardAfter registry r es)" "capClicks registry es" "set (plCapabilities r)" i] snoc.IH i
      by (simp add: cardAfter_snoc)
  next
    case False
    then have "rcSelected (cardAfter registry r (es @ [e])) = rcSelected (cardAfter registry r es)"
      unfolding cardAfter_snoc by (cases e) auto
    then show ?thesis using snoc.IH by (simp add: capClicks_snoc)
  qed
qed

text \<open>
  C27. Saving the card of a role sends that very role, with a label, and with the capabilities the card was
  opened with but for those whose checkboxes were clicked; none is sent twice. Only a role
  that is not a seed is ever deleted, and only after a confirmation.
\<close>

theorem role_save_exact:
  assumes "c = cardAfter registry r es" and "req \<in> set (snd (cardStep registry e c))"
  shows "(\<exists>body. req = UpsertRole body \<and> e = PressSaveRole \<and> rcEditing c \<and> \<not> rcSaving c \<and>
      plId body = plId (rcRole c) \<and> (plId (rcRole c) \<noteq> [] \<longrightarrow> plLabel body \<noteq> []) \<and> distinct (plCapabilities body) \<and>
      (\<forall>x. (x \<notin> set registry \<or> ClickRoleCap x \<notin> set es) \<longrightarrow>
        (x \<in> set (plCapabilities body) \<longleftrightarrow> x \<in> set (plCapabilities r)))) \<or>
    (req = DeleteRole (plId (rcRole c)) \<and> e = PressDeleteRole True \<and> \<not> seedRole (rcRole c))"
proof (cases e)
  case PressSaveRole
  let ?body = "upsertBody (plId (rcRole c)) (rcLabel c) (rcDescription c) (rcSelected c)"
  have req: "req = UpsertRole ?body" "rcEditing c" "\<not> rcSaving c"
    using assms(2) unfolding PressSaveRole by (simp_all split: if_splits)
  have caps: "plCapabilities ?body = rcSelected c" "plId ?body = plId (rcRole c)"
    "plId (rcRole c) \<noteq> [] \<longrightarrow> plLabel ?body \<noteq> []" by (simp_all add: upsertBody_def)
  have "capClick y = {x} \<or> capClick y = {}" if "x \<in> capClick y" for x y using that by (cases y) simp_all
  then have "x \<in> capClicks registry es \<Longrightarrow> x \<in> set registry \<and> ClickRoleCap x \<in> set es" for x
    unfolding capClicks_def
  proof (elim IntE UN_E)
    fix y assume "x \<in> set registry" "y \<in> set es" "x \<in> capClick y"
    then show "x \<in> set registry \<and> ClickRoleCap x \<in> set es" by (cases y) simp_all
  qed
  then have "\<forall>x. (x \<notin> set registry \<or> ClickRoleCap x \<notin> set es) \<longrightarrow>
      (x \<in> set (rcSelected c) \<longleftrightarrow> x \<in> set (plCapabilities r))"
    using card_selected [of registry r es] unfolding assms(1) by blast
  moreover have "distinct (rcSelected c)" using card_selected [of registry r es] unfolding assms(1) by blast
  ultimately show ?thesis using PressSaveRole req caps
    by (intro disjI1 exI [of _ ?body] conjI) simp_all
next
  case (PressDeleteRole confirmed)
  then show ?thesis using assms(2) by (simp split: if_splits)
qed (use assms(2) in simp_all)

definition sampleRole :: PolicyRole where
  "sampleRole = \<lparr>plId = ''ops'', plLabel = ''Ops'', plDescription = [], plCapabilities = [''bucket:read'', ''key:read''],
     plSeed = Some False, plDeprecated = None\<rparr>"

theorem role_save_exact_witness:
  "\<exists>body. UpsertRole body \<in> set (snd (cardStep [''bucket:read'', ''key:read''] PressSaveRole
      (cardAfter [''bucket:read'', ''key:read''] sampleRole [PressEditRole, ClickRoleCap ''key:read'', TypeRoleLabel '' '']))) \<and>
    ''bucket:read'' \<in> set (plCapabilities body) \<and> plLabel body \<noteq> []"
proof -
  let ?reg = "[''bucket:read'', ''key:read'']"
  let ?es = "[PressEditRole, ClickRoleCap ''key:read'', TypeRoleLabel '' '']"
  let ?c = "cardAfter ?reg sampleRole ?es"
  let ?body = "upsertBody (plId (rcRole ?c)) (rcLabel ?c) (rcDescription ?c) (rcSelected ?c)"
  have c: "rcEditing ?c" "\<not> rcSaving ?c" "plId (rcRole ?c) \<noteq> []" "''bucket:read'' \<in> set (plCapabilities sampleRole)"
    by code_simp+
  then have r: "UpsertRole ?body \<in> set (snd (cardStep ?reg PressSaveRole ?c))" by simp
  from role_save_exact [OF refl r] c(3) have "plLabel ?body \<noteq> [] \<and> (\<forall>x. (x \<notin> set ?reg \<or> ClickRoleCap x \<notin> set ?es) \<longrightarrow>
        (x \<in> set (plCapabilities ?body) \<longleftrightarrow> x \<in> set (plCapabilities sampleRole)))"
    by (elim disjE exE conjE) simp_all
  moreover have "ClickRoleCap ''bucket:read'' \<notin> set ?es" by simp
  ultimately show ?thesis using r c(4) by blast
qed


section \<open>What is assigned and revoked\<close>

text \<open>
  An assignment that is sent names a user, a role and a scope, none of them blank, and no role the page
  knows as deprecated; it is sent only while no other is under way. Only an assignment that is listed
  under the current filters is revoked, as it is listed, and only after a confirmation.
\<close>

theorem assignment_requests_valid:
  assumes "req \<in> set (snd (assignStep e p))"
  shows "snd (assignStep e p) = [req] \<and>
    ((\<exists>a. req = Assign a \<and> e = PressAssign \<and> \<not> apAssigning p \<and> paUserId a = trim (apUser p) \<and> paUserId a \<noteq> [] \<and>
       paRoleId a = apRole p \<and> paRoleId a \<noteq> [] \<and> paScope a = trim (apScope p) \<and> paScope a \<noteq> [] \<and>
       (distinct (map plId (apRoles p)) \<longrightarrow> (\<forall>r \<in> set (apRoles p). plId r = paRoleId a \<longrightarrow> \<not> deprecatedRole r))) \<or>
     (\<exists>a. req = Unassign a \<and> e = PressRevoke a True \<and> \<not> apRevoking p \<and> a \<in> set (apAssignments p) \<and>
       (apRoleFilter p = [] \<or> paRoleId a = apRoleFilter p)))"
proof (cases e)
  case PressAssign
  let ?a = "\<lparr>paUserId = trim (apUser p), paRoleId = apRole p, paScope = trim (apScope p)\<rparr>"
  have r: "req = Assign ?a" "\<not> apAssigning p" "trim (apUser p) \<noteq> []" "apRole p \<noteq> []" "trim (apScope p) \<noteq> []"
    "\<not> selectedIsDeprecated p" "snd (assignStep e p) = [req]"
    using assms unfolding PressAssign by (simp_all split: if_splits)
  have "\<not> deprecatedRole x" if x: "distinct (map plId (apRoles p))" "x \<in> set (apRoles p)" "plId x = apRole p" for x
  proof -
    have "find (\<lambda>r. plId r = apRole p) (apRoles p) = Some x"
      using x
    proof (induction "apRoles p" arbitrary: p)
      case (Cons y ys)
      show ?case
      proof (cases "plId y = apRole p")
        case True
        then have "x = y" using Cons.hyps(2) Cons.prems
          by (metis distinct.simps(2) image_eqI list.map(2) list.set_map set_ConsD)
        with True show ?thesis by (simp add: Cons.hyps(2) [symmetric])
      next
        case False
        then have "x \<in> set ys" "distinct (map plId ys)"
          using Cons.prems unfolding Cons.hyps(2) [symmetric] by auto
        then show ?thesis using Cons.hyps(1) [of "p\<lparr>apRoles := ys\<rparr>"] Cons.prems(3) False
          by (simp add: Cons.hyps(2) [symmetric])
      qed
    qed simp
    with r(6) show ?thesis by (simp add: selectedIsDeprecated_def)
  qed
  with r PressAssign show ?thesis by (intro conjI disjI1 exI [of _ ?a]) simp_all
next
  case (PressRevoke a confirmed)
  then have "req = Unassign a" "confirmed" "\<not> apRevoking p" "a \<in> set (filteredAssignments p)"
    "snd (assignStep e p) = [req]" using assms by (simp_all split: if_splits)
  then show ?thesis using PressRevoke by (auto simp: filteredAssignments_def)
qed (use assms in simp_all)

theorem assignment_requests_valid_witness:
  "\<exists>a. snd (assignStep PressAssign (assignAfter [sampleRole] [] [TypeUser '' wife'', TypeScopeText ''host:*''])) = [Assign a] \<and>
     paUserId a = ''wife'' \<and> paRoleId a \<noteq> []"
proof -
  let ?p = "assignAfter [sampleRole] [] [TypeUser '' wife'', TypeScopeText ''host:*'']"
  let ?a = "\<lparr>paUserId = trim (apUser ?p), paRoleId = apRole ?p, paScope = trim (apScope ?p)\<rparr>"
  have h: "\<not> (apAssigning ?p \<or> trim (apUser ?p) = [] \<or> apRole ?p = [] \<or> trim (apScope ?p) = [] \<or> selectedIsDeprecated ?p)"
    "trim (apUser ?p) = ''wife''" by code_simp+
  then have s: "snd (assignStep PressAssign ?p) = [Assign ?a]" by simp
  then have "Assign ?a \<in> set (snd (assignStep PressAssign ?p))" by simp
  from assignment_requests_valid [OF this] have "paRoleId ?a \<noteq> []"
    by (elim conjE disjE exE) simp_all
  with s h(2) show ?thesis by (intro exI [of _ ?a]) simp
qed

section \<open>The verdict on screen\<close>

definition simRun :: "string list \<Rightarrow> simulator_event list \<Rightarrow> simulator" where
  "simRun registry es = foldl (\<lambda>p e. fst (simulatorStep e p)) (mountSimulator registry) es"

lemma simRun_snoc: "simRun registry (es @ [e]) = fst (simulatorStep e (simRun registry es))"
  by (simp add: simRun_def)

text \<open>
  A verdict shown while nothing runs is the answer to the simulation that was asked for last, whose
  user, capability and scope were those in the form at that moment, trimmed and none of them empty.
\<close>

theorem verdict_answers_last_run:
  assumes "siResult (simRun registry es) = Some j" and "\<not> siRunning (simRun registry es)"
  shows "\<exists>es1 es2 es3 req. es = es1 @ PressSimulate # es2 @ SimulateAnswered j # es3 \<and>
    snd (simulatorStep PressSimulate (simRun registry es1)) = [req] \<and>
    smUserId req = trim (siUser (simRun registry es1)) \<and> smUserId req \<noteq> [] \<and>
    smCapability req = siCapability (simRun registry es1) \<and> smScope req = trim (siScope (simRun registry es1)) \<and>
    smScope req \<noteq> [] \<and>
    (\<forall>k < length es3. snd (simulatorStep (es3 ! k) (simRun registry (es1 @ PressSimulate # es2 @ SimulateAnswered j # take k es3))) = [])"
proof -
  let ?asked = "\<lambda>xs. \<exists>es1 es2 req. xs = es1 @ PressSimulate # es2 \<and>
    snd (simulatorStep PressSimulate (simRun registry es1)) = [req] \<and>
    smUserId req = trim (siUser (simRun registry es1)) \<and> smUserId req \<noteq> [] \<and>
    smCapability req = siCapability (simRun registry es1) \<and> smScope req = trim (siScope (simRun registry es1)) \<and>
    smScope req \<noteq> []"
  have asked: "siRunning (simRun registry xs) \<Longrightarrow> ?asked xs" for xs
  proof (induction xs rule: rev_induct)
    case Nil
    then show ?case by (simp add: simRun_def mountSimulator_def)
  next
    case (snoc e xs)
    show ?case
    proof (cases "siRunning (simRun registry xs)")
      case True
      from snoc.IH [OF this] obtain es1 es2 req where "xs = es1 @ PressSimulate # es2"
        "snd (simulatorStep PressSimulate (simRun registry es1)) = [req]" "smUserId req = trim (siUser (simRun registry es1))"
        "smUserId req \<noteq> []" "smCapability req = siCapability (simRun registry es1)"
        "smScope req = trim (siScope (simRun registry es1))" "smScope req \<noteq> []" by blast
      then show ?thesis by (intro exI [of _ es1] exI [of _ "es2 @ [e]"] exI [of _ req]) simp
    next
      case False
      then have "e = PressSimulate" "trim (siUser (simRun registry xs)) \<noteq> []" "siCapability (simRun registry xs) \<noteq> []"
        "trim (siScope (simRun registry xs)) \<noteq> []"
        using snoc.prems by (cases e; simp add: simRun_snoc split: if_splits)+
      with False show ?thesis by (intro exI [of _ xs] exI [of _ "[]"]) auto
    qed
  qed
  show ?thesis using assms
  proof (induction es rule: rev_induct)
    case Nil
    then show ?case by (simp add: simRun_def mountSimulator_def)
  next
    case (snoc e es)
    let ?p = "simRun registry es"
    show ?case
    proof (cases "siRunning ?p")
      case True
      then have e: "e = SimulateAnswered j"
        using snoc.prems by (cases e) (auto simp: simRun_snoc split: if_splits)
      from asked [OF True] obtain es1 es2 req where "es = es1 @ PressSimulate # es2"
        "snd (simulatorStep PressSimulate (simRun registry es1)) = [req]" "smUserId req = trim (siUser (simRun registry es1))"
        "smUserId req \<noteq> []" "smCapability req = siCapability (simRun registry es1)"
        "smScope req = trim (siScope (simRun registry es1))" "smScope req \<noteq> []" by blast
      then show ?thesis unfolding e
        by (intro exI [of _ es1] exI [of _ es2] exI [of _ "[]"] exI [of _ req]) simp
    next
      case False
      have q: "siResult ?p = Some j" "snd (simulatorStep e ?p) = []"
        using snoc.prems False by (cases e; simp add: simRun_snoc split: if_splits)+
      from snoc.IH [OF q(1) False] obtain es1 es2 es3 req where
        *: "es = es1 @ PressSimulate # es2 @ SimulateAnswered j # es3"
        "snd (simulatorStep PressSimulate (simRun registry es1)) = [req]" "smUserId req = trim (siUser (simRun registry es1))"
        "smUserId req \<noteq> []" "smCapability req = siCapability (simRun registry es1)"
        "smScope req = trim (siScope (simRun registry es1))" "smScope req \<noteq> []"
        "\<forall>k < length es3. snd (simulatorStep (es3 ! k) (simRun registry (es1 @ PressSimulate # es2 @ SimulateAnswered j # take k es3))) = []"
        by blast
      have "\<forall>k < length (es3 @ [e]). snd (simulatorStep ((es3 @ [e]) ! k)
          (simRun registry (es1 @ PressSimulate # es2 @ SimulateAnswered j # take k (es3 @ [e])))) = []"
        using *(8) q(2) unfolding *(1) by (auto simp: nth_append less_Suc_eq)
      with * show ?thesis
        by (intro exI [of _ es1] exI [of _ es2] exI [of _ "es3 @ [e]"] exI [of _ req]) simp
    qed
  qed
qed


theorem verdict_answers_last_run_witness:
  "\<exists>es1. snd (simulatorStep PressSimulate (simRun [''bucket:read''] es1)) \<noteq> [] \<and>
     siResult (simRun [''bucket:read''] [TypeSimUser ''wife'', TypeSimScope ''host:*'', PressSimulate, SimulateAnswered JNull]) = Some JNull"
proof -
  let ?es = "[TypeSimUser ''wife'', TypeSimScope ''host:*'', PressSimulate, SimulateAnswered JNull]"
  have r: "siResult (simRun [''bucket:read''] ?es) = Some JNull" "\<not> siRunning (simRun [''bucket:read''] ?es)" by code_simp+
  from verdict_answers_last_run [OF r] obtain es1 req where
    "snd (simulatorStep PressSimulate (simRun [''bucket:read''] es1)) = [req]" by blast
  with r(1) show ?thesis by (intro exI [of _ es1]) simp
qed

section \<open>What the page gets wrong\<close>

text \<open>
  The card of a role with the superuser wildcard tells the operator to remove the wildcard and pick
  capabilities. The registry holds no wildcard, so no checkbox stands for it, and every save sends it again.
\<close>

theorem wildcard_cannot_be_narrowed:
  assumes "isWildcard r" and "''*:*'' \<notin> set registry"
    and "UpsertRole body \<in> set (snd (cardStep registry e (cardAfter registry r es)))"
  shows "isWildcard body"
proof -
  have "''*:*'' \<notin> capClicks registry es" using assms(2) by (simp add: capClicks_def)
  then have "''*:*'' \<in> set (rcSelected (cardAfter registry r es))"
    using card_selected [of registry r es] assms(1) by (simp add: isWildcard_def)
  then show ?thesis using assms(3)
    by (cases e) (auto simp: upsertBody_def isWildcard_def split: if_splits)
qed

text \<open>
  Cancel does not reset the card: what was given up is still chosen when the card is opened again, and is
  saved with the next change.
\<close>

theorem cancelled_edits_come_back:
  "let reg = [''bucket:read'', ''key:read'', ''host:audit''];
       c = cardAfter reg sampleRole [PressEditRole, ClickRoleCap ''host:audit'', PressCancelRole, PressEditRole, TypeRoleLabel ''Operators'']
   in ''host:audit'' \<notin> set (plCapabilities (rcRole c)) \<and>
      map (\<lambda>x. case x of UpsertRole b \<Rightarrow> plCapabilities b | DeleteRole i \<Rightarrow> []) (snd (cardStep reg PressSaveRole c)) =
        [[''bucket:read'', ''key:read'', ''host:audit'']]"
  by code_simp

text \<open>
  The card keeps the capabilities it was mounted with. When another administrator has meanwhile taken one away, which
  the page shows, a change of the label grants it again.
\<close>

theorem stale_card_restores_capability:
  "let reg = [''bucket:read'', ''key:read''];
       c = cardAfter reg sampleRole [RoleArrives (sampleRole\<lparr>plCapabilities := [''bucket:read'']\<rparr>), PressEditRole, TypeRoleLabel ''Operators'']
   in plCapabilities (rcRole c) = [''bucket:read''] \<and>
      map (\<lambda>x. case x of UpsertRole b \<Rightarrow> plCapabilities b | DeleteRole i \<Rightarrow> []) (snd (cardStep reg PressSaveRole c)) =
        [[''bucket:read'', ''key:read'']]"
  by code_simp

text \<open>A new role may have the identifier of an existing one, even of a seed role, whose capabilities it replaces.\<close>

theorem new_role_overwrites_existing:
  "map (\<lambda>b. (plId b, plCapabilities b)) (snd (newRoleStep [''bucket:read''] PressCreateRole
      (fst (newRoleStep [''bucket:read''] (TypeNewId ''host_admin'') newRole)))) = [(''host_admin'', [])]"
  by code_simp

text \<open>When the chosen role is deleted, the list box shows the first role, but the deleted one is assigned.\<close>

theorem deleted_role_still_assigned:
  "let other = sampleRole\<lparr>plId := ''viewer''\<rparr>;
       p = assignAfter [sampleRole, other] [] [PoliciesArrive [other] [], TypeUser ''wife'', TypeScopeText ''host:*'']
   in shownRole p = ''viewer'' \<and>
      map (\<lambda>x. case x of Assign a \<Rightarrow> paRoleId a | Unassign a \<Rightarrow> []) (snd (assignStep PressAssign p)) = [''ops'']"
  by code_simp

text \<open>The fields stay open while an assignment is sent; what is typed for the next one is cleared when the first succeeds.\<close>

theorem next_user_cleared:
  "apUser (assignAfter [sampleRole] [] [TypeUser ''wife'', TypeScopeText ''host:*'', PressAssign, TypeUser ''kid'', AssignSettled True]) = []"
  by code_simp

text \<open>The comment says that a verdict is cleared on a fresh run; it stays on screen until the new answer arrives.\<close>

theorem old_verdict_during_run:
  "let p = simRun [''bucket:read''] [TypeSimUser ''wife'', TypeSimScope ''host:*'', PressSimulate, SimulateAnswered JNull,
      TypeSimUser ''kid'', PressSimulate] in siRunning p \<and> siResult p = Some JNull"
  by code_simp

end
