(* ===== verification/Migrate.thy ===== *)
theory Migrate
  imports Key_Permissions Share_Hooks
begin

text \<open>
  The wizard that migrates a cluster (\<open>routes/admin/migrate.tsx\<close>): pick two clusters, choose and rename
  buckets, start one sync job for each. The jobs are created in parallel; the page goes on when all of them have
  settled.
\<close>

section \<open>The plan\<close>

datatype plan_status = PlanPending | PlanCreating | PlanOk | PlanError

record bucket_plan =
  bnSrcId :: string
  bnSrcAlias :: string
  bnDstAlias :: string
  bnSelected :: bool
  bnStatus :: plan_status
  bnJob :: "string option"
  bnError :: "string option"

definition seedPlan :: "cluster_bucket \<Rightarrow> bucket_plan" where
  "seedPlan b =
     (let al = (case firstAlias (cbAliases b) of Some a \<Rightarrow> a | None \<Rightarrow> take 12 (cbId b))
      in \<lparr>bnSrcId = cbId b, bnSrcAlias = al, bnDstAlias = al, bnSelected = True, bnStatus = PlanPending,
          bnJob = None, bnError = None\<rparr>)"

definition sameSet :: "bucket_plan list \<Rightarrow> cluster_bucket list \<Rightarrow> bool" where
  "sameSet prev bs \<longleftrightarrow> length prev = length bs \<and> bnSrcId ` set prev \<subseteq> cbId ` set bs"

text \<open>The effect on \<open>[srcBuckets, step]\<close>.\<close>

definition seedPlans :: "cluster_bucket list option \<Rightarrow> nat \<Rightarrow> bucket_plan list \<Rightarrow> bucket_plan list" where
  "seedPlans srcBuckets step prev =
     (case srcBuckets of None \<Rightarrow> prev
      | Some bs \<Rightarrow> if step \<noteq> 2 \<or> sameSet prev bs then prev else map seedPlan bs)"

definition selectedPlans :: "bucket_plan list \<Rightarrow> bucket_plan list" where
  "selectedPlans plans = filter bnSelected plans"

definition canAdvanceStep1 :: "string \<Rightarrow> string \<Rightarrow> bool" where
  "canAdvanceStep1 srcCid dstCid \<longleftrightarrow> srcCid \<noteq> [] \<and> dstCid \<noteq> [] \<and> srcCid \<noteq> dstCid"

definition canAdvanceStep2 :: "bucket_plan list \<Rightarrow> bool" where
  "canAdvanceStep2 plans \<longleftrightarrow> selectedPlans plans \<noteq> [] \<and> (\<forall>p \<in> set (selectedPlans plans). trim (bnDstAlias p) \<noteq> [])"

definition migrateSync :: "string \<Rightarrow> string \<Rightarrow> bucket_plan \<Rightarrow> json" where
  "migrateSync srcCid dstCid p = JObj [(''mode'', JStr ''pull''), (''srcConnectionId'', JStr srcCid),
     (''srcBucket'', JStr (bnSrcAlias p)), (''dstConnectionId'', JStr dstCid), (''dstBucket'', JStr (trim (bnDstAlias p)))]"

text \<open>
  The outcomes in the order of the selected rows (\<open>Inl\<close> the message of a failure, \<open>Inr\<close> the id of the job),
  patched onto the rows, with the two counters.
\<close>

fun settleRows :: "bucket_plan list \<Rightarrow> (string + string) list \<Rightarrow> bucket_plan list \<times> nat \<times> nat" where
  "settleRows [] rs = ([], 0, 0)"
| "settleRows (p # ps) rs =
     (if \<not> bnSelected p then (case settleRows ps rs of (ps', n, m) \<Rightarrow> (p # ps', n, m))
      else (case rs of
          [] \<Rightarrow> (case settleRows ps [] of (ps', n, m) \<Rightarrow> (p # ps', n, m))
        | Inr jobId # rs' \<Rightarrow>
            (case settleRows ps rs' of (ps', n, m) \<Rightarrow> (p\<lparr>bnStatus := PlanOk, bnJob := Some jobId\<rparr> # ps', n + 1, m))
        | Inl msg # rs' \<Rightarrow>
            (case settleRows ps rs' of (ps', n, m) \<Rightarrow> (p\<lparr>bnStatus := PlanError, bnError := Some msg\<rparr> # ps', n, m + 1))))"

section \<open>The wizard\<close>

record migrate_wizard =
  mwStep :: nat
  mwSrc :: string
  mwDst :: string
  mwClusters :: "string list"
  mwBuckets :: "cluster_bucket list option"
  mwPlans :: "bucket_plan list"
  mwSubmitting :: bool
  mwDone :: bool

definition openMigrate :: "string \<Rightarrow> string \<Rightarrow> migrate_wizard" where
  "openMigrate srcCid dstCid = \<lparr>mwStep = 1, mwSrc = srcCid, mwDst = dstCid, mwClusters = [], mwBuckets = None,
     mwPlans = [], mwSubmitting = False, mwDone = False\<rparr>"

text \<open>
  \<open>BucketsResolve\<close> is an answer for the source that is chosen; another source has none until it is loaded.
  The counters of \<open>handleStart\<close> are raised inside the function passed to \<open>setPlans\<close>: whether React has run it when
  they are read is the flag of \<open>AllSettled\<close>.
\<close>

datatype migrate_event =
    ClustersResolve "string list"
  | PickSource string
  | PickDestination string
  | NextFromStep1
  | BucketsResolve "cluster_bucket list"
  | TogglePlan string
  | SelectAllPlans bool
  | RenameDst string string
  | BackToStep1
  | NextFromStep2
  | StartMigration
  | AllSettled bool "(string + string) list"
  | BackToStep2

datatype migrate_out = CreateSyncJob json | SaySuccess nat | SayFailure nat nat | GoToSyncs

definition markCreating :: "bucket_plan \<Rightarrow> bucket_plan" where
  "markCreating p = (if bnSelected p then p\<lparr>bnStatus := PlanCreating\<rparr> else p)"

definition resetPlan :: "bucket_plan \<Rightarrow> bucket_plan" where
  "resetPlan p = p\<lparr>bnStatus := PlanPending, bnError := None, bnJob := None\<rparr>"

definition onPlan :: "string \<Rightarrow> (bucket_plan \<Rightarrow> bucket_plan) \<Rightarrow> bucket_plan list \<Rightarrow> bucket_plan list" where
  "onPlan i f = map (\<lambda>p. if bnSrcId p = i then f p else p)"

text \<open>Step 2 shows its rows once the buckets are there; the alias of a row can be typed while it is selected.\<close>

definition rowsShown :: "migrate_wizard \<Rightarrow> bool" where
  "rowsShown w \<longleftrightarrow> mwStep w = 2 \<and> mwBuckets w \<noteq> None"

definition reseed :: "migrate_wizard \<Rightarrow> migrate_wizard" where
  "reseed w = w\<lparr>mwPlans := seedPlans (mwBuckets w) (mwStep w) (mwPlans w)\<rparr>"

definition announce :: "nat \<Rightarrow> nat \<Rightarrow> migrate_out list" where
  "announce okCount errCount = (if errCount = 0 then [SaySuccess okCount, GoToSyncs] else [SayFailure okCount errCount])"

fun migrateStep :: "migrate_event \<Rightarrow> migrate_wizard \<Rightarrow> migrate_wizard \<times> migrate_out list" where
  "migrateStep (ClustersResolve cs) w = (w\<lparr>mwClusters := cs\<rparr>, [])"
| "migrateStep (PickSource c) w =
     (if mwStep w = 1 \<and> (c = [] \<or> c \<in> set (mwClusters w))
      then w\<lparr>mwSrc := c, mwBuckets := (if c = mwSrc w then mwBuckets w else None)\<rparr> else w, [])"
| "migrateStep (PickDestination c) w =
     (if mwStep w = 1 \<and> (c = [] \<or> c \<in> set (mwClusters w) \<and> c \<noteq> mwSrc w) then w\<lparr>mwDst := c\<rparr> else w, [])"
| "migrateStep NextFromStep1 w =
     (if mwStep w = 1 \<and> canAdvanceStep1 (mwSrc w) (mwDst w) then reseed (w\<lparr>mwPlans := [], mwStep := 2\<rparr>) else w, [])"
| "migrateStep (BucketsResolve bs) w = (reseed (w\<lparr>mwBuckets := Some bs\<rparr>), [])"
| "migrateStep (TogglePlan i) w =
     (if rowsShown w then w\<lparr>mwPlans := onPlan i (\<lambda>p. p\<lparr>bnSelected := \<not> bnSelected p\<rparr>) (mwPlans w)\<rparr> else w, [])"
| "migrateStep (SelectAllPlans b) w =
     (if rowsShown w then w\<lparr>mwPlans := map (\<lambda>p. p\<lparr>bnSelected := b\<rparr>) (mwPlans w)\<rparr> else w, [])"
| "migrateStep (RenameDst i s) w =
     (if rowsShown w \<and> (\<exists>p \<in> set (mwPlans w). bnSrcId p = i \<and> bnSelected p)
      then w\<lparr>mwPlans := onPlan i (\<lambda>p. p\<lparr>bnDstAlias := s\<rparr>) (mwPlans w)\<rparr> else w, [])"
| "migrateStep BackToStep1 w = (if mwStep w = 2 then w\<lparr>mwStep := 1\<rparr> else w, [])"
| "migrateStep NextFromStep2 w = (if mwStep w = 2 \<and> canAdvanceStep2 (mwPlans w) then w\<lparr>mwStep := 3\<rparr> else w, [])"
| "migrateStep StartMigration w =
     (if mwStep w = 3 \<and> \<not> mwSubmitting w \<and> \<not> mwDone w \<and> mwSrc w \<noteq> [] \<and> mwDst w \<noteq> [] \<and> selectedPlans (mwPlans w) \<noteq> []
      then (w\<lparr>mwSubmitting := True, mwPlans := map markCreating (mwPlans w)\<rparr>,
        map (\<lambda>p. CreateSyncJob (migrateSync (mwSrc w) (mwDst w) p)) (selectedPlans (mwPlans w)))
      else (w, []))"
| "migrateStep (AllSettled eager rs) w =
     (if \<not> mwSubmitting w then (w, [])
      else (case settleRows (mwPlans w) rs of (ps, n, m) \<Rightarrow>
        (w\<lparr>mwPlans := ps, mwSubmitting := False, mwDone := True\<rparr>, if eager then announce n m else announce 0 0)))"
| "migrateStep BackToStep2 w =
     (if mwStep w = 3 \<and> \<not> mwSubmitting w
      then reseed (w\<lparr>mwStep := 2, mwDone := False, mwPlans := map resetPlan (mwPlans w)\<rparr>) else w, [])"

definition migrateAfter :: "string \<Rightarrow> string \<Rightarrow> migrate_event list \<Rightarrow> migrate_wizard" where
  "migrateAfter srcCid dstCid es = foldl (\<lambda>w e. fst (migrateStep e w)) (openMigrate srcCid dstCid) es"

section \<open>What is started\<close>

lemma migrateAfter_snoc: "migrateAfter s d (es @ [e]) = fst (migrateStep e (migrateAfter s d es))"
  by (simp add: migrateAfter_def)

fun resolved :: "migrate_event \<Rightarrow> cluster_bucket set" where
  "resolved (BucketsResolve bs) = set bs"
| "resolved _ = {}"

text \<open>A row of the plan stands for a bucket that was listed, under the alias it was listed with.\<close>

definition listedPlan :: "cluster_bucket set \<Rightarrow> bucket_plan \<Rightarrow> bool" where
  "listedPlan bs p \<longleftrightarrow> (\<exists>b \<in> bs. bnSrcId p = cbId b \<and> bnSrcAlias p = bnSrcAlias (seedPlan b))"

definition migrateOk :: "cluster_bucket set \<Rightarrow> migrate_wizard \<Rightarrow> bool" where
  "migrateOk bs w \<longleftrightarrow> mwStep w \<in> {1, 2, 3} \<and>
     (mwStep w \<noteq> 1 \<longrightarrow> canAdvanceStep1 (mwSrc w) (mwDst w)) \<and>
     (mwStep w = 3 \<longrightarrow> canAdvanceStep2 (mwPlans w)) \<and>
     (\<forall>p \<in> set (mwPlans w). listedPlan bs p) \<and>
     (case mwBuckets w of None \<Rightarrow> True | Some xs \<Rightarrow> set xs \<subseteq> bs) \<and>
     (mwStep w \<noteq> 3 \<longrightarrow> \<not> mwSubmitting w)"

lemma listedPlan_mono: "listedPlan bs p \<Longrightarrow> bs \<subseteq> cs \<Longrightarrow> listedPlan cs p"
  by (auto simp: listedPlan_def)

lemma migrateOk_mono: "migrateOk bs w \<Longrightarrow> bs \<subseteq> cs \<Longrightarrow> migrateOk cs w"
  unfolding migrateOk_def by (auto intro: listedPlan_mono split: option.splits)

lemma listedPlan_seed: "b \<in> bs \<Longrightarrow> listedPlan bs (seedPlan b)"
  by (auto simp: listedPlan_def seedPlan_def Let_def)

lemma listedPlan_update [simp]:
  "listedPlan bs (p\<lparr>bnSelected := b\<rparr>) = listedPlan bs p" "listedPlan bs (p\<lparr>bnDstAlias := s\<rparr>) = listedPlan bs p"
  "listedPlan bs (p\<lparr>bnStatus := st\<rparr>) = listedPlan bs p" "listedPlan bs (p\<lparr>bnJob := j\<rparr>) = listedPlan bs p"
  "listedPlan bs (p\<lparr>bnError := x\<rparr>) = listedPlan bs p"
  by (simp_all add: listedPlan_def)

lemma reseed_listed:
  "(\<forall>p \<in> set (mwPlans w). listedPlan bs p) \<Longrightarrow> (case mwBuckets w of None \<Rightarrow> True | Some xs \<Rightarrow> set xs \<subseteq> bs) \<Longrightarrow>
   \<forall>p \<in> set (mwPlans (reseed w)). listedPlan bs p"
  by (auto simp: reseed_def seedPlans_def listedPlan_seed subset_iff split: option.splits)


text \<open>What the outcomes leave of a row: the choice of the administrator and the bucket.\<close>

definition planCore :: "bucket_plan \<Rightarrow> string \<times> string \<times> string \<times> bool" where
  "planCore p = (bnSrcId p, bnSrcAlias p, bnDstAlias p, bnSelected p)"

lemma planCore_update [simp]:
  "planCore (p\<lparr>bnStatus := st\<rparr>) = planCore p" "planCore (p\<lparr>bnJob := j\<rparr>) = planCore p"
  "planCore (p\<lparr>bnError := x\<rparr>) = planCore p" "planCore (markCreating p) = planCore p"
  "planCore (resetPlan p) = planCore p"
  by (simp_all add: planCore_def markCreating_def resetPlan_def)

lemma settleRows_core: "map planCore (fst (settleRows ps rs)) = map planCore ps"
  by (induction ps rs rule: settleRows.induct) (simp_all split: list.split sum.split prod.split, auto split: prod.splits)

lemma canAdvanceStep2_core:
  "canAdvanceStep2 ps \<longleftrightarrow> (\<exists>c \<in> set (map planCore ps). snd (snd (snd c))) \<and>
     (\<forall>c \<in> set (map planCore ps). snd (snd (snd c)) \<longrightarrow> trim (fst (snd (snd c))) \<noteq> [])"
  by (auto simp: canAdvanceStep2_def selectedPlans_def planCore_def filter_empty_conv)

lemma listed_core:
  "(\<forall>p \<in> set ps. listedPlan bs p) \<longleftrightarrow>
   (\<forall>c \<in> set (map planCore ps). \<exists>b \<in> bs. fst c = cbId b \<and> fst (snd c) = bnSrcAlias (seedPlan b))"
  by (auto simp: listedPlan_def planCore_def)

lemma core_keeps:
  assumes "map planCore ps = map planCore qs"
  shows "canAdvanceStep2 ps = canAdvanceStep2 qs" "(\<forall>p \<in> set ps. listedPlan bs p) = (\<forall>p \<in> set qs. listedPlan bs p)"
  unfolding canAdvanceStep2_core listed_core assms by (rule refl)+

lemma listed_onPlan:
  "(\<And>p. listedPlan bs (f p) = listedPlan bs p) \<Longrightarrow>
   (\<forall>p \<in> set (onPlan i f ps). listedPlan bs p) = (\<forall>p \<in> set ps. listedPlan bs p)"
  by (simp add: onPlan_def if_distrib [of "listedPlan bs"] cong: if_cong del: if_image_distrib)

lemma reseed_simps [simp]:
  "mwStep (reseed w) = mwStep w" "mwSrc (reseed w) = mwSrc w" "mwDst (reseed w) = mwDst w"
  "mwBuckets (reseed w) = mwBuckets w" "mwSubmitting (reseed w) = mwSubmitting w" "mwDone (reseed w) = mwDone w"
  by (simp_all add: reseed_def)

lemma reseed_idle: "mwStep w \<noteq> 2 \<Longrightarrow> mwPlans (reseed w) = mwPlans w"
  by (simp add: reseed_def seedPlans_def split: option.split)

lemma resetPlan_listed: "listedPlan bs (resetPlan p) = listedPlan bs p"
  by (simp add: resetPlan_def)

lemma markCreating_map:
  "canAdvanceStep2 (map markCreating ps) = canAdvanceStep2 ps"
  "(\<forall>p \<in> set ps. listedPlan bs (markCreating p)) = (\<forall>p \<in> set ps. listedPlan bs p)"
  using core_keeps [of "map markCreating ps" ps] by (simp_all add: comp_def)

lemma migrateStep_ok:
  assumes "migrateOk bs w"
  shows "migrateOk (bs \<union> resolved e) (fst (migrateStep e w))"
proof -
  have mono: "migrateOk (bs \<union> resolved e) w" using assms by (rule migrateOk_mono) simp
  show ?thesis
  proof (cases e)
    case (AllSettled eager rs)
    have "map planCore (fst (settleRows (mwPlans w) rs)) = map planCore (mwPlans w)" by (rule settleRows_core)
    from core_keeps [OF this] show ?thesis using mono AllSettled
      by (cases "settleRows (mwPlans w) rs") (simp add: migrateOk_def)
  next
    case (BucketsResolve bs')
    have "\<forall>p \<in> set (mwPlans (reseed (w\<lparr>mwBuckets := Some bs'\<rparr>))). listedPlan (bs \<union> set bs') p"
      using mono BucketsResolve by (intro reseed_listed) (simp_all add: migrateOk_def)
    with mono BucketsResolve show ?thesis
      by (simp add: migrateOk_def) (simp add: reseed_idle)
  next
    case NextFromStep1
    with mono show ?thesis
      using reseed_listed [of "w\<lparr>mwPlans := [], mwStep := 2\<rparr>" bs] by (auto simp: migrateOk_def)
  next
    case BackToStep2
    have "\<forall>p \<in> set (map resetPlan (mwPlans w)). listedPlan bs p"
      using mono BackToStep2 by (simp add: migrateOk_def resetPlan_listed)
    then have "\<forall>p \<in> set (mwPlans (reseed (w\<lparr>mwStep := 2, mwDone := False, mwPlans := map resetPlan (mwPlans w)\<rparr>))).
      listedPlan bs p"
      using mono BackToStep2 by (intro reseed_listed) (simp_all add: migrateOk_def)
    with mono BackToStep2 show ?thesis by (simp add: migrateOk_def)
  next
    case (TogglePlan i)
    with mono show ?thesis
      by (simp add: migrateOk_def rowsShown_def listed_onPlan)
  next
    case (RenameDst i s)
    with mono show ?thesis
      by (simp add: migrateOk_def rowsShown_def listed_onPlan)
  next
    case BackToStep1
    with mono show ?thesis by (auto simp: migrateOk_def)
  qed (use mono in \<open>simp_all add: migrateOk_def markCreating_map rowsShown_def split: option.splits\<close>)
qed


lemma migrateAfter_ok: "migrateOk (\<Union> (resolved ` set es)) (migrateAfter srcCid dstCid es)"
proof (induction es rule: rev_induct)
  case Nil
  show ?case by (simp add: migrateAfter_def migrateOk_def openMigrate_def)
next
  case (snoc e es)
  then have "migrateOk (\<Union> (resolved ` set es) \<union> resolved e) (fst (migrateStep e (migrateAfter srcCid dstCid es)))"
    by (rule migrateStep_ok)
  then show ?case by (simp add: migrateAfter_snoc Un_commute)
qed

lemma requests_only_on_start:
  "CreateSyncJob j \<in> set (snd (migrateStep e w)) \<Longrightarrow>
   e = StartMigration \<and> mwStep w = 3 \<and> \<not> mwSubmitting w \<and> \<not> mwDone w \<and>
   (\<exists>p \<in> set (selectedPlans (mwPlans w)). j = migrateSync (mwSrc w) (mwDst w) p)"
  by (cases e) (auto simp: announce_def split: if_splits prod.splits)

text \<open>
  Whatever is clicked, typed, picked or refetched, and whenever the jobs settle: the
  requests of the wizard are made by one press of Start, exactly one for every selected row and in the order of
  the rows. Each copies from the chosen source to the chosen destination, which are two clusters, out of a bucket
  that was listed, under the alias it was listed with, into a bucket whose trimmed name is not empty; and no press
  makes any while jobs are in flight or after they settled, until the administrator goes back to the plan.
\<close>

theorem migration_requests_valid:
  assumes "w = migrateAfter srcCid dstCid es" and "migrateStep e w = (w', out)" and "CreateSyncJob j \<in> set out"
  shows "out = map (\<lambda>p. CreateSyncJob (migrateSync (mwSrc w) (mwDst w) p)) (selectedPlans (mwPlans w)) \<and>
    e = StartMigration \<and> mwSrc w \<noteq> mwDst w \<and> mwSrc w \<noteq> [] \<and> mwDst w \<noteq> [] \<and>
    (\<forall>p \<in> set (selectedPlans (mwPlans w)). trim (bnDstAlias p) \<noteq> [] \<and>
       listedPlan (\<Union> (resolved ` set es)) p) \<and>
    snd (migrateStep StartMigration w') = [] \<and>
    snd (migrateStep StartMigration (fst (migrateStep (AllSettled eager rs) w'))) = []"
proof -
  have ok: "migrateOk (\<Union> (resolved ` set es)) w" unfolding assms(1) by (rule migrateAfter_ok)
  from assms(2,3) requests_only_on_start [of j e w]
  have e: "e = StartMigration" "mwStep w = 3" "\<not> mwSubmitting w" "\<not> mwDone w" by auto
  have adv: "canAdvanceStep1 (mwSrc w) (mwDst w)" "canAdvanceStep2 (mwPlans w)"
    and listed: "\<forall>q \<in> set (mwPlans w). listedPlan (\<Union> (resolved ` set es)) q"
    using ok e(2) by (simp_all add: migrateOk_def)
  have "\<forall>p \<in> set (selectedPlans (mwPlans w)). trim (bnDstAlias p) \<noteq> [] \<and> listedPlan (\<Union> (resolved ` set es)) p"
    using adv(2) listed by (simp add: canAdvanceStep2_def selectedPlans_def)
  moreover have "mwSrc w \<noteq> mwDst w" "mwSrc w \<noteq> []" "mwDst w \<noteq> []"
    using adv(1) by (simp_all add: canAdvanceStep1_def)
  moreover have "w' = fst (migrateStep e w)" "out = snd (migrateStep e w)" using assms(2) by simp_all
  moreover have "selectedPlans (mwPlans w) \<noteq> []" using adv(2) by (simp add: canAdvanceStep2_def)
  ultimately show ?thesis using e by (simp split: prod.split)
qed

definition sampleMigration :: "migrate_event list" where
  "sampleMigration = [ClustersResolve [''a'', ''b''], PickSource ''a'', PickDestination ''b'', NextFromStep1,
     BucketsResolve [\<lparr>cbId = ''b1'', cbAliases = Some [''photos'']\<rparr>, \<lparr>cbId = ''b2'', cbAliases = Some [''logs'']\<rparr>],
     TogglePlan ''b2'', RenameDst ''b1'' '' copy '', NextFromStep2]"

theorem migration_requests_valid_witness:
  "snd (migrateStep StartMigration (migrateAfter [] [] sampleMigration)) = [CreateSyncJob (JObj [(''mode'', JStr ''pull''),
     (''srcConnectionId'', JStr ''a''), (''srcBucket'', JStr ''photos''), (''dstConnectionId'', JStr ''b''),
     (''dstBucket'', JStr ''copy'')])] \<and>
   snd (migrateStep StartMigration (fst (migrateStep StartMigration (migrateAfter [] [] sampleMigration)))) = []"
proof -
  have run: "snd (migrateStep StartMigration (migrateAfter [] [] sampleMigration)) = [CreateSyncJob (JObj [(''mode'', JStr ''pull''),
     (''srcConnectionId'', JStr ''a''), (''srcBucket'', JStr ''photos''), (''dstConnectionId'', JStr ''b''),
     (''dstBucket'', JStr ''copy'')])]"
    by code_simp
  have "snd (migrateStep StartMigration (fst (migrateStep StartMigration (migrateAfter [] [] sampleMigration)))) = []"
    using migration_requests_valid [OF refl surjective_pairing, of _ StartMigration "[]" "[]" sampleMigration]
    unfolding run by simp
  with run show ?thesis by simp
qed


section \<open>What is reported\<close>

definition settledRow :: "bucket_plan \<Rightarrow> string + string \<Rightarrow> bucket_plan" where
  "settledRow p r = (case r of Inr jobId \<Rightarrow> p\<lparr>bnStatus := PlanOk, bnJob := Some jobId\<rparr>
     | Inl msg \<Rightarrow> p\<lparr>bnStatus := PlanError, bnError := Some msg\<rparr>)"

lemma settledRow_selected [simp]: "bnSelected (settledRow p r) = bnSelected p"
  by (simp add: settledRow_def split: sum.split)

lemma settleRows_spec:
  assumes "length rs = length (selectedPlans ps)"
  shows "selectedPlans (fst (settleRows ps rs)) = map2 settledRow (selectedPlans ps) rs \<and>
    filter (Not \<circ> bnSelected) (fst (settleRows ps rs)) = filter (Not \<circ> bnSelected) ps \<and>
    snd (settleRows ps rs) = (length (filter (Not \<circ> isl) rs), length (filter isl rs))"
  using assms
proof (induction ps arbitrary: rs)
  case Nil
  then show ?case by (simp add: selectedPlans_def)
next
  case (Cons p ps)
  show ?case
  proof (cases "bnSelected p")
    case False
    with Cons.prems have "length rs = length (selectedPlans ps)" by (simp add: selectedPlans_def)
    from Cons.IH [OF this] False show ?thesis by (cases "settleRows ps rs") (simp add: selectedPlans_def)
  next
    case True
    with Cons.prems obtain r rs' where rs: "rs = r # rs'" and len: "length rs' = length (selectedPlans ps)"
      by (cases rs) (simp_all add: selectedPlans_def)
    from Cons.IH [OF len] True show ?thesis unfolding rs
      by (cases "settleRows ps rs'"; cases r) (simp_all add: selectedPlans_def settledRow_def)
  qed
qed

fun settles :: "migrate_event \<Rightarrow> bool" where
  "settles (AllSettled _ _) = True"
| "settles _ = False"

lemma in_flight_step:
  assumes "mwStep w = 3" "mwSubmitting w" "\<not> settles e"
  shows "mwStep (fst (migrateStep e w)) = 3 \<and> mwSubmitting (fst (migrateStep e w)) \<and>
    mwPlans (fst (migrateStep e w)) = mwPlans w \<and> snd (migrateStep e w) = []"
  using assms by (cases e) (simp_all add: rowsShown_def reseed_idle)

lemma in_flight_run:
  assumes "mwStep w = 3" "mwSubmitting w" "list_all (Not \<circ> settles) es"
  shows "mwStep (foldl (\<lambda>w e. fst (migrateStep e w)) w es) = 3 \<and>
    mwSubmitting (foldl (\<lambda>w e. fst (migrateStep e w)) w es) \<and>
    mwPlans (foldl (\<lambda>w e. fst (migrateStep e w)) w es) = mwPlans w"
  using assms(3)
proof (induction es rule: rev_induct)
  case Nil
  then show ?case using assms by simp
next
  case (snoc e es)
  then show ?case using in_flight_step [of "foldl (\<lambda>w e. fst (migrateStep e w)) w es" e] by simp
qed

lemma selected_marked: "selectedPlans (map markCreating ps) = map markCreating (selectedPlans ps)"
  by (induction ps) (simp_all add: selectedPlans_def markCreating_def)

lemma unselected_marked: "filter (Not \<circ> bnSelected) (map markCreating ps) = filter (Not \<circ> bnSelected) ps"
  by (induction ps) (simp_all add: markCreating_def)

text \<open>
  C28. When a press of Start made requests, whatever happens on the page before they have all
  settled: the outcome of the n-th request is shown on the row it was made for, with the id of its job or its
  message, and the rows that were not selected are as they were. When React has patched the rows by the time the counters are
  read, the announcement counts the jobs that started and those that failed, and the page leaves for the list of
  jobs exactly when none failed; otherwise it announces a success of no jobs and leaves, whatever the outcomes.
\<close>

theorem outcomes_match_rows:
  assumes "migrateStep StartMigration w = (w\<^sub>1, out)" and "out \<noteq> []" and "list_all (Not \<circ> settles) es"
    and "w\<^sub>2 = foldl (\<lambda>w e. fst (migrateStep e w)) w\<^sub>1 es" and "length rs = length out"
    and "migrateStep (AllSettled eager rs) w\<^sub>2 = (w\<^sub>3, said)"
  shows "selectedPlans (mwPlans w\<^sub>3) = map2 (\<lambda>p r. settledRow (markCreating p) r) (selectedPlans (mwPlans w)) rs \<and>
    filter (Not \<circ> bnSelected) (mwPlans w\<^sub>3) = filter (Not \<circ> bnSelected) (mwPlans w) \<and>
    said = (if \<not> eager then [SaySuccess 0, GoToSyncs]
            else if list_all (Not \<circ> isl) rs then [SaySuccess (length rs), GoToSyncs]
            else [SayFailure (length (filter (Not \<circ> isl) rs)) (length (filter isl rs))])"
proof -
  have w1: "w\<^sub>1 = w\<lparr>mwSubmitting := True, mwPlans := map markCreating (mwPlans w)\<rparr>" "mwStep w = 3"
    and out: "out = map (\<lambda>p. CreateSyncJob (migrateSync (mwSrc w) (mwDst w) p)) (selectedPlans (mwPlans w))"
    using assms(1,2) by (simp_all split: if_splits)
  have fl: "mwSubmitting w\<^sub>2" "mwPlans w\<^sub>2 = map markCreating (mwPlans w)"
    using in_flight_run [of w\<^sub>1 es] assms(3,4) w1 by simp_all
  have len: "length rs = length (selectedPlans (mwPlans w\<^sub>2))"
    using assms(5) unfolding out fl(2) selected_marked by simp
  obtain ps n m where st: "settleRows (mwPlans w\<^sub>2) rs = (ps, n, m)" by (cases "settleRows (mwPlans w\<^sub>2) rs")
  from assms(6) fl(1) st have w3: "mwPlans w\<^sub>3 = ps" "said = (if eager then announce n m else announce 0 0)" by auto
  have nm: "n = length (filter (Not \<circ> isl) rs)" "m = length (filter isl rs)"
    using settleRows_spec [OF len] st by simp_all
  have all: "length (filter isl rs) = 0 \<longleftrightarrow> list_all (Not \<circ> isl) rs" "list_all (Not \<circ> isl) rs \<Longrightarrow> filter (Not \<circ> isl) rs = rs"
    by (auto simp: filter_empty_conv list_all_iff filter_id_conv)
  have rows: "selectedPlans ps = map2 settledRow (map markCreating (selectedPlans (mwPlans w))) rs"
    "filter (Not \<circ> bnSelected) ps = filter (Not \<circ> bnSelected) (mwPlans w)"
    using settleRows_spec [OF len] st unfolding fl(2) selected_marked unselected_marked by simp_all
  have "map2 settledRow (map markCreating (selectedPlans (mwPlans w))) rs =
    map2 (\<lambda>p r. settledRow (markCreating p) r) (selectedPlans (mwPlans w)) rs"
    by (simp add: zip_map1 case_prod_beta comp_def)
  with rows show ?thesis unfolding w3 nm announce_def using all by auto
qed


theorem outcomes_match_rows_witness:
  "\<exists>w w\<^sub>3 :: migrate_wizard. w = migrateAfter [] [] (sampleMigration @ [BackToStep2, TogglePlan ''b2'', NextFromStep2]) \<and>
     map bnStatus (selectedPlans (mwPlans w\<^sub>3)) = [PlanOk, PlanError] \<and> length (selectedPlans (mwPlans w)) = 2"
proof -
  let ?w = "migrateAfter [] [] (sampleMigration @ [BackToStep2, TogglePlan ''b2'', NextFromStep2])"
  let ?w1 = "fst (migrateStep StartMigration ?w)"
  let ?out = "snd (migrateStep StartMigration ?w)"
  let ?rs = "[Inr ''j1'', Inl ''refused'']"
  let ?w3 = "fst (migrateStep (AllSettled True ?rs) ?w1)"
  have out: "length ?out = 2" by code_simp
  have len: "length (selectedPlans (mwPlans ?w)) = 2" by code_simp
  have shown: "map bnStatus xs = [PlanOk, PlanError]"
    if "xs = map2 (\<lambda>p r. settledRow (markCreating p) r) [p, q] ?rs" for xs p q
    using that by (simp add: settledRow_def)
  from len obtain p q where pq: "selectedPlans (mwPlans ?w) = [p, q]"
    unfolding numeral_2_eq_2 length_Suc_conv length_0_conv by blast
  have "selectedPlans (mwPlans ?w3) =
    map2 (\<lambda>p r. settledRow (markCreating p) r) (selectedPlans (mwPlans ?w)) ?rs"
  proof (rule conjunct1 [OF outcomes_match_rows])
    show "migrateStep StartMigration ?w = (?w1, ?out)" by (rule prod.collapse [symmetric])
    show "?out \<noteq> []" using out by (metis list.size(3) zero_neq_numeral)
    show "list_all (Not \<circ> settles) []" by (rule list.pred_inject(1))
    show "?w1 = foldl (\<lambda>w e. fst (migrateStep e w)) ?w1 []" by (rule foldl_Nil [symmetric])
    show "length ?rs = length ?out" unfolding out by simp
    show "migrateStep (AllSettled True ?rs) ?w1 = (?w3, snd (migrateStep (AllSettled True ?rs) ?w1))"
      by (rule prod.collapse [symmetric])
  qed
  then have st: "map bnStatus (selectedPlans (mwPlans ?w3)) = [PlanOk, PlanError]"
    unfolding pq by (rule shown)
  show ?thesis by (rule exI, rule exI, rule conjI [OF refl conjI [OF st len]])
qed

section \<open>Behaviour a user meets\<close>

text \<open>
  A bucket created or removed on the source while the plan is open makes the refetched list another set: every row
  is seeded again, the deselected buckets are selected and the typed names are gone.
\<close>

lemma refetch_reselects_buckets:
  assumes "rowsShown w" "\<not> sameSet (mwPlans w) bs"
  shows "mwPlans (fst (migrateStep (BucketsResolve bs) w)) = map seedPlan bs \<and>
    selectedPlans (map seedPlan bs) = map seedPlan bs"
  using assms by (auto simp: rowsShown_def reseed_def seedPlans_def selectedPlans_def seedPlan_def Let_def filter_map comp_def)

text \<open>
  Going back after a partial failure forgets which rows have a job: all selected rows are requested again, the ones
  that started included.
\<close>

lemma retry_duplicates_started_jobs:
  "(let ws = sampleMigration @ [BackToStep2, TogglePlan ''b2'', NextFromStep2, StartMigration, AllSettled True [Inr ''j1'', Inl ''no'']]
    in map bnStatus (mwPlans (migrateAfter [] [] ws)) = [PlanOk, PlanError] \<and>
       length (snd (migrateStep StartMigration (migrateAfter [] [] (ws @ [BackToStep2, NextFromStep2])))) = 2)"
  by code_simp

text \<open>A bucket without an alias is requested under the first twelve characters of its id, which name no bucket.\<close>

lemma unnamed_bucket_truncated:
  "firstAlias (cbAliases b) = None \<Longrightarrow> length (cbId b) > 12 \<Longrightarrow>
   bnSrcAlias (seedPlan b) = take 12 (cbId b) \<and> bnSrcAlias (seedPlan b) \<noteq> cbId b"
  by (auto simp: seedPlan_def Let_def dest!: arg_cong [where f = length])

text \<open>
  The counters are raised by the function passed to \<open>setPlans\<close>. If React has not run it when they are read, the page
  announces success and leaves although every job failed.
\<close>

lemma lazy_updater_reports_success:
  "mwSubmitting w \<Longrightarrow> snd (migrateStep (AllSettled False rs) w) = [SaySuccess 0, GoToSyncs]"
  by (simp add: announce_def split: prod.split)

text \<open>Two rows may be renamed to one destination: both jobs are requested.\<close>

lemma two_buckets_one_destination:
  "canAdvanceStep2 (map (\<lambda>p. p\<lparr>bnDstAlias := ''x'', bnSelected := True\<rparr>) ps) \<longleftrightarrow> ps \<noteq> []"
proof -
  have "trim ''x'' \<noteq> []" by code_simp
  then show ?thesis by (cases ps) (simp_all add: canAdvanceStep2_def selectedPlans_def)
qed

end
