(* ===== verification/Cluster_Layout.thy ===== *)
theory Cluster_Layout
  imports Complex_Main Cluster_Hooks Js_Numbers
begin

text \<open>
  The layout editor of a cluster (\<open>routes/admin/clusters/$cid/layout.tsx\<close>): a draft per node, one request per
  staged row, and the application or the dismissal of the staged layout. \<open>parseFloat\<close> of the browser is a
  parameter: a double is a rational number, \<open>None\<close> is \<open>NaN\<close>. Capacities are natural numbers below \<open>2 ^ 53\<close>.
\<close>

section \<open>Rows and drafts\<close>

record layout_node =
  lnId :: string
  lnRole :: "string option"
  lnZone :: "string option"
  lnCapacity :: "nat option"
  lnTags :: "string list option"

record row_draft =
  rdRole :: string
  rdZone :: string
  rdCapacityGB :: string
  rdTags :: string

definition ROLE_OPTIONS :: "string list" where
  "ROLE_OPTIONS = [''storage'', ''gateway'', '''']"

text \<open>\<open>String(Math.round(capacity / 1024 ** 3))\<close> of a capacity that is not zero.\<close>

definition gbText :: "nat option \<Rightarrow> string" where
  "gbText c = (case c of None \<Rightarrow> [] | Some n \<Rightarrow> if n = 0 then [] else dec ((n + 2 ^ 29) div 2 ^ 30))"

definition fallbackDraft :: "layout_node \<Rightarrow> row_draft" where
  "fallbackDraft n = \<lparr>rdRole = (case lnRole n of None \<Rightarrow> [] | Some r \<Rightarrow> r),
     rdZone = (case lnZone n of None \<Rightarrow> [] | Some z \<Rightarrow> z), rdCapacityGB = gbText (lnCapacity n),
     rdTags = joinWith '', '' (case lnTags n of None \<Rightarrow> [] | Some ts \<Rightarrow> ts)\<rparr>"

text \<open>\<open>getDraft\<close>; the empty fallback object is a node without fields.\<close>

definition noFallback :: layout_node where
  "noFallback = \<lparr>lnId = [], lnRole = None, lnZone = None, lnCapacity = None, lnTags = None\<rparr>"

definition getDraft :: "(string \<rightharpoonup> row_draft) \<Rightarrow> string \<Rightarrow> layout_node \<Rightarrow> row_draft" where
  "getDraft drafts i fallback = (case drafts i of Some d \<Rightarrow> d | None \<Rightarrow> fallbackDraft fallback)"

datatype row_patch = PatchRole string | PatchZone string | PatchCapacity string | PatchTags string

fun patched :: "row_patch \<Rightarrow> row_draft \<Rightarrow> row_draft" where
  "patched (PatchRole r) d = d\<lparr>rdRole := r\<rparr>"
| "patched (PatchZone z) d = d\<lparr>rdZone := z\<rparr>"
| "patched (PatchCapacity c) d = d\<lparr>rdCapacityGB := c\<rparr>"
| "patched (PatchTags t) d = d\<lparr>rdTags := t\<rparr>"

definition setDraft :: "string \<Rightarrow> row_patch \<Rightarrow> (string \<rightharpoonup> row_draft) \<Rightarrow> (string \<rightharpoonup> row_draft)" where
  "setDraft i p drafts = drafts(i \<mapsto> patched p (getDraft drafts i noFallback))"

section \<open>The request of a row\<close>

definition draftTags :: "string \<Rightarrow> string list" where
  "draftTags s = filter (\<lambda>t. t \<noteq> []) (map trim (splitOn CHR '','' s))"

record layout_change =
  lcNode :: string
  lcRole :: "string option"
  lcZone :: "string option"
  lcCapacity :: "int option"
  lcTags :: "string list option"

definition orUndefined :: "'a list \<Rightarrow> 'a list option" where
  "orUndefined xs = (if xs = [] then None else Some xs)"

definition changeOf :: "(string \<Rightarrow> rat option) \<Rightarrow> string \<Rightarrow> row_draft \<Rightarrow> layout_change" where
  "changeOf parseFloat i d = \<lparr>lcNode = i, lcRole = orUndefined (rdRole d), lcZone = orUndefined (rdZone d),
     lcCapacity = (case parseFloat (rdCapacityGB d) of None \<Rightarrow> None | Some x \<Rightarrow> Some \<lfloor>x * 1024 ^ 3 + 1 / 2\<rfloor>),
     lcTags = orUndefined (draftTags (rdTags d))\<rparr>"

definition changeJson :: "layout_change \<Rightarrow> json" where
  "changeJson c = JObj ((''nodeId'', JStr (lcNode c)) #
     (case lcRole c of None \<Rightarrow> [] | Some r \<Rightarrow> [(''role'', JStr r)]) @
     (case lcZone c of None \<Rightarrow> [] | Some z \<Rightarrow> [(''zone'', JStr z)]) @
     (case lcCapacity c of None \<Rightarrow> [] | Some n \<Rightarrow> [(''capacity'', JNum n)]) @
     (case lcTags c of None \<Rightarrow> [] | Some ts \<Rightarrow> [(''tags'', JArr (map JStr ts))]))"

section \<open>The page\<close>

record layout_page =
  lpNodes :: "layout_node list"
  lpStaged :: "layout_node list"
  lpDrafts :: "string \<rightharpoonup> row_draft"
  lpRevertOpen :: bool
  lpStaging :: bool
  lpApplying :: bool
  lpReverting :: bool

definition openLayout :: layout_page where
  "openLayout = \<lparr>lpNodes = [], lpStaged = [], lpDrafts = Map.empty, lpRevertOpen = False, lpStaging = False,
     lpApplying = False, lpReverting = False\<rparr>"

datatype layout_event =
    LayoutLoads "layout_node list" "layout_node list"
  | EditRow string row_patch
  | PressStage string
  | StageSettles
  | PressApply
  | ApplySettles
  | PressRevert
  | DismissRevert
  | ConfirmRevert
  | RevertSettles

datatype layout_request = StageRow layout_change | ApplyStaged | RevertStaged

fun layoutAction :: "string \<Rightarrow> layout_request \<Rightarrow> json js" where
  "layoutAction cid (StageRow c) = mutationFn (useStageLayoutChange cid) (changeJson c)"
| "layoutAction cid ApplyStaged = mutationFn (useApplyLayout cid) ()"
| "layoutAction cid RevertStaged = mutationFn (useRevertLayout cid) ()"

definition rowShown :: "layout_page \<Rightarrow> string \<Rightarrow> bool" where
  "rowShown p i \<longleftrightarrow> i \<in> lnId ` set (lpNodes p)"

fun offeredPatch :: "row_patch \<Rightarrow> bool" where
  "offeredPatch (PatchRole r) = (r \<in> set ROLE_OPTIONS)"
| "offeredPatch _ = True"

fun layoutStep :: "(string \<Rightarrow> rat option) \<Rightarrow> layout_event \<Rightarrow> layout_page \<Rightarrow> layout_page \<times> layout_request list" where
  "layoutStep pf (LayoutLoads ns st) p = (p\<lparr>lpNodes := ns, lpStaged := st\<rparr>, [])"
| "layoutStep pf (EditRow i e) p =
     (if rowShown p i \<and> offeredPatch e then p\<lparr>lpDrafts := setDraft i e (lpDrafts p)\<rparr> else p, [])"
| "layoutStep pf (PressStage i) p =
     (if rowShown p i \<and> \<not> lpStaging p
      then (p\<lparr>lpStaging := True\<rparr>, [StageRow (changeOf pf i (getDraft (lpDrafts p) i noFallback))]) else (p, []))"
| "layoutStep pf StageSettles p = (p\<lparr>lpStaging := False\<rparr>, [])"
| "layoutStep pf PressApply p =
     (if lpStaged p \<noteq> [] \<and> \<not> lpApplying p then (p\<lparr>lpApplying := True\<rparr>, [ApplyStaged]) else (p, []))"
| "layoutStep pf ApplySettles p = (p\<lparr>lpApplying := False\<rparr>, [])"
| "layoutStep pf PressRevert p =
     (if lpStaged p \<noteq> [] \<and> \<not> lpReverting p then p\<lparr>lpRevertOpen := True\<rparr> else p, [])"
| "layoutStep pf DismissRevert p = (p\<lparr>lpRevertOpen := False\<rparr>, [])"
| "layoutStep pf ConfirmRevert p =
     (if lpRevertOpen p then (p\<lparr>lpRevertOpen := False, lpReverting := True\<rparr>, [RevertStaged]) else (p, []))"
| "layoutStep pf RevertSettles p = (p\<lparr>lpReverting := False\<rparr>, [])"

definition layoutAfter :: "(string \<Rightarrow> rat option) \<Rightarrow> layout_event list \<Rightarrow> layout_page" where
  "layoutAfter pf es = foldl (\<lambda>p e. fst (layoutStep pf e p)) openLayout es"

lemma layoutAfter_snoc: "layoutAfter pf (es @ [e]) = fst (layoutStep pf e (layoutAfter pf es))"
  by (simp add: layoutAfter_def)


section \<open>What a row sends\<close>

lemma strip_blank: "strip wsTokens (CHR '' '' # w) = strip wsTokens w"
  by (subst strip.simps) (simp add: wsTokens_def)

lemma trim_blank: "trim (CHR '' '' # w) = trim w"
  by (simp add: trim_def trimStart_def strip_blank)

definition plainTag :: "string \<Rightarrow> bool" where
  "plainTag t \<longleftrightarrow> t \<noteq> [] \<and> CHR '','' \<notin> set t \<and> trimmed t"

lemma joinWith_push: "joinWith d ((c # w) # ws) = c # joinWith d (w # ws)"
  by (cases ws) simp_all

lemma joinWith_comma_blank:
  "joinWith [CHR '','', c] (t # ts) = joinWith [CHR '',''] (t # map ((#) c) ts)"
  by (induction ts arbitrary: t) (simp_all add: joinWith_push)

lemma draftTags_join:
  assumes "list_all plainTag ts"
  shows "draftTags (joinWith '', '' ts) = ts"
proof (cases ts)
  case Nil
  have "draftTags [] = []" by code_simp
  then show ?thesis unfolding Nil by simp
next
  case (Cons t us)
  have split: "splitOn CHR '','' (joinWith '', '' (t # us)) = t # map ((#) (CHR '' '')) us"
    unfolding joinWith_comma_blank using assms Cons
    by (intro splitOn_join) (auto simp: list_all_iff plainTag_def)
  have "map trim (t # map ((#) (CHR '' '')) us) = t # us"
    using assms Cons by (auto simp: list_all_iff plainTag_def trim_blank trim_id comp_def map_idI)
  moreover have "filter (\<lambda>t. t \<noteq> []) (t # us) = t # us"
    using assms Cons by (auto simp: list_all_iff plainTag_def filter_id_conv)
  ultimately show ?thesis unfolding Cons draftTags_def split by simp
qed

text \<open>A node as the editor can show it: a whole number of gibibytes, tags without commas or outer blanks.\<close>

definition plainNode :: "layout_node \<Rightarrow> bool" where
  "plainNode n \<longleftrightarrow> lnRole n \<noteq> Some [] \<and> lnZone n \<noteq> Some [] \<and>
     (case lnTags n of None \<Rightarrow> True | Some ts \<Rightarrow> ts \<noteq> [] \<and> list_all plainTag ts) \<and>
     (case lnCapacity n of None \<Rightarrow> True | Some c \<Rightarrow> 0 < c \<and> 2 ^ 30 dvd c)"

lemma gbText_whole: "0 < k \<Longrightarrow> gbText (Some (k * 2 ^ 30)) = dec k"
  by (simp add: gbText_def)

lemma orUndefined_case: "x \<noteq> Some [] \<Longrightarrow> orUndefined (case x of None \<Rightarrow> [] | Some s \<Rightarrow> s) = x"
  by (cases x) (simp_all add: orUndefined_def)

text \<open>
  The row of a node parses back to the node: for every node with a whole number of
  gibibytes and plain tags, the change read off the fields the row shows carries exactly the role, the zone, the
  capacity in bytes and the tags the node has, when \<open>parseFloat\<close> reads a decimal numeral as its number and an empty
  field as \<open>NaN\<close>.
\<close>

theorem layout_row_roundtrip:
  assumes "plainNode n" and "\<And>k. pf (dec k) = Some (of_nat k)" and "pf [] = None"
  shows "changeOf pf (lnId n) (fallbackDraft n) = \<lparr>lcNode = lnId n, lcRole = lnRole n, lcZone = lnZone n,
    lcCapacity = map_option int (lnCapacity n), lcTags = lnTags n\<rparr>"
proof -
  have tags: "orUndefined (draftTags (joinWith '', '' (case lnTags n of None \<Rightarrow> [] | Some ts \<Rightarrow> ts))) = lnTags n"
    using assms(1) draftTags_join [of "[]"]
    by (cases "lnTags n") (simp_all add: plainNode_def draftTags_join orUndefined_def)
  have cap: "(case pf (gbText (lnCapacity n)) of None \<Rightarrow> None | Some x \<Rightarrow> Some \<lfloor>x * 1024 ^ 3 + 1 / 2\<rfloor>) = map_option int (lnCapacity n)"
  proof (cases "lnCapacity n")
    case None
    then show ?thesis using assms(3) by (simp add: gbText_def)
  next
    case (Some c)
    with assms(1) obtain k where k: "c = k * 2 ^ 30" "0 < k" by (auto simp: plainNode_def elim!: dvdE)
    have "\<lfloor>(of_nat k :: rat) * 1024 ^ 3 + 1 / 2\<rfloor> = int k * 1024 ^ 3"
      by (intro floor_unique) simp_all
    moreover have "gbText (lnCapacity n) = dec k" unfolding Some k(1) using k(2) by (rule gbText_whole)
    ultimately show ?thesis using Some k assms(2) by simp
  qed
  show ?thesis using assms(1) tags cap
    by (simp add: changeOf_def fallbackDraft_def orUndefined_case plainNode_def)
qed

section \<open>Where a draft comes from\<close>

definition blankDraft :: row_draft where
  "blankDraft = \<lparr>rdRole = [], rdZone = [], rdCapacityGB = [], rdTags = []\<rparr>"

lemma fallback_blank: "fallbackDraft noFallback = blankDraft"
  by (simp add: fallbackDraft_def noFallback_def blankDraft_def gbText_def)

text \<open>The edits the rows took, in order: those of shown rows, with an offered role.\<close>

fun editsTaken :: "(string \<Rightarrow> rat option) \<Rightarrow> layout_event list \<Rightarrow> layout_page \<Rightarrow> (string \<times> row_patch) list" where
  "editsTaken pf [] p = []"
| "editsTaken pf (e # es) p =
     (case e of EditRow i q \<Rightarrow> (if rowShown p i \<and> offeredPatch q then [(i, q)] else []) | _ \<Rightarrow> []) @
     editsTaken pf es (fst (layoutStep pf e p))"

definition draftOf :: "(string \<times> row_patch) list \<Rightarrow> string \<Rightarrow> row_draft" where
  "draftOf qs i = foldl (\<lambda>d (j, q). if j = i then patched q d else d) blankDraft qs"

lemma layoutStep_draft:
  "getDraft (lpDrafts (fst (layoutStep pf e p))) i noFallback =
   foldl (\<lambda>d (j, q). if j = i then patched q d else d) (getDraft (lpDrafts p) i noFallback)
     (case e of EditRow i q \<Rightarrow> (if rowShown p i \<and> offeredPatch q then [(i, q)] else []) | _ \<Rightarrow> [])"
  by (cases e) (auto simp: setDraft_def getDraft_def)

lemma run_draft:
  "getDraft (lpDrafts (foldl (\<lambda>p e. fst (layoutStep pf e p)) p es)) i noFallback =
   foldl (\<lambda>d (j, q). if j = i then patched q d else d) (getDraft (lpDrafts p) i noFallback) (editsTaken pf es p)"
  by (induction es arbitrary: p) (simp_all only: foldl_Nil foldl_Cons editsTaken.simps foldl_append layoutStep_draft)

text \<open>
  C29. The request of a row is a function of what was typed into that row and nothing else:
  after any run, pressing Stage on a shown row (while no other stage request is pending) makes exactly one request,
  for that node, whose fields are read off a blank draft with the edits of that row applied in order. Neither the
  edits of other rows nor any refetch of the layout reaches it.
\<close>

theorem stage_sends_typed_fields:
  assumes "p = layoutAfter pf es" and "rowShown p i" and "\<not> lpStaging p"
  shows "snd (layoutStep pf (PressStage i) p) = [StageRow (changeOf pf i (draftOf (editsTaken pf es openLayout) i))]"
proof -
  have "getDraft (lpDrafts p) i noFallback = draftOf (editsTaken pf es openLayout) i"
    unfolding assms(1) layoutAfter_def run_draft draftOf_def
    by (simp add: openLayout_def getDraft_def fallback_blank)
  then show ?thesis using assms(2,3) by simp
qed


theorem stage_sends_typed_fields_witness:
  "snd (layoutStep (\<lambda>s. None) (PressStage ''n1'') (layoutAfter (\<lambda>s. None)
     [LayoutLoads [\<lparr>lnId = ''n1'', lnRole = Some ''storage'', lnZone = Some ''dc1'', lnCapacity = Some (2 ^ 30), lnTags = None\<rparr>] [],
      EditRow ''n1'' (PatchZone ''dc2''), EditRow ''n1'' (PatchTags ''ssd, fast'')])) =
   [StageRow \<lparr>lcNode = ''n1'', lcRole = None, lcZone = Some ''dc2'', lcCapacity = None, lcTags = Some [''ssd'', ''fast'']\<rparr>]"
proof -
  let ?pf = "\<lambda>s :: string. None :: rat option"
  let ?es = "[LayoutLoads [\<lparr>lnId = ''n1'', lnRole = Some ''storage'', lnZone = Some ''dc1'', lnCapacity = Some (2 ^ 30), lnTags = None\<rparr>] [],
      EditRow ''n1'' (PatchZone ''dc2''), EditRow ''n1'' (PatchTags ''ssd, fast'')]"
  have shown: "rowShown (layoutAfter ?pf ?es) ''n1''" "\<not> lpStaging (layoutAfter ?pf ?es)"
    by (simp_all add: layoutAfter_def rowShown_def openLayout_def)
  have edits: "draftOf (editsTaken ?pf ?es openLayout) ''n1'' =
      \<lparr>rdRole = [], rdZone = ''dc2'', rdCapacityGB = [], rdTags = ''ssd, fast''\<rparr>"
    by (simp add: rowShown_def openLayout_def draftOf_def blankDraft_def)
  have tags: "draftTags ''ssd, fast'' = [''ssd'', ''fast'']" by code_simp
  show ?thesis unfolding stage_sends_typed_fields [OF refl shown] edits
    by (simp add: changeOf_def orUndefined_def tags)
qed

theorem layout_row_roundtrip_witness:
  "\<exists>pf. changeOf pf ''n1'' (fallbackDraft \<lparr>lnId = ''n1'', lnRole = Some ''storage'', lnZone = Some ''dc1'',
      lnCapacity = Some (3 * 2 ^ 30), lnTags = Some [''ssd'', ''fast'']\<rparr>) =
    \<lparr>lcNode = ''n1'', lcRole = Some ''storage'', lcZone = Some ''dc1'', lcCapacity = Some (int (3 * 2 ^ 30)),
      lcTags = Some [''ssd'', ''fast'']\<rparr>"
proof -
  let ?pf = "\<lambda>s. if s = [] then None else Some (of_int (digitsValue s) :: rat)"
  let ?n = "\<lparr>lnId = ''n1'', lnRole = Some ''storage'', lnZone = Some ''dc1'',
      lnCapacity = Some (3 * 2 ^ 30), lnTags = Some [''ssd'', ''fast'']\<rparr>"
  have tags: "plainTag ''ssd''" "plainTag ''fast''" by code_simp+
  have "plainNode ?n" using tags by (simp add: plainNode_def)
  moreover have "?pf (dec k) = Some (of_nat k)" for k using digits_dec [of k] by simp
  ultimately have "changeOf ?pf (lnId ?n) (fallbackDraft ?n) = \<lparr>lcNode = lnId ?n, lcRole = lnRole ?n, lcZone = lnZone ?n,
    lcCapacity = map_option int (lnCapacity ?n), lcTags = lnTags ?n\<rparr>"
    by (intro layout_row_roundtrip) simp_all
  then show ?thesis by (intro exI [of _ ?pf]) simp
qed

section \<open>Applying and reverting\<close>

lemma revert_open_staged:
  "lpRevertOpen (layoutAfter pf es) \<Longrightarrow>
   \<exists>es1 es2. es = es1 @ PressRevert # es2 \<and> lpStaged (layoutAfter pf es1) \<noteq> [] \<and>
     DismissRevert \<notin> set es2 \<and> ConfirmRevert \<notin> set es2"
proof (induction es rule: rev_induct)
  case Nil
  then show ?case by (simp add: layoutAfter_def openLayout_def)
next
  case (snoc e es)
  show ?case
  proof (cases "e = PressRevert \<and> lpStaged (layoutAfter pf es) \<noteq> []")
    case True
    then show ?thesis by (intro exI [of _ es] exI [of _ "[]"]) simp
  next
    case False
    with snoc.prems have "lpRevertOpen (layoutAfter pf es)" "e \<noteq> DismissRevert" "e \<noteq> ConfirmRevert"
      by (cases e; simp add: layoutAfter_snoc split: if_splits)+
    with snoc.IH obtain es1 es2 where "es = es1 @ PressRevert # es2" "lpStaged (layoutAfter pf es1) \<noteq> []"
      "DismissRevert \<notin> set es2" "ConfirmRevert \<notin> set es2" by blast
    with \<open>e \<noteq> DismissRevert\<close> \<open>e \<noteq> ConfirmRevert\<close> show ?thesis
      by (intro exI [of _ es1] exI [of _ "es2 @ [e]"]) simp
  qed
qed

text \<open>
  Whatever is loaded, typed and pressed: the layout is applied only by a press of Apply
  while the page shows staged nodes and no application is pending; it is reverted only by confirming a dialog that
  was opened while staged nodes were shown and was not answered since.
\<close>

theorem layout_change_needs_staged:
  assumes "r \<in> set (snd (layoutStep pf e (layoutAfter pf es)))"
  shows "(r = ApplyStaged \<longrightarrow> e = PressApply \<and> lpStaged (layoutAfter pf es) \<noteq> [] \<and> \<not> lpApplying (layoutAfter pf es)) \<and>
    (r = RevertStaged \<longrightarrow> e = ConfirmRevert \<and>
      (\<exists>es1 es2. es = es1 @ PressRevert # es2 \<and> lpStaged (layoutAfter pf es1) \<noteq> [] \<and>
         DismissRevert \<notin> set es2 \<and> ConfirmRevert \<notin> set es2))"
proof (cases "r = RevertStaged")
  case True
  with assms have "e = ConfirmRevert" "lpRevertOpen (layoutAfter pf es)" by (cases e; simp split: if_splits)+
  with revert_open_staged True show ?thesis by simp
next
  case False
  with assms show ?thesis by (cases e) (simp_all split: if_splits)
qed

theorem layout_change_needs_staged_witness:
  "\<exists>es1 es2. [LayoutLoads [] [noFallback], PressRevert, LayoutLoads [] []] = es1 @ PressRevert # es2 \<and>
     lpStaged (layoutAfter (\<lambda>s. None) es1) \<noteq> []"
proof -
  have "RevertStaged \<in> set (snd (layoutStep (\<lambda>s. None) ConfirmRevert
    (layoutAfter (\<lambda>s. None) [LayoutLoads [] [noFallback], PressRevert, LayoutLoads [] []])))"
    by (simp add: layoutAfter_def openLayout_def)
  from layout_change_needs_staged [OF this] show ?thesis by blast
qed

section \<open>Behaviour a user meets\<close>

text \<open>The first edit of a row blanks its other fields: \<open>setDraft\<close> and \<open>handleStage\<close> pass no fallback to \<open>getDraft\<close>.\<close>

lemma first_edit_blanks_other_fields:
  assumes "lpDrafts p (lnId n) = None" "rowShown p (lnId n)"
  shows "getDraft (lpDrafts (fst (layoutStep pf (EditRow (lnId n) (PatchZone z)) p))) (lnId n) n =
    \<lparr>rdRole = [], rdZone = z, rdCapacityGB = [], rdTags = []\<rparr>"
  using assms by (simp add: setDraft_def getDraft_def fallback_blank blankDraft_def)

text \<open>Stage on a row nobody edited sends no field at all, whatever the row shows.\<close>

lemma unedited_row_stages_nothing:
  assumes "lpDrafts p i = None" "rowShown p i" "\<not> lpStaging p" "pf [] = None"
  shows "snd (layoutStep pf (PressStage i) p) =
    [StageRow \<lparr>lcNode = i, lcRole = None, lcZone = None, lcCapacity = None, lcTags = None\<rparr>]"
proof -
  have "draftTags [] = []" by code_simp
  with assms show ?thesis by (simp add: getDraft_def fallback_blank blankDraft_def changeOf_def orUndefined_def)
qed

text \<open>The option \<open>unassigned\<close> is the empty string, which the request leaves out: no choice removes a role.\<close>

lemma unassign_never_sent: "lcRole (changeOf pf i (patched (PatchRole '''') d)) = None"
  by (simp add: changeOf_def orUndefined_def)

end
