(* ===== verification/Audit_Log.thy ===== *)
theory Audit_Log
  imports Admin_Hooks
begin

text \<open>
  The audit log page (\<open>routes/admin/audit.tsx\<close>): the filter form, the pages of the answer, the export of the
  page on screen as a CSV table, and the times of the rows. \<open>Number(s)\<close> is a parameter (\<open>None\<close> is \<open>NaN\<close>),
  restricted to whole numbers; so are the two dates of the default window, \<open>new Date(s).getTime()\<close> and
  \<open>toLocaleDateString\<close>.
\<close>

section \<open>Events and their export\<close>

record audit_event =
  aeTime :: string
  aeActor :: string
  aeActorRole :: "string option"
  aeAction :: string
  aeResource :: string
  aeResult :: string
  aeDetail :: "string option"
  aeIp :: "string option"
  aeUserAgent :: "string option"

definition AUDIT_HEADER :: "string list" where
  "AUDIT_HEADER = [''time'', ''actor'', ''actorRole'', ''action'', ''resource'', ''result'', ''detail'', ''ip'', ''userAgent'']"

text \<open>The property of an event by its name.\<close>

definition auditField :: "audit_event \<Rightarrow> string \<Rightarrow> string option" where
  "auditField e h =
     (if h = ''time'' then Some (aeTime e) else if h = ''actor'' then Some (aeActor e)
      else if h = ''actorRole'' then aeActorRole e else if h = ''action'' then Some (aeAction e)
      else if h = ''resource'' then Some (aeResource e) else if h = ''result'' then Some (aeResult e)
      else if h = ''detail'' then aeDetail e else if h = ''ip'' then aeIp e
      else if h = ''userAgent'' then aeUserAgent e else None)"

abbreviation QUOTE :: char where "QUOTE \<equiv> CHR 0x22"

definition doubledQuotes :: "string \<Rightarrow> string" where
  "doubledQuotes s = concat (map (\<lambda>c. if c = QUOTE then [QUOTE, QUOTE] else [c]) s)"

definition needsQuotes :: "string \<Rightarrow> bool" where
  "needsQuotes s \<longleftrightarrow> list_ex (\<lambda>c. c = QUOTE \<or> c = CHR '','' \<or> c = LF) s"

definition csvEscape :: "string option \<Rightarrow> string" where
  "csvEscape v = (case v of None \<Rightarrow> []
     | Some s \<Rightarrow> if needsQuotes s then QUOTE # doubledQuotes s @ [QUOTE] else s)"

definition exportCSV :: "audit_event list \<Rightarrow> string" where
  "exportCSV events = joinWith [LF] (joinWith '','' AUDIT_HEADER #
     map (\<lambda>e. joinWith '','' (map (\<lambda>h. csvEscape (auditField e h)) AUDIT_HEADER)) events)"

section \<open>The filter and the pages\<close>

record audit_filter =
  afFrom :: string
  afTo :: string
  afActor :: string
  afAction :: string
  afResource :: string
  afResult :: string
  afLimit :: int

definition DEFAULT_PAGE_SIZE :: int where
  "DEFAULT_PAGE_SIZE = 50"

text \<open>The window is the pair of dates \<open>defaultFrom()\<close>, \<open>defaultTo()\<close>.\<close>

definition defaultFilter :: "string \<times> string \<Rightarrow> audit_filter" where
  "defaultFilter window = \<lparr>afFrom = fst window, afTo = snd window, afActor = [], afAction = [], afResource = [],
     afResult = [], afLimit = DEFAULT_PAGE_SIZE\<rparr>"

definition effectiveFilter :: "audit_filter \<Rightarrow> nat \<Rightarrow> AuditFilter" where
  "effectiveFilter f off = [(''from'', JStr (afFrom f)), (''to'', JStr (afTo f)), (''actor'', JStr (afActor f)),
     (''action'', JStr (afAction f)), (''resource'', JStr (afResource f)), (''result'', JStr (afResult f)),
     (''limit'', JNum (afLimit f)), (''offset'', JNum (int off))]"

record audit_answer =
  arEvents :: "audit_event list"
  arTotal :: nat
  arOffset :: nat
  arLimit :: nat

text \<open>\<open>adAnswer\<close> is the answer to the filter and offset of the page; another pair has none until it arrives.\<close>

record audit_page =
  adDraft :: audit_filter
  adFilter :: audit_filter
  adOffset :: nat
  adAnswer :: "audit_answer option"

definition openAudit :: "string \<times> string \<Rightarrow> audit_page" where
  "openAudit window = \<lparr>adDraft = defaultFilter window, adFilter = defaultFilter window, adOffset = 0, adAnswer = None\<rparr>"

definition shownEvents :: "audit_page \<Rightarrow> audit_event list" where
  "shownEvents p = (case adAnswer p of None \<Rightarrow> [] | Some r \<Rightarrow> arEvents r)"

text \<open>The bar under the table; it is shown when the answer counts at least one event.\<close>

definition hasPrev :: "audit_answer \<Rightarrow> bool" where
  "hasPrev r \<longleftrightarrow> arTotal r \<noteq> 0 \<and> 0 < arOffset r"

definition hasNextAudit :: "audit_answer \<Rightarrow> bool" where
  "hasNextAudit r \<longleftrightarrow> arTotal r \<noteq> 0 \<and> arOffset r + length (arEvents r) < arTotal r"

definition barStart :: "audit_answer \<Rightarrow> nat" where
  "barStart r = (if arEvents r = [] then 0 else arOffset r + 1)"

definition barPage :: "audit_answer \<Rightarrow> nat" where
  "barPage r = arOffset r div max 1 (arLimit r) + 1"

definition barPages :: "audit_answer \<Rightarrow> nat" where
  "barPages r = max 1 ((arTotal r + max 1 (arLimit r) - 1) div max 1 (arLimit r))"

datatype audit_edit = AuditFrom string | AuditTo string | AuditActor string | AuditAction string
  | AuditResource string | AuditResult string | AuditLimit string

fun editAudit :: "(string \<Rightarrow> int option) \<Rightarrow> audit_edit \<Rightarrow> audit_filter \<Rightarrow> audit_filter" where
  "editAudit num (AuditFrom s) f = f\<lparr>afFrom := s\<rparr>"
| "editAudit num (AuditTo s) f = f\<lparr>afTo := s\<rparr>"
| "editAudit num (AuditActor s) f = f\<lparr>afActor := s\<rparr>"
| "editAudit num (AuditAction s) f = f\<lparr>afAction := s\<rparr>"
| "editAudit num (AuditResource s) f = f\<lparr>afResource := s\<rparr>"
| "editAudit num (AuditResult s) f = f\<lparr>afResult := s\<rparr>"
| "editAudit num (AuditLimit s) f =
     f\<lparr>afLimit := (case num s of None \<Rightarrow> DEFAULT_PAGE_SIZE | Some n \<Rightarrow> if n = 0 then DEFAULT_PAGE_SIZE else n)\<rparr>"

datatype audit_step =
    EditAudit audit_edit
  | PressSearch
  | PressReset "string \<times> string"
  | AuditArrives audit_answer
  | PressPrev
  | PressNext

definition goAudit :: "audit_filter \<Rightarrow> nat \<Rightarrow> audit_page \<Rightarrow> audit_page" where
  "goAudit f off p = p\<lparr>adFilter := f, adOffset := off,
     adAnswer := (if f = adFilter p \<and> off = adOffset p then adAnswer p else None)\<rparr>"

fun auditStep :: "(string \<Rightarrow> int option) \<Rightarrow> audit_step \<Rightarrow> audit_page \<Rightarrow> audit_page" where
  "auditStep num (EditAudit e) p = p\<lparr>adDraft := editAudit num e (adDraft p)\<rparr>"
| "auditStep num PressSearch p = goAudit (adDraft p) 0 p"
| "auditStep num (PressReset window) p = goAudit (defaultFilter window) 0 (p\<lparr>adDraft := defaultFilter window\<rparr>)"
| "auditStep num (AuditArrives r) p = p\<lparr>adAnswer := Some r\<rparr>"
| "auditStep num PressPrev p = (case adAnswer p of None \<Rightarrow> p
     | Some r \<Rightarrow> if hasPrev r then goAudit (adFilter p) (arOffset r - arLimit r) p else p)"
| "auditStep num PressNext p = (case adAnswer p of None \<Rightarrow> p
     | Some r \<Rightarrow> if hasNextAudit r then goAudit (adFilter p) (arOffset r + arLimit r) p else p)"

definition auditQuery :: "audit_page \<Rightarrow> query" where
  "auditQuery p = useAudit (effectiveFilter (adFilter p) (adOffset p))"

section \<open>The time of a row\<close>

definition relativeTime :: "(string \<Rightarrow> int option) \<Rightarrow> (int \<Rightarrow> string) \<Rightarrow> int \<Rightarrow> string \<Rightarrow> string" where
  "relativeTime parse localeDate now i =
     (case parse i of None \<Rightarrow> i
      | Some t \<Rightarrow>
          (let diffSec = (now - t) div 1000; diffMin = diffSec div 60; diffHr = diffMin div 60; diffDay = diffHr div 24
           in if diffSec < 5 then ''just now'' else if diffSec < 60 then decInt diffSec @ ''s ago''
              else if diffMin < 60 then decInt diffMin @ ''m ago'' else if diffHr < 24 then decInt diffHr @ ''h ago''
              else if diffDay = 1 then ''yesterday'' else if diffDay < 7 then decInt diffDay @ ''d ago''
              else localeDate t))"

section \<open>Reading the table back\<close>

text \<open>
  The reading of a CSV table after RFC 4180, with line feeds: where a cell starts, a quotation mark opens a quoted
  cell; inside it a doubled quotation mark stands for one.
\<close>

datatype csv_mode = CellStart | Plain | Quoted | QuoteSeen

fun readCSV :: "csv_mode \<Rightarrow> string \<Rightarrow> string list \<Rightarrow> string \<Rightarrow> string list list" where
  "readCSV m cell row [] = [row @ [cell]]"
| "readCSV m cell row (c # cs) =
     (if m = Quoted then (if c = QUOTE then readCSV QuoteSeen cell row cs else readCSV Quoted (cell @ [c]) row cs)
      else if c = CHR '','' then readCSV CellStart [] (row @ [cell]) cs
      else if c = LF then (row @ [cell]) # readCSV CellStart [] [] cs
      else if c = QUOTE \<and> m = CellStart then readCSV Quoted cell row cs
      else if c = QUOTE \<and> m = QuoteSeen then readCSV Quoted (cell @ [c]) row cs
      else readCSV Plain (cell @ [c]) row cs)"

definition cellText :: "string option \<Rightarrow> string" where
  "cellText v = (case v of None \<Rightarrow> [] | Some s \<Rightarrow> s)"

lemma read_plain:
  assumes "list_all (\<lambda>c. c \<noteq> QUOTE \<and> c \<noteq> CHR '','' \<and> c \<noteq> LF) s" and "m = CellStart \<or> m = Plain"
  shows "readCSV m cell row (s @ rest) = readCSV (if s = [] then m else Plain) (cell @ s) row rest"
  using assms
proof (induction s arbitrary: cell m)
  case Nil
  then show ?case by simp
next
  case (Cons c s)
  then have "readCSV m cell row ((c # s) @ rest) = readCSV Plain (cell @ [c]) row (s @ rest)" by auto
  also have "\<dots> = readCSV Plain ((cell @ [c]) @ s) row rest" using Cons by simp
  finally show ?case by simp
qed

lemma read_quoted: "readCSV Quoted cell row (doubledQuotes s @ rest) = readCSV Quoted (cell @ s) row rest"
  by (induction s arbitrary: cell) (simp_all add: doubledQuotes_def)

text \<open>What follows a cell: nothing, a comma or a line feed.\<close>

fun atBoundary :: "string \<Rightarrow> bool" where
  "atBoundary [] = True"
| "atBoundary (c # _) = (c = CHR '','' \<or> c = LF)"

lemma read_comma: "m \<noteq> Quoted \<Longrightarrow> readCSV m cell row (CHR '','' # cs) = readCSV CellStart [] (row @ [cell]) cs"
  by simp

lemma read_line: "m \<noteq> Quoted \<Longrightarrow> readCSV m cell row (LF # cs) = (row @ [cell]) # readCSV CellStart [] [] cs"
  by simp

lemma boundary_mode:
  assumes "atBoundary rest" and "m \<noteq> Quoted"
  shows "readCSV m cell row rest = readCSV Plain cell row rest"
proof (cases rest)
  case Nil
  then show ?thesis by simp
next
  case (Cons c cs)
  with assms(1) consider "c = CHR '',''" | "c = LF" by (auto simp only: atBoundary.simps)
  then show ?thesis
    by cases (use Cons assms(2) in \<open>simp_all only: read_comma read_line csv_mode.distinct not_False_eq_True simp_thms\<close>)
qed

lemma read_cell: "atBoundary rest \<Longrightarrow> readCSV CellStart [] row (csvEscape v @ rest) = readCSV Plain (cellText v) row rest"
proof (cases v)
  case None
  then show "atBoundary rest \<Longrightarrow> ?thesis" by (simp add: csvEscape_def cellText_def boundary_mode [of rest CellStart])
next
  case (Some s)
  assume b: "atBoundary rest"
  show ?thesis
  proof (cases "needsQuotes s")
    case True
    have "readCSV CellStart [] row (csvEscape v @ rest) = readCSV Quoted [] row (doubledQuotes s @ QUOTE # rest)"
      using Some True by (simp add: csvEscape_def)
    also have "\<dots> = readCSV Quoted s row (QUOTE # rest)" unfolding read_quoted by simp
    also have "\<dots> = readCSV QuoteSeen s row rest" by simp
    finally show ?thesis using Some b by (simp add: cellText_def boundary_mode [of rest QuoteSeen])
  next
    case False
    then have "list_all (\<lambda>c. c \<noteq> QUOTE \<and> c \<noteq> CHR '','' \<and> c \<noteq> LF) s"
      by (simp add: needsQuotes_def list_all_iff list_ex_iff)
    with Some False b show ?thesis
      by (simp add: csvEscape_def read_plain cellText_def boundary_mode [of rest CellStart])
  qed
qed

lemma read_row:
  assumes "vs \<noteq> []" and "rest = [] \<or> hd rest = LF"
  shows "readCSV CellStart [] row (joinWith '','' (map csvEscape vs) @ rest) =
    (case rest of [] \<Rightarrow> [row @ map cellText vs] | _ # cs \<Rightarrow> (row @ map cellText vs) # readCSV CellStart [] [] cs)"
  using assms(1)
proof (induction vs arbitrary: row)
  case Nil
  then show ?case by simp
next
  case (Cons v vs)
  show ?case
  proof (cases vs)
    case Nil
    have "atBoundary rest" using assms(2) by (cases rest) auto
    then have "readCSV CellStart [] row (csvEscape v @ rest) = readCSV Plain (cellText v) row rest" by (rule read_cell)
    with Nil assms(2) show ?thesis by (cases rest) simp_all
  next
    case (Cons v' vs')
    have "readCSV CellStart [] row (csvEscape v @ CHR '','' # joinWith '','' (map csvEscape vs) @ rest) =
      readCSV CellStart [] (row @ [cellText v]) (joinWith '','' (map csvEscape vs) @ rest)"
      by (simp add: read_cell)
    with Cons Cons.IH show ?thesis by (simp split: list.split)
  qed
qed


lemma header_plain: "map (\<lambda>h. csvEscape (Some h)) AUDIT_HEADER = AUDIT_HEADER"
  by code_simp

lemma joinWith_cons: "ws \<noteq> [] \<Longrightarrow> joinWith d (w # ws) = w @ d @ joinWith d ws"
  by (cases ws) simp_all

lemma read_table:
  assumes "vs \<noteq> []" and "\<forall>r \<in> set rows. r \<noteq> []"
  shows "readCSV CellStart [] [] (joinWith [LF] (map (\<lambda>r. joinWith '','' (map csvEscape r)) (vs # rows))) =
    map (map cellText) (vs # rows)"
  using assms
proof (induction rows arbitrary: vs)
  case Nil
  then show ?case using read_row [of vs "[]" "[]"] by simp
next
  case (Cons r rows)
  have "joinWith [LF] (map (\<lambda>r. joinWith '','' (map csvEscape r)) (vs # r # rows)) =
    joinWith '','' (map csvEscape vs) @ LF # joinWith [LF] (map (\<lambda>r. joinWith '','' (map csvEscape r)) (r # rows))"
    by simp
  then show ?case using Cons by (simp only: read_row) (simp add: read_row)
qed

text \<open>
  C34. The exported table is a well-formed CSV table of exactly the events on the page: read with the
  quoting rules of RFC 4180 it gives the header and then one row per event, in order, with the text of each of the
  nine properties (nothing where a property is missing), whatever quotation marks, commas and line feeds the
  resources, details and user agents contain.
\<close>

theorem export_roundtrip:
  "readCSV CellStart [] [] (exportCSV events) =
   AUDIT_HEADER # map (\<lambda>e. map (\<lambda>h. cellText (auditField e h)) AUDIT_HEADER) events"
proof -
  let ?rows = "map (\<lambda>e. map (auditField e) AUDIT_HEADER) events"
  have "exportCSV events = joinWith [LF] (map (\<lambda>r. joinWith '','' (map csvEscape r)) (map Some AUDIT_HEADER # ?rows))"
    using header_plain by (simp add: exportCSV_def comp_def)
  moreover have "map cellText (map Some AUDIT_HEADER) = AUDIT_HEADER" by (simp add: cellText_def comp_def)
  moreover have "AUDIT_HEADER \<noteq> []" by (simp add: AUDIT_HEADER_def)
  ultimately show ?thesis using read_table [of "map Some AUDIT_HEADER" ?rows] by (simp add: comp_def)
qed

section \<open>Walking the pages\<close>

text \<open>
  The answer of the server, \<open>listAuditHandler\<close> over a log that does not grow meanwhile: a limit that is not
  positive counts as 50, one above a thousand as a thousand.
\<close>

definition servedLimit :: "int \<Rightarrow> nat" where
  "servedLimit limit = (if limit \<le> 0 then 50 else min 1000 (nat limit))"

definition auditServes :: "audit_event list \<Rightarrow> int \<Rightarrow> nat \<Rightarrow> audit_answer" where
  "auditServes log limit off =
     \<lparr>arEvents = take (servedLimit limit) (drop off log), arTotal = length log, arOffset = off, arLimit = servedLimit limit\<rparr>"

lemma servedLimit_pos: "0 < servedLimit limit"
  by (simp add: servedLimit_def)

definition answered :: "audit_event list \<Rightarrow> audit_page \<Rightarrow> audit_page" where
  "answered log p = p\<lparr>adAnswer := Some (auditServes log (afLimit (adFilter p)) (adOffset p))\<rparr>"

text \<open>What is seen by pressing Next, and waiting for the answer, as long as the button is on (at most \<open>n\<close> times).\<close>

primrec walkAudit :: "(string \<Rightarrow> int option) \<Rightarrow> audit_event list \<Rightarrow> nat \<Rightarrow> audit_page \<Rightarrow> audit_event list" where
  "walkAudit num log 0 p = shownEvents p"
| "walkAudit num log (Suc n) p = shownEvents p @
     (if (case adAnswer p of None \<Rightarrow> False | Some r \<Rightarrow> hasNextAudit r)
      then walkAudit num log n (answered log (auditStep num PressNext p)) else [])"

lemma walk_rest:
  assumes "adAnswer p = Some (auditServes log (afLimit (adFilter p)) (adOffset p))"
    and "length log \<le> adOffset p + n"
  shows "walkAudit num log n p = drop (adOffset p) log"
  using assms
proof (induction n arbitrary: p)
  case 0
  then show ?case by (simp add: shownEvents_def auditServes_def)
next
  case (Suc n)
  let ?l = "servedLimit (afLimit (adFilter p))"
  let ?r = "auditServes log (afLimit (adFilter p)) (adOffset p)"
  have l: "0 < ?l" by (rule servedLimit_pos)
  have r: "arEvents ?r = take ?l (drop (adOffset p) log)" "arTotal ?r = length log" "arOffset ?r = adOffset p" "arLimit ?r = ?l"
    by (simp_all add: auditServes_def)
  have more: "hasNextAudit ?r \<longleftrightarrow> adOffset p + ?l < length log"
    using l unfolding hasNextAudit_def r by (auto simp: min_def)
  show ?case
  proof (cases "hasNextAudit ?r")
    case True
    let ?q = "answered log (auditStep num PressNext p)"
    have q: "adOffset ?q = adOffset p + ?l" "adFilter ?q = adFilter p"
      using Suc.prems(1) True r by (simp_all add: answered_def goAudit_def)
    have "adAnswer ?q = Some (auditServes log (afLimit (adFilter ?q)) (adOffset ?q))"
      by (simp add: answered_def)
    moreover have "length log \<le> adOffset ?q + n" unfolding q using Suc.prems(2) l by simp
    ultimately have "walkAudit num log n ?q = drop (adOffset ?q) log" by (rule Suc.IH)
    then have "walkAudit num log n ?q = drop ?l (drop (adOffset p) log)" unfolding q by (simp add: add.commute)
    moreover have "walkAudit num log (Suc n) p = take ?l (drop (adOffset p) log) @ walkAudit num log n ?q"
      using Suc.prems(1) True r by (simp add: shownEvents_def)
    ultimately have "walkAudit num log (Suc n) p = take ?l (drop (adOffset p) log) @ drop ?l (drop (adOffset p) log)" by simp
    then show ?thesis by (simp only: append_take_drop_id)
  next
    case False
    with more have "length (drop (adOffset p) log) \<le> ?l" by simp
    then show ?thesis using Suc.prems(1) False r by (simp add: shownEvents_def)
  qed
qed

text \<open>
  After a search is answered, pressing Next as long as the button is on comes to an end and
  shows every event that matched exactly once, newest first as the log has them, whatever page size was typed
  (zero, negative and huge ones included); and at every answered page Previous, pressed after Next, asks for that
  very page again.
\<close>

theorem audit_walk_complete:
  assumes "p = answered log (auditStep num PressSearch q)" and "length log \<le> n"
  shows "walkAudit num log n p = log \<and>
    (\<forall>c r. adAnswer c = Some r \<and> r = auditServes log (afLimit (adFilter c)) (adOffset c) \<and> hasNextAudit r \<longrightarrow>
       adOffset (auditStep num PressPrev (answered log (auditStep num PressNext c))) = adOffset c)"
proof -
  have "adOffset p = 0" "adAnswer p = Some (auditServes log (afLimit (adFilter p)) (adOffset p))"
    using assms(1) by (simp_all add: answered_def goAudit_def)
  with walk_rest [of p log n num] assms(2) have "walkAudit num log n p = log" by simp
  moreover have "adOffset (auditStep num PressPrev (answered log (auditStep num PressNext c))) = adOffset c"
    if "adAnswer c = Some (auditServes log (afLimit (adFilter c)) (adOffset c))"
      "hasNextAudit (auditServes log (afLimit (adFilter c)) (adOffset c))" for c
    using that by (auto simp: answered_def goAudit_def hasPrev_def hasNextAudit_def auditServes_def split: if_splits)
  ultimately show ?thesis by blast
qed


definition sampleEvent :: audit_event where
  "sampleEvent = \<lparr>aeTime = ''2026-05-21T00:00:00Z'', aeActor = ''root'', aeActorRole = None, aeAction = ''bucket:create'',
     aeResource = ''bucket:a'', aeResult = ''success'', aeDetail = None, aeIp = None, aeUserAgent = None\<rparr>"

theorem audit_walk_complete_witness:
  "walkAudit (\<lambda>s. Some 1) [sampleEvent, sampleEvent\<lparr>aeActor := ''wife''\<rparr>] 2
     (answered [sampleEvent, sampleEvent\<lparr>aeActor := ''wife''\<rparr>] (auditStep (\<lambda>s. Some 1) PressSearch
       (auditStep (\<lambda>s. Some 1) (EditAudit (AuditLimit ''1'')) (openAudit (''2026-05-20'', ''2026-05-21''))))) =
   [sampleEvent, sampleEvent\<lparr>aeActor := ''wife''\<rparr>]"
  using audit_walk_complete [OF refl, of "[sampleEvent, sampleEvent\<lparr>aeActor := ''wife''\<rparr>]" 2 "\<lambda>s. Some 1"
      "auditStep (\<lambda>s. Some 1) (EditAudit (AuditLimit ''1'')) (openAudit (''2026-05-20'', ''2026-05-21''))"]
  by simp

text \<open>
  The bar under the table tells the truth about a page the server served at a multiple of
  the page size: the first and last number lie within the total, the page number within the number of pages, Previous
  is off exactly on page one and Next exactly on the last page.
\<close>

theorem audit_bar_consistent:
  assumes "r = auditServes log limit (k * servedLimit limit)" and "k * servedLimit limit < length log"
  shows "1 \<le> barStart r \<and> barStart r \<le> arOffset r + length (arEvents r) \<and> arOffset r + length (arEvents r) \<le> arTotal r \<and>
    barPage r = k + 1 \<and> barPage r \<le> barPages r \<and> (hasPrev r \<longleftrightarrow> barPage r \<noteq> 1) \<and>
    (hasNextAudit r \<longleftrightarrow> barPage r < barPages r)"
proof -
  let ?l = "servedLimit limit"
  have l: "0 < ?l" by (rule servedLimit_pos)
  have r: "arEvents r = take ?l (drop (k * ?l) log)" "arTotal r = length log" "arOffset r = k * ?l" "arLimit r = ?l"
    unfolding assms(1) by (simp_all add: auditServes_def)
  have pages: "barPages r = max 1 ((length log + ?l - 1) div ?l)" unfolding barPages_def r using l by (simp add: max_def)
  have page: "barPage r = k + 1" unfolding barPage_def r using l by (simp add: max_def)
  have le: "m \<le> (length log + ?l - 1) div ?l \<longleftrightarrow> m * ?l \<le> length log + ?l - 1" for m
    using l by (simp add: less_eq_div_iff_mult_less_eq)
  have "k + 1 \<le> (length log + ?l - 1) div ?l" unfolding le using assms(2) l by simp
  moreover have "k + 2 \<le> (length log + ?l - 1) div ?l \<longleftrightarrow> (k + 1) * ?l < length log"
    unfolding le using l by (auto simp: algebra_simps)
  ultimately have *: "barPage r \<le> barPages r" "barPage r < barPages r \<longleftrightarrow> (k + 1) * ?l < length log"
    unfolding pages page by (simp_all add: max_def) (metis Suc_le_eq add_2_eq_Suc')
  have "hasNextAudit r \<longleftrightarrow> (k + 1) * ?l < length log"
    unfolding hasNextAudit_def r using assms(2) l by (auto simp: min_def algebra_simps)
  moreover have "arEvents r \<noteq> []" unfolding r using assms(2) l by simp
  moreover have "hasPrev r \<longleftrightarrow> k \<noteq> 0" unfolding hasPrev_def r using assms(2) l by auto
  ultimately show ?thesis using * page assms(2) l unfolding barStart_def r by (auto simp: min_def Suc_le_eq)
qed

theorem audit_bar_consistent_witness:
  "barPage (auditServes [sampleEvent, sampleEvent, sampleEvent] 2 2) = 2 \<and>
   \<not> hasNextAudit (auditServes [sampleEvent, sampleEvent, sampleEvent] 2 2)"
proof -
  have l: "servedLimit 2 = 2" by (simp add: servedLimit_def)
  have "barPages (auditServes [sampleEvent, sampleEvent, sampleEvent] 2 2) = 2"
    by (simp add: barPages_def auditServes_def l max_def numeral_2_eq_2 [symmetric] Suc_numeral [symmetric] del: Suc_numeral)
  then show ?thesis
    using audit_bar_consistent [of _ "[sampleEvent, sampleEvent, sampleEvent]" 2 1, OF refl] unfolding l by simp
qed

section \<open>Behaviour a user meets\<close>

text \<open>A carriage return does not put a cell into quotation marks; a reader that takes it for a line end splits the row.\<close>

lemma carriage_return_not_quoted: "\<not> needsQuotes [CR]"
  by (simp add: needsQuotes_def)

text \<open>
  A cell that a spreadsheet takes for a formula is exported as it is; a user agent is any text a client sends.
\<close>

lemma formula_cell_exported:
  "auditField (e\<lparr>aeUserAgent := Some ''=1+1''\<rparr>) ''userAgent'' = Some ''=1+1'' \<and> csvEscape (Some ''=1+1'') = ''=1+1''"
  by (simp add: auditField_def csvEscape_def needsQuotes_def)

text \<open>An event in the future, by the clock of the browser, happened just now.\<close>

lemma future_event_just_now: "parse i = Some t \<Longrightarrow> now < t \<Longrightarrow> relativeTime parse localeDate now i = ''just now''"
proof -
  assume "parse i = Some t" "now < t"
  moreover have "(now - t) div 1000 < 5" using \<open>now < t\<close> by (simp add: div_less_iff_less_mult)
  ultimately show ?thesis by (simp add: relativeTime_def Let_def)
qed

text \<open>Edits of the form are not sent: the pages of the table stay those of the last search.\<close>

lemma edits_wait_for_search: "auditQuery (auditStep num (EditAudit e) p) = auditQuery p"
  by (simp add: auditQuery_def)

end
