(* ===== verification/Usage_Page.thy ===== *)
theory Usage_Page
  imports Complex_Main Admin_Hooks
begin

text \<open>
  The usage overview (\<open>routes/admin/usage.tsx\<close>): the growth of the largest buckets, which the page fetches one by
  one into a registry, what it derives from them, and the line of a trend chart. A double is a rational number here;
  its rounding is not modelled. \<open>srv\<close> is what the series endpoint answers for a bucket and a window in days:
  \<open>None\<close> when the request fails or is refused.
\<close>

section \<open>Buckets and their growth\<close>

record usage_bucket =
  ubCluster :: string
  ubClusterLabel :: string
  ubBucket :: string
  ubAlias :: string
  ubBytes :: nat
  ubObjects :: nat

record usage_point =
  upTime :: string
  upBytes :: nat
  upObjects :: nat

datatype growth = Pct rat | FromZero

type_synonym series = "string \<Rightarrow> string \<Rightarrow> nat \<Rightarrow> usage_point list option"

definition usageKey :: "usage_bucket \<Rightarrow> string" where
  "usageKey r = ubCluster r @ ''|'' @ ubBucket r"

fun dedupKeys :: "string set \<Rightarrow> usage_bucket list \<Rightarrow> usage_bucket list" where
  "dedupKeys seen [] = []"
| "dedupKeys seen (r # rs) =
     (if usageKey r \<in> seen then dedupKeys seen rs else r # dedupKeys (insert (usageKey r) seen) rs)"

definition trackedBuckets :: "usage_bucket list \<Rightarrow> usage_bucket list \<Rightarrow> usage_bucket list" where
  "trackedBuckets byBytes byObjects = dedupKeys {} (byBytes @ byObjects)"

definition growthOf :: "nat \<Rightarrow> nat \<Rightarrow> growth" where
  "growthOf x y =
     (if x = 0 then (if 0 < y then FromZero else Pct 0) else Pct ((of_nat y - of_nat x) / of_nat x * 100))"

text \<open>The growth over the points of an answer; fewer than two have none.\<close>

definition seriesGrowth :: "usage_point list option \<Rightarrow> growth option" where
  "seriesGrowth ans = (case ans of None \<Rightarrow> None
     | Some pts \<Rightarrow> if length pts < 2 then None else Some (growthOf (upBytes (hd pts)) (upBytes (last pts))))"

section \<open>The registry\<close>

definition RANGE_OPTIONS :: "nat list" where
  "RANGE_OPTIONS = [7, 30, 90]"

text \<open>
  \<open>ugTodo\<close> and \<open>ugUpdates\<close> are the loop of the effect that runs now: the buckets still to be fetched and what was
  collected so far. A loop whose effect was cleaned up has no further effect on the page.
\<close>

record usage_page =
  ugBytes :: "usage_bucket list"
  ugObjects :: "usage_bucket list"
  ugRange :: nat
  ugRegistry :: "string \<rightharpoonup> growth"
  ugTodo :: "usage_bucket list"
  ugUpdates :: "(string \<times> growth) list"

definition ugTracked :: "usage_page \<Rightarrow> usage_bucket list" where
  "ugTracked p = trackedBuckets (ugBytes p) (ugObjects p)"

definition effectKey :: "usage_page \<Rightarrow> string" where
  "effectKey p = joinWith '','' (map usageKey (ugTracked p))"

text \<open>The effect starts with the registry of the rendering it belongs to.\<close>

definition startRun :: "(string \<rightharpoonup> growth) \<Rightarrow> usage_page \<Rightarrow> usage_page" where
  "startRun registry p = p\<lparr>ugTodo := filter (\<lambda>b. registry (usageKey b) = None) (ugTracked p), ugUpdates := []\<rparr>"

definition openUsage :: "usage_bucket list \<Rightarrow> usage_bucket list \<Rightarrow> usage_page" where
  "openUsage byBytes byObjects = startRun Map.empty
     \<lparr>ugBytes = byBytes, ugObjects = byObjects, ugRange = 7, ugRegistry = Map.empty, ugTodo = [], ugUpdates = []\<rparr>"

definition addUpdates :: "(string \<times> growth) list \<Rightarrow> (string \<rightharpoonup> growth) \<Rightarrow> (string \<rightharpoonup> growth)" where
  "addUpdates us m = foldl (\<lambda>m (k, v). m(k \<mapsto> v)) m us"

datatype usage_event = UsageArrives "usage_bucket list" "usage_bucket list" | PickRange nat | SeriesTick

text \<open>
  A change of the range runs both effects of the commit: the registry is emptied, and the loop starts with the
  registry of the rendering before that. \<open>SeriesTick\<close> is the answer to the request of the loop.
\<close>

fun usageStep :: "series \<Rightarrow> usage_event \<Rightarrow> usage_page \<Rightarrow> usage_page" where
  "usageStep srv (UsageArrives bs os) p =
     (let q = p\<lparr>ugBytes := bs, ugObjects := os\<rparr> in if effectKey q = effectKey p then q else startRun (ugRegistry p) q)"
| "usageStep srv (PickRange d) p =
     (if d \<in> set RANGE_OPTIONS \<and> d \<noteq> ugRange p
      then startRun (ugRegistry p) (p\<lparr>ugRange := d, ugRegistry := Map.empty\<rparr>) else p)"
| "usageStep srv SeriesTick p =
     (case ugTodo p of [] \<Rightarrow> p
      | b # bs \<Rightarrow>
          (let us = ugUpdates p @ (case seriesGrowth (srv (ubCluster b) (ubBucket b) (ugRange p)) of
                None \<Rightarrow> [] | Some g \<Rightarrow> [(usageKey b, g)])
           in if bs = [] then p\<lparr>ugTodo := [], ugUpdates := [], ugRegistry := addUpdates us (ugRegistry p)\<rparr>
              else p\<lparr>ugTodo := bs, ugUpdates := us\<rparr>))"

definition usageAfter :: "series \<Rightarrow> usage_bucket list \<Rightarrow> usage_bucket list \<Rightarrow> usage_event list \<Rightarrow> usage_page" where
  "usageAfter srv bs os es = foldl (\<lambda>p e. usageStep srv e p) (openUsage bs os) es"

text \<open>The request the loop waits for.\<close>

definition seriesRequest :: "(int \<Rightarrow> string) \<Rightarrow> int \<Rightarrow> usage_page \<Rightarrow> fetch_req option" where
  "seriesRequest toISOString now p = (case ugTodo p of [] \<Rightarrow> None
     | b # _ \<Rightarrow> Some (getReq (''/admin/usage/series?'' @
         searchParams (seriesParams toISOString now (ubCluster b) (ubBucket b) (Some (int (ugRange p)))))))"

section \<open>What is derived\<close>

definition addGrowth ::
  "(string \<rightharpoonup> growth) \<Rightarrow> (string \<rightharpoonup> rat \<times> rat) \<Rightarrow> usage_bucket \<Rightarrow> (string \<rightharpoonup> rat \<times> rat)" where
  "addGrowth growth m r = (case growth (usageKey r) of
       Some (Pct g) \<Rightarrow>
         (let (sw, w) = (case m (ubCluster r) of None \<Rightarrow> (0, 0) | Some x \<Rightarrow> x); weight = of_nat (max 1 (ubBytes r))
          in m(ubCluster r \<mapsto> (sw + g * weight, w + weight)))
     | _ \<Rightarrow> m)"

definition perClusterGrowth :: "(string \<rightharpoonup> growth) \<Rightarrow> usage_bucket list \<Rightarrow> string \<Rightarrow> rat option" where
  "perClusterGrowth growth rows cid = (case foldl (addGrowth growth) Map.empty rows cid of
       None \<Rightarrow> None | Some (sw, w) \<Rightarrow> if 0 < w then Some (sw / w) else None)"

fun finiteGrowth :: "growth option \<Rightarrow> rat option" where
  "finiteGrowth (Some (Pct g)) = Some g"
| "finiteGrowth _ = None"

definition withGrowth :: "(string \<rightharpoonup> growth) \<Rightarrow> usage_bucket list \<Rightarrow> (usage_bucket \<times> rat) list" where
  "withGrowth growth rows =
     concat (map (\<lambda>r. case finiteGrowth (growth (usageKey r)) of None \<Rightarrow> [] | Some g \<Rightarrow> [(r, g)]) rows)"

text \<open>\<open>sort((a, b) => b.growth - a.growth)\<close>, which is stable.\<close>

definition byGrowth :: "(usage_bucket \<times> rat) list \<Rightarrow> (usage_bucket \<times> rat) list" where
  "byGrowth = sort_key (\<lambda>x. - snd x)"

definition topGrowingBuckets :: "(string \<rightharpoonup> growth) \<Rightarrow> usage_bucket list \<Rightarrow> (usage_bucket \<times> rat) list" where
  "topGrowingBuckets growth rows = take 10 (byGrowth (withGrowth growth rows))"

definition anomalies :: "(string \<rightharpoonup> growth) \<Rightarrow> usage_bucket list \<Rightarrow> (usage_bucket \<times> rat) list" where
  "anomalies growth rows = byGrowth (filter (\<lambda>x. 100 < snd x) (withGrowth growth rows))"

section \<open>The chart\<close>

definition chartValues :: "string \<Rightarrow> usage_point list \<Rightarrow> rat list" where
  "chartValues metricLabel points = map (\<lambda>p. of_nat (if metricLabel = ''Bytes'' then upBytes p else upObjects p)) points"

definition chartX :: "nat \<Rightarrow> nat \<Rightarrow> rat" where
  "chartX n i = (if n = 1 then 4 + 592 / 2 else 4 + of_nat i / of_nat (n - 1) * 592)"

definition chartRange :: "rat list \<Rightarrow> rat" where
  "chartRange vs = (let d = Max (set vs) - Min (set vs) in if d = 0 then 1 else d)"

definition chartY :: "rat list \<Rightarrow> rat \<Rightarrow> rat" where
  "chartY vs v = 6 + 68 - (v - Min (set vs)) / chartRange vs * 68"

text \<open>The span of the points, in milliseconds; \<open>Math.round\<close> rounds halves up.\<close>

definition describeSpan :: "int \<Rightarrow> string" where
  "describeSpan ms =
     (if ms \<le> 0 then ''0m''
      else (let mins = (2 * ms + 60000) div 120000
            in if 1440 \<le> mins then decInt ((2 * mins + 1440) div 2880) @ ''d''
               else if 60 \<le> mins then decInt ((2 * mins + 60) div 120) @ ''h'' else decInt mins @ ''m''))"

text \<open>At most one row of a panel is expanded; a click leaves the page unless the trend mode is on.\<close>

definition toggleRow :: "string \<Rightarrow> string option \<Rightarrow> string option" where
  "toggleRow k expanded = (if expanded = Some k then None else Some k)"

definition clickTopBucket :: "bool \<Rightarrow> usage_bucket \<Rightarrow> string option \<Rightarrow> string option \<times> (string \<times> string) option" where
  "clickTopBucket trendMode r expanded =
     (if trendMode then (toggleRow (usageKey r) expanded, None) else (expanded, Some (ubCluster r, ubBucket r)))"

section \<open>The registry holds growth of the window on screen\<close>

lemma addUpdates_snoc: "addUpdates (us @ [(k, v)]) m = (addUpdates us m)(k \<mapsto> v)"
  by (simp add: addUpdates_def)

lemma addUpdates_origin: "addUpdates us m k = Some g \<Longrightarrow> (k, g) \<in> set us \<or> m k = Some g"
proof (induction us rule: rev_induct)
  case Nil
  then show ?case by (simp add: addUpdates_def)
next
  case (snoc u us)
  obtain j h where "u = (j, h)" by (cases u)
  with snoc show ?case by (auto simp: addUpdates_snoc split: if_splits)
qed

definition measured :: "series \<Rightarrow> nat \<Rightarrow> string \<Rightarrow> growth \<Rightarrow> bool" where
  "measured srv d k g \<longleftrightarrow> (\<exists>b. k = usageKey b \<and> seriesGrowth (srv (ubCluster b) (ubBucket b) d) = Some g)"

definition usageOk :: "series \<Rightarrow> usage_page \<Rightarrow> bool" where
  "usageOk srv p \<longleftrightarrow> (\<forall>k g. ugRegistry p k = Some g \<longrightarrow> measured srv (ugRange p) k g) \<and>
     (\<forall>(k, g) \<in> set (ugUpdates p). measured srv (ugRange p) k g) \<and> ugRange p \<in> set RANGE_OPTIONS"

lemma startRun_ok: "usageOk srv (p\<lparr>ugUpdates := []\<rparr>) \<Longrightarrow> usageOk srv (startRun reg p)"
  by (simp add: usageOk_def startRun_def)

lemma usageStep_ok:
  assumes "usageOk srv p"
  shows "usageOk srv (usageStep srv e p)"
proof (cases e)
  case (UsageArrives bs os)
  then show ?thesis using assms by (auto simp: Let_def usageOk_def startRun_def)
next
  case (PickRange d)
  then show ?thesis using assms by (auto simp: usageOk_def startRun_def)
next
  case SeriesTick
  show ?thesis
  proof (cases "ugTodo p")
    case Nil
    then show ?thesis using assms SeriesTick by simp
  next
    case (Cons b bs)
    let ?us = "ugUpdates p @ (case seriesGrowth (srv (ubCluster b) (ubBucket b) (ugRange p)) of
      None \<Rightarrow> [] | Some g \<Rightarrow> [(usageKey b, g)])"
    have us: "\<forall>(k, g) \<in> set ?us. measured srv (ugRange p) k g"
      using assms by (auto simp: usageOk_def measured_def split: option.splits)
    then have "measured srv (ugRange p) k g" if "addUpdates ?us (ugRegistry p) k = Some g" for k g
      using addUpdates_origin [OF that] assms by (auto simp: usageOk_def)
    then show ?thesis using assms SeriesTick Cons us by (simp add: Let_def usageOk_def)
  qed
qed

text \<open>
  C35. Every growth the page shows was measured on the window that is selected now: after any
  refetches, changes of the range and answers, in any order, an entry of the registry is the growth of the series of
  that bucket over exactly the days selected; an answer for an earlier window never reaches the page.
\<close>

theorem growth_of_current_window:
  assumes "ugRegistry (usageAfter srv bs os es) k = Some g"
  shows "\<exists>b. k = usageKey b \<and>
    seriesGrowth (srv (ubCluster b) (ubBucket b) (ugRange (usageAfter srv bs os es))) = Some g"
proof -
  have "usageOk srv (usageAfter srv bs os es)"
  proof (induction es rule: rev_induct)
    case Nil
    show ?case by (simp add: usageAfter_def openUsage_def startRun_def usageOk_def RANGE_OPTIONS_def)
  next
    case (snoc e es)
    then show ?case using usageStep_ok by (simp add: usageAfter_def)
  qed
  with assms show ?thesis by (simp add: usageOk_def measured_def)
qed


definition sampleBucketRow :: usage_bucket where
  "sampleBucketRow = \<lparr>ubCluster = ''c1'', ubClusterLabel = ''home'', ubBucket = ''b1'', ubAlias = ''photos'', ubBytes = 300, ubObjects = 3\<rparr>"

definition grownSeries :: series where
  "grownSeries cid bid d = Some [\<lparr>upTime = ''t0'', upBytes = 100, upObjects = 1\<rparr>, \<lparr>upTime = ''t1'', upBytes = 100 + 10 * d, upObjects = 3\<rparr>]"

theorem growth_of_current_window_witness:
  "ugRegistry (usageAfter grownSeries [sampleBucketRow] [] [SeriesTick]) ''c1|b1'' = Some (Pct 70) \<and>
   (\<exists>b. ''c1|b1'' = usageKey b \<and> seriesGrowth (grownSeries (ubCluster b) (ubBucket b) 7) = Some (Pct 70))"
proof -
  have r: "ugRegistry (usageAfter grownSeries [sampleBucketRow] [] [SeriesTick]) ''c1|b1'' = Some (Pct 70)"
    "ugRange (usageAfter grownSeries [sampleBucketRow] [] [SeriesTick]) = 7"
    by code_simp+
  from growth_of_current_window [OF r(1)] r show ?thesis by simp
qed

section \<open>What is fetched at first\<close>

lemma dedup_keys: "usageKey ` set (dedupKeys seen rs) = usageKey ` set rs - seen"
  by (induction seen rs rule: dedupKeys.induct) auto

lemma dedup_distinct: "distinct (map usageKey (dedupKeys seen rs))"
  by (induction seen rs rule: dedupKeys.induct) (auto simp: dedup_keys)

lemma dedup_subset: "set (dedupKeys seen rs) \<subseteq> set rs"
  by (induction seen rs rule: dedupKeys.induct) auto

definition measuredOf :: "series \<Rightarrow> nat \<Rightarrow> usage_bucket list \<Rightarrow> (string \<times> growth) list" where
  "measuredOf srv d bs = concat (map (\<lambda>b. case seriesGrowth (srv (ubCluster b) (ubBucket b) d) of
     None \<Rightarrow> [] | Some g \<Rightarrow> [(usageKey b, g)]) bs)"

lemma ticks_run:
  "foldl (\<lambda>p e. usageStep srv e p) p (replicate (length (ugTodo p)) SeriesTick) =
     (if ugTodo p = [] then p
      else p\<lparr>ugTodo := [], ugUpdates := [],
        ugRegistry := addUpdates (ugUpdates p @ measuredOf srv (ugRange p) (ugTodo p)) (ugRegistry p)\<rparr>)"
proof (induction "ugTodo p" arbitrary: p)
  case Nil
  then show ?case by simp
next
  case (Cons b bs)
  let ?us = "ugUpdates p @ (case seriesGrowth (srv (ubCluster b) (ubBucket b) (ugRange p)) of
      None \<Rightarrow> [] | Some g \<Rightarrow> [(usageKey b, g)])"
  show ?case
  proof (cases "bs = []")
    case True
    with Cons(2) [symmetric] show ?thesis by (simp add: measuredOf_def Let_def)
  next
    case False
    let ?q = "p\<lparr>ugTodo := bs, ugUpdates := ?us\<rparr>"
    have "usageStep srv SeriesTick p = ?q" using Cons(2) [symmetric] False by (simp add: Let_def)
    moreover have "foldl (\<lambda>p e. usageStep srv e p) ?q (replicate (length bs) SeriesTick) =
      ?q\<lparr>ugTodo := [], ugUpdates := [], ugRegistry := addUpdates (?us @ measuredOf srv (ugRange p) bs) (ugRegistry p)\<rparr>"
      using Cons(1) [of ?q] False by simp
    ultimately show ?thesis using Cons(2) [symmetric] by (simp add: measuredOf_def)
  qed
qed

lemma addUpdates_distinct:
  "distinct (map fst us) \<Longrightarrow> addUpdates us Map.empty k = Some g \<longleftrightarrow> (k, g) \<in> set us"
proof (induction us rule: rev_induct)
  case Nil
  then show ?case by (simp add: addUpdates_def)
next
  case (snoc u us)
  obtain j h where u: "u = (j, h)" by (cases u)
  have j: "(j, g) \<notin> set us" for g using snoc.prems unfolding u by (auto simp: image_iff)
  show ?case
  proof (cases "k = j")
    case True
    then show ?thesis using j unfolding u by (auto simp: addUpdates_snoc)
  next
    case False
    then show ?thesis using snoc unfolding u by (simp add: addUpdates_snoc)
  qed
qed

lemma measuredOf_Cons: "measuredOf srv d (b # bs) = (case seriesGrowth (srv (ubCluster b) (ubBucket b) d) of
     None \<Rightarrow> [] | Some g \<Rightarrow> [(usageKey b, g)]) @ measuredOf srv d bs"
  by (simp add: measuredOf_def)

lemma measuredOf_mem:
  "(k, g) \<in> set (measuredOf srv d bs) \<longleftrightarrow>
   (\<exists>b \<in> set bs. usageKey b = k \<and> seriesGrowth (srv (ubCluster b) (ubBucket b) d) = Some g)"
proof (induction bs)
  case Nil
  then show ?case by (simp add: measuredOf_def)
next
  case (Cons b bs)
  then show ?case by (cases "seriesGrowth (srv (ubCluster b) (ubBucket b) d)") (auto simp: measuredOf_Cons)
qed

lemma measuredOf_keys: "fst ` set (measuredOf srv d bs) \<subseteq> usageKey ` set bs"
  by (auto simp: measuredOf_def split: option.splits)

lemma measuredOf_distinct: "distinct (map usageKey bs) \<Longrightarrow> distinct (map fst (measuredOf srv d bs))"
proof (induction bs)
  case (Cons b bs)
  with measuredOf_keys [of srv d bs] show ?case by (auto simp: measuredOf_def split: option.split)
qed (simp add: measuredOf_def)

text \<open>
  The first load measures each bucket of the two tables exactly once: after as many answers as
  there are distinct buckets nothing is being fetched any more, and the registry has an entry for exactly those buckets
  whose series has at least two points, with the growth of that series.
\<close>

theorem first_load_complete:
  assumes "p = usageAfter srv bs os (replicate (length (trackedBuckets bs os)) SeriesTick)"
  shows "ugTodo p = [] \<and> distinct (map usageKey (trackedBuckets bs os)) \<and>
    usageKey ` set (trackedBuckets bs os) = usageKey ` (set bs \<union> set os) \<and>
    (\<forall>k g. ugRegistry p k = Some g \<longleftrightarrow>
      (\<exists>b \<in> set (trackedBuckets bs os). usageKey b = k \<and> seriesGrowth (srv (ubCluster b) (ubBucket b) 7) = Some g))"
proof -
  let ?t = "trackedBuckets bs os"
  have d: "distinct (map usageKey ?t)" unfolding trackedBuckets_def by (rule dedup_distinct)
  have o: "ugTodo (openUsage bs os) = ?t" "ugUpdates (openUsage bs os) = []" "ugRegistry (openUsage bs os) = Map.empty"
    "ugRange (openUsage bs os) = 7"
    by (simp_all add: openUsage_def startRun_def ugTracked_def)
  have p: "p = (if ?t = [] then openUsage bs os else openUsage bs os\<lparr>ugTodo := [], ugUpdates := [],
      ugRegistry := addUpdates (measuredOf srv 7 ?t) Map.empty\<rparr>)"
    unfolding assms usageAfter_def using ticks_run [of srv "openUsage bs os"] unfolding o by simp
  have reg: "ugRegistry p k = Some g \<longleftrightarrow> (k, g) \<in> set (measuredOf srv 7 ?t)" for k g
    unfolding p using addUpdates_distinct [OF measuredOf_distinct [OF d]] o by (simp add: measuredOf_def)
  have "(k, g) \<in> set (measuredOf srv 7 ?t) \<longleftrightarrow>
      (\<exists>b \<in> set ?t. usageKey b = k \<and> seriesGrowth (srv (ubCluster b) (ubBucket b) 7) = Some g)" for k g
    by (rule measuredOf_mem)
  with reg have "\<forall>k g. ugRegistry p k = Some g \<longleftrightarrow>
      (\<exists>b \<in> set ?t. usageKey b = k \<and> seriesGrowth (srv (ubCluster b) (ubBucket b) 7) = Some g)" by simp
  moreover have "ugTodo p = []" unfolding p using o by simp
  moreover have "usageKey ` set ?t = usageKey ` (set bs \<union> set os)" by (simp add: trackedBuckets_def dedup_keys)
  ultimately show ?thesis using d by blast
qed

theorem first_load_complete_witness:
  "ugRegistry (usageAfter grownSeries [sampleBucketRow] [sampleBucketRow] [SeriesTick]) (usageKey sampleBucketRow) = Some (Pct 70)"
proof -
  have t: "trackedBuckets [sampleBucketRow] [sampleBucketRow] = [sampleBucketRow]" by (simp add: trackedBuckets_def)
  have "seriesGrowth (grownSeries (ubCluster sampleBucketRow) (ubBucket sampleBucketRow) 7) = Some (Pct 70)"
    by code_simp
  with first_load_complete [OF refl, of grownSeries "[sampleBucketRow]" "[sampleBucketRow]"] show ?thesis
    unfolding t by simp
qed


section \<open>Averages, anomalies and the chart\<close>

lemma addGrowth_step:
  "addGrowth growth m r cid =
     (case finiteGrowth (growth (usageKey r)) of None \<Rightarrow> m cid
      | Some g \<Rightarrow> if ubCluster r \<noteq> cid then m cid
          else (case m cid of None \<Rightarrow> Some (g * of_nat (max 1 (ubBytes r)), of_nat (max 1 (ubBytes r)))
            | Some (sw, w) \<Rightarrow> Some (sw + g * of_nat (max 1 (ubBytes r)), w + of_nat (max 1 (ubBytes r)))))"
  by (cases "growth (usageKey r)" rule: finiteGrowth.cases) (auto simp: addGrowth_def Let_def split: option.split)

lemma weighted_bounds:
  fixes lo hi :: rat
  assumes "\<forall>r \<in> set rows. \<forall>g. ubCluster r = cid \<and> growth (usageKey r) = Some (Pct g) \<longrightarrow> lo \<le> g \<and> g \<le> hi"
  shows "(case foldl (addGrowth growth) Map.empty rows cid of
      None \<Rightarrow> \<forall>r \<in> set rows. ubCluster r = cid \<longrightarrow> finiteGrowth (growth (usageKey r)) = None
    | Some (sw, w) \<Rightarrow> 0 < w \<and> lo * w \<le> sw \<and> sw \<le> hi * w)"
  using assms
proof (induction rows rule: rev_induct)
  case Nil
  then show ?case by simp
next
  case (snoc r rows)
  let ?m = "foldl (addGrowth growth) Map.empty rows"
  let ?w = "of_nat (max 1 (ubBytes r)) :: rat"
  have w: "0 < ?w" by simp
  from snoc have IH: "(case ?m cid of
      None \<Rightarrow> \<forall>r \<in> set rows. ubCluster r = cid \<longrightarrow> finiteGrowth (growth (usageKey r)) = None
    | Some (sw, w) \<Rightarrow> 0 < w \<and> lo * w \<le> sw \<and> sw \<le> hi * w)" by simp
  have step: "foldl (addGrowth growth) Map.empty (rows @ [r]) cid = addGrowth growth ?m r cid" by simp
  show ?case
  proof (cases "ubCluster r = cid \<and> finiteGrowth (growth (usageKey r)) \<noteq> None")
    case False
    then have "addGrowth growth ?m r cid = ?m cid" by (cases "finiteGrowth (growth (usageKey r))") (simp_all add: addGrowth_step)
    then show ?thesis using IH False unfolding step by (cases "?m cid") auto
  next
    case True
    then obtain g where g: "finiteGrowth (growth (usageKey r)) = Some g" "growth (usageKey r) = Some (Pct g)"
      by (cases "growth (usageKey r)" rule: finiteGrowth.cases) auto
    with snoc.prems True have "lo \<le> g" "g \<le> hi" by auto
    then have b: "lo * ?w \<le> g * ?w" "g * ?w \<le> hi * ?w" using w by simp_all
    show ?thesis
    proof (cases "?m cid")
      case None
      with True g have "addGrowth growth ?m r cid = Some (g * ?w, ?w)" by (simp add: addGrowth_step)
      then show ?thesis using b w unfolding step by simp
    next
      case (Some x)
      obtain sw v where x: "x = (sw, v)" by (cases x)
      with True g Some have "addGrowth growth ?m r cid = Some (sw + g * ?w, v + ?w)" by (simp add: addGrowth_step)
      moreover have "0 < v" "lo * v \<le> sw" "sw \<le> hi * v" using IH Some x by simp_all
      then have "0 < v + ?w \<and> lo * (v + ?w) \<le> sw + g * ?w \<and> sw + g * ?w \<le> hi * (v + ?w)"
        using b w unfolding distrib_left by (intro conjI add_pos_pos add_mono)
      ultimately show ?thesis unfolding step by simp
    qed
  qed
qed

lemma unmeasured_cluster:
  "\<forall>r \<in> set rows. ubCluster r = cid \<longrightarrow> finiteGrowth (growth (usageKey r)) = None \<Longrightarrow>
   foldl (addGrowth growth) Map.empty rows cid = None"
proof (induction rows rule: rev_induct)
  case Nil
  then show ?case by simp
next
  case (snoc r rows)
  have "foldl (addGrowth growth) Map.empty (rows @ [r]) cid = addGrowth growth (foldl (addGrowth growth) Map.empty rows) r cid"
    by simp
  then show ?case using snoc by (cases "finiteGrowth (growth (usageKey r))") (auto simp only: addGrowth_step option.case, auto)
qed

text \<open>
  The growth shown for a cluster is an average of its measured buckets: it is shown exactly
  when at least one of them has a finite growth, and lies between the smallest and the largest of them, empty buckets
  and any sizes included.
\<close>

theorem cluster_growth_bounded:
  assumes "\<forall>r \<in> set rows. \<forall>g. ubCluster r = cid \<and> growth (usageKey r) = Some (Pct g) \<longrightarrow> lo \<le> g \<and> g \<le> hi"
  shows "(perClusterGrowth growth rows cid = None \<longleftrightarrow>
      (\<forall>r \<in> set rows. ubCluster r = cid \<longrightarrow> finiteGrowth (growth (usageKey r)) = None)) \<and>
    (\<forall>x. perClusterGrowth growth rows cid = Some x \<longrightarrow> lo \<le> x \<and> x \<le> hi)"
proof (cases "foldl (addGrowth growth) Map.empty rows cid")
  case None
  with weighted_bounds [OF assms] show ?thesis by (simp add: perClusterGrowth_def)
next
  case (Some x)
  obtain sw w where x: "x = (sw, w)" by (cases x)
  from weighted_bounds [OF assms] Some x have w: "0 < w" "lo * w \<le> sw" "sw \<le> hi * w" by simp_all
  have "\<exists>r \<in> set rows. ubCluster r = cid \<and> finiteGrowth (growth (usageKey r)) \<noteq> None"
    using unmeasured_cluster [of rows cid growth] Some by (metis option.distinct(1))
  moreover have "perClusterGrowth growth rows cid = Some (sw / w)" using Some x w(1) by (simp add: perClusterGrowth_def)
  ultimately show ?thesis using w by (auto simp: pos_le_divide_eq pos_divide_le_eq)
qed

theorem cluster_growth_bounded_witness:
  "\<exists>x. perClusterGrowth [''c1|b1'' \<mapsto> Pct 70, ''c1|b2'' \<mapsto> Pct 10, ''c2|b3'' \<mapsto> FromZero]
      [sampleBucketRow, sampleBucketRow\<lparr>ubBucket := ''b2'', ubBytes := 0\<rparr>] ''c1'' = Some x \<and> 10 \<le> x \<and> x \<le> 70"
proof -
  let ?g = "[''c1|b1'' \<mapsto> Pct 70, ''c1|b2'' \<mapsto> Pct 10, ''c2|b3'' \<mapsto> FromZero]"
  let ?rows = "[sampleBucketRow, sampleBucketRow\<lparr>ubBucket := ''b2'', ubBytes := 0\<rparr>]"
  have rows: "map (\<lambda>r. (ubCluster r, ?g (usageKey r))) ?rows = [(''c1'', Some (Pct 70)), (''c1'', Some (Pct 10))]"
    by code_simp
  then have h: "\<forall>r \<in> set ?rows. \<forall>g. ubCluster r = ''c1'' \<and> ?g (usageKey r) = Some (Pct g) \<longrightarrow> 10 \<le> g \<and> g \<le> 70"
    by (simp only: list.map list.inject prod.inject) auto
  have "perClusterGrowth ?g ?rows ''c1'' \<noteq> None" by code_simp
  then obtain x where x: "perClusterGrowth ?g ?rows ''c1'' = Some x" by blast
  have "10 \<le> x \<and> x \<le> 70" by (rule conjunct2 [OF cluster_growth_bounded [OF h], THEN spec, THEN mp, OF x])
  with x show ?thesis by blast
qed

lemma takeWhile_sorted:
  fixes f :: "'z \<Rightarrow> rat"
  assumes "sorted (map f xs)"
  shows "takeWhile (\<lambda>x. f x < c) xs = filter (\<lambda>x. f x < c) xs"
  using assms
proof (induction xs)
  case Nil
  then show ?case by simp
next
  case (Cons x xs)
  show ?case
  proof (cases "f x < c")
    case True
    with Cons show ?thesis by simp
  next
    case False
    have "\<not> f y < c" if "y \<in> set xs" for y
    proof -
      have "f x \<le> f y" using Cons.prems that by simp
      with False show ?thesis by linarith
    qed
    with False show ?thesis by (simp add: filter_empty_conv)
  qed
qed

lemma takeWhile_take_swap: "takeWhile P (take n ys) = take n (takeWhile P ys)"
  by (induction ys arbitrary: n) (auto simp: take_Cons split: nat.split)

lemma sorted_neg: "sorted (map (\<lambda>x. - (f x :: rat)) xs) = sorted (rev (map f xs))"
proof (induction xs)
  case (Cons x xs)
  then show ?case by (auto simp: sorted_append)
qed simp

text \<open>
  The buckets in the warning are those whose growth is finite and above a hundred percent, the
  fastest first; the table of the fastest growing buckets starts with the very same ones, in the same order, as far as
  its ten rows go.
\<close>

theorem anomalies_lead_table:
  "set (anomalies growth rows) = {(r, g). r \<in> set rows \<and> growth (usageKey r) = Some (Pct g) \<and> 100 < g} \<and>
   sorted (rev (map snd (anomalies growth rows))) \<and>
   takeWhile (\<lambda>x. 100 < snd x) (topGrowingBuckets growth rows) = take 10 (anomalies growth rows) \<and>
   length (topGrowingBuckets growth rows) \<le> 10"
proof -
  let ?xs = "withGrowth growth rows"
  have mem: "set ?xs = {(r, g). r \<in> set rows \<and> growth (usageKey r) = Some (Pct g)}"
  proof (induction rows)
    case Nil
    then show ?case by (simp add: withGrowth_def)
  next
    case (Cons r rows)
    then show ?case
      by (cases "growth (usageKey r)" rule: finiteGrowth.cases) (auto simp: withGrowth_def)
  qed
  have srt: "sorted (map (\<lambda>x. - snd x) (byGrowth ys))" for ys by (simp add: byGrowth_def)
  have flt: "anomalies growth rows = filter (\<lambda>x. 100 < snd x) (byGrowth ?xs)"
    by (simp add: anomalies_def byGrowth_def filter_sort)
  have tw: "takeWhile (\<lambda>x. 100 < snd x) (byGrowth ?xs) = filter (\<lambda>x. 100 < snd x) (byGrowth ?xs)"
    using takeWhile_sorted [OF srt, of "- 100" ?xs] by simp
  have desc: "sorted (rev (map snd (anomalies growth rows)))"
  proof -
    have "sorted (map (\<lambda>x. - snd x) (anomalies growth rows))" unfolding anomalies_def by (rule srt)
    then show ?thesis unfolding sorted_neg .
  qed
  have "takeWhile (\<lambda>x. 100 < snd x) (topGrowingBuckets growth rows) = take 10 (anomalies growth rows)"
    unfolding topGrowingBuckets_def flt tw [symmetric] by (rule takeWhile_take_swap)
  moreover have "set (anomalies growth rows) = {(r, g). r \<in> set rows \<and> growth (usageKey r) = Some (Pct g) \<and> 100 < g}"
    using mem by (auto simp: anomalies_def byGrowth_def)
  ultimately show ?thesis using desc by (simp add: topGrowingBuckets_def)
qed


text \<open>
  The line of the chart never leaves its box of 600 by 80: for every non-empty series each point
  lies between the paddings, the points move strictly to the right, and a larger value is never drawn lower.
\<close>

theorem chart_stays_in_box:
  assumes "vs = chartValues metricLabel points" and "i < length points"
  shows "4 \<le> chartX (length points) i \<and> chartX (length points) i \<le> 596 \<and>
    6 \<le> chartY vs (vs ! i) \<and> chartY vs (vs ! i) \<le> 74 \<and>
    (\<forall>j < length points. (i < j \<longrightarrow> chartX (length points) i < chartX (length points) j) \<and>
      (vs ! i \<le> vs ! j \<longrightarrow> chartY vs (vs ! j) \<le> chartY vs (vs ! i)))"
proof -
  let ?n = "length points"
  have len: "length vs = ?n" unfolding assms(1) chartValues_def by simp
  have between: "Min (set vs) \<le> vs ! j" "vs ! j \<le> Max (set vs)" if "j < ?n" for j
    using that len by (simp_all add: nth_mem)
  have r: "0 < chartRange vs" "Max (set vs) - Min (set vs) \<le> chartRange vs"
    using between [OF assms(2)] by (auto simp: chartRange_def Let_def)
  have frac: "0 \<le> (vs ! j - Min (set vs)) / chartRange vs" "(vs ! j - Min (set vs)) / chartRange vs \<le> 1" if "j < ?n" for j
    using between [OF that] r by (simp_all add: pos_divide_le_eq)
  have y: "6 \<le> chartY vs (vs ! j) \<and> chartY vs (vs ! j) \<le> 74" if "j < ?n" for j
  proof -
    obtain q where q: "q = (vs ! j - Min (set vs)) / chartRange vs" by simp
    have "chartY vs (vs ! j) = 74 - q * 68" unfolding chartY_def q by simp
    moreover have "0 \<le> q" "q \<le> 1" using frac [OF that] unfolding q by simp_all
    ultimately show ?thesis by simp
  qed
  have mono: "chartY vs b \<le> chartY vs a" if "a \<le> b" for a b
    using that r(1) by (simp add: chartY_def divide_right_mono)
  have x: "4 \<le> chartX ?n j \<and> chartX ?n j \<le> 596" if "j < ?n" for j
  proof (cases "?n = 1")
    case False
    then have f: "(of_nat j :: rat) / of_nat (?n - 1) \<le> 1" using that by (simp add: divide_le_eq_1)
    obtain q where q: "q = (of_nat j :: rat) / of_nat (?n - 1)" by simp
    have "0 \<le> q" "q \<le> 1" using f unfolding q by simp_all
    moreover have "chartX ?n j = 4 + q * 592" using False unfolding chartX_def q by simp
    ultimately show ?thesis by simp
  qed (simp add: chartX_def)
  have xs: "chartX ?n i < chartX ?n j" if "i < j" "j < ?n" for j
    using that by (simp add: chartX_def divide_strict_right_mono)
  show ?thesis using x [OF assms(2)] y [OF assms(2)] mono xs by blast
qed

theorem chart_stays_in_box_witness:
  "6 \<le> chartY (chartValues ''Objects'' [\<lparr>upTime = ''a'', upBytes = 1, upObjects = 5\<rparr>, \<lparr>upTime = ''b'', upBytes = 1, upObjects = 9\<rparr>])
     (chartValues ''Objects'' [\<lparr>upTime = ''a'', upBytes = 1, upObjects = 5\<rparr>, \<lparr>upTime = ''b'', upBytes = 1, upObjects = 9\<rparr>] ! 1)"
proof -
  let ?ps = "[\<lparr>upTime = ''a'', upBytes = 1, upObjects = 5\<rparr>, \<lparr>upTime = ''b'', upBytes = 1, upObjects = 9\<rparr>]"
  have "1 < length ?ps" by simp
  note * = chart_stays_in_box [OF refl this, of "''Objects''"]
  show ?thesis by (rule * [THEN conjunct2, THEN conjunct2, THEN conjunct1])
qed

section \<open>Behaviour a user meets\<close>

text \<open>
  After a change of the range the loop skips every bucket the old registry had, and the registry is emptied: once
  everything was measured, nothing is measured for the new window until the tables change.
\<close>

lemma range_change_clears_growth:
  assumes "\<forall>b \<in> set (ugTracked p). ugRegistry p (usageKey b) \<noteq> None" and "d \<in> set RANGE_OPTIONS" "d \<noteq> ugRange p"
  shows "ugRegistry (foldl (\<lambda>p e. usageStep srv e p) (usageStep srv (PickRange d) p) (replicate n SeriesTick)) = Map.empty \<and>
    seriesRequest iso8601 now (usageStep srv (PickRange d) p) = None"
proof -
  let ?q = "usageStep srv (PickRange d) p"
  have q: "ugTodo ?q = []" "ugRegistry ?q = Map.empty"
    using assms by (auto simp: startRun_def ugTracked_def)
  have "usageStep srv SeriesTick ?q = ?q" using q(1) by (simp only: usageStep.simps list.case)
  then have "foldl (\<lambda>p e. usageStep srv e p) ?q (replicate n SeriesTick) = ?q" by (induction n) simp_all
  then show ?thesis using q by (simp only: seriesRequest_def list.case)
qed

text \<open>
  A bucket that grew from nothing has no finite growth; it is dropped from the warning and from the table, where the
  comment says that the consumers treat it as a hundred percent.
\<close>

lemma new_bucket_never_listed:
  "growthOf 0 (Suc n) = FromZero \<and>
   (growth (usageKey r) = Some FromZero \<longrightarrow> withGrowth growth (r # rows) = withGrowth growth rows)"
  by (simp add: growthOf_def withGrowth_def)

text \<open>A flat series lies on the bottom of the box, where the comment promises the vertical centre.\<close>

lemma flat_series_at_bottom: "chartY (replicate (Suc n) v) v = 74"
proof -
  have "set (replicate (Suc n) v) = {v}" by (simp only: set_replicate_Suc)
  then show ?thesis by (simp only: chartY_def Min_singleton) simp
qed

end
