(* ===== verification/System_Page.thy ===== *)
theory System_Page
  imports Admin_Hooks Js_Numbers
begin

text \<open>
  The system configuration page (\<open>routes/admin/system.tsx\<close>), its own state: the record of the organisation as the
  server sent it, edited in place by every control of the page, the card of the gateways and the card of the
  session timeout. The record is a JSON object, since a save sends whatever properties were loaded.
\<close>

section \<open>Objects with a spread\<close>

text \<open>\<open>{...o, k: v}\<close>: the value is replaced in its place, or the property added at the end.\<close>

fun putField :: "string \<Rightarrow> json \<Rightarrow> (string \<times> json) list \<Rightarrow> (string \<times> json) list" where
  "putField k v [] = [(k, v)]"
| "putField k v ((j, w) # fs) = (if j = k then (k, v) # fs else (j, w) # putField k v fs)"

fun setProp :: "string \<Rightarrow> json \<Rightarrow> json \<Rightarrow> json" where
  "setProp k v (JObj fs) = JObj (putField k v fs)"
| "setProp k v _ = JObj [(k, v)]"

lemma map_of_putField: "map_of (putField k v fs) = (map_of fs)(k \<mapsto> v)"
  by (induction k v fs rule: putField.induct) auto

lemma getProp_setProp: "getProp (setProp k v o1) j = (if j = k then v else getProp o1 j)"
  by (cases o1) (auto simp: map_of_putField)

text \<open>\<open>o ?? {}\<close>.\<close>

definition orEmptyObj :: "json \<Rightarrow> json" where
  "orEmptyObj o1 = orElse o1 (JObj [])"

lemma getProp_orEmpty: "getProp (orEmptyObj o1) k = getProp o1 k"
  by (cases o1) (simp_all add: orEmptyObj_def)

fun strings :: "json \<Rightarrow> string list" where
  "strings (JArr xs) = concat (map (\<lambda>x. case x of JStr s \<Rightarrow> [s] | _ \<Rightarrow> []) xs)"
| "strings _ = []"

section \<open>Loading and saving\<close>

text \<open>
  \<open>handleSave\<close> and the load. The typed client does not throw on a refusal: it returns an object whose \<open>error\<close>
  nobody looks at here.
\<close>

definition patchSystem :: "json \<Rightarrow> unit js" where
  "patchSystem body = awaitCall (callReq ''PATCH'' ''/admin/system'' [] body) (\<lambda>_. Ret ())"

definition loadSystem :: "json js" where
  "loadSystem = awaitCall (callReq ''GET'' ''/admin/system'' [] JUndef) (\<lambda>res. Ret (crData res))"

section \<open>Gateways\<close>

record gateway_row =
  gwName :: string
  gwImplemented :: bool
  gwEnabled :: bool

definition defaultGateways :: json where
  "defaultGateways = JObj [(''webdav'', JObj [(''enabled'', JBool True)])]"

definition gatewaysOf :: "json \<Rightarrow> json" where
  "gatewaysOf system = orElse (getProp system ''gateways'') defaultGateways"

text \<open>What a row reports: one of the two fields.\<close>

datatype gateway_edit = GatewayEnabled bool | GatewayBaseUrl string

fun editField :: "gateway_edit \<Rightarrow> string \<times> json" where
  "editField (GatewayEnabled b) = (''enabled'', JBool b)"
| "editField (GatewayBaseUrl s) = (''baseUrl'', JStr s)"

definition setProtocolConfig :: "string \<Rightarrow> gateway_edit \<Rightarrow> json \<Rightarrow> json" where
  "setProtocolConfig name next gateways =
     (let (k, v) = editField next;
          protocols = orEmptyObj (getProp gateways ''protocols'');
          protocols' = setProp name (setProp k v (orEmptyObj (getProp protocols name))) protocols;
          merged = setProp ''protocols'' protocols' gateways
      in if name = ''webdav'' then setProp ''webdav'' (setProp k v (orEmptyObj (getProp gateways ''webdav''))) merged
         else merged)"

definition rowConfig :: "json \<Rightarrow> gateway_row \<Rightarrow> json" where
  "rowConfig gateways g = orElse (getProp (getProp gateways ''protocols'') (gwName g))
     (if gwName g = ''webdav''
      then JObj [(''enabled'', orElse (getProp (getProp gateways ''webdav'') ''enabled'') (JBool True)),
        (''baseUrl'', getProp (getProp gateways ''webdav'') ''baseUrl'')]
      else JObj [(''enabled'', JBool (gwEnabled g))])"

text \<open>The checkbox of a row, and the address its Copy button copies.\<close>

definition rowChecked :: "json \<Rightarrow> gateway_row \<Rightarrow> json" where
  "rowChecked gateways g = orElse (getProp (rowConfig gateways g) ''enabled'') (JBool True)"

definition mountURLFor :: "string \<Rightarrow> gateway_row \<Rightarrow> json \<Rightarrow> string" where
  "mountURLFor origin g config =
     (case getProp config ''baseUrl'' of JStr s \<Rightarrow> if trim s \<noteq> [] then trim s else origin @ ''/'' @ gwName g
      | _ \<Rightarrow> origin @ ''/'' @ gwName g)"

text \<open>Implemented gateways first, then by name; the sort of the browser is stable.\<close>

definition gatewayOrder :: "(string \<Rightarrow> string \<Rightarrow> bool) \<Rightarrow> gateway_row \<Rightarrow> gateway_row \<Rightarrow> bool" where
  "gatewayOrder collate a b \<longleftrightarrow>
     (if gwImplemented a \<noteq> gwImplemented b then gwImplemented a else collate (gwName a) (gwName b))"

section \<open>The session timeout\<close>

definition TTL_PRESETS :: "int list" where
  "TTL_PRESETS = [300, 900, 1800, 3600, 7200, 28800]"

definition TTL_MIN_SEC :: int where "TTL_MIN_SEC = 60"
definition TTL_MAX_SEC :: int where "TTL_MAX_SEC = 86400"

fun ttlValue :: "json \<Rightarrow> int" where
  "ttlValue (JNum n) = n"
| "ttlValue _ = 900"

record ttl_card =
  tcCustom :: bool
  tcText :: string
  tcSaving :: bool

definition mountTtl :: "int \<Rightarrow> ttl_card" where
  "mountTtl v = \<lparr>tcCustom = v \<notin> set TTL_PRESETS, tcText = decInt v, tcSaving = False\<rparr>"

text \<open>
  The effect on a new value. A text is read as an unbounded integer; a row of more than 308 digits is infinite in
  JavaScript, which the page refuses as no number and the model as above the maximum.
\<close>

definition syncTtl :: "int \<Rightarrow> ttl_card \<Rightarrow> ttl_card" where
  "syncTtl v c = c\<lparr>tcText := decInt v, tcCustom := v \<notin> set TTL_PRESETS\<rparr>"

datatype ttl_error = NotANumber | BelowMinimum | AboveMaximum

definition customError :: "ttl_card \<Rightarrow> ttl_error option" where
  "customError c =
     (if \<not> tcCustom c then None
      else (case parseInt (tcText c) of None \<Rightarrow> Some NotANumber
        | Some n \<Rightarrow> if n < TTL_MIN_SEC then Some BelowMinimum else if TTL_MAX_SEC < n then Some AboveMaximum else None))"

definition clampTtl :: "int \<Rightarrow> int" where
  "clampTtl n = min TTL_MAX_SEC (max TTL_MIN_SEC n)"

section \<open>The page\<close>

text \<open>\<open>syData = None\<close> until the record is loaded; the cards are on screen from then on.\<close>

record system_page =
  syData :: "json option"
  syTtl :: ttl_card
  syGateways :: "gateway_row list"
  sySavingGateway :: "string option"

definition openSystem :: system_page where
  "openSystem = \<lparr>syData = None, syTtl = mountTtl 900, syGateways = [], sySavingGateway = None\<rparr>"

datatype save_button = MainSave | GatewaySave string | TtlSave

datatype system_event =
    SystemArrives json
  | SystemLost
  | GatewaysArrive "gateway_row list"
  | ChooseSignup string
  | ClickDriver string
  | CheckUserBackends bool
  | ClickUserDriver string
  | CheckOidcOnly bool
  | EditGateway string gateway_edit
  | ChoosePreset "int option"
  | TypeTtl string
  | BlurTtl
  | PressSave save_button
  | SaveDone save_button bool

datatype system_out = PatchSystem json | SayUpdated | SayNotUpdated | SayNotLoaded | GoToFiles

definition AVAILABLE_DRIVERS :: "string list" where
  "AVAILABLE_DRIVERS = [''garage'', ''garage-v1'', ''aws-s3'', ''minio'']"

definition toggleString :: "string \<Rightarrow> string list \<Rightarrow> string list" where
  "toggleString s xs = (if s \<in> set xs then filter (\<lambda>x. x \<noteq> s) xs else xs @ [s])"

definition jsonStrings :: "string list \<Rightarrow> json" where
  "jsonStrings xs = JArr (map JStr xs)"

text \<open>\<open>setData\<close> with one property replaced, and the effect of the timeout card.\<close>

definition setField :: "string \<Rightarrow> json \<Rightarrow> json \<Rightarrow> system_page \<Rightarrow> system_page" where
  "setField k v d p =
     (let d' = setProp k v d; old = ttlValue (getProp d ''adminSessionTtlSec''); new = ttlValue (getProp d' ''adminSessionTtlSec'')
      in p\<lparr>syData := Some d', syTtl := (if new = old then syTtl p else syncTtl new (syTtl p))\<rparr>)"

fun onData :: "json \<Rightarrow> system_event \<Rightarrow> system_page \<Rightarrow> system_page \<times> system_out list" where
  "onData d (ChooseSignup m) p =
     (if m \<in> {''closed'', ''invite'', ''open''} then setField ''signupMode'' (JStr m) d p else p, [])"
| "onData d (ClickDriver s) p =
     (if s \<in> set AVAILABLE_DRIVERS
      then setField ''enabledDrivers'' (jsonStrings (toggleString s (strings (getProp d ''enabledDrivers'')))) d p else p, [])"
| "onData d (CheckUserBackends b) p = (setField ''allowUserBackends'' (JBool b) d p, [])"
| "onData d (ClickUserDriver s) p =
     (if truthy (getProp d ''allowUserBackends'') \<and> s \<in> set (strings (getProp d ''enabledDrivers''))
      then setField ''userBackendDrivers'' (jsonStrings (toggleString s (strings (getProp d ''userBackendDrivers'')))) d p
      else p, [])"
| "onData d (CheckOidcOnly b) p = (setField ''oidcOnly'' (JBool b) d p, [])"
| "onData d (EditGateway name e) p =
     (if \<exists>g \<in> set (syGateways p). gwName g = name \<and> gwImplemented g
      then setField ''gateways'' (setProtocolConfig name e (gatewaysOf d)) d p else p, [])"
| "onData d (ChoosePreset n) p =
     (case n of None \<Rightarrow> p\<lparr>syTtl := (syTtl p)\<lparr>tcCustom := True\<rparr>\<rparr>
      | Some s \<Rightarrow> if s \<in> set TTL_PRESETS
          then setField ''adminSessionTtlSec'' (JNum s) d (p\<lparr>syTtl := (syTtl p)\<lparr>tcCustom := False\<rparr>\<rparr>) else p, [])"
| "onData d (TypeTtl s) p = (if tcCustom (syTtl p) then p\<lparr>syTtl := (syTtl p)\<lparr>tcText := s\<rparr>\<rparr> else p, [])"
| "onData d BlurTtl p =
     (if \<not> tcCustom (syTtl p) then p
      else (case parseInt (tcText (syTtl p)) of None \<Rightarrow> p
        | Some n \<Rightarrow> setField ''adminSessionTtlSec'' (JNum (clampTtl n)) d
            (p\<lparr>syTtl := (syTtl p)\<lparr>tcText := decInt (clampTtl n)\<rparr>\<rparr>)), [])"
| "onData d (PressSave MainSave) p = (p, [PatchSystem d])"
| "onData d (PressSave (GatewaySave name)) p =
     (if (\<exists>g \<in> set (syGateways p). gwName g = name \<and> gwImplemented g) \<and> sySavingGateway p \<noteq> Some name
      then (p\<lparr>sySavingGateway := Some name\<rparr>, [PatchSystem d]) else (p, []))"
| "onData d (PressSave TtlSave) p =
     (if tcSaving (syTtl p) \<or> customError (syTtl p) \<noteq> None then (p, [])
      else (p\<lparr>syTtl := (syTtl p)\<lparr>tcSaving := True\<rparr>\<rparr>, [PatchSystem d]))"
| "onData d (SaveDone s threw) p =
     (case s of MainSave \<Rightarrow> p | GatewaySave _ \<Rightarrow> p\<lparr>sySavingGateway := None\<rparr> | TtlSave \<Rightarrow> p\<lparr>syTtl := (syTtl p)\<lparr>tcSaving := False\<rparr>\<rparr>,
      [if threw then SayNotUpdated else SayUpdated])"
| "onData d _ p = (p, [])"

text \<open>\<open>SystemArrives\<close> is the data the client returned, \<open>undefined\<close> for a refusal; the page loads once.\<close>

fun systemStep :: "system_event \<Rightarrow> system_page \<Rightarrow> system_page \<times> system_out list" where
  "systemStep (GatewaysArrive gs) p = (p\<lparr>syGateways := gs\<rparr>, [])"
| "systemStep (SystemArrives j) p =
     (if syData p = None \<and> truthy j
      then p\<lparr>syData := Some j, syTtl := mountTtl (ttlValue (getProp j ''adminSessionTtlSec''))\<rparr> else p, [])"
| "systemStep SystemLost p = (p, if syData p = None then [SayNotLoaded, GoToFiles] else [])"
| "systemStep e p = (case syData p of None \<Rightarrow> (p, []) | Some d \<Rightarrow> onData d e p)"

definition systemRun :: "system_event list \<Rightarrow> system_page \<Rightarrow> system_page" where
  "systemRun es p = foldl (\<lambda>p e. fst (systemStep e p)) p es"

text \<open>The page once it is loaded with a record.\<close>

definition loadedPage :: "json \<Rightarrow> system_page" where
  "loadedPage j = fst (systemStep (SystemArrives j) openSystem)"


section \<open>What a save sends\<close>

text \<open>The property an event may edit.\<close>

fun editedProp :: "system_event \<Rightarrow> string set" where
  "editedProp (ChooseSignup _) = {''signupMode''}"
| "editedProp (ClickDriver _) = {''enabledDrivers''}"
| "editedProp (CheckUserBackends _) = {''allowUserBackends''}"
| "editedProp (ClickUserDriver _) = {''userBackendDrivers''}"
| "editedProp (CheckOidcOnly _) = {''oidcOnly''}"
| "editedProp (EditGateway _ _) = {''gateways''}"
| "editedProp (ChoosePreset n) = (if n = None then {} else {''adminSessionTtlSec''})"
| "editedProp BlurTtl = {''adminSessionTtlSec''}"
| "editedProp _ = {}"

lemma setField_data [simp]: "syData (setField k v d p) = Some (setProp k v d)"
  by (simp add: setField_def Let_def)

lemma systemStep_onData: "syData p = Some d \<Longrightarrow> syData (fst (systemStep e p)) = syData (fst (onData d e p))"
  by (cases e) simp_all

lemma onData_data:
  assumes "syData p = Some d"
  shows "\<exists>d'. syData (fst (onData d e p)) = Some d' \<and> (\<forall>k. k \<notin> editedProp e \<longrightarrow> getProp d' k = getProp d k)"
proof (cases e)
  case (PressSave s)
  then show ?thesis using assms by (cases s) simp_all
next
  case (SaveDone s threw)
  then show ?thesis using assms by (cases s) simp_all
qed (use assms in \<open>auto simp: getProp_setProp split: option.split\<close>)

lemma systemStep_data:
  assumes "syData p = Some d"
  shows "\<exists>d'. syData (fst (systemStep e p)) = Some d' \<and> (\<forall>k. k \<notin> editedProp e \<longrightarrow> getProp d' k = getProp d k)"
  unfolding systemStep_onData [OF assms] by (rule onData_data [OF assms])

lemma systemRun_snoc: "systemRun (es @ [e]) p = fst (systemStep e (systemRun es p))"
  by (simp add: systemRun_def)

lemma loaded_data: "truthy j \<Longrightarrow> syData (loadedPage j) = Some j"
  by (simp add: loadedPage_def openSystem_def)

lemma systemRun_data:
  "truthy j \<Longrightarrow> \<exists>d. syData (systemRun es (loadedPage j)) = Some d \<and>
     (\<forall>k. k \<notin> \<Union> (editedProp ` set es) \<longrightarrow> getProp d k = getProp j k)"
proof (induction es rule: rev_induct)
  case Nil
  then show ?case by (simp add: systemRun_def loaded_data)
next
  case (snoc e es)
  then obtain d where d: "syData (systemRun es (loadedPage j)) = Some d"
    "\<forall>k. k \<notin> \<Union> (editedProp ` set es) \<longrightarrow> getProp d k = getProp j k" by blast
  from systemStep_data [OF d(1), of e] obtain d' where
    "syData (systemRun (es @ [e]) (loadedPage j)) = Some d'" "\<forall>k. k \<notin> editedProp e \<longrightarrow> getProp d' k = getProp d k"
    unfolding systemRun_snoc by blast
  with d(2) show ?case by auto
qed

lemma patch_is_data: "PatchSystem body \<in> set (snd (systemStep e p)) \<Longrightarrow> syData p = Some body"
proof -
  assume a: "PatchSystem body \<in> set (snd (systemStep e p))"
  obtain s where e: "e = PressSave s" using a
    by (cases e) (auto split: option.splits save_button.splits if_splits)
  then show ?thesis using a by (cases s) (auto split: option.splits if_splits)
qed

text \<open>
  C38. Whichever of the three buttons of \<open>handleSave\<close> sends it (the skins card has a save of its own), a save of the system page sends the whole record
  it shows, and a property that no control was used on since the page was loaded is sent exactly as the server gave
  it, the ones the page does not know included.
\<close>

theorem system_save_keeps_rest:
  assumes "truthy j" and "PatchSystem body \<in> set (snd (systemStep e (systemRun es (loadedPage j))))"
  shows "syData (systemRun es (loadedPage j)) = Some body \<and>
    (\<forall>k. k \<notin> \<Union> (editedProp ` set es) \<longrightarrow> getProp body k = getProp j k)"
proof -
  have "syData (systemRun es (loadedPage j)) = Some body" using assms(2) by (rule patch_is_data)
  with systemRun_data [OF assms(1), of es] show ?thesis by auto
qed

text \<open>A record with a property the page has no control for.\<close>

definition sampleSystem :: json where
  "sampleSystem = JObj [(''signupMode'', JStr ''open''), (''activeSkin'', JStr ''dusk''),
     (''gateways'', JObj [(''webdav'', JObj [(''enabled'', JBool False)])]), (''adminSessionTtlSec'', JNum 900)]"

definition sampleEdited :: json where
  "sampleEdited = JObj [(''signupMode'', JStr ''open''), (''activeSkin'', JStr ''dusk''),
     (''gateways'', JObj [(''webdav'', JObj [(''enabled'', JBool False)])]), (''adminSessionTtlSec'', JNum 86400)]"

definition sampleEdits :: "system_event list" where
  "sampleEdits = [ChoosePreset None, TypeTtl (decInt 999999), BlurTtl]"

lemma sample_truthy: "truthy sampleSystem"
  by (simp add: sampleSystem_def)

lemma sample_page:
  "syData (systemRun sampleEdits (loadedPage sampleSystem)) = Some sampleEdited"
  "syTtl (systemRun sampleEdits (loadedPage sampleSystem)) = \<lparr>tcCustom = True, tcText = decInt 86400, tcSaving = False\<rparr>"
  by (simp_all add: sampleEdits_def sampleSystem_def sampleEdited_def systemRun_def loadedPage_def openSystem_def setField_def
    mountTtl_def syncTtl_def clampTtl_def TTL_MIN_SEC_def TTL_MAX_SEC_def TTL_PRESETS_def parseInt_decInt Let_def)

lemma sample_saved: "PatchSystem sampleEdited \<in> set (snd (systemStep (PressSave MainSave) (systemRun sampleEdits (loadedPage sampleSystem))))"
  by (simp add: sample_page)

lemma sample_saved_ttl: "PatchSystem sampleEdited \<in> set (snd (systemStep (PressSave TtlSave) (systemRun sampleEdits (loadedPage sampleSystem))))"
  by (simp add: sample_page customError_def parseInt_decInt TTL_MIN_SEC_def TTL_MAX_SEC_def)

theorem system_save_keeps_rest_witness:
  "getProp sampleEdited ''activeSkin'' = getProp sampleSystem ''activeSkin''"
proof -
  have "''activeSkin'' \<notin> \<Union> (editedProp ` set sampleEdits)" by (simp add: sampleEdits_def)
  with system_save_keeps_rest [OF sample_truthy sample_saved] show ?thesis by blast
qed

section \<open>The two shapes of the WebDAV gateway\<close>

text \<open>
  What the server keeps of a save is the generic entry of the gateway alone
  (\<open>internal/store/org_capabilities.go\<close>, \<open>GatewaySettings\<close> and \<open>IsEnabled\<close>): an entry without \<open>enabled\<close> reads as off.
  It serves records with this entry and without the legacy object, which only older clients write.
\<close>

definition webdavEntry :: "json \<Rightarrow> json" where
  "webdavEntry gateways = getProp (getProp gateways ''protocols'') ''webdav''"

definition serverOn :: "json \<Rightarrow> bool" where
  "serverOn gateways \<longleftrightarrow> getProp (webdavEntry gateways) ''enabled'' = JBool True"

text \<open>The generic entry says on or off, and the legacy object, as far as it goes, says the same as the entry.\<close>

definition shapesAgree :: "json \<Rightarrow> bool" where
  "shapesAgree gateways \<longleftrightarrow>
     getProp (webdavEntry gateways) ''enabled'' \<in> {JBool True, JBool False} \<and>
     (\<forall>k. getProp (getProp gateways ''webdav'') k \<in> {JUndef, getProp (webdavEntry gateways) k})"

lemma setProtocolConfig_shapes: "shapesAgree gateways \<Longrightarrow> shapesAgree (setProtocolConfig name next gateways)"
  by (cases "next")
     (auto simp: shapesAgree_def webdavEntry_def setProtocolConfig_def Let_def getProp_setProp getProp_orEmpty)

lemma agree_checked:
  "shapesAgree gateways \<Longrightarrow> gwName g = ''webdav'' \<Longrightarrow> rowChecked gateways g = JBool (serverOn gateways)"
proof -
  assume a: "shapesAgree gateways" and g: "gwName g = ''webdav''"
  obtain fs where fs: "webdavEntry gateways = JObj fs"
    using a by (cases "webdavEntry gateways") (auto simp: shapesAgree_def)
  then have "rowConfig gateways g = webdavEntry gateways"
    unfolding rowConfig_def g webdavEntry_def [symmetric] by simp
  then show ?thesis using a by (auto simp: rowChecked_def serverOn_def shapesAgree_def)
qed

lemma gatewaysOf_object: "truthy (setProtocolConfig name next g)"
  by (cases "editField next"; cases g) (simp_all add: setProtocolConfig_def Let_def)

lemma onData_gateways:
  assumes "shapesAgree (gatewaysOf d)" and "syData p = Some d"
  shows "\<exists>d'. syData (fst (onData d e p)) = Some d' \<and> shapesAgree (gatewaysOf d')"
proof (cases e)
  case (PressSave s)
  then show ?thesis using assms by (cases s) simp_all
next
  case (SaveDone s threw)
  then show ?thesis using assms by (cases s) simp_all
next
  case (EditGateway name g)
  then show ?thesis using assms setProtocolConfig_shapes [OF assms(1)]
    by (simp add: gatewaysOf_def getProp_setProp orElse_truthy [OF gatewaysOf_object])
qed (use assms in \<open>auto simp: gatewaysOf_def getProp_setProp split: option.split\<close>)

text \<open>
  C39. From a record as the server sends it (the generic entry of the WebDAV gateway with its switch, and no legacy
  object or one that contradicts nothing), every save sends such a record again: the generic entry still carries the switch, the
  legacy object the edits write says nothing else, and the server reads the gateway as on exactly if its box
  is checked.
\<close>

theorem webdav_shapes_agree:
  assumes "truthy j" and "shapesAgree (gatewaysOf j)"
    and "PatchSystem body \<in> set (snd (systemStep e (systemRun es (loadedPage j))))"
  shows "shapesAgree (gatewaysOf body) \<and>
    (\<forall>g. gwName g = ''webdav'' \<longrightarrow> rowChecked (gatewaysOf body) g = JBool (serverOn (gatewaysOf body)))"
proof -
  have "\<exists>d. syData (systemRun es (loadedPage j)) = Some d \<and> shapesAgree (gatewaysOf d)"
  proof (induction es rule: rev_induct)
    case Nil
    then show ?case using assms(1,2) by (simp add: systemRun_def loaded_data)
  next
    case (snoc e es)
    then obtain d where d: "syData (systemRun es (loadedPage j)) = Some d" "shapesAgree (gatewaysOf d)" by blast
    show ?case unfolding systemRun_snoc systemStep_onData [OF d(1)] by (rule onData_gateways [OF d(2,1)])
  qed
  with patch_is_data [OF assms(3)] have "shapesAgree (gatewaysOf body)" by simp
  then show ?thesis using agree_checked by blast
qed

text \<open>A record as the server sends it, and what is left of it when the gateway is switched off and moved.\<close>

definition servedSystem :: json where
  "servedSystem = JObj [(''gateways'', JObj [(''protocols'', JObj [(''webdav'', JObj [(''enabled'', JBool True)])])])]"

definition webdavRow :: gateway_row where
  "webdavRow = \<lparr>gwName = ''webdav'', gwImplemented = True, gwEnabled = True\<rparr>"

definition webdavEdits :: "system_event list" where
  "webdavEdits = [GatewaysArrive [webdavRow], EditGateway ''webdav'' (GatewayBaseUrl ''https://dav''),
     EditGateway ''webdav'' (GatewayEnabled False)]"

definition webdavSent :: json where
  "webdavSent = JObj [(''gateways'', JObj [(''protocols'', JObj [(''webdav'',
       JObj [(''enabled'', JBool False), (''baseUrl'', JStr ''https://dav'')])]),
     (''webdav'', JObj [(''baseUrl'', JStr ''https://dav''), (''enabled'', JBool False)])])]"

lemma served_shapes: "truthy servedSystem" "shapesAgree (gatewaysOf servedSystem)"
  by (simp_all add: shapesAgree_def webdavEntry_def gatewaysOf_def servedSystem_def)

lemma webdav_saved: "PatchSystem webdavSent \<in> set (snd (systemStep (PressSave MainSave) (systemRun webdavEdits (loadedPage servedSystem))))"
  by (simp add: webdavEdits_def webdavSent_def servedSystem_def webdavRow_def systemRun_def loadedPage_def openSystem_def
      setField_def setProtocolConfig_def gatewaysOf_def orEmptyObj_def Let_def)

theorem webdav_shapes_agree_witness:
  "shapesAgree (gatewaysOf webdavSent) \<and> \<not> serverOn (gatewaysOf webdavSent) \<and>
   rowChecked (gatewaysOf webdavSent) webdavRow = JBool False"
proof -
  have "\<not> serverOn (gatewaysOf webdavSent)"
    by (simp add: serverOn_def webdavEntry_def gatewaysOf_def webdavSent_def)
  with webdav_shapes_agree [OF served_shapes webdav_saved] show ?thesis by (simp add: webdavRow_def)
qed

text \<open>
  When a record has no gateways at all, the page takes the legacy object for its default. Typing an address then
  makes a generic entry without the switch: the box stays checked, the server reads off.
\<close>

theorem address_on_default_switches_off:
  "let g = setProtocolConfig ''webdav'' (GatewayBaseUrl ''https://dav'') defaultGateways
   in rowChecked g webdavRow = JBool True \<and> \<not> serverOn g"
  by (simp add: setProtocolConfig_def defaultGateways_def rowChecked_def rowConfig_def webdavRow_def serverOn_def
      webdavEntry_def orEmptyObj_def Let_def)

section \<open>The timeout that is sent\<close>

definition ttlInRange :: "json \<Rightarrow> bool" where
  "ttlInRange v \<longleftrightarrow> (\<exists>n. v = JNum n \<and> TTL_MIN_SEC \<le> n \<and> n \<le> TTL_MAX_SEC)"

lemma presets_in_range: "n \<in> set TTL_PRESETS \<Longrightarrow> ttlInRange (JNum n)"
  by (auto simp: TTL_PRESETS_def ttlInRange_def TTL_MIN_SEC_def TTL_MAX_SEC_def)

lemma clamp_in_range: "ttlInRange (JNum (clampTtl n))"
  by (simp add: clampTtl_def ttlInRange_def TTL_MIN_SEC_def TTL_MAX_SEC_def)

lemma onData_ttl:
  assumes "syData p = Some d"
  shows "\<exists>d'. syData (fst (onData d e p)) = Some d' \<and>
     (getProp d' ''adminSessionTtlSec'' = getProp d ''adminSessionTtlSec'' \<or> ttlInRange (getProp d' ''adminSessionTtlSec''))"
proof (cases e)
  case (PressSave s)
  then show ?thesis using assms by (cases s) simp_all
next
  case (SaveDone s threw)
  then show ?thesis using assms by (cases s) simp_all
next
  case (ChoosePreset n)
  then show ?thesis using assms by (auto simp: getProp_setProp presets_in_range split: option.split)
next
  case BlurTtl
  then show ?thesis using assms by (auto simp: getProp_setProp clamp_in_range split: option.split)
qed (use assms in \<open>auto simp: getProp_setProp\<close>)

text \<open>
  C40. The timeout a save sends is the one that was loaded or lies between one minute and one day,
  whatever was typed (nothing, words, huge and negative numbers) and whichever button was pressed; and the button of
  the timeout card itself never sends while the card shows an error.
\<close>

theorem ttl_sent_in_range:
  assumes "truthy j" and "PatchSystem body \<in> set (snd (systemStep e (systemRun es (loadedPage j))))"
  shows "(getProp body ''adminSessionTtlSec'' = getProp j ''adminSessionTtlSec'' \<or>
      ttlInRange (getProp body ''adminSessionTtlSec'')) \<and>
    (e = PressSave TtlSave \<longrightarrow> customError (syTtl (systemRun es (loadedPage j))) = None)"
proof -
  have "\<exists>d. syData (systemRun es (loadedPage j)) = Some d \<and>
    (getProp d ''adminSessionTtlSec'' = getProp j ''adminSessionTtlSec'' \<or> ttlInRange (getProp d ''adminSessionTtlSec''))"
  proof (induction es rule: rev_induct)
    case Nil
    then show ?case using assms(1) by (simp add: systemRun_def loaded_data)
  next
    case (snoc e es)
    then obtain d where d: "syData (systemRun es (loadedPage j)) = Some d"
      "getProp d ''adminSessionTtlSec'' = getProp j ''adminSessionTtlSec'' \<or> ttlInRange (getProp d ''adminSessionTtlSec'')" by blast
    show ?case unfolding systemRun_snoc systemStep_onData [OF d(1)] using onData_ttl [OF d(1), of e] d(2) by metis
  qed
  moreover note patch_is_data [OF assms(2)]
  moreover have "e = PressSave TtlSave \<Longrightarrow> customError (syTtl (systemRun es (loadedPage j))) = None"
    using assms(2) by (auto split: option.splits if_splits)
  ultimately show ?thesis by auto
qed

theorem ttl_sent_in_range_witness:
  "ttlInRange (getProp sampleEdited ''adminSessionTtlSec'')"
proof -
  have "getProp sampleEdited ''adminSessionTtlSec'' \<noteq> getProp sampleSystem ''adminSessionTtlSec''"
    by (simp add: sampleEdited_def sampleSystem_def)
  with ttl_sent_in_range [OF sample_truthy sample_saved_ttl] show ?thesis by blast
qed

section \<open>Behaviour a user meets\<close>

text \<open>
  A refusal is no exception for the typed client: any answer at all lets the program of the button go on to the
  announcement that the record was updated.
\<close>

lemma refused_save_announced:
  assumes "onCall b h (callReq ''PATCH'' ''/admin/system'' [] body) = Some res"
  shows "snd (run (patchSystem body) b h) = Inr ()"
  using assms by (simp add: patchSystem_def awaitCall_def)

text \<open>A refused load has no data: the page stays empty and says nothing.\<close>

lemma refused_load_blank:
  assumes "onCall b h (callReq ''GET'' ''/admin/system'' [] JUndef) = Some res" and "crData res = JUndef"
  shows "snd (run loadSystem b h) = Inr JUndef \<and> systemStep (SystemArrives JUndef) openSystem = (openSystem, [])"
  using assms by (simp add: loadSystem_def awaitCall_def)

text \<open>
  A save of the page sends the skin of the organisation as it was when the page was loaded, whatever the skins card
  below saved meanwhile.
\<close>

lemma skin_choice_reverted:
  assumes "truthy j"
  shows "\<exists>body. PatchSystem body \<in> set (snd (systemStep (PressSave MainSave) (systemRun es (loadedPage j)))) \<and>
    getProp body ''activeSkin'' = getProp j ''activeSkin''"
proof -
  obtain d where d: "syData (systemRun es (loadedPage j)) = Some d"
    "\<forall>k. k \<notin> \<Union> (editedProp ` set es) \<longrightarrow> getProp d k = getProp j k" using systemRun_data [OF assms] by blast
  have "''activeSkin'' \<notin> editedProp e" for e by (cases e) simp_all
  with d show ?thesis by auto
qed

text \<open>
  The legacy settings have the gateway off. A first edit of the address creates the generic entry without a flag,
  and the checkbox of the row turns on, though the gateway stays off.
\<close>

lemma base_url_hides_disabled:
  "let g = JObj [(''webdav'', JObj [(''enabled'', JBool False)])];
       g' = setProtocolConfig ''webdav'' (GatewayBaseUrl ''x'') g;
       row = \<lparr>gwName = ''webdav'', gwImplemented = True, gwEnabled = False\<rparr>
   in rowChecked g row = JBool False \<and> rowChecked g' row = JBool True \<and>
      getProp (getProp g' ''webdav'') ''enabled'' = JBool False"
  by code_simp

text \<open>
  Turning a driver off leaves it among the drivers users may bring, and no button is left to take it out.
\<close>

lemma user_driver_outlives_driver:
  assumes "s \<notin> set (strings (getProp d ''enabledDrivers''))" and "syData p = Some d"
  shows "systemStep (ClickUserDriver s) p = (p, [])"
  using assms by simp

text \<open>A number input accepts \<open>1e3\<close>; the card reads it as 1 and sets the minimum.\<close>

lemma exponent_ttl_misread:
  "map_option clampTtl (parseInt ''1e3'') = Some 60"
  by code_simp

end
