(* ===== verification/System_Cards.thy ===== *)
theory System_Cards
  imports System_Page "HOL-Library.Sublist"
begin

text \<open>
  The two cards of the system configuration page that keep a state of their own (\<open>routes/admin/system.tsx\<close>): the
  mappings from single-sign-on groups to roles with their dialog, and the skin manager. Also what a gateway row
  shows of its status. A query result reaches a card only when it differs from the one before: the query library
  keeps the old reference otherwise.
\<close>

section \<open>Mappings\<close>

text \<open>\<open>omFinishing\<close> counts the saves that were accepted and wait for the list to be fetched again.\<close>

record mapping_form =
  mfClaim :: string
  mfValue :: string
  mfRole :: string
  mfScope :: string

record mapping_card =
  omData :: "OIDCGroupMapping list option"
  omRoles :: "PolicyRole list"
  omLocal :: "OIDCGroupMapping list"
  omDirty :: bool
  omPending :: bool
  omFinishing :: nat
  omAddOpen :: bool
  omForm :: mapping_form

definition freshMapping :: "PolicyRole list \<Rightarrow> mapping_form" where
  "freshMapping roles = \<lparr>mfClaim = ''groups'', mfValue = [], mfRole = (case roles of [] \<Rightarrow> [] | r # _ \<Rightarrow> plId r),
     mfScope = ''host:*''\<rparr>"

definition openMappings :: mapping_card where
  "openMappings = \<lparr>omData = None, omRoles = [], omLocal = [], omDirty = False, omPending = False, omFinishing = 0,
     omAddOpen = False, omForm = \<lparr>mfClaim = ''groups'', mfValue = [], mfRole = [], mfScope = ''host:*''\<rparr>\<rparr>"

datatype mapping_event =
    MappingsArrive "OIDCGroupMapping list"
  | RolesArrive "PolicyRole list"
  | PressAddMapping
  | CloseAddMapping
  | TypeClaim string
  | TypeClaimValue string
  | PickMappingRole string
  | TypeMappingScope string
  | SubmitMapping
  | PressDeleteMapping nat
  | PressSaveMappings
  | SaveAnswered bool
  | RefetchDone

datatype mapping_out = SendMappings "OIDCGroupMapping list" | SayMappingsUpdated | SayMappingsFailed

text \<open>The list shows a table only when the server has mappings.\<close>

definition tableShown :: "mapping_card \<Rightarrow> bool" where
  "tableShown c \<longleftrightarrow> (case omData c of None \<Rightarrow> False | Some ms \<Rightarrow> ms \<noteq> [])"

definition canSubmitMapping :: "mapping_card \<Rightarrow> bool" where
  "canSubmitMapping c \<longleftrightarrow> trim (mfClaim (omForm c)) \<noteq> [] \<and> trim (mfValue (omForm c)) \<noteq> [] \<and>
     trim (mfRole (omForm c)) \<noteq> [] \<and> trim (mfScope (omForm c)) \<noteq> [] \<and> \<not> omPending c"

definition formMapping :: "mapping_form \<Rightarrow> OIDCGroupMapping" where
  "formMapping f = \<lparr>ogClaim = trim (mfClaim f), ogClaimValue = trim (mfValue f), ogRoleId = trim (mfRole f),
     ogScope = trim (mfScope f)\<rparr>"

definition dropIndex :: "nat \<Rightarrow> 'a list \<Rightarrow> 'a list" where
  "dropIndex i xs = take i xs @ drop (Suc i) xs"

definition canSaveMappings :: "mapping_card \<Rightarrow> bool" where
  "canSaveMappings c \<longleftrightarrow> omDirty c \<and> \<not> omPending c"

text \<open>Typing in the dialog.\<close>

definition onForm :: "(mapping_form \<Rightarrow> mapping_form) \<Rightarrow> mapping_card \<Rightarrow> mapping_card" where
  "onForm f c = (if omAddOpen c then c\<lparr>omForm := f (omForm c)\<rparr> else c)"

fun mappingStep :: "mapping_event \<Rightarrow> mapping_card \<Rightarrow> mapping_card \<times> mapping_out list" where
  "mappingStep (MappingsArrive ms) c =
     (if omData c = Some ms then c else c\<lparr>omData := Some ms, omLocal := ms, omDirty := False\<rparr>, [])"
| "mappingStep (RolesArrive rs) c =
     (if omRoles c = rs then c
      else c\<lparr>omRoles := rs, omForm := (if omAddOpen c then freshMapping rs else omForm c)\<rparr>, [])"
| "mappingStep PressAddMapping c =
     (if omPending c \<or> omAddOpen c then c else c\<lparr>omAddOpen := True, omForm := freshMapping (omRoles c)\<rparr>, [])"
| "mappingStep CloseAddMapping c = (c\<lparr>omAddOpen := False\<rparr>, [])"
| "mappingStep (TypeClaim s) c = (onForm (\<lambda>f. f\<lparr>mfClaim := s\<rparr>) c, [])"
| "mappingStep (TypeClaimValue s) c = (onForm (\<lambda>f. f\<lparr>mfValue := s\<rparr>) c, [])"
| "mappingStep (PickMappingRole r) c =
     (if r \<in> plId ` set (omRoles c) then onForm (\<lambda>f. f\<lparr>mfRole := r\<rparr>) c else c, [])"
| "mappingStep (TypeMappingScope s) c = (onForm (\<lambda>f. f\<lparr>mfScope := s\<rparr>) c, [])"
| "mappingStep SubmitMapping c =
     (if omAddOpen c \<and> canSubmitMapping c
      then c\<lparr>omLocal := omLocal c @ [formMapping (omForm c)], omDirty := True, omAddOpen := False\<rparr> else c, [])"
| "mappingStep (PressDeleteMapping i) c =
     (if tableShown c \<and> \<not> omPending c \<and> i < length (omLocal c)
      then c\<lparr>omLocal := dropIndex i (omLocal c), omDirty := True\<rparr> else c, [])"
| "mappingStep PressSaveMappings c =
     (if canSaveMappings c then (c\<lparr>omPending := True\<rparr>, [SendMappings (omLocal c)]) else (c, []))"
| "mappingStep (SaveAnswered ok) c =
     (if \<not> omPending c then (c, [])
      else if ok then (c\<lparr>omPending := False, omFinishing := Suc (omFinishing c)\<rparr>, [])
      else (c\<lparr>omPending := False\<rparr>, [SayMappingsFailed]))"
| "mappingStep RefetchDone c =
     (case omFinishing c of 0 \<Rightarrow> (c, []) | Suc n \<Rightarrow> (c\<lparr>omFinishing := n, omDirty := False\<rparr>, [SayMappingsUpdated]))"

definition mappingsAfter :: "mapping_event list \<Rightarrow> mapping_card" where
  "mappingsAfter es = foldl (\<lambda>c e. fst (mappingStep e c)) openMappings es"

section \<open>What a save of the mappings sends\<close>

definition completeMapping :: "OIDCGroupMapping \<Rightarrow> bool" where
  "completeMapping m \<longleftrightarrow> ogClaim m \<noteq> [] \<and> ogClaimValue m \<noteq> [] \<and> ogRoleId m \<noteq> [] \<and> ogScope m \<noteq> []"

text \<open>What the server gave last, and what was deleted since: nothing, or something.\<close>

definition served :: "mapping_card \<Rightarrow> OIDCGroupMapping list" where
  "served c = (case omData c of None \<Rightarrow> [] | Some ms \<Rightarrow> ms)"

text \<open>How often a delete button was pressed.\<close>

definition deletes :: "mapping_event list \<Rightarrow> nat" where
  "deletes es = length (filter (\<lambda>e. case e of PressDeleteMapping _ \<Rightarrow> True | _ \<Rightarrow> False) es)"

definition mappingsOk :: "nat \<Rightarrow> mapping_card \<Rightarrow> bool" where
  "mappingsOk d c \<longleftrightarrow> (\<exists>added. subseq (omLocal c) (served c @ added) \<and> (\<forall>m \<in> set added. completeMapping m) \<and>
     length (served c @ added) \<le> length (omLocal c) + d)"

lemma subseq_dropIndex: "subseq (dropIndex i xs) xs"
proof -
  have "subseq (drop (Suc i) xs) (drop i xs)"
    by (cases "i < length xs") (simp_all add: Cons_nth_drop_Suc [symmetric] list_emb_Cons)
  then have "subseq (take i xs @ drop (Suc i) xs) (take i xs @ drop i xs)"
    by (rule list_emb_append_mono [rotated]) simp
  then show ?thesis by (simp only: dropIndex_def append_take_drop_id)
qed

lemma formMapping_complete: "canSubmitMapping c \<Longrightarrow> completeMapping (formMapping (omForm c))"
  by (simp add: canSubmitMapping_def completeMapping_def formMapping_def)

lemma length_dropIndex: "i < length xs \<Longrightarrow> Suc (length (dropIndex i xs)) = length xs"
  by (simp add: dropIndex_def)

lemma mappingsOk_mono: "mappingsOk d c \<Longrightarrow> d \<le> d' \<Longrightarrow> mappingsOk d' c"
  unfolding mappingsOk_def by (meson add_left_mono order_trans)

lemma mappingsOk_same:
  "omData c' = omData c \<Longrightarrow> omLocal c' = omLocal c \<Longrightarrow> mappingsOk d c \<Longrightarrow> mappingsOk d c'"
  by (simp add: mappingsOk_def served_def)

lemma arrival_ok: "mappingsOk d (c\<lparr>omData := Some ms, omLocal := ms, omDirty := False\<rparr>)"
  unfolding mappingsOk_def served_def by (rule exI [of _ "[]"]) simp

lemma submit_ok:
  assumes "mappingsOk d c" and "canSubmitMapping c"
  shows "mappingsOk d (c\<lparr>omLocal := omLocal c @ [formMapping (omForm c)], omDirty := True, omAddOpen := False\<rparr>)"
proof -
  obtain added where a: "subseq (omLocal c) (served c @ added)" "\<forall>m \<in> set added. completeMapping m"
    "length (served c @ added) \<le> length (omLocal c) + d" using assms(1) unfolding mappingsOk_def by blast
  have "subseq (omLocal c @ [formMapping (omForm c)]) ((served c @ added) @ [formMapping (omForm c)])"
    by (rule list_emb_append_mono [OF a(1)]) simp
  then show ?thesis using a(2,3) formMapping_complete [OF assms(2)] unfolding mappingsOk_def served_def
    by (intro exI [of _ "added @ [formMapping (omForm c)]"]) auto
qed

lemma delete_ok:
  assumes "mappingsOk d c" and "i < length (omLocal c)"
  shows "mappingsOk (Suc d) (c\<lparr>omLocal := dropIndex i (omLocal c), omDirty := True\<rparr>)"
proof -
  obtain added where a: "subseq (omLocal c) (served c @ added)" "\<forall>m \<in> set added. completeMapping m"
    "length (served c @ added) \<le> length (omLocal c) + d" using assms(1) unfolding mappingsOk_def by blast
  have "subseq (dropIndex i (omLocal c)) (served c @ added)" by (rule subseq_order.trans [OF subseq_dropIndex a(1)])
  then show ?thesis using a(2,3) length_dropIndex [OF assms(2)] unfolding mappingsOk_def served_def
    by (intro exI [of _ added]) auto
qed

lemma mappingStep_ok: "mappingsOk d c \<Longrightarrow> mappingsOk (d + deletes [e]) (fst (mappingStep e c))"
proof (cases e)
  case (PressDeleteMapping i)
  moreover assume "mappingsOk d c"
  moreover have "mappingsOk (Suc d) c" using mappingsOk_mono [OF \<open>mappingsOk d c\<close>] by simp
  ultimately show ?thesis using delete_ok by (simp add: deletes_def)
qed (simp_all add: deletes_def arrival_ok submit_ok mappingsOk_same onForm_def split: nat.split)

lemma mappingsAfter_snoc: "mappingsAfter (es @ [e]) = fst (mappingStep e (mappingsAfter es))"
  by (simp add: mappingsAfter_def)

lemma mappingsAfter_ok: "mappingsOk (deletes es) (mappingsAfter es)"
proof (induction es rule: rev_induct)
  case Nil
  show ?case unfolding mappingsOk_def served_def by (rule exI [of _ "[]"]) (simp add: mappingsAfter_def openMappings_def)
next
  case (snoc e es)
  have "deletes (es @ [e]) = deletes es + deletes [e]" by (simp add: deletes_def)
  then show ?case unfolding mappingsAfter_snoc using mappingStep_ok [OF snoc] by simp
qed

lemma send_mappings: "SendMappings ms \<in> set (snd (mappingStep e c)) \<Longrightarrow> canSaveMappings c \<and> ms = omLocal c"
  by (cases e) (auto split: if_splits nat.splits)

text \<open>
  A save of the mappings sends, in order, mappings of the list the server gave last, followed
  by mappings that were filled in completely in the dialog, and leaves out no more of them than delete buttons were
  pressed; it is sent for a changed list only, and never while another save is under way.
\<close>

theorem mappings_save_exact:
  assumes "SendMappings ms \<in> set (snd (mappingStep e (mappingsAfter es)))"
  shows "(\<exists>added. subseq ms (served (mappingsAfter es) @ added) \<and> (\<forall>m \<in> set added. completeMapping m) \<and>
      length (served (mappingsAfter es) @ added) \<le> length ms + deletes es) \<and>
    omDirty (mappingsAfter es) \<and> \<not> omPending (mappingsAfter es)"
  using send_mappings [OF assms] mappingsAfter_ok [of es] by (simp add: mappingsOk_def canSaveMappings_def)

definition sampleMapping :: OIDCGroupMapping where
  "sampleMapping = \<lparr>ogClaim = ''groups'', ogClaimValue = ''ops'', ogRoleId = ''viewer'', ogScope = ''host:*''\<rparr>"

definition mappingEdits :: "mapping_event list" where
  "mappingEdits = [MappingsArrive [sampleMapping, sampleMapping\<lparr>ogRoleId := ''old''\<rparr>], PressDeleteMapping 1]"

theorem mappings_save_exact_witness:
  "\<exists>added. subseq [sampleMapping] (served (mappingsAfter mappingEdits) @ added) \<and>
     length (served (mappingsAfter mappingEdits) @ added) \<le> 1 + deletes mappingEdits"
proof -
  have "SendMappings [sampleMapping] \<in> set (snd (mappingStep PressSaveMappings (mappingsAfter mappingEdits)))"
    by code_simp
  from mappings_save_exact [OF this] show ?thesis by auto
qed

section \<open>What a user of the mappings meets\<close>

text \<open>
  A first mapping is added, and the card still says that there is none: the table hangs on the list of the server.
  It cannot be taken back either.
\<close>

lemma first_mapping_invisible:
  assumes "omData c = Some []"
  shows "\<not> tableShown (fst (mappingStep SubmitMapping c)) \<and> mappingStep (PressDeleteMapping i) c = (c, [])"
  using assms by (simp add: tableShown_def)

text \<open>A list that arrives with a change drops every mapping that was added or deleted and not saved.\<close>

lemma refetch_drops_unsaved_mappings:
  assumes "omData c \<noteq> Some ms"
  shows "omLocal (fst (mappingStep (MappingsArrive ms) c)) = ms \<and> \<not> omDirty (fst (mappingStep (MappingsArrive ms) c))"
  using assms by simp

text \<open>A change of the roles, or their arrival, clears what was typed into the open dialog.\<close>

lemma roles_refetch_resets_form:
  assumes "omAddOpen c" and "omRoles c \<noteq> rs"
  shows "mfValue (omForm (fst (mappingStep (RolesArrive rs) c))) = []"
  using assms by (simp add: freshMapping_def)

text \<open>
  A mapping that is added while an accepted save waits for the list is no longer marked as unsaved once the wait is
  over, and cannot be saved.
\<close>

lemma edit_during_refetch_not_dirty:
  assumes "omFinishing c = 1"
  shows "\<not> canSaveMappings (fst (mappingStep RefetchDone (fst (mappingStep SubmitMapping c))))"
  using assms by (auto simp: canSaveMappings_def)

section \<open>Skins\<close>

record skin_info =
  siName :: string
  siBuiltIn :: bool

record skins_card =
  skSkins :: "skin_info list"
  skLoading :: bool
  skCaps :: "json option"
  skDefault :: string
  skOverridable :: bool
  skAllowed :: "string list"
  skDirty :: bool

definition DEFAULT_SKIN :: string where "DEFAULT_SKIN = ''basement-default''"

text \<open>\<open>caps.activeSkin || d\<close>, \<open>caps.userOverridableSkin || false\<close>, \<open>caps.allowedUserSkins || []\<close>.\<close>

definition capsDefault :: "json \<Rightarrow> string" where
  "capsDefault caps = (case getProp caps ''activeSkin'' of JStr s \<Rightarrow> if s = [] then DEFAULT_SKIN else s | _ \<Rightarrow> DEFAULT_SKIN)"

definition capsOverridable :: "json \<Rightarrow> bool" where
  "capsOverridable caps = truthy (getProp caps ''userOverridableSkin'')"

definition capsAllowed :: "json \<Rightarrow> string list" where
  "capsAllowed caps = strings (getProp caps ''allowedUserSkins'')"

definition openSkins :: skins_card where
  "openSkins = \<lparr>skSkins = [], skLoading = True, skCaps = None, skDefault = DEFAULT_SKIN, skOverridable = False,
     skAllowed = [], skDirty = False\<rparr>"

text \<open>The second effect; the first one, which runs when the organisation arrives.\<close>

definition isDirtyNow :: "skins_card \<Rightarrow> bool" where
  "isDirtyNow c = (case skCaps c of
       Some caps \<Rightarrow> skDefault c \<noteq> capsDefault caps \<or> skOverridable c \<noteq> capsOverridable caps \<or> skAllowed c \<noteq> capsAllowed caps
     | None \<Rightarrow> \<not> (skDefault c = DEFAULT_SKIN \<and> \<not> skOverridable c \<and> skAllowed c = []))"

definition trackDirty :: "skins_card \<Rightarrow> skins_card" where
  "trackDirty c = c\<lparr>skDirty := isDirtyNow c\<rparr>"

definition syncSkins :: "json \<Rightarrow> skins_card \<Rightarrow> skins_card" where
  "syncSkins caps c = c\<lparr>skCaps := Some caps, skDefault := capsDefault caps, skOverridable := capsOverridable caps,
     skAllowed := capsAllowed caps\<rparr>"

definition availableForSelection :: "skins_card \<Rightarrow> string list" where
  "availableForSelection c = (if skOverridable c \<and> skAllowed c \<noteq> [] then skAllowed c else map siName (skSkins c))"

text \<open>The requests of the card.\<close>

definition fetchSkins :: "json js" where
  "fetchSkins = fetchPlain ''/admin/skins'' (getReq ''/admin/skins'')"

definition skinBody :: "skins_card \<Rightarrow> json" where
  "skinBody c = JObj [(''activeSkin'', JStr (skDefault c)), (''userOverridableSkin'', JBool (skOverridable c)),
     (''allowedUserSkins'', jsonStrings (skAllowed c))]"

definition deleteSkin :: "string \<Rightarrow> unit js" where
  "deleteSkin name = awaitCall (callReq ''DELETE'' ''/admin/skins/{id}'' [(''id'', name)] JUndef) (\<lambda>_. Ret ())"

datatype skin_event =
    SkinsArrive "skin_info list"
  | SkinsLost
  | CapsArrive json
  | ChooseDefault string
  | FlipOverridable
  | ToggleSkin string
  | PressSaveSkins
  | SkinsSaved bool
  | PressDeleteSkin string bool
  | SkinDeleted string bool

datatype skin_out = SkinPatch json | SkinDelete string | FetchSkinsAgain | OutdateOrganisation | OutdateActiveSkin
  | SaySaved | SayNotSaved | SaySkinsLost | SayDeleted string | SayNotDeleted

text \<open>
  The flags of the answers tell whether the client threw; the one of a press on delete is the answer to the question
  of the browser. A box that is not checked can be checked, and the other way round; the list box reports a change
  only.
\<close>

fun skinStep :: "skin_event \<Rightarrow> skins_card \<Rightarrow> skins_card \<times> skin_out list" where
  "skinStep (SkinsArrive ss) c = (c\<lparr>skSkins := ss, skLoading := False\<rparr>, [])"
| "skinStep SkinsLost c = (c\<lparr>skLoading := False\<rparr>, [SaySkinsLost])"
| "skinStep (CapsArrive caps) c = (if skCaps c = Some caps then c else trackDirty (syncSkins caps c), [])"
| "skinStep (ChooseDefault s) c =
     (if \<not> skLoading c \<and> s \<in> siName ` set (skSkins c) \<and> s \<noteq> skDefault c then trackDirty (c\<lparr>skDefault := s\<rparr>) else c, [])"
| "skinStep FlipOverridable c =
     (if skLoading c then c else trackDirty (c\<lparr>skOverridable := \<not> skOverridable c\<rparr>), [])"
| "skinStep (ToggleSkin s) c =
     (if skLoading c \<or> \<not> skOverridable c \<or> s \<notin> siName ` set (skSkins c) then c
      else trackDirty (c\<lparr>skAllowed := (if s \<in> set (availableForSelection c) then filter (\<lambda>n. n \<noteq> s) (skAllowed c)
             else skAllowed c @ [s])\<rparr>), [])"
| "skinStep PressSaveSkins c = (c, if \<not> skLoading c \<and> skDirty c then [SkinPatch (skinBody c)] else [])"
| "skinStep (SkinsSaved threw) c =
     (if threw then (c, [SayNotSaved])
      else (c\<lparr>skDirty := False\<rparr>, [SaySaved, OutdateOrganisation, OutdateActiveSkin]))"
| "skinStep (PressDeleteSkin s confirmed) c =
     (c, if \<not> skLoading c \<and> (\<exists>i \<in> set (skSkins c). siName i = s \<and> \<not> siBuiltIn i) \<and> confirmed then [SkinDelete s] else [])"
| "skinStep (SkinDeleted s threw) c = (c, if threw then [SayNotDeleted] else [SayDeleted s, FetchSkinsAgain])"

definition skinsAfter :: "skin_event list \<Rightarrow> skins_card" where
  "skinsAfter es = foldl (\<lambda>c e. fst (skinStep e c)) openSkins es"

section \<open>What the skin card sends\<close>

text \<open>The skins the card has heard of: those the organisation permits, and those that were listed.\<close>

fun knownIn :: "skin_event \<Rightarrow> string set" where
  "knownIn (SkinsArrive ss) = siName ` set ss"
| "knownIn (CapsArrive caps) = insert (capsDefault caps) (set (capsAllowed caps))"
| "knownIn _ = {}"

fun plainCaps :: "skin_event \<Rightarrow> bool" where
  "plainCaps (CapsArrive caps) = distinct (capsAllowed caps)"
| "plainCaps _ = True"

definition skinsOk :: "string set \<Rightarrow> skins_card \<Rightarrow> bool" where
  "skinsOk K c \<longleftrightarrow> distinct (skAllowed c) \<and> set (skAllowed c) \<subseteq> K \<and> skDefault c \<in> insert DEFAULT_SKIN K \<and>
     siName ` set (skSkins c) \<subseteq> K"

lemma skinStep_ok:
  assumes "skinsOk K c" and "plainCaps e"
  shows "skinsOk (K \<union> knownIn e) (fst (skinStep e c))"
proof (cases e)
  case (ToggleSkin s)
  have "skOverridable c \<Longrightarrow> s \<notin> set (availableForSelection c) \<Longrightarrow> s \<notin> set (skAllowed c)"
    by (cases "skAllowed c = []") (simp_all add: availableForSelection_def)
  then show ?thesis using assms ToggleSkin by (auto simp: skinsOk_def trackDirty_def)
qed (use assms in \<open>auto simp: skinsOk_def trackDirty_def syncSkins_def\<close>)

lemma skinsAfter_ok:
  "list_all plainCaps es \<Longrightarrow> skinsOk (\<Union> (knownIn ` set es)) (skinsAfter es)"
proof (induction es rule: rev_induct)
  case Nil
  show ?case by (simp add: skinsAfter_def skinsOk_def openSkins_def)
next
  case (snoc e es)
  then have "skinsOk (\<Union> (knownIn ` set es) \<union> knownIn e) (fst (skinStep e (skinsAfter es)))"
    by (intro skinStep_ok) simp_all
  moreover have "\<Union> (knownIn ` set (es @ [e])) = \<Union> (knownIn ` set es) \<union> knownIn e" by auto
  ultimately show ?case by (simp add: skinsAfter_def)
qed

text \<open>
  What a save of the skins sends permits distinct skins only, each of which the server has named, and its default is
  one of them or the built-in default.
\<close>

lemma skin_save_known:
  assumes "list_all plainCaps es" and "SkinPatch body \<in> set (snd (skinStep e (skinsAfter es)))"
  shows "\<exists>d ok allowed. body = JObj [(''activeSkin'', JStr d), (''userOverridableSkin'', JBool ok),
      (''allowedUserSkins'', jsonStrings allowed)] \<and> distinct allowed \<and>
    insert d (set allowed) \<subseteq> insert DEFAULT_SKIN (\<Union> (knownIn ` set es))"
proof -
  have "body = skinBody (skinsAfter es)" using assms(2) by (cases e) (auto split: if_splits)
  then show ?thesis using skinsAfter_ok [OF assms(1)] unfolding skinBody_def skinsOk_def by auto
qed

text \<open>Deletion: only listed skins that are not built in, and only after the question was answered with yes.\<close>

lemma skin_delete_confirmed:
  assumes "SkinDelete s \<in> set (snd (skinStep e c))"
  shows "e = PressDeleteSkin s True \<and> (\<exists>i \<in> set (skSkins c). siName i = s \<and> \<not> siBuiltIn i)"
  using assms by (cases e) (auto split: if_splits)

section \<open>What a user of the skin card meets\<close>

text \<open>
  With an empty list every skin is permitted and every box is checked; no sequence of clicks on the boxes makes the
  list anything else.
\<close>

lemma allow_all_cannot_be_narrowed:
  "skAllowed c = [] \<Longrightarrow> skAllowed (foldl (\<lambda>c s. fst (skinStep (ToggleSkin s) c)) c ss) = []"
proof (induction ss arbitrary: c)
  case (Cons s ss)
  then have "skAllowed (fst (skinStep (ToggleSkin s) c)) = []" by (auto simp: trackDirty_def availableForSelection_def)
  then show ?case using Cons.IH by simp
qed simp

text \<open>Unchecking the last permitted skin permits all of them.\<close>

lemma last_uncheck_allows_all:
  assumes "\<not> skLoading c" "skOverridable c" "skAllowed c = [s]" "s \<in> siName ` set (skSkins c)"
  shows "availableForSelection (fst (skinStep (ToggleSkin s) c)) = map siName (skSkins c)"
  using assms by (simp add: trackDirty_def availableForSelection_def)

text \<open>
  A refused save throws nothing: the card says that it saved, shows no unsaved change any more and disables its
  button, although its choices are not those of the organisation. The organisation that is fetched again is the old
  one and changes nothing.
\<close>

lemma refused_skin_save_says_saved:
  assumes "onCall b h (callReq ''PATCH'' ''/admin/system'' [] (skinBody c)) = Some res" and "skCaps c = Some caps"
  shows "snd (run (patchSystem (skinBody c)) b h) = Inr () \<and>
    skinStep (SkinsSaved False) c = (c\<lparr>skDirty := False\<rparr>, [SaySaved, OutdateOrganisation, OutdateActiveSkin]) \<and>
    skinStep PressSaveSkins (fst (skinStep (CapsArrive caps) (c\<lparr>skDirty := False\<rparr>))) = (c\<lparr>skDirty := False\<rparr>, [])"
  using assms by (simp add: patchSystem_def awaitCall_def)

text \<open>The same for a refused deletion.\<close>

lemma refused_skin_delete_announced:
  assumes "onCall b h (callReq ''DELETE'' ''/admin/skins/{id}'' [(''id'', s)] JUndef) = Some res"
  shows "snd (run (deleteSkin s) b h) = Inr () \<and> SayDeleted s \<in> set (snd (skinStep (SkinDeleted s False) c))"
  using assms by (simp add: deleteSkin_def awaitCall_def)

section \<open>The status of a gateway\<close>

text \<open>\<open>humanRelative\<close>; \<open>Math.round\<close> of a quotient. The milliseconds of the text are a parameter.\<close>

definition roundDiv :: "int \<Rightarrow> int \<Rightarrow> int" where
  "roundDiv a b = (2 * a + b) div (2 * b)"

definition humanRelative :: "(string \<Rightarrow> int option) \<Rightarrow> int \<Rightarrow> string \<Rightarrow> string" where
  "humanRelative parseDate now iso8601 = (case parseDate iso8601 of None \<Rightarrow> emDash
     | Some t \<Rightarrow>
        (let diff = now - t; sec = roundDiv diff 1000; mins = roundDiv sec 60; hr = roundDiv mins 60; days = roundDiv hr 24
         in if diff < 0 then ''in the future'' else if sec < 60 then decInt sec @ ''s ago''
            else if mins < 60 then decInt mins @ ''m ago'' else if hr < 24 then decInt hr @ ''h ago''
            else decInt days @ ''d ago''))"

definition CHIPS :: "(string \<times> string) list" where
  "CHIPS = [(''read'', ''read''), (''write'', ''write''), (''delete'', ''delete''), (''move'', ''move''), (''lock'', ''lock''),
     (''basicAuth'', ''basic-auth''), (''bearerAuth'', ''bearer-auth''), (''sigV4Auth'', ''sigv4-auth'')]"

definition capabilityChips :: "json \<Rightarrow> string list" where
  "capabilityChips caps = map snd (filter (\<lambda>(k, _). truthy (getProp caps k)) CHIPS)"

text \<open>The title of the pill of a running gateway, in its parts.\<close>

definition pillTitle :: "json \<Rightarrow> string list" where
  "pillTitle status = ''Running'' #
     (case getProp status ''activeConnections'' of JNum n \<Rightarrow>
        [decInt n @ '' active connection'' @ (if n = 1 then [] else ''s'')] | _ \<Rightarrow> []) @
     (case getProp status ''totalRequests'' of JNum n \<Rightarrow> [decInt n @ '' total requests''] | _ \<Rightarrow> [])"

text \<open>Each rounding may add half a unit: an activity an hour and a half ago is reported as two hours.\<close>

lemma activity_rounded_twice: "humanRelative (\<lambda>_. Some 0) (89 * 60000 + 30000) s = ''2h ago''"
  by (simp add: humanRelative_def roundDiv_def Let_def) code_simp

end
