(* ===== verification/Cluster_Page.thy ===== *)
theory Cluster_Page
  imports Session Confirm_Dialogs Cluster_Hooks Admin_Hooks
begin

text \<open>
  The page of one cluster (\<open>routes/admin/clusters/$cid/index.tsx\<close>): the queries it makes, the deletion of the
  cluster, the section of its administrators with the dialog that adds one, and the section of its envelope
  encryption with the two dialogs that ask for a password. A request is under way until the elevation guard is
  through with it.
\<close>

section \<open>Who may see what\<close>

text \<open>The two capabilities the sections hang on; \<open>may\<close> is the check of the session.\<close>

definition canContents :: "(string \<Rightarrow> bool) \<Rightarrow> bool" where
  "canContents may = may (cap ''CLUSTER_CONTENTS_READ'')"

definition canWiringDelete :: "(string \<Rightarrow> bool) \<Rightarrow> bool" where
  "canWiringDelete may = may (cap ''CLUSTER_WIRING_DELETE'')"

text \<open>The queries of the page, and those of the sections and rows below it.\<close>

definition headQueries :: "(string \<Rightarrow> bool) \<Rightarrow> string \<Rightarrow> query list" where
  "headQueries may cid = [useGetCluster cid, useNodes cid (canContents may), useCapabilities,
     useClusterBuckets cid (canContents may), useClusterKeys cid (canContents may),
     useClusterLockStatus cid (canContents may), useTestClusterQuery cid (Some True)]"

definition sectionQueries :: "(string \<Rightarrow> bool) \<Rightarrow> string \<Rightarrow> string list \<Rightarrow> string list \<Rightarrow> query list" where
  "sectionQueries may cid bucketIds keyIds =
     (if canContents may
      then [useClusterAdmins cid True, useClusterLockStatus cid True] @ map (useBucket cid) (take 8 bucketIds) @
        map (useKey cid) (take 8 keyIds)
      else [])"

definition clusterPageQueries :: "(string \<Rightarrow> bool) \<Rightarrow> string \<Rightarrow> string list \<Rightarrow> string list \<Rightarrow> query list" where
  "clusterPageQueries may cid bucketIds keyIds =
     filter (\<lambda>q. qEnabled q) (headQueries may cid @ sectionQueries may cid bucketIds keyIds)"

section \<open>The status pill\<close>

datatype cluster_status = Healthy | Degraded | Unavailable | Checking

definition getStatusFromResult :: "json \<Rightarrow> cluster_status" where
  "getStatusFromResult result =
     (if \<not> truthy (getProp result ''ok'') then Unavailable
      else (case getProp result ''message'' of JStr m \<Rightarrow> if containsSub (toLowerCase m) ''degraded'' then Degraded else Healthy
        | _ \<Rightarrow> Healthy))"

definition clusterStatus :: "json option \<Rightarrow> bool \<Rightarrow> bool \<Rightarrow> cluster_status" where
  "clusterStatus testResult isFetching isPending =
     (case testResult of Some r \<Rightarrow> getStatusFromResult r
      | None \<Rightarrow> if isFetching \<or> isPending then Checking else Unavailable)"

section \<open>The dialog of a new administrator\<close>

record add_admin =
  adUsers :: "string list"
  adError :: bool
  adUser :: string
  adRole :: string
  adAssigning :: bool

definition availableRoles :: "PolicyRole list \<Rightarrow> string list" where
  "availableRoles roles = map plId (filter (\<lambda>r. plDeprecated r \<noteq> Some True) roles)"

definition defaultRoleId :: "PolicyRole list \<Rightarrow> string" where
  "defaultRoleId roles =
     (if ''cluster_admin'' \<in> set (availableRoles roles) then ''cluster_admin''
      else (case availableRoles roles of [] \<Rightarrow> [] | r # _ \<Rightarrow> r))"

definition mountAddAdmin :: "PolicyRole list \<Rightarrow> add_admin" where
  "mountAddAdmin roles = \<lparr>adUsers = [], adError = False, adUser = [], adRole = defaultRoleId roles, adAssigning = False\<rparr>"

text \<open>The effect that fills in a role once there is one.\<close>

definition seedRoleId :: "PolicyRole list \<Rightarrow> add_admin \<Rightarrow> add_admin" where
  "seedRoleId roles d = (if adRole d = [] then d\<lparr>adRole := defaultRoleId roles\<rparr> else d)"

section \<open>The dialog of an encryption administrator\<close>

record password_dialog =
  pdUser :: string
  pdPassword :: string
  pdOpenKey :: bool

definition blankPassword :: password_dialog where
  "blankPassword = \<lparr>pdUser = [], pdPassword = [], pdOpenKey = False\<rparr>"

text \<open>The state the dialog sets while it renders.\<close>

definition renderPassword :: "bool \<Rightarrow> password_dialog \<Rightarrow> password_dialog" where
  "renderPassword isOpen d =
     (if isOpen \<and> \<not> pdOpenKey d then d\<lparr>pdOpenKey := True\<rparr>
      else if \<not> isOpen \<and> pdOpenKey d then d\<lparr>pdOpenKey := False, pdUser := [], pdPassword := []\<rparr> else d)"

datatype which_dialog = AddDialog | BootstrapDialog

section \<open>The page\<close>

record cluster_admin =
  caUser :: string
  caDisplay :: "string option"
  caRole :: string
  caScope :: string
  caSource :: string
  caInherited :: bool

definition displayLabel :: "cluster_admin \<Rightarrow> string" where
  "displayLabel a = (case caDisplay a of
       Some n \<Rightarrow> if trim n \<noteq> [] then n @ '' ('' @ caUser a @ '')'' else caUser a
     | None \<Rightarrow> caUser a)"

record lock_status =
  lsUnlocked :: bool
  lsHasCsk :: bool
  lsAdmins :: "string list"

text \<open>
  \<open>cpDeleteOpen\<close> belongs to the page, \<open>cpDelete\<close> to the dialog; \<open>cpAdd = None\<close> while the dialog of a new
  administrator is not mounted. \<open>cpSubmitting\<close> is the dialog whose request was made last: the callbacks of an
  earlier one are dropped.
\<close>

record cluster_page =
  cpCid :: string
  cpLabel :: string
  cpContents :: bool
  cpWiringDelete :: bool
  cpFailed :: bool
  cpTestPending :: bool
  cpDeleteOpen :: bool
  cpDelete :: confirm_dialog
  cpDeleting :: bool
  cpRoles :: "PolicyRole list"
  cpAdmins :: "cluster_admin list"
  cpRevoking :: "cluster_admin list"
  cpAdd :: "add_admin option"
  cpLock :: "lock_status option"
  cpAddOpen :: bool
  cpAddDialog :: password_dialog
  cpBootOpen :: bool
  cpBootDialog :: password_dialog
  cpSubmitting :: "which_dialog option"
  cpRemoving :: bool
  cpLocking :: bool

definition openClusterPage :: "(string \<Rightarrow> bool) \<Rightarrow> string \<Rightarrow> string \<Rightarrow> cluster_page" where
  "openClusterPage may cid label = \<lparr>cpCid = cid, cpLabel = label, cpContents = canContents may,
     cpWiringDelete = canWiringDelete may, cpFailed = False, cpTestPending = True, cpDeleteOpen = False,
     cpDelete = closedConfirm, cpDeleting = False, cpRoles = [], cpAdmins = [], cpRevoking = [], cpAdd = None,
     cpLock = None, cpAddOpen = False, cpAddDialog = blankPassword, cpBootOpen = False, cpBootDialog = blankPassword,
     cpSubmitting = None, cpRemoving = False, cpLocking = False\<rparr>"

datatype cluster_page_event =
    ClusterArrives string
  | ClusterFails
  | TestSettled
  | OpenClusterDelete
  | TypeClusterName string
  | CloseClusterDelete
  | ConfirmClusterDelete
  | ClusterDeleteSettled
  | ClusterRolesArrive "PolicyRole list"
  | AdminsArrive "cluster_admin list"
  | PressRevoke cluster_admin bool
  | RevokeSettled cluster_admin
  | OpenAddAdmin
  | CloseAddAdmin
  | UsersArrive "string list"
  | UsersRefused
  | ChooseUser string
  | ChooseAdminRole string
  | PressAssign
  | AssignSettled bool
  | LockArrives lock_status
  | PressLock
  | LockSettled
  | PressUnlock
  | PressRemoveAdmin string bool
  | RemoveSettled
  | OpenPassword which_dialog
  | ClosePassword which_dialog
  | TypeAdminUser which_dialog string
  | TypeAdminPassword which_dialog string
  | EnterInPassword which_dialog
  | PressSavePassword which_dialog
  | AdminAdded bool

datatype cluster_request =
    DeleteThisCluster
  | RevokeAdmin PolicyAssignment
  | AssignAdmin PolicyAssignment
  | WrapAdmin string string
  | UnwrapAdmin string
  | LockThisCluster

fun clusterAction :: "string \<Rightarrow> cluster_request \<Rightarrow> json js" where
  "clusterAction cid DeleteThisCluster = mutationFn useDeleteCluster cid"
| "clusterAction cid (RevokeAdmin a) = mutationFn useUnassignRole a"
| "clusterAction cid (AssignAdmin a) = mutationFn useAssignRole a"
| "clusterAction cid (WrapAdmin u p) = mutationFn (useAddClusterAdmin cid) (u, p)"
| "clusterAction cid (UnwrapAdmin u) = mutationFn (useRemoveClusterAdmin cid) u"
| "clusterAction cid LockThisCluster = mutationFn (useLockCluster cid) ()"

text \<open>One of the two password dialogs.\<close>

fun pwOpen :: "which_dialog \<Rightarrow> cluster_page \<Rightarrow> bool" where
  "pwOpen AddDialog p = cpAddOpen p"
| "pwOpen BootstrapDialog p = cpBootOpen p"

fun setPwOpen :: "which_dialog \<Rightarrow> bool \<Rightarrow> cluster_page \<Rightarrow> cluster_page" where
  "setPwOpen AddDialog b p = p\<lparr>cpAddOpen := b\<rparr>"
| "setPwOpen BootstrapDialog b p = p\<lparr>cpBootOpen := b\<rparr>"

fun pwDialog :: "which_dialog \<Rightarrow> cluster_page \<Rightarrow> password_dialog" where
  "pwDialog AddDialog p = cpAddDialog p"
| "pwDialog BootstrapDialog p = cpBootDialog p"

fun setPwDialog :: "which_dialog \<Rightarrow> password_dialog \<Rightarrow> cluster_page \<Rightarrow> cluster_page" where
  "setPwDialog AddDialog d p = p\<lparr>cpAddDialog := d\<rparr>"
| "setPwDialog BootstrapDialog d p = p\<lparr>cpBootDialog := d\<rparr>"

text \<open>\<open>submit\<close>: it does not look at \<open>pending\<close>; the button that calls it does.\<close>

definition submitAdmin :: "which_dialog \<Rightarrow> cluster_page \<Rightarrow> cluster_page \<times> cluster_request list" where
  "submitAdmin w p =
     (let d = pwDialog w p in
      if \<not> pwOpen w p \<or> pdUser d = [] \<or> pdPassword d = [] then (p, [])
      else (p\<lparr>cpSubmitting := Some w\<rparr>, [WrapAdmin (pdUser d) (pdPassword d)]))"

definition passwordButton :: "which_dialog \<Rightarrow> cluster_page \<Rightarrow> bool" where
  "passwordButton w p \<longleftrightarrow> pwOpen w p \<and> cpSubmitting p = None \<and> pdUser (pwDialog w p) \<noteq> [] \<and> pdPassword (pwDialog w p) \<noteq> []"

text \<open>The buttons that open the two dialogs.\<close>

fun passwordOffered :: "which_dialog \<Rightarrow> lock_status \<Rightarrow> bool" where
  "passwordOffered AddDialog s = (lsHasCsk s \<and> lsUnlocked s)"
| "passwordOffered BootstrapDialog s = (\<not> lsHasCsk s)"

text \<open>\<open>handleAssign\<close>; the scope is that of the page.\<close>

definition handleAssign :: "cluster_page \<Rightarrow> add_admin \<Rightarrow> cluster_page \<times> cluster_request list" where
  "handleAssign p d =
     (if adAssigning d \<or> trim (adUser d) = [] \<or> adRole d = [] then (p, [])
      else (p\<lparr>cpAdd := Some (d\<lparr>adAssigning := True\<rparr>)\<rparr>,
        [AssignAdmin \<lparr>paUserId = trim (adUser d), paRoleId = adRole d, paScope = ''cluster:'' @ cpCid p\<rparr>]))"

text \<open>
  A failed refetch replaces the page, though the cluster is still known: everything below it is unmounted, and what
  the page itself holds stays.
\<close>

definition unmountBelow :: "cluster_page \<Rightarrow> cluster_page" where
  "unmountBelow p = p\<lparr>cpFailed := True, cpRevoking := [], cpAdd := None, cpAddOpen := False, cpAddDialog := blankPassword,
     cpBootOpen := False, cpBootDialog := blankPassword, cpSubmitting := None, cpRemoving := False, cpLocking := False\<rparr>"

text \<open>Typing into a dialog that is open.\<close>

definition inDialog :: "(password_dialog \<Rightarrow> password_dialog) \<Rightarrow> which_dialog \<Rightarrow> cluster_page \<Rightarrow> cluster_page" where
  "inDialog f w p = (if pwOpen w p then setPwDialog w (f (pwDialog w p)) p else p)"

definition inAdd :: "(add_admin \<Rightarrow> add_admin) \<Rightarrow> cluster_page \<Rightarrow> cluster_page" where
  "inAdd f p = p\<lparr>cpAdd := map_option f (cpAdd p)\<rparr>"

text \<open>What happens on the page while its sections are shown.\<close>

fun sectionMove :: "cluster_page_event \<Rightarrow> cluster_page \<Rightarrow> cluster_page \<times> cluster_request list" where
  "sectionMove (ClusterRolesArrive rs) p = (inAdd (seedRoleId rs) (p\<lparr>cpRoles := rs\<rparr>), [])"
| "sectionMove (AdminsArrive as) p = (p\<lparr>cpAdmins := as, cpRevoking := filter (\<lambda>a. a \<in> set as) (cpRevoking p)\<rparr>, [])"
| "sectionMove (PressRevoke a confirmed) p =
     (if a \<in> set (cpAdmins p) \<and> \<not> caInherited a \<and> a \<notin> set (cpRevoking p) \<and> confirmed
      then (p\<lparr>cpRevoking := a # cpRevoking p\<rparr>,
        [RevokeAdmin \<lparr>paUserId = caUser a, paRoleId = caRole a, paScope = caScope a\<rparr>]) else (p, []))"
| "sectionMove (RevokeSettled a) p = (p\<lparr>cpRevoking := removeAll a (cpRevoking p)\<rparr>, [])"
| "sectionMove OpenAddAdmin p = (if cpAdd p = None then p\<lparr>cpAdd := Some (mountAddAdmin (cpRoles p))\<rparr> else p, [])"
| "sectionMove CloseAddAdmin p = (p\<lparr>cpAdd := None\<rparr>, [])"
| "sectionMove (UsersArrive us) p = (inAdd (\<lambda>d. d\<lparr>adUsers := us\<rparr>) p, [])"
| "sectionMove UsersRefused p = (inAdd (\<lambda>d. d\<lparr>adError := True\<rparr>) p, [])"
| "sectionMove (ChooseUser u) p =
     (inAdd (\<lambda>d. if adError d \<or> adUsers d \<noteq> [] \<and> (u = [] \<or> u \<in> set (adUsers d)) then d\<lparr>adUser := u\<rparr> else d) p, [])"
| "sectionMove (ChooseAdminRole r) p =
     (if r \<in> set (availableRoles (cpRoles p)) then inAdd (\<lambda>d. seedRoleId (cpRoles p) (d\<lparr>adRole := r\<rparr>)) p else p, [])"
| "sectionMove PressAssign p = (case cpAdd p of None \<Rightarrow> (p, []) | Some d \<Rightarrow> handleAssign p d)"
| "sectionMove (AssignSettled ok) p =
     (if ok then p\<lparr>cpAdd := None\<rparr> else inAdd (\<lambda>d. d\<lparr>adAssigning := False\<rparr>) p, [])"
| "sectionMove (LockArrives s) p = (p\<lparr>cpLock := Some s\<rparr>, [])"
| "sectionMove PressLock p =
     (case cpLock p of None \<Rightarrow> (p, [])
      | Some s \<Rightarrow> if lsHasCsk s \<and> lsUnlocked s \<and> \<not> cpLocking p then (p\<lparr>cpLocking := True\<rparr>, [LockThisCluster]) else (p, []))"
| "sectionMove LockSettled p = (p\<lparr>cpLocking := False\<rparr>, [])"
| "sectionMove (PressRemoveAdmin u confirmed) p =
     (case cpLock p of None \<Rightarrow> (p, [])
      | Some s \<Rightarrow> if lsHasCsk s \<and> u \<in> set (lsAdmins s) \<and> \<not> cpRemoving p \<and> confirmed
          then (p\<lparr>cpRemoving := True\<rparr>, [UnwrapAdmin u]) else (p, []))"
| "sectionMove RemoveSettled p = (p\<lparr>cpRemoving := False\<rparr>, [])"
| "sectionMove (OpenPassword w) p =
     (case cpLock p of None \<Rightarrow> p | Some s \<Rightarrow> if passwordOffered w s then setPwOpen w True p else p, [])"
| "sectionMove (ClosePassword w) p = (setPwOpen w False p, [])"
| "sectionMove (TypeAdminUser w s) p = (inDialog (\<lambda>d. d\<lparr>pdUser := s\<rparr>) w p, [])"
| "sectionMove (TypeAdminPassword w s) p = (inDialog (\<lambda>d. d\<lparr>pdPassword := s\<rparr>) w p, [])"
| "sectionMove (EnterInPassword w) p = submitAdmin w p"
| "sectionMove (PressSavePassword w) p = (if passwordButton w p then submitAdmin w p else (p, []))"
| "sectionMove (AdminAdded ok) p =
     (case cpSubmitting p of None \<Rightarrow> p
      | Some w \<Rightarrow> (if ok then setPwOpen w False p else p)\<lparr>cpSubmitting := None\<rparr>, [])"
| "sectionMove _ p = (p, [])"

text \<open>\<open>ConfirmClusterDelete\<close> closes the dialog before it asks for elevation.\<close>

fun clusterMove :: "cluster_page_event \<Rightarrow> cluster_page \<Rightarrow> cluster_page \<times> cluster_request list" where
  "clusterMove (ClusterArrives l) p = (p\<lparr>cpLabel := l, cpFailed := False\<rparr>, [])"
| "clusterMove ClusterFails p = (unmountBelow p, [])"
| "clusterMove TestSettled p = (p\<lparr>cpTestPending := False\<rparr>, [])"
| "clusterMove OpenClusterDelete p =
     (if cpWiringDelete p \<and> \<not> cpTestPending p \<and> \<not> cpFailed p then p\<lparr>cpDeleteOpen := True\<rparr> else p, [])"
| "clusterMove (TypeClusterName s) p = (p\<lparr>cpDelete := typeConfirm s (cpDelete p)\<rparr>, [])"
| "clusterMove CloseClusterDelete p = (if cpFailed p then p else p\<lparr>cpDeleteOpen := False\<rparr>, [])"
| "clusterMove ConfirmClusterDelete p =
     (if confirmEnabled (cpLabel p) (cpDeleting p) (cpDelete p)
      then (p\<lparr>cpDeleteOpen := False, cpDeleting := True\<rparr>, [DeleteThisCluster]) else (p, []))"
| "clusterMove ClusterDeleteSettled p = (p\<lparr>cpDeleting := False\<rparr>, [])"
| "clusterMove e p = (if cpFailed p \<or> \<not> cpContents p then (p, []) else sectionMove e p)"

text \<open>What the dialogs set while they render.\<close>

definition renderClusterPage :: "cluster_page \<Rightarrow> cluster_page" where
  "renderClusterPage p = p\<lparr>
     cpDelete := renderConfirm (cpLabel p) ((cpDelete p)\<lparr>cfOpen := cpDeleteOpen p \<and> \<not> cpFailed p\<rparr>),
     cpAddDialog := renderPassword (cpAddOpen p) (cpAddDialog p),
     cpBootDialog := renderPassword (cpBootOpen p) (cpBootDialog p)\<rparr>"

definition clusterPageStep :: "cluster_page_event \<Rightarrow> cluster_page \<Rightarrow> cluster_page \<times> cluster_request list" where
  "clusterPageStep e p = (renderClusterPage (fst (clusterMove e p)), snd (clusterMove e p))"

definition clusterPageAfter :: "(string \<Rightarrow> bool) \<Rightarrow> string \<Rightarrow> string \<Rightarrow> cluster_page_event list \<Rightarrow> cluster_page" where
  "clusterPageAfter may cid label es = foldl (\<lambda>p e. fst (clusterPageStep e p)) (openClusterPage may cid label) es"

section \<open>The queries are those the capability allows\<close>

text \<open>
  Without the capability to read the contents of a cluster no query on its contents is made: what remains is the
  cluster itself, what the deployment can do, and the connection test. With it, the rows make at most sixteen
  queries of their own.
\<close>

lemma contents_queries_gated:
  assumes "\<not> canContents may"
  shows "map queryKey (clusterPageQueries may cid bs ks) =
    (if cid = [] then [[KS ''capabilities'']]
     else [clusterKey cid [], [KS ''capabilities''], clusterKey cid [KS ''_test'']])"
  using assms by (simp add: clusterPageQueries_def headQueries_def sectionQueries_def hook_defs)

lemma row_queries_bounded: "length (clusterPageQueries may cid bs ks) \<le> 25"
proof -
  have "length (headQueries may cid @ sectionQueries may cid bs ks) \<le> 25"
    by (simp add: headQueries_def sectionQueries_def min_def)
  then show ?thesis unfolding clusterPageQueries_def by (rule order_trans [OF length_filter_le])
qed

section \<open>The deletion of the cluster\<close>

fun clusterTyped :: "cluster_page_event \<Rightarrow> string option" where
  "clusterTyped (TypeClusterName s) = Some s"
| "clusterTyped _ = None"

lemma setPw_same [simp]:
  "cpDelete (setPwOpen w b p) = cpDelete p" "cpDelete (setPwDialog w d p) = cpDelete p"
  "cpCid (setPwOpen w b p) = cpCid p" "cpCid (setPwDialog w d p) = cpCid p"
  "cpRoles (setPwOpen w b p) = cpRoles p" "cpRoles (setPwDialog w d p) = cpRoles p"
  "cpAdd (setPwOpen w b p) = cpAdd p" "cpAdd (setPwDialog w d p) = cpAdd p"
  by (cases w; simp)+

lemma submitAdmin_same [simp]:
  "cpDelete (fst (submitAdmin w p)) = cpDelete p" "cpCid (fst (submitAdmin w p)) = cpCid p"
  "cpRoles (fst (submitAdmin w p)) = cpRoles p" "cpAdd (fst (submitAdmin w p)) = cpAdd p"
  by (simp_all add: submitAdmin_def Let_def)

lemma handleAssign_same [simp]:
  "cpDelete (fst (handleAssign p d)) = cpDelete p" "cpCid (fst (handleAssign p d)) = cpCid p"
  by (simp_all add: handleAssign_def)

lemma sectionMove_same:
  "cpDelete (fst (sectionMove e p)) = cpDelete p \<and> cpCid (fst (sectionMove e p)) = cpCid p"
  by (cases e) (simp_all add: inAdd_def inDialog_def split: option.split)

lemma clusterMove_delete:
  "cfSeen (cpDelete (fst (clusterMove e p))) = cfSeen (cpDelete p) \<and>
   (cfTyped (cpDelete (fst (clusterMove e p))) = cfTyped (cpDelete p) \<or>
    clusterTyped e = Some (cfTyped (cpDelete (fst (clusterMove e p)))))"
  by (cases e) (simp_all add: sectionMove_same unmountBelow_def typeConfirm_def del: sectionMove.simps)

interpretation cluster_delete: confirm_page "\<lambda>e p. fst (clusterPageStep e p)" cpLabel cpDelete clusterTyped
proof unfold_locales
  fix e p
  let ?q = "fst (clusterMove e p)"
  show "\<exists>d. cpDelete (fst (clusterPageStep e p)) = renderConfirm (cpLabel (fst (clusterPageStep e p))) d \<and>
      cfSeen d = cfSeen (cpDelete p) \<and> (cfTyped d = cfTyped (cpDelete p) \<or> clusterTyped e = Some (cfTyped d))"
    using clusterMove_delete [of e p]
    by (intro exI [of _ "(cpDelete ?q)\<lparr>cfOpen := cpDeleteOpen ?q \<and> \<not> cpFailed ?q\<rparr>"])
      (simp add: clusterPageStep_def renderClusterPage_def)
qed

lemma clusterTyped_Some: "clusterTyped e = Some s \<Longrightarrow> e = TypeClusterName s"
  by (cases e) simp_all

lemma sectionMove_no_delete: "DeleteThisCluster \<notin> set (snd (sectionMove e p))"
  by (cases e) (auto simp: submitAdmin_def handleAssign_def Let_def split: option.splits)

lemma delete_confirmed:
  "DeleteThisCluster \<in> set (snd (clusterPageStep e p)) \<Longrightarrow>
   e = ConfirmClusterDelete \<and> confirmEnabled (cpLabel p) (cpDeleting p) (cpDelete p)"
  unfolding clusterPageStep_def
  by (cases e) (simp_all add: sectionMove_no_delete del: sectionMove.simps split: if_splits)

text \<open>
  A cluster with a label is deleted only by the button of the dialog, and only after that
  label, up to surrounding blanks, was typed into it while it stood open under this very label.
\<close>

theorem cluster_delete_typed:
  assumes "p = clusterPageAfter may cid label es" and "DeleteThisCluster \<in> set (snd (clusterPageStep e p))"
    and "cpLabel p \<noteq> []"
  shows "e = ConfirmClusterDelete \<and>
    (\<exists>es1 s es2. es = es1 @ TypeClusterName s # es2 \<and> trim s = cpLabel p \<and>
      (\<forall>k \<le> length es2. let q = clusterPageAfter may cid label (es1 @ TypeClusterName s # take k es2)
        in cfOpen (cpDelete q) \<and> cpLabel q = cpLabel p))"
proof -
  note e = delete_confirmed [OF assms(2)]
  have run: "clusterPageAfter may cid label xs = cluster_delete.pageRun xs (openClusterPage may cid label)" for xs
    by (simp add: cluster_delete.pageRun_def clusterPageAfter_def)
  from cluster_delete.confirmed_after_typing [of "openClusterPage may cid label" es "cpDeleting p"] e assms(3)
  show ?thesis unfolding assms(1) run
    by (auto simp: openClusterPage_def closedConfirm_def Let_def dest!: clusterTyped_Some)
qed

text \<open>An operator who may delete connections deletes one.\<close>

definition deleteTour :: "cluster_page_event list" where
  "deleteTour = [TestSettled, OpenClusterDelete, TypeClusterName ''prod '']"

theorem cluster_delete_typed_witness:
  "\<exists>es1 s es2. deleteTour = es1 @ TypeClusterName s # es2 \<and> trim s = ''prod''"
proof -
  let ?p = "clusterPageAfter (\<lambda>_. True) ''c1'' ''prod'' deleteTour"
  have d: "DeleteThisCluster \<in> set (snd (clusterPageStep ConfirmClusterDelete ?p))" by code_simp
  have l: "cpLabel ?p = ''prod''" by code_simp
  from cluster_delete_typed [OF refl d] show ?thesis unfolding l by auto
qed

section \<open>Administrators\<close>

text \<open>The roles the dialog has ever been offered.\<close>

fun rolesIn :: "cluster_page_event \<Rightarrow> string set" where
  "rolesIn (ClusterRolesArrive rs) = set (availableRoles rs)"
| "rolesIn _ = {}"

definition adminOk :: "string set \<Rightarrow> string \<Rightarrow> cluster_page \<Rightarrow> bool" where
  "adminOk R cid p \<longleftrightarrow> cpCid p = cid \<and> set (availableRoles (cpRoles p)) \<subseteq> R \<and>
     (\<forall>d. cpAdd p = Some d \<longrightarrow> adRole d \<in> insert [] R)"

lemma defaultRole_available: "defaultRoleId rs \<in> insert [] (set (availableRoles rs))"
  by (auto simp: defaultRoleId_def split: list.split)

lemma seedRole_in: "adRole d \<in> insert [] R \<Longrightarrow> set (availableRoles rs) \<subseteq> R \<Longrightarrow> adRole (seedRoleId rs d) \<in> insert [] R"
  using defaultRole_available [of rs] by (auto simp: seedRoleId_def)

lemma adminOk_mono: "adminOk R cid p \<Longrightarrow> R \<subseteq> R' \<Longrightarrow> adminOk R' cid p"
  by (auto simp: adminOk_def)

lemma adminOk_same:
  "cpCid q = cpCid p \<Longrightarrow> cpRoles q = cpRoles p \<Longrightarrow> cpAdd q = cpAdd p \<or> cpAdd q = None \<Longrightarrow> adminOk R cid p \<Longrightarrow> adminOk R cid q"
  by (auto simp: adminOk_def)

lemma inAdd_ok:
  assumes "adminOk R cid p" and "\<And>d. adRole d \<in> insert [] R \<Longrightarrow> adRole (f d) \<in> insert [] R"
  shows "adminOk R cid (inAdd f p)"
  using assms by (auto simp: adminOk_def inAdd_def)

lemma inAdd_keep: "adminOk R cid p \<Longrightarrow> (\<And>d. adRole (f d) = adRole d) \<Longrightarrow> adminOk R cid (inAdd f p)"
  by (rule inAdd_ok) simp_all

lemma handleAssign_ok: "adminOk R cid p \<Longrightarrow> cpAdd p = Some d \<Longrightarrow> adminOk R cid (fst (handleAssign p d))"
  by (auto simp: adminOk_def handleAssign_def)

lemma sectionMove_admin: "adminOk R cid p \<Longrightarrow> adminOk (R \<union> rolesIn e) cid (fst (sectionMove e p))"
proof (cases e)
  case (ClusterRolesArrive rs)
  assume "adminOk R cid p"
  then have "adminOk (R \<union> set (availableRoles rs)) cid (p\<lparr>cpRoles := rs\<rparr>)" by (auto simp: adminOk_def)
  then have "adminOk (R \<union> set (availableRoles rs)) cid (inAdd (seedRoleId rs) (p\<lparr>cpRoles := rs\<rparr>))"
    by (rule inAdd_ok) (rule seedRole_in, assumption, simp)
  then show ?thesis using ClusterRolesArrive by simp
next
  case OpenAddAdmin
  assume a: "adminOk R cid p"
  have "defaultRoleId (cpRoles p) \<in> insert [] R" using defaultRole_available [of "cpRoles p"] a by (auto simp: adminOk_def)
  then show ?thesis using OpenAddAdmin a by (auto simp: adminOk_def mountAddAdmin_def)
next
  case (ChooseAdminRole r)
  assume a: "adminOk R cid p"
  then have R: "set (availableRoles (cpRoles p)) \<subseteq> R" by (simp add: adminOk_def)
  have "adminOk R cid (inAdd (\<lambda>d. seedRoleId (cpRoles p) (d\<lparr>adRole := r\<rparr>)) p)" if "r \<in> set (availableRoles (cpRoles p))"
    by (rule inAdd_ok [OF a]) (rule seedRole_in [OF _ R], use that R in auto)
  then show ?thesis using ChooseAdminRole a by simp
next
  case PressAssign
  assume "adminOk R cid p"
  then show ?thesis using PressAssign handleAssign_ok by (simp split: option.split)
qed (auto simp: inAdd_keep inDialog_def intro: adminOk_same split: option.split)

lemma render_same [simp]:
  "cpCid (renderClusterPage p) = cpCid p" "cpRoles (renderClusterPage p) = cpRoles p" "cpAdd (renderClusterPage p) = cpAdd p"
  "cpAdmins (renderClusterPage p) = cpAdmins p"
  by (simp_all add: renderClusterPage_def)

lemma clusterMove_admin: "adminOk R cid p \<Longrightarrow> adminOk (R \<union> rolesIn e) cid (fst (clusterMove e p))"
proof -
  assume a: "adminOk R cid p"
  have s: "adminOk (R \<union> rolesIn e) cid (fst (if cpFailed p \<or> \<not> cpContents p then (p, []) else sectionMove e p))"
    using sectionMove_admin [OF a, of e] adminOk_mono [OF a, of "R \<union> rolesIn e"] by simp
  show ?thesis using a s by (cases e) (auto simp: unmountBelow_def intro: adminOk_same simp del: sectionMove.simps)
qed

lemma clusterPageAfter_admin: "adminOk (\<Union> (rolesIn ` set es)) cid (clusterPageAfter may cid label es)"
proof (induction es rule: rev_induct)
  case Nil
  show ?case by (simp add: clusterPageAfter_def openClusterPage_def adminOk_def availableRoles_def)
next
  case (snoc e es)
  have "\<Union> (rolesIn ` set (es @ [e])) = \<Union> (rolesIn ` set es) \<union> rolesIn e" by auto
  then show ?case using clusterMove_admin [OF snoc, of e]
    by (simp add: clusterPageAfter_def clusterPageStep_def adminOk_def)
qed

lemma handleAssign_sends: "RevokeAdmin a \<notin> set (snd (handleAssign p d))"
  by (simp add: handleAssign_def)

lemma section_requests:
  "r \<in> set (snd (sectionMove e p)) \<Longrightarrow> r = AssignAdmin a \<or> r = RevokeAdmin a \<Longrightarrow>
   (\<exists>d. cpAdd p = Some d \<and> AssignAdmin a \<in> set (snd (handleAssign p d)) \<and> r = AssignAdmin a) \<or>
   (\<exists>c. e = PressRevoke c True \<and> c \<in> set (cpAdmins p) \<and> \<not> caInherited c \<and> r = RevokeAdmin a \<and>
      a = \<lparr>paUserId = caUser c, paRoleId = caRole c, paScope = caScope c\<rparr>)"
  by (cases e) (auto simp: submitAdmin_def handleAssign_sends Let_def split: option.splits if_splits)

lemma page_requests:
  "r \<in> set (snd (clusterPageStep e p)) \<Longrightarrow> r \<noteq> DeleteThisCluster \<Longrightarrow> r \<in> set (snd (sectionMove e p)) \<and> cpContents p"
  unfolding clusterPageStep_def by (cases e) (auto simp del: sectionMove.simps split: if_splits)

text \<open>
  An assignment that is sent grants a role that was offered and not deprecated, to a user
  that is named, on exactly this cluster; a revocation is of a listed administrator that is not inherited, on the
  scope it was granted for, and was confirmed. Neither is sent by someone who may not read the cluster.
\<close>

theorem cluster_admins_valid:
  assumes "p = clusterPageAfter may cid label es" and "r \<in> set (snd (clusterPageStep e p))"
    and "r = AssignAdmin a \<or> r = RevokeAdmin a"
  shows "cpContents p \<and>
    (r = AssignAdmin a \<longrightarrow> paScope a = ''cluster:'' @ cid \<and> paUserId a \<noteq> [] \<and> paRoleId a \<noteq> [] \<and>
      paRoleId a \<in> \<Union> (rolesIn ` set es)) \<and>
    (r = RevokeAdmin a \<longrightarrow> (\<exists>c \<in> set (cpAdmins p). \<not> caInherited c \<and> e = PressRevoke c True \<and>
      a = \<lparr>paUserId = caUser c, paRoleId = caRole c, paScope = caScope c\<rparr>))"
proof -
  from assms(3) have "r \<noteq> DeleteThisCluster" by auto
  from page_requests [OF assms(2) this] have s: "r \<in> set (snd (sectionMove e p))" "cpContents p" by blast+
  have ok: "adminOk (\<Union> (rolesIn ` set es)) cid p" unfolding assms(1) by (rule clusterPageAfter_admin)
  from section_requests [OF s(1) assms(3)] show ?thesis
  proof (elim disjE exE conjE)
    fix d assume d: "cpAdd p = Some d" "AssignAdmin a \<in> set (snd (handleAssign p d))" "r = AssignAdmin a"
    then show ?thesis using ok s(2) by (auto simp: handleAssign_def adminOk_def split: if_splits)
  qed (use s(2) in auto)
qed

definition adminTour :: "cluster_page_event list" where
  "adminTour = [OpenAddAdmin, ClusterRolesArrive [\<lparr>plId = ''cluster_admin'', plLabel = ''Admin'', plDescription = [],
     plCapabilities = [], plSeed = None, plDeprecated = None\<rparr>], UsersArrive [''ann''], ChooseUser ''ann'']"

theorem cluster_admins_valid_witness:
  "''cluster_admin'' \<in> \<Union> (rolesIn ` set adminTour)"
proof -
  let ?p = "clusterPageAfter (\<lambda>_. True) ''c1'' ''prod'' adminTour"
  let ?a = "\<lparr>paUserId = ''ann'', paRoleId = ''cluster_admin'', paScope = ''cluster:c1''\<rparr>"
  have s: "AssignAdmin ?a \<in> set (snd (clusterPageStep PressAssign ?p))" by code_simp
  from cluster_admins_valid [OF refl s] show ?thesis by simp
qed

section \<open>Passwords\<close>

text \<open>A closed dialog is blank, and knows it.\<close>

definition blankClosed :: "bool \<Rightarrow> password_dialog \<Rightarrow> bool" where
  "blankClosed isOpen d \<longleftrightarrow> pdOpenKey d = isOpen \<and> (\<not> isOpen \<longrightarrow> pdUser d = [] \<and> pdPassword d = [])"

definition passwordsOk :: "cluster_page \<Rightarrow> bool" where
  "passwordsOk p \<longleftrightarrow> blankClosed (cpAddOpen p) (cpAddDialog p) \<and> blankClosed (cpBootOpen p) (cpBootDialog p)"

text \<open>Before it renders, a dialog that has not seen itself open is blank.\<close>

definition wasBlank :: "password_dialog \<Rightarrow> bool" where
  "wasBlank d \<longleftrightarrow> pdOpenKey d \<or> pdUser d = [] \<and> pdPassword d = []"

lemma render_blank: "wasBlank d \<Longrightarrow> blankClosed b (renderPassword b d)"
  by (auto simp: wasBlank_def blankClosed_def renderPassword_def)

lemma blankClosed_was: "blankClosed b d \<Longrightarrow> wasBlank d"
  by (auto simp: wasBlank_def blankClosed_def)

text \<open>The two dialogs after a move of the page.\<close>

definition bothBlank :: "cluster_page \<Rightarrow> bool" where
  "bothBlank p \<longleftrightarrow> wasBlank (cpAddDialog p) \<and> wasBlank (cpBootDialog p)"

lemma bothBlank_same: "cpAddDialog q = cpAddDialog p \<Longrightarrow> cpBootDialog q = cpBootDialog p \<Longrightarrow> bothBlank p \<Longrightarrow> bothBlank q"
  by (simp add: bothBlank_def)

lemma passwordsOk_blank: "passwordsOk p \<Longrightarrow> bothBlank p"
  by (auto simp: passwordsOk_def bothBlank_def intro: blankClosed_was)

lemma dialogs_same [simp]:
  "cpAddDialog (setPwOpen w b p) = cpAddDialog p" "cpBootDialog (setPwOpen w b p) = cpBootDialog p"
  "cpAddDialog (inAdd f p) = cpAddDialog p" "cpBootDialog (inAdd f p) = cpBootDialog p"
  "cpAddDialog (fst (submitAdmin w p)) = cpAddDialog p" "cpBootDialog (fst (submitAdmin w p)) = cpBootDialog p"
  "cpAddDialog (fst (handleAssign p d)) = cpAddDialog p" "cpBootDialog (fst (handleAssign p d)) = cpBootDialog p"
  by (cases w; simp add: inAdd_def submitAdmin_def handleAssign_def Let_def)+

lemma inDialog_blank:
  assumes "passwordsOk p" and "\<And>d. pdOpenKey (f d) = pdOpenKey d"
  shows "bothBlank (inDialog f w p)"
  using assms by (cases w) (auto simp: inDialog_def bothBlank_def passwordsOk_def wasBlank_def blankClosed_def)

lemma sectionMove_dialogs:
  assumes "\<forall>w s. e \<noteq> TypeAdminUser w s \<and> e \<noteq> TypeAdminPassword w s"
  shows "cpAddDialog (fst (sectionMove e p)) = cpAddDialog p \<and> cpBootDialog (fst (sectionMove e p)) = cpBootDialog p"
  using assms by (cases e) (simp_all split: option.split)

lemma sectionMove_blank: "passwordsOk p \<Longrightarrow> bothBlank (fst (sectionMove e p))"
proof (cases e)
  case (TypeAdminUser w s)
  then show "passwordsOk p \<Longrightarrow> ?thesis" by (simp add: inDialog_blank)
next
  case (TypeAdminPassword w s)
  then show "passwordsOk p \<Longrightarrow> ?thesis" by (simp add: inDialog_blank)
qed (use sectionMove_dialogs [of e p] bothBlank_same [OF _ _ passwordsOk_blank [of p]] in auto)

lemma clusterMove_blank: "passwordsOk p \<Longrightarrow> bothBlank (fst (clusterMove e p))"
proof -
  assume ok: "passwordsOk p"
  have u: "bothBlank (unmountBelow p)"
    by (simp add: unmountBelow_def bothBlank_def wasBlank_def blankPassword_def)
  have same: "bothBlank (p\<lparr>cpLabel := l, cpFailed := False\<rparr>)" "bothBlank (p\<lparr>cpTestPending := b\<rparr>)"
    "bothBlank (p\<lparr>cpDeleteOpen := b\<rparr>)" "bothBlank (p\<lparr>cpDelete := d\<rparr>)" "bothBlank (p\<lparr>cpDeleting := b\<rparr>)"
    "bothBlank (p\<lparr>cpDeleteOpen := b, cpDeleting := c\<rparr>)" for l b c d
    using passwordsOk_blank [OF ok] by (simp_all add: bothBlank_def)
  show ?thesis using sectionMove_blank [OF ok, of e]
    by (cases e) (simp_all add: u same passwordsOk_blank [OF ok] del: sectionMove.simps)
qed

lemma passwords_after: "passwordsOk (clusterPageAfter may cid label es)"
proof (induction es rule: rev_induct)
  case Nil
  show ?case by (simp add: clusterPageAfter_def openClusterPage_def passwordsOk_def blankClosed_def blankPassword_def)
next
  case (snoc e es)
  from clusterMove_blank [OF snoc, of e] have "bothBlank (fst (clusterMove e (clusterPageAfter may cid label es)))" .
  then show ?case unfolding clusterPageAfter_def clusterPageStep_def passwordsOk_def renderClusterPage_def
    by (auto simp: bothBlank_def wasBlank_def intro!: render_blank)
qed

text \<open>
  A password that was typed into one of the two encryption dialogs is gone once the dialog
  is closed, however it was closed: a dialog that is opened is blank, and a password and a user are sent only as they
  stand in a dialog that is open.
\<close>

theorem password_dialogs_fresh:
  assumes "p = clusterPageAfter may cid label es"
  shows "(\<forall>w. \<not> pwOpen w p \<longrightarrow> pdUser (pwDialog w p) = [] \<and> pdPassword (pwDialog w p) = []) \<and>
    (\<forall>u s. WrapAdmin u s \<in> set (snd (clusterPageStep e p)) \<longrightarrow>
      u \<noteq> [] \<and> s \<noteq> [] \<and> (\<exists>w. pwOpen w p \<and> pdUser (pwDialog w p) = u \<and> pdPassword (pwDialog w p) = s))"
proof (intro conjI allI impI)
  fix w assume "\<not> pwOpen w p"
  with passwords_after [of may cid label es]
  show "pdUser (pwDialog w p) = []" "pdPassword (pwDialog w p) = []" unfolding assms
    by (cases w; simp add: passwordsOk_def blankClosed_def)+
next
  fix u s assume a: "WrapAdmin u s \<in> set (snd (clusterPageStep e p))"
  then have "WrapAdmin u s \<in> set (snd (sectionMove e p))" using page_requests by blast
  then have "\<exists>w. WrapAdmin u s \<in> set (snd (submitAdmin w p))"
    by (cases e) (auto simp: handleAssign_def split: option.splits if_splits)
  then show "u \<noteq> []" "s \<noteq> []" "\<exists>w. pwOpen w p \<and> pdUser (pwDialog w p) = u \<and> pdPassword (pwDialog w p) = s"
    by (auto simp: submitAdmin_def Let_def split: if_splits)
qed

text \<open>A dialog is opened, filled in, closed and opened again.\<close>

theorem password_dialogs_fresh_witness:
  "\<exists>p. p = clusterPageAfter (\<lambda>_. True) ''c1'' ''prod'' [LockArrives \<lparr>lsUnlocked = True, lsHasCsk = True, lsAdmins = []\<rparr>,
      OpenPassword AddDialog, TypeAdminPassword AddDialog ''secret'', ClosePassword AddDialog] \<and>
    pdPassword (pwDialog AddDialog p) = []"
proof -
  let ?p = "clusterPageAfter (\<lambda>_. True) ''c1'' ''prod'' [LockArrives \<lparr>lsUnlocked = True, lsHasCsk = True, lsAdmins = []\<rparr>,
      OpenPassword AddDialog, TypeAdminPassword AddDialog ''secret'', ClosePassword AddDialog]"
  have "\<not> pwOpen AddDialog ?p" by code_simp
  with password_dialogs_fresh [OF refl, of "\<lambda>_. True" "''c1''" "''prod''"] show ?thesis by blast
qed

section \<open>What a user of the page meets\<close>

text \<open>Enter in the password field does not look whether a request is under way: pressed twice, it sends two.\<close>

lemma enter_submits_twice:
  assumes "pwOpen w p" "pdUser (pwDialog w p) \<noteq> []" "pdPassword (pwDialog w p) \<noteq> []"
  shows "snd (submitAdmin w (fst (submitAdmin w p))) = snd (submitAdmin w p) \<and> snd (submitAdmin w p) \<noteq> []"
  using assms by (cases w) (simp_all add: submitAdmin_def Let_def)

text \<open>
  The answer to the first of two such requests is not heard; and one dialog may be closed by the success of its
  request after it was closed and opened anew.
\<close>

lemma late_success_closes_new_dialog:
  assumes "cpSubmitting p = Some AddDialog" "cpLock p = Some s" "passwordOffered AddDialog s"
  shows "cpAddOpen (foldl (\<lambda>p e. fst (sectionMove e p)) p [ClosePassword AddDialog, OpenPassword AddDialog]) \<and>
    \<not> cpAddOpen (foldl (\<lambda>p e. fst (sectionMove e p)) p [ClosePassword AddDialog, OpenPassword AddDialog, AdminAdded True])"
  using assms by simp

text \<open>
  Reading the roles takes a capability of the platform, which the administrator of a cluster does not have: as long
  as none arrive nobody can be assigned.
\<close>

lemma no_roles_no_assignment:
  assumes "\<Union> (rolesIn ` set es) = {}"
  shows "AssignAdmin a \<notin> set (snd (clusterPageStep e (clusterPageAfter may cid label es)))"
proof
  assume s: "AssignAdmin a \<in> set (snd (clusterPageStep e (clusterPageAfter may cid label es)))"
  let ?p = "clusterPageAfter may cid label es"
  have "adminOk (\<Union> (rolesIn ` set es)) cid ?p" by (rule clusterPageAfter_admin)
  moreover have "AssignAdmin a \<in> set (snd (sectionMove e ?p))" using page_requests [OF s] by simp
  then obtain d where "cpAdd ?p = Some d" "AssignAdmin a \<in> set (snd (handleAssign ?p d))"
    using section_requests [of "AssignAdmin a" e ?p a] by auto
  ultimately show False unfolding assms by (auto simp: adminOk_def handleAssign_def split: if_splits)
qed

text \<open>
  A failed refetch replaces the page while the cluster is still known; what was typed into a dialog of the sections
  is lost, and the deletion dialog comes back blank.
\<close>

lemma failed_refetch_drops_dialogs:
  "pwOpen w (fst (clusterPageStep ClusterFails p)) = False \<and> cpAdd (fst (clusterPageStep ClusterFails p)) = None"
  by (cases w) (simp_all add: clusterPageStep_def renderClusterPage_def unmountBelow_def)

text \<open>A role that has become deprecated in the meantime is still sent.\<close>

lemma deprecated_role_kept:
  assumes "cpAdd p = Some d" "adRole d = r" "r \<noteq> []"
  shows "map_option adRole (cpAdd (fst (sectionMove (ClusterRolesArrive rs) p))) = Some r"
  using assms by (simp add: inAdd_def seedRoleId_def)

text \<open>An operator without users is shown a skeleton for ever: nobody can be chosen.\<close>

lemma empty_user_list_blocks:
  assumes "cpAdd p = Some d" "adUsers d = []" "\<not> adError d"
  shows "sectionMove (ChooseUser u) p = (p, [])"
  using assms by (cases p) (simp add: inAdd_def)

end
