(* ===== verification/Cluster_Forms.thy ===== *)
theory Cluster_Forms
  imports First_Run
begin

text \<open>
  The two forms of a cluster: the page that adds one (\<open>routes/admin/clusters/new.tsx\<close>) and the page that edits one
  (\<open>routes/admin/clusters/$cid/edit.tsx\<close>). Both build the configuration from the same fields in the same way. The
  length of a label is its number of bytes, which for ASCII is the \<open>length\<close> of the browser.
\<close>

section \<open>Fields and configuration\<close>

record conn_form =
  cnLabel :: string
  cnColor :: string
  cnAdminUrl :: string
  cnAdminToken :: string
  cnS3Url :: string
  cnS3Region :: string
  cnAccessKey :: string
  cnSecretKey :: string

definition COLOR_SWATCHES :: "string list" where
  "COLOR_SWATCHES = [''#C9874B'', ''#10B981'', ''#3B82F6'', ''#EF4444'', ''#8B5CF6'', ''#F59E0B'', ''#EC4899'', ''#06B6D4'']"

definition freshConn :: conn_form where
  "freshConn = \<lparr>cnLabel = [], cnColor = ''#C9874B'', cnAdminUrl = [], cnAdminToken = [], cnS3Url = [],
     cnS3Region = ''garage'', cnAccessKey = [], cnSecretKey = []\<rparr>"

text \<open>An unknown driver, which the server of an edited cluster may name, has an empty configuration.\<close>

definition connConfig :: "string \<Rightarrow> conn_form \<Rightarrow> (string \<times> json) list" where
  "connConfig drv f =
     (if drv = ''garage-v1'' \<or> drv = ''garage'' then
        [(''admin_url'', JStr (cnAdminUrl f)), (''admin_token'', JStr (cnAdminToken f))] @
        (if cnS3Url f \<noteq> [] then [(''s3_endpoint'', JStr (cnS3Url f))] else [])
      else if drv = ''aws-s3'' then
        [(''region'', JStr (cnS3Region f)), (''access_key'', JStr (cnAccessKey f)), (''secret_key'', JStr (cnSecretKey f))] @
        (if cnAdminUrl f \<noteq> [] then [(''endpoint'', JStr (cnAdminUrl f))] else [])
      else if drv = ''minio'' then
        [(''endpoint'', JStr (cnAdminUrl f)), (''access_key'', JStr (cnAccessKey f)), (''secret_key'', JStr (cnSecretKey f)),
         (''region'', JStr (if cnS3Region f = [] then ''us-east-1'' else cnS3Region f))]
      else [])"

definition connUpdate :: "string \<Rightarrow> conn_form \<Rightarrow> json" where
  "connUpdate drv f = jobj [(''label'', JStr (trim (cnLabel f))), (''driver'', JStr drv),
     (''config'', JObj (connConfig drv f)), (''color'', if cnColor f = [] then JUndef else JStr (cnColor f))]"

definition labelOk :: "conn_form \<Rightarrow> bool" where
  "labelOk f \<longleftrightarrow> trim (cnLabel f) \<noteq> [] \<and> 1 \<le> length (cnLabel f) \<and> length (cnLabel f) \<le> 64"

datatype conn_edit = EditLabel string | EditAdminUrl string | EditAdminToken string | EditS3Url string
  | EditS3Region string | EditAccessKey string | EditSecretKey string

text \<open>The fields a driver shows.\<close>

fun connShown :: "string \<Rightarrow> conn_edit \<Rightarrow> bool" where
  "connShown drv (EditLabel _) = True"
| "connShown drv (EditAdminUrl _) = (drv \<in> {''garage-v1'', ''garage'', ''aws-s3'', ''minio''})"
| "connShown drv (EditAdminToken _) = (drv \<in> {''garage-v1'', ''garage''})"
| "connShown drv (EditS3Url _) = (drv \<in> {''garage-v1'', ''garage''})"
| "connShown drv (EditS3Region _) = (drv \<in> {''garage-v1'', ''garage'', ''aws-s3'', ''minio''})"
| "connShown drv (EditAccessKey _) = (drv \<in> {''aws-s3'', ''minio''})"
| "connShown drv (EditSecretKey _) = (drv \<in> {''aws-s3'', ''minio''})"

fun editConn :: "conn_edit \<Rightarrow> conn_form \<Rightarrow> conn_form" where
  "editConn (EditLabel s) f = f\<lparr>cnLabel := s\<rparr>"
| "editConn (EditAdminUrl s) f = f\<lparr>cnAdminUrl := s\<rparr>"
| "editConn (EditAdminToken s) f = f\<lparr>cnAdminToken := s\<rparr>"
| "editConn (EditS3Url s) f = f\<lparr>cnS3Url := s\<rparr>"
| "editConn (EditS3Region s) f = f\<lparr>cnS3Region := s\<rparr>"
| "editConn (EditAccessKey s) f = f\<lparr>cnAccessKey := s\<rparr>"
| "editConn (EditSecretKey s) f = f\<lparr>cnSecretKey := s\<rparr>"

section \<open>Adding a cluster\<close>

record add_cluster =
  anForm :: conn_form
  anDriver :: driver
  anPending :: bool
  anTokenMissing :: bool

definition openAddCluster :: add_cluster where
  "openAddCluster = \<lparr>anForm = freshConn, anDriver = GarageV1, anPending = False, anTokenMissing = False\<rparr>"

text \<open>The last event carries the identifier of the new cluster, or the code of the refusal.\<close>

datatype add_cluster_event =
    AddEdit conn_edit
  | AddColor string
  | AddDriver driver
  | PressCreate
  | CreateSettled "string + string"

datatype add_cluster_out = PostCluster json | OpenCluster string

fun addClusterStep :: "add_cluster_event \<Rightarrow> add_cluster \<Rightarrow> add_cluster \<times> add_cluster_out list" where
  "addClusterStep (AddEdit e) p =
     (if anPending p \<or> \<not> connShown (driverName (anDriver p)) e then p else p\<lparr>anForm := editConn e (anForm p)\<rparr>, [])"
| "addClusterStep (AddColor s) p =
     (if s \<in> set COLOR_SWATCHES then p\<lparr>anForm := (anForm p)\<lparr>cnColor := s\<rparr>\<rparr> else p, [])"
| "addClusterStep (AddDriver d) p = (p\<lparr>anDriver := d\<rparr>, [])"
| "addClusterStep PressCreate p =
     (if labelOk (anForm p) \<and> \<not> anPending p
      then (p\<lparr>anPending := True\<rparr>, [PostCluster (connUpdate (driverName (anDriver p)) (anForm p))]) else (p, []))"
| "addClusterStep (CreateSettled r) p =
     (if \<not> anPending p then (p, [])
      else case r of Inr i \<Rightarrow> (p\<lparr>anPending := False\<rparr>, [OpenCluster i])
        | Inl code \<Rightarrow> (p\<lparr>anPending := False, anTokenMissing := (anTokenMissing p \<or> code = ''MISSING_ADMIN_TOKEN'')\<rparr>, []))"

definition addClusterAfter :: "add_cluster_event list \<Rightarrow> add_cluster" where
  "addClusterAfter es = foldl (\<lambda>p e. fst (addClusterStep e p)) openAddCluster es"

definition postClusterAction :: "json \<Rightarrow> json js" where
  "postClusterAction = mutationFn useCreateCluster"

section \<open>Editing a cluster\<close>

text \<open>\<open>a || b || ""\<close> over properties that are strings or missing, and \<open>a ?? b ?? d\<close>.\<close>

fun firstFilled :: "json \<Rightarrow> string list \<Rightarrow> string" where
  "firstFilled cfg [] = []"
| "firstFilled cfg (k # ks) = (case getProp cfg k of JStr s \<Rightarrow> if s \<noteq> [] then s else firstFilled cfg ks | _ \<Rightarrow> firstFilled cfg ks)"

fun firstGiven :: "json \<Rightarrow> string list \<Rightarrow> string \<Rightarrow> string" where
  "firstGiven cfg [] d = d"
| "firstGiven cfg (k # ks) d = (case getProp cfg k of JStr s \<Rightarrow> s | _ \<Rightarrow> firstGiven cfg ks d)"

definition jsonString :: "json \<Rightarrow> string" where
  "jsonString j = (case j of JStr s \<Rightarrow> s | _ \<Rightarrow> [])"

definition seedConn :: "json \<Rightarrow> conn_form" where
  "seedConn cluster = (let cfg = getProp cluster ''config'' in
     \<lparr>cnLabel = jsonString (getProp cluster ''label''), cnColor = firstGiven cluster [''color''] ''#C9874B'',
      cnAdminUrl = firstFilled cfg [''admin_url'', ''adminUrl''],
      cnAdminToken = firstFilled cfg [''admin_token'', ''adminToken''],
      cnS3Url = firstFilled cfg [''s3_endpoint'', ''s3Url'', ''endpoint''],
      cnS3Region = firstGiven cfg [''region'', ''s3Region''] ''garage'',
      cnAccessKey = firstFilled cfg [''access_key_id'', ''access_key'', ''s3AccessKey''],
      cnSecretKey = firstFilled cfg [''secret_key'', ''s3SecretKey'']\<rparr>)"

text \<open>
  \<open>ecMounted\<close> is the number of hooks of the first rendering: two of them come after the early returns. React ends a
  component whose number of hooks changes.
\<close>

record edit_cluster =
  ecData :: "json option"
  ecLoadError :: bool
  ecSeeded :: "string option"
  ecForm :: conn_form
  ecPending :: bool
  ecTokenMissing :: bool
  ecMounted :: "nat option"
  ecCrashed :: bool

definition blankEdit :: edit_cluster where
  "blankEdit = \<lparr>ecData = None, ecLoadError = False, ecSeeded = None, ecForm = freshConn, ecPending = False,
     ecTokenMissing = False, ecMounted = None, ecCrashed = False\<rparr>"

text \<open>The hooks of React itself up to the early returns, and the two behind them.\<close>

definition hooksRun :: "edit_cluster \<Rightarrow> nat" where
  "hooksRun p = (if ecLoadError p \<or> ecData p = None then 9 else 11)"

definition renderEdit :: "edit_cluster \<Rightarrow> edit_cluster" where
  "renderEdit p =
     (let q = (case ecData p of None \<Rightarrow> p
         | Some c \<Rightarrow> if ecSeeded p = Some (jsonString (getProp c ''id'')) then p
             else p\<lparr>ecSeeded := Some (jsonString (getProp c ''id'')), ecForm := seedConn c\<rparr>)
      in case ecMounted p of None \<Rightarrow> q\<lparr>ecMounted := Some (hooksRun q)\<rparr>
         | Some n \<Rightarrow> q\<lparr>ecCrashed := (ecCrashed q \<or> n \<noteq> hooksRun q)\<rparr>)"

text \<open>The page as it opens, with the cluster in the cache or without.\<close>

definition openEdit :: "json option \<Rightarrow> edit_cluster" where
  "openEdit cached = renderEdit (blankEdit\<lparr>ecData := cached\<rparr>)"

definition ecDriver :: "edit_cluster \<Rightarrow> string" where
  "ecDriver p = (case ecData p of None \<Rightarrow> [] | Some c \<Rightarrow> jsonString (getProp c ''driver''))"

definition formOnScreen :: "edit_cluster \<Rightarrow> bool" where
  "formOnScreen p \<longleftrightarrow> \<not> ecCrashed p \<and> ecData p \<noteq> None \<and> \<not> ecLoadError p"

datatype edit_cluster_event =
    ConnArrives json
  | ConnFails
  | ConnEdit conn_edit
  | ConnColor string
  | PressSaveConn
  | SaveConnSettled "string option"

datatype edit_cluster_out = PatchConn json | BackToCluster

text \<open>The outcome of a save is the code of the error that came through the elevation guard, or none.\<close>

fun editMove :: "edit_cluster_event \<Rightarrow> edit_cluster \<Rightarrow> edit_cluster \<times> edit_cluster_out list" where
  "editMove (ConnArrives c) p = (p\<lparr>ecData := Some c, ecLoadError := False\<rparr>, [])"
| "editMove ConnFails p = (p\<lparr>ecLoadError := True\<rparr>, [])"
| "editMove (ConnEdit e) p =
     (if formOnScreen p \<and> \<not> ecPending p \<and> connShown (ecDriver p) e then p\<lparr>ecForm := editConn e (ecForm p)\<rparr> else p, [])"
| "editMove (ConnColor s) p =
     (if formOnScreen p \<and> s \<in> set COLOR_SWATCHES then p\<lparr>ecForm := (ecForm p)\<lparr>cnColor := s\<rparr>\<rparr> else p, [])"
| "editMove PressSaveConn p =
     (if formOnScreen p \<and> labelOk (ecForm p) \<and> \<not> ecPending p
      then (p\<lparr>ecPending := True\<rparr>, [PatchConn (connUpdate (ecDriver p) (ecForm p))]) else (p, []))"
| "editMove (SaveConnSettled e) p =
     (if \<not> ecPending p then (p, [])
      else case e of None \<Rightarrow> (p\<lparr>ecPending := False\<rparr>, [BackToCluster])
        | Some code \<Rightarrow> (p\<lparr>ecPending := False, ecTokenMissing := (code = ''MISSING_ADMIN_TOKEN'')\<rparr>, []))"

definition editStep :: "edit_cluster_event \<Rightarrow> edit_cluster \<Rightarrow> edit_cluster \<times> edit_cluster_out list" where
  "editStep e p = (renderEdit (fst (editMove e p)), snd (editMove e p))"

definition editAfter :: "json option \<Rightarrow> edit_cluster_event list \<Rightarrow> edit_cluster" where
  "editAfter cached es = foldl (\<lambda>p e. fst (editStep e p)) (openEdit cached) es"

section \<open>What is sent\<close>

text \<open>The parts of an update that the server reads.\<close>

lemma getProp_jobj_conn [simp]:
  "getProp (connUpdate drv f) ''label'' = JStr (trim (cnLabel f))"
  "getProp (connUpdate drv f) ''driver'' = JStr drv"
  "getProp (connUpdate drv f) ''config'' = JObj (connConfig drv f)"
  by (simp_all add: connUpdate_def jobj_def)

text \<open>The keys a driver's configuration may have, and those it always has.\<close>

definition configKeys :: "driver \<Rightarrow> string set \<times> string set" where
  "configKeys d = (case d of
       AwsS3 \<Rightarrow> ({''region'', ''access_key'', ''secret_key''}, {''endpoint''})
     | Minio \<Rightarrow> ({''endpoint'', ''access_key'', ''secret_key'', ''region''}, {})
     | _ \<Rightarrow> ({''admin_url'', ''admin_token''}, {''s3_endpoint''}))"

lemma config_keys:
  "fst (configKeys d) \<subseteq> set (map fst (connConfig (driverName d) f)) \<and>
   set (map fst (connConfig (driverName d) f)) \<subseteq> fst (configKeys d) \<union> snd (configKeys d)"
  by (cases "cnS3Url f = []"; cases "cnAdminUrl f = []"; cases d) (simp_all add: configKeys_def connConfig_def)

lemma post_is_form:
  "PostCluster spec \<in> set (snd (addClusterStep e p)) \<Longrightarrow>
   e = PressCreate \<and> labelOk (anForm p) \<and> \<not> anPending p \<and> spec = connUpdate (driverName (anDriver p)) (anForm p)"
  by (cases e) (auto split: if_splits sum.splits)

text \<open>
  A cluster that is created has a trimmed label that is neither empty nor longer than 64, one of
  the four drivers, and a configuration with every key that driver needs and none of another driver; nothing is sent
  while a creation is under way.
\<close>

theorem new_cluster_valid:
  assumes "PostCluster spec \<in> set (snd (addClusterStep e (addClusterAfter es)))"
  shows "\<exists>l d cfg. getProp spec ''label'' = JStr (trim l) \<and> trim l \<noteq> [] \<and> length l \<le> 64 \<and>
    getProp spec ''driver'' = JStr (driverName d) \<and> getProp spec ''config'' = JObj cfg \<and>
    fst (configKeys d) \<subseteq> set (map fst cfg) \<and> set (map fst cfg) \<subseteq> fst (configKeys d) \<union> snd (configKeys d) \<and>
    \<not> anPending (addClusterAfter es)"
proof -
  let ?p = "addClusterAfter es"
  from post_is_form [OF assms] have p: "labelOk (anForm ?p)" "\<not> anPending ?p"
    and s: "spec = connUpdate (driverName (anDriver ?p)) (anForm ?p)" by blast+
  show ?thesis unfolding s
    by (intro exI [of _ "cnLabel (anForm ?p)"] exI [of _ "anDriver ?p"]
          exI [of _ "connConfig (driverName (anDriver ?p)) (anForm ?p)"])
      (use p config_keys [of "anDriver ?p" "anForm ?p"] in \<open>simp add: labelOk_def\<close>)
qed

definition sampleConn :: conn_form where
  "sampleConn = freshConn\<lparr>cnLabel := ''lab''\<rparr>"

theorem new_cluster_valid_witness:
  "\<exists>d cfg. getProp (connUpdate ''minio'' sampleConn) ''driver'' = JStr (driverName d) \<and>
     getProp (connUpdate ''minio'' sampleConn) ''config'' = JObj cfg \<and> fst (configKeys d) \<subseteq> set (map fst cfg)"
proof -
  have "PostCluster (connUpdate ''minio'' sampleConn) \<in>
      set (snd (addClusterStep PressCreate (addClusterAfter [AddEdit (EditLabel ''lab''), AddDriver Minio])))"
    by code_simp
  from new_cluster_valid [OF this] show ?thesis by blast
qed

section \<open>Editing and saving\<close>

lemma config_garage:
  "drv = ''garage'' \<or> drv = ''garage-v1'' \<Longrightarrow> connConfig drv f =
     [(''admin_url'', JStr (cnAdminUrl f)), (''admin_token'', JStr (cnAdminToken f))] @
       (if cnS3Url f \<noteq> [] then [(''s3_endpoint'', JStr (cnS3Url f))] else [])"
  by (elim disjE) (simp_all add: connConfig_def)

lemma config_secret:
  "drv = ''aws-s3'' \<or> drv = ''minio'' \<Longrightarrow> getProp (JObj (connConfig drv f)) ''secret_key'' = JStr (cnSecretKey f)"
  by (elim disjE) (simp_all add: connConfig_def)

text \<open>A cluster as the server gives it, the secrets left out.\<close>

definition servedConn :: "string \<Rightarrow> string \<Rightarrow> string \<Rightarrow> string \<Rightarrow> (string \<times> json) list \<Rightarrow> json" where
  "servedConn i l drv color cfg = JObj [(''id'', JStr i), (''label'', JStr l), (''driver'', JStr drv),
     (''config'', JObj cfg), (''color'', JStr color)]"

lemma getProp_served [simp]:
  "getProp (servedConn i l drv color cfg) ''id'' = JStr i"
  "getProp (servedConn i l drv color cfg) ''label'' = JStr l"
  "getProp (servedConn i l drv color cfg) ''driver'' = JStr drv"
  "getProp (servedConn i l drv color cfg) ''config'' = JObj cfg"
  "getProp (servedConn i l drv color cfg) ''color'' = JStr color"
  by (simp_all add: servedConn_def)

lemma served_edit:
  "openEdit (Some (servedConn i l drv color cfg)) = blankEdit\<lparr>ecData := Some (servedConn i l drv color cfg),
     ecSeeded := Some i, ecForm := seedConn (servedConn i l drv color cfg), ecMounted := Some 11\<rparr>"
  by (simp add: openEdit_def renderEdit_def blankEdit_def jsonString_def hooksRun_def Let_def)

lemma seed_label [simp]: "cnLabel (seedConn (servedConn i l drv color cfg)) = l"
  by (simp add: seedConn_def jsonString_def Let_def)

text \<open>Pressing the button of a form that is on screen.\<close>

lemma press_save:
  assumes "formOnScreen p" "\<not> ecPending p" "labelOk (ecForm p)"
  shows "snd (editStep PressSaveConn p) = [PatchConn (connUpdate (ecDriver p) (ecForm p))]"
  using assms by (simp add: editStep_def)

lemma served_screen:
  "formOnScreen (openEdit (Some (servedConn i l drv color cfg)))" "\<not> ecPending (openEdit (Some (servedConn i l drv color cfg)))"
  "ecDriver (openEdit (Some (servedConn i l drv color cfg))) = drv"
  "ecForm (openEdit (Some (servedConn i l drv color cfg))) = seedConn (servedConn i l drv color cfg)"
  by (simp_all add: served_edit blankEdit_def formOnScreen_def ecDriver_def jsonString_def)

lemma label_ok: "trim (cnLabel f) = cnLabel f \<Longrightarrow> cnLabel f \<noteq> [] \<Longrightarrow> length (cnLabel f) \<le> 64 \<Longrightarrow> labelOk f"
  by (cases "cnLabel f") (simp_all add: labelOk_def)

text \<open>Saving right after the page was opened.\<close>

lemma served_saved:
  assumes "trim l = l" "l \<noteq> []" "length l \<le> 64"
  shows "snd (editStep PressSaveConn (openEdit (Some (servedConn i l drv color cfg)))) =
    [PatchConn (connUpdate drv (seedConn (servedConn i l drv color cfg)))]"
  using press_save [OF served_screen(1,2)] label_ok assms by (simp add: served_screen)

text \<open>Typing the token changes the form and nothing else.\<close>

lemma token_typed:
  assumes "drv = ''garage'' \<or> drv = ''garage-v1''"
  shows "fst (editStep (ConnEdit (EditAdminToken token)) (openEdit (Some (servedConn i l drv color cfg)))) =
    (openEdit (Some (servedConn i l drv color cfg)))\<lparr>ecForm := (seedConn (servedConn i l drv color cfg))\<lparr>cnAdminToken := token\<rparr>\<rparr>"
proof -
  have "connShown drv (EditAdminToken token)" using assms by auto
  then have "fst (editMove (ConnEdit (EditAdminToken token)) (openEdit (Some (servedConn i l drv color cfg)))) =
    (openEdit (Some (servedConn i l drv color cfg)))\<lparr>ecForm := (seedConn (servedConn i l drv color cfg))\<lparr>cnAdminToken := token\<rparr>\<rparr>"
    using served_screen by (simp del: connShown.simps)
  then show ?thesis by (simp add: editStep_def renderEdit_def served_edit blankEdit_def jsonString_def hooksRun_def del: editMove.simps)
qed

text \<open>
  The edit page of a Garage cluster, opened and saved with nothing but the token typed in
  again, sends the label, the colour, the admin address and the object endpoint as they were loaded, with that token.
\<close>

theorem garage_edit_roundtrip:
  assumes "trim l = l" "l \<noteq> []" "length l \<le> 64" and "drv = ''garage'' \<or> drv = ''garage-v1''"
    and "color \<noteq> []" "url \<noteq> []" "s3 \<noteq> []"
  shows "snd (editStep PressSaveConn (fst (editStep (ConnEdit (EditAdminToken token))
      (openEdit (Some (servedConn i l drv color [(''admin_url'', JStr url), (''s3_endpoint'', JStr s3)])))))) =
    [PatchConn (JObj [(''label'', JStr l), (''driver'', JStr drv),
       (''config'', JObj [(''admin_url'', JStr url), (''admin_token'', JStr token), (''s3_endpoint'', JStr s3)]),
       (''color'', JStr color)])]"
proof -
  let ?c = "servedConn i l drv color [(''admin_url'', JStr url), (''s3_endpoint'', JStr s3)]"
  let ?f = "(seedConn ?c)\<lparr>cnAdminToken := token\<rparr>"
  let ?p = "(openEdit (Some ?c))\<lparr>ecForm := ?f\<rparr>"
  have ok: "labelOk ?f" using assms(1-3) by (intro label_ok) simp_all
  have "formOnScreen ?p" "\<not> ecPending ?p" "ecDriver ?p = drv"
    using served_screen [of i l drv color] by (simp_all add: formOnScreen_def ecDriver_def)
  with press_save [of ?p] ok have "snd (editStep PressSaveConn ?p) = [PatchConn (connUpdate drv ?f)]" by simp
  moreover have "connUpdate drv ?f = JObj [(''label'', JStr l), (''driver'', JStr drv),
       (''config'', JObj [(''admin_url'', JStr url), (''admin_token'', JStr token), (''s3_endpoint'', JStr s3)]),
       (''color'', JStr color)]"
    unfolding connUpdate_def config_garage [OF assms(4)] using assms(1,5-7) by (simp add: jobj_def seedConn_def jsonString_def Let_def)
  ultimately show ?thesis unfolding token_typed [OF assms(4)] by simp
qed

theorem garage_edit_roundtrip_witness:
  "\<exists>out. out = snd (editStep PressSaveConn (fst (editStep (ConnEdit (EditAdminToken ''t''))
      (openEdit (Some (servedConn ''1'' ''lab'' ''garage'' ''#fff'' [(''admin_url'', JStr ''u''), (''s3_endpoint'', JStr ''s'')])))))) \<and>
    length out = 1"
proof -
  have "trim ''lab'' = ''lab''" by code_simp
  from garage_edit_roundtrip [OF this, of "''garage''" "''#fff''" "''u''" "''s''" "''t''" "''1''"] show ?thesis by simp
qed

section \<open>What the forms get wrong\<close>

text \<open>
  The endpoint of a MinIO cluster is read into a field that this driver does not show, and the field it does show
  stays empty: any save erases the endpoint. That of an AWS cluster is dropped.
\<close>

lemma minio_edit_erases_endpoint:
  assumes "trim l = l" "l \<noteq> []" "length l \<le> 64"
  shows "\<exists>body. snd (editStep PressSaveConn (openEdit (Some (servedConn i l ''minio'' color
      [(''endpoint'', JStr url), (''access_key'', JStr k), (''region'', JStr r)])))) = [PatchConn body] \<and>
    getProp (getProp body ''config'') ''endpoint'' = JStr []"
  unfolding served_saved [OF assms]
  by (simp add: connConfig_def seedConn_def Let_def)

lemma aws_edit_drops_endpoint:
  assumes "trim l = l" "l \<noteq> []" "length l \<le> 64"
  shows "\<exists>body. snd (editStep PressSaveConn (openEdit (Some (servedConn i l ''aws-s3'' color
      [(''region'', JStr r), (''access_key'', JStr k), (''endpoint'', JStr url)])))) = [PatchConn body] \<and>
    getProp (getProp body ''config'') ''endpoint'' = JUndef"
  unfolding served_saved [OF assms]
  by (simp add: connConfig_def seedConn_def Let_def)

text \<open>
  The server leaves secrets out of what it gives and replaces the whole configuration by what it is sent: a new
  label for an S3 cluster erases its secret key.
\<close>

lemma relabel_erases_secret:
  assumes "trim l = l" "l \<noteq> []" "length l \<le> 64" and "drv = ''aws-s3'' \<or> drv = ''minio''"
    and "getProp (JObj cfg) ''secret_key'' = JUndef" "getProp (JObj cfg) ''s3SecretKey'' = JUndef"
  shows "\<exists>body. snd (editStep PressSaveConn (openEdit (Some (servedConn i l drv color cfg)))) = [PatchConn body] \<and>
    getProp (getProp body ''config'') ''secret_key'' = JStr []"
  unfolding served_saved [OF assms(1-3)] using config_secret [OF assms(4)] assms(5,6)
  by (simp add: seedConn_def Let_def)

text \<open>Both forms show a region for Garage and send none.\<close>

lemma garage_region_never_sent: "connConfig ''garage'' (f\<lparr>cnS3Region := r\<rparr>) = connConfig ''garage'' f"
  by (simp add: connConfig_def)

text \<open>The region starts as \<open>garage\<close>, so an AWS or MinIO cluster is registered in a region of that name.\<close>

lemma aws_region_is_garage:
  "cnS3Region (anForm (addClusterAfter [AddEdit (EditLabel l), AddDriver AwsS3])) = ''garage''"
  by (simp add: addClusterAfter_def openAddCluster_def freshConn_def)

text \<open>The stars of the form are not enforced: a label is enough.\<close>

lemma incomplete_cluster_sent:
  "PostCluster (connUpdate ''garage-v1'' (freshConn\<lparr>cnLabel := ''lab''\<rparr>)) \<in>
     set (snd (addClusterStep PressCreate (addClusterAfter [AddEdit (EditLabel ''lab'')])))"
  by code_simp

text \<open>
  Two hooks stand behind the early returns. A page opened before its cluster is cached runs two more of them when the
  cluster arrives, and one whose refetch fails runs two fewer: React ends both.
\<close>

lemma direct_load_crashes: "ecCrashed (editAfter None [ConnArrives c])"
  by (simp add: editAfter_def editStep_def openEdit_def renderEdit_def blankEdit_def hooksRun_def Let_def)

lemma refetch_error_crashes: "ecCrashed (editAfter (Some c) [ConnFails])"
  by (simp add: editAfter_def editStep_def openEdit_def renderEdit_def blankEdit_def hooksRun_def Let_def)

text \<open>On the page that adds a cluster the complaint about the token stays through every later attempt.\<close>

lemma token_complaint_stays: "anTokenMissing p \<Longrightarrow> anTokenMissing (fst (addClusterStep e p))"
  by (cases e) (auto split: sum.split)

end
