(* ===== verification/Admin_Lists.thy ===== *)
theory Admin_Lists
  imports Session Confirm_Dialogs Cluster_Hooks
begin

text \<open>
  The two lists of the administration: the buckets of all clusters (\<open>routes/admin/buckets/index.tsx\<close>) with search,
  filter, the dialog of a new bucket and the deletion of a row, and the clusters
  (\<open>routes/admin/clusters/index.tsx\<close>) with the deletion of a row. A request is under way until the elevation guard
  is through with it. The folding of case in the search is modelled for ASCII.
\<close>

section \<open>The list of buckets\<close>

record listed_bucket =
  lbCid :: string
  lbId :: string
  lbAliases :: "string list option"

text \<open>\<open>blDeleteId\<close> belongs to the page; only the identifier of the row is kept.\<close>

record bucket_list =
  blBuckets :: "listed_bucket list"
  blClusters :: "string list option"
  blFailed :: bool
  blSearch :: string
  blFilter :: "string option"
  blCreateOpen :: bool
  blCreating :: bool
  blCreateError :: bool
  blDeleteId :: "string option"
  blDelete :: confirm_dialog
  blDeleting :: bool

definition openBucketList :: bucket_list where
  "openBucketList = \<lparr>blBuckets = [], blClusters = None, blFailed = False, blSearch = [], blFilter = None,
     blCreateOpen = False, blCreating = False, blCreateError = False, blDeleteId = None, blDelete = closedConfirm,
     blDeleting = False\<rparr>"

definition aliasesOf :: "listed_bucket \<Rightarrow> string list" where
  "aliasesOf b = (case lbAliases b of None \<Rightarrow> [] | Some as \<Rightarrow> as)"

definition filteredBuckets :: "bucket_list \<Rightarrow> listed_bucket list" where
  "filteredBuckets p = filter (\<lambda>b.
     if (case blFilter p of None \<Rightarrow> False | Some c \<Rightarrow> c \<noteq> [] \<and> lbCid b \<noteq> c) then False
     else if blSearch p = [] then True
     else list_ex (\<lambda>a. containsSub (toLowerCase a) (toLowerCase (blSearch p))) (aliasesOf b)) (blBuckets p)"

text \<open>\<open>buckets.find((b) => b.id === id)\<close>, and the name the dialog asks for.\<close>

definition findBucket :: "string \<Rightarrow> bucket_list \<Rightarrow> listed_bucket option" where
  "findBucket i p = List.find (\<lambda>b. lbId b = i) (blBuckets p)"

definition confirmAlias :: "bucket_list \<Rightarrow> string" where
  "confirmAlias p = (case blDeleteId p of None \<Rightarrow> []
     | Some i \<Rightarrow> if i = [] then [] else (case findBucket i p of None \<Rightarrow> take 12 i
         | Some b \<Rightarrow> (case aliasesOf b of [] \<Rightarrow> take 12 i | a # _ \<Rightarrow> a)))"

definition targetCid :: "bucket_list \<Rightarrow> string option" where
  "targetCid p = (case blFilter p of Some c \<Rightarrow> Some c
     | None \<Rightarrow> (case blClusters p of Some (c # _) \<Rightarrow> Some c | _ \<Rightarrow> None))"

datatype bucket_list_event =
    ListArrives "listed_bucket list"
  | ListFails
  | ClusterIdsArrive "string list"
  | TypeSearch string
  | PickFilter "string option"
  | OpenNewBucket
  | DismissNewBucket
  | CancelNewBucket
  | SubmitNewBucket string
  | NewBucketSettled bool
  | ClickRowDelete string string
  | TypeRowName string
  | CancelRowDelete
  | ConfirmRowDelete
  | RowDeleteSettled

datatype bucket_list_out = NewBucketIn string string | DropBucketIn string string | LeaveForClusters

text \<open>Dismissing the dialog forgets the error of the last attempt, its Cancel button does not.\<close>

fun bucketListMove :: "bucket_list_event \<Rightarrow> bucket_list \<Rightarrow> bucket_list \<times> bucket_list_out list" where
  "bucketListMove (ListArrives bs) p = (p\<lparr>blBuckets := bs, blFailed := False\<rparr>, [])"
| "bucketListMove ListFails p = (p\<lparr>blFailed := True\<rparr>, [])"
| "bucketListMove (ClusterIdsArrive cs) p =
     (p\<lparr>blClusters := Some cs\<rparr>, if cs = [] \<and> blClusters p \<noteq> Some [] then [LeaveForClusters] else [])"
| "bucketListMove (TypeSearch s) p = (if blFailed p then p else p\<lparr>blSearch := s\<rparr>, [])"
| "bucketListMove (PickFilter c) p = (if blFailed p then p else p\<lparr>blFilter := c\<rparr>, [])"
| "bucketListMove OpenNewBucket p = (if blFailed p then p else p\<lparr>blCreateOpen := True\<rparr>, [])"
| "bucketListMove DismissNewBucket p =
     (if blFailed p \<or> \<not> blCreateOpen p then p else p\<lparr>blCreateOpen := False, blCreating := False, blCreateError := False\<rparr>, [])"
| "bucketListMove CancelNewBucket p = (if blFailed p \<or> \<not> blCreateOpen p then p else p\<lparr>blCreateOpen := False\<rparr>, [])"
| "bucketListMove (SubmitNewBucket a) p =
     (if blFailed p \<or> \<not> blCreateOpen p \<or> blCreating p then (p, [])
      else case targetCid p of None \<Rightarrow> (p, [])
        | Some c \<Rightarrow> if c = [] then (p, []) else (p\<lparr>blCreating := True, blCreateError := False\<rparr>, [NewBucketIn c a]))"
| "bucketListMove (NewBucketSettled ok) p =
     (if blCreating p then p\<lparr>blCreating := False, blCreateError := \<not> ok\<rparr> else p, [])"
| "bucketListMove (ClickRowDelete c i) p =
     (if \<not> blFailed p \<and> (\<exists>b \<in> set (filteredBuckets p). lbCid b = c \<and> lbId b = i) then p\<lparr>blDeleteId := Some i\<rparr> else p, [])"
| "bucketListMove (TypeRowName s) p = (p\<lparr>blDelete := typeConfirm s (blDelete p)\<rparr>, [])"
| "bucketListMove CancelRowDelete p = (if blFailed p then p else p\<lparr>blDeleteId := None\<rparr>, [])"
| "bucketListMove ConfirmRowDelete p =
     (if confirmEnabled (confirmAlias p) (blDeleting p) (blDelete p)
      then (case blDeleteId p of None \<Rightarrow> (p, [])
        | Some i \<Rightarrow> (case findBucket i p of None \<Rightarrow> (p, [])
            | Some b \<Rightarrow> if i = [] \<or> lbCid b = [] then (p, [])
                else (p\<lparr>blDeleteId := None, blDeleting := True\<rparr>, [DropBucketIn (lbCid b) i])))
      else (p, []))"
| "bucketListMove RowDeleteSettled p = (p\<lparr>blDeleting := False\<rparr>, [])"

definition renderBucketList :: "bucket_list \<Rightarrow> bucket_list" where
  "renderBucketList p = p\<lparr>blDelete := renderConfirm (confirmAlias p)
     ((blDelete p)\<lparr>cfOpen := blDeleteId p \<noteq> None \<and> \<not> blFailed p\<rparr>)\<rparr>"

definition bucketListStep :: "bucket_list_event \<Rightarrow> bucket_list \<Rightarrow> bucket_list \<times> bucket_list_out list" where
  "bucketListStep e p = (renderBucketList (fst (bucketListMove e p)), snd (bucketListMove e p))"

definition bucketListAfter :: "bucket_list_event list \<Rightarrow> bucket_list" where
  "bucketListAfter es = foldl (\<lambda>p e. fst (bucketListStep e p)) openBucketList es"

fun bucketListAction :: "bucket_list_out \<Rightarrow> json js option" where
  "bucketListAction (NewBucketIn c a) = Some (mutationFn useCreateBucket (c, a))"
| "bucketListAction (DropBucketIn c i) = Some (mutationFn useDeleteBucket (c, i))"
| "bucketListAction LeaveForClusters = None"

section \<open>The list of clusters\<close>

record cluster_list =
  ctClusters :: "(string \<times> string) list"
  ctFailed :: bool
  ctOpen :: bool
  ctTarget :: "(string \<times> string) option"
  ctDelete :: confirm_dialog
  ctDeleting :: bool

definition openClusterList :: cluster_list where
  "openClusterList = \<lparr>ctClusters = [], ctFailed = False, ctOpen = False, ctTarget = None, ctDelete = closedConfirm,
     ctDeleting = False\<rparr>"

definition targetLabel :: "cluster_list \<Rightarrow> string" where
  "targetLabel p = (case ctTarget p of None \<Rightarrow> [] | Some (_, l) \<Rightarrow> l)"

datatype cluster_list_event =
    ClusterListArrives "(string \<times> string) list"
  | ClusterListFails
  | ClickClusterDelete string string
  | TypeClusterLabel string
  | CancelClusterDelete
  | ConfirmListedDelete
  | ListedDeleteSettled

fun clusterListMove :: "cluster_list_event \<Rightarrow> cluster_list \<Rightarrow> cluster_list \<times> string list" where
  "clusterListMove (ClusterListArrives cs) p = (p\<lparr>ctClusters := cs, ctFailed := False\<rparr>, [])"
| "clusterListMove ClusterListFails p = (p\<lparr>ctFailed := True\<rparr>, [])"
| "clusterListMove (ClickClusterDelete i l) p =
     (if \<not> ctFailed p \<and> (i, l) \<in> set (ctClusters p) then p\<lparr>ctTarget := Some (i, l), ctOpen := True\<rparr> else p, [])"
| "clusterListMove (TypeClusterLabel s) p = (p\<lparr>ctDelete := typeConfirm s (ctDelete p)\<rparr>, [])"
| "clusterListMove CancelClusterDelete p = (if ctFailed p then p else p\<lparr>ctOpen := False, ctTarget := None\<rparr>, [])"
| "clusterListMove ConfirmListedDelete p =
     (if confirmEnabled (targetLabel p) (ctDeleting p) (ctDelete p)
      then (case ctTarget p of None \<Rightarrow> (p, [])
        | Some (i, _) \<Rightarrow> (p\<lparr>ctOpen := False, ctTarget := None, ctDeleting := True\<rparr>, [i]))
      else (p, []))"
| "clusterListMove ListedDeleteSettled p = (p\<lparr>ctDeleting := False\<rparr>, [])"

definition renderClusterList :: "cluster_list \<Rightarrow> cluster_list" where
  "renderClusterList p = p\<lparr>ctDelete := renderConfirm (targetLabel p) ((ctDelete p)\<lparr>cfOpen := ctOpen p \<and> \<not> ctFailed p\<rparr>)\<rparr>"

text \<open>The second part of a step is the clusters whose deletion is asked for.\<close>

definition clusterListStep :: "cluster_list_event \<Rightarrow> cluster_list \<Rightarrow> cluster_list \<times> string list" where
  "clusterListStep e p = (renderClusterList (fst (clusterListMove e p)), snd (clusterListMove e p))"

definition clusterListAfter :: "cluster_list_event list \<Rightarrow> cluster_list" where
  "clusterListAfter es = foldl (\<lambda>p e. fst (clusterListStep e p)) openClusterList es"

text \<open>The queries of a row.\<close>

definition clusterRowQueries :: "string \<Rightarrow> query list" where
  "clusterRowQueries cid = filter qEnabled [useTestClusterQuery cid (Some True), useClusterBuckets cid True, useClusterKeys cid True]"

section \<open>A row is deleted after its name was typed\<close>

fun rowTyped :: "bucket_list_event \<Rightarrow> string option" where
  "rowTyped (TypeRowName s) = Some s"
| "rowTyped _ = None"

fun listTyped :: "cluster_list_event \<Rightarrow> string option" where
  "listTyped (TypeClusterLabel s) = Some s"
| "listTyped _ = None"

lemma bucketListMove_delete:
  "cfSeen (blDelete (fst (bucketListMove e p))) = cfSeen (blDelete p) \<and>
   (cfTyped (blDelete (fst (bucketListMove e p))) = cfTyped (blDelete p) \<or>
    rowTyped e = Some (cfTyped (blDelete (fst (bucketListMove e p)))))"
  by (cases e) (simp_all add: typeConfirm_def split: option.split)

lemma clusterListMove_delete:
  "cfSeen (ctDelete (fst (clusterListMove e p))) = cfSeen (ctDelete p) \<and>
   (cfTyped (ctDelete (fst (clusterListMove e p))) = cfTyped (ctDelete p) \<or>
    listTyped e = Some (cfTyped (ctDelete (fst (clusterListMove e p)))))"
  by (cases e) (simp_all add: typeConfirm_def split: option.split)

lemma confirmAlias_render [simp]: "confirmAlias (p\<lparr>blDelete := d\<rparr>) = confirmAlias p"
  by (simp add: confirmAlias_def findBucket_def split: option.split)

lemma targetLabel_render [simp]: "targetLabel (p\<lparr>ctDelete := d\<rparr>) = targetLabel p"
  by (simp add: targetLabel_def)

interpretation bucket_row: confirm_page "\<lambda>e p. fst (bucketListStep e p)" confirmAlias blDelete rowTyped
proof unfold_locales
  fix e p
  let ?q = "fst (bucketListMove e p)"
  show "\<exists>d. blDelete (fst (bucketListStep e p)) = renderConfirm (confirmAlias (fst (bucketListStep e p))) d \<and>
      cfSeen d = cfSeen (blDelete p) \<and> (cfTyped d = cfTyped (blDelete p) \<or> rowTyped e = Some (cfTyped d))"
    using bucketListMove_delete [of e p]
    by (intro exI [of _ "(blDelete ?q)\<lparr>cfOpen := blDeleteId ?q \<noteq> None \<and> \<not> blFailed ?q\<rparr>"])
      (simp add: bucketListStep_def renderBucketList_def)
qed

interpretation cluster_row: confirm_page "\<lambda>e p. fst (clusterListStep e p)" targetLabel ctDelete listTyped
proof unfold_locales
  fix e p
  let ?q = "fst (clusterListMove e p)"
  show "\<exists>d. ctDelete (fst (clusterListStep e p)) = renderConfirm (targetLabel (fst (clusterListStep e p))) d \<and>
      cfSeen d = cfSeen (ctDelete p) \<and> (cfTyped d = cfTyped (ctDelete p) \<or> listTyped e = Some (cfTyped d))"
    using clusterListMove_delete [of e p]
    by (intro exI [of _ "(ctDelete ?q)\<lparr>cfOpen := ctOpen ?q \<and> \<not> ctFailed ?q\<rparr>"])
      (simp add: clusterListStep_def renderClusterList_def)
qed

lemma rowTyped_Some: "rowTyped e = Some s \<Longrightarrow> e = TypeRowName s"
  by (cases e) simp_all

lemma listTyped_Some: "listTyped e = Some s \<Longrightarrow> e = TypeClusterLabel s"
  by (cases e) simp_all

lemma row_drop:
  "DropBucketIn c i \<in> set (snd (bucketListStep e p)) \<Longrightarrow>
   e = ConfirmRowDelete \<and> confirmEnabled (confirmAlias p) (blDeleting p) (blDelete p) \<and> blDeleteId p = Some i \<and>
   (\<exists>b \<in> set (blBuckets p). lbCid b = c \<and> lbId b = i)"
  unfolding bucketListStep_def
  by (cases e) (auto simp: findBucket_def find_Some_iff split: if_splits option.splits)

lemma list_drop:
  "i \<in> set (snd (clusterListStep e p)) \<Longrightarrow>
   e = ConfirmListedDelete \<and> confirmEnabled (targetLabel p) (ctDeleting p) (ctDelete p) \<and> (\<exists>l. ctTarget p = Some (i, l))"
  unfolding clusterListStep_def by (cases e) (auto split: if_splits option.splits)

text \<open>
  From the list of all buckets only a bucket that is listed is deleted, by the button of the
  dialog and after the name the dialog shows was typed into it while it stood open under this very name.
\<close>

theorem list_delete_typed:
  assumes "p = bucketListAfter es" and "DropBucketIn c i \<in> set (snd (bucketListStep e p))" and "confirmAlias p \<noteq> []"
  shows "e = ConfirmRowDelete \<and> (\<exists>b \<in> set (blBuckets p). lbCid b = c \<and> lbId b = i) \<and>
    (\<exists>es1 s es2. es = es1 @ TypeRowName s # es2 \<and> trim s = confirmAlias p \<and>
      (\<forall>k \<le> length es2. let q = bucketListAfter (es1 @ TypeRowName s # take k es2)
        in cfOpen (blDelete q) \<and> confirmAlias q = confirmAlias p))"
proof -
  note e = row_drop [OF assms(2)]
  have run: "bucketListAfter xs = bucket_row.pageRun xs openBucketList" for xs
    by (simp add: bucket_row.pageRun_def bucketListAfter_def)
  from bucket_row.confirmed_after_typing [of openBucketList es "blDeleting p"] e assms(3)
  show ?thesis unfolding assms(1) run
    by (auto simp: openBucketList_def closedConfirm_def Let_def dest!: rowTyped_Some)
qed

text \<open>Two clusters have a bucket of the same name; the second is clicked.\<close>

definition twoNamesakes :: "listed_bucket list" where
  "twoNamesakes = [\<lparr>lbCid = ''c1'', lbId = ''logs'', lbAliases = Some [''logs'']\<rparr>,
     \<lparr>lbCid = ''c2'', lbId = ''logs'', lbAliases = Some [''logs'']\<rparr>]"

definition clickSecond :: "bucket_list_event list" where
  "clickSecond = [ListArrives twoNamesakes, ClickRowDelete ''c2'' ''logs'', TypeRowName ''logs'']"

lemma second_clicked: "DropBucketIn ''c1'' ''logs'' \<in> set (snd (bucketListStep ConfirmRowDelete (bucketListAfter clickSecond)))"
  by code_simp

theorem list_delete_typed_witness:
  "\<exists>es1 s es2. clickSecond = es1 @ TypeRowName s # es2 \<and> trim s = ''logs''"
proof -
  have l: "confirmAlias (bucketListAfter clickSecond) = ''logs''" by code_simp
  from list_delete_typed [OF refl second_clicked] show ?thesis unfolding l by auto
qed

text \<open>
  From the list of clusters only the cluster whose entry was chosen is deleted, by the
  button of the dialog and after its label was typed into it while it stood open under this very label.
\<close>

theorem cluster_row_delete_typed:
  assumes "p = clusterListAfter es" and "i \<in> set (snd (clusterListStep e p))" and "targetLabel p \<noteq> []"
  shows "e = ConfirmListedDelete \<and> (\<exists>l. ctTarget p = Some (i, l)) \<and>
    (\<exists>es1 s es2. es = es1 @ TypeClusterLabel s # es2 \<and> trim s = targetLabel p \<and>
      (\<forall>k \<le> length es2. let q = clusterListAfter (es1 @ TypeClusterLabel s # take k es2)
        in cfOpen (ctDelete q) \<and> targetLabel q = targetLabel p))"
proof -
  note e = list_drop [OF assms(2)]
  have run: "clusterListAfter xs = cluster_row.pageRun xs openClusterList" for xs
    by (simp add: cluster_row.pageRun_def clusterListAfter_def)
  from cluster_row.confirmed_after_typing [of openClusterList es "ctDeleting p"] e assms(3)
  show ?thesis unfolding assms(1) run
    by (auto simp: openClusterList_def closedConfirm_def Let_def dest!: listTyped_Some)
qed

theorem cluster_row_delete_typed_witness:
  "\<exists>es1 s es2. [ClusterListArrives [(''c1'', ''lab'')], ClickClusterDelete ''c1'' ''lab'', TypeClusterLabel ''lab''] =
     es1 @ TypeClusterLabel s # es2 \<and> trim s = ''lab''"
proof -
  let ?p = "clusterListAfter [ClusterListArrives [(''c1'', ''lab'')], ClickClusterDelete ''c1'' ''lab'', TypeClusterLabel ''lab'']"
  have d: "''c1'' \<in> set (snd (clusterListStep ConfirmListedDelete ?p))" by code_simp
  have l: "targetLabel ?p = ''lab''" by code_simp
  from cluster_row_delete_typed [OF refl d] show ?thesis unfolding l by auto
qed

section \<open>What the filter shows\<close>

lemma filtered_sound:
  assumes "b \<in> set (filteredBuckets p)"
  shows "b \<in> set (blBuckets p) \<and> (\<forall>c. blFilter p = Some c \<and> c \<noteq> [] \<longrightarrow> lbCid b = c)"
  using assms by (auto simp: filteredBuckets_def split: if_splits option.splits)

lemma unfiltered_all: "blFilter p = None \<Longrightarrow> blSearch p = [] \<Longrightarrow> filteredBuckets p = blBuckets p"
  by (simp add: filteredBuckets_def)

section \<open>What the lists get wrong\<close>

text \<open>
  The page keeps the identifier of the row, which is the name of the bucket for most drivers, and looks the cluster
  up by it: with two buckets of one name, confirming the deletion of the second deletes the first.
\<close>

lemma delete_hits_other_cluster:
  "DropBucketIn ''c1'' ''logs'' \<in> set (snd (bucketListStep ConfirmRowDelete (bucketListAfter clickSecond))) \<and>
   DropBucketIn ''c2'' ''logs'' \<notin> set (snd (bucketListStep ConfirmRowDelete (bucketListAfter clickSecond)))"
  by code_simp

text \<open>A bucket without an alias, which the table shows under its identifier, is found by no search.\<close>

lemma unnamed_never_found:
  assumes "blSearch p \<noteq> []" "aliasesOf b = []"
  shows "b \<notin> set (filteredBuckets p)"
  using assms by (auto simp: filteredBuckets_def)

text \<open>A new bucket goes to the first cluster when no filter is set, and the alias may be empty; success keeps the dialog open.\<close>

lemma new_bucket_first_cluster:
  assumes "\<not> blFailed p" "blCreateOpen p" "\<not> blCreating p" "blFilter p = None" "blClusters p = Some (c # cs)" "c \<noteq> []"
  shows "snd (bucketListMove (SubmitNewBucket []) p) = [NewBucketIn c []] \<and>
    blCreateOpen (fst (bucketListMove (NewBucketSettled True) (fst (bucketListMove (SubmitNewBucket []) p))))"
  using assms by (simp add: targetCid_def)

text \<open>The Cancel button leaves the error of the last attempt, which greets the next one.\<close>

lemma cancel_keeps_error:
  assumes "blCreateError p" "\<not> blFailed p"
  shows "blCreateError (fst (bucketListMove OpenNewBucket (fst (bucketListMove CancelNewBucket p))))"
  using assms by simp

text \<open>
  The rows of the list of clusters ask for buckets and keys without looking at the capability that the page of a
  cluster gates these queries on.
\<close>

lemma list_fires_gated_queries:
  assumes "cid \<noteq> []"
  shows "map queryKey (clusterRowQueries cid) = [clusterKey cid [KS ''_test''], clusterKey cid [KS ''buckets''], clusterKey cid [KS ''keys'']]"
  using assms by (simp add: clusterRowQueries_def hook_defs)

end
