(* ===== verification/Users_Page.thy ===== *)
theory Users_Page
  imports Prompts Admin_Hooks
begin

text \<open>
  The users: the list with its deletions and the panel of pending invites (\<open>routes/admin/users/index.tsx\<close>), and the
  form of a new user (\<open>routes/admin/users/new.tsx\<close>). The length of a password is its number of bytes, which for
  ASCII is the \<open>length\<close> of the browser.
\<close>

section \<open>A new user\<close>

text \<open>\<open>nuErrors\<close>: whether an error stands at the username and at the password. \<open>nuInFlight\<close> counts the requests under way.\<close>

record new_user =
  nuUsername :: string
  nuPassword :: string
  nuInviteOnly :: bool
  nuSubmitting :: bool
  nuInvite :: "json option"
  nuNameError :: bool
  nuPasswordError :: bool
  nuInFlight :: nat

definition openNewUser :: new_user where
  "openNewUser = \<lparr>nuUsername = [], nuPassword = [], nuInviteOnly = False, nuSubmitting = False, nuInvite = None,
     nuNameError = False, nuPasswordError = False, nuInFlight = 0\<rparr>"

datatype user_answer = UserAnswer nat json | UserLost

datatype new_user_event =
    TypeUsername string
  | TypeUserPassword string
  | TickInviteOnly bool
  | PressCreateUser
  | EnterInUserForm
  | NewUserSettled user_answer
  | PressCancelUser
  | PressDoneUser

datatype new_user_out = PostUser json | ToUsers | ToastUserCreated | ToastUserFailed "nat option"

definition newUserBody :: "new_user \<Rightarrow> json" where
  "newUserBody p = JObj [(''username'', JStr (trim (nuUsername p))), (''password'', JStr (nuPassword p)),
     (''inviteOnly'', JBool (nuInviteOnly p))]"

definition submitUser :: "new_user \<Rightarrow> new_user \<times> new_user_out list" where
  "submitUser p = (let e1 = (trim (nuUsername p) = []); e2 = (\<not> nuInviteOnly p \<and> length (nuPassword p) < 8);
       q = p\<lparr>nuNameError := e1, nuPasswordError := e2\<rparr> in
     if e1 \<or> e2 then (q, [])
     else (q\<lparr>nuSubmitting := True, nuInFlight := Suc (nuInFlight p)\<rparr>, [PostUser (newUserBody p)]))"

text \<open>
  A form without a submit button is submitted by Enter when it has at most one text field: here, when the password
  is not asked for. The buttons are disabled by \<open>submitting\<close>, the form is not.
\<close>

fun newUserStep :: "new_user_event \<Rightarrow> new_user \<Rightarrow> new_user \<times> new_user_out list" where
  "newUserStep (TypeUsername s) p =
     (if nuInvite p \<noteq> None then p else p\<lparr>nuUsername := s, nuNameError := (nuNameError p \<and> trim s = [])\<rparr>, [])"
| "newUserStep (TypeUserPassword s) p =
     (if nuInvite p \<noteq> None \<or> nuInviteOnly p then p
      else p\<lparr>nuPassword := s, nuPasswordError := (nuPasswordError p \<and> length s < 8)\<rparr>, [])"
| "newUserStep (TickInviteOnly v) p =
     (if nuInvite p \<noteq> None then p else p\<lparr>nuInviteOnly := v, nuPasswordError := (nuPasswordError p \<and> \<not> v)\<rparr>, [])"
| "newUserStep PressCreateUser p = (if nuInvite p \<noteq> None \<or> nuSubmitting p then (p, []) else submitUser p)"
| "newUserStep EnterInUserForm p = (if nuInvite p \<noteq> None \<or> \<not> nuInviteOnly p then (p, []) else submitUser p)"
| "newUserStep (NewUserSettled r) p =
     (if nuInFlight p = 0 then (p, [])
      else let q = p\<lparr>nuSubmitting := False, nuInFlight := nuInFlight p - 1\<rparr> in
        case r of UserLost \<Rightarrow> (q, [ToastUserFailed None])
        | UserAnswer status result \<Rightarrow>
            if \<not> httpOk status then (q, [ToastUserFailed (Some status)])
            else if truthy result \<and> truthy (getProp result ''invite'') then (q\<lparr>nuInvite := Some (getProp result ''invite'')\<rparr>, [])
            else (q, [ToastUserCreated, ToUsers]))"
| "newUserStep PressCancelUser p = (p, if nuInvite p \<noteq> None \<or> nuSubmitting p then [] else [ToUsers])"
| "newUserStep PressDoneUser p = (p, if nuInvite p = None then [] else [ToUsers])"

definition newUserAfter :: "new_user_event list \<Rightarrow> new_user" where
  "newUserAfter es = foldl (\<lambda>p e. fst (newUserStep e p)) openNewUser es"

text \<open>The link the page shows, and the text behind \<open>new Date\<close> in \<open>Expires\<close>.\<close>

definition inviteLink :: "string \<Rightarrow> json \<Rightarrow> string" where
  "inviteLink origin invite = origin @ ''/auth/oidc/redeem/'' @ toStr (getProp invite ''token'')"

definition inviteExpiry :: "json \<Rightarrow> json" where
  "inviteExpiry invite = getProp invite ''expiresAt''"

section \<open>The list and its deletions\<close>

record users_page =
  usLoading :: bool
  usUsers :: json

definition openUsers :: users_page where
  "openUsers = \<lparr>usLoading = True, usUsers = JArr []\<rparr>"

text \<open>The typed client gives no data for a refusal, and throws only when there is no answer.\<close>

datatype users_out = ToastLoadFailed | LeaveForFiles

definition fetchUsers :: "call_res option \<Rightarrow> users_page \<Rightarrow> users_page \<times> users_out list" where
  "fetchUsers r p = (case r of
       None \<Rightarrow> (p\<lparr>usLoading := False\<rparr>, [ToastLoadFailed, LeaveForFiles])
     | Some res \<Rightarrow> (p\<lparr>usUsers := (if truthy (crData res) then crData res else usUsers p), usLoading := False\<rparr>, []))"

text \<open>The error made up for a refusal: \<open>??\<close> keeps an empty text, and details that are not there.\<close>

definition deleteUserError :: "nat \<Rightarrow> json \<Rightarrow> js_error" where
  "deleteUserError status body =
     (let e = getProp body ''error'';
          code = orElse (getProp e ''code'') (JStr (''HTTP_'' @ dec status));
          message = orElse (getProp e ''message'') (JStr (''deleteUser failed (HTTP '' @ dec status @ '')''))
      in ApiError (toStr code @ '': '' @ toStr message) code status (getProp e ''details''))"

text \<open>
  The client takes path and query parameters from \<open>params\<close>; the \<open>query\<close> given beside it is an option it hands on
  to \<open>Request\<close>, which ignores it.
\<close>

definition deleteUserCall :: "string \<Rightarrow> call_req" where
  "deleteUserCall username = callReq ''DELETE'' ''/admin/users'' [] JUndef"

definition deleteUserOnce :: "string \<Rightarrow> unit js" where
  "deleteUserOnce username = awaitCall (deleteUserCall username) (\<lambda>res.
     if httpOk (crStatus res) then Ret () else Throw (deleteUserError (crStatus res) (crError res)))"

text \<open>What the operator is told: nothing when the deletion was not confirmed or the dialog dismissed.\<close>

datatype deletion_outcome = NotConfirmed | UserDeleted | DeletionCancelled | DeletionFailed

definition handleDeleteUser ::
  "(auth_mode \<times> string option \<Rightarrow> unit option js) \<Rightarrow> bool \<Rightarrow> string \<Rightarrow> deletion_outcome option js" where
  "handleDeleteUser prompt confirmed username =
     (if \<not> confirmed then Ret (Some NotConfirmed)
      else catchJs (bindJs (runWithElevation prompt (deleteUserOnce username))
          (\<lambda>r. Ret (case r of None \<Rightarrow> None | Some _ \<Rightarrow> Some UserDeleted)))
        (\<lambda>e. Ret (Some (if messageOf e = ''ELEVATION_CANCELLED'' then DeletionCancelled else DeletionFailed))))"

section \<open>The pending invites\<close>

text \<open>\<open>ivFresh\<close> holds the tokens that were created or rotated since the page was opened, under the invite.\<close>

record invites_panel =
  ivLabel :: string
  ivFresh :: "string \<Rightarrow> string option"
  ivCreating :: bool

definition openInvites :: invites_panel where
  "openInvites = \<lparr>ivLabel = [], ivFresh = (\<lambda>_. None), ivCreating = False\<rparr>"

text \<open>The questions of the browser are answered in the events; an answer is an invite and its token.\<close>

datatype invites_event =
    TypeInviteLabel string
  | PressNewInvite
  | InviteCreated "(string \<times> string) option"
  | ClickRevoke string bool
  | RevokeSettled string bool
  | ClickRotate string bool
  | RotateSettled "(string \<times> string) option"
  | PressCopyUrl string

datatype invites_out = AskInvite "string option" | AskRevoke string | AskRotate string | CopyText string

definition freshToken :: "string \<Rightarrow> invites_panel \<Rightarrow> string option" where
  "freshToken i p = (case ivFresh p i of Some t \<Rightarrow> if t = [] then None else Some t | None \<Rightarrow> None)"

fun invitesStep :: "string \<Rightarrow> invites_event \<Rightarrow> invites_panel \<Rightarrow> invites_panel \<times> invites_out list" where
  "invitesStep origin (TypeInviteLabel s) p = (p\<lparr>ivLabel := s\<rparr>, [])"
| "invitesStep origin PressNewInvite p =
     (if ivCreating p then (p, [])
      else (p\<lparr>ivCreating := True\<rparr>, [AskInvite (if trim (ivLabel p) = [] then None else Some (trim (ivLabel p)))]))"
| "invitesStep origin (InviteCreated r) p =
     (if \<not> ivCreating p then (p, [])
      else case r of None \<Rightarrow> (p\<lparr>ivCreating := False\<rparr>, [])
        | Some (i, t) \<Rightarrow> (p\<lparr>ivCreating := False, ivFresh := (ivFresh p)(i := Some t), ivLabel := []\<rparr>, []))"
| "invitesStep origin (ClickRevoke i yes) p = (p, if yes then [AskRevoke i] else [])"
| "invitesStep origin (RevokeSettled i ok) p = (if ok then p\<lparr>ivFresh := (ivFresh p)(i := None)\<rparr> else p, [])"
| "invitesStep origin (ClickRotate i yes) p = (p, if yes then [AskRotate i] else [])"
| "invitesStep origin (RotateSettled r) p =
     (case r of None \<Rightarrow> p | Some (i, t) \<Rightarrow> p\<lparr>ivFresh := (ivFresh p)(i := Some t)\<rparr>, [])"
| "invitesStep origin (PressCopyUrl i) p =
     (p, case freshToken i p of None \<Rightarrow> [] | Some t \<Rightarrow> [CopyText (origin @ ''/auth/oidc/redeem/'' @ t)])"

definition invitesAfter :: "string \<Rightarrow> invites_event list \<Rightarrow> invites_panel" where
  "invitesAfter origin es = foldl (\<lambda>p e. fst (invitesStep origin e p)) openInvites es"

fun invitesAction :: "invites_out \<Rightarrow> json js option" where
  "invitesAction (AskInvite l) = Some (mutationFn useCreateInvite (l, None))"
| "invitesAction (AskRevoke i) = Some (mutationFn useRevokeInvite i)"
| "invitesAction (AskRotate i) = Some (mutationFn useRotateInvite (i, None))"
| "invitesAction (CopyText s) = None"

section \<open>What the form sends\<close>

lemma newUserAfter_snoc: "newUserAfter (es @ [e]) = fst (newUserStep e (newUserAfter es))"
  by (simp add: newUserAfter_def)

lemma user_body [simp]:
  "getProp (newUserBody p) ''username'' = JStr (trim (nuUsername p))"
  "getProp (newUserBody p) ''password'' = JStr (nuPassword p)"
  "getProp (newUserBody p) ''inviteOnly'' = JBool (nuInviteOnly p)"
  by (simp_all add: newUserBody_def)

lemma submit_out:
  "PostUser body \<in> set (snd (submitUser p)) \<longleftrightarrow>
   trim (nuUsername p) \<noteq> [] \<and> (nuInviteOnly p \<or> 8 \<le> length (nuPassword p)) \<and> body = newUserBody p"
  by (auto simp: submitUser_def Let_def)

lemma post_user:
  "PostUser body \<in> set (snd (newUserStep e p)) \<Longrightarrow>
   (e = PressCreateUser \<and> \<not> nuSubmitting p \<or> e = EnterInUserForm \<and> nuInviteOnly p) \<and>
   PostUser body \<in> set (snd (submitUser p))"
  by (cases e) (auto simp: Let_def split: if_splits user_answer.splits)

text \<open>Without the Enter key the button guards the request: one that is under way keeps it disabled.\<close>

definition oneUnderWay :: "new_user \<Rightarrow> bool" where
  "oneUnderWay p \<longleftrightarrow> nuInFlight p = (if nuSubmitting p then 1 else 0)"

lemma one_step: "e \<noteq> EnterInUserForm \<Longrightarrow> oneUnderWay p \<Longrightarrow> oneUnderWay (fst (newUserStep e p))"
  by (cases e) (auto simp: oneUnderWay_def submitUser_def Let_def split: user_answer.split if_splits)

lemma one_reachable: "EnterInUserForm \<notin> set es \<Longrightarrow> oneUnderWay (newUserAfter es)"
proof (induction es rule: rev_induct)
  case Nil
  then show ?case by (simp add: newUserAfter_def openNewUser_def oneUnderWay_def)
next
  case (snoc e es)
  then show ?case unfolding newUserAfter_snoc by (intro one_step) auto
qed

text \<open>
  A request for a new user names the trimmed username, which is not blank, and carries a
  password of at least eight characters unless an invite is asked for; with the Enter key left alone, none is sent
  while another is under way.
\<close>

theorem new_user_valid:
  assumes "PostUser body \<in> set (snd (newUserStep e (newUserAfter es)))"
  shows "\<exists>name pw invite. getProp body ''username'' = JStr name \<and> name = trim (nuUsername (newUserAfter es)) \<and>
    name \<noteq> [] \<and> getProp body ''password'' = JStr pw \<and> getProp body ''inviteOnly'' = JBool invite \<and>
    (invite \<or> 8 \<le> length pw) \<and>
    (EnterInUserForm \<notin> set (es @ [e]) \<longrightarrow> nuInFlight (newUserAfter es) = 0)"
  using post_user [OF assms] one_reachable [of es] by (auto simp: submit_out oneUnderWay_def)

definition filledUser :: "new_user_event list" where
  "filledUser = [TypeUsername '' eve '', TypeUserPassword ''eightlen'']"

theorem new_user_valid_witness:
  "\<exists>name. getProp (newUserBody (newUserAfter filledUser)) ''username'' = JStr name \<and> name \<noteq> []"
proof -
  have "PostUser (newUserBody (newUserAfter filledUser)) \<in> set (snd (newUserStep PressCreateUser (newUserAfter filledUser)))"
    by code_simp
  from new_user_valid [OF this] show ?thesis by blast
qed

section \<open>Which errors are shown\<close>

lemma errors_step:
  assumes "nuNameError p \<longrightarrow> trim (nuUsername p) = []"
    and "nuPasswordError p \<longrightarrow> \<not> nuInviteOnly p \<and> length (nuPassword p) < 8"
  shows "(nuNameError (fst (newUserStep e p)) \<longrightarrow> trim (nuUsername (fst (newUserStep e p))) = []) \<and>
    (nuPasswordError (fst (newUserStep e p)) \<longrightarrow>
      \<not> nuInviteOnly (fst (newUserStep e p)) \<and> length (nuPassword (fst (newUserStep e p))) < 8)"
  using assms by (cases e) (auto simp: submitUser_def Let_def split: user_answer.split)

text \<open>An error is shown only at a field that is still in error; the password error never without its field.\<close>

theorem field_errors_true:
  "(nuNameError (newUserAfter es) \<longrightarrow> trim (nuUsername (newUserAfter es)) = []) \<and>
   (nuPasswordError (newUserAfter es) \<longrightarrow> \<not> nuInviteOnly (newUserAfter es) \<and> length (nuPassword (newUserAfter es)) < 8)"
proof (induction es rule: rev_induct)
  case Nil
  then show ?case by (simp add: newUserAfter_def openNewUser_def)
next
  case (snoc e es)
  then show ?case unfolding newUserAfter_snoc by (intro errors_step) simp_all
qed

section \<open>What the operator is told about a deletion\<close>

lemma run_deleteUserOnce:
  "run (deleteUserOnce u) b h = (h @ [RCall (deleteUserCall u)],
     case onCall b h (deleteUserCall u) of None \<Rightarrow> Inl NetworkError
     | Some res \<Rightarrow> if httpOk (crStatus res) then Inr () else Inl (deleteUserError (crStatus res) (crError res)))"
  by (simp add: deleteUserOnce_def awaitCall_def split: option.split)

lemma made_up_error: "messageOf (deleteUserError s body) \<noteq> ''ELEVATION_CANCELLED''"
proof -
  have "CHR '':'' \<in> set (messageOf (deleteUserError s body))" by (simp add: deleteUserError_def Let_def)
  moreover have "CHR '':'' \<notin> set ''ELEVATION_CANCELLED''" by simp
  ultimately show ?thesis by metis
qed

lemma once_failed: "run (deleteUserOnce u) b h = (h', Inl e) \<Longrightarrow> messageOf e \<noteq> ''ELEVATION_CANCELLED''"
  using made_up_error by (auto simp: run_deleteUserOnce split: option.splits if_splits)

text \<open>The user was deleted as far as the server said so: the last request was an accepted deletion.\<close>

definition deletionAccepted :: "backend \<Rightarrow> string \<Rightarrow> request list \<Rightarrow> bool" where
  "deletionAccepted b u h \<longleftrightarrow> (\<exists>h0 res. h = h0 @ [RCall (deleteUserCall u)] \<and>
     onCall b h0 (deleteUserCall u) = Some res \<and> httpOk (crStatus res))"

lemma once_done: "run (deleteUserOnce u) b h = (h', Inr x) \<Longrightarrow> deletionAccepted b u h'"
  by (auto simp: run_deleteUserOnce deletionAccepted_def split: option.splits if_splits)

lemma run_handleDeleteUser:
  "run (handleDeleteUser prompt True u) b h =
     (case run (runWithElevation prompt (deleteUserOnce u)) b h of
        (h', Inl e) \<Rightarrow> (h', Inr (Some (if messageOf e = ''ELEVATION_CANCELLED'' then DeletionCancelled else DeletionFailed)))
      | (h', Inr None) \<Rightarrow> (h', Inr None)
      | (h', Inr (Some _)) \<Rightarrow> (h', Inr (Some UserDeleted)))"
  by (auto simp: handleDeleteUser_def run_catchJs run_bindJs split: prod.splits sum.splits option.splits)

text \<open>The server refused the first attempt for want of re-authentication.\<close>

definition firstRefused :: "backend \<Rightarrow> string \<Rightarrow> request list \<Rightarrow> bool" where
  "firstRefused b u h \<longleftrightarrow> (\<exists>res. onCall b h (deleteUserCall u) = Some res \<and> \<not> httpOk (crStatus res) \<and>
     isElevationRequired (deleteUserError (crStatus res) (crError res)))"

lemma once_refused:
  "run (deleteUserOnce u) b h = (h', Inl e) \<Longrightarrow>
   \<not> deletionAccepted b u h' \<and> (isElevationRequired e \<longrightarrow> firstRefused b u h)"
  by (auto simp: run_deleteUserOnce deletionAccepted_def firstRefused_def isElevationRequired_def
      split: option.splits if_splits)

lemma guarded_deletion:
  assumes "run (runWithElevation (elevationOutcome (elevationRun es) later) (deleteUserOnce u)) b h = (h', r)"
  shows "case r of
     Inl e \<Rightarrow> if messageOf e = ''ELEVATION_CANCELLED'' then firstRefused b u h \<and> (\<exists>rest. later = Dismiss # rest)
       else \<not> deletionAccepted b u h'
   | Inr None \<Rightarrow> firstRefused b u h \<and> (later = [] \<or> (\<exists>req rest. later = Ask req # rest))
   | Inr (Some _) \<Rightarrow> deletionAccepted b u h'"
proof -
  obtain h1 r1 where op: "run (deleteUserOnce u) b h = (h1, r1)" by fastforce
  obtain h3 r3 where again: "run (deleteUserOnce u) b h1 = (h3, r3)" by fastforce
  have cancelled: "messageOf ELEVATION_CANCELLED = ''ELEVATION_CANCELLED''"
    by (simp add: ELEVATION_CANCELLED_def)
  note second = once_failed [of u b h1 h3] once_refused [of u b h1 h3] once_done [of u b h1 h3]
  show ?thesis
  proof (cases r1)
    case (Inr x)
    with op assms once_done [of u b h] show ?thesis by (auto simp: run_runWithElevation)
  next
    case (Inl e)
    have e: "messageOf e \<noteq> ''ELEVATION_CANCELLED''" "\<not> deletionAccepted b u h1"
      "isElevationRequired e \<Longrightarrow> firstRefused b u h"
      using once_failed [of u b h] once_refused [of u b h] op Inl by auto
    show ?thesis
    proof (cases "isElevationRequired e")
      case False
      then show ?thesis using assms op Inl e by (auto simp: run_runWithElevation)
    next
      case True
      have run: "run (runWithElevation (elevationOutcome (elevationRun es) later) (deleteUserOnce u)) b h =
          (case later of Confirm # _ \<Rightarrow> (h3, map_sum id Some r3)
           | Dismiss # _ \<Rightarrow> (h1, Inl ELEVATION_CANCELLED) | _ \<Rightarrow> (h1, Inr None))"
        using op Inl True again
        by (simp add: run_runWithElevation run_retryAfter elevation_outcome
            split: list.split prompt_event.split)
      show ?thesis
      proof (cases later)
        case Nil
        then show ?thesis using assms run e(3) [OF True] by auto
      next
        case (Cons ev rest)
        then show ?thesis using assms run e(3) [OF True] again cancelled second
          by (cases ev; cases r3) auto
      qed
    qed
  qed
qed


text \<open>A prompt from elsewhere that replaces the deletion's leaves it without an answer, whatever is typed later.\<close>

theorem replaced_deletion_silent:
  assumes "firstRefused b u h"
  shows "snd (run (handleDeleteUser (elevationOutcome (elevationRun es) (Ask req # later)) True u) b h) = Inr None"
proof -
  from assms obtain e where "run (deleteUserOnce u) b h = (h @ [RCall (deleteUserCall u)], Inl e)" "isElevationRequired e"
    by (auto simp: firstRefused_def run_deleteUserOnce)
  then show ?thesis
    by (simp add: run_handleDeleteUser run_runWithElevation run_retryAfter elevation_outcome)
qed

section \<open>Which token a copied link carries\<close>

text \<open>The token of the last answer about an invite, unless its revocation was answered since; the last event comes first.\<close>

fun lastToken :: "string \<Rightarrow> invites_event list \<Rightarrow> string option" where
  "lastToken i [] = None"
| "lastToken i (RotateSettled (Some (j, t)) # es) = (if j = i then Some t else lastToken i es)"
| "lastToken i (RevokeSettled j True # es) = (if j = i then None else lastToken i es)"
| "lastToken i (InviteCreated (Some (j, t)) # es) = (if j = i then Some t else lastToken i es)"
| "lastToken i (_ # es) = lastToken i es"

text \<open>The events of a panel in which every answer to a creation belongs to one that was asked for.\<close>

fun creationsPaired :: "bool \<Rightarrow> invites_event list \<Rightarrow> bool" where
  "creationsPaired pending [] = True"
| "creationsPaired pending (PressNewInvite # es) = creationsPaired True es"
| "creationsPaired pending (InviteCreated r # es) = (pending \<and> creationsPaired False es)"
| "creationsPaired pending (_ # es) = creationsPaired pending es"

fun pendingAfter :: "bool \<Rightarrow> invites_event list \<Rightarrow> bool" where
  "pendingAfter pending [] = pending"
| "pendingAfter pending (PressNewInvite # es) = pendingAfter True es"
| "pendingAfter pending (InviteCreated r # es) = pendingAfter False es"
| "pendingAfter pending (_ # es) = pendingAfter pending es"

lemma creationsPaired_snoc:
  "creationsPaired q (es @ [e]) \<longleftrightarrow> creationsPaired q es \<and> (\<forall>r. e = InviteCreated r \<longrightarrow> pendingAfter q es)"
  by (induction q es rule: creationsPaired.induct) (cases e; simp)+

lemma pendingAfter_snoc:
  "pendingAfter q (es @ [e]) = (case e of PressNewInvite \<Rightarrow> True | InviteCreated r \<Rightarrow> False | _ \<Rightarrow> pendingAfter q es)"
  by (induction q es rule: pendingAfter.induct) (cases e; simp)+

lemma creating_step:
  "ivCreating (fst (invitesStep origin e p)) =
     (case e of PressNewInvite \<Rightarrow> True | InviteCreated r \<Rightarrow> False | _ \<Rightarrow> ivCreating p)"
  by (cases e) (auto split: option.split)

lemma panel_follows:
  "creationsPaired False es \<Longrightarrow>
   ivCreating (invitesAfter origin es) = pendingAfter False es \<and> ivFresh (invitesAfter origin es) i = lastToken i (rev es)"
proof (induction es rule: rev_induct)
  case Nil
  then show ?case by (simp add: invitesAfter_def openInvites_def)
next
  case (snoc e es)
  then have p: "creationsPaired False es" "\<forall>r. e = InviteCreated r \<longrightarrow> pendingAfter False es"
    by (simp_all add: creationsPaired_snoc)
  have step: "invitesAfter origin (es @ [e]) = fst (invitesStep origin e (invitesAfter origin es))"
    by (simp add: invitesAfter_def)
  have "ivFresh (invitesAfter origin (es @ [e])) i = lastToken i (e # rev es)"
    unfolding step using snoc.IH [OF p(1)] p(2) by (cases e) (auto split: option.split)
  then show ?case using snoc.IH [OF p(1)] by (simp add: step creating_step pendingAfter_snoc split: invites_event.split)
qed

text \<open>
  A link that is copied for an invite carries the token of the last answer about this invite, and
  none is copied once its revocation was answered.
\<close>

theorem copied_link_is_latest:
  assumes "creationsPaired False es" and "CopyText s \<in> set (snd (invitesStep origin e (invitesAfter origin es)))"
  shows "\<exists>i t. e = PressCopyUrl i \<and> lastToken i (rev es) = Some t \<and> t \<noteq> [] \<and> s = origin @ ''/auth/oidc/redeem/'' @ t"
proof -
  from assms(2) obtain i where e: "e = PressCopyUrl i" by (cases e) (auto split: if_splits option.splits)
  with assms(2) panel_follows [OF assms(1), of origin i] show ?thesis
    by (auto simp: freshToken_def split: option.splits if_splits)
qed

theorem copied_link_is_latest_witness:
  "\<exists>i t. PressCopyUrl ''1'' = PressCopyUrl i \<and>
    lastToken i (rev [PressNewInvite, InviteCreated (Some (''1'', ''old'')), RotateSettled (Some (''1'', ''new''))]) = Some t"
proof -
  let ?es = "[PressNewInvite, InviteCreated (Some (''1'', ''old'')), RotateSettled (Some (''1'', ''new''))]"
  have "creationsPaired False ?es" by simp
  moreover have "CopyText ''h/auth/oidc/redeem/new'' \<in> set (snd (invitesStep ''h'' (PressCopyUrl ''1'') (invitesAfter ''h'' ?es)))"
    by code_simp
  ultimately show ?thesis using copied_link_is_latest [of ?es "''h/auth/oidc/redeem/new''" "''h''"] by blast
qed

section \<open>What the pages get wrong\<close>

text \<open>
  The name of the user is no part of the request: every deletion asks for \<open>DELETE /admin/users\<close>, for which the server
  has no route (it has one for \<open>/admin/users/{id}\<close>), so no user can be deleted.
\<close>

lemma delete_request_names_nobody:
  "deleteUserCall u = callReq ''DELETE'' ''/admin/users'' [] JUndef \<and> deleteUserOnce u = deleteUserOnce v"
  by (simp add: deleteUserCall_def deleteUserOnce_def)

text \<open>A refused list looks like an empty one; one that cannot be fetched after a deletion throws the operator out.\<close>

lemma refused_list_looks_empty:
  assumes "\<not> truthy (crData res)"
  shows "fetchUsers (Some res) openUsers = (\<lparr>usLoading = False, usUsers = JArr []\<rparr>, [])"
  using assms by (simp add: fetchUsers_def openUsers_def)

text \<open>A password that was typed before an invite was asked for is sent although its field is gone.\<close>

lemma hidden_password_sent:
  "snd (newUserStep PressCreateUser (newUserAfter
      [TypeUsername ''eve'', TypeUserPassword ''secret'', TickInviteOnly True])) =
    [PostUser (JObj [(''username'', JStr ''eve''), (''password'', JStr ''secret''), (''inviteOnly'', JBool True)])]"
  by code_simp

text \<open>
  With an invite asked for, Enter submits again while a request is under way: the second invite takes the place of
  the first, whose token is on screen no more and cannot be had again.
\<close>

lemma enter_invites_twice:
  "nuInFlight (newUserAfter [TypeUsername ''eve'', TickInviteOnly True, EnterInUserForm, EnterInUserForm]) = 2 \<and>
   nuInvite (newUserAfter [TypeUsername ''eve'', TickInviteOnly True, EnterInUserForm, EnterInUserForm,
     NewUserSettled (UserAnswer 201 (JObj [(''invite'', JObj [(''token'', JStr ''a'')])])),
     NewUserSettled (UserAnswer 201 (JObj [(''invite'', JObj [(''token'', JStr ''b'')])]))]) =
     Some (JObj [(''token'', JStr ''b'')])"
  by code_simp

text \<open>The server puts the date into the invite inside the answer, beside which the token stands: the page shows an invalid date.\<close>

lemma expiry_misread:
  "inviteExpiry (JObj [(''invite'', JObj [(''id'', i), (''expiresAt'', d)]), (''token'', t)]) = JUndef"
  by (simp add: inviteExpiry_def)

text \<open>
  The buttons of a row are not disabled: of two rotations that are answered in reverse order, the link of the first
  is copied, whose token the second made worthless.
\<close>

lemma overtaken_rotation_copied:
  "snd (invitesStep origin (PressCopyUrl i) (invitesAfter origin [ClickRotate i True, ClickRotate i True,
      RotateSettled (Some (i, ''second'')), RotateSettled (Some (i, ''first''))])) =
    [CopyText (origin @ ''/auth/oidc/redeem/'' @ ''first'')]"
  by (simp add: invitesAfter_def openInvites_def freshToken_def)

end
