(* ===== verification/Federation_Pages.thy ===== *)
theory Federation_Pages
  imports Replication_Hooks Format "HOL-Library.Char_ord" "HOL-Library.List_Lexorder"
begin

text \<open>
  The list of the federated buckets (\<open>routes/files/federated-buckets/index.tsx\<close>) and the page of one of them
  (\<open>routes/files/federated-buckets/$id/index.tsx\<close>): what they derive from a federation, and the page as a state machine
  with the promotion of a replica. Time stamps are compared as the program does, as texts.
\<close>

section \<open>What is shown of a federation\<close>

record replica =
  rpTarget :: FederationTarget
  rpHealth :: "string option"
  rpLastSync :: "string option"

record federation =
  fdId :: string
  fdPrimary :: FederationTarget
  fdReplicas :: "replica list"
  fdHealth :: "string option"

text \<open>A region is its identifier, alias and endpoint.\<close>

definition regionAlias :: "(string \<times> string option \<times> string) list \<Rightarrow> string \<Rightarrow> string" where
  "regionAlias regions i = (case List.find (\<lambda>r. fst r = i) regions of
       None \<Rightarrow> ''(unknown region)''
     | Some (_, al, ep) \<Rightarrow> if present al then the al else if ep \<noteq> [] then ep else ''(unknown region)'')"

definition healthLabel :: "string option \<Rightarrow> string" where
  "healthLabel h = (if present h then the h else ''in-sync'')"

definition healthClass :: "string \<Rightarrow> string" where
  "healthClass h =
     (if h = ''broken'' then ''red'' else if h = ''stale'' then ''amber-600'' else if h = ''lagging'' then ''amber-500''
      else if h = ''pending'' then ''slate'' else ''emerald'')"

definition syncedReplicas :: "replica list \<Rightarrow> nat" where
  "syncedReplicas rs = length (filter (\<lambda>r. \<not> present (rpHealth r) \<or> rpHealth r = Some ''in-sync'') rs)"

definition replicaSummary :: "replica list \<Rightarrow> string" where
  "replicaSummary rs = dec (syncedReplicas rs) @ ''/'' @ dec (length rs) @ '' in-sync''"

text \<open>One turn of the loop.\<close>

definition laterSync :: "replica \<Rightarrow> string option \<Rightarrow> string option" where
  "laterSync r best =
     (if \<not> present (rpLastSync r) then best
      else if \<not> present best \<or> the best < the (rpLastSync r) then rpLastSync r else best)"

definition mostRecentReplicaSync :: "replica list \<Rightarrow> string option" where
  "mostRecentReplicaSync rs = fold laterSync rs None"

text \<open>The text of the badge; \<open>Math.round\<close> rounds a half up.\<close>

definition failoverWindow :: "nat \<Rightarrow> string" where
  "failoverWindow sec = (if 60 \<le> sec then dec ((sec + 30) div 60) @ ''m'' else dec sec @ ''s'')"

text \<open>\<open>toFixed(0)\<close> below bytes and from ten units on, one decimal otherwise.\<close>

definition toFixed0 :: "nat \<Rightarrow> nat \<Rightarrow> string" where
  "toFixed0 n den = dec ((2 * n + den) div (2 * den))"

definition shortBytes :: "string \<Rightarrow> nat \<Rightarrow> string" where
  "shortBytes zero n =
     (if n = 0 then zero
      else case scaleLoop n 1 0 of (den, u) \<Rightarrow>
        (if n < 10 * den \<and> 0 < u then toFixed1 n den else toFixed0 n den) @ '' '' @ (units ! u))"

definition lagBytes :: "nat \<Rightarrow> string" where
  "lagBytes = shortBytes ''0 B''"

section \<open>The page\<close>

text \<open>The errors are those the three mutations remember.\<close>

record federation_page =
  fpData :: "federation option"
  fpFailed :: bool
  fpPromote :: "FederationTarget option"
  fpFailing :: bool
  fpFailError :: "string option"
  fpResyncing :: bool
  fpResyncError :: "string option"
  fpDeleting :: bool
  fpDeleteError :: "string option"

definition openFederation :: federation_page where
  "openFederation = \<lparr>fpData = None, fpFailed = False, fpPromote = None, fpFailing = False, fpFailError = None,
     fpResyncing = False, fpResyncError = None, fpDeleting = False, fpDeleteError = None\<rparr>"

definition federationShown :: "federation_page \<Rightarrow> bool" where
  "federationShown p \<longleftrightarrow> fpData p \<noteq> None \<and> \<not> fpFailed p"

datatype federation_page_event =
    FederationArrives federation
  | FederationFails
  | ClickPromote nat
  | DismissPromote
  | CancelPromote
  | ConfirmPromote
  | FailoverSettled "string option"
  | PressResync
  | ResyncSettled "string option"
  | PressDropFederation bool
  | DropFederationSettled "string option"

datatype federation_page_out =
    Failover string FederationFailoverRequest
  | Resync string
  | DropFederation string
  | OpenFederations

definition failoverBody :: "FederationTarget \<Rightarrow> FederationFailoverRequest" where
  "failoverBody t = \<lparr>ffRegionId = ftRegionId t, ffBucket = ftBucket t\<rparr>"

text \<open>A settled request carries the message of its error, if any; a new request forgets the last one.\<close>

fun federationMove :: "federation_page_event \<Rightarrow> federation_page \<Rightarrow> federation_page \<times> federation_page_out list" where
  "federationMove (FederationArrives f) p = (p\<lparr>fpData := Some f, fpFailed := False\<rparr>, [])"
| "federationMove FederationFails p = (p\<lparr>fpFailed := True\<rparr>, [])"
| "federationMove (ClickPromote k) p =
     (case fpData p of None \<Rightarrow> (p, [])
      | Some f \<Rightarrow> if fpFailed p \<or> fpFailing p \<or> length (fdReplicas f) \<le> k then (p, [])
          else (p\<lparr>fpPromote := Some (rpTarget (fdReplicas f ! k))\<rparr>, []))"
| "federationMove DismissPromote p = (if federationShown p then p\<lparr>fpPromote := None\<rparr> else p, [])"
| "federationMove CancelPromote p = (if federationShown p \<and> \<not> fpFailing p then p\<lparr>fpPromote := None\<rparr> else p, [])"
| "federationMove ConfirmPromote p =
     (case fpData p of None \<Rightarrow> (p, [])
      | Some f \<Rightarrow> if fpFailed p \<or> fpFailing p then (p, [])
          else case fpPromote p of None \<Rightarrow> (p, [])
            | Some t \<Rightarrow> (p\<lparr>fpFailing := True, fpFailError := None\<rparr>, [Failover (fdId f) (failoverBody t)]))"
| "federationMove (FailoverSettled r) p =
     (if \<not> fpFailing p then p
      else p\<lparr>fpFailing := False, fpFailError := r, fpPromote := (if r = None then None else fpPromote p)\<rparr>, [])"
| "federationMove PressResync p =
     (case fpData p of None \<Rightarrow> (p, [])
      | Some f \<Rightarrow> if fpFailed p \<or> fpResyncing p then (p, [])
          else (p\<lparr>fpResyncing := True, fpResyncError := None\<rparr>, [Resync (fdId f)]))"
| "federationMove (ResyncSettled r) p = (if \<not> fpResyncing p then p else p\<lparr>fpResyncing := False, fpResyncError := r\<rparr>, [])"
| "federationMove (PressDropFederation yes) p =
     (case fpData p of None \<Rightarrow> (p, [])
      | Some f \<Rightarrow> if fpFailed p \<or> fpDeleting p \<or> \<not> yes then (p, [])
          else (p\<lparr>fpDeleting := True, fpDeleteError := None\<rparr>, [DropFederation (fdId f)]))"
| "federationMove (DropFederationSettled r) p =
     (if \<not> fpDeleting p then (p, [])
      else (p\<lparr>fpDeleting := False, fpDeleteError := r\<rparr>, if r = None then [OpenFederations] else []))"

definition federationPageAfter :: "federation_page_event list \<Rightarrow> federation_page" where
  "federationPageAfter es = foldl (\<lambda>p e. fst (federationMove e p)) openFederation es"

text \<open>The message under the configuration: the first of the three errors.\<close>

definition actionError :: "federation_page \<Rightarrow> string option" where
  "actionError p = (case fpFailError p of Some m \<Rightarrow> Some m
     | None \<Rightarrow> (case fpResyncError p of Some m \<Rightarrow> Some m | None \<Rightarrow> fpDeleteError p))"

fun federationAction :: "federation_page_out \<Rightarrow> json js option" where
  "federationAction (Failover i body) = Some (mutationFn useFailoverFederation (i, body))"
| "federationAction (Resync i) = Some (mutationFn useResyncFederation i)"
| "federationAction (DropFederation i) = Some (mutationFn useDeleteFederation i)"
| "federationAction OpenFederations = None"

section \<open>A promotion is confirmed\<close>

text \<open>Where a target comes from.\<close>

lemma promote_step:
  "fpPromote (fst (federationMove e p)) = Some t \<Longrightarrow> fpPromote p \<noteq> Some t \<Longrightarrow>
   \<exists>k f. e = ClickPromote k \<and> fpData p = Some f \<and> k < length (fdReplicas f) \<and> rpTarget (fdReplicas f ! k) = t"
  by (cases e) (auto split: if_splits option.splits)

lemma failover_out:
  "Failover i body \<in> set (snd (federationMove e p)) \<Longrightarrow>
   e = ConfirmPromote \<and> \<not> fpFailing p \<and> federationShown p \<and> (\<exists>f. fpData p = Some f \<and> fdId f = i) \<and>
   (\<exists>t. fpPromote p = Some t \<and> body = failoverBody t)"
  by (cases e) (auto simp: federationShown_def split: if_splits option.splits)

text \<open>
  A promotion is sent only by the button of the dialog, for the federation on screen, while no
  other is under way, and of the replica whose row was clicked and which the dialog has named from then on.
\<close>

theorem promotion_confirmed:
  assumes "Failover i body \<in> set (snd (federationMove e (federationPageAfter es)))"
  shows "e = ConfirmPromote \<and> \<not> fpFailing (federationPageAfter es) \<and>
    (\<exists>f. fpData (federationPageAfter es) = Some f \<and> fdId f = i) \<and>
    (\<exists>es1 k es2 f t. es = es1 @ ClickPromote k # es2 \<and> fpData (federationPageAfter es1) = Some f \<and>
      k < length (fdReplicas f) \<and> t = rpTarget (fdReplicas f ! k) \<and> body = failoverBody t \<and>
      (\<forall>n \<le> length es2. fpPromote (federationPageAfter (es1 @ ClickPromote k # take n es2)) = Some t))"
proof -
  note o = failover_out [OF assms]
  then obtain t where t: "fpPromote (federationPageAfter es) = Some t" "body = failoverBody t" by blast
  from held_since [where P = "\<lambda>p. fpPromote p = Some t" and f = "\<lambda>p e. fst (federationMove e p)" and s = openFederation and es = es]
  obtain es1 x es2 where x: "es = es1 @ x # es2" "fpPromote (federationPageAfter es1) \<noteq> Some t"
    "\<forall>n \<le> length es2. fpPromote (federationPageAfter (es1 @ x # take n es2)) = Some t"
    using t(1) unfolding federationPageAfter_def by (auto simp: openFederation_def)
  have "fpPromote (fst (federationMove x (federationPageAfter es1))) = Some t"
    using x(3) [rule_format, of 0] by (simp add: federationPageAfter_def)
  from promote_step [OF this x(2)] o x t(2) show ?thesis by blast
qed

definition sampleFederation :: federation where
  "sampleFederation = \<lparr>fdId = ''f'', fdPrimary = \<lparr>ftRegionId = ''r1'', ftBucket = ''a''\<rparr>,
     fdReplicas = [\<lparr>rpTarget = \<lparr>ftRegionId = ''r2'', ftBucket = ''b''\<rparr>, rpHealth = None, rpLastSync = None\<rparr>], fdHealth = None\<rparr>"

theorem promotion_confirmed_witness:
  "\<exists>es1 k es2. [FederationArrives sampleFederation, ClickPromote 0] = es1 @ ClickPromote k # es2"
proof -
  have "Failover ''f'' \<lparr>ffRegionId = ''r2'', ffBucket = ''b''\<rparr> \<in> set (snd (federationMove ConfirmPromote
      (federationPageAfter [FederationArrives sampleFederation, ClickPromote 0])))" by code_simp
  from promotion_confirmed [OF this] show ?thesis by blast
qed


section \<open>What is derived is right\<close>

definition syncStamps :: "replica list \<Rightarrow> string list" where
  "syncStamps rs = map (\<lambda>r. the (rpLastSync r)) (filter (\<lambda>r. present (rpLastSync r)) rs)"

lemma later_fold:
  "fold laterSync rs best = fold (\<lambda>s b. if \<not> present b \<or> the b < s then Some s else b) (syncStamps rs) best"
  by (induction rs arbitrary: best) (auto simp: syncStamps_def laterSync_def present_iff)

lemma stamps_fold:
  "[] \<notin> set xs \<Longrightarrow> m \<noteq> [] \<Longrightarrow>
   fold (\<lambda>s b. if \<not> present b \<or> the b < s then Some s else b) xs (Some m) = Some (fold max xs m)"
proof (induction xs arbitrary: m)
  case Nil
  then show ?case by simp
next
  case (Cons x xs)
  then have "fold (\<lambda>s b. if \<not> present b \<or> the b < s then Some s else b) xs (Some (max m x)) = Some (fold max xs (max m x))"
    by (intro Cons.IH) (auto simp: max_def)
  moreover have "(if \<not> present (Some m) \<or> the (Some m) < x then Some x else Some m) = Some (max m x)"
    using Cons.prems by (auto simp: max_def)
  ultimately show ?case by (simp only: fold_simps max.commute [of x m])
qed

lemma stamps_nonempty: "[] \<notin> set (syncStamps rs)"
  by (auto simp: syncStamps_def present_iff)

text \<open>The loop finds the greatest of the time stamps that are there, and nothing when there is none.\<close>

theorem most_recent_is_max:
  "mostRecentReplicaSync rs = (if syncStamps rs = [] then None else Some (Max (set (syncStamps rs))))"
proof (cases "syncStamps rs")
  case Nil
  then show ?thesis by (simp add: mostRecentReplicaSync_def later_fold)
next
  case (Cons x xs)
  then have ne: "x \<noteq> []" "[] \<notin> set xs" using stamps_nonempty [of rs] by auto
  have "mostRecentReplicaSync rs = fold (\<lambda>s b. if \<not> present b \<or> the b < s then Some s else b) xs (Some x)"
    by (simp add: mostRecentReplicaSync_def later_fold Cons)
  also have "\<dots> = Some (Max (set (x # xs)))"
    unfolding Max.set_eq_fold by (rule stamps_fold [OF ne(2,1)])
  finally show ?thesis by (simp add: Cons)
qed

lemma summary_bounded: "syncedReplicas rs \<le> length rs"
  by (simp add: syncedReplicas_def)

text \<open>
  A size is shown in the largest of the five units it fills, with an error of at most half of the last digit that is
  shown.
\<close>

theorem short_bytes_accurate:
  assumes "0 < n"
  shows "\<exists>u t d. shortBytes zero n = t @ '' '' @ (units ! u) \<and> u \<le> 4 \<and> (u = 0 \<or> 1024 ^ u \<le> n) \<and> (u = 4 \<or> n < 1024 ^ Suc u) \<and>
    (t = dec d \<and> 2 * 1024 ^ u * d \<le> 2 * n + 1024 ^ u \<and> 2 * n < 2 * 1024 ^ u * d + 1024 ^ u \<or>
     t = dec (d div 10) @ ''.'' @ dec (d mod 10) \<and> 2 * 1024 ^ u * d \<le> 20 * n + 1024 ^ u \<and> 20 * n < 2 * 1024 ^ u * d + 1024 ^ u)"
proof -
  obtain k v where loop: "scaleLoop n 1 0 = (k, v)" by fastforce
  from scaleLoop_result [OF this] have v: "v \<le> 4" "k = 1024 ^ v" "v = 0 \<or> k \<le> n" "v = 4 \<or> n < 1024 * k" by auto
  have k: "0 < k" using v(2) by simp
  let ?d = "(2 * n + k) div (2 * k)"
  have whole: "2 * k * ?d \<le> 2 * n + k \<and> 2 * n + k < 2 * k * ?d + 2 * k"
    using mult_div_mod_eq [of "2 * k" "2 * n + k"] mod_less_divisor [of "2 * k" "2 * n + k"] k by linarith
  show ?thesis
  proof (cases "n < 10 * k \<and> 0 < v")
    case True
    with assms loop have "shortBytes zero n = (dec (tenths n k div 10) @ ''.'' @ dec (tenths n k mod 10)) @ '' '' @ (units ! v)"
      by (simp add: shortBytes_def toFixed1_def)
    with v tenths_close [OF k, of n] show ?thesis
      by (intro exI [of _ v] exI [of _ "dec (tenths n k div 10) @ ''.'' @ dec (tenths n k mod 10)"] exI [of _ "tenths n k"]) auto
  next
    case False
    with assms loop have "shortBytes zero n = dec ?d @ '' '' @ (units ! v)"
      by (auto simp: shortBytes_def toFixed0_def)
    with v whole show ?thesis
      by (intro exI [of _ v] exI [of _ "dec ?d"] exI [of _ ?d]) auto
  qed
qed

theorem short_bytes_accurate_witness: "\<exists>u t. shortBytes ''0'' 1536 = t @ '' '' @ (units ! u) \<and> u \<le> 4"
  using short_bytes_accurate [of 1536 "''0''"] by auto

section \<open>What the pages get wrong\<close>

text \<open>
  The server writes fractions of a second without trailing zeros. As texts, a stamp with a fraction comes before the
  full second it follows.
\<close>

lemma fraction_sorts_before:
  "mostRecentReplicaSync [\<lparr>rpTarget = t, rpHealth = None, rpLastSync = Some ''10:00:00Z''\<rparr>,
     \<lparr>rpTarget = t, rpHealth = None, rpLastSync = Some ''10:00:00.5Z''\<rparr>] = Some ''10:00:00Z''"
  by code_simp

text \<open>
  The dialog keeps the replica it was opened on. When the federation is fetched again without that replica, or with
  it as the primary, the promotion is still offered and sent.
\<close>

lemma stale_target_promoted:
  assumes "fpPromote p = Some t" "federationShown p" "\<not> fpFailing p"
  shows "snd (federationMove ConfirmPromote (fst (federationMove (FederationArrives (f\<lparr>fdPrimary := t, fdReplicas := []\<rparr>)) p))) =
    [Failover (fdId f) (failoverBody t)]"
  using assms by simp

text \<open>The error of one action hides those of later ones, and stays until that very action is tried again.\<close>

lemma first_error_hides_others:
  assumes "fpFailError p = Some m" "fpResyncing p"
  shows "actionError (fst (federationMove (ResyncSettled r) p)) = Some m"
  using assms by (simp add: actionError_def)

text \<open>A size just below the next unit is shown as 1024 of the smaller one, and one just below ten with a second digit.\<close>

lemma rounded_up_to_next_unit: "shortBytes z 1048575 = ''1024 KB'' \<and> shortBytes z 10239 = ''10.0 KB''"
  by (simp add: shortBytes_def scaleLoop.simps units_def toFixed0_def toFixed1_def tenths_def dec.simps, code_simp)


section \<open>The list\<close>

record federation_list =
  flRows :: "federation list"
  flDeleting :: bool

definition openFederationList :: federation_list where
  "openFederationList = \<lparr>flRows = [], flDeleting = False\<rparr>"

datatype federation_list_event = FederationRows "federation list" | PressDropRow nat bool | DropRowSettled

fun federationListMove :: "federation_list_event \<Rightarrow> federation_list \<Rightarrow> federation_list \<times> federation_page_out list" where
  "federationListMove (FederationRows fs) p = (p\<lparr>flRows := fs\<rparr>, [])"
| "federationListMove (PressDropRow k yes) p =
     (if k < length (flRows p) \<and> \<not> flDeleting p \<and> yes
      then (p\<lparr>flDeleting := True\<rparr>, [DropFederation (fdId (flRows p ! k))]) else (p, []))"
| "federationListMove DropRowSettled p = (p\<lparr>flDeleting := False\<rparr>, [])"

lemma listed_federation_dropped:
  "DropFederation i \<in> set (snd (federationListMove e p)) \<Longrightarrow>
   \<not> flDeleting p \<and> flDeleting (fst (federationListMove e p)) \<and> (\<exists>f \<in> set (flRows p). fdId f = i)"
  by (cases e) (auto split: if_splits)

end
