(* ===== verification/Backup_Pages.thy ===== *)
theory Backup_Pages
  imports Federation_Pages Persona
begin

text \<open>
  The list of the backups (\<open>routes/files/backups/index.tsx\<close>) and the page of one backup
  (\<open>routes/files/backups/$id/index.tsx\<close>) with its three small edits. A backup is the JSON value the server gave. The
  parts of a time stamp in UTC are those the browser gives.
\<close>

section \<open>What is shown of a backup\<close>

definition statusLabel :: "json \<Rightarrow> string" where
  "statusLabel b = (if truthy (getProp b ''disabled'') then ''disabled''
     else if getProp b ''schedule'' = JStr ''manual'' then ''manual'' else ''scheduled'')"

definition statusColor :: "json \<Rightarrow> string" where
  "statusColor b = (if truthy (getProp b ''disabled'') then ''yellow''
     else if truthy (getProp b ''lastResult'') \<and> \<not> truthy (getProp (getProp b ''lastResult'') ''success'') then ''red''
     else ''muted'')"

definition backupBytes :: "nat \<Rightarrow> string" where
  "backupBytes = shortBytes ''0''"

definition formatRetention :: "json \<Rightarrow> string" where
  "formatRetention b = (let r = getProp b ''retention'' in
     if \<not> truthy r \<or> (\<not> truthy (getProp r ''keepDaily'') \<and> \<not> truthy (getProp r ''keepWeekly'') \<and>
        \<not> truthy (getProp r ''keepMonthly''))
     then ''default (7d / 4w / 12m)''
     else toStr (orElse (getProp r ''keepDaily'') (JNum 0)) @ ''d / '' @ toStr (orElse (getProp r ''keepWeekly'') (JNum 0)) @
       ''w / '' @ toStr (orElse (getProp r ''keepMonthly'') (JNum 0)) @ ''m'')"

text \<open>Year, month, day, hour, minute, second.\<close>

type_synonym utc_parts = "nat \<times> nat \<times> nat \<times> nat \<times> nat \<times> nat"

fun isoToSnapshotTimestamp :: "utc_parts \<Rightarrow> string" where
  "isoToSnapshotTimestamp (y, mo, d, h, mi, s) =
     dec y @ ''-'' @ pad2 mo @ ''-'' @ pad2 d @ ''_'' @ pad2 h @ '':'' @ pad2 mi @ '':'' @ pad2 s"

section \<open>The page\<close>

text \<open>What an update under way was sent for.\<close>

datatype update_kind = SavesSchedule | Toggles

record backup_page =
  bkData :: "json option"
  bkFailed :: bool
  bkEditing :: bool
  bkDraft :: string
  bkUpdating :: "update_kind option"
  bkUpdateError :: "string option"
  bkRunning :: bool
  bkDeleting :: bool

definition openBackup :: backup_page where
  "openBackup = \<lparr>bkData = None, bkFailed = False, bkEditing = False, bkDraft = [], bkUpdating = None,
     bkUpdateError = None, bkRunning = False, bkDeleting = False\<rparr>"

text \<open>The body of an update; \<open>patch.schedule\<close> and \<open>patch.disabled\<close> are undefined when they are not patched.\<close>

definition passThroughBody :: "json \<Rightarrow> json \<Rightarrow> json \<Rightarrow> json" where
  "passThroughBody b schedule disabled = jobj
     [(''name'', getProp b ''name''), (''srcRegionId'', getProp b ''srcRegionId''), (''srcBucket'', getProp b ''srcBucket''),
      (''srcPrefix'', orElse (getProp b ''srcPrefix'') JUndef), (''dstRegionId'', getProp b ''dstRegionId''),
      (''dstBucket'', getProp b ''dstBucket''), (''dstPrefix'', orElse (getProp b ''dstPrefix'') JUndef),
      (''schedule'', orElse schedule (getProp b ''schedule'')),
      (''disabled'', orElse disabled (orElse (getProp b ''disabled'') (JBool False))),
      (''mode'', getProp b ''mode''), (''retention'', getProp b ''retention'')]"

datatype backup_page_event =
    BackupArrives json
  | BackupFails
  | PressRunBackup
  | RunBackupSettled
  | PressDropBackup bool
  | DropBackupSettled bool
  | PressToggle
  | ClickEditSchedule
  | TypeSchedule string
  | PressSaveSchedule
  | CancelSchedule
  | UpdateSettled "string option"

datatype backup_page_out = PutBackup string json | RunBackup string | DropBackup string | OpenBackups

definition backupId :: "json \<Rightarrow> string" where
  "backupId b = toStr (getProp b ''id'')"

definition startUpdate :: "update_kind \<Rightarrow> backup_page \<Rightarrow> backup_page" where
  "startUpdate k p = p\<lparr>bkUpdating := Some k, bkUpdateError := None\<rparr>"

text \<open>The handlers see the backup on screen; there are none without one. A schedule is a text.\<close>

fun backupMove :: "backup_page_event \<Rightarrow> backup_page \<Rightarrow> backup_page \<times> backup_page_out list" where
  "backupMove (BackupArrives b) p = (p\<lparr>bkData := Some b, bkFailed := False\<rparr>, [])"
| "backupMove BackupFails p = (p\<lparr>bkFailed := True\<rparr>, [])"
| "backupMove RunBackupSettled p = (p\<lparr>bkRunning := False\<rparr>, [])"
| "backupMove (DropBackupSettled ok) p =
     (if \<not> bkDeleting p then (p, []) else (p\<lparr>bkDeleting := False\<rparr>, if ok then [OpenBackups] else []))"
| "backupMove (UpdateSettled r) p =
     (if bkUpdating p = None then p
      else p\<lparr>bkUpdating := None, bkUpdateError := r,
        bkEditing := (bkEditing p \<and> \<not> (r = None \<and> bkUpdating p = Some SavesSchedule))\<rparr>, [])"
| "backupMove e p =
     (case bkData p of None \<Rightarrow> (p, [])
      | Some b \<Rightarrow> if bkFailed p then (p, []) else (case e of
          PressRunBackup \<Rightarrow> if truthy (getProp b ''disabled'') \<or> bkRunning p then (p, [])
            else (p\<lparr>bkRunning := True\<rparr>, [RunBackup (backupId b)])
        | PressDropBackup yes \<Rightarrow> if bkDeleting p \<or> \<not> yes then (p, [])
            else (p\<lparr>bkDeleting := True\<rparr>, [DropBackup (backupId b)])
        | PressToggle \<Rightarrow> if bkUpdating p \<noteq> None then (p, [])
            else (startUpdate Toggles p,
              [PutBackup (backupId b) (passThroughBody b JUndef (JBool (\<not> truthy (getProp b ''disabled''))))])
        | ClickEditSchedule \<Rightarrow> (if bkEditing p then p else p\<lparr>bkDraft := toStr (getProp b ''schedule''), bkEditing := True\<rparr>, [])
        | TypeSchedule s \<Rightarrow> (if bkEditing p then p\<lparr>bkDraft := s\<rparr> else p, [])
        | PressSaveSchedule \<Rightarrow> if \<not> bkEditing p \<or> bkUpdating p \<noteq> None \<or> trim (bkDraft p) = [] then (p, [])
            else (startUpdate SavesSchedule p,
              [PutBackup (backupId b) (passThroughBody b (JStr (trim (bkDraft p))) JUndef)])
        | CancelSchedule \<Rightarrow> (p\<lparr>bkEditing := False\<rparr>, [])
        | _ \<Rightarrow> (p, [])))"

definition backupPageAfter :: "backup_page_event list \<Rightarrow> backup_page" where
  "backupPageAfter es = foldl (\<lambda>p e. fst (backupMove e p)) openBackup es"

fun backupAction :: "backup_page_out \<Rightarrow> json js option" where
  "backupAction (PutBackup i body) = Some (mutationFn useUpdateUserBackup (i, body))"
| "backupAction (RunBackup i) = Some (mutationFn useRunUserBackup i)"
| "backupAction (DropBackup i) = Some (mutationFn useDeleteUserBackup i)"
| "backupAction OpenBackups = None"

text \<open>The queries of the page: the snapshots wait for a backup that takes them.\<close>

definition backupQueries :: "string \<Rightarrow> backup_page \<Rightarrow> query list" where
  "backupQueries i p = filter qEnabled [useUserBackup (Some i),
     useUserBackupSnapshots (Some i) (\<exists>b. bkData p = Some b \<and> truthy b \<and> getProp b ''mode'' = JStr ''snapshot'')]"

section \<open>An update keeps the rest\<close>

text \<open>The fields of an update that the server reads, but for the two that are edited.\<close>

definition keptKeys :: "string list" where
  "keptKeys = [''name'', ''srcRegionId'', ''srcBucket'', ''srcPrefix'', ''dstRegionId'', ''dstBucket'', ''dstPrefix'', ''mode'', ''retention'']"

text \<open>What the server reads of a property: a null is as good as none.\<close>

definition given :: "json \<Rightarrow> string \<Rightarrow> json" where
  "given b k = orElse (getProp b k) JUndef"

lemma passed_through:
  "k \<in> set keptKeys \<Longrightarrow> given (passThroughBody b s d) k = given b k"
  "getProp (passThroughBody b s d) ''schedule'' = orElse s (getProp b ''schedule'')"
  "getProp (passThroughBody b s d) ''disabled'' = orElse d (orElse (getProp b ''disabled'') (JBool False))"
proof -
  show "getProp (passThroughBody b s d) ''schedule'' = orElse s (getProp b ''schedule'')"
    "getProp (passThroughBody b s d) ''disabled'' = orElse d (orElse (getProp b ''disabled'') (JBool False))"
    unfolding passThroughBody_def by (subst getProp_jobj; simp)+
  have idem: "orElse (orElse a JUndef) JUndef = orElse a JUndef" for a by (cases a) simp_all
  show "given (passThroughBody b s d) k = given b k" if "k \<in> set keptKeys"
    using that [unfolded keptKeys_def, simplified]
    by (elim disjE) (simp_all add: passThroughBody_def given_def getProp_jobj idem)
qed

lemma put_out:
  "PutBackup i body \<in> set (snd (backupMove e p)) \<Longrightarrow>
   \<exists>b. bkData p = Some b \<and> i = backupId b \<and> bkUpdating p = None \<and>
     (e = PressToggle \<and> body = passThroughBody b JUndef (JBool (\<not> truthy (getProp b ''disabled''))) \<or>
      e = PressSaveSchedule \<and> bkEditing p \<and> trim (bkDraft p) \<noteq> [] \<and> body = passThroughBody b (JStr (trim (bkDraft p))) JUndef)"
  by (cases e) (auto split: option.splits if_splits)

text \<open>
  C36. An update sent from the page of a backup is for the backup on screen, keeps every field the
  server reads as it was served but for one, and is sent while no other is under way: the switch turns the backup off or on
  and keeps its schedule, the editor sends the trimmed draft, which is not empty, and leaves it off or on.
\<close>

theorem backup_update_keeps_rest:
  assumes "PutBackup i body \<in> set (snd (backupMove e (backupPageAfter es)))"
  shows "\<exists>b. bkData (backupPageAfter es) = Some b \<and> i = backupId b \<and> bkUpdating (backupPageAfter es) = None \<and>
    (\<forall>k \<in> set keptKeys. given body k = given b k) \<and>
    (if e = PressToggle
     then getProp body ''schedule'' = getProp b ''schedule'' \<and>
       getProp body ''disabled'' = JBool (\<not> truthy (getProp b ''disabled''))
     else e = PressSaveSchedule \<and> getProp body ''schedule'' = JStr (trim (bkDraft (backupPageAfter es))) \<and>
       trim (bkDraft (backupPageAfter es)) \<noteq> [] \<and>
       getProp body ''disabled'' = orElse (getProp b ''disabled'') (JBool False))"
proof -
  from put_out [OF assms] obtain b where b: "bkData (backupPageAfter es) = Some b" "i = backupId b"
    "bkUpdating (backupPageAfter es) = None"
    "e = PressToggle \<and> body = passThroughBody b JUndef (JBool (\<not> truthy (getProp b ''disabled''))) \<or>
     e = PressSaveSchedule \<and> trim (bkDraft (backupPageAfter es)) \<noteq> [] \<and>
       body = passThroughBody b (JStr (trim (bkDraft (backupPageAfter es)))) JUndef" by blast
  from b(4) show ?thesis
  proof (elim disjE conjE)
    assume e: "e = PressToggle" "body = passThroughBody b JUndef (JBool (\<not> truthy (getProp b ''disabled'')))"
    with b(1-3) show ?thesis by (intro exI [of _ b]) (simp add: passed_through)
  next
    assume e: "e = PressSaveSchedule" "trim (bkDraft (backupPageAfter es)) \<noteq> []"
      "body = passThroughBody b (JStr (trim (bkDraft (backupPageAfter es)))) JUndef"
    with b(1-3) show ?thesis by (intro exI [of _ b]) (simp add: passed_through)
  qed
qed

definition sampleBackup :: json where
  "sampleBackup = JObj [(''id'', JStr ''1''), (''name'', JStr ''nightly''), (''schedule'', JStr ''0 3 * * *''), (''mode'', JStr ''mirror'')]"

definition editedBackup :: "backup_page_event list" where
  "editedBackup = [BackupArrives sampleBackup, ClickEditSchedule, TypeSchedule '' manual '']"

theorem backup_update_keeps_rest_witness:
  "\<exists>b body. bkData (backupPageAfter editedBackup) = Some b \<and> (\<forall>k \<in> set keptKeys. given body k = given b k)"
proof -
  have "snd (backupMove PressSaveSchedule (backupPageAfter editedBackup)) =
      [PutBackup ''1'' (passThroughBody sampleBackup (JStr ''manual'') JUndef)]" by code_simp
  then have "PutBackup ''1'' (passThroughBody sampleBackup (JStr ''manual'') JUndef) \<in>
      set (snd (backupMove PressSaveSchedule (backupPageAfter editedBackup)))" by simp
  from backup_update_keeps_rest [OF this] show ?thesis by blast
qed


section \<open>The text of a snapshot\<close>

lemma stamp_chars: "c \<in> set (dec n) \<or> c \<in> set (pad2 n) \<Longrightarrow> digitChar c"
  by (auto simp: pad2_def digitChar_def dest: dec_chars)

lemma no_separator [simp]:
  "CHR ''-'' \<notin> set (dec n)" "CHR ''-'' \<notin> set (pad2 n)" "CHR ''_'' \<notin> set (pad2 n)" "CHR '':'' \<notin> set (pad2 n)"
  using stamp_chars [of "CHR ''-''" n] stamp_chars [of "CHR ''_''" n] stamp_chars [of "CHR '':''" n]
  by (auto simp: digitChar_def)

lemma part_inject: "dec m = dec n \<longleftrightarrow> m = n" "pad2 m = pad2 n \<longleftrightarrow> m = n"
  using readNum_pad2 by metis+

lemma split_eq:
  "c \<notin> set x \<Longrightarrow> c \<notin> set y \<Longrightarrow> x @ c # u = y @ c # v \<longleftrightarrow> x = y \<and> u = v"
proof
  assume "c \<notin> set x" "c \<notin> set y" "x @ c # u = y @ c # v"
  moreover from this have "takeWhile (\<lambda>d. d \<noteq> c) (x @ c # u) = x" "takeWhile (\<lambda>d. d \<noteq> c) (x @ c # u) = y"
    by (metis (mono_tags, lifting) append_Nil2 takeWhile.simps(2) takeWhile_append2)+
  ultimately show "x = y \<and> u = v" by simp
qed simp

text \<open>The link of a snapshot names no other one: the text gives back all six parts of the time.\<close>

theorem snapshot_text_inject: "isoToSnapshotTimestamp a = isoToSnapshotTimestamp b \<longleftrightarrow> a = b"
  by (cases a; cases b) (simp add: split_eq part_inject)

section \<open>What the page gets wrong\<close>

text \<open>
  The button that opens the editor is not disabled while a schedule is being saved: the success of the save closes
  the editor that was opened in the meantime, with what was typed into it.
\<close>

lemma late_save_closes_editor:
  assumes "bkData p = Some b" "\<not> bkFailed p" "bkUpdating p = Some SavesSchedule"
  shows "\<not> bkEditing (foldl (\<lambda>p e. fst (backupMove e p)) p [CancelSchedule, ClickEditSchedule, TypeSchedule s, UpdateSettled None])"
  using assms by simp

text \<open>A run that is refused, and a deletion that is refused, leave no trace on the page.\<close>

lemma refused_run_silent: "fst (backupMove RunBackupSettled p) = p\<lparr>bkRunning := False\<rparr>"
  by simp

lemma refused_drop_silent: "backupMove (DropBackupSettled False) p = (p\<lparr>bkDeleting := False\<rparr>, [])"
  by (cases p) simp

text \<open>A backup that is off is yellow, however its last run ended.\<close>

lemma disabled_hides_failure: "truthy (getProp b ''disabled'') \<Longrightarrow> statusColor b = ''yellow''"
  by (simp add: statusColor_def)


section \<open>The list\<close>

record backup_list =
  blRows :: "json list"
  blRunning :: bool
  blDropping :: bool

definition openBackupList :: backup_list where
  "openBackupList = \<lparr>blRows = [], blRunning = False, blDropping = False\<rparr>"

datatype backup_list_event =
    BackupRows "json list" | PressRunRow nat | RunRowSettled | PressDropBackupRow nat bool | DropBackupRowSettled

fun backupListMove :: "backup_list_event \<Rightarrow> backup_list \<Rightarrow> backup_list \<times> backup_page_out list" where
  "backupListMove (BackupRows bs) p = (p\<lparr>blRows := bs\<rparr>, [])"
| "backupListMove (PressRunRow k) p =
     (if k < length (blRows p) \<and> \<not> truthy (getProp (blRows p ! k) ''disabled'') \<and> \<not> blRunning p
      then (p\<lparr>blRunning := True\<rparr>, [RunBackup (backupId (blRows p ! k))]) else (p, []))"
| "backupListMove RunRowSettled p = (p\<lparr>blRunning := False\<rparr>, [])"
| "backupListMove (PressDropBackupRow k yes) p =
     (if k < length (blRows p) \<and> yes \<and> \<not> blDropping p
      then (p\<lparr>blDropping := True\<rparr>, [DropBackup (backupId (blRows p ! k))]) else (p, []))"
| "backupListMove DropBackupRowSettled p = (p\<lparr>blDropping := False\<rparr>, [])"

text \<open>Neither page runs a backup that it shows as disabled, nor one while another run is being asked for.\<close>

lemma disabled_never_runs:
  "RunBackup i \<in> set (snd (backupListMove e p)) \<Longrightarrow>
   \<not> blRunning p \<and> (\<exists>b \<in> set (blRows p). backupId b = i \<and> statusLabel b \<noteq> ''disabled'')"
  "RunBackup i \<in> set (snd (backupMove e' q)) \<Longrightarrow>
   \<not> bkRunning q \<and> (\<exists>b. bkData q = Some b \<and> backupId b = i \<and> statusLabel b \<noteq> ''disabled'')"
  by (cases e; auto simp: statusLabel_def split: if_splits)
    (cases e'; auto simp: statusLabel_def split: if_splits option.splits)

end
