(* ===== verification/File_Lists.thy ===== *)
theory File_Lists
  imports Share_Hooks
begin

text \<open>
  The lists of the sync jobs (\<open>routes/files/syncs/index.tsx\<close>) and of the shares (\<open>routes/files/shares/index.tsx\<close>). A job
  is the JSON value the server gave. The percentage is the exact quotient, rounded as \<open>Math.round\<close> does; the page of
  the shares knows the time only through its timers, in milliseconds.
\<close>

section \<open>The sync jobs\<close>

definition shownText :: "json \<Rightarrow> string" where
  "shownText j = (case j of JStr s \<Rightarrow> s | JNum n \<Rightarrow> decInt n | _ \<Rightarrow> [])"

definition stateColor :: "string \<Rightarrow> string" where
  "stateColor s = (if s = ''done'' then ''green'' else if s = ''error'' then ''red'' else if s = ''paused'' then ''yellow'' else ''blue'')"

text \<open>\<open>undefined / undefined\<close> is not a number, nor is what it is rounded to.\<close>

definition progressPercent :: "json \<Rightarrow> string" where
  "progressPercent job = (let p = getProp job ''progress'' in
     if getProp p ''objects_total'' = JNum 0 then ''0''
     else case (getProp p ''objects_copied'', getProp p ''objects_total'') of
         (JNum c, JNum t) \<Rightarrow> decInt ((200 * c + t) div (2 * t))
       | _ \<Rightarrow> ''NaN'')"

definition progressShown :: "json \<Rightarrow> bool" where
  "progressShown job \<longleftrightarrow> (case getProp (getProp job ''progress'') ''objectsTotal'' of JNum n \<Rightarrow> 0 < n | _ \<Rightarrow> False)"

definition pauseOffered :: "json \<Rightarrow> bool" where
  "pauseOffered job \<longleftrightarrow> activeState (getProp job ''state'')"

definition resumeOffered :: "json \<Rightarrow> bool" where
  "resumeOffered job \<longleftrightarrow> getProp job ''state'' = JStr ''paused''"

record sync_list =
  slJobs :: "json list"
  slPausing :: bool
  slResuming :: bool
  slDeleting :: bool

definition openSyncs :: sync_list where
  "openSyncs = \<lparr>slJobs = [], slPausing = False, slResuming = False, slDeleting = False\<rparr>"

datatype sync_list_event =
    JobsArrive "json list"
  | PressPause nat
  | PressResume nat
  | PressDropSync nat bool
  | PauseSettled bool
  | ResumeSettled bool
  | DropSyncSettled bool

datatype sync_list_out = PauseSync string | ResumeSync string | DropSync string | UnhandledRejection

definition jobId :: "json \<Rightarrow> string" where
  "jobId job = toStr (getProp job ''id'')"

text \<open>Rows are numbered; no handler catches the error of its request.\<close>

fun syncListMove :: "sync_list_event \<Rightarrow> sync_list \<Rightarrow> sync_list \<times> sync_list_out list" where
  "syncListMove (JobsArrive js) p = (p\<lparr>slJobs := js\<rparr>, [])"
| "syncListMove (PressPause k) p =
     (if k < length (slJobs p) \<and> pauseOffered (slJobs p ! k) \<and> \<not> slPausing p
      then (p\<lparr>slPausing := True\<rparr>, [PauseSync (jobId (slJobs p ! k))]) else (p, []))"
| "syncListMove (PressResume k) p =
     (if k < length (slJobs p) \<and> resumeOffered (slJobs p ! k) \<and> \<not> slResuming p
      then (p\<lparr>slResuming := True\<rparr>, [ResumeSync (jobId (slJobs p ! k))]) else (p, []))"
| "syncListMove (PressDropSync k yes) p =
     (if k < length (slJobs p) \<and> yes \<and> \<not> slDeleting p
      then (p\<lparr>slDeleting := True\<rparr>, [DropSync (jobId (slJobs p ! k))]) else (p, []))"
| "syncListMove (PauseSettled ok) p = (p\<lparr>slPausing := False\<rparr>, if ok then [] else [UnhandledRejection])"
| "syncListMove (ResumeSettled ok) p = (p\<lparr>slResuming := False\<rparr>, if ok then [] else [UnhandledRejection])"
| "syncListMove (DropSyncSettled ok) p = (p\<lparr>slDeleting := False\<rparr>, if ok then [] else [UnhandledRejection])"

definition syncListAfter :: "sync_list_event list \<Rightarrow> sync_list" where
  "syncListAfter es = foldl (\<lambda>p e. fst (syncListMove e p)) openSyncs es"

fun syncListAction :: "sync_list_out \<Rightarrow> json js option" where
  "syncListAction (PauseSync i) = Some (mutationFn usePauseUserSync i)"
| "syncListAction (ResumeSync i) = Some (mutationFn useResumeUserSync i)"
| "syncListAction (DropSync i) = Some (mutationFn useDeleteUserSync i)"
| "syncListAction UnhandledRejection = None"

section \<open>The shares\<close>

record share_list =
  hlTokens :: "string list"
  hlCopied :: "string option"
  hlTimers :: "nat list"
  hlRevoking :: bool
  hlRevokeError :: bool

definition openShares :: share_list where
  "openShares = \<lparr>hlTokens = [], hlCopied = None, hlTimers = [], hlRevoking = False, hlRevokeError = False\<rparr>"

datatype share_list_event =
    SharesArrive "string list"
  | PressCopyShare nat bool
  | Wait nat
  | PressRevoke nat bool
  | RevokeShareSettled bool

datatype share_list_out = CopyShare string | RevokeShare string

definition COPIED_MS :: nat where "COPIED_MS = 2000"

text \<open>Copying succeeds or the clipboard rejects. Time passes: the timers that are due fire, the others come closer.\<close>

fun shareListMove :: "string \<Rightarrow> share_list_event \<Rightarrow> share_list \<Rightarrow> share_list \<times> share_list_out list" where
  "shareListMove origin (SharesArrive ts) p = (p\<lparr>hlTokens := ts\<rparr>, [])"
| "shareListMove origin (PressCopyShare k ok) p =
     (if length (hlTokens p) \<le> k then (p, [])
      else (if ok then p\<lparr>hlCopied := Some (hlTokens p ! k), hlTimers := hlTimers p @ [COPIED_MS]\<rparr> else p,
        [CopyShare (origin @ ''/share/'' @ hlTokens p ! k)]))"
| "shareListMove origin (Wait d) p =
     (p\<lparr>hlCopied := (if \<exists>t \<in> set (hlTimers p). t \<le> d then None else hlCopied p),
        hlTimers := map (\<lambda>t. t - d) (filter (\<lambda>t. d < t) (hlTimers p))\<rparr>, [])"
| "shareListMove origin (PressRevoke k yes) p =
     (if k < length (hlTokens p) \<and> yes \<and> \<not> hlRevoking p
      then (p\<lparr>hlRevoking := True, hlRevokeError := False\<rparr>, [RevokeShare (hlTokens p ! k)]) else (p, []))"
| "shareListMove origin (RevokeShareSettled ok) p =
     (if hlRevoking p then p\<lparr>hlRevoking := False, hlRevokeError := \<not> ok\<rparr> else p, [])"

definition shareListAfter :: "string \<Rightarrow> share_list_event list \<Rightarrow> share_list" where
  "shareListAfter origin es = foldl (\<lambda>p e. fst (shareListMove origin e p)) openShares es"

fun shareListAction :: "share_list_out \<Rightarrow> json js option" where
  "shareListAction (RevokeShare t) = Some (mutationFn useRevokeUserShare t)"
| "shareListAction (CopyShare s) = None"

section \<open>What is asked of the server\<close>

text \<open>
  A job is paused only while the list shows it running or queued, resumed only while it shows it
  paused, deleted only after the question was answered with yes, and none of these twice at a time.
\<close>

theorem sync_actions_match_state:
  "(PauseSync i \<in> set (snd (syncListMove e p)) \<longrightarrow> \<not> slPausing p \<and> slPausing (fst (syncListMove e p)) \<and>
      (\<exists>job \<in> set (slJobs p). jobId job = i \<and> activeState (getProp job ''state''))) \<and>
   (ResumeSync i \<in> set (snd (syncListMove e p)) \<longrightarrow> \<not> slResuming p \<and> slResuming (fst (syncListMove e p)) \<and>
      (\<exists>job \<in> set (slJobs p). jobId job = i \<and> getProp job ''state'' = JStr ''paused'')) \<and>
   (DropSync i \<in> set (snd (syncListMove e p)) \<longrightarrow> \<not> slDeleting p \<and> (\<exists>k. e = PressDropSync k True) \<and>
      (\<exists>job \<in> set (slJobs p). jobId job = i))"
  by (cases e) (auto simp: pauseOffered_def resumeOffered_def)

theorem sync_actions_match_state_witness:
  "\<exists>job \<in> set (slJobs (openSyncs\<lparr>slJobs := [JObj [(''id'', JStr ''1''), (''state'', JStr ''paused'')]]\<rparr>)). jobId job = ''1''"
proof -
  let ?p = "openSyncs\<lparr>slJobs := [JObj [(''id'', JStr ''1''), (''state'', JStr ''paused'')]]\<rparr>"
  have "ResumeSync ''1'' \<in> set (snd (syncListMove (PressResume 0) ?p))" by code_simp
  with sync_actions_match_state [of "''1''" "PressResume 0" ?p] show ?thesis by blast
qed

text \<open>The buttons of a job exclude each other, and polling goes on exactly while one can be paused.\<close>

lemma one_button: "\<not> (pauseOffered job \<and> resumeOffered job)"
  by (auto simp: pauseOffered_def resumeOffered_def activeState_def)

lemma polled_while_pausable: "qPoll useUserSyncs (JArr js) = Every 2000 \<longleftrightarrow> list_ex pauseOffered js"
proof -
  have "pauseOffered = (\<lambda>j. activeState (getProp j ''state''))" by (simp add: fun_eq_iff pauseOffered_def)
  then show ?thesis by (simp add: useUserSyncs_def jobsActive_def)
qed

text \<open>The note on a share says that its link was the last one that was copied.\<close>

fun lastCopied :: "string list \<Rightarrow> share_list_event list \<Rightarrow> string option" where
  "lastCopied ts [] = None"
| "lastCopied ts (SharesArrive us # es) = lastCopied us es"
| "lastCopied ts (PressCopyShare k ok # es) =
     (case lastCopied ts es of Some t \<Rightarrow> Some t | None \<Rightarrow> if ok \<and> k < length ts then Some (ts ! k) else None)"
| "lastCopied ts (_ # es) = lastCopied ts es"

lemma copied_last:
  "hlCopied (foldl (\<lambda>p e. fst (shareListMove origin e p)) p es) = Some t \<Longrightarrow>
   lastCopied (hlTokens p) es = Some t \<or> lastCopied (hlTokens p) es = None \<and> hlCopied p = Some t"
proof (induction es arbitrary: p)
  case Nil
  then show ?case by simp
next
  case (Cons e es)
  then have "hlCopied (foldl (\<lambda>p e. fst (shareListMove origin e p)) (fst (shareListMove origin e p)) es) = Some t" by simp
  from Cons.IH [OF this] show ?case by (cases e) (auto split: if_splits option.splits)
qed

theorem copied_note_true: "hlCopied (shareListAfter origin es) = Some t \<Longrightarrow> lastCopied [] es = Some t"
  unfolding shareListAfter_def by (drule copied_last) (simp add: openShares_def)

theorem copied_note_true_witness: "lastCopied [] [SharesArrive [''a'', ''b''], PressCopyShare 1 True] = Some ''b''"
proof -
  have "hlCopied (shareListAfter ''h'' [SharesArrive [''a'', ''b''], PressCopyShare 1 True]) = Some ''b''" by code_simp
  then show ?thesis by (rule copied_note_true)
qed

section \<open>What the lists get wrong\<close>

text \<open>
  The server names the properties of a job in snake case. The names of the buckets are read in camel case, as is the
  number that decides about the progress: a card shows neither.
\<close>

definition servedJob :: "string \<Rightarrow> string \<Rightarrow> int \<Rightarrow> int \<Rightarrow> json" where
  "servedJob src dst n c = JObj [(''id'', JStr ''1''), (''src_bucket'', JStr src), (''dst_bucket'', JStr dst),
     (''progress'', JObj [(''objects_total'', JNum n), (''objects_copied'', JNum c)])]"

lemma served_job_blank:
  "shownText (getProp (servedJob src dst n c) ''srcBucket'') = [] \<and> shownText (getProp (servedJob src dst n c) ''dstBucket'') = [] \<and>
   \<not> progressShown (servedJob src dst n c)"
  by (simp add: servedJob_def shownText_def progressShown_def)

text \<open>A job in camel case, as the types say, shows its progress, as a percentage that is not a number.\<close>

lemma typed_job_percent:
  assumes "getProp (getProp job ''progress'') ''objects_total'' = JUndef"
  shows "progressPercent job = ''NaN''"
  using assms by (simp add: progressPercent_def split: json.split)

text \<open>The timer of a note is not stopped by the next copy: the second note disappears with the first.\<close>

lemma early_timer:
  "hlCopied (shareListAfter h [SharesArrive [''a'', ''b''], PressCopyShare 0 True, Wait 1900, PressCopyShare 1 True]) = Some ''b'' \<and>
   hlCopied (shareListAfter h [SharesArrive [''a'', ''b''], PressCopyShare 0 True, Wait 1900, PressCopyShare 1 True, Wait 100]) = None"
  by (simp add: shareListAfter_def openShares_def COPIED_MS_def)

text \<open>The error of a refused deletion, pause or resumption is caught by nobody and shown nowhere.\<close>

lemma refusals_unhandled:
  "snd (syncListMove (PauseSettled False) p) = [UnhandledRejection] \<and>
   snd (syncListMove (ResumeSettled False) p) = [UnhandledRejection] \<and>
   snd (syncListMove (DropSyncSettled False) p) = [UnhandledRejection]"
  by simp

end
