(* ===== verification/Keychain.thy ===== *)
theory Keychain
  imports Region_Hooks Format
begin

text \<open>
  The keychain: the cards of the keys with their deletion and rotation (\<open>routes/files/keys/index.tsx\<close>), the home of
  the files with its cards and its hint (\<open>routes/files/index.tsx\<close>, \<open>components/keys/UserKeyCard.tsx\<close>,
  \<open>shared/ui/InstallToHomeScreenHint.tsx\<close>), and the list of the buckets of one key
  (\<open>routes/files/$regionId/index.tsx\<close>). The URL constructor is the parameter \<open>hostOf\<close>: the host of a valid URL.
\<close>

section \<open>The card of a key\<close>

definition addressingStyleLabel :: "string option \<Rightarrow> string" where
  "addressingStyleLabel style = (if style = Some ''virtual_host'' then ''via virtual-host'' else ''via path-style'')"

definition rotationRecentlyHappened :: "(string \<Rightarrow> int option) \<Rightarrow> int \<Rightarrow> string option \<Rightarrow> string \<Rightarrow> bool" where
  "rotationRecentlyHappened parse now updatedAt createdAt \<longleftrightarrow>
     present updatedAt \<and> (case (parse (the updatedAt), parse createdAt) of
       (Some updated, Some created) \<Rightarrow> \<not> updated - created < 60000 \<and> now - updated < 24 * 60 * 60 * 1000
     | _ \<Rightarrow> False)"

record key_card =
  kcConfirm :: bool
  kcRotate :: bool
  kcAccessKey :: string
  kcSecret :: string
  kcDeleting :: bool
  kcDeleteError :: "string option"
  kcRotating :: bool
  kcRotateError :: "string option"

definition openKeyCard :: key_card where
  "openKeyCard = \<lparr>kcConfirm = False, kcRotate = False, kcAccessKey = [], kcSecret = [], kcDeleting = False,
     kcDeleteError = None, kcRotating = False, kcRotateError = None\<rparr>"

datatype key_card_event =
    ClickDropKey
  | DismissDropKey
  | ConfirmDropKey
  | DropKeySettled "string option"
  | ClickRotate
  | DismissRotate
  | TypeNewAccessKey string
  | TypeNewSecret string
  | PressRotate
  | RotateKeySettled "string option"

datatype key_card_out = DropKey string | RotateKey RotateUserRegionRequest | InvalidateRoutes | RotationUncaught

text \<open>
  The events of a card for the key \<open>i\<close>; a settled request carries the message of its error. An error leaves the
  handler uncaught; the dialog shows what the mutation remembers of it.
\<close>

fun keyCardStep :: "string \<Rightarrow> key_card_event \<Rightarrow> key_card \<Rightarrow> key_card \<times> key_card_out list" where
  "keyCardStep i ClickDropKey p = (p\<lparr>kcConfirm := True\<rparr>, [])"
| "keyCardStep i DismissDropKey p = (p\<lparr>kcConfirm := False\<rparr>, [])"
| "keyCardStep i ConfirmDropKey p =
     (if kcConfirm p \<and> \<not> kcDeleting p then (p\<lparr>kcDeleting := True, kcDeleteError := None\<rparr>, [DropKey i]) else (p, []))"
| "keyCardStep i (DropKeySettled r) p =
     (if \<not> kcDeleting p then (p, [])
      else case r of None \<Rightarrow> (p\<lparr>kcDeleting := False, kcConfirm := False\<rparr>, [InvalidateRoutes])
        | Some m \<Rightarrow> (p\<lparr>kcDeleting := False, kcDeleteError := Some m\<rparr>, [RotationUncaught]))"
| "keyCardStep i ClickRotate p = (p\<lparr>kcRotate := True\<rparr>, [])"
| "keyCardStep i DismissRotate p = (p\<lparr>kcRotate := False\<rparr>, [])"
| "keyCardStep i (TypeNewAccessKey s) p = (if kcRotate p then p\<lparr>kcAccessKey := s\<rparr> else p, [])"
| "keyCardStep i (TypeNewSecret s) p = (if kcRotate p then p\<lparr>kcSecret := s\<rparr> else p, [])"
| "keyCardStep i PressRotate p =
     (if kcRotate p \<and> \<not> kcRotating p \<and> trim (kcAccessKey p) \<noteq> [] \<and> kcSecret p \<noteq> []
      then (p\<lparr>kcRotating := True, kcRotateError := None\<rparr>,
        [RotateKey \<lparr>rrRegionId = i, rrAccessKeyId = trim (kcAccessKey p), rrSecretKey = kcSecret p\<rparr>])
      else (p, []))"
| "keyCardStep i (RotateKeySettled r) p =
     (if \<not> kcRotating p then (p, [])
      else case r of
          None \<Rightarrow> (p\<lparr>kcRotating := False, kcRotate := False, kcAccessKey := [], kcSecret := []\<rparr>, [InvalidateRoutes])
        | Some m \<Rightarrow> (p\<lparr>kcRotating := False, kcRotateError := Some m\<rparr>, [RotationUncaught]))"

definition keyCardAfter :: "string \<Rightarrow> key_card_event list \<Rightarrow> key_card" where
  "keyCardAfter i es = foldl (\<lambda>p e. fst (keyCardStep i e p)) openKeyCard es"

fun keyCardAction :: "key_card_out \<Rightarrow> json js option" where
  "keyCardAction (DropKey i) = Some (mutationFn useDeleteUserRegion i)"
| "keyCardAction (RotateKey r) = Some (mutationFn useRotateUserRegion r)"
| "keyCardAction _ = None"

section \<open>The home of the files\<close>

definition hostnameOf :: "(string \<Rightarrow> string option) \<Rightarrow> string \<Rightarrow> string" where
  "hostnameOf hostOf endpoint = (case hostOf endpoint of None \<Rightarrow> endpoint | Some h \<Rightarrow> h)"

definition cardAlias :: "string option \<Rightarrow> string" where
  "cardAlias al = (if present al \<and> trim (the al) \<noteq> [] then trim (the al) else ''(unnamed key)'')"

definition keyEllipsis :: string where
  "keyEllipsis = [CHR 0xE2, CHR 0x80, CHR 0xA6]"

definition akPreview :: "string \<Rightarrow> string" where
  "akPreview k = (if length k > 12 then take 12 k @ keyEllipsis else k)"

datatype home_view = HomeFailed | HomeLoading | HomeEmpty | HomeCards "json list"

text \<open>\<open>None\<close> is a list that has not arrived.\<close>

definition homeView :: "bool \<Rightarrow> json list option \<Rightarrow> home_view" where
  "homeView failed regions =
     (if failed then HomeFailed
      else case regions of None \<Rightarrow> HomeLoading | Some [] \<Rightarrow> HomeEmpty | Some rs \<Rightarrow> HomeCards rs)"

text \<open>The storage holds a text, nothing, or throws; then the two media queries.\<close>

datatype stored = Stored string | NotStored | StorageThrows

definition detectShouldShowHint :: "stored \<Rightarrow> bool \<Rightarrow> bool \<Rightarrow> bool" where
  "detectShouldShowHint st inBrowserMode isMobileViewport =
     (if st = Stored ''1'' then False
      else if \<not> inBrowserMode then False
      else if \<not> isMobileViewport then False else True)"

text \<open>Dismissing hides the hint and writes the flag where that is possible.\<close>

definition dismissHint :: "stored \<Rightarrow> bool \<times> stored" where
  "dismissHint st = (False, if st = StorageThrows then StorageThrows else Stored ''1'')"

section \<open>The buckets of a key\<close>

record region_page =
  rgRegions :: "json list option"
  rgRegionsFailed :: bool
  rgRegion :: "json option"
  rgBuckets :: "json option"
  rgBucketsError :: "js_error option"
  rgDropping :: bool

definition openRegion :: region_page where
  "openRegion = \<lparr>rgRegions = None, rgRegionsFailed = False, rgRegion = None, rgBuckets = None, rgBucketsError = None,
     rgDropping = False\<rparr>"

definition activeRegion :: "string \<Rightarrow> region_page \<Rightarrow> json option" where
  "activeRegion i p = (case rgRegion p of Some r \<Rightarrow> Some r
     | None \<Rightarrow> (case rgRegions p of None \<Rightarrow> None | Some rs \<Rightarrow> List.find (\<lambda>r. getProp r ''id'' = JStr i) rs))"

definition isKeyRejected :: "region_page \<Rightarrow> bool" where
  "isKeyRejected p \<longleftrightarrow> (case rgBucketsError p of None \<Rightarrow> False | Some e \<Rightarrow> codeOf e = JStr ''USER_KEY_REJECTED'')"

datatype region_view =
    RegionsUnavailable
  | KeyRejected
  | BucketsUnavailable string
  | BucketsLoading
  | NoBuckets
  | BucketTable "json list" bool

definition regionView :: "region_page \<Rightarrow> region_view" where
  "regionView p =
     (if rgRegionsFailed p then RegionsUnavailable
      else if isKeyRejected p then KeyRejected
      else case rgBucketsError p of Some e \<Rightarrow> BucketsUnavailable (''Error: '' @ messageOf e)
        | None \<Rightarrow> (case rgBuckets p of None \<Rightarrow> BucketsLoading
            | Some d \<Rightarrow> (case getProp d ''buckets'' of
                JArr (b # bs) \<Rightarrow> BucketTable (b # bs) (truthy (getProp d ''perBucketStatsAvailable'')) | _ \<Rightarrow> NoBuckets)))"

text \<open>What a row shows: the name, whether it is an alias, and the size where there is one.\<close>

definition bucketName :: "json \<Rightarrow> string \<times> bool" where
  "bucketName b = (case getProp b ''aliases'' of
       JArr (JStr a # _) \<Rightarrow> if a \<noteq> [] then (a, True) else (toStr (getProp b ''id''), False)
     | _ \<Rightarrow> (toStr (getProp b ''id''), False))"

definition bucketSize :: "json \<Rightarrow> string" where
  "bucketSize b = (case getProp b ''bytes'' of JNum n \<Rightarrow> if 0 < n then humanizeBytes (Some n) else emDash | _ \<Rightarrow> emDash)"

datatype region_page_event =
    RegionListArrives "json list"
  | RegionListFails
  | RegionArrives json
  | BucketListArrives json
  | BucketListFails js_error
  | PressDropRejected
  | DropRejectedSettled bool

datatype region_page_out = DropRejected string | OpenKeychain | OpenHome | DropUncaught

text \<open>The effect sends the operator home when the list of keys has become empty.\<close>

fun regionMove :: "string \<Rightarrow> region_page_event \<Rightarrow> region_page \<Rightarrow> region_page \<times> region_page_out list" where
  "regionMove i (RegionListArrives rs) p = (p\<lparr>rgRegions := Some rs, rgRegionsFailed := False\<rparr>,
     if rs = [] \<and> rgRegions p \<noteq> Some [] then [OpenHome] else [])"
| "regionMove i RegionListFails p = (p\<lparr>rgRegionsFailed := True\<rparr>, [])"
| "regionMove i (RegionArrives r) p = (p\<lparr>rgRegion := Some r\<rparr>, [])"
| "regionMove i (BucketListArrives d) p = (p\<lparr>rgBuckets := Some d, rgBucketsError := None\<rparr>, [])"
| "regionMove i (BucketListFails e) p = (p\<lparr>rgBucketsError := Some e\<rparr>, [])"
| "regionMove i PressDropRejected p =
     (if regionView p = KeyRejected \<and> \<not> rgDropping p then (p\<lparr>rgDropping := True\<rparr>, [DropRejected i]) else (p, []))"
| "regionMove i (DropRejectedSettled ok) p =
     (if rgDropping p then (p\<lparr>rgDropping := False\<rparr>, [if ok then OpenKeychain else DropUncaught]) else (p, []))"

definition regionPageAfter :: "string \<Rightarrow> region_page_event list \<Rightarrow> region_page" where
  "regionPageAfter i es = foldl (\<lambda>p e. fst (regionMove i e p)) openRegion es"

definition regionQueries :: "string \<Rightarrow> query list" where
  "regionQueries i = filter qEnabled [useUserRegions, useUserRegion (Some i), useUserRegionBuckets (Some i)]"

section \<open>Deletions and rotations\<close>

text \<open>
  A key is rotated with a trimmed identifier and a secret that are both not empty, and deleted, only
  from its own dialog while that is open, and neither while the same request is under way.
\<close>

theorem key_requests_from_dialog:
  "(RotateKey r \<in> set (snd (keyCardStep i e p)) \<longrightarrow> e = PressRotate \<and> kcRotate p \<and> \<not> kcRotating p \<and> rrRegionId r = i \<and>
      rrAccessKeyId r = trim (kcAccessKey p) \<and> rrAccessKeyId r \<noteq> [] \<and> rrSecretKey r = kcSecret p \<and> rrSecretKey r \<noteq> []) \<and>
   (DropKey j \<in> set (snd (keyCardStep i e p)) \<longrightarrow> e = ConfirmDropKey \<and> j = i \<and> kcConfirm p \<and> \<not> kcDeleting p)"
  by (cases e) (auto split: if_splits option.splits)

text \<open>
  A deletion is confirmed in a dialog that was opened by the button of the card and has stayed open
  since; there is no other way to delete a key from the keychain.
\<close>

theorem key_deletion_confirmed:
  assumes "DropKey j \<in> set (snd (keyCardStep i e (keyCardAfter i es)))"
  shows "j = i \<and> (\<exists>es1 es2. es = es1 @ ClickDropKey # es2 \<and>
    (\<forall>n \<le> length es2. kcConfirm (keyCardAfter i (es1 @ ClickDropKey # take n es2))))"
proof -
  have o: "j = i" "kcConfirm (keyCardAfter i es)"
    using assms by (cases e; auto split: if_splits option.splits)+
  from held_since [where P = kcConfirm and f = "\<lambda>p e. fst (keyCardStep i e p)" and s = openKeyCard and es = es]
  obtain es1 x es2 where x: "es = es1 @ x # es2" "\<not> kcConfirm (keyCardAfter i es1)"
    "\<forall>n \<le> length es2. kcConfirm (keyCardAfter i (es1 @ x # take n es2))"
    using o(2) unfolding keyCardAfter_def by (auto simp: openKeyCard_def)
  have "kcConfirm (fst (keyCardStep i x (keyCardAfter i es1)))"
    using x(3) [rule_format, of 0] by (simp add: keyCardAfter_def)
  with x(2) have "x = ClickDropKey" by (cases x) (auto split: if_splits option.splits)
  with x o show ?thesis by blast
qed

theorem key_deletion_confirmed_witness:
  "\<exists>es1 es2. [ClickRotate, ClickDropKey] = es1 @ ClickDropKey # es2"
proof -
  have "DropKey ''k'' \<in> set (snd (keyCardStep ''k'' ConfirmDropKey (keyCardAfter ''k'' [ClickRotate, ClickDropKey])))"
    by code_simp
  from key_deletion_confirmed [OF this] show ?thesis by blast
qed

text \<open>From the list of its buckets a key is deleted only while the page says that it was rejected.\<close>

lemma region_deleted_when_rejected:
  "DropRejected j \<in> set (snd (regionMove i e p)) \<Longrightarrow> j = i \<and> regionView p = KeyRejected \<and> \<not> rgDropping p"
  by (cases e) (auto split: if_splits)

text \<open>Buckets are shown only when the last fetch of either list did not fail.\<close>

lemma table_only_when_fetched:
  "regionView p = BucketTable bs st \<Longrightarrow> \<not> rgRegionsFailed p \<and> rgBucketsError p = None \<and> bs \<noteq> []"
  by (auto simp: regionView_def isKeyRejected_def split: if_splits option.splits json.splits list.splits)

lemma rotation_hint:
  assumes "parse u = Some t" "parse c = Some s" "u \<noteq> []"
  shows "rotationRecentlyHappened parse now (Some u) c \<longleftrightarrow> s + 60000 \<le> t \<and> now < t + 86400000"
  using assms by (auto simp: rotationRecentlyHappened_def)

text \<open>A hint that was dismissed does not come back where the flag can be stored.\<close>

lemma hint_stays_away:
  "st \<noteq> StorageThrows \<Longrightarrow> \<not> detectShouldShowHint (snd (dismissHint st)) b m"
  by (simp add: dismissHint_def detectShouldShowHint_def)

lemma preview_short: "length (akPreview k) \<le> 15 \<and> (length k \<le> 12 \<longrightarrow> akPreview k = k)"
  by (simp add: akPreview_def keyEllipsis_def)

section \<open>What the pages get wrong\<close>

text \<open>The secret of a rotation that was cancelled stays in the card, and is there when the dialog opens again.\<close>

lemma cancelled_rotation_keeps_secret:
  "kcSecret (keyCardAfter i [ClickRotate, TypeNewSecret s, DismissRotate, ClickRotate]) = s"
  by (simp add: keyCardAfter_def openKeyCard_def)

text \<open>
  The success of a rotation closes the dialog that is open by then and clears what was typed into it in the meantime.
\<close>

lemma late_rotation_clears_input:
  "trim k \<noteq> [] \<Longrightarrow> s \<noteq> [] \<Longrightarrow>
   (let p = keyCardAfter i [ClickRotate, TypeNewAccessKey k, TypeNewSecret s, PressRotate, DismissRotate, ClickRotate,
        TypeNewSecret s2, RotateKeySettled None] in \<not> kcRotate p \<and> kcSecret p = [])"
  by (simp add: keyCardAfter_def openKeyCard_def)

text \<open>The error of the last attempt greets the next one.\<close>

lemma old_error_greets:
  "kcRotateError p = Some m \<Longrightarrow> kcRotateError (fst (keyCardStep i ClickRotate (fst (keyCardStep i DismissRotate p)))) = Some m"
  by simp

text \<open>The buckets that were listed disappear behind the error of a failed refetch.\<close>

lemma failed_refetch_hides_buckets:
  "\<not> rgRegionsFailed p \<Longrightarrow> codeOf e \<noteq> JStr ''USER_KEY_REJECTED'' \<Longrightarrow>
   regionView (fst (regionMove i (BucketListFails e) p)) = BucketsUnavailable (''Error: '' @ messageOf e)"
  by (simp add: regionView_def isKeyRejected_def)

end
