(* ===== verification/Maintenance_Pages.thy ===== *)
theory Maintenance_Pages
  imports Cluster_Hooks Service_Accounts Format
begin

text \<open>
  Two small pages of the administration: the scrub of a cluster (\<open>routes/admin/clusters/$cid/scrub.tsx\<close>) and one
  service account (\<open>routes/admin/service-accounts/$id.tsx\<close>). Progress is a whole percentage.
\<close>

section \<open>The scrub\<close>

record scrub_page =
  scData :: "json option"
  scFailed :: bool
  scStarting :: bool

definition openScrub :: scrub_page where
  "openScrub = \<lparr>scData = None, scFailed = False, scStarting = False\<rparr>"

definition scrubState :: "scrub_page \<Rightarrow> json" where
  "scrubState p = (case scData p of None \<Rightarrow> JUndef | Some d \<Rightarrow> getProp d ''state'')"

definition numberOr0 :: "json \<Rightarrow> int" where
  "numberOr0 j = (case j of JNum n \<Rightarrow> n | _ \<Rightarrow> 0)"

datatype scrub_view = ScrubFailed | ScrubLoading | ScrubUnsupported string | ScrubSupported

definition scrubView :: "scrub_page \<Rightarrow> scrub_view" where
  "scrubView p =
     (if scFailed p then ScrubFailed
      else case scData p of None \<Rightarrow> ScrubLoading
        | Some d \<Rightarrow> (let c = getProp d ''capabilities'' in
            if truthy (getProp c ''supported'') then ScrubSupported
            else ScrubUnsupported (if truthy (getProp c ''reason'') then toStr (getProp c ''reason'')
              else ''This driver doesn't expose a block-scrub operation.'')))"

text \<open>The bar is there while a scrub runs and has come somewhere; its width in percent.\<close>

definition scrubBar :: "scrub_page \<Rightarrow> int option" where
  "scrubBar p = (let n = numberOr0 (getProp (scrubState p) ''progressPercent'') in
     if truthy (getProp (scrubState p) ''running'') \<and> 0 < n then Some (min 100 (max 0 n)) else None)"

definition scrubProgressText :: "scrub_page \<Rightarrow> string" where
  "scrubProgressText p = (let n = getProp (scrubState p) ''progressPercent'' in
     if truthy n then toStr n @ ''%'' else emDash)"

definition corruptWarns :: "scrub_page \<Rightarrow> bool" where
  "corruptWarns p \<longleftrightarrow> 0 < numberOr0 (getProp (scrubState p) ''blocksCorrupt'')"

definition scrubButton :: "scrub_page \<Rightarrow> string \<times> bool" where
  "scrubButton p = (let running = truthy (getProp (scrubState p) ''running'') in
     (if scStarting p then ''Starting'' else if running then ''Running'' else ''Run scrub'', \<not> (running \<or> scStarting p)))"

datatype scrub_event = ScrubArrives json | ScrubFails | PressScrub | ScrubSettled "string option"

datatype scrub_out = StartScrub | RefetchScrub | ToastScrubStarted | ToastScrubRefused string

fun scrubStep :: "scrub_event \<Rightarrow> scrub_page \<Rightarrow> scrub_page \<times> scrub_out list" where
  "scrubStep (ScrubArrives d) p = (p\<lparr>scData := Some d, scFailed := False\<rparr>, [])"
| "scrubStep ScrubFails p = (p\<lparr>scFailed := True\<rparr>, [])"
| "scrubStep PressScrub p =
     (if scrubView p = ScrubSupported \<and> snd (scrubButton p) then (p\<lparr>scStarting := True\<rparr>, [StartScrub]) else (p, []))"
| "scrubStep (ScrubSettled r) p =
     (if \<not> scStarting p then (p, [])
      else (p\<lparr>scStarting := False\<rparr>, case r of None \<Rightarrow> [ToastScrubStarted, RefetchScrub]
        | Some m \<Rightarrow> [ToastScrubRefused m]))"

definition scrubAction :: "string \<Rightarrow> scrub_out \<Rightarrow> json js option" where
  "scrubAction cid r = (if r = StartScrub then Some (mutationFn (useStartClusterScrub cid) ()) else None)"

definition scrubRefetch :: "string \<Rightarrow> scrub_out \<Rightarrow> effect list" where
  "scrubRefetch cid r = (if r = RefetchScrub then [Invalidate (clusterKey cid [KS ''scrub''])] else [])"

text \<open>
  A scrub is started only by the button, on a page that shows a supported driver and no scrub that
  runs or is being started; its success outdates the state the page polls.
\<close>

theorem scrub_started_once:
  assumes "StartScrub \<in> set (snd (scrubStep e p))"
  shows "e = PressScrub \<and> \<not> scStarting p \<and> scStarting (fst (scrubStep e p)) \<and> \<not> scFailed p \<and>
    (\<exists>d. scData p = Some d \<and> truthy (getProp (getProp d ''capabilities'') ''supported'') \<and>
      \<not> truthy (getProp (getProp d ''state'') ''running'')) \<and>
    covers (scrubRefetch cid RefetchScrub) (queryKey (useClusterScrub cid))"
proof -
  have c: "covers (scrubRefetch cid RefetchScrub) (queryKey (useClusterScrub cid))"
    by (simp add: scrubRefetch_def covers_def hook_defs)
  from assms have "e = PressScrub" "scrubView p = ScrubSupported" "snd (scrubButton p)"
    by (cases e; auto split: if_splits option.splits)+
  with c show ?thesis
    by (auto simp: scrubView_def scrubButton_def scrubState_def Let_def split: if_splits option.splits)
qed

theorem scrub_started_once_witness:
  "\<not> scStarting (openScrub\<lparr>scData := Some (JObj [(''capabilities'', JObj [(''supported'', JBool True)])])\<rparr>)"
proof -
  have "StartScrub \<in> set (snd (scrubStep PressScrub
      (openScrub\<lparr>scData := Some (JObj [(''capabilities'', JObj [(''supported'', JBool True)])])\<rparr>)))" by code_simp
  from scrub_started_once [OF this] show ?thesis by blast
qed

lemma bar_in_range: "scrubBar p = Some w \<Longrightarrow> 0 < w \<and> w \<le> 100"
  by (auto simp: scrubBar_def Let_def split: if_splits)

text \<open>The text beside the bar is not limited.\<close>

lemma text_exceeds_bar:
  "getProp (scrubState p) ''progressPercent'' = JNum 120 \<Longrightarrow> scrubProgressText p = decInt 120 @ ''%''"
  by (simp add: scrubProgressText_def)

section \<open>One service account\<close>

definition accountTime :: "(string \<Rightarrow> int option) \<Rightarrow> (bool \<Rightarrow> int \<Rightarrow> string) \<Rightarrow> int \<Rightarrow> string option \<Rightarrow> string" where
  "accountTime parse formatDate now t = (if present t then humanizeTime parse formatDate now t else ''never'')"

definition capabilityKey :: "string \<times> string \<Rightarrow> string" where
  "capabilityKey c = fst c @ ''@'' @ snd c"

datatype account_view = AccountLoading | AccountMissing string | AccountShown account_status

definition accountView ::
  "(string \<Rightarrow> int option) \<Rightarrow> int \<Rightarrow> bool \<Rightarrow> string option \<Rightarrow> account option \<Rightarrow> account_view" where
  "accountView parse now loading failed sa =
     (if loading then AccountLoading
      else case failed of Some m \<Rightarrow> AccountMissing m
        | None \<Rightarrow> (case sa of None \<Rightarrow> AccountMissing ''Service account not found or you don't have access.''
            | Some a \<Rightarrow> AccountShown (saStatus parse now a)))"

text \<open>
  A time that is still to come is \<open>just now\<close>: an account that expires in a year is shown to expire
  just now, next to the status of an active one.
\<close>

lemma future_expiry_just_now:
  assumes "parse t = Some d" "now < d" "YEAR_1971 \<le> d" "t \<noteq> []"
  shows "accountTime parse fmt now (Some t) = ''just now'' \<and>
    accountView parse now False None (Some \<lparr>saId = i, saName = n, saAccessKeyId = k, saRevokedAt = None, saExpiresAt = Some t\<rparr>) =
      AccountShown ActiveAccount"
proof -
  have "(now - d) div 1000 < 0" using assms(2) by (simp add: neg_imp_zdiv_neg_iff)
  then show ?thesis using assms by (simp add: accountTime_def humanizeTime_def accountView_def saStatus_def Let_def)
qed

end
