(* ===== verification/Spec2Isabelle.thy ===== *)
theory Spec2Isabelle
  imports Access Auth_Mode Elevation_Flow Guarded_Actions Build_Watcher Format Bulk_Keys Cache_Keys Upload_Dialog Skin
    Persona Shell Lifecycle_Editor Add_Key First_Run Object_Versions Public_Share Wizards
    Webhook_Pages Share_Sync_Forms Service_Accounts Bucket_Page Policies Migrate Cluster_Layout
    Audit_Log Usage_Page System_Cards Cluster_Page
    Cluster_Forms Admin_Lists Users_Page Backup_Pages File_Lists Keychain Maintenance_Pages
begin

text \<open>
  A model of the core logic of the front end of basement, a web console for S3-compatible storage
  clusters (\<open>src/frontend/src\<close>, TypeScript with React), and the theorems that make it correct.

  \<^bold>\<open>The program.\<close> The single-page application signs an operator in, keeps what the server says about
  the session (\<open>GET /auth/me\<close>), decides from it which pages may be seen, and talks to the server
  through some 125 hooks, each a set of options for a query-caching library: a cache key, an
  asynchronous function that sends one or two requests, polling and staleness rules, and for a
  mutation the cache entries it outdates. Destructive actions need a higher "sudo" mode, obtained in
  a global re-authentication dialog; actions on a cluster with encrypted secrets may need that cluster
  to be unlocked, in a second global dialog. Both dialogs can also be opened by the response
  middleware of the typed HTTP client, behind the back of the code that sent the request.

  \<^bold>\<open>The theories\<close>, in the order in which they build on each other:

  \<^item> \<open>Prelude\<close>: strings (UTF-8 bytes), splitting, joining and trimming, JSON values.
  \<^item> \<open>Http\<close>: percent encoding and what path a server sees, requests, responses, errors
    (\<open>shared/api/apiError.ts\<close>), asynchronous programs \<open>'a js\<close> and their execution \<open>run\<close> against an
    arbitrary server, and the few statement patterns all hooks are written in.
  \<^item> \<open>Query_Model\<close>: the options objects of \<open>useQuery\<close>, \<open>useInfiniteQuery\<close> and \<open>useMutation\<close>, and the
    contracts \<open>collection\<close> and \<open>editable_collection\<close> (locales), interpreted on the hooks of regions,
    syncs, backups, federations, webhooks and service accounts.
  \<^item> \<open>Capabilities\<close> (\<open>shared/auth/capabilities.ts\<close>), \<open>Session\<close> (\<open>useUser.ts\<close>, \<open>useOIDCAvailable.ts\<close>,
    \<open>useCan.ts\<close>, \<open>Can.tsx\<close>, \<open>useSwitchActiveRole\<close>; locale \<open>capability_view\<close>), \<open>Safe_Next\<close>
    (\<open>shared/lib/safeNext.ts\<close>), \<open>Access\<close> (\<open>route-capabilities.ts\<close>, \<open>adminLanding.ts\<close>,
    \<open>ProtectedRoute.tsx\<close>, \<open>routes/index.tsx\<close>), \<open>Auth_Mode\<close> (\<open>mode.tsx\<close>, \<open>AuthModeHydrator.tsx\<close>,
    \<open>ElevationExpiredBanner.tsx\<close>).
  \<^item> \<open>Prompts\<close>: \<open>shared/auth/elevation.tsx\<close>, \<open>clusterUnlock.tsx\<close>, the middleware of
    \<open>shared/api/client.ts\<close> and the submits of the dialog \<open>ElevationModal.tsx\<close>. The locale \<open>prompt_slot\<close> is the contract
    of both providers, \<open>exclusive_slot\<close> the stronger one that only the unlock provider keeps. What a
    page waits for is the promise of its prompt after everything that happens later to the shared slot
    (\<open>elevationOutcome\<close>, \<open>unlockOutcome\<close>).
  \<^item> \<open>Elevation_Flow\<close>: the elevation provider, its one dialog and all guarded operations as a single machine,
    with submits that stay in flight while the dialog is dismissed or taken over by another prompt.
  \<^item> \<open>Cluster_Hooks\<close>, \<open>Region_Hooks\<close>, \<open>Bucket_Hooks\<close>, \<open>Share_Hooks\<close>, \<open>Replication_Hooks\<close>,
    \<open>Admin_Hooks\<close>: every hook of \<open>shared/api/queries.ts\<close> and \<open>shared/api/mutations.ts\<close>, one definition
    per hook under the hook's own name, and one submit of \<open>UnlockClusterModal.tsx\<close>.
  \<^item> \<open>Guarded_Actions\<close>: a destructive mutation under the elevation guard, as the admin pages compose
    them. \<open>Cache_Keys\<close>: all queries together, and the soundness of their shared cache.
  \<^item> \<open>Build_Watcher\<close> (\<open>shared/api/buildWatcher.ts\<close>), \<open>Format\<close> (\<open>shared/lib/format.ts\<close>), \<open>Bulk_Keys\<close>
    (\<open>shared/lib/bulkKeyParse.ts\<close>), \<open>Js_Numbers\<close> (decimal notation and \<open>parseInt\<close>).
  \<^item> The frame of the application: \<open>Shell\<close> (\<open>AppShell.tsx\<close>, \<open>UserShell.tsx\<close>, \<open>adminPage.tsx\<close>, \<open>UserMenu.tsx\<close>,
    \<open>LoginForm.tsx\<close>), \<open>Persona\<close> (\<open>PersonaPill.tsx\<close>), \<open>Skin\<close> (\<open>useTheme.ts\<close>, \<open>useSkin.ts\<close>,
    \<open>SkinInjector.tsx\<close>).
  \<^item> Objects: \<open>Upload\<close> (\<open>doUpload\<close> of \<open>UploadDialog.tsx\<close>, request by request) and \<open>Upload_Dialog\<close> (the
    dialog with its uploads running interleaved), \<open>Object_Browser\<close> (\<open>routes/files/$regionId/b/$bid.tsx\<close>),
    \<open>Object_Versions\<close> (\<open>ObjectVersionsPanel.tsx\<close>), \<open>Bucket_Sections\<close> (\<open>VersioningSection.tsx\<close>,
    \<open>ObjectLockSection.tsx\<close>, \<open>EncryptionSection.tsx\<close>, \<open>LifecycleSection.tsx\<close>), \<open>Lifecycle_Editor\<close>
    (\<open>LifecycleRuleEditor.tsx\<close>), \<open>Public_Share\<close> (\<open>routes/share/$token.tsx\<close>).
  \<^item> Forms and wizards: \<open>First_Run\<close> (\<open>routes/admin/first-run.tsx\<close>), \<open>Add_Key\<close> (\<open>routes/files/keys/new.tsx\<close>),
    \<open>Wizards\<close> (new federation, new backup, restore), \<open>Share_Sync_Forms\<close> (new share, new sync).
  \<^item> \<open>Shown_Once\<close> (\<open>SecretShownOnceDialog.tsx\<close>, \<open>WebhookSecretShownOnceDialog.tsx\<close>): the dialog of a secret the
    server returns once, and the locale \<open>secret_page\<close>, the contract of a page that shows one. It is
    interpreted four times, on the pages of \<open>Webhook_Pages\<close> (\<open>routes/files/webhooks\<close>) and
    \<open>Service_Accounts\<close> (\<open>routes/admin/service-accounts\<close>).
  \<^item> Administration: \<open>Confirm_Dialogs\<close> (\<open>DeleteBucketConfirm.tsx\<close> and its two siblings,
    \<open>GrantBucketAccessDialog.tsx\<close>, \<open>AttachKeyToBucketDialog.tsx\<close>) with the locale \<open>confirm_page\<close>, the contract of
    a page that has an object deleted after its name was typed, interpreted on the pages of
    \<open>Key_Permissions\<close> (\<open>clusters/$cid/keys/$id.tsx\<close>), \<open>Bucket_Page\<close> (\<open>clusters/$cid/buckets/$id.tsx\<close>),
    \<open>Cluster_Page\<close> (\<open>clusters/$cid/index.tsx\<close>) and, twice, \<open>Admin_Lists\<close> (\<open>buckets/index.tsx\<close>,
    \<open>clusters/index.tsx\<close>); \<open>Cluster_Forms\<close> (\<open>clusters/new.tsx\<close>, \<open>clusters/$cid/edit.tsx\<close>),
    \<open>Policies\<close> (\<open>policies.tsx\<close>), \<open>Migrate\<close> (\<open>migrate.tsx\<close>), \<open>Cluster_Layout\<close> (\<open>clusters/$cid/layout.tsx\<close>),
    \<open>Audit_Log\<close> (\<open>audit.tsx\<close>), \<open>Usage_Page\<close> (\<open>usage.tsx\<close>), \<open>System_Page\<close> and
    \<open>System_Cards\<close> (\<open>system.tsx\<close>), \<open>Users_Page\<close> (\<open>users/index.tsx\<close>, \<open>users/new.tsx\<close>),
    \<open>Maintenance_Pages\<close> (\<open>clusters/$cid/scrub.tsx\<close>, \<open>service-accounts/$id.tsx\<close>).
  \<^item> The operator's own lists: \<open>Keychain\<close> (\<open>routes/files/index.tsx\<close>, \<open>keys/index.tsx\<close>, \<open>$regionId/index.tsx\<close>,
    \<open>UserKeyCard.tsx\<close>, \<open>InstallToHomeScreenHint.tsx\<close>), \<open>Federation_Pages\<close>
    (\<open>federated-buckets/index.tsx\<close>, \<open>$id/index.tsx\<close>), \<open>Backup_Pages\<close> (\<open>backups/index.tsx\<close>, \<open>$id/index.tsx\<close>),
    \<open>File_Lists\<close> (\<open>syncs/index.tsx\<close>, \<open>shares/index.tsx\<close>).

  \<^bold>\<open>How state and effects are modelled.\<close> React state, refs and module variables are records passed
  explicitly; an effect is a function from the old state to the new one and to the calls it makes
  (toasts, navigations, cache invalidations), in order. An \<open>async\<close> function is a tree that returns,
  throws or sends a request; \<open>run\<close> plays it against a \<open>backend\<close> that may answer each request in any
  way, depending on everything sent before, or not at all. A promise that never settles is a \<open>None\<close>
  in the result. Provider promises are numbered, and every \<open>resolve\<close> and \<open>reject\<close> is logged.

  \<^bold>\<open>What the lemmas show.\<close> Access: checks fail closed, the gate admits a page only with its
  capability, redirects settle after one round, the login redirect leaves the origin at most with a tab or a line
  break in it. Mode: the
  ticker, the exported rule and the hydrator agree and never raise a mode. Prompts: promises settle at
  most once; which provider can lose one and how; that a guarded operation is run again at most once, as an
  accepted password settles its own prompt, and for which mode and prompt this password can have been sent. Hooks: two-phase deletes, encoded paths, complete
  page walks, polling, the answers each failure turns into, and which cached queries each write
  outdates. Parsing and formatting: row validity, round trips of a CSV table and of the credentials
  snippet, rounding bounds. Frame: redirects come to rest, links lead to pages that admit the operator,
  the end of a session is announced once, nothing of a skin leaves its place in a style sheet.
  Uploads: the storage receives the file's bytes, rows follow an abstract automaton, jobs come to rest.
  Pages: a state machine each, and for the states it can reach which requests it sends: only valid,
  confirmed and single ones, about what is on screen; editors send back what they loaded; a
  secret stays on screen until it is acknowledged; a save changes only the grants, capabilities and rows
  that were touched, where the effect of a list of permissions on the grants of a key (\<open>applyPerms\<close>) is that of
  the Garage driver (\<open>internal/drivers/garage/keys.go\<close>). What a page derives (growth
  figures, a chart, an exported table, the numbers of a page bar) is within bounds, complete, or read back as
  it was. Where a page can be driven into something its texts or comments exclude, a theorem exhibits the
  events.

  \<^bold>\<open>Bounds and fuel.\<close> All functions are total; the only fuel is the page bound of \<open>walkPages\<close>, and its
  theorem holds for every bound that is at least the number of pages the server has. Numbers in
  JSON values are integers; the growth figures of the usage page, doubles in the program, are rationals
  without rounding.

  \<^bold>\<open>Not modelled.\<close> React's rendering and scheduling, the query library, the router and the HTTP
  client themselves (third party); date parsing, locale formatting and URL parsing of the browser,
  which are parameters where a definition needs them (a date conversion is a partial function from text
  to milliseconds and a function back, the URL constructor a partial function to the parts that are
  read, the clock an argument, \<open>parseFloat\<close> a partial function to the rationals, \<open>localeCompare\<close> a relation);
  the visual components: badges, banners, empty states, layout routes, and the markup around the state of the
  pages. The Go back end is another program, here any server.
\<close>

section \<open>Writes and the lists that show them\<close>

text \<open>
  C21. No list goes stale after a write: creating or deleting a key, a sync, a backup, a federation, a
  webhook or a service account outdates the list and everything cached below it, and a delete drops
  the item's own entry.
\<close>

theorem writes_outdate_lists:
  "list_all (\<lambda>(listKey, itemKey, created, deleted).
       covers created (listKey @ rest) \<and> covers deleted (listKey @ rest) \<and>
       RemoveQueries itemKey \<in> set deleted)
     [(queryKey useUserRegions, queryKey (useUserRegion (Some i)),
         onSuccess useCreateUserKey d k, onSuccess useDeleteUserRegion d i),
      (queryKey useUserSyncs, queryKey (useUserSync (Some i)),
         onSuccess useCreateUserSync d s, onSuccess useDeleteUserSync d i),
      (queryKey useUserBackups, queryKey (useUserBackup (Some i)),
         onSuccess useCreateUserBackup d b, onSuccess useDeleteUserBackup d i),
      (queryKey useFederations, queryKey (useFederation (Some i)),
         onSuccess useCreateFederation d f, onSuccess useDeleteFederation d i),
      (queryKey useWebhooks, queryKey (useWebhook (Some i)),
         onSuccess useCreateWebhook d w, onSuccess useDeleteWebhook d i),
      (queryKey useServiceAccounts, queryKey (useServiceAccount (Some i)),
         onSuccess useCreateServiceAccount d a, onSuccess useDeleteServiceAccount d i)]"
  by (simp add: regions.created_outdates regions.deleted_outdates regions.delete_drops
      syncs.created_outdates syncs.deleted_outdates syncs.delete_drops
      backups.created_outdates backups.deleted_outdates backups.delete_drops
      federations.created_outdates federations.deleted_outdates federations.delete_drops
      webhooks.created_outdates webhooks.deleted_outdates webhooks.delete_drops
      accounts.created_outdates accounts.deleted_outdates accounts.delete_drops)

end
